(* ===== verification/Prelude.thy ===== *)
theory Prelude
  imports Main "HOL-Library.Sublist" "HOL-Library.Char_ord" "HOL-Library.List_Lexorder"
    "HOL-Library.Multiset"
begin

text \<open>
  What every component of the development shares: the fact collections the component
  proofs draw on, operations with an explicit state and an explicit error, the
  Python idioms \<open>max(..., key=...)\<close> and \<open>any/all\<close>, keyed tables (SQLite tables and
  dictionaries kept in insertion order) and the ranked types the verdicts live in.
\<close>

section \<open>Fact collections\<close>

named_theorems op_defs \<open>the combinators of stateful operations, for unfolding\<close>
named_theorems table_simps \<open>lookup after an update or an insertion into a table\<close>

section \<open>Stateful operations that may raise\<close>

text \<open>
  A method that reads and writes a state and may raise is a function from the state to a
  pair: the error or the result, and the state the method leaves behind (also when it
  raises).
\<close>

type_synonym ('s, 'e, 'a) op = "'s \<Rightarrow> ('e + 'a) \<times> 's"

definition op_return :: "'a \<Rightarrow> ('s, 'e, 'a) op" where
  [op_defs]: "op_return x s = (Inr x, s)"

definition op_raise :: "'e \<Rightarrow> ('s, 'e, 'a) op" where
  [op_defs]: "op_raise e s = (Inl e, s)"

definition op_bind :: "('s, 'e, 'a) op \<Rightarrow> ('a \<Rightarrow> ('s, 'e, 'b) op) \<Rightarrow> ('s, 'e, 'b) op" where
  [op_defs]: "op_bind m f s = (case m s of (Inl e, t) \<Rightarrow> (Inl e, t) | (Inr x, t) \<Rightarrow> f x t)"

definition op_catch :: "('s, 'e, 'a) op \<Rightarrow> ('e \<Rightarrow> ('s, 'e, 'a) op) \<Rightarrow> ('s, 'e, 'a) op" where
  [op_defs]: "op_catch m h s = (case m s of (Inl e, t) \<Rightarrow> h e t | (Inr x, t) \<Rightarrow> (Inr x, t))"

text \<open>\<open>try: ... except\<close> that hands the error to what follows, and an operation of a part of
  the state run on the whole.\<close>

definition op_try :: "('s, 'e, 'a) op \<Rightarrow> ('s, 'f, 'e + 'a) op" where
  [op_defs]: "op_try m s = (case m s of (r, t) \<Rightarrow> (Inr r, t))"

definition op_on ::
    "('s \<Rightarrow> 't) \<Rightarrow> ('t \<Rightarrow> 's \<Rightarrow> 's) \<Rightarrow> ('e \<Rightarrow> 'f) \<Rightarrow> ('t, 'e, 'a) op \<Rightarrow> ('s, 'f, 'a) op" where
  [op_defs]: "op_on part put conv m s =
     (case m (part s) of
        (Inl e, t) \<Rightarrow> (Inl (conv e), put t s)
      | (Inr x, t) \<Rightarrow> (Inr x, put t s))"

lemma op_on_Inr:
  "op_on part put conv m s = (Inr x, s') \<longleftrightarrow> (\<exists>t. m (part s) = (Inr x, t) \<and> s' = put t s)"
  by (auto simp: op_defs split: prod.splits sum.splits)

lemma op_on_Inl:
  "op_on part put conv m s = (Inl f, s') \<longleftrightarrow>
     (\<exists>e t. m (part s) = (Inl e, t) \<and> f = conv e \<and> s' = put t s)"
  by (auto simp: op_defs split: prod.splits sum.splits)

lemma op_on_split:
  "op_on part put conv m s = (r, s') \<Longrightarrow> \<exists>q t. m (part s) = (q, t) \<and> s' = put t s"
  by (auto simp: op_defs split: prod.splits sum.splits)

lemma op_try_eq:
  "op_try m s = (r, s') \<longleftrightarrow> (\<exists>q. m s = (q, s') \<and> r = Inr q)"
  by (auto simp: op_defs split: prod.splits)

lemma op_bind_try: "op_bind (op_try m) f s = (case m s of (r, t) \<Rightarrow> f r t)"
  by (simp add: op_defs split: prod.splits)

lemma op_bind_return [simp]: "op_bind (op_return x) f = f x"
  by (rule ext) (simp add: op_defs)

lemma op_bind_raise [simp]: "op_bind (op_raise e) f = op_raise e"
  by (rule ext) (simp add: op_defs)

lemma op_bind_assoc: "op_bind (op_bind m f) g = op_bind m (\<lambda>x. op_bind (f x) g)"
  by (rule ext) (simp add: op_defs split: prod.splits sum.splits)

lemma op_bind_Inr:
  "op_bind m f s = (Inr y, t) \<longleftrightarrow> (\<exists>x u. m s = (Inr x, u) \<and> f x u = (Inr y, t))"
  by (auto simp: op_defs split: prod.splits sum.splits)

text \<open>What an operation keeps: a predicate on states that holds before and after.\<close>

definition op_keeps :: "('s \<Rightarrow> bool) \<Rightarrow> ('s, 'e, 'a) op \<Rightarrow> bool" where
  "op_keeps P m \<longleftrightarrow> (\<forall>s r t. P s \<longrightarrow> m s = (r, t) \<longrightarrow> P t)"

lemma op_keepsD: "op_keeps P m \<Longrightarrow> P s \<Longrightarrow> m s = (r, t) \<Longrightarrow> P t"
  by (auto simp: op_keeps_def)

lemma op_keeps_return [intro]: "op_keeps P (op_return x)"
  by (auto simp: op_keeps_def op_defs)

lemma op_keeps_raise [intro]: "op_keeps P (op_raise e)"
  by (auto simp: op_keeps_def op_defs)

lemma op_keeps_bind [intro]:
  "op_keeps P m \<Longrightarrow> (\<And>x. op_keeps P (f x)) \<Longrightarrow> op_keeps P (op_bind m f)"
proof -
  assume m: "op_keeps P m" and f: "\<And>x. op_keeps P (f x)"
  show "op_keeps P (op_bind m f)"
    unfolding op_keeps_def
  proof (intro allI impI)
    fix s r t
    assume s: "P s" and run: "op_bind m f s = (r, t)"
    obtain r' u where mu: "m s = (r', u)" by (cases "m s")
    have u: "P u" by (rule op_keepsD[OF m s mu])
    show "P t"
    proof (cases r')
      case (Inl e)
      with run mu u show ?thesis by (simp add: op_bind_def)
    next
      case (Inr x)
      with run mu have "f x u = (r, t)" by (simp add: op_bind_def)
      then show ?thesis by (rule op_keepsD[OF f u])
    qed
  qed
qed

text \<open>
  Triples: from a state with \<open>P\<close>, a result comes with \<open>Q\<close> and an error with \<open>E\<close>.
\<close>

definition op_triple ::
    "('s \<Rightarrow> bool) \<Rightarrow> ('s, 'e, 'a) op \<Rightarrow> ('a \<Rightarrow> 's \<Rightarrow> bool) \<Rightarrow> ('e \<Rightarrow> 's \<Rightarrow> bool) \<Rightarrow> bool" where
  "op_triple P m Q E \<longleftrightarrow>
     (\<forall>s. P s \<longrightarrow> (case m s of (r, t) \<Rightarrow> (case r of Inl e \<Rightarrow> E e t | Inr x \<Rightarrow> Q x t)))"

lemma op_tripleI:
  "(\<And>s e t. P s \<Longrightarrow> m s = (Inl e, t) \<Longrightarrow> E e t) \<Longrightarrow> (\<And>s x t. P s \<Longrightarrow> m s = (Inr x, t) \<Longrightarrow> Q x t) \<Longrightarrow>
     op_triple P m Q E"
  by (auto simp: op_triple_def split: prod.splits sum.splits)

lemma op_triple_Inr: "op_triple P m Q E \<Longrightarrow> P s \<Longrightarrow> m s = (Inr x, t) \<Longrightarrow> Q x t"
  unfolding op_triple_def by fastforce

lemma op_triple_Inl: "op_triple P m Q E \<Longrightarrow> P s \<Longrightarrow> m s = (Inl e, t) \<Longrightarrow> E e t"
  unfolding op_triple_def by fastforce

lemma op_triple_return: "(\<And>s. P s \<Longrightarrow> Q x s) \<Longrightarrow> op_triple P (op_return x) Q E"
  by (auto simp: op_triple_def op_return_def)

lemma op_triple_raise: "(\<And>s. P s \<Longrightarrow> E e s) \<Longrightarrow> op_triple P (op_raise e) Q E"
  by (auto simp: op_triple_def op_raise_def)

lemma op_triple_bind:
  assumes m: "op_triple P m R E" and f: "\<And>x. op_triple (R x) (f x) Q E"
  shows "op_triple P (op_bind m f) Q E"
  by (rule op_tripleI)
    (auto simp: op_bind_def split: prod.splits sum.splits dest: op_triple_Inl[OF m] op_triple_Inr[OF m]
      op_triple_Inl[OF f] op_triple_Inr[OF f])

lemma op_triple_try:
  assumes m: "op_triple P m R E" and q: "\<And>x s. R x s \<Longrightarrow> Q (Inr x) s" "\<And>e s. E e s \<Longrightarrow> Q (Inl e) s"
  shows "op_triple P (op_try m) Q F"
proof (rule op_tripleI)
  fix s x t assume s: "P s" and run: "op_try m s = (Inr x, t)"
  have mu: "m s = (x, t)" using run by (auto simp: op_try_def split: prod.splits)
  show "Q x t"
  proof (cases x)
    case (Inl e)
    then show ?thesis using q(2) op_triple_Inl[OF m s] mu by simp
  next
    case (Inr y)
    then show ?thesis using q(1) op_triple_Inr[OF m s] mu by simp
  qed
qed (auto simp: op_try_def split: prod.splits)

lemma op_triple_catch:
  assumes m: "op_triple P m Q R" and h: "\<And>e. op_triple (R e) (h e) Q E"
  shows "op_triple P (op_catch m h) Q E"
  by (rule op_tripleI)
    (auto simp: op_catch_def split: prod.splits sum.splits dest: op_triple_Inl[OF m] op_triple_Inr[OF m]
      op_triple_Inl[OF h] op_triple_Inr[OF h])

lemma op_triple_weaken:
  "op_triple P m Q E \<Longrightarrow> (\<And>s. P' s \<Longrightarrow> P s) \<Longrightarrow> (\<And>x s. Q x s \<Longrightarrow> Q' x s) \<Longrightarrow> (\<And>e s. E e s \<Longrightarrow> E' e s) \<Longrightarrow>
     op_triple P' m Q' E'"
  by (rule op_tripleI) (blast dest: op_triple_Inl op_triple_Inr)+

section \<open>Outcomes\<close>

definition is_ok :: "'e + 'a \<Rightarrow> bool" where
  "is_ok r = (case r of Inl _ \<Rightarrow> False | Inr _ \<Rightarrow> True)"

lemma is_ok_simps [simp]: "is_ok (Inr x) = True" "is_ok (Inl e) = False"
  by (simp_all add: is_ok_def)

lemma is_ok_iff: "is_ok r \<longleftrightarrow> (\<exists>x. r = Inr x)"
  by (cases r) simp_all

section \<open>Tables\<close>

text \<open>
  A table is a list of rows in the order of insertion; \<open>row_get\<close> is a
  \<open>SELECT ... WHERE key = ?\<close> that fetches one row, \<open>row_update\<close> an
  \<open>UPDATE ... WHERE key = ?\<close>.
\<close>

definition row_get :: "('r \<Rightarrow> 'k) \<Rightarrow> 'k \<Rightarrow> 'r list \<Rightarrow> 'r option" where
  "row_get key k rows = find (\<lambda>r. key r = k) rows"

definition row_update :: "('r \<Rightarrow> 'k) \<Rightarrow> 'k \<Rightarrow> ('r \<Rightarrow> 'r) \<Rightarrow> 'r list \<Rightarrow> 'r list" where
  "row_update key k f rows = map (\<lambda>r. if key r = k then f r else r) rows"

lemma row_get_Nil [simp, table_simps]: "row_get key k [] = None"
  by (simp add: row_get_def)

lemma row_get_Cons [table_simps]:
  "row_get key k (r # rows) = (if key r = k then Some r else row_get key k rows)"
  by (simp add: row_get_def)

lemma row_get_SomeD: "row_get key k rows = Some r \<Longrightarrow> key r = k \<and> r \<in> set rows"
  by (auto simp: row_get_def find_Some_iff)

lemma row_get_None_iff: "row_get key k rows = None \<longleftrightarrow> k \<notin> key ` set rows"
  by (induction rows) (auto simp: table_simps)

lemma row_get_append [table_simps]:
  "row_get key k (xs @ ys) =
     (case row_get key k xs of None \<Rightarrow> row_get key k ys | Some r \<Rightarrow> Some r)"
  by (induction xs) (auto simp: table_simps)

lemma row_get_update [table_simps]:
  assumes "\<And>r. key (f r) = key r"
  shows "row_get key k (row_update key j f rows) =
     (if k = j then map_option f (row_get key k rows) else row_get key k rows)"
  using assms by (induction rows) (auto simp: row_update_def row_get_def)

lemma row_get_distinct:
  "distinct (map key rows) \<Longrightarrow> r \<in> set rows \<Longrightarrow> row_get key (key r) rows = Some r"
  by (induction rows) (auto simp: table_simps)

lemma row_update_keys [simp]:
  assumes "\<And>r. key (f r) = key r"
  shows "map key (row_update key k f rows) = map key rows"
  using assms by (simp add: row_update_def)

lemma row_update_map_other:
  assumes "\<And>r. g (f r) = g r"
  shows "map g (row_update key k f rows) = map g rows"
  using assms by (simp add: row_update_def)

lemma row_update_length [simp]: "length (row_update key k f rows) = length rows"
  by (simp add: row_update_def)

lemma set_row_updateD:
  "r \<in> set (row_update key k f rows) \<Longrightarrow>
     (\<exists>q \<in> set rows. key q = k \<and> r = f q) \<or> (r \<in> set rows \<and> key r \<noteq> k)"
  by (auto simp: row_update_def split: if_splits)

text \<open>\<open>d[key] = value\<close>: a key keeps its place.\<close>

definition keyed_put :: "('r \<Rightarrow> 'k) \<Rightarrow> 'r \<Rightarrow> 'r list \<Rightarrow> 'r list" where
  "keyed_put key r rows = (if key r \<in> key ` set rows then row_update key (key r) (\<lambda>_. r) rows else rows @ [r])"

lemma keyed_put_keys: "key ` set (keyed_put key r rows) = insert (key r) (key ` set rows)"
proof (cases "key r \<in> key ` set rows")
  case True
  have "map key (row_update key (key r) (\<lambda>_. r) rows) = map key rows" by (auto simp: row_update_def)
  then have "key ` set (row_update key (key r) (\<lambda>_. r) rows) = key ` set rows" by (metis set_map)
  then show ?thesis using True by (simp add: keyed_put_def insert_absorb)
qed (simp add: keyed_put_def)

lemma keyed_put_distinct: "distinct (map key rows) \<Longrightarrow> distinct (map key (keyed_put key r rows))"
proof -
  have "map key (row_update key (key r) (\<lambda>_. r) rows) = map key rows" by (auto simp: row_update_def)
  then show "distinct (map key rows) \<Longrightarrow> ?thesis" by (simp add: keyed_put_def)
qed

lemma keyed_put_from: "set (keyed_put key r rows) \<subseteq> insert r (set rows)"
  by (auto simp: keyed_put_def row_update_def)

section \<open>Steps that may raise\<close>

text \<open>Running a list of steps that may raise.\<close>

fun each_ok :: "('a \<Rightarrow> 's \<Rightarrow> 'e + 's) \<Rightarrow> 'a list \<Rightarrow> 's \<Rightarrow> 'e + 's" where
  "each_ok f [] s = Inr s"
| "each_ok f (x # xs) s = (case f x s of Inl e \<Rightarrow> Inl e | Inr t \<Rightarrow> each_ok f xs t)"

lemma each_ok_keeps:
  "each_ok f xs s = Inr t \<Longrightarrow> P s \<Longrightarrow> (\<And>x s t. x \<in> set xs \<Longrightarrow> P s \<Longrightarrow> f x s = Inr t \<Longrightarrow> P t) \<Longrightarrow> P t"
  by (induction f xs s rule: each_ok.induct) (auto split: sum.splits)

lemma each_ok_reaches:
  assumes "each_ok f xs s = Inr t" "x \<in> set xs"
    and "\<And>s t. f x s = Inr t \<Longrightarrow> Q t" "\<And>y s t. Q s \<Longrightarrow> f y s = Inr t \<Longrightarrow> Q t"
  shows "Q t"
  using assms(1,2)
proof (induction xs arbitrary: s)
  case (Cons y ys)
  then obtain u where u: "f y s = Inr u" "each_ok f ys u = Inr t" by (auto split: sum.splits)
  show ?case
  proof (cases "x = y")
    case True
    then have "Q u" using u(1) assms(3) by blast
    then show ?thesis using each_ok_keeps[OF u(2), of Q] assms(4) by blast
  next
    case False
    then show ?thesis using Cons.IH[OF u(2)] Cons.prems(2) by simp
  qed
qed simp

section \<open>Ranked enumerations\<close>

text \<open>
  Python's \<open>max(xs, key=rank)\<close>: the first element of greatest rank. The empty
  sequence raises \<open>ValueError\<close>, which is \<open>None\<close> here.
\<close>

fun max_by :: "('a \<Rightarrow> nat) \<Rightarrow> 'a list \<Rightarrow> 'a option" where
  "max_by rank [] = None"
| "max_by rank (x # xs) =
     Some (fold (\<lambda>y best. if rank best < rank y then y else best) xs x)"

text \<open>
  The verdict types (decisions, risk levels, data labels) are finite and ordered by an
  injective rank. The locale states what the code relies on when it fans verdicts in: the
  result is one of the inputs, none outranks it, and the order of the inputs does not
  matter.
\<close>

lemma fold_max_by_in:
  "fold (\<lambda>y best. if rank best < rank y then y else best) xs x \<in> insert x (set xs)"
proof (induction xs arbitrary: x)
  case Nil
  then show ?case by simp
next
  case (Cons y ys)
  show ?case using Cons.IH[of "if rank x < rank y then y else x"]
    by (simp split: if_splits) blast+
qed

lemma fold_max_by_ge:
  fixes rank :: "'a \<Rightarrow> nat"
  shows "z \<in> insert x (set xs) \<Longrightarrow>
   rank z \<le> rank (fold (\<lambda>y best. if rank best < rank y then y else best) xs x)"
proof (induction xs arbitrary: x z)
  case Nil
  then show ?case by simp
next
  case (Cons y ys)
  let ?b = "if rank x < rank y then y else x"
  have b: "rank ?b \<le> rank (fold (\<lambda>y best. if rank best < rank y then y else best) ys ?b)"
    by (rule Cons.IH) simp
  show ?case
  proof (cases "z \<in> set ys")
    case True
    then show ?thesis using Cons.IH[of z ?b] by simp
  next
    case False
    with Cons.prems have "rank z \<le> rank ?b" by auto
    with b show ?thesis by simp
  qed
qed

lemma max_by_None [simp]: "max_by rank xs = None \<longleftrightarrow> xs = []"
  by (cases xs) simp_all

locale ranked =
  fixes rank :: "'a \<Rightarrow> nat"
  assumes rank_inj: "rank x = rank y \<Longrightarrow> x = y"
begin

lemma max_in: "max_by rank xs = Some m \<Longrightarrow> m \<in> set xs"
  by (cases xs) (use fold_max_by_in[of rank] in force)+

lemma max_ge: "max_by rank xs = Some m \<Longrightarrow> x \<in> set xs \<Longrightarrow> rank x \<le> rank m"
  by (cases xs) (use fold_max_by_ge[of x _ _ rank] in auto)

lemma max_unique:
  assumes "m \<in> set xs" "\<And>x. x \<in> set xs \<Longrightarrow> rank x \<le> rank m"
  shows "max_by rank xs = Some m"
proof -
  from assms(1) obtain n where n: "max_by rank xs = Some n"
    by (cases xs) auto
  have "rank n = rank m"
    using max_ge[OF n assms(1)] assms(2)[OF max_in[OF n]] by simp
  with n rank_inj show ?thesis by blast
qed

lemma max_set_cong: "set xs = set ys \<Longrightarrow> max_by rank xs = max_by rank ys"
proof (cases "max_by rank ys")
  case None
  moreover assume "set xs = set ys"
  ultimately show ?thesis by (cases xs) auto
next
  case (Some m)
  assume eq: "set xs = set ys"
  show ?thesis
    unfolding Some by (rule max_unique) (auto simp: eq max_in[OF Some] max_ge[OF Some])
qed

text \<open>An element of top rank decides: this is what "fail closed" means at a fan-in.\<close>

lemma max_top:
  assumes "t \<in> set xs" "\<And>x. rank x \<le> rank t"
  shows "max_by rank xs = Some t"
  using assms by (intro max_unique)

lemma max_append_ge:
  "max_by rank xs = Some m \<Longrightarrow> max_by rank (xs @ ys) = Some n \<Longrightarrow> rank m \<le> rank n"
  using max_ge[of "xs @ ys" n m] max_in[of xs m] by simp

end

end
