(* ===== verification/PyValues.thy ===== *)
theory PyValues
  imports Prelude
begin

text \<open>
  The Python values the program handles: the JSON-like values of tool arguments and
  audit events, \<open>str()\<close> and \<open>repr()\<close> of them, their equality and truth value,
  canonical JSON (\<open>json.dumps(..., sort_keys=True, separators=(",", ":"))\<close>) and the
  string methods used by the guards. Strings are lists of characters; case folding and
  white space are those of the ASCII range. A float is carried by its \<open>repr\<close>, which is
  all the program ever observes of one inside a tool argument.
\<close>

section \<open>Strings\<close>

definition digit_char :: "nat \<Rightarrow> char" where
  "digit_char d = char_of (48 + d)"

fun show_nat :: "nat \<Rightarrow> string" where
  "show_nat n = (if n < 10 then [digit_char n] else show_nat (n div 10) @ [digit_char (n mod 10)])"

declare show_nat.simps [simp del]

definition show_int :: "int \<Rightarrow> string" where
  "show_int i = (if i < 0 then CHR ''-'' # show_nat (nat (- i)) else show_nat (nat i))"

definition is_digit :: "char \<Rightarrow> bool" where
  "is_digit c \<longleftrightarrow> CHR ''0'' \<le> c \<and> c \<le> CHR ''9''"

definition is_lower :: "char \<Rightarrow> bool" where
  "is_lower c \<longleftrightarrow> CHR ''a'' \<le> c \<and> c \<le> CHR ''z''"

definition is_upper :: "char \<Rightarrow> bool" where
  "is_upper c \<longleftrightarrow> CHR ''A'' \<le> c \<and> c \<le> CHR ''Z''"

definition char_lower :: "char \<Rightarrow> char" where
  "char_lower c = (if is_upper c then char_of (of_char c + (32 :: nat)) else c)"

text \<open>\<open>str.casefold()\<close> and \<open>str.lower()\<close> agree on ASCII.\<close>

definition casefold :: "string \<Rightarrow> string" where
  "casefold s = map char_lower s"

text \<open>\<open>str.upper()\<close>, on ASCII.\<close>

definition char_upper :: "char \<Rightarrow> char" where
  "char_upper c = (if is_lower c then char_of (of_char c - (32 :: nat)) else c)"

definition upper :: "string \<Rightarrow> string" where
  "upper s = map char_upper s"

text \<open>The length of \<open>s.encode("utf-8")\<close>: characters from U+0080 on take two bytes.\<close>

definition utf8_len :: "string \<Rightarrow> nat" where
  "utf8_len s = sum_list (map (\<lambda>c. if (of_char c :: nat) < 128 then 1 else 2) s)"

definition is_space :: "char \<Rightarrow> bool" where
  "is_space c \<longleftrightarrow> c \<in> {CHR '' '', CHR 0x09, CHR 0x0A, CHR 0x0B, CHR 0x0C, CHR 0x0D,
     CHR 0x1C, CHR 0x1D, CHR 0x1E, CHR 0x1F}"

definition lstrip_by :: "(char \<Rightarrow> bool) \<Rightarrow> string \<Rightarrow> string" where
  "lstrip_by p s = dropWhile p s"

definition rstrip_by :: "(char \<Rightarrow> bool) \<Rightarrow> string \<Rightarrow> string" where
  "rstrip_by p s = rev (dropWhile p (rev s))"

definition strip :: "string \<Rightarrow> string" where
  "strip s = lstrip_by is_space (rstrip_by is_space s)"

definition startswith :: "string \<Rightarrow> string \<Rightarrow> bool" where
  "startswith s p \<longleftrightarrow> prefix p s"

definition endswith :: "string \<Rightarrow> string \<Rightarrow> bool" where
  "endswith s p \<longleftrightarrow> suffix p s"

text \<open>\<open>needle in s\<close>\<close>

fun contains :: "string \<Rightarrow> string \<Rightarrow> bool" where
  "contains [] needle = (needle = [])"
| "contains (c # s) needle = (prefix needle (c # s) \<or> contains s needle)"

text \<open>\<open>s.split(c)\<close> for a one-character separator: never empty.\<close>

fun split_on :: "char \<Rightarrow> string \<Rightarrow> string list" where
  "split_on c [] = [[]]"
| "split_on c (x # s) =
     (if x = c then [] # split_on c s
      else (case split_on c s of [] \<Rightarrow> [[x]] | p # ps \<Rightarrow> (x # p) # ps))"

fun join :: "string \<Rightarrow> string list \<Rightarrow> string" where
  "join sep [] = []"
| "join sep [s] = s"
| "join sep (s # t # ss) = s @ sep @ join sep (t # ss)"

text \<open>\<open>s.rsplit(c, 1)[-1]\<close>: what follows the last separator, or all of \<open>s\<close>.\<close>

definition after_last :: "char \<Rightarrow> string \<Rightarrow> string" where
  "after_last c s = rev (takeWhile (\<lambda>x. x \<noteq> c) (rev s))"

text \<open>\<open>s.partition(c)\<close>: what precedes the first separator, whether there is one, and
  what follows it.\<close>

definition partition_on :: "char \<Rightarrow> string \<Rightarrow> string \<times> bool \<times> string" where
  "partition_on c s =
     (case dropWhile (\<lambda>x. x \<noteq> c) s of
        [] \<Rightarrow> (s, False, [])
      | _ # t \<Rightarrow> (takeWhile (\<lambda>x. x \<noteq> c) s, True, t))"

lemma contains_iff_sublist: "contains s n \<longleftrightarrow> sublist n s"
  by (induction s) (auto simp: sublist_Cons_right)

lemma split_on_not_Nil [simp]: "split_on c s \<noteq> []"
  by (induction s) (auto split: list.splits)

lemma join_split_on: "join [c] (split_on c s) = s"
proof (induction s)
  case Nil
  then show ?case by simp
next
  case (Cons x s)
  obtain p ps where sp: "split_on c s = p # ps" by (cases "split_on c s") auto
  with Cons.IH show ?case by (cases ps) auto
qed

lemma split_on_single [simp]: "c \<notin> set s \<Longrightarrow> split_on c s = [s]"
  by (induction s) auto

lemma split_on_no_sep: "p \<in> set (split_on c s) \<Longrightarrow> c \<notin> set p"
proof (induction s arbitrary: p)
  case Nil
  then show ?case by simp
next
  case (Cons x s)
  obtain q qs where sp: "split_on c s = q # qs" by (cases "split_on c s") auto
  with Cons show ?case by (auto split: if_splits)
qed

lemma split_on_no_occ: "c \<notin> set s \<Longrightarrow> split_on c s = [s]"
  by (induction s) auto

lemma split_on_append:
  "split_on c (s @ c # t) = split_on c s @ split_on c t"
proof (induction s)
  case Nil
  then show ?case by simp
next
  case (Cons x s)
  obtain q qs where sp: "split_on c s = q # qs" by (cases "split_on c s") auto
  with Cons show ?case by auto
qed

lemma casefold_append: "casefold (s @ t) = casefold s @ casefold t"
  by (simp add: casefold_def)

lemma of_char_lower: "is_upper c \<Longrightarrow> of_char (char_lower c) = (of_char c + 32 :: nat)"
  by (auto simp: char_lower_def is_upper_def less_eq_char_def of_char_of)

lemma char_lower_not_upper: "\<not> is_upper (char_lower c)"
proof (cases "is_upper c")
  case True
  then have "of_char (char_lower c) = (of_char c + 32 :: nat)" by (rule of_char_lower)
  with True show ?thesis by (auto simp: is_upper_def less_eq_char_def)
next
  case False
  then show ?thesis by (simp add: char_lower_def)
qed

lemma char_lower_idem [simp]: "char_lower (char_lower c) = char_lower c"
  using char_lower_not_upper[of c] by (simp add: char_lower_def[of "char_lower c"])

lemma casefold_idem [simp]: "casefold (casefold s) = casefold s"
  by (simp add: casefold_def)

section \<open>Values\<close>

datatype pyval =
    PNone
  | PBool bool
  | PInt int
  | PFloat string
  | PStr string
  | PList "pyval list"
  | PDict "(string \<times> pyval) list"

type_synonym pydict = "(string \<times> pyval) list"

definition dict_get :: "pydict \<Rightarrow> string \<Rightarrow> pyval option" where
  "dict_get d k = map_of d k"

text \<open>\<open>d.get(k)\<close> and \<open>d.get(k, default)\<close>\<close>

definition get_or_none :: "pydict \<Rightarrow> string \<Rightarrow> pyval" where
  "get_or_none d k = (case dict_get d k of None \<Rightarrow> PNone | Some v \<Rightarrow> v)"

text \<open>\<open>repr\<close> of a string: single quotes unless it holds one and no double quote.\<close>

definition hex_digit :: "nat \<Rightarrow> char" where
  "hex_digit d = (if d < 10 then char_of (48 + d) else char_of (87 + d))"

definition repr_char :: "char \<Rightarrow> char \<Rightarrow> string" where
  "repr_char q c =
     (if c = q \<or> c = CHR 0x5C then [CHR 0x5C, c]
      else if c = CHR 0x09 then [CHR 0x5C, CHR ''t'']
      else if c = CHR 0x0A then [CHR 0x5C, CHR ''n'']
      else if c = CHR 0x0D then [CHR 0x5C, CHR ''r'']
      else if of_char c < (32 :: nat) \<or> c = CHR 0x7F then
        [CHR 0x5C, CHR ''x'', hex_digit (of_char c div 16), hex_digit (of_char c mod 16)]
      else [c])"

definition repr_str :: "string \<Rightarrow> string" where
  "repr_str s =
     (let q = (if CHR 0x27 \<in> set s \<and> CHR 0x22 \<notin> set s then CHR 0x22 else CHR 0x27)
      in [q] @ concat (map (repr_char q) s) @ [q])"

fun py_repr :: "pyval \<Rightarrow> string" where
  "py_repr PNone = ''None''"
| "py_repr (PBool b) = (if b then ''True'' else ''False'')"
| "py_repr (PInt i) = show_int i"
| "py_repr (PFloat r) = r"
| "py_repr (PStr s) = repr_str s"
| "py_repr (PList xs) = ''['' @ join '', '' (map py_repr xs) @ '']''"
| "py_repr (PDict kvs) =
     [CHR 0x7B] @ join '', '' (map (\<lambda>(k, v). repr_str k @ '': '' @ py_repr v) kvs) @ [CHR 0x7D]"

text \<open>\<open>str(v)\<close>\<close>

definition py_str :: "pyval \<Rightarrow> string" where
  "py_str v = (case v of PStr s \<Rightarrow> s | _ \<Rightarrow> py_repr v)"

text \<open>\<open>str(d.get(k, ""))\<close>, which is how the guards read a tool argument.\<close>

definition str_arg :: "pydict \<Rightarrow> string \<Rightarrow> string" where
  "str_arg d k = (case dict_get d k of None \<Rightarrow> [] | Some v \<Rightarrow> py_str v)"

lemma str_arg_PStr [simp]: "dict_get d k = Some (PStr s) \<Longrightarrow> str_arg d k = s"
  by (simp add: str_arg_def py_str_def)

fun py_truthy :: "pyval \<Rightarrow> bool" where
  "py_truthy PNone = False"
| "py_truthy (PBool b) = b"
| "py_truthy (PInt i) = (i \<noteq> 0)"
| "py_truthy (PFloat r) = (r \<noteq> ''0.0'' \<and> r \<noteq> ''-0.0'')"
| "py_truthy (PStr s) = (s \<noteq> [])"
| "py_truthy (PList xs) = (xs \<noteq> [])"
| "py_truthy (PDict kvs) = (kvs \<noteq> [])"

text \<open>
  \<open>==\<close> on values: booleans and integers compare as numbers, a float equals an integer
  when it is that integer's float, dictionaries compare without their order.
\<close>

definition int_float_eq :: "int \<Rightarrow> string \<Rightarrow> bool" where
  "int_float_eq i r \<longleftrightarrow> r = show_int i @ ''.0'' \<or> (i = 0 \<and> r = ''-0.0'')"

definition float_eq :: "string \<Rightarrow> string \<Rightarrow> bool" where
  "float_eq a b \<longleftrightarrow> a \<noteq> ''nan'' \<and>
     (a = b \<or> {a, b} \<subseteq> {''0.0'', ''-0.0''})"

fun py_eq :: "pyval \<Rightarrow> pyval \<Rightarrow> bool" where
  "py_eq PNone w = (w = PNone)"
| "py_eq (PBool a) w =
     (case w of PBool b \<Rightarrow> a = b | PInt j \<Rightarrow> of_bool a = j
      | PFloat r \<Rightarrow> int_float_eq (of_bool a) r | _ \<Rightarrow> False)"
| "py_eq (PInt i) w =
     (case w of PBool b \<Rightarrow> i = of_bool b | PInt j \<Rightarrow> i = j
      | PFloat r \<Rightarrow> int_float_eq i r | _ \<Rightarrow> False)"
| "py_eq (PFloat r) w =
     (case w of PBool b \<Rightarrow> int_float_eq (of_bool b) r | PInt j \<Rightarrow> int_float_eq j r
      | PFloat q \<Rightarrow> float_eq r q | _ \<Rightarrow> False)"
| "py_eq (PStr s) w = (w = PStr s)"
| "py_eq (PList xs) w =
     (case w of PList ys \<Rightarrow>
        list_all2 py_eq xs ys
      | _ \<Rightarrow> False)"
| "py_eq (PDict xs) w =
     (case w of PDict ys \<Rightarrow>
        length xs = length ys \<and>
        list_all (\<lambda>(k, v). case map_of ys k of None \<Rightarrow> False | Some u \<Rightarrow> py_eq v u) xs
      | _ \<Rightarrow> False)"

section \<open>Canonical JSON\<close>

definition json_char :: "char \<Rightarrow> string" where
  "json_char c =
     (if c = CHR 0x22 \<or> c = CHR 0x5C then [CHR 0x5C, c]
      else if c = CHR 0x0A then [CHR 0x5C, CHR ''n'']
      else if c = CHR 0x0D then [CHR 0x5C, CHR ''r'']
      else if c = CHR 0x09 then [CHR 0x5C, CHR ''t'']
      else if c = CHR 0x0C then [CHR 0x5C, CHR ''f'']
      else if c = CHR 0x08 then [CHR 0x5C, CHR ''b'']
      else if of_char c < (32 :: nat) then
        [CHR 0x5C, CHR ''u'', CHR ''0'', CHR ''0'',
         hex_digit (of_char c div 16), hex_digit (of_char c mod 16)]
      else [c])"

definition json_string :: "string \<Rightarrow> string" where
  "json_string s = [CHR 0x22] @ concat (map json_char s) @ [CHR 0x22]"

fun json_dumps :: "pyval \<Rightarrow> string" where
  "json_dumps PNone = ''null''"
| "json_dumps (PBool b) = (if b then ''true'' else ''false'')"
| "json_dumps (PInt i) = show_int i"
| "json_dumps (PFloat r) = r"
| "json_dumps (PStr s) = json_string s"
| "json_dumps (PList xs) = ''['' @ join '','' (map json_dumps xs) @ '']''"
| "json_dumps (PDict kvs) =
     [CHR 0x7B] @
     join '',''
       (map (\<lambda>(k, t). json_string k @ '':'' @ t)
         (sort_key fst (map (\<lambda>(k, v). (k, json_dumps v)) kvs))) @
     [CHR 0x7D]"

text \<open>
  Canonical JSON does not depend on the order in which a dictionary was built: this is
  what \<open>sort_keys=True\<close> buys, and what makes the fingerprints of tool arguments and of
  approval requests stable.
\<close>

lemma sort_key_perm:
  assumes "mset xs = mset ys" "distinct (map f xs)"
  shows "sort_key f xs = sort_key f ys"
  using assms by (intro sort_key_inj_key_eq) (auto simp: distinct_map)

lemma json_dumps_key_order:
  assumes "mset xs = mset ys" "distinct (map fst xs)"
  shows "json_dumps (PDict xs) = json_dumps (PDict ys)"
proof -
  let ?j = "\<lambda>(k, v). (k, json_dumps v)"
  have "sort_key fst (map ?j xs) = sort_key fst (map ?j ys)"
    using assms by (intro sort_key_perm) (simp_all add: comp_def case_prod_unfold)
  then show ?thesis by simp
qed

end
