(* ===== verification/Contracts.thy ===== *)
theory Contracts
  imports Complex_Main PyValues
begin

text \<open>
  The versioned cross-module contracts of \<^verbatim>\<open>safeagent_gov/contracts.py\<close>: the verdict
  and label enumerations with their string values, the identities, task graphs, gateway
  contexts, capability scopes and grants, requests, decisions and approval states, each
  with the field bounds its pydantic model enforces (\<open>valid_...\<close>; a value outside them
  is a \<open>ValidationError\<close> when the model object is built). Ranks of the enumerations are
  the tables of the modules that compare them.
\<close>

section \<open>Enumerations\<close>

datatype decision = Allow | Allow_With_Log | Mask_And_Allow | Require_Approval | Block

datatype risk_level = Safe | Low | Medium | High | Critical

datatype data_label = Public | Internal | Confidential | Restricted | Credential

datatype source_type =
  User_Input | Web_Page | Uploaded_Pdf | Uploaded_Doc | Rag_Result | History_Memory

datatype approval_status =
  Requested | Approved | Masked_And_Approved | Denied | Expired | Revoked | Consumed

fun decision_value :: "decision \<Rightarrow> string" where
  "decision_value Allow = ''allow''"
| "decision_value Allow_With_Log = ''allow_with_log''"
| "decision_value Mask_And_Allow = ''mask_and_allow''"
| "decision_value Require_Approval = ''require_approval''"
| "decision_value Block = ''block''"

definition decision_of :: "string \<Rightarrow> decision option" where
  "decision_of s =
     find (\<lambda>d. decision_value d = s)
       [Allow, Allow_With_Log, Mask_And_Allow, Require_Approval, Block]"

fun risk_value :: "risk_level \<Rightarrow> string" where
  "risk_value Safe = ''safe''"
| "risk_value Low = ''low''"
| "risk_value Medium = ''medium''"
| "risk_value High = ''high''"
| "risk_value Critical = ''critical''"

definition risk_of :: "string \<Rightarrow> risk_level option" where
  "risk_of s = find (\<lambda>r. risk_value r = s) [Safe, Low, Medium, High, Critical]"

fun label_value :: "data_label \<Rightarrow> string" where
  "label_value Public = ''public''"
| "label_value Internal = ''internal''"
| "label_value Confidential = ''confidential''"
| "label_value Restricted = ''restricted''"
| "label_value Credential = ''credential''"

fun status_value :: "approval_status \<Rightarrow> string" where
  "status_value Requested = ''requested''"
| "status_value Approved = ''approved''"
| "status_value Masked_And_Approved = ''masked_and_approved''"
| "status_value Denied = ''denied''"
| "status_value Expired = ''expired''"
| "status_value Revoked = ''revoked''"
| "status_value Consumed = ''consumed''"

lemma decision_of_value [simp]: "decision_of (decision_value d) = Some d"
  by (cases d) (simp_all add: decision_of_def)

lemma risk_of_value [simp]: "risk_of (risk_value r) = Some r"
  by (cases r) (simp_all add: risk_of_def)

lemma status_value_inj: "status_value a = status_value b \<Longrightarrow> a = b"
  by (cases a; cases b) simp_all

section \<open>Ranks\<close>

fun decision_rank :: "decision \<Rightarrow> nat" where
  "decision_rank Allow = 0"
| "decision_rank Allow_With_Log = 1"
| "decision_rank Mask_And_Allow = 2"
| "decision_rank Require_Approval = 3"
| "decision_rank Block = 4"

fun risk_rank :: "risk_level \<Rightarrow> nat" where
  "risk_rank Safe = 0"
| "risk_rank Low = 1"
| "risk_rank Medium = 2"
| "risk_rank High = 3"
| "risk_rank Critical = 4"

fun label_order :: "data_label \<Rightarrow> nat" where
  "label_order Public = 0"
| "label_order Internal = 1"
| "label_order Confidential = 2"
| "label_order Restricted = 3"
| "label_order Credential = 4"

lemma decision_rank_inj: "decision_rank x = decision_rank y \<Longrightarrow> x = y"
  by (cases x; cases y) simp_all

lemma risk_rank_inj: "risk_rank x = risk_rank y \<Longrightarrow> x = y"
  by (cases x; cases y) simp_all

lemma label_order_inj: "label_order x = label_order y \<Longrightarrow> x = y"
  by (cases x; cases y) simp_all

lemma decision_rank_le_Block: "decision_rank d \<le> decision_rank Block"
  by (cases d) simp_all

lemma risk_rank_le_Critical: "risk_rank r \<le> risk_rank Critical"
  by (cases r) simp_all

text \<open>The ranks make the enumerations linear orders, so the order library applies.\<close>

instantiation decision :: linorder
begin
definition "d \<le> (d' :: decision) \<longleftrightarrow> decision_rank d \<le> decision_rank d'"
definition "d < (d' :: decision) \<longleftrightarrow> decision_rank d < decision_rank d'"
instance
  by standard (auto simp: less_eq_decision_def less_decision_def intro: decision_rank_inj)
end

instantiation risk_level :: linorder
begin
definition "r \<le> (r' :: risk_level) \<longleftrightarrow> risk_rank r \<le> risk_rank r'"
definition "r < (r' :: risk_level) \<longleftrightarrow> risk_rank r < risk_rank r'"
instance
  by standard (auto simp: less_eq_risk_level_def less_risk_level_def intro: risk_rank_inj)
end

instantiation data_label :: linorder
begin
definition "l \<le> (l' :: data_label) \<longleftrightarrow> label_order l \<le> label_order l'"
definition "l < (l' :: data_label) \<longleftrightarrow> label_order l < label_order l'"
instance
  by standard (auto simp: less_eq_data_label_def less_data_label_def intro: label_order_inj)
end

interpretation decision_ranked: ranked decision_rank
  by unfold_locales (rule decision_rank_inj)

interpretation risk_ranked: ranked risk_rank
  by unfold_locales (rule risk_rank_inj)

interpretation label_ranked: ranked label_order
  by unfold_locales (rule label_order_inj)

section \<open>Field bounds\<close>

definition len_between :: "nat \<Rightarrow> nat \<Rightarrow> string \<Rightarrow> bool" where
  "len_between lo hi s \<longleftrightarrow> lo \<le> length s \<and> length s \<le> hi"

definition opt_all :: "('a \<Rightarrow> bool) \<Rightarrow> 'a option \<Rightarrow> bool" where
  "opt_all P x \<longleftrightarrow> (case x of None \<Rightarrow> True | Some y \<Rightarrow> P y)"

definition opt_len :: "nat \<Rightarrow> string option \<Rightarrow> bool" where
  "opt_len hi o' = (case o' of None \<Rightarrow> True | Some s \<Rightarrow> length s \<le> hi)"

definition is_hex :: "char \<Rightarrow> bool" where
  "is_hex c \<longleftrightarrow> is_digit c \<or> (CHR ''a'' \<le> c \<and> c \<le> CHR ''f'')"

definition is_sha256_hex :: "string \<Rightarrow> bool" where
  "is_sha256_hex s \<longleftrightarrow> length s = 64 \<and> list_all is_hex s"

section \<open>Identities and task graphs\<close>

datatype principal_type = User | Agent | Service

record principal =
  principal_id :: string
  principal_kind :: principal_type
  p_role :: string
  tenant_id :: string
  attributes :: "(string \<times> string) list"

definition valid_principal :: "principal \<Rightarrow> bool" where
  "valid_principal p \<longleftrightarrow>
     len_between 1 160 (principal_id p) \<and> len_between 1 80 (p_role p) \<and>
     len_between 1 160 (tenant_id p)"

record input_reference =
  source_id :: string
  ref_source_type :: source_type
  ref_content_hash :: "string option"
  trust_score :: rat
  ref_data_labels :: "data_label list"

definition valid_input_reference :: "input_reference \<Rightarrow> bool" where
  "valid_input_reference r \<longleftrightarrow>
     len_between 1 180 (source_id r) \<and>
     (case ref_content_hash r of None \<Rightarrow> True | Some h \<Rightarrow> is_sha256_hex h) \<and>
     0 \<le> trust_score r \<and> trust_score r \<le> 1"

record planned_step =
  step_index :: int
  step_tool :: string
  args_hash :: string
  predecessors :: "int list"
  max_calls :: int

definition valid_planned_step :: "planned_step \<Rightarrow> bool" where
  "valid_planned_step s \<longleftrightarrow>
     1 \<le> step_index s \<and> len_between 1 120 (step_tool s) \<and> is_sha256_hex (args_hash s) \<and>
     1 \<le> max_calls s \<and> max_calls s \<le> 100"

record task_graph =
  plan_id :: string
  steps :: "planned_step list"

definition valid_task_graph :: "task_graph \<Rightarrow> bool" where
  "valid_task_graph g \<longleftrightarrow>
     len_between 1 160 (plan_id g) \<and> 1 \<le> length (steps g) \<and> length (steps g) \<le> 200 \<and>
     list_all valid_planned_step (steps g)"

section \<open>The gateway context and the request\<close>

record gateway_context =
  trace_id :: "string option"
  task_id :: "string option"
  ctx_user :: "principal option"
  ctx_agent :: "principal option"
  user_role :: "string option"
  scenario :: "string option"
  input_sources :: "input_reference list"
  data_labels :: "data_label list"
  data_scopes :: "string list"
  authorized_recipients :: "string list"
  authorized_domains :: "string list"
  ctx_policy_version :: "string option"
  capability_ticket :: "string option"
  parent_request_id :: "string option"
  task_step :: int
  ctx_task_graph :: "task_graph option"
  metadata :: pydict

definition valid_context :: "gateway_context \<Rightarrow> bool" where
  "valid_context c \<longleftrightarrow>
     opt_len 160 (trace_id c) \<and> opt_len 160 (task_id c) \<and>
     opt_all valid_principal (ctx_user c) \<and> opt_all valid_principal (ctx_agent c) \<and>
     opt_len 80 (user_role c) \<and> opt_len 160 (scenario c) \<and>
     list_all valid_input_reference (input_sources c) \<and>
     opt_len 80 (ctx_policy_version c) \<and> opt_len 16384 (capability_ticket c) \<and>
     opt_len 160 (parent_request_id c) \<and> 0 \<le> task_step c \<and>
     opt_all valid_task_graph (ctx_task_graph c)"

record tool_request =
  tool_name :: string
  tool_args :: pydict
  req_context :: gateway_context

definition valid_tool_request :: "tool_request \<Rightarrow> bool" where
  "valid_tool_request r \<longleftrightarrow> len_between 1 120 (tool_name r) \<and> valid_context (req_context r)"

text \<open>\<open>if context.trace_id\<close>: the field is set and is not the empty string.\<close>

definition set_field :: "string option \<Rightarrow> bool" where
  "set_field f \<longleftrightarrow> (case f of None \<Rightarrow> False | Some s \<Rightarrow> s \<noteq> [])"

definition context_default :: gateway_context where
  "context_default =
     \<lparr>trace_id = None, task_id = None, ctx_user = None, ctx_agent = None, user_role = None,
      scenario = None, input_sources = [], data_labels = [], data_scopes = [],
      authorized_recipients = [], authorized_domains = [], ctx_policy_version = None,
      capability_ticket = None, parent_request_id = None, task_step = 0,
      ctx_task_graph = None, metadata = []\<rparr>"

lemma valid_context_default: "valid_context context_default"
  by (simp add: valid_context_def context_default_def opt_len_def opt_all_def)

section \<open>Capability scopes and grants\<close>

record capability_scope =
  sc_tool_name :: string
  exact_args :: pydict
  path_prefixes :: "string list"
  url_domains :: "string list"
  recipient_domains :: "string list"
  sc_data_scopes :: "string list"
  allowed_data_labels :: "data_label list"

record capability_grant =
  ticket_id :: string
  issuer :: string
  subject_id :: string
  gr_tenant_id :: string
  gr_trace_id :: string
  gr_task_id :: "string option"
  gr_scope :: capability_scope
  issued_at :: int
  gr_expires_at :: int
  max_uses :: int
  gr_policy_version :: string
  nonce :: string

definition valid_grant :: "capability_grant \<Rightarrow> bool" where
  "valid_grant g \<longleftrightarrow>
     len_between 1 160 (ticket_id g) \<and> len_between 1 160 (issuer g) \<and>
     len_between 1 160 (subject_id g) \<and> len_between 1 160 (gr_tenant_id g) \<and>
     len_between 1 160 (gr_trace_id g) \<and> opt_len 160 (gr_task_id g) \<and>
     len_between 1 120 (sc_tool_name (gr_scope g)) \<and>
     1 \<le> max_uses g \<and> max_uses g \<le> 1000 \<and>
     len_between 1 80 (gr_policy_version g) \<and> len_between 16 160 (nonce g)"

section \<open>Approval states\<close>

record approval_state =
  approval_id :: string
  ap_trace_id :: string
  request_id :: string
  status :: approval_status
  actor :: "string option"
  idempotency_key :: string
  requested_at :: int
  expires_at :: int
  decided_at :: "int option"
  consumed_at :: "int option"
  revoked_at :: "int option"
  ap_tool_name :: string
  request_hash :: string
  masked_args :: pydict

end
