(* ===== verification/PyNet.thy ===== *)
theory PyNet
  imports PyValues
begin

text \<open>
  The parts of the Python 3.11 standard library the guards rely on: \<open>PurePosixPath\<close>
  (its normalised string and its parts), \<open>urllib.parse.urlparse\<close> (scheme and host name,
  with the inputs it rejects) and \<open>ipaddress.ip_address\<close> with the address classes
  \<open>is_private\<close>, \<open>is_loopback\<close>, \<open>is_link_local\<close> and \<open>is_reserved\<close>. URLs and hosts are
  ASCII.
\<close>

section \<open>PurePosixPath\<close>

text \<open>
  The root of a POSIX path is empty, \<open>/\<close>, or \<open>//\<close> for exactly two leading slashes; the
  rest is split at slashes and its empty and \<open>.\<close> components are dropped.
\<close>

definition posix_root :: "string \<Rightarrow> string" where
  "posix_root p =
     (let n = length (takeWhile (\<lambda>c. c = CHR ''/'') p)
      in if n = 0 then [] else if n = 2 then ''//'' else ''/'')"

definition posix_components :: "string \<Rightarrow> string list" where
  "posix_components p = filter (\<lambda>x. x \<noteq> [] \<and> x \<noteq> ''.'') (split_on CHR ''/'' p)"

definition posix_parts :: "string \<Rightarrow> string list" where
  "posix_parts p =
     (if posix_root p = [] then posix_components p else posix_root p # posix_components p)"

definition posix_str :: "string \<Rightarrow> string" where
  "posix_str p =
     (let s = posix_root p @ join ''/'' (posix_components p)
      in if s = [] then ''.'' else s)"

lemma posix_components_no_slash: "x \<in> set (posix_components p) \<Longrightarrow> CHR ''/'' \<notin> set x"
  by (auto simp: posix_components_def dest: split_on_no_sep)

lemma posix_components_nonempty: "x \<in> set (posix_components p) \<Longrightarrow> x \<noteq> [] \<and> x \<noteq> ''.''"
  by (auto simp: posix_components_def)

lemma dotdot_in_parts: "''..'' \<in> set (posix_parts p) \<longleftrightarrow> ''..'' \<in> set (posix_components p)"
  by (auto simp: posix_parts_def posix_root_def Let_def)

section \<open>IPv4 and IPv6 addresses\<close>

definition digit_val :: "char \<Rightarrow> int" where
  "digit_val c = of_char c - 48"

definition dec_val :: "string \<Rightarrow> int" where
  "dec_val s = foldl (\<lambda>n c. 10 * n + digit_val c) 0 s"

definition parse_octet :: "string \<Rightarrow> int option" where
  "parse_octet s =
     (if s = [] \<or> \<not> list_all is_digit s \<or> 3 < length s \<or> (s \<noteq> ''0'' \<and> hd s = CHR ''0'')
         \<or> 255 < dec_val s then None
      else Some (dec_val s))"

definition parse_ipv4 :: "string \<Rightarrow> int option" where
  "parse_ipv4 s =
     (let octets = split_on CHR ''.'' s;
          vals = map parse_octet octets
      in if length octets \<noteq> 4 \<or> None \<in> set vals then None
         else Some (foldl (\<lambda>n v. 256 * n + the v) 0 vals))"

definition hex_val :: "char \<Rightarrow> int option" where
  "hex_val c =
     (if is_digit c then Some (of_char c - 48)
      else if CHR ''a'' \<le> c \<and> c \<le> CHR ''f'' then Some (of_char c - 87)
      else if CHR ''A'' \<le> c \<and> c \<le> CHR ''F'' then Some (of_char c - 55)
      else None)"

definition hex_string_val :: "string \<Rightarrow> int" where
  "hex_string_val s = foldl (\<lambda>n c. 16 * n + (case hex_val c of None \<Rightarrow> 0 | Some d \<Rightarrow> d)) 0 s"

definition parse_hextet :: "string \<Rightarrow> int option" where
  "parse_hextet s =
     (if s = [] \<or> \<not> list_all (\<lambda>c. hex_val c \<noteq> None) s \<or> 4 < length s then None
      else Some (hex_string_val s))"

definition show_hex4 :: "int \<Rightarrow> string" where
  "show_hex4 n =
     map (\<lambda>d. hex_digit (nat (d mod 16))) [n div 4096, n div 256, n div 16, n]"

text \<open>An IPv4 suffix becomes two hextets.\<close>

definition expand_ipv4_suffix :: "string list \<Rightarrow> string list option" where
  "expand_ipv4_suffix parts =
     (if CHR ''.'' \<in> set (last parts) then
        (case parse_ipv4 (last parts) of
           None \<Rightarrow> None
         | Some w \<Rightarrow> Some (butlast parts @
             [show_hex4 (w div 65536), show_hex4 (w mod 65536)]))
      else Some parts)"

definition hextets_val :: "string list \<Rightarrow> int option" where
  "hextets_val ps =
     (let vals = map parse_hextet ps
      in if None \<in> set vals then None else Some (foldl (\<lambda>n v. 65536 * n + the v) 0 vals))"

definition ipv6_from_parts :: "string list \<Rightarrow> int option" where
  "ipv6_from_parts parts =
     (let n = length parts;
          skips = filter (\<lambda>i. parts ! i = []) [1..<n - 1]
      in case skips of
           [] \<Rightarrow>
             (if n \<noteq> 8 \<or> hd parts = [] \<or> last parts = [] then None
              else hextets_val parts)
         | [k] \<Rightarrow>
             (let hi = (if hd parts = [] then k - 1 else k);
                  lo = (if last parts = [] then n - k - 2 else n - k - 1)
              in if (hd parts = [] \<and> hi \<noteq> 0) \<or> (last parts = [] \<and> lo \<noteq> 0) \<or> 7 < hi + lo
                 then None
                 else (case (hextets_val (take hi parts), hextets_val (drop (n - lo) parts)) of
                         (Some a, Some b) \<Rightarrow> Some (a * 65536 ^ (8 - hi) + b)
                       | _ \<Rightarrow> None))
         | _ \<Rightarrow> None)"

definition parse_ipv6 :: "string \<Rightarrow> int option" where
  "parse_ipv6 s =
     (case partition_on CHR ''%'' s of (addr, sep, scope) \<Rightarrow>
        if CHR ''/'' \<in> set s then None
        else if sep \<and> (scope = [] \<or> CHR ''%'' \<in> set scope) then None
        else (let parts = split_on CHR '':'' addr in
          if length parts < 3 then None
          else (case expand_ipv4_suffix parts of
                  None \<Rightarrow> None
                | Some ps \<Rightarrow> if 9 < length ps then None else ipv6_from_parts ps)))"

datatype ip_addr = IPv4 "int" | IPv6 "int"

text \<open>\<open>ipaddress.ip_address\<close>; \<open>None\<close> is its \<open>ValueError\<close>.\<close>

definition ip_address :: "string \<Rightarrow> ip_addr option" where
  "ip_address s =
     (case parse_ipv4 s of
        Some w \<Rightarrow> Some (IPv4 w)
      | None \<Rightarrow> map_option IPv6 (parse_ipv6 s))"

definition in_net4 :: "int \<Rightarrow> int \<times> nat \<Rightarrow> bool" where
  "in_net4 w = (\<lambda>(net, len). w div 2 ^ (32 - len) = net div 2 ^ (32 - len))"

definition in_net6 :: "int \<Rightarrow> int \<times> nat \<Rightarrow> bool" where
  "in_net6 w = (\<lambda>(net, len). w div 2 ^ (128 - len) = net div 2 ^ (128 - len))"

definition private_nets4 :: "(int \<times> nat) list" where
  "private_nets4 =
     [(0x00000000, 8), (0x0A000000, 8), (0x7F000000, 8), (0xA9FE0000, 16), (0xAC100000, 12),
      (0xC0000000, 24), (0xC00000AA, 31), (0xC0000200, 24), (0xC0A80000, 16),
      (0xC6120000, 15), (0xC6336400, 24), (0xCB007100, 24), (0xF0000000, 4),
      (0xFFFFFFFF, 32)]"

definition private_exceptions4 :: "(int \<times> nat) list" where
  "private_exceptions4 = [(0xC0000009, 32), (0xC000000A, 32)]"

definition is_private4 :: "int \<Rightarrow> bool" where
  "is_private4 w \<longleftrightarrow> list_ex (in_net4 w) private_nets4 \<and> \<not> list_ex (in_net4 w) private_exceptions4"

definition is_local4 :: "int \<Rightarrow> bool" where
  "is_local4 w \<longleftrightarrow>
     is_private4 w \<or> in_net4 w (0x7F000000, 8) \<or> in_net4 w (0xA9FE0000, 16) \<or>
     in_net4 w (0xF0000000, 4)"

definition private_nets6 :: "(int \<times> nat) list" where
  "private_nets6 =
     [(1, 128), (0, 128), (0xFFFF00000000, 96),
      (0x0064FF9B000100000000000000000000, 48), (0x01000000000000000000000000000000, 64),
      (0x20010000000000000000000000000000, 23), (0x20010DB8000000000000000000000000, 32),
      (0x20020000000000000000000000000000, 16), (0xFC000000000000000000000000000000, 7),
      (0xFE800000000000000000000000000000, 10)]"

definition private_exceptions6 :: "(int \<times> nat) list" where
  "private_exceptions6 =
     [(0x20010001000000000000000000000001, 128), (0x20010001000000000000000000000002, 128),
      (0x20010003000000000000000000000000, 32), (0x20010004011200000000000000000000, 48),
      (0x20010020000000000000000000000000, 28), (0x20010030000000000000000000000000, 28)]"

definition reserved_nets6 :: "(int \<times> nat) list" where
  "reserved_nets6 =
     map (\<lambda>(top, len). (top * 2 ^ 112, len))
       [(0x0000, 8), (0x0100, 8), (0x0200, 7), (0x0400, 6), (0x0800, 5), (0x1000, 4),
        (0x4000, 3), (0x6000, 3), (0x8000, 3), (0xA000, 3), (0xC000, 3), (0xE000, 4),
        (0xF000, 5), (0xF800, 6), (0xFE00, 9)]"

definition is_private6 :: "int \<Rightarrow> bool" where
  "is_private6 w \<longleftrightarrow>
     (if in_net6 w (0xFFFF00000000, 96) then is_private4 (w mod 2 ^ 32)
      else list_ex (in_net6 w) private_nets6 \<and> \<not> list_ex (in_net6 w) private_exceptions6)"

definition is_local6 :: "int \<Rightarrow> bool" where
  "is_local6 w \<longleftrightarrow>
     is_private6 w \<or> w = 1 \<or> in_net6 w (0xFE800000000000000000000000000000, 10) \<or>
     list_ex (in_net6 w) reserved_nets6"

text \<open>\<open>is_private or is_loopback or is_link_local or is_reserved\<close>\<close>

definition ip_is_local :: "ip_addr \<Rightarrow> bool" where
  "ip_is_local a = (case a of IPv4 w \<Rightarrow> is_local4 w | IPv6 w \<Rightarrow> is_local6 w)"

section \<open>urlparse\<close>

definition is_alpha :: "char \<Rightarrow> bool" where
  "is_alpha c \<longleftrightarrow> is_lower c \<or> is_upper c"

definition is_scheme_char :: "char \<Rightarrow> bool" where
  "is_scheme_char c \<longleftrightarrow> is_alpha c \<or> is_digit c \<or> c \<in> {CHR ''+'', CHR ''-'', CHR ''.''}"

definition url_clean :: "string \<Rightarrow> string" where
  "url_clean u =
     filter (\<lambda>c. c \<notin> {CHR 0x09, CHR 0x0A, CHR 0x0D})
       (dropWhile (\<lambda>c. of_char c \<le> (32 :: nat)) u)"

definition split_scheme :: "string \<Rightarrow> string \<times> string" where
  "split_scheme u =
     (case partition_on CHR '':'' u of (pre, found, post) \<Rightarrow>
        if found \<and> pre \<noteq> [] \<and> is_alpha (hd pre) \<and> list_all is_scheme_char pre
        then (casefold pre, post) else ([], u))"

definition url_netloc :: "string \<Rightarrow> string" where
  "url_netloc rest =
     (if prefix ''//'' rest
      then takeWhile (\<lambda>c. c \<notin> {CHR ''/'', CHR ''?'', CHR ''#''}) (drop 2 rest) else [])"

text \<open>
  A bracketed host is an IPv6 or an IPvFuture literal (\<open>v<hex>+.<any>+\<close>); anything else
  is a \<open>ValueError\<close>.
\<close>

definition bracketed_host_ok :: "string \<Rightarrow> bool" where
  "bracketed_host_ok h =
     (if prefix ''v'' h then
        (case partition_on CHR ''.'' (tl h) of (hex, found, rest) \<Rightarrow>
           found \<and> hex \<noteq> [] \<and> list_all (\<lambda>c. hex_val c \<noteq> None) hex \<and> rest \<noteq> [] \<and>
           CHR 0x0A \<notin> set rest)
      else (case ip_address h of Some (IPv6 _) \<Rightarrow> True | _ \<Rightarrow> False))"

definition netloc_ok :: "string \<Rightarrow> bool" where
  "netloc_ok n =
     (let op = CHR ''['' \<in> set n; cl = CHR '']'' \<in> set n
      in if op \<noteq> cl then False
         else if op then
           bracketed_host_ok
             (fst (partition_on CHR '']'' (snd (snd (partition_on CHR ''['' n)))))
         else True)"

definition netloc_hostname :: "string \<Rightarrow> string option" where
  "netloc_hostname n =
     (let hostinfo = after_last CHR ''@'' n;
          h = (case partition_on CHR ''['' hostinfo of (_, have_br, bracketed) \<Rightarrow>
                 if have_br then fst (partition_on CHR '']'' bracketed)
                 else fst (partition_on CHR '':'' hostinfo))
      in if h = [] then None
         else (case partition_on CHR ''%'' h of (name, pct, zone) \<Rightarrow>
                 Some (casefold name @ (if pct then CHR ''%'' # zone else []))))"

text \<open>
  \<open>urlparse(url)\<close>, reduced to the scheme and the host name; \<open>None\<close> is the \<open>ValueError\<close>
  of a malformed bracketed host.
\<close>

definition urlparse :: "string \<Rightarrow> (string \<times> string option) option" where
  "urlparse url =
     (case split_scheme (url_clean url) of (scheme, rest) \<Rightarrow>
        (let netloc = url_netloc rest
         in if netloc_ok netloc then Some (scheme, netloc_hostname netloc) else None))"

end
