(* ===== verification/PolicyReleases.thy ===== *)
theory PolicyReleases
  imports Contracts PyNet
begin

text \<open>
  Versioned tool policies and their release state, from
  \<^verbatim>\<open>mcp/gateway/policy_releases.py\<close> and the YAML files under \<^verbatim>\<open>mcp/policies/versions\<close>:
  loading and validating a version, the single-row release table with its history
  (canary, promotion, rollback), and the deterministic choice of the policy for a request.
  The policy directory (\<open>dir\<close>) and SHA-256 (\<open>sha\<close>, from text to a hex digest) are
  arguments; the lemmas show that the release row stays well formed and that the history
  is an unbroken chain.
\<close>

section \<open>Policies\<close>

text \<open>A key a YAML mapping does not have is \<open>None\<close>.\<close>

record tool_config =
  cfg_action :: "string option"
  cfg_risk_level :: "string option"
  cfg_allow_paths :: "string list option"
  cfg_deny_paths :: "string list option"
  cfg_internal_domains :: "string list option"
  cfg_external_action :: "string option"
  cfg_domain_whitelist :: "string list option"
  cfg_block_private_ip :: "bool option"
  cfg_forbidden :: "string list option"

definition empty_config :: tool_config where
  "empty_config =
     \<lparr>cfg_action = None, cfg_risk_level = None, cfg_allow_paths = None, cfg_deny_paths = None,
      cfg_internal_domains = None, cfg_external_action = None, cfg_domain_whitelist = None,
      cfg_block_private_ip = None, cfg_forbidden = None\<rparr>"

record policy =
  pol_version :: "string option"
  pol_tools :: "(string \<times> tool_config) list option"
  role_overrides :: "(string \<times> string list) list"
  agent_role_overrides :: "(string \<times> string list) list"

datatype policy_file = Not_A_Mapping | Policy_Mapping policy

datatype policy_config_reason =
    Not_Semver
  | Version_Mismatch
  | Tool_Set_Incomplete
  | Release_State_Missing
  | Invalid_Actor
  | Rollout_Out_Of_Range
  | Canary_Equals_Stable
  | No_Canary
  | No_Previous_Stable
  | Pinned_Version_Not_Current

datatype policy_error =
    Policy_Configuration_Error policy_config_reason
  | Policy_Not_Found_Error string

definition required_tools :: "string list" where
  "required_tools =
     [''file_read'', ''file_write'', ''file_delete'', ''send_email'', ''browser_visit'',
      ''api_call'', ''shell_exec'', ''db_query'', ''db_write'']"

definition default_stable_version :: string where
  "default_stable_version = ''2.0.0''"

text \<open>\<^verbatim>\<open>^\d+\.\d+\.\d+$\<close>\<close>

definition is_semver :: "string \<Rightarrow> bool" where
  "is_semver v \<longleftrightarrow>
     (let parts = split_on CHR ''.'' v
      in length parts = 3 \<and> list_all (\<lambda>p. p \<noteq> [] \<and> list_all is_digit p) parts)"

definition load_policy_version ::
    "(string \<Rightarrow> policy_file option) \<Rightarrow> string \<Rightarrow> policy_error + policy" where
  "load_policy_version dir version =
     (if \<not> is_semver version then Inl (Policy_Configuration_Error Not_Semver)
      else (case dir version of
        None \<Rightarrow> Inl (Policy_Not_Found_Error version)
      | Some Not_A_Mapping \<Rightarrow> Inl (Policy_Configuration_Error Version_Mismatch)
      | Some (Policy_Mapping p) \<Rightarrow>
          if pol_version p \<noteq> Some version then Inl (Policy_Configuration_Error Version_Mismatch)
          else (case pol_tools p of
              None \<Rightarrow> Inl (Policy_Configuration_Error Tool_Set_Incomplete)
            | Some ts \<Rightarrow>
                if set (map fst ts) \<noteq> set required_tools
                then Inl (Policy_Configuration_Error Tool_Set_Incomplete)
                else Inr p)))"

lemma load_policy_versionD:
  "load_policy_version dir v = Inr p \<Longrightarrow>
     pol_version p = Some v \<and> (\<exists>ts. pol_tools p = Some ts \<and> fst ` set ts = set required_tools)"
  by (auto simp: load_policy_version_def split: if_splits option.splits policy_file.splits)

section \<open>The two released policies\<close>

definition tools_2_0_0 :: "(string \<times> tool_config) list" where
  "tools_2_0_0 =
     [(''file_read'', empty_config\<lparr>cfg_risk_level := Some ''medium'',
         cfg_allow_paths := Some [''/data/public'', ''/data/approved''],
         cfg_deny_paths := Some [''/data/secret'', ''/system'', ''/private'', ''/etc'', ''~/.ssh''],
         cfg_action := Some ''allow_with_log''\<rparr>),
      (''file_write'', empty_config\<lparr>cfg_risk_level := Some ''medium'',
         cfg_allow_paths := Some [''/data/output''], cfg_action := Some ''allow_with_log''\<rparr>),
      (''file_delete'', empty_config\<lparr>cfg_risk_level := Some ''critical'',
         cfg_action := Some ''block''\<rparr>),
      (''send_email'', empty_config\<lparr>cfg_risk_level := Some ''high'',
         cfg_external_action := Some ''require_approval'',
         cfg_internal_domains := Some [''gov.cn'', ''xiongan.gov.cn''],
         cfg_action := Some ''require_approval''\<rparr>),
      (''browser_visit'', empty_config\<lparr>cfg_risk_level := Some ''medium'',
         cfg_domain_whitelist := Some [''gov.cn'', ''xiongan.gov.cn''],
         cfg_block_private_ip := Some True, cfg_action := Some ''allow_with_check''\<rparr>),
      (''api_call'', empty_config\<lparr>cfg_risk_level := Some ''high'',
         cfg_domain_whitelist := Some [''gov.cn'', ''xiongan.gov.cn''],
         cfg_block_private_ip := Some True, cfg_action := Some ''require_approval''\<rparr>),
      (''shell_exec'', empty_config\<lparr>cfg_risk_level := Some ''critical'',
         cfg_action := Some ''block''\<rparr>),
      (''db_query'', empty_config\<lparr>cfg_risk_level := Some ''medium'',
         cfg_forbidden := Some [''drop '', ''delete '', ''update '', ''insert '', ''attach '',
           ''pragma ''],
         cfg_action := Some ''allow_with_log''\<rparr>),
      (''db_write'', empty_config\<lparr>cfg_risk_level := Some ''critical'',
         cfg_action := Some ''require_approval''\<rparr>)]"

definition agent_overrides :: "(string \<times> string list) list" where
  "agent_overrides =
     [(''untrusted'', [''file_read'', ''file_write'', ''file_delete'', ''send_email'',
         ''browser_visit'', ''api_call'', ''shell_exec'', ''db_query'', ''db_write'']),
      (''readonly'', [''file_write'', ''file_delete'', ''send_email'', ''api_call'',
         ''shell_exec'', ''db_write''])]"

definition policy_2_0_0 :: policy where
  "policy_2_0_0 =
     \<lparr>pol_version = Some ''2.0.0'', pol_tools = Some tools_2_0_0,
      role_overrides =
        [(''visitor'', [''file_write'', ''db_query'', ''db_write'']),
         (''auditor'', [''file_write'', ''file_delete'', ''send_email'', ''shell_exec'',
            ''db_write''])],
      agent_role_overrides = agent_overrides\<rparr>"

definition policy_2_1_0 :: policy where
  "policy_2_1_0 =
     \<lparr>pol_version = Some ''2.1.0'', pol_tools = Some tools_2_0_0,
      role_overrides =
        [(''staff'', [''db_write'']),
         (''visitor'', [''file_write'', ''db_query'', ''db_write'']),
         (''auditor'', [''file_write'', ''file_delete'', ''send_email'', ''shell_exec'',
            ''db_write''])],
      agent_role_overrides = agent_overrides\<rparr>"

definition policy_dir :: "string \<Rightarrow> policy_file option" where
  "policy_dir v =
     (if v = ''2.0.0'' then Some (Policy_Mapping policy_2_0_0)
      else if v = ''2.1.0'' then Some (Policy_Mapping policy_2_1_0) else None)"

lemma load_2_0_0: "load_policy_version policy_dir ''2.0.0'' = Inr policy_2_0_0"
  by code_simp

lemma load_2_1_0: "load_policy_version policy_dir ''2.1.0'' = Inr policy_2_1_0"
  by code_simp

section \<open>The release table\<close>

record release_row =
  stable_version :: string
  canary_version :: "string option"
  rollout_percent :: int
  previous_stable_version :: "string option"
  generation :: int
  updated_at :: int
  updated_by :: string

record release_event =
  ev_action :: string
  ev_before :: release_row
  ev_after :: release_row
  ev_actor :: string

record release_store =
  rel_row :: "release_row option"
  rel_history :: "release_event list"

text \<open>
  \<open>_initialize_path\<close>: \<open>INSERT OR IGNORE\<close> of the bootstrap row into the table. It loads
  the default version first, so a directory without it fails the construction.
\<close>

definition init_release ::
    "(string \<Rightarrow> policy_file option) \<Rightarrow> int \<Rightarrow> (release_store, policy_error, unit) op" where
  "init_release dir now st =
     (case load_policy_version dir default_stable_version of
        Inl e \<Rightarrow> (Inl e, st)
      | Inr _ \<Rightarrow>
          (case rel_row st of
             Some _ \<Rightarrow> (Inr (), st)
           | None \<Rightarrow> (Inr (), st\<lparr>rel_row := Some
               \<lparr>stable_version = default_stable_version, canary_version = None,
                rollout_percent = 0, previous_stable_version = None, generation = 1,
                updated_at = now, updated_by = ''bootstrap''\<rparr>\<rparr>)))"

definition empty_release :: release_store where
  "empty_release = \<lparr>rel_row = None, rel_history = []\<rparr>"

text \<open>
  \<open>_record\<close> reads a row and digests the policies it names, which loads them: a row that
  names an unloadable version raises. \<open>if row["canary_version"]\<close> is false for the empty
  string as well.
\<close>

definition release_record ::
    "(string \<Rightarrow> policy_file option) \<Rightarrow> release_row \<Rightarrow> policy_error + release_row" where
  "release_record dir row =
     (case load_policy_version dir (stable_version row) of
        Inl e \<Rightarrow> Inl e
      | Inr _ \<Rightarrow>
          (case canary_version row of
             None \<Rightarrow> Inr row
           | Some c \<Rightarrow>
               if c = [] then Inr row
               else (case load_policy_version dir c of Inl e \<Rightarrow> Inl e | Inr _ \<Rightarrow> Inr row)))"

definition release_status ::
    "(string \<Rightarrow> policy_file option) \<Rightarrow> release_store \<Rightarrow> policy_error + release_row" where
  "release_status dir st =
     (case rel_row st of
        None \<Rightarrow> Inl (Policy_Configuration_Error Release_State_Missing)
      | Some row \<Rightarrow> release_record dir row)"

record release_values =
  new_stable :: string
  new_canary :: "string option"
  new_rollout :: int
  new_previous :: "string option"

text \<open>
  \<open>_mutate\<close>: one transaction. An exception before the commit closes the connection and
  leaves the table and the history as they were.
\<close>

definition release_mutate ::
    "(string \<Rightarrow> policy_file option) \<Rightarrow> int \<Rightarrow> string \<Rightarrow> string \<Rightarrow>
     (release_row \<Rightarrow> policy_error + release_values) \<Rightarrow>
     (release_store, policy_error, release_row) op" where
  "release_mutate dir now action who mutate st =
     (if who = [] \<or> 160 < length who
      then (Inl (Policy_Configuration_Error Invalid_Actor), st)
      else (case rel_row st of
        None \<Rightarrow> (Inl (Policy_Configuration_Error Release_State_Missing), st)
      | Some row \<Rightarrow>
          (case release_record dir row of
             Inl e \<Rightarrow> (Inl e, st)
           | Inr before \<Rightarrow>
               (case mutate before of
                  Inl e \<Rightarrow> (Inl e, st)
                | Inr v \<Rightarrow>
                    (let new = row\<lparr>stable_version := new_stable v, canary_version := new_canary v,
                         rollout_percent := new_rollout v,
                         previous_stable_version := new_previous v,
                         generation := generation before + 1, updated_at := now,
                         updated_by := who\<rparr>
                     in case release_record dir new of
                          Inl e \<Rightarrow> (Inl e, st)
                        | Inr after \<Rightarrow>
                            (Inr after,
                             st\<lparr>rel_row := Some new,
                                rel_history := rel_history st @
                                  [\<lparr>ev_action = action, ev_before = before, ev_after = after,
                                    ev_actor = who\<rparr>]\<rparr>))))))"

definition configure_canary ::
    "(string \<Rightarrow> policy_file option) \<Rightarrow> int \<Rightarrow> string \<Rightarrow> int \<Rightarrow> string \<Rightarrow>
     (release_store, policy_error, release_row) op" where
  "configure_canary dir now version percent who st =
     (case load_policy_version dir version of
        Inl e \<Rightarrow> (Inl e, st)
      | Inr _ \<Rightarrow>
          if percent < 1 \<or> 100 < percent
          then (Inl (Policy_Configuration_Error Rollout_Out_Of_Range), st)
          else release_mutate dir now ''configure_canary'' who
            (\<lambda>before. if version = stable_version before
               then Inl (Policy_Configuration_Error Canary_Equals_Stable)
               else Inr \<lparr>new_stable = stable_version before, new_canary = Some version,
                         new_rollout = percent,
                         new_previous = previous_stable_version before\<rparr>) st)"

definition promote ::
    "(string \<Rightarrow> policy_file option) \<Rightarrow> int \<Rightarrow> string \<Rightarrow>
     (release_store, policy_error, release_row) op" where
  "promote dir now who st =
     release_mutate dir now ''promote'' who
       (\<lambda>before. case canary_version before of
          None \<Rightarrow> Inl (Policy_Configuration_Error No_Canary)
        | Some c \<Rightarrow>
            if c = [] then Inl (Policy_Configuration_Error No_Canary)
            else Inr \<lparr>new_stable = c, new_canary = None, new_rollout = 0,
                      new_previous = Some (stable_version before)\<rparr>) st"

definition rollback ::
    "(string \<Rightarrow> policy_file option) \<Rightarrow> int \<Rightarrow> string \<Rightarrow>
     (release_store, policy_error, release_row) op" where
  "rollback dir now who st =
     release_mutate dir now ''rollback'' who
       (\<lambda>before. case previous_stable_version before of
          None \<Rightarrow> Inl (Policy_Configuration_Error No_Previous_Stable)
        | Some p \<Rightarrow>
            if p = [] then Inl (Policy_Configuration_Error No_Previous_Stable)
            else (case load_policy_version dir p of
                Inl e \<Rightarrow> Inl e
              | Inr _ \<Rightarrow> Inr \<lparr>new_stable = p, new_canary = None, new_rollout = 0,
                                new_previous = Some (stable_version before)\<rparr>)) st"

text \<open>\<open>history\<close>: newest first, between 1 and 200 entries asked for.\<close>

definition release_history :: "int \<Rightarrow> release_store \<Rightarrow> release_event list" where
  "release_history limit st = take (nat (max 1 (min limit 200))) (rev (rel_history st))"

section \<open>Choosing the policy of a request\<close>

definition set_or :: "string option \<Rightarrow> string option \<Rightarrow> string option" where
  "set_or a b = (if set_field a then a else b)"

definition ctx_principal :: "gateway_context \<Rightarrow> principal option" where
  "ctx_principal ctx = (case ctx_agent ctx of Some a \<Rightarrow> Some a | None \<Rightarrow> ctx_user ctx)"

definition bucket_key :: "gateway_context \<Rightarrow> string" where
  "bucket_key ctx =
     (let p = ctx_principal ctx
      in join [CHR 0x1F]
        [case p of Some q \<Rightarrow> tenant_id q | None \<Rightarrow> ''default'',
         case p of Some q \<Rightarrow> principal_id q | None \<Rightarrow> ''anonymous'',
         case set_or (task_id ctx) (set_or (trace_id ctx) (Some ''no-task'')) of
           Some s \<Rightarrow> s | None \<Rightarrow> []])"

definition canary_bucket :: "(string \<Rightarrow> string) \<Rightarrow> gateway_context \<Rightarrow> int" where
  "canary_bucket sha ctx = hex_string_val (take 8 (sha (bucket_key ctx))) mod 100"

definition select_version ::
    "(string \<Rightarrow> string) \<Rightarrow> release_row \<Rightarrow> gateway_context \<Rightarrow> policy_error + string" where
  "select_version sha rel ctx =
     (if set_field (ctx_policy_version ctx) then
        (let pin = the (ctx_policy_version ctx)
         in if pin = stable_version rel \<or> canary_version rel = Some pin then Inr pin
            else Inl (Policy_Configuration_Error Pinned_Version_Not_Current))
      else if set_field (canary_version rel) \<and> rollout_percent rel \<noteq> 0 \<and>
              canary_bucket sha ctx < rollout_percent rel
        then Inr (the (canary_version rel))
      else Inr (stable_version rel))"

definition select_policy ::
    "(string \<Rightarrow> policy_file option) \<Rightarrow> (string \<Rightarrow> string) \<Rightarrow> release_store \<Rightarrow> gateway_context \<Rightarrow>
     policy_error + policy" where
  "select_policy dir sha st ctx =
     (case release_status dir st of
        Inl e \<Rightarrow> Inl e
      | Inr rel \<Rightarrow>
          (case select_version sha rel ctx of
             Inl e \<Rightarrow> Inl e
           | Inr v \<Rightarrow> load_policy_version dir v))"

section \<open>The release row stays well formed\<close>

text \<open>
  The invariant of the table: the row exists, every version it names loads, there is a
  canary exactly when the rollout is positive, the canary is not the stable version, the
  rollout is a percentage, and the history, read from the newest entry, leads from this row
  back to generation 1 without a gap.
\<close>

fun linked_to :: "release_row \<Rightarrow> release_event list \<Rightarrow> bool" where
  "linked_to r [] = (generation r = 1)"
| "linked_to r (e # es) =
     (ev_after e = r \<and> generation r = generation (ev_before e) + 1 \<and> linked_to (ev_before e) es)"

definition loads :: "(string \<Rightarrow> policy_file option) \<Rightarrow> string \<Rightarrow> bool" where
  "loads dir v \<longleftrightarrow> is_ok (load_policy_version dir v)"

definition row_wf :: "(string \<Rightarrow> policy_file option) \<Rightarrow> release_row \<Rightarrow> bool" where
  "row_wf dir r \<longleftrightarrow>
     loads dir (stable_version r) \<and>
     (case canary_version r of
        None \<Rightarrow> rollout_percent r = 0
      | Some c \<Rightarrow> loads dir c \<and> c \<noteq> stable_version r \<and>
          1 \<le> rollout_percent r \<and> rollout_percent r \<le> 100) \<and>
     (case previous_stable_version r of None \<Rightarrow> True | Some p \<Rightarrow> loads dir p)"

definition release_wf :: "(string \<Rightarrow> policy_file option) \<Rightarrow> release_store \<Rightarrow> bool" where
  "release_wf dir st \<longleftrightarrow>
     (case rel_row st of
        None \<Rightarrow> False
      | Some r \<Rightarrow> row_wf dir r \<and> linked_to r (rev (rel_history st)))"

lemma loads_nonempty: "loads dir v \<Longrightarrow> v \<noteq> []"
  by (auto simp: loads_def load_policy_version_def is_semver_def is_ok_def)

lemma loads_semver: "loads dir v \<Longrightarrow> is_semver v"
  by (auto simp: loads_def load_policy_version_def is_ok_def split: if_splits)

lemma release_record_wf:
  assumes "row_wf dir r"
  shows "release_record dir r = Inr r"
proof -
  from assms have s: "loads dir (stable_version r)"
    and c: "\<And>c. canary_version r = Some c \<Longrightarrow> loads dir c"
    by (auto simp: row_wf_def split: option.splits)
  obtain p where p: "load_policy_version dir (stable_version r) = Inr p"
    using s by (auto simp: loads_def is_ok_iff)
  show ?thesis
  proof (cases "canary_version r")
    case None
    with p show ?thesis by (simp add: release_record_def)
  next
    case (Some v)
    with c obtain q where "load_policy_version dir v = Inr q"
      by (auto simp: loads_def is_ok_iff)
    with Some p show ?thesis by (simp add: release_record_def)
  qed
qed

lemma release_status_wf:
  "release_wf dir st \<Longrightarrow> \<exists>r. rel_row st = Some r \<and> row_wf dir r \<and> release_status dir st = Inr r"
  by (auto simp: release_wf_def release_status_def release_record_wf split: option.splits)

text \<open>A transaction either commits a new row and one history entry, or changes nothing.\<close>

lemma release_mutate_cases:
  assumes "release_mutate dir now action who mut st = (res, st')"
  obtains (unchanged) "st' = st" "\<not> is_ok res"
  | (committed) row v new where
      "rel_row st = Some row" "release_record dir row = Inr row" "mut row = Inr v"
      "new = row\<lparr>stable_version := new_stable v, canary_version := new_canary v,
               rollout_percent := new_rollout v, previous_stable_version := new_previous v,
               generation := generation row + 1, updated_at := now, updated_by := who\<rparr>"
      "res = Inr new"
      "st' = st\<lparr>rel_row := Some new, rel_history := rel_history st @
         [\<lparr>ev_action = action, ev_before = row, ev_after = new, ev_actor = who\<rparr>]\<rparr>"
proof -
  have rec: "release_record dir r = Inr r' \<Longrightarrow> r' = r" for r r'
    by (auto simp: release_record_def split: sum.splits option.splits if_splits)
  show thesis
  proof (cases "is_ok res")
    case False
    then obtain e where "res = Inl e" by (cases res) auto
    with assms have "st' = st"
      by (auto simp: release_mutate_def Let_def split: if_splits option.splits sum.splits)
    with False show thesis by (rule unchanged[rotated])
  next
    case True
    then obtain out where out: "res = Inr out" by (auto simp: is_ok_iff)
    from assms out obtain row before v where
      row: "rel_row st = Some row" and before: "release_record dir row = Inr before"
      and v: "mut before = Inr v"
      by (auto simp: release_mutate_def Let_def split: if_splits option.splits sum.splits)
    have [simp]: "before = row" using before by (rule rec)
    define new where "new = row\<lparr>stable_version := new_stable v, canary_version := new_canary v,
               rollout_percent := new_rollout v, previous_stable_version := new_previous v,
               generation := generation row + 1, updated_at := now, updated_by := who\<rparr>"
    from assms out row before v obtain after where
      after: "release_record dir new = Inr after" "out = after"
      "st' = st\<lparr>rel_row := Some new, rel_history := rel_history st @
         [\<lparr>ev_action = action, ev_before = row, ev_after = after, ev_actor = who\<rparr>]\<rparr>"
      by (auto simp: release_mutate_def new_def Let_def
            split: if_splits option.splits sum.splits)
    have "after = new" using after(1) by (rule rec)
    with row before v new_def out after show thesis
      by (intro committed[of row v new]) simp_all
  qed
qed

lemma release_mutate_wf:
  assumes run: "release_mutate dir now action who mut st = (res, st')"
    and wf: "release_wf dir st"
    and mut: "\<And>row v. row_wf dir row \<Longrightarrow> mut row = Inr v \<Longrightarrow>
       row_wf dir (row\<lparr>stable_version := new_stable v, canary_version := new_canary v,
         rollout_percent := new_rollout v, previous_stable_version := new_previous v\<rparr>)"
  shows "release_wf dir st'"
  using run
proof (cases rule: release_mutate_cases)
  case unchanged
  with wf show ?thesis by simp
next
  case (committed row v new)
  have row: "row_wf dir row" and link: "linked_to row (rev (rel_history st))"
    using wf committed(1) by (auto simp: release_wf_def)
  have "row_wf dir new"
    using mut[OF row committed(3)] unfolding committed(4)
    by (simp add: row_wf_def split: option.splits)
  with committed link show ?thesis by (simp add: release_wf_def)
qed

text \<open>The operations as commands, so that a history of the table is a list of them.\<close>

datatype release_cmd =
    Configure_Canary string int string
  | Promote string
  | Rollback string

fun release_step ::
    "(string \<Rightarrow> policy_file option) \<Rightarrow> int \<Rightarrow> release_cmd \<Rightarrow>
     (release_store, policy_error, release_row) op" where
  "release_step dir now (Configure_Canary v pct who) = configure_canary dir now v pct who"
| "release_step dir now (Promote who) = promote dir now who"
| "release_step dir now (Rollback who) = rollback dir now who"

definition release_run ::
    "(string \<Rightarrow> policy_file option) \<Rightarrow> (int \<times> release_cmd) list \<Rightarrow> release_store \<Rightarrow> release_store" where
  "release_run dir cmds st = fold (\<lambda>(now, c) s. snd (release_step dir now c s)) cmds st"

lemma configure_canary_wf:
  assumes "configure_canary dir now v pct who st = (res, st')" "release_wf dir st"
  shows "release_wf dir st'"
proof (cases "load_policy_version dir v")
  case (Inl e)
  with assms show ?thesis by (simp add: configure_canary_def)
next
  case (Inr p)
  then have "loads dir v" by (simp add: loads_def)
  with Inr assms show ?thesis
    by (auto simp: configure_canary_def row_wf_def split: if_splits elim!: release_mutate_wf)
qed

lemma promote_wf:
  assumes "promote dir now who st = (res, st')" "release_wf dir st"
  shows "release_wf dir st'"
  using assms unfolding promote_def
  by (auto simp: row_wf_def split: if_splits option.splits elim!: release_mutate_wf)

lemma rollback_wf:
  assumes "rollback dir now who st = (res, st')" "release_wf dir st"
  shows "release_wf dir st'"
  using assms unfolding rollback_def
  by (auto simp: row_wf_def split: if_splits option.splits sum.splits elim!: release_mutate_wf)

lemma release_step_wf:
  "release_step dir now c st = (res, st') \<Longrightarrow> release_wf dir st \<Longrightarrow> release_wf dir st'"
  by (cases c) (auto dest: configure_canary_wf promote_wf rollback_wf)

lemma release_run_wf: "release_wf dir st \<Longrightarrow> release_wf dir (release_run dir cmds st)"
proof (induction cmds arbitrary: st)
  case Nil
  then show ?case by (simp add: release_run_def)
next
  case (Cons c cmds)
  obtain now cmd where c: "c = (now, cmd)" by (cases c)
  obtain r t where step: "release_step dir now cmd st = (r, t)" by fastforce
  have "release_wf dir (release_run dir cmds t)"
    by (rule Cons.IH[OF release_step_wf[OF step Cons.prems]])
  then show ?case by (simp add: release_run_def c step)
qed

lemma init_release_wf:
  assumes "loads dir default_stable_version"
  shows "\<exists>st. init_release dir now empty_release = (Inr (), st) \<and> release_wf dir st"
  using assms
  by (auto simp: init_release_def empty_release_def release_wf_def row_wf_def loads_def is_ok_iff)

end
