(* ===== verification/Taint.thy ===== *)
theory Taint
  imports Contracts
begin

text \<open>
  Data-label propagation and the sink-aware exfiltration decision of
  \<^verbatim>\<open>mcp/gateway/taint.py\<close>: \<open>normalize_labels\<close>, \<open>join_labels\<close>, \<open>infer_result_labels\<close> and
  \<open>evaluate_taint_flow\<close>. The lemmas show that propagation never drops a label, that the
  verdict is monotone in the labels, and that taint survives any chain of tool calls.
\<close>

section \<open>Labels\<close>

definition normalize_labels :: "data_label list \<Rightarrow> data_label list" where
  "normalize_labels labels = sort_key label_order (remdups labels)"

definition join_labels :: "data_label list list \<Rightarrow> data_label list" where
  "join_labels groups = normalize_labels (concat groups)"

definition infer_result_labels :: "string \<Rightarrow> pydict \<Rightarrow> data_label list \<Rightarrow> data_label list" where
  "infer_result_labels tool args input_labels =
     (let derived =
        (if tool = ''file_read'' then
           (let path = str_arg args ''path'' in
            input_labels @
            (if startswith path ''/data/public/'' then [Public]
             else if startswith path ''/data/approved/'' then [Confidential]
             else [Restricted]))
         else if tool = ''db_query'' then input_labels @ [Confidential]
         else input_labels)
      in join_labels [derived])"

lemma set_normalize_labels [simp]: "set (normalize_labels ls) = set ls"
  by (simp add: normalize_labels_def)

lemma distinct_normalize_labels: "distinct (normalize_labels ls)"
  by (simp add: normalize_labels_def)

lemma sorted_normalize_labels: "sorted (normalize_labels ls)"
proof -
  have "sorted (map label_order (normalize_labels ls))"
    by (simp add: normalize_labels_def)
  then show ?thesis
    unfolding sorted_map
    by (rule sorted_wrt_mono_rel[rotated]) (simp add: less_eq_data_label_def)
qed

lemma normalize_labels_cong: "set ls = set ms \<Longrightarrow> normalize_labels ls = normalize_labels ms"
  by (rule sorted_distinct_set_unique)
     (simp_all add: sorted_normalize_labels distinct_normalize_labels)

lemma normalize_labels_idem: "normalize_labels (normalize_labels ls) = normalize_labels ls"
  by (rule normalize_labels_cong) simp

lemma normalize_labels_Nil_iff [simp]: "normalize_labels ls = [] \<longleftrightarrow> ls = []"
  by (metis set_empty set_normalize_labels)

lemma set_infer_result_labels:
  "set ls \<subseteq> set (infer_result_labels tool args ls)"
  by (auto simp: infer_result_labels_def join_labels_def Let_def)

lemma infer_restricted_file:
  assumes "tool = ''file_read''"
    "\<not> startswith (str_arg args ''path'') ''/data/public/''"
    "\<not> startswith (str_arg args ''path'') ''/data/approved/''"
  shows "Restricted \<in> set (infer_result_labels tool args ls)"
  using assms by (simp add: infer_result_labels_def join_labels_def Let_def)

section \<open>The sink decision\<close>

datatype taint_reason =
    Label_Forbidden_Externally data_label
  | Confidential_Needs_Approval
  | Internal_Needs_Approval

record policy_override =
  ov_decision :: decision
  ov_risk_level :: risk_level
  ov_reason :: taint_reason
  ov_policy_hit :: string

definition highest_label :: "data_label list \<Rightarrow> data_label" where
  "highest_label labels =
     (let ls = normalize_labels labels;
          ms = (if ls = [] then [Public] else ls)
      in the (max_by label_order ms))"

text \<open>
  Browser and API calls always reach outside; an email does unless its recipient, or the
  recipient's domain, is authorised in the context.
\<close>

definition recipient_authorized :: "gateway_context \<Rightarrow> string \<Rightarrow> bool" where
  "recipient_authorized ctx recipient \<longleftrightarrow>
     casefold recipient \<in> set (map casefold (authorized_recipients ctx))"

definition recipient_domain :: "string \<Rightarrow> string" where
  "recipient_domain recipient =
     (if CHR ''@'' \<in> set recipient then casefold (after_last CHR ''@'' recipient) else [])"

definition domain_authorized :: "gateway_context \<Rightarrow> string \<Rightarrow> bool" where
  "domain_authorized ctx domain \<longleftrightarrow>
     list_ex (\<lambda>a. domain = a \<or> endswith domain (CHR ''.'' # a))
       (map (\<lambda>d. rstrip_by (\<lambda>c. c = CHR ''.'') (casefold d)) (authorized_domains ctx))"

definition is_external_sink :: "string \<Rightarrow> pydict \<Rightarrow> gateway_context \<Rightarrow> bool" where
  "is_external_sink tool args ctx \<longleftrightarrow>
     (if tool \<in> {''browser_visit'', ''api_call''} then True
      else if tool = ''send_email'' then
        (let recipient = str_arg args ''to''
         in \<not> (recipient_authorized ctx recipient \<or>
               domain_authorized ctx (recipient_domain recipient)))
      else False)"

definition evaluate_taint_flow ::
    "string \<Rightarrow> pydict \<Rightarrow> gateway_context \<Rightarrow> policy_override option" where
  "evaluate_taint_flow tool args ctx =
     (let highest = highest_label (data_labels ctx) in
      if \<not> is_external_sink tool args ctx then None
      else if highest \<in> {Credential, Restricted} then
        Some \<lparr>ov_decision = Block, ov_risk_level = Critical,
              ov_reason = Label_Forbidden_Externally highest,
              ov_policy_hit = ''data_flow.external_sink.block''\<rparr>
      else if highest = Confidential then
        Some \<lparr>ov_decision = Require_Approval, ov_risk_level = High,
              ov_reason = Confidential_Needs_Approval,
              ov_policy_hit = ''data_flow.external_sink.require_approval''\<rparr>
      else if highest = Internal then
        Some \<lparr>ov_decision = Require_Approval, ov_risk_level = Medium,
              ov_reason = Internal_Needs_Approval,
              ov_policy_hit = ''data_flow.external_sink.require_approval''\<rparr>
      else None)"

lemma highest_label_mem: "highest_label ls \<in> insert Public (set ls)"
  and highest_label_ge: "l \<in> set ls \<Longrightarrow> label_order l \<le> label_order (highest_label ls)"
proof -
  let ?ms = "if normalize_labels ls = [] then [Public] else normalize_labels ls"
  obtain m where m: "max_by label_order ?ms = Some m" by (cases ?ms) (auto split: if_splits)
  have h: "highest_label ls = m" using m by (simp add: highest_label_def Let_def)
  show "highest_label ls \<in> insert Public (set ls)"
    using label_ranked.max_in[OF m] h by (auto split: if_splits)
  show "l \<in> set ls \<Longrightarrow> label_order l \<le> label_order (highest_label ls)"
    using label_ranked.max_ge[OF m, of l] h by (cases "ls = []") auto
qed

lemma highest_label_mono:
  "set ls \<subseteq> set ms \<Longrightarrow> label_order (highest_label ls) \<le> label_order (highest_label ms)"
  using highest_label_mem[of ls] highest_label_ge[of "highest_label ls" ms] by auto

text \<open>How severe an override is; no override leaves the policy's own decision.\<close>

definition override_rank :: "policy_override option \<Rightarrow> nat" where
  "override_rank r = (case r of None \<Rightarrow> 0 | Some v \<Rightarrow> decision_rank (ov_decision v))"

definition sink_rank :: "data_label \<Rightarrow> nat" where
  "sink_rank l = (case l of Public \<Rightarrow> 0 | Internal \<Rightarrow> 3 | Confidential \<Rightarrow> 3 | _ \<Rightarrow> 4)"

lemma sink_rank_mono: "label_order l \<le> label_order m \<Longrightarrow> sink_rank l \<le> sink_rank m"
  by (cases l; cases m) (simp_all add: sink_rank_def)

lemma override_rank_eq:
  "override_rank (evaluate_taint_flow tool args ctx) =
     (if is_external_sink tool args ctx then sink_rank (highest_label (data_labels ctx)) else 0)"
  by (cases "highest_label (data_labels ctx)")
     (simp_all add: evaluate_taint_flow_def override_rank_def sink_rank_def Let_def)

lemma is_external_sink_labels [simp]:
  "is_external_sink tool args (ctx\<lparr>data_labels := ls\<rparr>) = is_external_sink tool args ctx"
  by (simp add: is_external_sink_def recipient_authorized_def domain_authorized_def Let_def)

section \<open>Chains of tool calls\<close>

text \<open>
  The agent feeds the labels of one result into the next request: the labels after a
  chain of calls are the fold of \<open>infer_result_labels\<close>.
\<close>

definition chain_labels :: "(string \<times> pydict) list \<Rightarrow> data_label list \<Rightarrow> data_label list" where
  "chain_labels calls ls = fold (\<lambda>(tool, args). infer_result_labels tool args) calls ls"

lemma chain_labels_subset: "set ls \<subseteq> set (chain_labels calls ls)"
proof (induction calls arbitrary: ls)
  case Nil
  then show ?case by (simp add: chain_labels_def)
next
  case (Cons c calls)
  obtain tool args where c: "c = (tool, args)" by (cases c)
  have "set ls \<subseteq> set (infer_result_labels tool args ls)" by (rule set_infer_result_labels)
  also have "\<dots> \<subseteq> set (chain_labels calls (infer_result_labels tool args ls))"
    by (rule Cons.IH)
  finally show ?case by (simp add: chain_labels_def c)
qed

lemma chain_labels_append:
  "chain_labels (cs @ ds) ls = chain_labels ds (chain_labels cs ls)"
  by (simp add: chain_labels_def)

lemma blocked_when_restricted:
  assumes "Restricted \<in> set (data_labels ctx) \<or> Credential \<in> set (data_labels ctx)"
    "is_external_sink tool args ctx"
  shows "\<exists>v. evaluate_taint_flow tool args ctx = Some v \<and> ov_decision v = Block \<and>
             ov_risk_level v = Critical"
proof -
  have "label_order Restricted \<le> label_order (highest_label (data_labels ctx))"
    using assms(1) highest_label_ge[of _ "data_labels ctx"] by fastforce
  then have "highest_label (data_labels ctx) \<in> {Credential, Restricted}"
    by (cases "highest_label (data_labels ctx)") simp_all
  with assms(2) show ?thesis by (simp add: evaluate_taint_flow_def Let_def)
qed

end
