(* ===== verification/Guard.thy ===== *)
theory Guard
  imports PolicyReleases Taint
begin

text \<open>
  The policy decision point \<open>check_tool_call\<close> of \<^verbatim>\<open>mcp/gateway/guard.py\<close> with its path,
  host and domain predicates. The lemmas relate the string tests of the code to what they
  are meant to enforce: \<open>_under\<close> to containment of path components, \<open>_domain_allowed\<close> to
  containment of domain labels. Reasons, which the code words in Chinese, are constructors.
\<close>

section \<open>Predicates on paths and hosts\<close>

definition rstrip_slash :: "string \<Rightarrow> string" where
  "rstrip_slash s = rstrip_by (\<lambda>c. c = CHR ''/'') s"

definition under :: "string \<Rightarrow> string list \<Rightarrow> bool" where
  "under path prefs \<longleftrightarrow>
     (let normalized = posix_str path
      in list_ex (\<lambda>p. normalized = p \<or> startswith normalized (rstrip_slash p @ ''/'')) prefs)"

definition host_is_private :: "string \<Rightarrow> bool" where
  "host_is_private host \<longleftrightarrow>
     (case ip_address host of
        Some a \<Rightarrow> ip_is_local a
      | None \<Rightarrow> host \<in> {''localhost'', ''localhost.localdomain''} \<or> endswith host ''.local'')"

definition rstrip_dot :: "string \<Rightarrow> string" where
  "rstrip_dot s = rstrip_by (\<lambda>c. c = CHR ''.'') s"

definition domain_allowed :: "string \<Rightarrow> string list \<Rightarrow> bool" where
  "domain_allowed host whitelist \<longleftrightarrow>
     (let h = rstrip_dot (casefold host)
      in list_ex (\<lambda>d. h = d \<or> endswith h (CHR ''.'' # d)) whitelist)"

section \<open>Decisions\<close>

datatype guard_reason =
    Policy_Unavailable policy_error
  | Policy_Version_Mismatch
  | Unregistered_Tool
  | Role_Not_Permitted string
  | Agent_Role_Not_Permitted string
  | Tenant_Mismatch
  | Invalid_Path
  | Sensitive_Path string
  | Path_Not_Authorized string
  | Invalid_Recipient
  | Internal_Recipient
  | External_Recipient
  | Invalid_Url
  | Private_Host
  | Host_Not_Whitelisted string
  | Whitelisted_Host
  | Dangerous_Sql
  | Taint_Flow taint_reason
  | Request_Conforms

record policy_decision =
  decision :: decision
  risk_level :: risk_level
  reason :: guard_reason
  policy_hit :: string
  policy_version :: string

text \<open>Exceptions that leave the guard: pydantic's and \<open>urlparse\<close>'s \<open>ValueError\<close>.\<close>

datatype guard_error = Invalid_Request | Invalid_Decision | Url_Value_Error

definition mk_decision ::
    "decision \<Rightarrow> risk_level \<Rightarrow> guard_reason \<Rightarrow> string \<Rightarrow> string \<Rightarrow> policy_decision" where
  "mk_decision d r why hit v =
     \<lparr>decision = d, risk_level = r, reason = why, policy_hit = hit, policy_version = v\<rparr>"

text \<open>\<open>_decision\<close>: the strings of a policy file are validated as enumeration members.\<close>

definition decision_record ::
    "string \<Rightarrow> string \<Rightarrow> guard_reason \<Rightarrow> string \<Rightarrow> string \<Rightarrow> guard_error + policy_decision" where
  "decision_record d r why hit v =
     (case (decision_of d, risk_of r) of
        (Some d', Some r') \<Rightarrow> Inr (mk_decision d' r' why hit v)
      | _ \<Rightarrow> Inl Invalid_Decision)"

definition str_or :: "string \<Rightarrow> string option \<Rightarrow> string" where
  "str_or dflt x = (case x of None \<Rightarrow> dflt | Some s \<Rightarrow> s)"

definition list_or :: "'a list option \<Rightarrow> 'a list" where
  "list_or x = (case x of None \<Rightarrow> [] | Some ys \<Rightarrow> ys)"

definition blocked_tools :: "(string \<times> string list) list \<Rightarrow> string \<Rightarrow> string list" where
  "blocked_tools overrides role = list_or (map_of overrides role)"

definition is_file_tool :: "string \<Rightarrow> bool" where
  "is_file_tool t \<longleftrightarrow> t \<in> {''file_read'', ''file_write'', ''file_delete''}"

definition is_net_tool :: "string \<Rightarrow> bool" where
  "is_net_tool t \<longleftrightarrow> t \<in> {''browser_visit'', ''api_call''}"

definition request_role :: "gateway_context \<Rightarrow> string" where
  "request_role ctx =
     (case ctx_user ctx of
        Some u \<Rightarrow> p_role u
      | None \<Rightarrow> (if set_field (user_role ctx) then the (user_role ctx) else ''staff''))"

text \<open>
  The checks of one tool, in the code's order: either a final blocking decision
  (\<open>Blocked\<close>) or the pending decision, risk, reason and hit the tail of the function
  returns unless the data flow overrides it.
\<close>

datatype tool_verdict =
    Blocked risk_level guard_reason string
  | Pending string string guard_reason string
  | Raised guard_error

definition tool_hit :: "string \<Rightarrow> string \<Rightarrow> string" where
  "tool_hit tool field = ''tools.'' @ tool @ ''.'' @ field"

definition check_file :: "string \<Rightarrow> pydict \<Rightarrow> tool_config \<Rightarrow> tool_verdict" where
  "check_file tool args cfg =
     (let path = str_arg args ''path'';
          allow = list_or (cfg_allow_paths cfg)
      in if \<not> startswith path ''/'' \<or> ''..'' \<in> set (posix_parts path)
           then Blocked High Invalid_Path (tool_hit tool ''path_validation'')
         else if under path (list_or (cfg_deny_paths cfg))
           then Blocked Critical (Sensitive_Path path) (tool_hit tool ''deny_paths'')
         else if allow \<noteq> [] \<and> \<not> under path allow
           then Blocked High (Path_Not_Authorized path) (tool_hit tool ''allow_paths'')
         else Pending (str_or ''block'' (cfg_action cfg)) (str_or ''high'' (cfg_risk_level cfg))
           Request_Conforms (tool_hit tool ''action''))"

definition check_email :: "string \<Rightarrow> pydict \<Rightarrow> tool_config \<Rightarrow> tool_verdict" where
  "check_email tool args cfg =
     (let recipient = str_arg args ''to''
      in if CHR ''@'' \<notin> set recipient \<or> startswith recipient ''@'' \<or> endswith recipient ''@''
           then Blocked High Invalid_Recipient ''tools.send_email.address_validation''
         else if domain_allowed (casefold (after_last CHR ''@'' recipient))
                   (list_or (cfg_internal_domains cfg))
           then Pending ''allow_with_log'' ''medium'' Internal_Recipient
                  ''tools.send_email.internal_domain_whitelist''
         else Pending (str_or ''require_approval'' (cfg_external_action cfg))
                (str_or ''high'' (cfg_risk_level cfg)) External_Recipient
                ''tools.send_email.external_domain_action'')"

definition check_url :: "string \<Rightarrow> pydict \<Rightarrow> tool_config \<Rightarrow> tool_verdict" where
  "check_url tool args cfg =
     (case urlparse (str_arg args ''url'') of
        None \<Rightarrow> Raised Url_Value_Error
      | Some (scheme, hostname) \<Rightarrow>
          (let host = str_or [] hostname
           in if scheme \<notin> {''http'', ''https''} \<or> host = []
                then Blocked High Invalid_Url (tool_hit tool ''url_validation'')
              else if cfg_block_private_ip cfg \<noteq> Some False \<and> host_is_private host
                then Blocked Critical Private_Host (tool_hit tool ''block_private_ip'')
              else if \<not> domain_allowed host (list_or (cfg_domain_whitelist cfg))
                then Blocked High (Host_Not_Whitelisted host) (tool_hit tool ''domain_whitelist'')
              else Pending ''allow_with_log'' (str_or ''high'' (cfg_risk_level cfg))
                     Whitelisted_Host (tool_hit tool ''action'')))"

definition check_sql :: "string \<Rightarrow> pydict \<Rightarrow> tool_config \<Rightarrow> tool_verdict" where
  "check_sql tool args cfg =
     (let sql = strip (casefold (str_arg args ''sql''))
      in if \<not> startswith sql ''select '' \<or> list_ex (contains sql) (list_or (cfg_forbidden cfg))
           then Blocked Critical Dangerous_Sql ''tools.db_query.forbidden_patterns''
         else Pending (str_or ''block'' (cfg_action cfg)) (str_or ''high'' (cfg_risk_level cfg))
                Request_Conforms (tool_hit tool ''action''))"

definition check_tool :: "string \<Rightarrow> pydict \<Rightarrow> tool_config \<Rightarrow> tool_verdict" where
  "check_tool tool args cfg =
     (if is_file_tool tool then check_file tool args cfg
      else if tool = ''send_email'' then check_email tool args cfg
      else if is_net_tool tool then check_url tool args cfg
      else if tool = ''db_query'' then check_sql tool args cfg
      else Pending (str_or ''block'' (cfg_action cfg)) (str_or ''high'' (cfg_risk_level cfg))
             Request_Conforms (tool_hit tool ''action''))"

text \<open>The identity checks that precede the tool's own: \<open>None\<close> when they pass.\<close>

definition identity_block ::
    "policy \<Rightarrow> string \<Rightarrow> gateway_context \<Rightarrow> (risk_level \<times> guard_reason \<times> string) option" where
  "identity_block pol tool ctx =
     (let role = request_role ctx
      in if tool \<in> set (blocked_tools (role_overrides pol) role)
           then Some (High, Role_Not_Permitted role,
                      ''role_overrides.'' @ role @ ''.blocked_tools'')
         else (case ctx_agent ctx of
             None \<Rightarrow> None
           | Some a \<Rightarrow>
               if tool \<in> set (blocked_tools (agent_role_overrides pol) (p_role a))
                 then Some (High, Agent_Role_Not_Permitted (p_role a),
                            ''agent_role_overrides.'' @ p_role a @ ''.blocked_tools'')
               else (case ctx_user ctx of
                   None \<Rightarrow> None
                 | Some u \<Rightarrow>
                     if tenant_id u \<noteq> tenant_id a
                       then Some (Critical, Tenant_Mismatch, ''gateway.identity.tenant_mismatch'')
                     else None)))"

text \<open>The decision under a given policy (everything after the policy has been selected).\<close>

definition decide_under ::
    "policy \<Rightarrow> tool_request \<Rightarrow> guard_error + policy_decision" where
  "decide_under pol req =
     (let tool = tool_name req; args = tool_args req; ctx = req_context req;
          version = str_or ''unknown'' (pol_version pol)
      in if set_field (ctx_policy_version ctx) \<and> ctx_policy_version ctx \<noteq> Some version
           then Inr (mk_decision Block High Policy_Version_Mismatch
                  ''gateway.policy_version_mismatch'' version)
         else (case map_of (list_or (pol_tools pol)) tool of
             None \<Rightarrow> Inr (mk_decision Block High Unregistered_Tool ''tools.default_deny'' version)
           | Some cfg \<Rightarrow>
               if cfg = empty_config
                 then Inr (mk_decision Block High Unregistered_Tool ''tools.default_deny'' version)
               else (case identity_block pol tool ctx of
                   Some (r, why, hit) \<Rightarrow> Inr (mk_decision Block r why hit version)
                 | None \<Rightarrow>
                     (case check_tool tool args cfg of
                        Raised e \<Rightarrow> Inl e
                      | Blocked r why hit \<Rightarrow> Inr (mk_decision Block r why hit version)
                      | Pending d r why hit \<Rightarrow>
                          (case evaluate_taint_flow tool args ctx of
                             Some ov \<Rightarrow> Inr (mk_decision (ov_decision ov) (ov_risk_level ov)
                               (Taint_Flow (ov_reason ov)) (ov_policy_hit ov) version)
                           | None \<Rightarrow> decision_record d r why hit version)))))"

definition check_tool_call ::
    "(string \<Rightarrow> policy_file option) \<Rightarrow> (string \<Rightarrow> string) \<Rightarrow> release_store \<Rightarrow> policy option \<Rightarrow>
     tool_request \<Rightarrow> guard_error + policy_decision" where
  "check_tool_call dir sha releases snapshot req =
     (if \<not> valid_tool_request req then Inl Invalid_Request
      else (case (case snapshot of
               Some p \<Rightarrow> Inr p
             | None \<Rightarrow> select_policy dir sha releases (req_context req)) of
          Inl e \<Rightarrow> Inr (mk_decision Block Critical (Policy_Unavailable e)
                     ''gateway.policy_release_unavailable'' ''unavailable'')
        | Inr pol \<Rightarrow> decide_under pol req))"

section \<open>What the path test means\<close>

text \<open>
  Lexical resolution of a path: \<open>..\<close> removes the component before it. A path without
  \<open>..\<close> resolves to itself, so a path the guard lets through is where its components say.
\<close>

fun resolve_onto :: "string list \<Rightarrow> string list \<Rightarrow> string list" where
  "resolve_onto acc [] = acc"
| "resolve_onto acc (c # cs) =
     (if c = ''..'' then resolve_onto (butlast acc) cs else resolve_onto (acc @ [c]) cs)"

definition resolve :: "string \<Rightarrow> string list" where
  "resolve path = resolve_onto [] (posix_components path)"

lemma resolve_onto_no_dots: "''..'' \<notin> set cs \<Longrightarrow> resolve_onto acc cs = acc @ cs"
  by (induction cs arbitrary: acc) auto

lemma resolve_no_dots: "''..'' \<notin> set (posix_parts p) \<Longrightarrow> resolve p = posix_components p"
  by (simp add: resolve_def resolve_onto_no_dots dotdot_in_parts)

lemma posix_components_append_slash:
  "posix_components (s @ CHR ''/'' # t) = posix_components s @ posix_components t"
  by (simp add: posix_components_def split_on_append)

lemma posix_components_Nil [simp]: "posix_components [] = []"
  by (simp add: posix_components_def)

lemma posix_components_slash [simp]: "posix_components (CHR ''/'' # t) = posix_components t"
  using posix_components_append_slash[of "[]" t] by simp

lemma posix_components_join:
  assumes "\<And>x. x \<in> set cs \<Longrightarrow> CHR ''/'' \<notin> set x \<and> x \<noteq> [] \<and> x \<noteq> ''.''"
  shows "posix_components (join ''/'' cs) = cs"
  using assms
proof (induction "''/''" cs rule: join.induct)
  case 1
  then show ?case by simp
next
  case (2 s)
  then show ?case by (simp add: posix_components_def split_on_no_occ)
next
  case (3 s t ss)
  have "posix_components s = [s]"
    using "3.prems"[of s] by (simp add: posix_components_def split_on_no_occ)
  moreover have "posix_components (join ''/'' (t # ss)) = t # ss"
    by (rule "3.hyps") (use "3.prems" in auto)
  ultimately show ?case by (simp add: posix_components_append_slash)
qed

lemma posix_components_str [simp]: "posix_components (posix_str p) = posix_components p"
proof -
  have j: "posix_components (join ''/'' (posix_components p)) = posix_components p"
    by (rule posix_components_join)
       (use posix_components_no_slash posix_components_nonempty in blast)
  have "posix_components (posix_root p @ x) = posix_components x" for x
    by (simp add: posix_root_def Let_def)
  with j show ?thesis
    by (auto simp: posix_str_def Let_def posix_components_def)
qed

lemma rstrip_decomp: "\<exists>n. s = rstrip_slash s @ replicate n (CHR ''/'')"
proof -
  let ?P = "\<lambda>c. c = CHR ''/''"
  let ?t = "takeWhile ?P (rev s)"
  have t: "?t = replicate (length ?t) (CHR ''/'')"
    by (rule replicate_length_same[symmetric]) (auto dest: set_takeWhileD)
  have "s = rev (?t @ dropWhile ?P (rev s))" by (metis takeWhile_dropWhile_id rev_rev_ident)
  also have "\<dots> = rstrip_slash s @ rev ?t"
    by (simp only: rev_append rstrip_slash_def rstrip_by_def)
  also have "rev ?t = replicate (length ?t) (CHR ''/'')"
    using t by (metis rev_replicate)
  finally show ?thesis by blast
qed

lemma rstrip_slash_id: "s \<noteq> [] \<Longrightarrow> last s \<noteq> CHR ''/'' \<Longrightarrow> rstrip_slash s = s"
  by (cases s rule: rev_cases) (simp_all add: rstrip_slash_def rstrip_by_def)

lemma posix_components_slashes: "posix_components (replicate n (CHR ''/'')) = []"
  by (induction n) simp_all

lemma posix_components_append_slashes:
  "posix_components (s @ replicate n (CHR ''/'')) = posix_components s"
  by (cases n) (simp_all add: posix_components_append_slash posix_components_slashes)

lemma posix_components_rstrip [simp]: "posix_components (rstrip_slash s) = posix_components s"
  by (metis posix_components_append_slashes rstrip_decomp)

text \<open>Soundness: a path \<open>_under\<close> a prefix has that prefix's components first.\<close>

lemma under_components:
  assumes "under path prefs"
  shows "\<exists>p \<in> set prefs. prefix (posix_components p) (posix_components path)"
proof -
  from assms obtain p where p: "p \<in> set prefs"
    and or: "posix_str path = p \<or> prefix (rstrip_slash p @ ''/'') (posix_str path)"
    by (auto simp: under_def list_ex_iff startswith_def Let_def)
  from or have "prefix (posix_components p) (posix_components (posix_str path))"
  proof
    assume "prefix (rstrip_slash p @ ''/'') (posix_str path)"
    then obtain t where "posix_str path = rstrip_slash p @ CHR ''/'' # t"
      by (auto simp: prefix_def)
    then show ?thesis by (simp add: posix_components_append_slash)
  qed simp
  with p show ?thesis by auto
qed

lemma join_append:
  "xs \<noteq> [] \<Longrightarrow> ys \<noteq> [] \<Longrightarrow> join sep (xs @ ys) = join sep xs @ sep @ join sep ys"
proof (induction sep xs rule: join.induct)
  case (2 sep s)
  then show ?case by (cases ys) simp_all
qed simp_all

text \<open>
  Completeness: a single-slash absolute path whose components extend those of an absolute
  normal prefix is \<open>_under\<close> it, however the path is spelled (\<open>/./etc//passwd\<close>).
\<close>

lemma under_complete:
  assumes "p \<in> set prefs" "posix_root path = ''/''" "p = CHR ''/'' # join ''/'' pc"
    "pc = posix_components p" "pc \<noteq> []" "prefix pc (posix_components path)"
  shows "under path prefs"
proof -
  obtain rest where rest: "posix_components path = pc @ rest"
    using assms(6) by (auto simp: prefix_def)
  have str: "posix_str path = CHR ''/'' # join ''/'' (pc @ rest)"
    using assms(2) by (simp add: posix_str_def rest)
  have lastc: "last p \<noteq> CHR ''/''"
  proof -
    have "last pc \<in> set (posix_components p)" using assms(4,5) by simp
    then have l: "CHR ''/'' \<notin> set (last pc)" "last pc \<noteq> []"
      using posix_components_no_slash posix_components_nonempty by blast+
    have "\<exists>q. p = q @ last pc"
    proof (cases "butlast pc = []")
      case True
      then have "pc = [last pc]" using assms(5) by (metis append_butlast_last_id append_Nil)
      then show ?thesis using assms(3) by (metis append_Cons append_Nil join.simps(2))
    next
      case False
      then have "join ''/'' pc = join ''/'' (butlast pc) @ ''/'' @ last pc"
        using join_append[of "butlast pc" "[last pc]"] assms(5) by simp
      then show ?thesis using assms(3) by (metis append_Cons append_assoc)
    qed
    with l show ?thesis by (metis last_appendR last_in_set)
  qed
  have strip: "rstrip_slash p = p"
    using lastc assms(3) by (intro rstrip_slash_id) auto
  have "posix_str path = p \<or> startswith (posix_str path) (rstrip_slash p @ ''/'')"
  proof (cases "rest = []")
    case True
    then show ?thesis using str assms(3) by simp
  next
    case False
    then have "posix_str path = p @ ''/'' @ join ''/'' rest"
      using str assms(3) join_append[OF assms(5) False] by simp
    then show ?thesis by (simp add: strip startswith_def)
  qed
  with assms(1) show ?thesis by (auto simp: under_def list_ex_iff Let_def)
qed

section \<open>What the domain test means\<close>

text \<open>
  A host the whitelist admits has the labels of a whitelisted domain last: the test cuts at
  a dot, so \<open>evilgov.cn\<close> does not pass for \<open>gov.cn\<close>.
\<close>

definition domain_labels :: "string \<Rightarrow> string list" where
  "domain_labels h = split_on CHR ''.'' h"

lemma domain_allowed_labels:
  assumes "domain_allowed host whitelist"
  shows "\<exists>d \<in> set whitelist. suffix (domain_labels d) (domain_labels (rstrip_dot (casefold host)))"
proof -
  let ?h = "rstrip_dot (casefold host)"
  from assms obtain d where d: "d \<in> set whitelist"
    and or: "?h = d \<or> suffix (CHR ''.'' # d) ?h"
    by (auto simp: domain_allowed_def list_ex_iff endswith_def Let_def)
  from or have "suffix (domain_labels d) (domain_labels ?h)"
  proof
    assume "suffix (CHR ''.'' # d) ?h"
    then obtain t where "?h = t @ CHR ''.'' # d" by (auto simp: suffix_def)
    then show ?thesis by (auto simp: domain_labels_def split_on_append suffix_def)
  qed simp
  with d show ?thesis by blast
qed

section \<open>Decisions other than a block\<close>

text \<open>What a decision other than \<open>Block\<close> has been through.\<close>

lemma decide_under_nonblock:
  assumes "decide_under pol req = Inr d" "decision d \<noteq> Block"
  obtains cfg dd rr why hit where
    "map_of (list_or (pol_tools pol)) (tool_name req) = Some cfg" "cfg \<noteq> empty_config"
    "identity_block pol (tool_name req) (req_context req) = None"
    "check_tool (tool_name req) (tool_args req) cfg = Pending dd rr why hit"
    "set_field (ctx_policy_version (req_context req)) \<Longrightarrow>
       ctx_policy_version (req_context req) = Some (policy_version d)"
    "policy_version d = str_or ''unknown'' (pol_version pol)"
    "(case evaluate_taint_flow (tool_name req) (tool_args req) (req_context req) of
        Some ov \<Rightarrow> decision d = ov_decision ov \<and> risk_level d = ov_risk_level ov
      | None \<Rightarrow> decision_of dd = Some (decision d) \<and> risk_of rr = Some (risk_level d))"
proof -
  let ?v = "str_or ''unknown'' (pol_version pol)"
  let ?pin = "ctx_policy_version (req_context req)"
  have pin: "\<not> (set_field ?pin \<and> ?pin \<noteq> Some ?v)"
    using assms by (auto simp: decide_under_def Let_def mk_decision_def split: if_splits)
  obtain cfg where cfg: "map_of (list_or (pol_tools pol)) (tool_name req) = Some cfg"
    using assms pin by (auto simp: decide_under_def Let_def mk_decision_def split: option.splits if_splits)
  have ne: "cfg \<noteq> empty_config"
    using assms pin cfg by (auto simp: decide_under_def Let_def mk_decision_def split: if_splits)
  have idb: "identity_block pol (tool_name req) (req_context req) = None"
    using assms pin cfg ne
    by (auto simp: decide_under_def Let_def mk_decision_def split: option.splits if_splits)
  obtain dd rr why hit where ct: "check_tool (tool_name req) (tool_args req) cfg = Pending dd rr why hit"
    using assms pin cfg ne idb
    by (cases "check_tool (tool_name req) (tool_args req) cfg")
       (auto simp: decide_under_def Let_def mk_decision_def split: if_splits)
  have fin: "(case evaluate_taint_flow (tool_name req) (tool_args req) (req_context req) of
       Some ov \<Rightarrow> Inr (mk_decision (ov_decision ov) (ov_risk_level ov)
                    (Taint_Flow (ov_reason ov)) (ov_policy_hit ov) ?v)
     | None \<Rightarrow> decision_record dd rr why hit ?v) = Inr d"
    using assms(1) pin cfg ne idb ct by (auto simp: decide_under_def Let_def split: if_splits option.splits)
  have ver: "policy_version d = ?v"
    using fin by (auto simp: decision_record_def mk_decision_def split: option.splits)
  show thesis
    by (rule that[OF cfg ne idb ct])
       (use pin ver fin in \<open>auto simp: decision_record_def mk_decision_def split: option.splits\<close>)
qed

definition policy_used ::
    "(string \<Rightarrow> policy_file option) \<Rightarrow> (string \<Rightarrow> string) \<Rightarrow> release_store \<Rightarrow> policy option \<Rightarrow>
     tool_request \<Rightarrow> policy_error + policy" where
  "policy_used dir sha releases snapshot req =
     (case snapshot of Some p \<Rightarrow> Inr p | None \<Rightarrow> select_policy dir sha releases (req_context req))"

lemma check_tool_call_nonblock:
  assumes "check_tool_call dir sha releases snapshot req = Inr d" "decision d \<noteq> Block"
  shows "\<exists>pol. policy_used dir sha releases snapshot req = Inr pol \<and> decide_under pol req = Inr d"
  using assms
  by (auto simp: check_tool_call_def policy_used_def mk_decision_def split: if_splits option.splits sum.splits)

lemma check_file_pending:
  assumes "check_file tool args cfg = Pending dd rr why hit"
  shows "startswith (str_arg args ''path'') ''/''"
    "resolve (str_arg args ''path'') = posix_components (str_arg args ''path'')"
    "\<not> under (str_arg args ''path'') (list_or (cfg_deny_paths cfg))"
    "list_or (cfg_allow_paths cfg) \<noteq> [] \<Longrightarrow> under (str_arg args ''path'') (list_or (cfg_allow_paths cfg))"
  using assms
  by (auto simp: check_file_def Let_def resolve_no_dots split: if_splits)

lemma check_url_pending:
  assumes "check_url tool args cfg = Pending dd rr why hit"
  obtains scheme host where "urlparse (str_arg args ''url'') = Some (scheme, Some host)"
    "scheme \<in> {''http'', ''https''}" "host \<noteq> []"
    "cfg_block_private_ip cfg \<noteq> Some False \<Longrightarrow> \<not> host_is_private host"
    "domain_allowed host (list_or (cfg_domain_whitelist cfg))" "dd = ''allow_with_log''"
proof -
  obtain scheme hostname where u: "urlparse (str_arg args ''url'') = Some (scheme, hostname)"
    using assms by (auto simp: check_url_def split: option.splits)
  show thesis
    using that[of scheme "the hostname"] u assms
    by (cases hostname) (auto simp: check_url_def str_or_def Let_def split: if_splits)
qed

lemma is_file_tool_check: "is_file_tool tool \<Longrightarrow> check_tool tool args cfg = check_file tool args cfg"
  by (simp add: check_tool_def)

lemma is_net_tool_check: "is_net_tool tool \<Longrightarrow> check_tool tool args cfg = check_url tool args cfg"
  by (auto simp: check_tool_def is_net_tool_def is_file_tool_def)

text \<open>The policies of the repository all carry the same tool table.\<close>

lemma load_released: "load_policy_version policy_dir v = Inr p \<Longrightarrow> p \<in> {policy_2_0_0, policy_2_1_0}"
  by (auto simp: load_policy_version_def policy_dir_def split: if_splits option.splits)

lemma policy_used_released:
  "policy_used policy_dir sha releases None req = Inr pol \<Longrightarrow> pol_tools pol = Some tools_2_0_0"
  by (auto simp: policy_used_def select_policy_def policy_2_0_0_def policy_2_1_0_def
      split: sum.splits dest: load_released)

end
