(* ===== verification/Ledger.thy ===== *)
theory Ledger
  imports Contracts
begin

text \<open>
  The usage ledgers of \<^verbatim>\<open>mcp/gateway/capabilities.py\<close>: the \<open>CapabilityLedger\<close> protocol as
  a locale (one atomic operation, \<open>consume\<close>, and the number of uses it accounts for), the
  client lemmas proved once from its laws, and the interpretations for the process-local
  and the SQLite ledger. The counting lemma is the replay protection of the gateway: however
  requests interleave, a ticket is granted at most its maximum number of uses, and exactly
  that many when it is asked for often enough.
\<close>

section \<open>Errors of the capability service\<close>

datatype cap_reason =
    Bad_Encoding
  | Ledger_Max_Mismatch
  | Uses_Exhausted
  | Ledger_Unavailable
  | No_Subject
  | Bad_Structure
  | Bad_Signature
  | Bad_Payload
  | Untrusted_Issuer
  | Ticket_Expired
  | Subject_Mismatch
  | Task_Chain_Mismatch
  | Stale_Policy_Version
  | Tool_Not_Granted
  | Argument_Out_Of_Scope string
  | Path_Out_Of_Scope
  | Url_Out_Of_Scope
  | Recipient_Out_Of_Scope
  | Data_Scope_Exceeded
  | Data_Label_Exceeded
  | Ticket_Missing
  | Policy_Blocks_Issue
  | Trace_Missing
  | Principal_Missing

text \<open>\<open>CapabilityTicketError\<close>, and a bare \<open>ValueError\<close>, which callers do not catch.\<close>

datatype cap_error = Capability_Ticket_Error cap_reason | Value_Error

section \<open>The protocol\<close>

type_synonym 's consumer = "string \<Rightarrow> int \<Rightarrow> int \<Rightarrow> ('s, cap_error, int) op"

text \<open>A sequence of \<open>(ticket, max_uses, expires_at)\<close> requests, in the order the locks grant.\<close>

fun consume_all ::
    "'s consumer \<Rightarrow> (string \<times> int \<times> int) list \<Rightarrow> 's \<Rightarrow> (cap_error + int) list \<times> 's" where
  "consume_all consume [] s = ([], s)"
| "consume_all consume ((t, m, e) # reqs) s =
     (case consume t m e s of (r, s') \<Rightarrow>
        (case consume_all consume reqs s' of (rs, s'') \<Rightarrow> (r # rs, s'')))"

definition granted :: "string \<Rightarrow> (string \<times> int \<times> int) list \<Rightarrow> (cap_error + int) list \<Rightarrow> nat" where
  "granted t reqs rs = length (filter (\<lambda>(q, r). fst q = t \<and> is_ok r) (zip reqs rs))"

definition requested :: "string \<Rightarrow> (string \<times> int \<times> int) list \<Rightarrow> nat" where
  "requested t reqs = length (filter (\<lambda>q. fst q = t) reqs)"

definition same_max :: "string \<Rightarrow> int \<Rightarrow> (string \<times> int \<times> int) list \<Rightarrow> bool" where
  "same_max t m reqs \<longleftrightarrow> list_all (\<lambda>(t', m', _). t' = t \<longrightarrow> m' = m) reqs"

lemma granted_Cons [simp]:
  "granted t (q # reqs) (r # rs) = (if fst q = t \<and> is_ok r then 1 else 0) + granted t reqs rs"
  by (simp add: granted_def)

lemma granted_Nil [simp]: "granted t [] rs = 0"
  by (simp add: granted_def)

lemma requested_simps [simp]:
  "requested t [] = 0"
  "requested t (q # reqs) = (if fst q = t then 1 else 0) + requested t reqs"
  by (simp_all add: requested_def)

lemma same_max_Cons [simp]:
  "same_max t m ((t', m', e) # reqs) \<longleftrightarrow> (t' = t \<longrightarrow> m' = m) \<and> same_max t m reqs"
  by (simp add: same_max_def)

locale usage_ledger =
  fixes consume :: "'s consumer"
    and uses :: "'s \<Rightarrow> string \<Rightarrow> int"
    and inv :: "'s \<Rightarrow> bool"
    and fits :: "'s \<Rightarrow> string \<Rightarrow> int \<Rightarrow> bool"
  assumes consume_ok: "inv s \<Longrightarrow> consume t m e s = (Inr n, s') \<Longrightarrow>
      n = uses s t + 1 \<and> n \<le> m \<and> uses s' = (uses s)(t := n) \<and> inv s'"
    and consume_err: "inv s \<Longrightarrow> consume t m e s = (Inl x, s') \<Longrightarrow> s' = s"
    and consume_live: "inv s \<Longrightarrow> fits s t m \<Longrightarrow> uses s t < m \<Longrightarrow> is_ok (fst (consume t m e s))"
    and fits_kept: "inv s \<Longrightarrow> fits s t m \<Longrightarrow> (t' = t \<Longrightarrow> m' = m) \<Longrightarrow>
      consume t' m' e s = (r, s') \<Longrightarrow> fits s' t m"
begin

lemma consume_inv: "inv s \<Longrightarrow> consume t m e s = (r, s') \<Longrightarrow> inv s'"
  by (cases r) (auto dest: consume_ok consume_err)

lemma consume_uses:
  "inv s \<Longrightarrow> consume t' m e s = (r, s') \<Longrightarrow>
     uses s' t = uses s t + (if t' = t \<and> is_ok r then 1 else 0)"
  by (cases r) (auto dest: consume_ok consume_err)

lemma consume_all_inv: "inv s \<Longrightarrow> consume_all consume reqs s = (rs, s') \<Longrightarrow> inv s'"
  by (induction reqs arbitrary: s rs)
     (auto split: prod.splits, metis consume_inv)

text \<open>The ledger counts exactly what it grants.\<close>

lemma uses_counts:
  "inv s \<Longrightarrow> consume_all consume reqs s = (rs, s') \<Longrightarrow>
     uses s' t = uses s t + int (granted t reqs rs)"
proof (induction reqs arbitrary: s rs s')
  case Nil
  then show ?case by simp
next
  case (Cons q reqs)
  obtain t' m e where q: "q = (t', m, e)" by (cases q)
  obtain r u where r: "consume t' m e s = (r, u)" by fastforce
  obtain rs' v where rs: "consume_all consume reqs u = (rs', v)" by fastforce
  from Cons.prems(2) have eq: "rs = r # rs'" "s' = v" by (simp_all add: q r rs)
  have u: "inv u" by (rule consume_inv[OF Cons.prems(1) r])
  have "uses v t = uses u t + int (granted t reqs rs')" by (rule Cons.IH[OF u rs])
  with consume_uses[OF Cons.prems(1) r, of t] show ?case by (simp add: eq q)
qed

lemma uses_bounded:
  "inv s \<Longrightarrow> consume_all consume reqs s = (rs, s') \<Longrightarrow> same_max t m reqs \<Longrightarrow> uses s t \<le> m \<Longrightarrow>
     uses s' t \<le> m"
proof (induction reqs arbitrary: s rs s')
  case Nil
  then show ?case by simp
next
  case (Cons q reqs)
  obtain t' m' e where q: "q = (t', m', e)" by (cases q)
  obtain r u where r: "consume t' m' e s = (r, u)" by fastforce
  obtain rs' v where rs: "consume_all consume reqs u = (rs', v)" by fastforce
  have u: "inv u" by (rule consume_inv[OF Cons.prems(1) r])
  have "uses u t \<le> m"
    using Cons.prems r by (cases r) (auto simp: q dest: consume_ok consume_err)
  with Cons.IH[OF u rs] Cons.prems show ?case by (simp add: q r rs)
qed

text \<open>No interleaving grants a ticket more than what is left of its maximum.\<close>

lemma at_most_max:
  "inv s \<Longrightarrow> consume_all consume reqs s = (rs, s') \<Longrightarrow> same_max t m reqs \<Longrightarrow> uses s t \<le> m \<Longrightarrow>
     int (granted t reqs rs) \<le> m - uses s t"
  using uses_counts[of s reqs rs s' t] uses_bounded[of s reqs rs s' t m] by simp

text \<open>And a ticket that fits the ledger is granted as long as something is left.\<close>

lemma exactly_min:
  "inv s \<Longrightarrow> consume_all consume reqs s = (rs, s') \<Longrightarrow> same_max t m reqs \<Longrightarrow> uses s t \<le> m \<Longrightarrow>
     fits s t m \<Longrightarrow> int (granted t reqs rs) = min (int (requested t reqs)) (m - uses s t)"
proof (induction reqs arbitrary: s rs s')
  case Nil
  then show ?case by simp
next
  case (Cons q reqs)
  obtain t' m' e where q: "q = (t', m', e)" by (cases q)
  obtain r u where r: "consume t' m' e s = (r, u)" by fastforce
  obtain rs' v where rs: "consume_all consume reqs u = (rs', v)" by fastforce
  have u: "inv u" by (rule consume_inv[OF Cons.prems(1) r])
  have fu: "fits u t m"
    using fits_kept[OF Cons.prems(1,5) _ r] Cons.prems(3) by (simp add: q)
  have uu: "uses u t = uses s t + (if t' = t \<and> is_ok r then 1 else 0)"
    by (rule consume_uses[OF Cons.prems(1) r])
  have le: "uses u t \<le> m"
    using Cons.prems r by (cases r) (auto simp: q dest: consume_ok consume_err)
  have live: "t' = t \<Longrightarrow> uses s t < m \<Longrightarrow> is_ok r"
    using consume_live[OF Cons.prems(1,5), of e] r Cons.prems(3) by (simp add: q)
  have "int (granted t reqs rs') = min (int (requested t reqs)) (m - uses u t)"
    by (rule Cons.IH[OF u rs]) (use Cons.prems fu le in \<open>auto simp: q\<close>)
  moreover have "rs = r # rs'" using Cons.prems(2) by (simp add: q r rs)
  ultimately show ?case using uu live le Cons.prems(4) by (auto simp: q min_def)
qed

end

section \<open>The process-local ledger\<close>

type_synonym memory_ledger = "string \<Rightarrow> int option"

definition mem_uses :: "memory_ledger \<Rightarrow> string \<Rightarrow> int" where
  "mem_uses l t = (case l t of None \<Rightarrow> 0 | Some n \<Rightarrow> n)"

definition mem_consume :: "memory_ledger consumer" where
  "mem_consume t m e l =
     (let uses = mem_uses l t
      in if m \<le> uses then (Inl (Capability_Ticket_Error Uses_Exhausted), l)
         else (Inr (uses + 1), l(t \<mapsto> uses + 1)))"

interpretation mem_ledger: usage_ledger mem_consume mem_uses "\<lambda>_. True" "\<lambda>_ _ _. True"
  by unfold_locales
     (auto simp: mem_consume_def mem_uses_def Let_def split: if_splits)

section \<open>The SQLite ledger\<close>

record usage_row =
  us_ticket :: string
  us_uses :: int
  us_max :: int
  us_expires :: int

text \<open>\<open>db_up\<close> says whether the database answers; when not, every call is a \<open>sqlite3.Error\<close>.\<close>

record sqlite_ledger =
  us_rows :: "usage_row list"
  us_up :: bool

definition sql_uses :: "sqlite_ledger \<Rightarrow> string \<Rightarrow> int" where
  "sql_uses l t = (case row_get us_ticket t (us_rows l) of None \<Rightarrow> 0 | Some r \<Rightarrow> us_uses r)"

definition sql_consume :: "sqlite_ledger consumer" where
  "sql_consume t m e l =
     (if \<not> us_up l then (Inl (Capability_Ticket_Error Ledger_Unavailable), l)
      else (let row = row_get us_ticket t (us_rows l);
                uses = (case row of None \<Rightarrow> 0 | Some r \<Rightarrow> us_uses r);
                stored_max = (case row of None \<Rightarrow> m | Some r \<Rightarrow> us_max r)
            in if stored_max \<noteq> m
                 then (Inl (Capability_Ticket_Error Ledger_Max_Mismatch), l)
               else if m \<le> uses then (Inl (Capability_Ticket_Error Uses_Exhausted), l)
               else (Inr (uses + 1),
                     l\<lparr>us_rows :=
                       (case row of
                          Some _ \<Rightarrow> row_update us_ticket t (\<lambda>r. r\<lparr>us_uses := uses + 1\<rparr>) (us_rows l)
                        | None \<Rightarrow> us_rows l @
                            [\<lparr>us_ticket = t, us_uses = uses + 1, us_max = m, us_expires = e\<rparr>])\<rparr>)))"

definition sql_fits :: "sqlite_ledger \<Rightarrow> string \<Rightarrow> int \<Rightarrow> bool" where
  "sql_fits l t m \<longleftrightarrow>
     us_up l \<and> (case row_get us_ticket t (us_rows l) of None \<Rightarrow> True | Some r \<Rightarrow> us_max r = m)"

lemma sql_consume_cases:
  assumes "sql_consume t m e l = (r, l')"
  obtains (err) x where "r = Inl x" "l' = l"
  | (ok) "r = Inr (sql_uses l t + 1)" "us_up l'" "us_up l" "sql_uses l t < m"
      "\<And>k. row_get us_ticket k (us_rows l') =
         (if k = t then Some \<lparr>us_ticket = t, us_uses = sql_uses l t + 1, us_max = m,
            us_expires = (case row_get us_ticket t (us_rows l) of None \<Rightarrow> e | Some q \<Rightarrow> us_expires q)\<rparr>
          else row_get us_ticket k (us_rows l))"
proof (cases r)
  case (Inl x)
  with assms have "l' = l"
    by (auto simp: sql_consume_def Let_def split: if_splits)
  with Inl show thesis by (rule err)
next
  case (Inr n)
  have res: "r = Inr (sql_uses l t + 1)" "us_up l'" "us_up l" "sql_uses l t < m"
    using assms Inr
    by (auto simp: sql_consume_def sql_uses_def Let_def split: if_splits option.splits)
  have "row_get us_ticket k (us_rows l') =
         (if k = t then Some \<lparr>us_ticket = t, us_uses = sql_uses l t + 1, us_max = m,
            us_expires = (case row_get us_ticket t (us_rows l) of None \<Rightarrow> e | Some q \<Rightarrow> us_expires q)\<rparr>
          else row_get us_ticket k (us_rows l))" for k
  proof (cases "row_get us_ticket t (us_rows l)")
    case None
    with assms Inr show ?thesis
      by (auto simp: sql_consume_def sql_uses_def Let_def table_simps split: if_splits option.splits)
  next
    case (Some q)
    then have "us_ticket q = t" by (auto dest: row_get_SomeD)
    with Some assms Inr show ?thesis
      by (cases q) (auto simp: sql_consume_def sql_uses_def Let_def table_simps split: if_splits)
  qed
  with res show thesis by (rule ok)
qed

interpretation sql_ledger: usage_ledger sql_consume sql_uses "\<lambda>_. True" sql_fits
proof unfold_locales
  fix s t m e n s'
  assume "sql_consume t m e s = (Inr n, s')"
  then show "n = sql_uses s t + 1 \<and> n \<le> m \<and> sql_uses s' = (sql_uses s)(t := n) \<and> True"
    by (cases rule: sql_consume_cases) (auto simp: sql_uses_def[of s'] fun_eq_iff sql_uses_def[of s])
next
  fix s t m e x s'
  assume "sql_consume t m e s = (Inl x, s')"
  then show "s' = s" by (cases rule: sql_consume_cases) auto
next
  fix s t m e
  assume "sql_fits s t m" "sql_uses s t < m"
  then show "is_ok (fst (sql_consume t m e s))"
    by (auto simp: sql_consume_def sql_fits_def sql_uses_def Let_def split: option.splits)
next
  fix s t m t' m' e r s'
  assume fits: "sql_fits s t m" and same: "t' = t \<Longrightarrow> m' = m"
    and run: "sql_consume t' m' e s = (r, s')"
  from run show "sql_fits s' t m"
    by (cases rule: sql_consume_cases) (use fits same in \<open>auto simp: sql_fits_def\<close>)
qed

end
