(* ===== verification/B64.thy ===== *)
theory B64
  imports PyValues
begin

text \<open>
  URL-safe Base64 as the ticket and token code uses it: \<open>_b64encode\<close> (the padding is
  stripped) and the decoder of CPython's \<open>binascii.a2b_base64\<close> in its lenient mode
  (characters outside the alphabet are skipped) and its strict mode (\<open>validate=True\<close>).
  The theory ends with the round trip: both modes decode what \<open>_b64encode\<close> wrote.
\<close>

section \<open>The alphabet\<close>

definition b64_char :: "nat \<Rightarrow> char" where
  "b64_char n =
     (if n < 26 then char_of (65 + n) else if n < 52 then char_of (71 + n)
      else if n < 62 then char_of (n - 4) else if n = 62 then CHR ''-'' else CHR ''_'')"

text \<open>The decoder translates \<open>-\<close> and \<open>_\<close> first, so \<open>+\<close> and \<open>/\<close> decode as well.\<close>

definition b64_val :: "char \<Rightarrow> nat option" where
  "b64_val c =
     (if is_upper c then Some (of_char c - 65)
      else if is_lower c then Some (of_char c - 71)
      else if is_digit c then Some (of_char c + 4)
      else if c \<in> {CHR ''-'', CHR ''+''} then Some 62
      else if c \<in> {CHR ''_'', CHR ''/''} then Some 63
      else None)"

lemma char_of_inj_small: "m < 256 \<Longrightarrow> of_char (char_of (m :: nat)) = m"
  by (simp add: of_char_of)

lemma b64_code:
  "n < 64 \<Longrightarrow> of_char (b64_char n) =
     (if n < 26 then 65 + n else if n < 52 then 71 + n
      else if n < 62 then n - 4 else if n = 62 then 45 else (95::nat))"
  by (auto simp: b64_char_def char_of_inj_small)

lemma b64_val_char [simp]: "n < 64 \<Longrightarrow> b64_val (b64_char n) = Some n"
  unfolding b64_val_def is_upper_def is_lower_def is_digit_def less_eq_char_def
    insert_iff empty_iff of_char_eq_iff [symmetric, where 'a = nat] b64_code by auto

lemma b64_char_not_pad: "n < 64 \<Longrightarrow> b64_char n \<noteq> CHR ''=''"
  unfolding of_char_eq_iff [symmetric, where 'a = nat] b64_code by auto

lemma b64_char_not_dot: "n < 64 \<Longrightarrow> b64_char n \<noteq> CHR ''.''"
  unfolding of_char_eq_iff [symmetric, where 'a = nat] b64_code by auto

section \<open>Encoding\<close>

fun sextets :: "nat list \<Rightarrow> nat list" where
  "sextets [] = []"
| "sextets [a] = [a div 4, a mod 4 * 16]"
| "sextets [a, b] = [a div 4, a mod 4 * 16 + b div 16, b mod 16 * 4]"
| "sextets (a # b # c # rest) =
     a div 4 # (a mod 4 * 16 + b div 16) # (b mod 16 * 4 + c div 64) # c mod 64 # sextets rest"

definition b64encode :: "string \<Rightarrow> string" where
  "b64encode s = map b64_char (sextets (map of_char s))"

section \<open>Decoding\<close>

text \<open>
  \<open>quad\<close> is the position in the group of four, \<open>left\<close> the bits carried over, \<open>pads\<close> the
  padding characters seen in a row, \<open>started\<close> whether any was seen.
\<close>

fun a2b :: "bool \<Rightarrow> nat \<Rightarrow> nat \<Rightarrow> nat \<Rightarrow> bool \<Rightarrow> string \<Rightarrow> string option" where
  "a2b strict quad left pads started [] = (if quad = 0 then Some [] else None)"
| "a2b strict quad left pads started (c # s) =
     (if c = CHR ''='' then
        (if 2 \<le> quad then
           (if 4 \<le> quad + pads + 1 then (if strict \<and> s \<noteq> [] then None else Some [])
            else a2b strict quad left (pads + 1) True s)
         else a2b strict quad left pads True s)
      else (case b64_val c of
          None \<Rightarrow> if strict then None else a2b strict quad left pads started s
        | Some v \<Rightarrow>
            if strict \<and> started then None
            else if quad = 0 then a2b strict 1 v 0 started s
            else if quad = 1 then
              map_option ((#) (char_of (left * 4 + v div 16))) (a2b strict 2 (v mod 16) 0 started s)
            else if quad = 2 then
              map_option ((#) (char_of (left * 16 + v div 4))) (a2b strict 3 (v mod 4) 0 started s)
            else
              map_option ((#) (char_of (left * 64 + v))) (a2b strict 0 0 0 started s)))"

definition b64_padding :: "string \<Rightarrow> string" where
  "b64_padding s = replicate (nat ((- int (length s)) mod 4)) (CHR ''='')"

text \<open>\<open>base64.urlsafe_b64decode(value + "=" * (-len(value) % 4))\<close>\<close>

definition b64decode_lenient :: "string \<Rightarrow> string option" where
  "b64decode_lenient s = a2b False 0 0 0 False (s @ b64_padding s)"

text \<open>\<open>base64.b64decode(..., altchars=b"-_", validate=True)\<close>; leading padding is refused.\<close>

definition b64decode_strict :: "string \<Rightarrow> string option" where
  "b64decode_strict s =
     (let t = s @ b64_padding s
      in if prefix ''='' t then None else a2b True 0 0 0 False t)"

section \<open>Round trip\<close>

lemma byte_div_16: "b < 256 \<Longrightarrow> b div 16 < (16 :: nat)"
  by (rule less_mult_imp_div_less) simp

lemma byte_div_64: "c < 256 \<Longrightarrow> c div 64 < (4 :: nat)"
  by (rule less_mult_imp_div_less) simp

lemma mod_times_bound:
  assumes "0 < m"
  shows "a mod m * k \<le> (m - 1) * (k :: nat)"
proof (rule mult_le_mono1)
  show "a mod m \<le> m - 1" using mod_less_divisor[OF assms, of a] by linarith
qed

lemma sextet_bounds:
  "a < 256 \<Longrightarrow> a div 4 < (64 :: nat)"
  "b < 256 \<Longrightarrow> a mod 4 * 16 + b div 16 < (64 :: nat)"
  "c < 256 \<Longrightarrow> b mod 16 * 4 + c div 64 < (64 :: nat)"
  "a mod 4 * 16 < (64 :: nat)" "b mod 16 * 4 < (64 :: nat)" "c mod 64 < (64 :: nat)"
  using mod_times_bound[of 4 a 16] mod_times_bound[of 16 b 4] byte_div_16[of b] byte_div_64[of c]
    less_mult_imp_div_less[of a 64 4]
  by simp_all

lemma sextet_joins:
  "b < 256 \<Longrightarrow> a div 4 * 4 + (a mod 4 * 16 + b div 16) div 16 = (a :: nat)"
  "b < 256 \<Longrightarrow> (a mod 4 * 16 + b div 16) mod 16 = (b :: nat) div 16"
  "c < 256 \<Longrightarrow> b div 16 * 16 + (b mod 16 * 4 + c div 64) div 4 = (b :: nat)"
  "c < 256 \<Longrightarrow> (b mod 16 * 4 + c div 64) mod 4 = (c :: nat) div 64"
  "c div 64 * 64 + c mod 64 = (c :: nat)"
  "a div 4 * 4 + a mod 4 * 16 div 16 = (a :: nat)" "b div 16 * 16 + b mod 16 * 4 div 4 = (b :: nat)"
  using byte_div_16[of b] byte_div_64[of c] by (simp_all add: div_mult_mod_eq)

lemma sextets_bound: "list_all (\<lambda>x. x < 256) xs \<Longrightarrow> list_all (\<lambda>x. x < 64) (sextets xs)"
  by (induction xs rule: sextets.induct) (simp_all add: sextet_bounds)

lemma a2b_char:
  assumes "n < 64"
  shows "a2b strict 0 l p False (b64_char n # s) = a2b strict 1 n 0 False s"
    "a2b strict (Suc 0) l p False (b64_char n # s) =
       map_option ((#) (char_of (l * 4 + n div 16))) (a2b strict 2 (n mod 16) 0 False s)"
    "a2b strict 2 l p False (b64_char n # s) =
       map_option ((#) (char_of (l * 16 + n div 4))) (a2b strict 3 (n mod 4) 0 False s)"
    "a2b strict 3 l p False (b64_char n # s) =
       map_option ((#) (char_of (l * 64 + n))) (a2b strict 0 0 0 False s)"
  using assms by (simp_all add: b64_char_not_pad)

definition pad_of :: "nat \<Rightarrow> string" where
  "pad_of n = (if n mod 3 = 1 then ''=='' else if n mod 3 = 2 then ''='' else [])"

lemma a2b_sextets:
  assumes "list_all (\<lambda>x. x < 256) xs"
  shows "a2b strict 0 0 0 False (map b64_char (sextets xs) @ pad_of (length xs)) =
     Some (map char_of xs)"
  using assms
proof (induction xs rule: sextets.induct)
  case 1
  then show ?case by (simp add: pad_of_def)
next
  case (2 a)
  then show ?case
    by (simp add: a2b_char sextet_bounds pad_of_def b64_char_not_pad sextet_joins)
next
  case (3 a b)
  then show ?case using byte_div_16[of b]
    by (simp add: a2b_char sextet_bounds sextet_joins pad_of_def b64_char_not_pad)
next
  case (4 a b c rest)
  have "pad_of (length (a # b # c # rest)) = pad_of (length rest)"
    by (simp add: pad_of_def)
  with 4 show ?case using byte_div_16[of b] byte_div_64[of c]
    by (simp add: a2b_char sextet_bounds sextet_joins del: a2b.simps)
qed

lemma length_sextets: "length (sextets xs) mod 4 =
    (if length xs mod 3 = 1 then 2 else if length xs mod 3 = 2 then 3 else 0)"
  by (induction xs rule: sextets.induct) simp_all

lemma b64_padding_encode: "b64_padding (b64encode s) = pad_of (length s)"
proof -
  have "(- int (length (b64encode s))) mod 4 = (- int (length (b64encode s) mod 4)) mod 4"
    by (simp add: zmod_int mod_minus_eq)
  then show ?thesis
    using length_sextets[of "map of_char s"]
    by (simp add: b64_padding_def b64encode_def pad_of_def numeral_2_eq_2)
qed

lemma bytes_of_string: "list_all (\<lambda>x. x < 256) (map of_char s :: nat list)"
  by (simp add: list_all_iff)

lemma b64_lenient_roundtrip [simp]: "b64decode_lenient (b64encode s) = Some s"
  using a2b_sextets[OF bytes_of_string, of False s]
  by (simp add: b64decode_lenient_def b64_padding_encode) (simp add: b64encode_def comp_def)

lemma b64encode_chars: "c \<in> set (b64encode s) \<Longrightarrow> \<exists>n < 64. c = b64_char n"
  using sextets_bound[OF bytes_of_string, of s] by (auto simp: b64encode_def list_all_iff)

lemma b64encode_no_dot: "CHR ''.'' \<notin> set (b64encode s)"
  by (auto dest!: b64encode_chars simp: b64_char_not_dot[symmetric] b64_char_not_dot)

lemma b64_strict_roundtrip [simp]: "b64decode_strict (b64encode s) = Some s"
proof -
  have "\<not> prefix ''='' (b64encode s @ b64_padding (b64encode s))"
  proof (cases s)
    case Nil
    then show ?thesis by (simp add: b64encode_def b64_padding_def)
  next
    case (Cons c t)
    then obtain d u where d: "b64encode s = d # u"
      by (cases "b64encode s") (auto simp: b64encode_def elim: sextets.elims)
    then have "d \<noteq> CHR ''=''" using b64encode_chars[of d s] b64_char_not_pad by auto
    with d show ?thesis by simp
  qed
  then show ?thesis
    using a2b_sextets[OF bytes_of_string, of True s]
    by (simp add: b64decode_strict_def b64_padding_encode Let_def) (simp add: b64encode_def comp_def)
qed

end
