(* ===== verification/Capabilities.thy ===== *)
theory Capabilities
  imports Ledger B64 PyNet
begin

text \<open>
  The capability ticket service of \<^verbatim>\<open>mcp/gateway/capabilities.py\<close>: issuing, inspecting
  and authorising HMAC-signed tickets. HMAC-SHA256 (\<open>mac\<close>, key and payload to digest) and
  the serialisation of a grant (\<open>dump\<close>, the canonical JSON of its pydantic dump, and
  \<open>load\<close>, \<open>json.loads\<close> followed by \<open>model_validate\<close>) are arguments; Base64 is the one of
  \<open>B64\<close>. Random identifiers and the clock are inputs. The lemmas list what a
  successful authorisation has checked.
\<close>

section \<open>The service\<close>

record cap_env =
  mac :: "string \<Rightarrow> string \<Rightarrow> string"
  dump :: "capability_grant \<Rightarrow> string"
  load :: "string \<Rightarrow> capability_grant option"

record cap_service =
  secret :: string
  svc_issuer :: string

definition new_service :: "string \<Rightarrow> string \<Rightarrow> cap_error + cap_service" where
  "new_service key iss =
     (if length key < 32 then Inl Value_Error else Inr \<lparr>secret = key, svc_issuer = iss\<rparr>)"

definition cap_fail :: "cap_reason \<Rightarrow> cap_error + 'a" where
  "cap_fail r = Inl (Capability_Ticket_Error r)"

lemma cap_fail_not_ok [simp]: "cap_fail r \<noteq> Inr x" "\<not> is_ok (cap_fail r)"
  by (simp_all add: cap_fail_def)

text \<open>A ticket is the payload and its signature, both Base64, joined by a dot.\<close>

definition sign_ticket :: "cap_env \<Rightarrow> cap_service \<Rightarrow> capability_grant \<Rightarrow> string" where
  "sign_ticket env svc g =
     (let payload = dump env g
      in b64encode payload @ ''.'' @ b64encode (mac env (secret svc) payload))"

text \<open>
  \<open>issue\<close>: the lifetime is bounded, the grant is validated by its contract (a violation is
  a \<open>ValidationError\<close>, itself a \<open>ValueError\<close>) and signed. \<open>tid\<close> and \<open>rnd\<close> are the two
  random tokens.
\<close>

definition issue ::
    "cap_env \<Rightarrow> cap_service \<Rightarrow> string \<Rightarrow> string \<Rightarrow> string \<Rightarrow> capability_scope \<Rightarrow> string \<Rightarrow>
     string option \<Rightarrow> int \<Rightarrow> int \<Rightarrow> int \<Rightarrow> string \<Rightarrow> string \<Rightarrow> cap_error + capability_grant \<times> string" where
  "issue env svc subject tenant trace scope version task ttl uses now tid rnd =
     (if ttl < 1 \<or> 3600 < ttl then Inl Value_Error
      else (let g = \<lparr>ticket_id = ''CAP-'' @ tid, issuer = svc_issuer svc, subject_id = subject,
                     gr_tenant_id = tenant, gr_trace_id = trace, gr_task_id = task,
                     gr_scope = scope, issued_at = now, gr_expires_at = now + ttl,
                     max_uses = uses, gr_policy_version = version, nonce = rnd\<rparr>
            in if valid_grant g then Inr (g, sign_ticket env svc g) else Inl Value_Error))"

definition inspect :: "cap_env \<Rightarrow> cap_service \<Rightarrow> string \<Rightarrow> cap_error + capability_grant" where
  "inspect env svc ticket =
     (case partition_on CHR ''.'' ticket of (payload_part, found, signature_part) \<Rightarrow>
        if \<not> found then cap_fail Bad_Structure
        else (case b64decode_lenient payload_part of
            None \<Rightarrow> cap_fail Bad_Encoding
          | Some payload \<Rightarrow>
              (case b64decode_lenient signature_part of
                 None \<Rightarrow> cap_fail Bad_Encoding
               | Some actual \<Rightarrow>
                   if actual \<noteq> mac env (secret svc) payload then cap_fail Bad_Signature
                   else (case load env payload of
                       None \<Rightarrow> cap_fail Bad_Payload
                     | Some g \<Rightarrow>
                         if issuer g \<noteq> svc_issuer svc then cap_fail Untrusted_Issuer
                         else Inr g))))"

text \<open>\<open>_subject\<close>: the agent if there is one, else the user.\<close>

definition subject :: "gateway_context \<Rightarrow> cap_error + string \<times> string" where
  "subject ctx =
     (case (case ctx_agent ctx of Some a \<Rightarrow> Some a | None \<Rightarrow> ctx_user ctx) of
        None \<Rightarrow> cap_fail No_Subject
      | Some p \<Rightarrow> Inr (principal_id p, tenant_id p))"

definition strip_dots :: "string \<Rightarrow> string" where
  "strip_dots s = rstrip_by (\<lambda>c. c = CHR ''.'') s"

definition domain_matches :: "string \<Rightarrow> string list \<Rightarrow> bool" where
  "domain_matches host allowed \<longleftrightarrow>
     (let n = strip_dots (casefold host)
      in list_ex (\<lambda>a. let d = strip_dots (casefold a) in n = d \<or> endswith n (CHR ''.'' # d)) allowed)"

definition path_in_scope :: "string \<Rightarrow> string list \<Rightarrow> bool" where
  "path_in_scope path prefs \<longleftrightarrow>
     list_ex (\<lambda>p. path = p \<or> startswith path (rstrip_by (\<lambda>c. c = CHR ''/'') p @ ''/'')) prefs"

definition args_mismatch :: "capability_scope \<Rightarrow> pydict \<Rightarrow> (string \<times> pyval) option" where
  "args_mismatch sc args =
     find (\<lambda>(name, expected). \<not> py_eq (get_or_none args name) expected) (exact_args sc)"

text \<open>\<open>_check_scope\<close>, in the code's order; \<open>None\<close> when everything is in scope.\<close>

definition check_scope ::
    "capability_scope \<Rightarrow> string \<Rightarrow> pydict \<Rightarrow> gateway_context \<Rightarrow> cap_error option" where
  "check_scope sc tool args ctx =
     (let fail = (\<lambda>r. Some (Capability_Ticket_Error r));
          url = (if url_domains sc = [] then Some ([], None) else urlparse (str_arg args ''url''));
          recipient = str_arg args ''to'';
          rdomain = (if CHR ''@'' \<in> set recipient then after_last CHR ''@'' recipient else [])
      in if sc_tool_name sc \<noteq> tool then fail Tool_Not_Granted
         else (case args_mismatch sc args of
             Some (name, _) \<Rightarrow> fail (Argument_Out_Of_Scope name)
           | None \<Rightarrow>
               if path_prefixes sc \<noteq> [] \<and> \<not> path_in_scope (str_arg args ''path'') (path_prefixes sc)
                 then fail Path_Out_Of_Scope
               else (case url of
                   None \<Rightarrow> Some Value_Error
                 | Some (_, host) \<Rightarrow>
                     if url_domains sc \<noteq> [] \<and>
                        \<not> domain_matches (case host of None \<Rightarrow> [] | Some h \<Rightarrow> h) (url_domains sc)
                       then fail Url_Out_Of_Scope
                     else if recipient_domains sc \<noteq> [] \<and>
                             \<not> domain_matches rdomain (recipient_domains sc)
                       then fail Recipient_Out_Of_Scope
                     else if \<not> set (data_scopes ctx) \<subseteq> set (sc_data_scopes sc)
                       then fail Data_Scope_Exceeded
                     else if \<not> set (data_labels ctx) \<subseteq> set (allowed_data_labels sc)
                       then fail Data_Label_Exceeded
                     else None)))"

text \<open>
  \<open>authorize\<close> up to the ledger, then \<open>authorize\<close>: the ledger is any implementation of the
  protocol, consumed only when \<open>consume\<close> is set and everything else has passed.
\<close>

definition authorize_grant ::
    "cap_env \<Rightarrow> cap_service \<Rightarrow> string \<Rightarrow> string \<Rightarrow> pydict \<Rightarrow> gateway_context \<Rightarrow> string \<Rightarrow> int \<Rightarrow>
     cap_error + capability_grant" where
  "authorize_grant env svc ticket tool args ctx version now =
     (case inspect env svc ticket of
        Inl e \<Rightarrow> Inl e
      | Inr g \<Rightarrow>
          if gr_expires_at g \<le> now then cap_fail Ticket_Expired
          else (case subject ctx of
              Inl e \<Rightarrow> Inl e
            | Inr (sid, tid) \<Rightarrow>
                if subject_id g \<noteq> sid \<or> gr_tenant_id g \<noteq> tid then cap_fail Subject_Mismatch
                else if Some (gr_trace_id g) \<noteq> trace_id ctx \<or> gr_task_id g \<noteq> task_id ctx
                  then cap_fail Task_Chain_Mismatch
                else if gr_policy_version g \<noteq> version then cap_fail Stale_Policy_Version
                else (case check_scope (gr_scope g) tool args ctx of
                    Some e \<Rightarrow> Inl e
                  | None \<Rightarrow> Inr g)))"

definition authorize ::
    "cap_env \<Rightarrow> cap_service \<Rightarrow> 's consumer \<Rightarrow> string \<Rightarrow> string \<Rightarrow> pydict \<Rightarrow> gateway_context \<Rightarrow> string \<Rightarrow>
     bool \<Rightarrow> int \<Rightarrow> ('s, cap_error, capability_grant) op" where
  "authorize env svc ledger ticket tool args ctx version consuming now s =
     (case authorize_grant env svc ticket tool args ctx version now of
        Inl e \<Rightarrow> (Inl e, s)
      | Inr g \<Rightarrow>
          if \<not> consuming then (Inr g, s)
          else (case ledger (ticket_id g) (max_uses g) (gr_expires_at g) s of
              (Inl e, s') \<Rightarrow> (Inl e, s')
            | (Inr _, s') \<Rightarrow> (Inr g, s')))"

section \<open>What inspection and authorisation guarantee\<close>

lemma partition_on_no_sep:
  "c \<notin> set a \<Longrightarrow> partition_on c (a @ c # b) = (a, True, b)"
  by (simp add: partition_on_def takeWhile_append dropWhile_append)

lemma inspect_sign_ticket:
  assumes "load env (dump env g) = Some g" "issuer g = svc_issuer svc"
  shows "inspect env svc (sign_ticket env svc g) = Inr g"
proof -
  have "partition_on CHR ''.'' (sign_ticket env svc g) =
     (b64encode (dump env g), True, b64encode (mac env (secret svc) (dump env g)))"
    using partition_on_no_sep[OF b64encode_no_dot]
    by (simp add: sign_ticket_def Let_def)
  with assms show ?thesis by (simp add: inspect_def)
qed

text \<open>
  Integrity: an accepted ticket carries a payload whose MAC under the service's key is the
  signature it shows, and the grant is that payload's.
\<close>

lemma inspect_InrD:
  assumes "inspect env svc ticket = Inr g"
  shows "\<exists>a b payload. partition_on CHR ''.'' ticket = (a, True, b) \<and>
     b64decode_lenient a = Some payload \<and>
     b64decode_lenient b = Some (mac env (secret svc) payload) \<and>
     load env payload = Some g \<and> issuer g = svc_issuer svc"
  using assms
  by (auto simp: inspect_def split: prod.splits if_splits option.splits)

lemma check_scope_NoneD:
  assumes "check_scope sc tool args ctx = None"
  shows "sc_tool_name sc = tool"
    "\<And>name v. (name, v) \<in> set (exact_args sc) \<Longrightarrow> py_eq (get_or_none args name) v"
    "path_prefixes sc \<noteq> [] \<Longrightarrow> path_in_scope (str_arg args ''path'') (path_prefixes sc)"
    "set (data_scopes ctx) \<subseteq> set (sc_data_scopes sc)"
    "set (data_labels ctx) \<subseteq> set (allowed_data_labels sc)"
proof -
  have none: "args_mismatch sc args = None"
    using assms by (auto simp: check_scope_def Let_def split: if_splits option.splits)
  show "py_eq (get_or_none args name) v" if "(name, v) \<in> set (exact_args sc)" for name v
    using none that by (auto simp: args_mismatch_def find_None_iff)
  show "sc_tool_name sc = tool"
    "path_prefixes sc \<noteq> [] \<Longrightarrow> path_in_scope (str_arg args ''path'') (path_prefixes sc)"
    "set (data_scopes ctx) \<subseteq> set (sc_data_scopes sc)"
    "set (data_labels ctx) \<subseteq> set (allowed_data_labels sc)"
    using assms none
    by (auto simp: check_scope_def Let_def split: if_splits option.splits prod.splits)
qed

lemma authorize_grantD:
  assumes "authorize_grant env svc ticket tool args ctx version now = Inr g"
  shows "inspect env svc ticket = Inr g" "now < gr_expires_at g"
    "subject ctx = Inr (subject_id g, gr_tenant_id g)"
    "trace_id ctx = Some (gr_trace_id g)" "task_id ctx = gr_task_id g"
    "gr_policy_version g = version" "check_scope (gr_scope g) tool args ctx = None"
  using assms
  by (auto simp: authorize_grant_def split: sum.splits if_splits option.splits prod.splits)

lemma authorize_InrD:
  assumes "authorize env svc ledger ticket tool args ctx version consuming now s = (Inr g, s')"
  shows "authorize_grant env svc ticket tool args ctx version now = Inr g"
    "\<not> consuming \<Longrightarrow> s' = s"
    "consuming \<Longrightarrow> \<exists>n. ledger (ticket_id g) (max_uses g) (gr_expires_at g) s = (Inr n, s')"
  using assms
  by (auto simp: authorize_def split: sum.splits if_splits prod.splits)

end
