(* ===== verification/TaskGraphs.thy ===== *)
theory TaskGraphs
  imports Contracts
begin

text \<open>
  Task-graph conformance, from \<^verbatim>\<open>mcp/gateway/task_graph.py\<close>: the fingerprint of tool
  arguments and \<open>TaskGraphGuard.validate\<close> over its durable table of step uses. SHA-256
  is the argument \<open>sha\<close>. The lemmas show that a consumed step was declared with that tool
  and those arguments, that its predecessors were consumed before it, and that no step is
  consumed more often than its declared maximum.
\<close>

section \<open>The guard\<close>

definition tool_args_fingerprint :: "(string \<Rightarrow> string) \<Rightarrow> pydict \<Rightarrow> string" where
  "tool_args_fingerprint sha args = sha (json_dumps (PDict args))"

datatype task_graph_error =
    Graph_Fields_Missing
  | Step_Not_Unique
  | Tool_Replaced
  | Arguments_Changed
  | Predecessor_Incomplete
  | Registered_Step_Changed
  | Max_Calls_Exceeded
  | Graph_Store_Unavailable

type_synonym step_key = "string \<times> string \<times> string \<times> int"

record step_row =
  sr_key :: step_key
  sr_tool :: string
  sr_args_hash :: string
  sr_uses :: int

record graph_store =
  gs_rows :: "step_row list"
  gs_up :: bool

definition empty_graph_store :: graph_store where
  "empty_graph_store = \<lparr>gs_rows = [], gs_up = True\<rparr>"

definition step_uses :: "graph_store \<Rightarrow> step_key \<Rightarrow> int" where
  "step_uses st k = (case row_get sr_key k (gs_rows st) of None \<Rightarrow> 0 | Some r \<Rightarrow> sr_uses r)"

text \<open>The transaction of \<open>validate\<close>, on the step the context points at.\<close>

definition register_step ::
    "step_key \<Rightarrow> (int \<Rightarrow> step_key) \<Rightarrow> planned_step \<Rightarrow> string \<Rightarrow> string \<Rightarrow> bool \<Rightarrow>
     (graph_store, task_graph_error, unit) op" where
  "register_step key pkey step tool h consume st =
     (if \<not> gs_up st then (Inl Graph_Store_Unavailable, st)
      else if list_ex (\<lambda>p. step_uses st (pkey p) < 1) (predecessors step)
        then (Inl Predecessor_Incomplete, st)
      else (let row = row_get sr_key key (gs_rows st);
                uses = (case row of None \<Rightarrow> 0 | Some r \<Rightarrow> sr_uses r)
            in if (case row of None \<Rightarrow> False | Some r \<Rightarrow> sr_tool r \<noteq> tool \<or> sr_args_hash r \<noteq> h)
                 then (Inl Registered_Step_Changed, st)
               else if max_calls step \<le> uses then (Inl Max_Calls_Exceeded, st)
               else if \<not> consume then (Inr (), st)
               else (Inr (),
                     st\<lparr>gs_rows :=
                       (case row of
                          Some _ \<Rightarrow> row_update sr_key key (\<lambda>r. r\<lparr>sr_uses := uses + 1\<rparr>) (gs_rows st)
                        | None \<Rightarrow> gs_rows st @
                            [\<lparr>sr_key = key, sr_tool = tool, sr_args_hash = h, sr_uses = 1\<rparr>])\<rparr>)))"

definition validate ::
    "(string \<Rightarrow> string) \<Rightarrow> gateway_context \<Rightarrow> string \<Rightarrow> pydict \<Rightarrow> bool \<Rightarrow>
     (graph_store, task_graph_error, unit) op" where
  "validate sha ctx tool args consume st =
     (case ctx_task_graph ctx of
        None \<Rightarrow> (Inr (), st)
      | Some g \<Rightarrow>
          if \<not> set_field (trace_id ctx) \<or> \<not> set_field (task_id ctx) \<or> task_step ctx < 1
            then (Inl Graph_Fields_Missing, st)
          else (case filter (\<lambda>s. step_index s = task_step ctx) (steps g) of
              [step] \<Rightarrow>
                if step_tool step \<noteq> tool then (Inl Tool_Replaced, st)
                else (let h = tool_args_fingerprint sha args;
                          pkey = (\<lambda>i. (the (trace_id ctx), the (task_id ctx), plan_id g, i))
                      in if args_hash step \<noteq> h then (Inl Arguments_Changed, st)
                         else register_step (pkey (step_index step)) pkey step tool h consume st)
            | _ \<Rightarrow> (Inl Step_Not_Unique, st)))"

section \<open>One call\<close>

text \<open>The key of the step a context points at, and the step itself.\<close>

definition ctx_key :: "gateway_context \<Rightarrow> int \<Rightarrow> step_key" where
  "ctx_key ctx i =
     (the (trace_id ctx), the (task_id ctx), plan_id (the (ctx_task_graph ctx)), i)"

definition ctx_step :: "gateway_context \<Rightarrow> planned_step" where
  "ctx_step ctx = hd (filter (\<lambda>s. step_index s = task_step ctx) (steps (the (ctx_task_graph ctx))))"

lemma validate_no_graph: "ctx_task_graph ctx = None \<Longrightarrow> validate sha ctx tool args c st = (Inr (), st)"
  by (simp add: validate_def)

lemma validate_failed: "validate sha ctx tool args c st = (Inl e, st') \<Longrightarrow> st' = st"
  by (auto simp: validate_def register_step_def Let_def
        split: option.splits if_splits list.splits)

lemma validate_InrD:
  assumes run: "validate sha ctx tool args consume st = (Inr (), st')"
    and g: "ctx_task_graph ctx = Some g"
  defines "k \<equiv> ctx_key ctx (task_step ctx)"
  shows "ctx_step ctx \<in> set (steps g)" "step_index (ctx_step ctx) = task_step ctx"
    "step_tool (ctx_step ctx) = tool"
    "args_hash (ctx_step ctx) = tool_args_fingerprint sha args"
    "\<And>p. p \<in> set (predecessors (ctx_step ctx)) \<Longrightarrow> 1 \<le> step_uses st (ctx_key ctx p)"
    "step_uses st k < max_calls (ctx_step ctx)"
    "\<not> consume \<Longrightarrow> st' = st"
    "consume \<Longrightarrow> step_uses st' = (step_uses st)(k := step_uses st k + 1)"
proof -
  obtain step where one: "filter (\<lambda>s. step_index s = task_step ctx) (steps g) = [step]"
    using run g by (auto simp: validate_def split: if_splits list.splits)
  have step: "ctx_step ctx = step" by (simp add: ctx_step_def g one)
  have "step \<in> set (filter (\<lambda>s. step_index s = task_step ctx) (steps g))"
    by (simp add: one)
  then have mem: "step \<in> set (steps g)" and idx: "step_index step = task_step ctx"
    by simp_all
  show "ctx_step ctx \<in> set (steps g)" "step_index (ctx_step ctx) = task_step ctx"
    by (simp_all add: step mem idx)
  let ?pk = "\<lambda>i. (the (trace_id ctx), the (task_id ctx), plan_id g, i)"
  have tool: "step_tool step = tool" and hash: "args_hash step = tool_args_fingerprint sha args"
    and reg: "register_step (?pk (step_index step)) ?pk step tool
                (tool_args_fingerprint sha args) consume st = (Inr (), st')"
    using run g one by (auto simp: validate_def Let_def split: if_splits)
  show "step_tool (ctx_step ctx) = tool"
    "args_hash (ctx_step ctx) = tool_args_fingerprint sha args"
    by (simp_all add: step tool hash)
  have pk: "?pk = ctx_key ctx" by (rule ext) (simp add: ctx_key_def g)
  have reg': "register_step k (ctx_key ctx) step tool (tool_args_fingerprint sha args) consume st
      = (Inr (), st')"
    using reg unfolding pk by (simp add: k_def idx ctx_key_def g)
  show "1 \<le> step_uses st (ctx_key ctx p)" if "p \<in> set (predecessors (ctx_step ctx))" for p
    using reg' that
    by (auto simp: register_step_def step list_ex_iff Let_def not_less split: if_splits)
  show "step_uses st k < max_calls (ctx_step ctx)"
    using reg' by (auto simp: register_step_def step step_uses_def Let_def
        split: if_splits option.splits)
  show "\<not> consume \<Longrightarrow> st' = st"
    using reg by (auto simp: register_step_def Let_def split: if_splits)
  show "consume \<Longrightarrow> step_uses st' = (step_uses st)(k := step_uses st k + 1)"
    using reg'
    by (auto simp: register_step_def step_uses_def Let_def table_simps fun_eq_iff
        split: if_splits option.splits)
qed

section \<open>Runs\<close>

record graph_call =
  gc_ctx :: gateway_context
  gc_tool :: string
  gc_args :: pydict
  gc_consume :: bool

fun graph_run ::
    "(string \<Rightarrow> string) \<Rightarrow> graph_call list \<Rightarrow> graph_store \<Rightarrow>
     (task_graph_error + unit) list \<times> graph_store" where
  "graph_run sha [] st = ([], st)"
| "graph_run sha (c # cs) st =
     (case validate sha (gc_ctx c) (gc_tool c) (gc_args c) (gc_consume c) st of (r, st') \<Rightarrow>
        (case graph_run sha cs st' of (rs, st'') \<Rightarrow> (r # rs, st'')))"

text \<open>The step a call consumes when it succeeds.\<close>

definition call_key :: "graph_call \<Rightarrow> step_key option" where
  "call_key c =
     (if gc_consume c \<and> ctx_task_graph (gc_ctx c) \<noteq> None
      then Some (ctx_key (gc_ctx c) (task_step (gc_ctx c))) else None)"

definition consumed :: "graph_call list \<Rightarrow> (task_graph_error + unit) list \<Rightarrow> step_key \<Rightarrow> nat" where
  "consumed cs rs k = length (filter (\<lambda>(c, r). is_ok r \<and> call_key c = Some k) (zip cs rs))"

lemma consumed_simps [simp]:
  "consumed [] rs k = 0"
  "consumed (c # cs) (r # rs) k =
     (if is_ok r \<and> call_key c = Some k then 1 else 0) + consumed cs rs k"
  by (simp_all add: consumed_def)

lemma validate_uses:
  assumes "validate sha (gc_ctx c) (gc_tool c) (gc_args c) (gc_consume c) st = (r, st')"
  shows "step_uses st' k = step_uses st k + (if is_ok r \<and> call_key c = Some k then 1 else 0)"
proof (cases r)
  case (Inl e)
  with assms show ?thesis by (auto dest: validate_failed)
next
  case (Inr u)
  show ?thesis
  proof (cases "ctx_task_graph (gc_ctx c)")
    case None
    with assms Inr show ?thesis by (simp add: validate_no_graph call_key_def)
  next
    case (Some g)
    have run: "validate sha (gc_ctx c) (gc_tool c) (gc_args c) (gc_consume c) st = (Inr (), st')"
      using assms Inr by simp
    show ?thesis
      using validate_InrD(7,8)[OF run Some] Inr Some by (auto simp: call_key_def)
  qed
qed

lemma graph_run_length: "graph_run sha cs st = (rs, st') \<Longrightarrow> length rs = length cs"
  by (induction cs arbitrary: st rs) (auto split: prod.splits)

lemma graph_run_counts:
  "graph_run sha cs st = (rs, st') \<Longrightarrow> step_uses st' k = step_uses st k + int (consumed cs rs k)"
proof (induction cs arbitrary: st rs st')
  case Nil
  then show ?case by simp
next
  case (Cons c cs)
  obtain r u where r: "validate sha (gc_ctx c) (gc_tool c) (gc_args c) (gc_consume c) st = (r, u)"
    by fastforce
  obtain rs' v where rs: "graph_run sha cs u = (rs', v)" by fastforce
  have "rs = r # rs'" "st' = v" using Cons.prems by (simp_all add: r rs)
  with Cons.IH[OF rs] validate_uses[OF r, of k] show ?case by simp
qed

lemma graph_run_append:
  "graph_run sha (cs @ ds) st =
     (case graph_run sha cs st of (rs, u) \<Rightarrow>
        (case graph_run sha ds u of (qs, v) \<Rightarrow> (rs @ qs, v)))"
  by (induction cs arbitrary: st) (simp_all split: prod.splits)

text \<open>
  Splitting a run at one of its calls: the state the call sees is the one its predecessors
  in the list leave.
\<close>

lemma graph_run_at:
  assumes run: "graph_run sha cs st = (rs, st')" and i: "i < length cs"
  obtains u v where
    "graph_run sha (take i cs) st = (take i rs, u)"
    "validate sha (gc_ctx (cs ! i)) (gc_tool (cs ! i)) (gc_args (cs ! i)) (gc_consume (cs ! i)) u
       = (rs ! i, v)"
proof -
  have split: "cs = take i cs @ cs ! i # drop (Suc i) cs" using i by (simp add: id_take_nth_drop)
  obtain ps u where ps: "graph_run sha (take i cs) st = (ps, u)" by fastforce
  obtain r v where r: "validate sha (gc_ctx (cs ! i)) (gc_tool (cs ! i)) (gc_args (cs ! i))
      (gc_consume (cs ! i)) u = (r, v)" by fastforce
  obtain qs w where qs: "graph_run sha (drop (Suc i) cs) v = (qs, w)" by fastforce
  have "graph_run sha cs st = (ps @ r # qs, w)"
    by (subst split) (simp add: graph_run_append ps r qs)
  then have rs: "rs = ps @ r # qs" using run by simp
  have "length ps = i" using graph_run_length[OF ps] i by simp
  then have "take i rs = ps" "rs ! i = r" using rs by (auto simp: nth_append)
  with ps r show thesis by (intro that) simp_all
qed

lemma consumed_pos:
  assumes "0 < consumed cs rs k" "length rs = length cs"
  shows "\<exists>j < length cs. is_ok (rs ! j) \<and> call_key (cs ! j) = Some k"
proof -
  let ?P = "\<lambda>(c, r). is_ok r \<and> call_key c = Some k"
  from assms(1) have "filter ?P (zip cs rs) \<noteq> []" by (simp add: consumed_def)
  then have "hd (filter ?P (zip cs rs)) \<in> set (filter ?P (zip cs rs))" by (rule hd_in_set)
  then obtain c r where "(c, r) \<in> set (zip cs rs)" "is_ok r" "call_key c = Some k"
    by (auto simp only: set_filter mem_Collect_eq split_paired_all split: prod.splits)
  with assms(2) show ?thesis by (auto simp: in_set_zip)
qed

end
