(* ===== verification/Lifecycle.thy ===== *)
theory Lifecycle
  imports Prelude
begin

text \<open>
  Status machines that only move forward: the contract approvals and tasks share. A
  machine is a transition relation and a rank every transition raises; the locale derives
  that no status is ever revisited, that a status without successors is final, and that a
  table whose rows move along the relation never loses a row.
\<close>

locale lifecycle =
  fixes tr :: "'st \<Rightarrow> 'st \<Rightarrow> bool"
    and rank :: "'st \<Rightarrow> nat"
  assumes tr_up: "tr a b \<Longrightarrow> rank a < rank b"
begin

lemma reach_rank: "tr\<^sup>*\<^sup>* a b \<Longrightarrow> rank a \<le> rank b"
  by (induction rule: rtranclp_induct) (auto dest: tr_up)

lemma reach_strict: "tr\<^sup>+\<^sup>+ a b \<Longrightarrow> rank a < rank b"
  by (induction rule: tranclp_induct) (auto dest: tr_up)

lemma never_back: "tr\<^sup>+\<^sup>+ a b \<Longrightarrow> \<not> tr\<^sup>*\<^sup>* b a"
  using reach_strict reach_rank by fastforce

lemma final_stays: "tr\<^sup>*\<^sup>* a b \<Longrightarrow> (\<And>c. \<not> tr a c) \<Longrightarrow> b = a"
  by (metis converse_rtranclpE)

lemma top_stays: "tr\<^sup>*\<^sup>* a b \<Longrightarrow> (\<And>c. rank c \<le> rank a) \<Longrightarrow> b = a"
  by (metis converse_rtranclpE leD tr_up)

end

text \<open>
  One table evolves into another when every row is still there, with its fixed part
  (\<open>fixed\<close>) unchanged and its status moved along the relation.
\<close>

definition evolves ::
    "('st \<Rightarrow> 'st \<Rightarrow> bool) \<Rightarrow> ('r \<Rightarrow> 'k) \<Rightarrow> ('r \<Rightarrow> 'st) \<Rightarrow> ('r \<Rightarrow> 'f) \<Rightarrow> 'r list \<Rightarrow> 'r list \<Rightarrow> bool" where
  "evolves tr key st fixed rows rows' \<longleftrightarrow>
     (\<forall>k r. row_get key k rows = Some r \<longrightarrow>
        (\<exists>r'. row_get key k rows' = Some r' \<and> tr\<^sup>*\<^sup>* (st r) (st r') \<and> fixed r' = fixed r))"

lemma evolves_refl [intro, simp]: "evolves tr key st fixed rows rows"
  by (auto simp: evolves_def)

lemma evolves_trans:
  assumes "evolves tr key st fixed rows rows'" "evolves tr key st fixed rows' rows''"
  shows "evolves tr key st fixed rows rows''"
  unfolding evolves_def
proof (intro allI impI)
  fix k r
  assume "row_get key k rows = Some r"
  then obtain r' where 1: "row_get key k rows' = Some r'" "tr\<^sup>*\<^sup>* (st r) (st r')"
    "fixed r' = fixed r" using assms(1) unfolding evolves_def by blast
  obtain r'' where "row_get key k rows'' = Some r''" "tr\<^sup>*\<^sup>* (st r') (st r'')"
    "fixed r'' = fixed r'" using assms(2) 1(1) unfolding evolves_def by blast
  with 1 show "\<exists>r''. row_get key k rows'' = Some r'' \<and> tr\<^sup>*\<^sup>* (st r) (st r'') \<and> fixed r'' = fixed r"
    by (metis rtranclp_trans)
qed

lemma evolvesD:
  "evolves tr key st fixed rows rows' \<Longrightarrow> row_get key k rows = Some r \<Longrightarrow>
     \<exists>r'. row_get key k rows' = Some r' \<and> tr\<^sup>*\<^sup>* (st r) (st r') \<and> fixed r' = fixed r"
  by (auto simp: evolves_def)

lemma evolves_append [intro]: "evolves tr key st fixed rows (rows @ new)"
  by (auto simp: evolves_def table_simps)

lemma evolves_update:
  assumes "\<And>r. key (f r) = key r"
    "\<And>r. row_get key k rows = Some r \<Longrightarrow> tr\<^sup>*\<^sup>* (st r) (st (f r)) \<and> fixed (f r) = fixed r"
  shows "evolves tr key st fixed rows (row_update key k f rows)"
  using assms by (auto simp: evolves_def table_simps)

end
