(* ===== verification/Approvals.thy ===== *)
theory Approvals
  imports Lifecycle Contracts
begin

text \<open>
  The durable approval store of \<^verbatim>\<open>mcp/gateway/approvals.py\<close>: the table
  \<open>tool_approvals\<close> and the transactions \<open>create\<close>, \<open>get\<close>, \<open>decide\<close>, \<open>consume\<close>,
  \<open>revoke\<close> and \<open>expire\<close>. SHA-256 (\<open>fp_sha\<close>) and the canonical JSON of a context dump
  (\<open>fp_dump\<close>, pydantic's \<open>model_dump\<close>) are arguments; identifiers and the clock are inputs.
  The lemmas show that the status machine only moves forward, that a request's intent never
  changes, and the key constraints of the table.
\<close>

section \<open>Fingerprints and rows\<close>

record fp_env =
  fp_sha :: "string \<Rightarrow> string"
  fp_dump :: "gateway_context \<Rightarrow> string"

text \<open>
  The canonical JSON of \<open>{"tool_name", "tool_args", "context"}\<close>, its keys sorted; the
  bearer credential is blanked first.
\<close>

definition request_fingerprint :: "fp_env \<Rightarrow> string \<Rightarrow> pydict \<Rightarrow> gateway_context \<Rightarrow> string" where
  "request_fingerprint env tool args ctx =
     fp_sha env
       ([CHR 0x7B] @ json_string ''context'' @ '':'' @ fp_dump env (ctx\<lparr>capability_ticket := None\<rparr>) @
        '','' @ json_string ''tool_args'' @ '':'' @ json_dumps (PDict args) @
        '','' @ json_string ''tool_name'' @ '':'' @ json_string tool @ [CHR 0x7D])"

record approval_row =
  ar_state :: approval_state
  ar_decision_key :: "string option"
  ar_args :: pydict
  ar_context :: gateway_context
  ar_comment :: string

record approval_store =
  as_rows :: "approval_row list"
  as_up :: bool

record approval_record =
  rec_state :: approval_state
  rec_args :: pydict
  rec_context :: gateway_context

definition row_to_record :: "approval_row \<Rightarrow> approval_record" where
  "row_to_record r =
     \<lparr>rec_state = ar_state r, rec_args = ar_args r, rec_context = ar_context r\<rparr>"

definition execution_args :: "approval_record \<Rightarrow> pydict" where
  "execution_args r =
     (if masked_args (rec_state r) \<noteq> [] then masked_args (rec_state r) else rec_args r)"

datatype approval_reason =
    Idempotency_Key_Bound
  | Approval_Store_Unavailable
  | Approval_Missing
  | Invalid_Approval_Decision
  | Masked_Args_Required
  | Not_Decidable approval_status
  | Approval_Expired
  | Decision_Key_Used
  | Not_Consumable approval_status
  | Snapshot_Changed
  | Not_Revocable approval_status

datatype approval_error =
    Approval_State_Error approval_reason
  | Approval_Value_Error
  | Raw_Sqlite_Error

definition ar_id :: "approval_row \<Rightarrow> string" where
  "ar_id r = approval_id (ar_state r)"

definition ar_status :: "approval_row \<Rightarrow> approval_status" where
  "ar_status r = status (ar_state r)"

definition find_approval :: "string \<Rightarrow> approval_store \<Rightarrow> approval_row option" where
  "find_approval k st = row_get ar_id k (as_rows st)"

definition update_approval ::
    "string \<Rightarrow> (approval_state \<Rightarrow> approval_state) \<Rightarrow> approval_store \<Rightarrow> approval_store" where
  "update_approval k f st =
     st\<lparr>as_rows := row_update ar_id k (\<lambda>r. r\<lparr>ar_state := f (ar_state r)\<rparr>) (as_rows st)\<rparr>"

text \<open>The row an operation returns: \<open>SELECT\<close> after the \<open>UPDATE\<close>.\<close>

definition reread :: "string \<Rightarrow> approval_store \<Rightarrow> (approval_error + approval_record) \<times> approval_store" where
  "reread k st =
     (case find_approval k st of
        None \<Rightarrow> (Inl (Approval_State_Error Approval_Missing), st)
      | Some r \<Rightarrow> (Inr (row_to_record r), st))"

section \<open>Operations\<close>

definition create ::
    "fp_env \<Rightarrow> string \<Rightarrow> string \<Rightarrow> string \<Rightarrow> string \<Rightarrow> pydict \<Rightarrow> gateway_context \<Rightarrow> string \<Rightarrow> int \<Rightarrow>
     int \<Rightarrow> (approval_store, approval_error, approval_record) op" where
  "create env aid trace req tool args ctx idem ttl now st =
     (if ttl < 1 \<or> 86400 < ttl then (Inl Approval_Value_Error, st)
      else if \<not> as_up st then (Inl (Approval_State_Error Approval_Store_Unavailable), st)
      else (let h = request_fingerprint env tool args ctx
            in case find (\<lambda>r. idempotency_key (ar_state r) = idem \<or>
                       (ap_trace_id (ar_state r) = trace \<and> request_id (ar_state r) = req))
                   (as_rows st) of
                 Some r \<Rightarrow>
                   if request_hash (ar_state r) \<noteq> h
                     then (Inl (Approval_State_Error Idempotency_Key_Bound), st)
                   else (Inr (row_to_record r), st)
               | None \<Rightarrow>
                   if find_approval aid st \<noteq> None
                     then (Inl (Approval_State_Error Approval_Store_Unavailable), st)
                   else (let r = \<lparr>ar_state =
                           \<lparr>approval_id = aid, ap_trace_id = trace, request_id = req,
                            status = Requested, actor = None, idempotency_key = idem,
                            requested_at = now, expires_at = now + ttl, decided_at = None,
                            consumed_at = None, revoked_at = None, ap_tool_name = tool,
                            request_hash = h, masked_args = []\<rparr>,
                           ar_decision_key = None, ar_args = args, ar_context = ctx,
                           ar_comment = []\<rparr>
                         in (Inr (row_to_record r), st\<lparr>as_rows := as_rows st @ [r]\<rparr>))))"

definition expire :: "string \<Rightarrow> int \<Rightarrow> (approval_store, approval_error, approval_record) op" where
  "expire aid now st =
     (if \<not> as_up st then (Inl Raw_Sqlite_Error, st)
      else (case find_approval aid st of
          None \<Rightarrow> (Inl (Approval_State_Error Approval_Missing), st)
        | Some r \<Rightarrow>
            reread aid
              (if ar_status r = Requested \<and> expires_at (ar_state r) \<le> now
               then update_approval aid (\<lambda>s. s\<lparr>status := Expired\<rparr>) st else st)))"

definition get :: "string \<Rightarrow> int \<Rightarrow> (approval_store, approval_error, approval_record) op" where
  "get aid now st =
     (if \<not> as_up st then (Inl Raw_Sqlite_Error, st)
      else (case find_approval aid st of
          None \<Rightarrow> (Inl (Approval_State_Error Approval_Missing), st)
        | Some r \<Rightarrow>
            if ar_status r = Requested \<and> expires_at (ar_state r) \<le> now then expire aid now st
            else (Inr (row_to_record r), st)))"

definition get_by_request ::
    "string \<Rightarrow> string \<Rightarrow> int \<Rightarrow> (approval_store, approval_error, approval_record) op" where
  "get_by_request trace req now st =
     (if \<not> as_up st then (Inl Raw_Sqlite_Error, st)
      else (case find (\<lambda>r. ap_trace_id (ar_state r) = trace \<and> request_id (ar_state r) = req)
              (as_rows st) of
          None \<Rightarrow> (Inl (Approval_State_Error Approval_Missing), st)
        | Some r \<Rightarrow> get (ar_id r) now st))"

definition decision_target :: "string \<Rightarrow> approval_status option" where
  "decision_target d =
     (if d = ''allow'' then Some Approved else if d = ''deny'' then Some Denied
      else if d = ''mask_and_allow'' then Some Masked_And_Approved else None)"

definition decide ::
    "string \<Rightarrow> string \<Rightarrow> string \<Rightarrow> string \<Rightarrow> string \<Rightarrow> pydict option \<Rightarrow> int \<Rightarrow>
     (approval_store, approval_error, approval_record) op" where
  "decide aid d who dkey note masked now st =
     (case decision_target d of
        None \<Rightarrow> (Inl (Approval_State_Error Invalid_Approval_Decision), st)
      | Some target \<Rightarrow>
          if d = ''mask_and_allow'' \<and> (masked = None \<or> masked = Some [])
            then (Inl (Approval_State_Error Masked_Args_Required), st)
          else if \<not> as_up st then (Inl (Approval_State_Error Approval_Store_Unavailable), st)
          else (case find_approval aid st of
              None \<Rightarrow> (Inl (Approval_State_Error Approval_Missing), st)
            | Some r \<Rightarrow>
                if ar_decision_key r = Some dkey \<and> ar_status r = target
                  then (Inr (row_to_record r), st)
                else if ar_status r \<noteq> Requested
                  then (Inl (Approval_State_Error (Not_Decidable (ar_status r))), st)
                else if expires_at (ar_state r) \<le> now
                  then (Inl (Approval_State_Error Approval_Expired),
                        update_approval aid (\<lambda>s. s\<lparr>status := Expired\<rparr>) st)
                else if list_ex (\<lambda>q. ar_id q \<noteq> aid \<and> ar_decision_key q = Some dkey) (as_rows st)
                  then (Inl (Approval_State_Error Decision_Key_Used), st)
                else reread aid
                  (st\<lparr>as_rows := row_update ar_id aid
                     (\<lambda>q. q\<lparr>ar_state := (ar_state q)\<lparr>status := target, actor := Some who,
                              decided_at := Some now,
                              masked_args := (case masked of None \<Rightarrow> [] | Some m \<Rightarrow> m)\<rparr>,
                            ar_decision_key := Some dkey, ar_comment := note\<rparr>) (as_rows st)\<rparr>)))"

definition decide_by_request ::
    "string \<Rightarrow> string \<Rightarrow> string \<Rightarrow> string \<Rightarrow> string \<Rightarrow> string \<Rightarrow> pydict option \<Rightarrow> int \<Rightarrow>
     (approval_store, approval_error, approval_record) op" where
  "decide_by_request trace req d who dkey note masked now =
     op_bind (get_by_request trace req now)
       (\<lambda>r. decide (approval_id (rec_state r)) d who dkey note masked now)"

definition consume ::
    "fp_env \<Rightarrow> string \<Rightarrow> int \<Rightarrow> (approval_store, approval_error, approval_record) op" where
  "consume env aid now st =
     (if \<not> as_up st then (Inl (Approval_State_Error Approval_Store_Unavailable), st)
      else (case find_approval aid st of
          None \<Rightarrow> (Inl (Approval_State_Error Approval_Missing), st)
        | Some r \<Rightarrow>
            if ar_status r \<notin> {Approved, Masked_And_Approved}
              then (Inl (Approval_State_Error (Not_Consumable (ar_status r))), st)
            else if expires_at (ar_state r) \<le> now
              then (Inl (Approval_State_Error Approval_Expired),
                    update_approval aid (\<lambda>s. s\<lparr>status := Expired\<rparr>) st)
            else if request_fingerprint env (ap_tool_name (ar_state r)) (ar_args r) (ar_context r)
                    \<noteq> request_hash (ar_state r)
              then (Inl (Approval_State_Error Snapshot_Changed), st)
            else reread aid
              (update_approval aid (\<lambda>s. s\<lparr>status := Consumed, consumed_at := Some now\<rparr>) st)))"

definition revoke ::
    "string \<Rightarrow> string \<Rightarrow> int \<Rightarrow> (approval_store, approval_error, approval_record) op" where
  "revoke aid who now st =
     (if \<not> as_up st then (Inl Raw_Sqlite_Error, st)
      else (case find_approval aid st of
          None \<Rightarrow> (Inl (Approval_State_Error Approval_Missing), st)
        | Some r \<Rightarrow>
            if ar_status r \<notin> {Requested, Approved, Masked_And_Approved}
              then (Inl (Approval_State_Error (Not_Revocable (ar_status r))), st)
            else reread aid
              (update_approval aid
                 (\<lambda>s. s\<lparr>status := Revoked, actor := Some who, revoked_at := Some now\<rparr>) st)))"

section \<open>The status machine\<close>

inductive approval_trans :: "approval_status \<Rightarrow> approval_status \<Rightarrow> bool" where
  approve: "approval_trans Requested Approved"
| approve_masked: "approval_trans Requested Masked_And_Approved"
| deny: "approval_trans Requested Denied"
| lapse: "approval_trans Requested Expired"
| withdraw: "approval_trans Requested Revoked"
| consume_approved: "approval_trans Approved Consumed"
| lapse_approved: "approval_trans Approved Expired"
| withdraw_approved: "approval_trans Approved Revoked"
| consume_masked: "approval_trans Masked_And_Approved Consumed"
| lapse_masked: "approval_trans Masked_And_Approved Expired"
| withdraw_masked: "approval_trans Masked_And_Approved Revoked"

inductive_cases approval_trans_cases: "approval_trans a b"
inductive_simps approval_trans_simps:
  "approval_trans Consumed b" "approval_trans Denied b" "approval_trans Expired b"
  "approval_trans Revoked b" "approval_trans a Consumed"

fun approval_rank :: "approval_status \<Rightarrow> nat" where
  "approval_rank Requested = 0"
| "approval_rank Approved = 1"
| "approval_rank Masked_And_Approved = 1"
| "approval_rank Denied = 2"
| "approval_rank Expired = 2"
| "approval_rank Revoked = 2"
| "approval_rank Consumed = 2"

interpretation approvals: lifecycle approval_trans approval_rank
  by unfold_locales (auto elim: approval_trans_cases)

lemma approval_step: "approval_trans a b \<Longrightarrow> approval_trans\<^sup>*\<^sup>* a b"
  by (rule r_into_rtranclp)

declare approval_trans.intros [simp, intro] and approval_step [intro]

text \<open>What no operation changes in a row: who asked for what, and until when.\<close>

definition intent ::
    "approval_row \<Rightarrow> string \<times> string \<times> string \<times> int \<times> int \<times> string \<times> string \<times> pydict \<times> gateway_context" where
  "intent r =
     (ap_trace_id (ar_state r), request_id (ar_state r), idempotency_key (ar_state r),
      requested_at (ar_state r), expires_at (ar_state r), ap_tool_name (ar_state r),
      request_hash (ar_state r), ar_args r, ar_context r)"

abbreviation approvals_evolve :: "approval_store \<Rightarrow> approval_store \<Rightarrow> bool" where
  "approvals_evolve st st' \<equiv>
     evolves approval_trans ar_id ar_status intent (as_rows st) (as_rows st')"

lemma ar_id_update [simp]:
  "approval_id (f (ar_state r)) = approval_id (ar_state r) \<Longrightarrow> ar_id (r\<lparr>ar_state := f (ar_state r)\<rparr>) = ar_id r"
  by (simp add: ar_id_def)

lemma snd_reread [simp]: "snd (reread k st) = st"
  by (simp add: reread_def split: option.splits)

lemma update_evolves:
  assumes "\<And>s. approval_id (f s) = approval_id s"
    "\<And>r. find_approval k st = Some r \<Longrightarrow>
       approval_trans\<^sup>*\<^sup>* (ar_status r) (status (f (ar_state r))) \<and>
       intent (r\<lparr>ar_state := f (ar_state r)\<rparr>) = intent r"
  shows "approvals_evolve st (update_approval k f st)"
  unfolding update_approval_def
  using assms by (auto simp: ar_id_def ar_status_def find_approval_def intro!: evolves_update)

lemma create_evolves: "create env aid t q tool args ctx idem ttl now st = (r, st') \<Longrightarrow> approvals_evolve st st'"
  by (auto simp: create_def Let_def split: if_splits option.splits)

lemma expire_evolves: "expire aid now st = (r, st') \<Longrightarrow> approvals_evolve st st'"
proof -
  assume run: "expire aid now st = (r, st')"
  have "approvals_evolve st (update_approval aid (\<lambda>s. s\<lparr>status := Expired\<rparr>) st)"
    if "find_approval aid st = Some q" "ar_status q = Requested" for q
    using that by (intro update_evolves) (auto simp: intent_def)
  with run show ?thesis
    by (auto simp: expire_def reread_def split: if_splits option.splits)
qed

lemma get_evolves: "get aid now st = (r, st') \<Longrightarrow> approvals_evolve st st'"
  by (auto simp: get_def split: if_splits option.splits dest: expire_evolves)

lemma get_by_request_evolves: "get_by_request t q now st = (r, st') \<Longrightarrow> approvals_evolve st st'"
  by (auto simp: get_by_request_def split: if_splits option.splits dest: get_evolves)

lemma decide_evolves: "decide aid d who dkey note masked now st = (r, st') \<Longrightarrow> approvals_evolve st st'"
proof -
  assume run: "decide aid d who dkey note masked now st = (r, st')"
  have exp: "approvals_evolve st (update_approval aid (\<lambda>s. s\<lparr>status := Expired\<rparr>) st)"
    if "find_approval aid st = Some q" "ar_status q = Requested" for q
    using that by (intro update_evolves) (auto simp: intent_def)
  have dec: "evolves approval_trans ar_id ar_status intent (as_rows st)
      (row_update ar_id aid
        (\<lambda>q. q\<lparr>ar_state := (ar_state q)\<lparr>status := target, actor := Some who,
                 decided_at := Some now, masked_args := m\<rparr>,
               ar_decision_key := Some dkey, ar_comment := note\<rparr>) (as_rows st))"
    if "find_approval aid st = Some q" "ar_status q = Requested"
      "decision_target d = Some target" for q target m
    using that
    by (intro evolves_update)
       (auto simp: ar_id_def ar_status_def intent_def find_approval_def decision_target_def
         split: if_splits)
  from run show ?thesis
    by (auto simp: decide_def reread_def exp dec split: if_splits option.splits)
qed

lemma consume_evolves: "consume env aid now st = (r, st') \<Longrightarrow> approvals_evolve st st'"
proof -
  assume run: "consume env aid now st = (r, st')"
  have "approvals_evolve st (update_approval aid (\<lambda>s. s\<lparr>status := Expired\<rparr>) st)"
    "approvals_evolve st
       (update_approval aid (\<lambda>s. s\<lparr>status := Consumed, consumed_at := Some now\<rparr>) st)"
    if "find_approval aid st = Some q" "ar_status q \<in> {Approved, Masked_And_Approved}" for q
    using that by (auto simp: intent_def intro!: update_evolves)
  with run show ?thesis
    by (auto simp: consume_def reread_def split: if_splits option.splits)
qed

lemma revoke_evolves: "revoke aid who now st = (r, st') \<Longrightarrow> approvals_evolve st st'"
proof -
  assume run: "revoke aid who now st = (r, st')"
  have "approvals_evolve st
       (update_approval aid
         (\<lambda>s. s\<lparr>status := Revoked, actor := Some who, revoked_at := Some now\<rparr>) st)"
    if "find_approval aid st = Some q"
      "ar_status q \<in> {Requested, Approved, Masked_And_Approved}" for q
    using that by (auto simp: intent_def intro!: update_evolves)
  with run show ?thesis
    by (auto simp: revoke_def reread_def split: if_splits option.splits)
qed

section \<open>Runs\<close>

text \<open>One call of the store's public interface, with the clock it reads.\<close>

datatype approval_call =
    Call_Create string string string string pydict gateway_context string int int
  | Call_Get string int
  | Call_Get_By_Request string string int
  | Call_Decide string string string string string "pydict option" int
  | Call_Decide_By_Request string string string string string string "pydict option" int
  | Call_Consume string int
  | Call_Revoke string string int
  | Call_Expire string int

fun approval_call_run ::
    "fp_env \<Rightarrow> approval_call \<Rightarrow> (approval_store, approval_error, approval_record) op" where
  "approval_call_run env (Call_Create aid t q tool args ctx idem ttl now) =
     create env aid t q tool args ctx idem ttl now"
| "approval_call_run env (Call_Get aid now) = get aid now"
| "approval_call_run env (Call_Get_By_Request t q now) = get_by_request t q now"
| "approval_call_run env (Call_Decide aid d who key note m now) = decide aid d who key note m now"
| "approval_call_run env (Call_Decide_By_Request t q d who key note m now) =
     decide_by_request t q d who key note m now"
| "approval_call_run env (Call_Consume aid now) = consume env aid now"
| "approval_call_run env (Call_Revoke aid who now) = revoke aid who now"
| "approval_call_run env (Call_Expire aid now) = expire aid now"

fun approvals_run ::
    "fp_env \<Rightarrow> approval_call list \<Rightarrow> approval_store \<Rightarrow>
     (approval_error + approval_record) list \<times> approval_store" where
  "approvals_run env [] st = ([], st)"
| "approvals_run env (c # cs) st =
     (case approval_call_run env c st of (r, st') \<Rightarrow>
        (case approvals_run env cs st' of (rs, st'') \<Rightarrow> (r # rs, st'')))"

lemma approval_call_evolves:
  "approval_call_run env c st = (r, st') \<Longrightarrow> approvals_evolve st st'"
proof (cases c)
  case (Call_Decide_By_Request t q d who key cm m now)
  assume run: "approval_call_run env c st = (r, st')"
  obtain g u where g: "get_by_request t q now st = (g, u)" by fastforce
  have "approvals_evolve u st'"
    using run g Call_Decide_By_Request
    by (cases g) (auto simp: decide_by_request_def op_bind_def dest: decide_evolves)
  with get_by_request_evolves[OF g] show ?thesis by (rule evolves_trans)
qed (auto dest: create_evolves get_evolves get_by_request_evolves decide_evolves
       consume_evolves revoke_evolves expire_evolves)

lemma approvals_run_evolves:
  "approvals_run env cs st = (rs, st') \<Longrightarrow> approvals_evolve st st'"
proof (induction cs arbitrary: st rs st')
  case Nil
  then show ?case by simp
next
  case (Cons c cs)
  obtain r u where r: "approval_call_run env c st = (r, u)" by fastforce
  obtain rs' v where rs: "approvals_run env cs u = (rs', v)" by fastforce
  have "st' = v" using Cons.prems by (simp add: r rs)
  with evolves_trans[OF approval_call_evolves[OF r] Cons.IH[OF rs]] show ?case by simp
qed

text \<open>The consumptions of one approval that a run grants.\<close>

definition consumptions ::
    "string \<Rightarrow> approval_call list \<Rightarrow> (approval_error + approval_record) list \<Rightarrow> nat" where
  "consumptions aid cs rs =
     length (filter (\<lambda>(c, r). is_ok r \<and> (\<exists>now. c = Call_Consume aid now)) (zip cs rs))"

lemma consumptions_simps [simp]:
  "consumptions aid [] rs = 0"
  "consumptions aid (c # cs) (r # rs) =
     (if is_ok r \<and> (\<exists>now. c = Call_Consume aid now) then 1 else 0) + consumptions aid cs rs"
  by (simp_all add: consumptions_def)

lemma consume_InrD:
  assumes "consume env aid now st = (Inr rec, st')"
  shows "\<exists>r. find_approval aid st = Some r \<and> ar_status r \<in> {Approved, Masked_And_Approved} \<and>
     now < expires_at (ar_state r) \<and>
     request_fingerprint env (ap_tool_name (ar_state r)) (ar_args r) (ar_context r)
       = request_hash (ar_state r) \<and>
     find_approval aid st' =
       Some (r\<lparr>ar_state := (ar_state r)\<lparr>status := Consumed, consumed_at := Some now\<rparr>\<rparr>) \<and>
     rec = row_to_record
       (r\<lparr>ar_state := (ar_state r)\<lparr>status := Consumed, consumed_at := Some now\<rparr>\<rparr>)"
  using assms
  by (auto simp: consume_def reread_def update_approval_def find_approval_def table_simps
        ar_id_def not_le split: if_splits option.splits)

lemma consumed_stays:
  assumes "approvals_evolve st st'" "find_approval aid st = Some r" "ar_status r = Consumed"
  shows "\<exists>r'. find_approval aid st' = Some r' \<and> ar_status r' = Consumed"
  using evolvesD[OF assms(1), of aid r] assms(2,3) approvals.final_stays[of Consumed]
  by (fastforce simp: find_approval_def approval_trans_simps)

lemma consumed_no_more:
  "approvals_run env cs st = (rs, st') \<Longrightarrow> find_approval aid st = Some r \<Longrightarrow>
     ar_status r = Consumed \<Longrightarrow> consumptions aid cs rs = 0"
proof (induction cs arbitrary: st rs st' r)
  case Nil
  then show ?case by simp
next
  case (Cons c cs)
  obtain x u where x: "approval_call_run env c st = (x, u)" by fastforce
  obtain rs' v where rs: "approvals_run env cs u = (rs', v)" by fastforce
  have eq: "rs = x # rs'" using Cons.prems by (simp add: x rs)
  obtain r' where r': "find_approval aid u = Some r'" "ar_status r' = Consumed"
    using consumed_stays[OF approval_call_evolves[OF x]] Cons.prems by blast
  have "\<not> (is_ok x \<and> c = Call_Consume aid now)" for now
    using x Cons.prems(2,3) by (auto simp: is_ok_iff dest!: consume_InrD)
  with Cons.IH[OF rs r'] eq show ?case by auto
qed

lemma consumptions_le_1: "approvals_run env cs st = (rs, st') \<Longrightarrow> consumptions aid cs rs \<le> 1"
proof (induction cs arbitrary: st rs st')
  case Nil
  then show ?case by simp
next
  case (Cons c cs)
  obtain x u where x: "approval_call_run env c st = (x, u)" by fastforce
  obtain rs' v where rs: "approvals_run env cs u = (rs', v)" by fastforce
  have eq: "rs = x # rs'" using Cons.prems by (simp add: x rs)
  show ?case
  proof (cases "\<exists>now. is_ok x \<and> c = Call_Consume aid now")
    case False
    with Cons.IH[OF rs] eq show ?thesis by auto
  next
    case True
    with x obtain r where "find_approval aid u = Some r" "ar_status r = Consumed"
      by (auto simp: is_ok_iff ar_status_def dest!: consume_InrD)
    from consumed_no_more[OF rs this] eq show ?thesis by simp
  qed
qed

section \<open>The table's invariant\<close>

text \<open>
  What each row holds at each status: who decided and when, that decisions and
  consumptions happened before the request expired, that a masked approval carries its
  masked arguments, and that the stored digest is the one of the stored snapshot.
\<close>

definition decided_in_time :: "approval_row \<Rightarrow> bool" where
  "decided_in_time r \<longleftrightarrow> actor (ar_state r) \<noteq> None \<and> ar_decision_key r \<noteq> None \<and>
     (\<exists>t. decided_at (ar_state r) = Some t \<and> t < expires_at (ar_state r))"

fun status_fields :: "approval_status \<Rightarrow> approval_row \<Rightarrow> bool" where
  "status_fields Requested r \<longleftrightarrow> actor (ar_state r) = None \<and> ar_decision_key r = None \<and>
     decided_at (ar_state r) = None \<and> consumed_at (ar_state r) = None \<and>
     revoked_at (ar_state r) = None \<and> masked_args (ar_state r) = []"
| "status_fields Approved r \<longleftrightarrow> decided_in_time r \<and> consumed_at (ar_state r) = None"
| "status_fields Masked_And_Approved r \<longleftrightarrow> decided_in_time r \<and> consumed_at (ar_state r) = None \<and>
     masked_args (ar_state r) \<noteq> []"
| "status_fields Denied r \<longleftrightarrow> decided_in_time r \<and> consumed_at (ar_state r) = None"
| "status_fields Consumed r \<longleftrightarrow> decided_in_time r \<and>
     (\<exists>t. consumed_at (ar_state r) = Some t \<and> t < expires_at (ar_state r))"
| "status_fields Expired r \<longleftrightarrow> consumed_at (ar_state r) = None"
| "status_fields Revoked r \<longleftrightarrow> consumed_at (ar_state r) = None \<and> revoked_at (ar_state r) \<noteq> None"

definition row_ok :: "fp_env \<Rightarrow> approval_row \<Rightarrow> bool" where
  "row_ok env r \<longleftrightarrow> status_fields (ar_status r) r \<and>
     requested_at (ar_state r) < expires_at (ar_state r) \<and>
     expires_at (ar_state r) \<le> requested_at (ar_state r) + 86400 \<and>
     request_hash (ar_state r) =
       request_fingerprint env (ap_tool_name (ar_state r)) (ar_args r) (ar_context r)"

definition unique_on :: "(approval_row \<Rightarrow> 'k) \<Rightarrow> ('k \<Rightarrow> bool) \<Rightarrow> approval_row list \<Rightarrow> bool" where
  "unique_on g P rows \<longleftrightarrow>
     (\<forall>q \<in> set rows. \<forall>r \<in> set rows. g q = g r \<and> P (g q) \<longrightarrow> ar_id q = ar_id r)"

definition idem_of :: "approval_row \<Rightarrow> string" where
  "idem_of r = idempotency_key (ar_state r)"

definition request_of :: "approval_row \<Rightarrow> string \<times> string" where
  "request_of r = (ap_trace_id (ar_state r), request_id (ar_state r))"

definition approvals_wf :: "fp_env \<Rightarrow> approval_store \<Rightarrow> bool" where
  "approvals_wf env st \<longleftrightarrow> distinct (map ar_id (as_rows st)) \<and>
     unique_on idem_of (\<lambda>_. True) (as_rows st) \<and>
     unique_on request_of (\<lambda>_. True) (as_rows st) \<and>
     unique_on ar_decision_key (\<lambda>k. k \<noteq> None) (as_rows st) \<and>
     (\<forall>r \<in> set (as_rows st). row_ok env r)"

lemma approvals_wf_find:
  "approvals_wf env st \<Longrightarrow> find_approval aid st = Some r \<Longrightarrow> row_ok env r \<and> ar_id r = aid"
  by (auto simp: approvals_wf_def find_approval_def dest: row_get_SomeD)

lemma unique_on_update:
  assumes "unique_on g P rows" "\<And>q. g (f q) = g q" "\<And>q. ar_id (f q) = ar_id q"
  shows "unique_on g P (row_update ar_id aid f rows)"
  unfolding unique_on_def
proof (intro ballI impI)
  fix q r
  assume mem: "q \<in> set (row_update ar_id aid f rows)" "r \<in> set (row_update ar_id aid f rows)"
    and eq: "g q = g r \<and> P (g q)"
  have old: "\<exists>p \<in> set rows. g x = g p \<and> ar_id x = ar_id p"
    if "x \<in> set (row_update ar_id aid f rows)" for x
    using set_row_updateD[OF that] assms(2,3) by blast
  from old[OF mem(1)] old[OF mem(2)] eq assms(1) show "ar_id q = ar_id r"
    unfolding unique_on_def by metis
qed

lemma unique_on_fresh:
  assumes "unique_on g P rows" "\<And>q. q \<in> set rows \<Longrightarrow> g q \<noteq> g r"
  shows "unique_on g P (rows @ [r])"
  unfolding unique_on_def
proof (intro ballI impI)
  fix p q
  assume mem: "p \<in> set (rows @ [r])" "q \<in> set (rows @ [r])" and eq: "g p = g q \<and> P (g p)"
  consider "p \<in> set rows" "q \<in> set rows" | "p = r" "q = r" | "p = r" "q \<in> set rows"
    | "q = r" "p \<in> set rows" using mem by auto
  then show "ar_id p = ar_id q"
  proof cases
    case 1
    with assms(1) eq show ?thesis unfolding unique_on_def by blast
  qed (use assms(2) eq in force)+
qed

lemma unique_on_ignored:
  assumes "unique_on g P rows" "\<not> P (g r)"
  shows "unique_on g P (rows @ [r])"
  unfolding unique_on_def
proof (intro ballI impI)
  fix p q
  assume mem: "p \<in> set (rows @ [r])" "q \<in> set (rows @ [r])" and eq: "g p = g q \<and> P (g p)"
  have "p \<in> set rows" "q \<in> set rows" using mem eq assms(2) by auto
  with assms(1) eq show "ar_id p = ar_id q" unfolding unique_on_def by blast
qed

lemma unique_on_rekey:
  assumes "unique_on ar_decision_key (\<lambda>k. k \<noteq> None) rows"
    "\<not> list_ex (\<lambda>q. ar_id q \<noteq> aid \<and> ar_decision_key q = Some dkey) rows"
    "\<And>q. ar_id (f q) = ar_id q" "\<And>q. ar_decision_key (f q) = Some dkey"
  shows "unique_on ar_decision_key (\<lambda>k. k \<noteq> None) (row_update ar_id aid f rows)"
  unfolding unique_on_def
proof (intro ballI impI)
  fix q r
  assume mem: "q \<in> set (row_update ar_id aid f rows)" "r \<in> set (row_update ar_id aid f rows)"
    and eq: "ar_decision_key q = ar_decision_key r \<and> ar_decision_key q \<noteq> None"
  have old: "(ar_id x = aid \<and> ar_decision_key x = Some dkey) \<or> (x \<in> set rows \<and> ar_id x \<noteq> aid)"
    if "x \<in> set (row_update ar_id aid f rows)" for x
    using set_row_updateD[OF that] assms(3,4) by auto
  have other: "ar_decision_key x \<noteq> Some dkey" if "x \<in> set rows" "ar_id x \<noteq> aid" for x
    using assms(2) that by (auto simp: list_ex_iff)
  consider "ar_id q = aid" "ar_id r = aid" | "ar_decision_key q = Some dkey" "r \<in> set rows" "ar_id r \<noteq> aid"
    | "ar_decision_key r = Some dkey" "q \<in> set rows" "ar_id q \<noteq> aid" | "q \<in> set rows" "r \<in> set rows"
    using old[OF mem(1)] old[OF mem(2)] by blast
  then show "ar_id q = ar_id r"
  proof cases
    case 2
    with other[of r] eq show ?thesis by simp
  next
    case 3
    with other[of q] eq show ?thesis by simp
  next
    case 4
    with eq assms(1) show ?thesis unfolding unique_on_def by blast
  qed simp
qed

lemma row_ok_update:
  assumes wf: "approvals_wf env st" and r: "find_approval aid st = Some r"
    and f: "row_ok env (f r)"
  shows "\<forall>q \<in> set (row_update ar_id aid f (as_rows st)). row_ok env q"
proof
  fix q assume "q \<in> set (row_update ar_id aid f (as_rows st))"
  then consider p where "p \<in> set (as_rows st)" "ar_id p = aid" "q = f p" | "q \<in> set (as_rows st)"
    by (auto dest: set_row_updateD)
  then show "row_ok env q"
  proof cases
    case 1
    with wf r have "p = r"
      using row_get_distinct[of ar_id "as_rows st" p]
      by (simp add: approvals_wf_def find_approval_def)
    with 1 f show ?thesis by simp
  next
    case 2
    with wf show ?thesis by (simp add: approvals_wf_def)
  qed
qed

lemma update_wf:
  assumes wf: "approvals_wf env st" and r: "find_approval aid st = Some r"
    and f: "\<And>s. approval_id (f s) = approval_id s" "\<And>s. idempotency_key (f s) = idempotency_key s"
      "\<And>s. ap_trace_id (f s) = ap_trace_id s" "\<And>s. request_id (f s) = request_id s"
    and ok: "row_ok env (r\<lparr>ar_state := f (ar_state r)\<rparr>)"
  shows "approvals_wf env (update_approval aid f st)"
proof -
  let ?f = "\<lambda>r. r\<lparr>ar_state := f (ar_state r)\<rparr>"
  have id: "ar_id (?f q) = ar_id q" for q by (simp add: ar_id_def f)
  have "unique_on idem_of (\<lambda>_. True) (row_update ar_id aid ?f (as_rows st))"
    "unique_on request_of (\<lambda>_. True) (row_update ar_id aid ?f (as_rows st))"
    "unique_on ar_decision_key (\<lambda>k. k \<noteq> None) (row_update ar_id aid ?f (as_rows st))"
    using wf
    by (auto intro!: unique_on_update simp: approvals_wf_def id f idem_of_def request_of_def)
  with wf row_ok_update[OF wf r, of ?f] ok show ?thesis
    by (simp add: approvals_wf_def update_approval_def id)
qed

lemma lapse_wf:
  assumes "approvals_wf env st" "find_approval aid st = Some r"
    "ar_status r \<in> {Requested, Approved, Masked_And_Approved}"
  shows "approvals_wf env (update_approval aid (\<lambda>s. s\<lparr>status := Expired\<rparr>) st)"
  using assms approvals_wf_find[OF assms(1,2)]
  by (intro update_wf[OF assms(1,2)]) (auto simp: row_ok_def ar_status_def)

lemma create_wf:
  assumes wf: "approvals_wf env st"
    and run: "create env aid t q tool args ctx idem ttl now st = (r, st')"
  shows "approvals_wf env st'"
proof (cases "st' = st")
  case True
  with wf show ?thesis by simp
next
  case False
  then obtain new where new: "as_rows st' = as_rows st @ [new]" "row_ok env new"
    "ar_id new = aid" "idem_of new = idem" "request_of new = (t, q)" "ar_decision_key new = None"
    and fresh: "find_approval aid st = None"
      "find (\<lambda>r. idempotency_key (ar_state r) = idem \<or>
         (ap_trace_id (ar_state r) = t \<and> request_id (ar_state r) = q)) (as_rows st) = None"
    using run
    by (auto simp: create_def Let_def row_ok_def ar_status_def ar_id_def idem_of_def request_of_def
        split: if_splits option.splits)
  have id: "aid \<notin> ar_id ` set (as_rows st)"
    using fresh(1) by (simp add: find_approval_def row_get_None_iff)
  have fresh': "idem_of p \<noteq> idem_of new" "request_of p \<noteq> request_of new"
    if "p \<in> set (as_rows st)" for p
    using fresh(2) that unfolding new(4,5) find_None_iff by (auto simp: idem_of_def request_of_def)
  have old: "unique_on idem_of (\<lambda>_. True) (as_rows st)" "unique_on request_of (\<lambda>_. True) (as_rows st)"
    "unique_on ar_decision_key (\<lambda>k. k \<noteq> None) (as_rows st)"
    using wf by (simp_all add: approvals_wf_def)
  have idem: "unique_on idem_of (\<lambda>_. True) (as_rows st')"
    unfolding new(1) using old(1) fresh'(1) by (rule unique_on_fresh)
  have reqs: "unique_on request_of (\<lambda>_. True) (as_rows st')"
    unfolding new(1) using old(2) fresh'(2) by (rule unique_on_fresh)
  have keys: "unique_on ar_decision_key (\<lambda>k. k \<noteq> None) (as_rows st')"
    unfolding new(1) using old(3) by (rule unique_on_ignored) (simp add: new(6))
  show ?thesis
    using wf id new(1,2,3) idem reqs keys by (simp add: approvals_wf_def)
qed

lemma expire_wf:
  "approvals_wf env st \<Longrightarrow> expire aid now st = (r, st') \<Longrightarrow> approvals_wf env st'"
  by (auto simp: expire_def reread_def split: if_splits option.splits dest: lapse_wf)

lemma get_wf: "approvals_wf env st \<Longrightarrow> get aid now st = (r, st') \<Longrightarrow> approvals_wf env st'"
  by (auto simp: get_def split: if_splits option.splits dest: expire_wf)

lemma get_by_request_wf:
  "approvals_wf env st \<Longrightarrow> get_by_request t q now st = (r, st') \<Longrightarrow> approvals_wf env st'"
  by (auto simp: get_by_request_def split: if_splits option.splits dest: get_wf)

lemma decide_wf:
  assumes wf: "approvals_wf env st" and run: "decide aid d who dkey cm masked now st = (r, st')"
  shows "approvals_wf env st'"
proof (cases "st' = st")
  case True
  with wf show ?thesis by simp
next
  case False
  then obtain target q where target: "decision_target d = Some target"
    and q: "find_approval aid st = Some q" "ar_status q = Requested"
    and fresh: "st' = update_approval aid (\<lambda>s. s\<lparr>status := Expired\<rparr>) st \<or>
      (now < expires_at (ar_state q) \<and> (d = ''mask_and_allow'' \<longrightarrow> masked \<noteq> None \<and> masked \<noteq> Some []) \<and>
       \<not> list_ex (\<lambda>q. ar_id q \<noteq> aid \<and> ar_decision_key q = Some dkey) (as_rows st) \<and>
       st' = st\<lparr>as_rows := row_update ar_id aid
         (\<lambda>q. q\<lparr>ar_state := (ar_state q)\<lparr>status := target, actor := Some who,
              decided_at := Some now,
              masked_args := (case masked of None \<Rightarrow> [] | Some m \<Rightarrow> m)\<rparr>,
              ar_decision_key := Some dkey, ar_comment := cm\<rparr>) (as_rows st)\<rparr>)"
    using run by (auto simp: decide_def reread_def not_le split: if_splits option.splits)
  let ?f = "\<lambda>q. q\<lparr>ar_state := (ar_state q)\<lparr>status := target, actor := Some who,
              decided_at := Some now,
              masked_args := (case masked of None \<Rightarrow> [] | Some m \<Rightarrow> m)\<rparr>,
              ar_decision_key := Some dkey, ar_comment := cm\<rparr>"
  have id: "ar_id (?f q) = ar_id q" for q by (simp add: ar_id_def)
  from fresh show ?thesis
  proof (elim disjE conjE)
    assume "st' = update_approval aid (\<lambda>s. s\<lparr>status := Expired\<rparr>) st"
    with lapse_wf[OF wf q(1)] q(2) show ?thesis by simp
  next
    assume st': "st' = st\<lparr>as_rows := row_update ar_id aid ?f (as_rows st)\<rparr>"
      and now: "now < expires_at (ar_state q)"
      and msk: "d = ''mask_and_allow'' \<longrightarrow> masked \<noteq> None \<and> masked \<noteq> Some []"
      and only: "\<not> list_ex (\<lambda>q. ar_id q \<noteq> aid \<and> ar_decision_key q = Some dkey) (as_rows st)"
    have "row_ok env (?f q)"
      using approvals_wf_find[OF wf q(1)] q(2) now target msk
      by (auto simp: row_ok_def ar_status_def decided_in_time_def decision_target_def
          split: if_splits option.splits)
    then have rows: "\<forall>r \<in> set (row_update ar_id aid ?f (as_rows st)). row_ok env r"
      by (rule row_ok_update[OF wf q(1)])
    have keys: "unique_on ar_decision_key (\<lambda>k. k \<noteq> None) (row_update ar_id aid ?f (as_rows st))"
      using wf only
      unfolding approvals_wf_def by (intro unique_on_rekey) (auto simp: id)
    have others: "unique_on idem_of (\<lambda>_. True) (row_update ar_id aid ?f (as_rows st))"
      "unique_on request_of (\<lambda>_. True) (row_update ar_id aid ?f (as_rows st))"
      using wf
      by (auto intro!: unique_on_update simp: approvals_wf_def id idem_of_def request_of_def)
    show ?thesis
      using wf rows keys others by (simp add: approvals_wf_def st' id)
  qed
qed

lemma decide_by_request_wf:
  assumes wf: "approvals_wf env st"
    and run: "decide_by_request t q d who dkey cm masked now st = (r, st')"
  shows "approvals_wf env st'"
proof -
  obtain g u where g: "get_by_request t q now st = (g, u)" by fastforce
  show ?thesis
    using run g get_by_request_wf[OF wf g]
    by (cases g) (auto simp: decide_by_request_def op_bind_def dest: decide_wf)
qed

lemma consume_wf:
  assumes wf: "approvals_wf env st" and run: "consume env aid now st = (r, st')"
  shows "approvals_wf env st'"
proof -
  have "approvals_wf env
      (update_approval aid (\<lambda>s. s\<lparr>status := Consumed, consumed_at := Some now\<rparr>) st)"
    if q: "find_approval aid st = Some q" "ar_status q \<in> {Approved, Masked_And_Approved}"
      "now < expires_at (ar_state q)" for q
    using approvals_wf_find[OF wf q(1)] q(2,3)
    by (intro update_wf[OF wf q(1)]) (auto simp: row_ok_def ar_status_def decided_in_time_def)
  with wf run lapse_wf[OF wf] show ?thesis
    by (auto simp: consume_def reread_def not_le split: if_splits option.splits)
qed

lemma revoke_wf:
  assumes wf: "approvals_wf env st" and run: "revoke aid who now st = (r, st')"
  shows "approvals_wf env st'"
proof -
  have "approvals_wf env (update_approval aid
      (\<lambda>s. s\<lparr>status := Revoked, actor := Some who, revoked_at := Some now\<rparr>) st)"
    if q: "find_approval aid st = Some q"
      "ar_status q \<in> {Requested, Approved, Masked_And_Approved}" for q
    using approvals_wf_find[OF wf q(1)] q(2)
    by (intro update_wf[OF wf q(1)]) (auto simp: row_ok_def ar_status_def)
  with wf run show ?thesis
    by (auto simp: revoke_def reread_def split: if_splits option.splits)
qed

lemma approval_call_wf:
  "approvals_wf env st \<Longrightarrow> approval_call_run env c st = (r, st') \<Longrightarrow> approvals_wf env st'"
  by (cases c) (auto dest: create_wf get_wf get_by_request_wf decide_wf decide_by_request_wf
      consume_wf revoke_wf expire_wf)

lemma approvals_run_wf:
  "approvals_wf env st \<Longrightarrow> approvals_run env cs st = (rs, st') \<Longrightarrow> approvals_wf env st'"
  by (induction cs arbitrary: st rs) (auto split: prod.splits dest: approval_call_wf)

definition empty_approvals :: approval_store where
  "empty_approvals = \<lparr>as_rows = [], as_up = True\<rparr>"

lemma empty_approvals_wf [simp]: "approvals_wf env empty_approvals"
  by (simp add: approvals_wf_def empty_approvals_def unique_on_def)

end
