(* ===== verification/Servers.thy ===== *)
theory Servers
  imports PyNet
begin

text \<open>
  The simulator registry of \<^verbatim>\<open>mcp/servers/\<close>: the handlers a permitted call reaches.
  Only the file handlers touch state, a store of files under the demo data root; every
  other handler computes its answer. A handler is called with the tool's arguments as
  keyword arguments, so a missing or ill-typed one is an exception, and every exception
  is one outcome for the caller (\<open>except Exception\<close>). The user-facing Chinese messages are
  rendered in English.

  The operating system is a parameter: \<open>fe_real\<close> is what \<open>Path.resolve()\<close> makes of an
  absolute path, symbolic links included, and \<open>fe_writable\<close> says where it permits a write.
\<close>

record file_env =
  fe_root :: "string list"
  fe_real :: "string list \<Rightarrow> string list"
  fe_writable :: "string list \<Rightarrow> bool"

type_synonym file_store = "string list \<Rightarrow> string option"

datatype server_error = Type_Error | Unsafe_Tool_Argument | Os_Error

type_synonym handler = "pydict \<Rightarrow> (file_store, server_error, pydict) op"

definition simulated :: "string \<Rightarrow> (string \<times> pyval) list \<Rightarrow> string \<Rightarrow> pydict" where
  "simulated st items msg = [(''status'', PStr st)] @ items @ [(''message'', PStr msg)]"

text \<open>\<open>v[:160]\<close>, which a string or a list supports.\<close>

definition slice :: "nat \<Rightarrow> pyval \<Rightarrow> server_error + pyval" where
  "slice n v =
     (case v of PStr s \<Rightarrow> Inr (PStr (take n s)) | PList vs \<Rightarrow> Inr (PList (take n vs))
      | _ \<Rightarrow> Inl Type_Error)"

definition arg_or :: "pydict \<Rightarrow> string \<Rightarrow> pyval \<Rightarrow> pyval" where
  "arg_or args k dflt = (case dict_get args k of None \<Rightarrow> dflt | Some v \<Rightarrow> v)"

section \<open>The handlers without state\<close>

definition api_call :: handler where
  "api_call args fs =
     (case (dict_get args ''url'', arg_or args ''method'' (PStr ''GET''), arg_or args ''body'' PNone) of
        (Some url, PStr m, body) \<Rightarrow>
          (case (if py_truthy body then body else PDict []) of
             PDict b \<Rightarrow>
               (Inr (simulated ''simulated''
                  [(''url'', url), (''method'', PStr (upper m)),
                   (''body_fields'', PList (map PStr (sort (map fst b))))]
                  ''policy passed; no network request was made''), fs)
           | _ \<Rightarrow> (Inl Type_Error, fs))
      | _ \<Rightarrow> (Inl Type_Error, fs))"

definition browser_visit :: handler where
  "browser_visit args fs =
     (case dict_get args ''url'' of
        None \<Rightarrow> (Inl Type_Error, fs)
      | Some url \<Rightarrow>
          (Inr (simulated ''simulated'' [(''url'', url)]
             ''domain policy passed; no network access was made''), fs))"

definition db_query :: handler where
  "db_query args fs =
     (case dict_get args ''sql'' of
        None \<Rightarrow> (Inl Type_Error, fs)
      | Some sql \<Rightarrow>
          (case slice 160 sql of
             Inl e \<Rightarrow> (Inl e, fs)
           | Inr p \<Rightarrow> (Inr (simulated ''simulated'' [(''sql_preview'', p), (''rows'', PList [])]
               ''read-only query passed; no database was opened''), fs)))"

definition db_write :: handler where
  "db_write args fs =
     (case dict_get args ''sql'' of
        None \<Rightarrow> (Inl Type_Error, fs)
      | Some sql \<Rightarrow>
          (case slice 160 sql of
             Inl e \<Rightarrow> (Inl e, fs)
           | Inr p \<Rightarrow> (Inr (simulated ''blocked_simulation''
               [(''sql_preview'', p), (''affected_rows'', PInt 0)] ''not executed''), fs)))"

definition send_email :: handler where
  "send_email args fs =
     (case dict_get args ''to'' of
        None \<Rightarrow> (Inl Type_Error, fs)
      | Some to \<Rightarrow>
          (case slice 160 (arg_or args ''content'' (PStr [])) of
             Inl e \<Rightarrow> (Inl e, fs)
           | Inr p \<Rightarrow>
               (let att = arg_or args ''attachments'' PNone
                in (Inr ([(''status'', PStr ''simulated''),
                     (''message'', PStr ''recorded; no mail system was contacted''), (''to'', to),
                     (''subject'', arg_or args ''subject'' (PStr [])), (''content_preview'', p),
                     (''attachments'', if py_truthy att then att else PList [])]), fs))))"

definition shell_exec :: handler where
  "shell_exec args fs =
     (case dict_get args ''command'' of
        None \<Rightarrow> (Inl Type_Error, fs)
      | Some c \<Rightarrow> (Inr (simulated ''blocked_simulation'' [(''command'', c)] ''not executed''), fs))"

section \<open>The file handlers\<close>

text \<open>
  \<open>_resolve_virtual\<close>: the components below \<open>/data\<close> are appended to the data root and
  resolved by the operating system; the result has to stay inside the resolved root.
\<close>

definition resolve_virtual :: "file_env \<Rightarrow> pyval \<Rightarrow> server_error + string list" where
  "resolve_virtual fe v =
     (case v of
        PStr path \<Rightarrow>
          if \<not> startswith path ''/data/'' \<or> ''..'' \<in> set (posix_parts path)
            then Inl Unsafe_Tool_Argument
          else (let target = fe_real fe (fe_root fe @ drop 2 (posix_parts path))
                in if prefix (fe_real fe (fe_root fe)) target then Inr target
                   else Inl Unsafe_Tool_Argument)
      | _ \<Rightarrow> Inl Type_Error)"

definition file_read :: "file_env \<Rightarrow> handler" where
  "file_read fe args fs =
     (case dict_get args ''path'' of
        None \<Rightarrow> (Inl Type_Error, fs)
      | Some path \<Rightarrow>
          (case resolve_virtual fe path of
             Inl e \<Rightarrow> (Inl e, fs)
           | Inr target \<Rightarrow>
               (case fs target of
                  None \<Rightarrow> (Inr [(''status'', PStr ''not_found''), (''path'', path),
                             (''content'', PStr ''the demo file does not exist'')], fs)
                | Some text \<Rightarrow> (Inr [(''status'', PStr ''success''), (''path'', path),
                             (''content'', PStr (take 8192 text)),
                             (''truncated'', PBool (8192 < utf8_len text))], fs))))"

text \<open>
  \<open>file_write\<close>: some component below the root has to be \<open>output\<close>. Creating the parents
  and writing may be refused by the operating system. \<open>content[:100_000]\<close> has to be a
  string for \<open>write_text\<close> to accept it.
\<close>

definition file_write :: "file_env \<Rightarrow> handler" where
  "file_write fe args fs =
     (case dict_get args ''path'' of
        None \<Rightarrow> (Inl Type_Error, fs)
      | Some path \<Rightarrow>
          (case resolve_virtual fe path of
             Inl e \<Rightarrow> (Inl e, fs)
           | Inr target \<Rightarrow>
               if \<not> prefix (fe_root fe) target \<or>
                  ''output'' \<notin> set (drop (length (fe_root fe)) target)
                 then (Inl Unsafe_Tool_Argument, fs)
               else if \<not> fe_writable fe target then (Inl Os_Error, fs)
               else (case arg_or args ''content'' (PStr []) of
                   PStr text \<Rightarrow>
                     (Inr [(''status'', PStr ''success''), (''path'', path),
                           (''bytes'', PInt (int (utf8_len (take 100000 text))))],
                      fs(target \<mapsto> take 100000 text))
                 | _ \<Rightarrow> (Inl Type_Error, fs))))"

definition file_delete :: handler where
  "file_delete args fs =
     (case dict_get args ''path'' of
        None \<Rightarrow> (Inl Type_Error, fs)
      | Some p \<Rightarrow> (Inr (simulated ''blocked_simulation'' [(''path'', p)] ''not executed''), fs))"

section \<open>The registry\<close>

definition tool_handlers :: "file_env \<Rightarrow> (string \<times> handler) list" where
  "tool_handlers fe =
     [(''file_read'', file_read fe), (''file_write'', file_write fe), (''file_delete'', file_delete),
      (''send_email'', send_email), (''browser_visit'', browser_visit), (''api_call'', api_call),
      (''shell_exec'', shell_exec), (''db_query'', db_query), (''db_write'', db_write)]"

definition get_tool_handler :: "file_env \<Rightarrow> string \<Rightarrow> handler option" where
  "get_tool_handler fe tool = map_of (tool_handlers fe) tool"

definition list_registered_tools :: "file_env \<Rightarrow> string list" where
  "list_registered_tools fe = sort (map fst (tool_handlers fe))"

section \<open>Containment\<close>

lemma resolve_virtual_inside:
  "resolve_virtual fe v = Inr target \<Longrightarrow> prefix (fe_real fe (fe_root fe)) target"
  by (auto simp: resolve_virtual_def Let_def split: pyval.splits if_splits)

lemmas stateless_defs = api_call_def browser_visit_def db_query_def db_write_def
  send_email_def shell_exec_def file_delete_def

lemma stateless_files:
  "snd (api_call args fs) = fs" "snd (browser_visit args fs) = fs" "snd (db_query args fs) = fs"
  "snd (db_write args fs) = fs" "snd (send_email args fs) = fs" "snd (shell_exec args fs) = fs"
  "snd (file_delete args fs) = fs"
  by (simp_all add: stateless_defs Let_def split: option.splits pyval.splits sum.splits prod.splits)

lemma file_read_files: "snd (file_read fe args fs) = fs"
  by (simp add: file_read_def split: option.splits sum.splits)

lemma file_write_files:
  assumes "file_write fe args fs = (r, fs')"
  shows "fs' = fs \<or>
    (\<exists>target text. fs' = fs(target \<mapsto> text) \<and> prefix (fe_real fe (fe_root fe)) target \<and>
       prefix (fe_root fe) target \<and>
       ''output'' \<in> set (drop (length (fe_root fe)) target) \<and> length text \<le> 100000)"
proof (cases "fs' = fs")
  case False
  with assms obtain path target w where
    "resolve_virtual fe path = Inr target" "fs' = fs(target \<mapsto> take 100000 w)"
    "prefix (fe_root fe) target" "''output'' \<in> set (drop (length (fe_root fe)) target)"
    by (auto simp: file_write_def split: option.splits sum.splits if_splits pyval.splits)
  moreover have "length (take 100000 w) \<le> 100000" by simp
  ultimately show ?thesis using resolve_virtual_inside by blast
qed simp

text \<open>Whatever tool runs, the files it changes are written ones, inside the root.\<close>

lemma handler_files:
  assumes "get_tool_handler fe tool = Some h" "h args fs = (r, fs')" "fs' \<noteq> fs"
  shows "tool = ''file_write'' \<and>
    (\<exists>target text. fs' = fs(target \<mapsto> text) \<and> prefix (fe_real fe (fe_root fe)) target \<and>
       prefix (fe_root fe) target \<and>
       ''output'' \<in> set (drop (length (fe_root fe)) target) \<and> length text \<le> 100000)"
proof -
  have h: "h = file_write fe \<and> tool = ''file_write'' \<or> snd (h args fs) = fs"
    using assms(1)
    by (auto simp: get_tool_handler_def tool_handlers_def stateless_files file_read_files
        split: if_splits)
  then have w: "h = file_write fe" "tool = ''file_write''" using assms(2,3) by auto
  with file_write_files[of fe args fs r fs'] assms(2,3) show ?thesis by simp
qed

end
