(* ===== verification/GatewayRuntime.thy ===== *)
theory GatewayRuntime
  imports Guard Capabilities TaskGraphs Approvals Servers
begin

text \<open>
  The audited tool runtime of \<^verbatim>\<open>mcp/gateway/runtime.py\<close>: \<open>guarded_tool_call\<close>,
  \<open>resume_approved_tool_call\<close>, \<open>issue_tool_capability\<close> and \<open>_execute_simulator\<close>, composed
  of the guard, the capability service with its SQLite ledger, the task-graph guard, the
  approval store and the simulators. The audit hook is a sink that records an event or
  raises; random identifiers and the clock are inputs. The lemmas show what has been
  checked, consumed and audited whenever a tool has run.
\<close>

section \<open>State, events and outcomes\<close>

record audit_context =
  ac_task_id :: "string option"
  ac_user_id :: "string option"
  ac_user_role :: "string option"
  ac_agent_id :: "string option"
  ac_agent_role :: "string option"
  ac_tenant_id :: "string option"
  ac_sources :: "string list"
  ac_labels :: "string list"
  ac_scopes :: "string list"
  ac_recipients :: "string list"
  ac_domains :: "string list"
  ac_policy_version :: "string option"
  ac_task_step :: int
  ac_plan_id :: "string option"

definition audit_context_of :: "gateway_context \<Rightarrow> audit_context" where
  "audit_context_of ctx =
     \<lparr>ac_task_id = task_id ctx,
      ac_user_id = map_option principal_id (ctx_user ctx),
      ac_user_role = (case ctx_user ctx of Some u \<Rightarrow> Some (p_role u) | None \<Rightarrow> user_role ctx),
      ac_agent_id = map_option principal_id (ctx_agent ctx),
      ac_agent_role = map_option p_role (ctx_agent ctx),
      ac_tenant_id =
        map_option tenant_id (case ctx_agent ctx of Some a \<Rightarrow> Some a | None \<Rightarrow> ctx_user ctx),
      ac_sources = map source_id (input_sources ctx),
      ac_labels = map label_value (data_labels ctx),
      ac_scopes = data_scopes ctx, ac_recipients = authorized_recipients ctx,
      ac_domains = authorized_domains ctx, ac_policy_version = ctx_policy_version ctx,
      ac_task_step = task_step ctx, ac_plan_id = map_option plan_id (ctx_task_graph ctx)\<rparr>"

datatype gw_error =
    Missing_Trace_Id
  | Guard_Failed guard_error
  | Capability_Failed cap_error
  | Graph_Failed task_graph_error
  | Approval_Failed approval_error
  | Audit_Failed

datatype gw_event =
    Tool_Request_Event string string pydict audit_context
  | Tool_Decision_Event string string pydict audit_context policy_decision
  | Task_Graph_Denied string gw_error
  | Approval_Store_Error string
  | Approval_Requested_Event approval_state
  | Capability_Consumed string string int
  | Capability_Denied string gw_error
  | Tool_Error_Event string string
  | Tool_Result_Event string string pydict "string list" "string option"
  | Approval_Resume_Check string string policy_decision
  | Approval_Resume_Denied string string gw_error
  | Approval_Consumed_Event string string string

record gateway =
  gw_releases :: release_store
  gw_ledger :: sqlite_ledger
  gw_graph :: graph_store
  gw_approvals :: approval_store
  gw_files :: file_store
  gw_audit :: "(string \<times> gw_event) list"

text \<open>
  The environment: the policy directory, SHA-256, the capability service, the fingerprint
  serialisation, the file system, and which event the audit hook accepts after which log.
\<close>

record gw_env =
  ge_policies :: "string \<Rightarrow> policy_file option"
  ge_sha :: "string \<Rightarrow> string"
  ge_cap :: cap_env
  ge_service :: cap_service
  ge_fp :: fp_env
  ge_files :: file_env
  ge_sink :: "(string \<times> gw_event) list \<Rightarrow> string \<times> gw_event \<Rightarrow> bool"

datatype outcome_reason =
    By_Policy guard_reason
  | By_Error gw_error
  | By_Simulator

datatype outcome_result =
    Text_Result string
  | Tool_Output pydict

record call_outcome =
  oc_request_id :: string
  oc_tool :: string
  oc_decision :: decision
  oc_risk :: risk_level
  oc_reason :: outcome_reason
  oc_hit :: string
  oc_version :: "string option"
  oc_executed :: bool
  oc_result :: outcome_result
  oc_labels :: "string list"
  oc_approval_id :: "string option"
  oc_approval_status :: "approval_status option"
  oc_original :: "decision option"

type_synonym 'a gw_op = "(gateway, gw_error, 'a) op"

definition emit :: "gw_env \<Rightarrow> string \<Rightarrow> gw_event \<Rightarrow> unit gw_op" where
  "emit env trace ev s =
     (if ge_sink env (gw_audit s) (trace, ev)
      then (Inr (), s\<lparr>gw_audit := gw_audit s @ [(trace, ev)]\<rparr>)
      else (Inl Audit_Failed, s))"

definition on_ledger :: "(sqlite_ledger, cap_error, 'a) op \<Rightarrow> 'a gw_op" where
  "on_ledger = op_on gw_ledger (\<lambda>t s. s\<lparr>gw_ledger := t\<rparr>) Capability_Failed"

definition on_graph :: "(graph_store, task_graph_error, 'a) op \<Rightarrow> 'a gw_op" where
  "on_graph = op_on gw_graph (\<lambda>t s. s\<lparr>gw_graph := t\<rparr>) Graph_Failed"

definition on_approvals :: "(approval_store, approval_error, 'a) op \<Rightarrow> 'a gw_op" where
  "on_approvals = op_on gw_approvals (\<lambda>t s. s\<lparr>gw_approvals := t\<rparr>) Approval_Failed"

definition guard_call :: "gw_env \<Rightarrow> tool_request \<Rightarrow> policy_decision gw_op" where
  "guard_call env req s =
     (case check_tool_call (ge_policies env) (ge_sha env) (gw_releases s) None req of
        Inl e \<Rightarrow> (Inl (Guard_Failed e), s)
      | Inr d \<Rightarrow> (Inr d, s))"

definition authorize_call ::
    "gw_env \<Rightarrow> string \<Rightarrow> tool_request \<Rightarrow> string \<Rightarrow> bool \<Rightarrow> int \<Rightarrow> capability_grant gw_op" where
  "authorize_call env ticket req version consuming now =
     on_ledger (authorize (ge_cap env) (ge_service env) sql_consume ticket (tool_name req)
       (tool_args req) (req_context req) version consuming now)"

definition graph_call_op ::
    "gw_env \<Rightarrow> gateway_context \<Rightarrow> string \<Rightarrow> pydict \<Rightarrow> bool \<Rightarrow> unit gw_op" where
  "graph_call_op env ctx tool args consuming =
     on_graph (validate (ge_sha env) ctx tool args consuming)"

text \<open>The classes of exceptions the two handlers catch.\<close>

fun caught_capability :: "gw_error \<Rightarrow> bool" where
  "caught_capability (Capability_Failed (Capability_Ticket_Error _)) = True"
| "caught_capability (Graph_Failed _) = True"
| "caught_capability _ = False"

fun caught_resume :: "gw_error \<Rightarrow> bool" where
  "caught_resume (Approval_Failed (Approval_State_Error _)) = True"
| "caught_resume e = caught_capability e"

fun caught_approval :: "gw_error \<Rightarrow> bool" where
  "caught_approval (Approval_Failed (Approval_State_Error _)) = True"
| "caught_approval _ = False"

section \<open>Running the simulator\<close>

definition run_handler :: "file_env \<Rightarrow> string \<Rightarrow> pydict \<Rightarrow> (file_store, server_error, pydict) op" where
  "run_handler fe tool args =
     (case get_tool_handler fe tool of
        None \<Rightarrow> op_return (simulated ''simulated'' [] ''permitted, but no simulator is configured'')
      | Some h \<Rightarrow> h args)"

text \<open>
  \<open>base\<close> is the dictionary the caller merges the simulator's answer over; on an exception
  the merged decision becomes a block.
\<close>

definition execute_simulator ::
    "gw_env \<Rightarrow> tool_request \<Rightarrow> string \<Rightarrow> string option \<Rightarrow> call_outcome \<Rightarrow> call_outcome gw_op" where
  "execute_simulator env req rid aid base s =
     (let tool = tool_name req; trace = str_or ''None'' (trace_id (req_context req));
          labels = map label_value
            (infer_result_labels tool (tool_args req) (data_labels (req_context req)))
      in case run_handler (ge_files env) tool (tool_args req) (gw_files s) of
           (Inl _, fs) \<Rightarrow>
             op_bind (emit env trace (Tool_Error_Event rid tool))
               (\<lambda>_. op_return (base\<lparr>oc_request_id := rid, oc_tool := tool, oc_decision := Block,
                  oc_risk := High, oc_reason := By_Simulator, oc_hit := ''runtime.simulator_error'',
                  oc_executed := False, oc_result := Text_Result ''not executed'',
                  oc_approval_id := aid\<rparr>))
               (s\<lparr>gw_files := fs\<rparr>)
         | (Inr out, fs) \<Rightarrow>
             op_bind (emit env trace
                 (Tool_Result_Event rid tool out labels (if set_field aid then aid else None)))
               (\<lambda>_. op_return (base\<lparr>oc_request_id := rid, oc_tool := tool, oc_executed := True,
                  oc_result := Tool_Output out, oc_labels := labels, oc_approval_id := aid\<rparr>))
               (s\<lparr>gw_files := fs\<rparr>))"

section \<open>The guarded call\<close>

definition decided_outcome :: "string \<Rightarrow> string \<Rightarrow> policy_decision \<Rightarrow> string \<Rightarrow> call_outcome" where
  "decided_outcome rid tool d result =
     \<lparr>oc_request_id = rid, oc_tool = tool, oc_decision = decision d, oc_risk = risk_level d,
      oc_reason = By_Policy (reason d), oc_hit = policy_hit d, oc_version = Some (policy_version d),
      oc_executed = False, oc_result = Text_Result result, oc_labels = [],
      oc_approval_id = None, oc_approval_status = None, oc_original = None\<rparr>"

definition denied_outcome ::
    "string \<Rightarrow> string \<Rightarrow> policy_decision \<Rightarrow> string \<Rightarrow> gw_error \<Rightarrow> string \<Rightarrow> call_outcome" where
  "denied_outcome rid tool d hit e result =
     (decided_outcome rid tool d result)
       \<lparr>oc_decision := Block, oc_risk := High, oc_reason := By_Error e, oc_hit := hit,
        oc_original := Some (decision d)\<rparr>"

definition approval_key :: "gateway_context \<Rightarrow> string \<Rightarrow> string \<Rightarrow> string" where
  "approval_key ctx trace rid =
     (let given = get_or_none (metadata ctx) ''idempotency_key''
      in if py_truthy given then py_str given
         else trace @ '':'' @ show_int (task_step ctx) @ '':'' @ rid)"

definition request_approval ::
    "gw_env \<Rightarrow> tool_request \<Rightarrow> string \<Rightarrow> string \<Rightarrow> string \<Rightarrow> policy_decision \<Rightarrow> int \<Rightarrow> call_outcome gw_op" where
  "request_approval env req trace rid aid d now =
     (let tool = tool_name req; args = tool_args req; ctx = req_context req
      in op_bind (op_try (on_approvals
             (create (ge_fp env) aid trace rid tool args ctx (approval_key ctx trace rid) 900 now)))
           (\<lambda>r. case r of
              Inl e \<Rightarrow>
                if caught_approval e then
                  op_bind (emit env trace (Approval_Store_Error rid))
                    (\<lambda>_. op_return ((decided_outcome rid tool d
                         ''approval state unavailable, blocked'')
                       \<lparr>oc_decision := Block, oc_hit := ''approval.storage_failed_closed'',
                        oc_reason := By_Error e\<rparr>))
                else op_raise e
            | Inr rec \<Rightarrow>
                op_bind (emit env trace (Approval_Requested_Event (rec_state rec)))
                  (\<lambda>_. op_return ((decided_outcome rid tool d ''waiting for a human decision'')
                     \<lparr>oc_approval_id := Some (approval_id (rec_state rec)),
                      oc_approval_status := Some (status (rec_state rec))\<rparr>))))"

text \<open>The body of the \<open>try\<close>: the ticket is consumed, then the step, then the event is written.\<close>

definition spend_capability ::
    "gw_env \<Rightarrow> tool_request \<Rightarrow> string \<Rightarrow> string \<Rightarrow> policy_decision \<Rightarrow> int \<Rightarrow> capability_grant gw_op" where
  "spend_capability env req trace rid d now =
     (let tool = tool_name req; args = tool_args req; ctx = req_context req
      in if \<not> set_field (capability_ticket ctx)
           then op_raise (Capability_Failed (Capability_Ticket_Error Ticket_Missing))
         else op_bind (authorize_call env (the (capability_ticket ctx)) req (policy_version d) True now)
           (\<lambda>g. op_bind (graph_call_op env ctx tool args True)
             (\<lambda>_. op_bind (emit env trace (Capability_Consumed rid (ticket_id g) (max_uses g)))
               (\<lambda>_. op_return g))))"

definition run_ticketed ::
    "gw_env \<Rightarrow> tool_request \<Rightarrow> string \<Rightarrow> string \<Rightarrow> policy_decision \<Rightarrow> int \<Rightarrow> call_outcome gw_op" where
  "run_ticketed env req trace rid d now =
     op_bind (op_try (spend_capability env req trace rid d now))
       (\<lambda>r. case r of
          Inl e \<Rightarrow>
            if caught_capability e then
              op_bind (emit env trace (Capability_Denied rid e))
                (\<lambda>_. op_return (denied_outcome rid (tool_name req) d
                   ''capability.authorization_failed'' e ''capability rejected, blocked''))
            else op_raise e
        | Inr _ \<Rightarrow> execute_simulator env req rid None (decided_outcome rid (tool_name req) d []))"

definition act_on_decision ::
    "gw_env \<Rightarrow> tool_request \<Rightarrow> string \<Rightarrow> string \<Rightarrow> string \<Rightarrow> policy_decision \<Rightarrow> int \<Rightarrow> call_outcome gw_op" where
  "act_on_decision env req trace rid aid d now =
     (let tool = tool_name req; args = tool_args req; ctx = req_context req
      in if decision d = Block then op_return (decided_outcome rid tool d ''blocked'')
         else op_bind (op_try (graph_call_op env ctx tool args False))
           (\<lambda>r. case r of
              Inl e \<Rightarrow>
                op_bind (emit env trace (Task_Graph_Denied rid e))
                  (\<lambda>_. op_return (denied_outcome rid tool d
                     ''task_graph.conformance_failed'' e ''task plan violated, blocked''))
            | Inr _ \<Rightarrow>
                if decision d = Require_Approval then request_approval env req trace rid aid d now
                else run_ticketed env req trace rid d now))"

definition guarded_tool_call ::
    "gw_env \<Rightarrow> tool_request \<Rightarrow> string \<Rightarrow> string \<Rightarrow> int \<Rightarrow> call_outcome gw_op" where
  "guarded_tool_call env req rid aid now =
     (let tool = tool_name req; args = tool_args req; ctx = req_context req;
          trace = the (trace_id ctx); actx = audit_context_of ctx
      in if \<not> valid_tool_request req then op_raise (Guard_Failed Invalid_Request)
         else if \<not> set_field (trace_id ctx) then op_raise Missing_Trace_Id
         else op_bind (emit env trace (Tool_Request_Event rid tool args actx))
           (\<lambda>_. op_bind (guard_call env req)
             (\<lambda>d. op_bind (emit env trace (Tool_Decision_Event rid tool args actx d))
               (\<lambda>_. act_on_decision env req trace rid aid d now))))"

section \<open>Resuming an approved call\<close>

text \<open>
  The body of the \<open>try\<close>: the step and the ticket are checked, the approval is consumed,
  then the ticket and the step are.
\<close>

definition spend_approval ::
    "gw_env \<Rightarrow> string \<Rightarrow> string \<Rightarrow> tool_request \<Rightarrow> pydict \<Rightarrow> policy_decision \<Rightarrow> int \<Rightarrow>
     capability_grant gw_op" where
  "spend_approval env aid ticket req planned d now =
     (let tool = tool_name req; ctx = req_context req
      in op_bind (graph_call_op env ctx tool planned False)
        (\<lambda>_. op_bind (authorize_call env ticket req (policy_version d) False now)
          (\<lambda>_. op_bind (on_approvals (consume (ge_fp env) aid now))
            (\<lambda>_. op_bind (authorize_call env ticket req (policy_version d) True now)
              (\<lambda>g. op_bind (graph_call_op env ctx tool planned True)
                (\<lambda>_. op_return g))))))"

definition resume_decided ::
    "gw_env \<Rightarrow> string \<Rightarrow> string \<Rightarrow> approval_record \<Rightarrow> tool_request \<Rightarrow> policy_decision \<Rightarrow> int \<Rightarrow>
     call_outcome gw_op" where
  "resume_decided env aid ticket rec req d now =
     (let rid = request_id (rec_state rec); trace = ap_trace_id (rec_state rec);
          tool = tool_name req
      in if decision d = Block
           then op_return ((decided_outcome rid tool d ''blocked by the current policy'')
                  \<lparr>oc_approval_id := Some aid\<rparr>)
         else op_bind (op_try (spend_approval env aid ticket req (rec_args rec) d now))
           (\<lambda>r. case r of
              Inl e \<Rightarrow>
                if caught_resume e then
                  op_bind (emit env trace (Approval_Resume_Denied aid rid e))
                    (\<lambda>_. op_return ((denied_outcome rid tool d ''approval.resume_failed_closed'' e
                         ''resume failed, not executed'')
                       \<lparr>oc_version := None, oc_original := None, oc_approval_id := Some aid\<rparr>))
                else op_raise e
            | Inr g \<Rightarrow>
                op_bind (emit env trace (Approval_Consumed_Event aid rid (ticket_id g)))
                  (\<lambda>_. op_bind (execute_simulator env req rid (Some aid) (decided_outcome rid tool d []))
                    (\<lambda>out. op_return (out\<lparr>oc_approval_status := Some Consumed\<rparr>)))))"

definition resume_approved_tool_call ::
    "gw_env \<Rightarrow> string \<Rightarrow> string \<Rightarrow> int \<Rightarrow> call_outcome gw_op" where
  "resume_approved_tool_call env aid ticket now =
     op_bind (on_approvals (get aid now))
       (\<lambda>rec. let req = \<lparr>tool_name = ap_tool_name (rec_state rec), tool_args = execution_args rec,
                        req_context = rec_context rec\<rparr>
              in if \<not> valid_tool_request req then op_raise (Guard_Failed Invalid_Request)
                 else op_bind (guard_call env req)
                   (\<lambda>d. op_bind (emit env (ap_trace_id (rec_state rec))
                         (Approval_Resume_Check aid (request_id (rec_state rec)) d))
                     (\<lambda>_. resume_decided env aid ticket rec req d now)))"

section \<open>Issuing a capability\<close>

definition issue_tool_capability ::
    "gw_env \<Rightarrow> tool_request \<Rightarrow> int \<Rightarrow> int \<Rightarrow> int \<Rightarrow> string \<Rightarrow> string \<Rightarrow>
     (capability_grant \<times> string) gw_op" where
  "issue_tool_capability env req ttl uses now tid rnd =
     (let ctx = req_context req; fail = (\<lambda>r. op_raise (Capability_Failed (Capability_Ticket_Error r)))
      in if \<not> valid_tool_request req then op_raise (Guard_Failed Invalid_Request)
         else op_bind (guard_call env req)
           (\<lambda>d. if decision d = Block then fail Policy_Blocks_Issue
                else if \<not> set_field (trace_id ctx) then fail Trace_Missing
                else (case (case ctx_agent ctx of Some a \<Rightarrow> Some a | None \<Rightarrow> ctx_user ctx) of
                    None \<Rightarrow> fail Principal_Missing
                  | Some p \<Rightarrow>
                      (case issue (ge_cap env) (ge_service env) (principal_id p) (tenant_id p)
                         (the (trace_id ctx))
                         \<lparr>sc_tool_name = tool_name req, exact_args = tool_args req,
                          path_prefixes = [], url_domains = [], recipient_domains = [],
                          sc_data_scopes = data_scopes ctx,
                          allowed_data_labels = normalize_labels
                            (if data_labels ctx = [] then [Public] else data_labels ctx)\<rparr>
                         (policy_version d) (task_id ctx) ttl uses now tid rnd of
                         Inl e \<Rightarrow> op_raise (Capability_Failed e)
                       | Inr x \<Rightarrow> op_return x))))"

section \<open>What each step leaves behind\<close>

lemma emit_Inr:
  "emit env trace ev s = (Inr u, s') \<longleftrightarrow>
     ge_sink env (gw_audit s) (trace, ev) \<and> s' = s\<lparr>gw_audit := gw_audit s @ [(trace, ev)]\<rparr>"
  by (auto simp: emit_def)

lemma guard_call_Inr:
  "guard_call env req s = (Inr d, s') \<longleftrightarrow>
     check_tool_call (ge_policies env) (ge_sha env) (gw_releases s) None req = Inr d \<and> s' = s"
  by (auto simp: guard_call_def split: sum.splits)

lemma authorize_call_Inr:
  "authorize_call env ticket req v c now s = (Inr g, s') \<longleftrightarrow>
     (\<exists>t. authorize (ge_cap env) (ge_service env) sql_consume ticket (tool_name req) (tool_args req)
            (req_context req) v c now (gw_ledger s) = (Inr g, t) \<and> s' = s\<lparr>gw_ledger := t\<rparr>)"
  by (auto simp: authorize_call_def on_ledger_def op_on_Inr)

lemma graph_call_op_Inr:
  "graph_call_op env ctx tool args c s = (Inr u, s') \<longleftrightarrow>
     (\<exists>t. validate (ge_sha env) ctx tool args c (gw_graph s) = (Inr u, t) \<and> s' = s\<lparr>gw_graph := t\<rparr>)"
  by (auto simp: graph_call_op_def on_graph_def op_on_Inr)

lemma on_approvals_Inr:
  "on_approvals m s = (Inr x, s') \<longleftrightarrow>
     (\<exists>t. m (gw_approvals s) = (Inr x, t) \<and> s' = s\<lparr>gw_approvals := t\<rparr>)"
  by (auto simp: on_approvals_def op_on_Inr)

lemmas gw_step_simps = op_bind_Inr op_try_eq emit_Inr guard_call_Inr authorize_call_Inr
  graph_call_op_Inr on_approvals_Inr op_return_def op_raise_def

text \<open>Only the simulator touches the files.\<close>

lemma emit_files: "emit env trace ev s = (r, s') \<Longrightarrow> gw_files s' = gw_files s"
  by (auto simp: emit_def split: if_splits)

lemma guard_call_files: "guard_call env req s = (r, s') \<Longrightarrow> gw_files s' = gw_files s"
  by (auto simp: guard_call_def split: sum.splits)

lemma authorize_call_files:
  "authorize_call env ticket req v c now s = (r, s') \<Longrightarrow> gw_files s' = gw_files s"
  by (auto simp: authorize_call_def on_ledger_def dest!: op_on_split)

lemma graph_call_op_files: "graph_call_op env ctx tool args c s = (r, s') \<Longrightarrow> gw_files s' = gw_files s"
  by (auto simp: graph_call_op_def on_graph_def dest!: op_on_split)

lemma on_approvals_files: "on_approvals m s = (r, s') \<Longrightarrow> gw_files s' = gw_files s"
  by (auto simp: on_approvals_def dest!: op_on_split)

lemmas gw_files_dests = emit_files guard_call_files authorize_call_files graph_call_op_files
  on_approvals_files

text \<open>\<open>m\<close> leaves the files alone.\<close>

definition no_files :: "'a gw_op \<Rightarrow> bool" where
  "no_files m \<longleftrightarrow> (\<forall>s r s'. m s = (r, s') \<longrightarrow> gw_files s' = gw_files s)"

lemma no_files_basic [simp, intro]:
  "no_files (emit env trace ev)" "no_files (guard_call env req)"
  "no_files (authorize_call env ticket req v c now)"
  "no_files (graph_call_op env ctx tool args c)" "no_files (on_approvals m)"
  "no_files (op_return x)" "no_files (op_raise e)"
  by (auto simp: no_files_def op_return_def op_raise_def dest: gw_files_dests)

lemma no_files_bind [intro]:
  assumes "no_files m" "\<And>x. no_files (f x)"
  shows "no_files (op_bind m f)"
  using assms unfolding no_files_def op_bind_def by (auto split: prod.splits sum.splits)

lemma no_files_try [simp, intro]: "no_files (op_try m) = no_files m"
  by (auto simp: no_files_def op_try_eq)

lemma no_files_if [intro]: "no_files m \<Longrightarrow> no_files n \<Longrightarrow> no_files (if b then m else n)"
  by simp

lemma no_files_sum [intro]:
  "(\<And>e. no_files (f e)) \<Longrightarrow> (\<And>x. no_files (g x)) \<Longrightarrow> no_files (case r of Inl e \<Rightarrow> f e | Inr x \<Rightarrow> g x)"
  by (cases r) simp_all

lemma no_files_request_approval: "no_files (request_approval env req trace rid aid d now)"
  unfolding request_approval_def Let_def by (intro no_files_bind no_files_sum no_files_if) simp_all

lemma no_files_spend: "no_files (spend_capability env req trace rid d now)"
  "no_files (spend_approval env aid ticket req planned d now)"
  unfolding spend_capability_def spend_approval_def Let_def
  by (intro no_files_bind no_files_if; simp)+
section \<open>A tool that ran was authorised\<close>

lemma spend_capability_InrD:
  assumes "spend_capability env req trace rid d now s = (Inr g, s')"
  shows "set_field (capability_ticket (req_context req))"
    "authorize_grant (ge_cap env) (ge_service env) (the (capability_ticket (req_context req)))
       (tool_name req) (tool_args req) (req_context req) (policy_version d) now = Inr g"
    "\<exists>n. sql_consume (ticket_id g) (max_uses g) (gr_expires_at g) (gw_ledger s) =
       (Inr n, gw_ledger s')"
    "validate (ge_sha env) (req_context req) (tool_name req) (tool_args req) True (gw_graph s) =
       (Inr (), gw_graph s')"
    "gw_audit s' = gw_audit s @ [(trace, Capability_Consumed rid (ticket_id g) (max_uses g))]"
    "gw_approvals s' = gw_approvals s" "gw_releases s' = gw_releases s" "gw_files s' = gw_files s"
  using assms
  by (auto simp: spend_capability_def Let_def gw_step_simps split: if_splits dest: authorize_InrD)

lemma execute_simulator_InrD:
  assumes "execute_simulator env req rid aid base s = (Inr out, s')" "\<not> oc_executed base"
  shows "oc_executed out \<Longrightarrow> \<exists>res. run_handler (ge_files env) (tool_name req) (tool_args req) (gw_files s)
      = (Inr res, gw_files s') \<and> oc_result out = Tool_Output res \<and>
      gw_audit s' = gw_audit s @ [(str_or ''None'' (trace_id (req_context req)),
        Tool_Result_Event rid (tool_name req) res
          (map label_value (infer_result_labels (tool_name req) (tool_args req)
             (data_labels (req_context req)))) (if set_field aid then aid else None))]"
    "oc_executed out \<Longrightarrow> oc_decision out = oc_decision base \<and>
      oc_labels out = map label_value (infer_result_labels (tool_name req) (tool_args req)
             (data_labels (req_context req)))"
    "\<not> oc_executed out \<Longrightarrow> oc_decision out = Block"
    "gw_ledger s' = gw_ledger s" "gw_graph s' = gw_graph s" "gw_approvals s' = gw_approvals s"
    "gw_releases s' = gw_releases s"
  using assms
  by (auto simp: execute_simulator_def Let_def gw_step_simps split: if_splits prod.splits sum.splits)

lemma no_decided_exec [simp]:
  "\<not> oc_executed (decided_outcome rid tool d res)" "\<not> oc_executed (denied_outcome rid tool d h e res)"
  by (simp_all add: decided_outcome_def denied_outcome_def)

text \<open>Everything a call that ran has gone through, in the order it happened.\<close>

definition call_authorised ::
    "gw_env \<Rightarrow> tool_request \<Rightarrow> string \<Rightarrow> int \<Rightarrow> gateway \<Rightarrow> call_outcome \<Rightarrow> gateway \<Rightarrow> bool" where
  "call_authorised env req rid now s out s' \<longleftrightarrow>
     (\<exists>d g n res. set_field (capability_ticket (req_context req)) \<and>
        oc_labels out = map label_value (infer_result_labels (tool_name req) (tool_args req)
          (data_labels (req_context req))) \<and>
        check_tool_call (ge_policies env) (ge_sha env) (gw_releases s) None req = Inr d \<and>
        decision d \<notin> {Block, Require_Approval} \<and> oc_decision out = decision d \<and>
        authorize_grant (ge_cap env) (ge_service env) (the (capability_ticket (req_context req)))
          (tool_name req) (tool_args req) (req_context req) (policy_version d) now = Inr g \<and>
        sql_consume (ticket_id g) (max_uses g) (gr_expires_at g) (gw_ledger s) = (Inr n, gw_ledger s') \<and>
        validate (ge_sha env) (req_context req) (tool_name req) (tool_args req) True (gw_graph s) =
          (Inr (), gw_graph s') \<and>
        run_handler (ge_files env) (tool_name req) (tool_args req) (gw_files s) =
          (Inr res, gw_files s') \<and> oc_result out = Tool_Output res \<and>
        map snd (gw_audit s') = map snd (gw_audit s) @
          [Tool_Request_Event rid (tool_name req) (tool_args req) (audit_context_of (req_context req)),
           Tool_Decision_Event rid (tool_name req) (tool_args req)
             (audit_context_of (req_context req)) d,
           Capability_Consumed rid (ticket_id g) (max_uses g),
           Tool_Result_Event rid (tool_name req) res (oc_labels out) None])"

lemma validate_check_same: "validate sha ctx tool args False st = (Inr u, st') \<Longrightarrow> st' = st"
  by (auto simp: validate_def register_step_def Let_def split: option.splits if_splits list.splits)

lemma graph_check_state: "graph_call_op env ctx tool args False s = (q, s') \<Longrightarrow> s' = s"
  by (cases q) (auto simp: graph_call_op_def on_graph_def op_on_Inr op_on_Inl
      dest: validate_check_same validate_failed)

lemma request_approval_not_executed:
  "request_approval env req trace rid aid d now s = (Inr out, s') \<Longrightarrow> \<not> oc_executed out"
  unfolding request_approval_def Let_def op_bind_try
  by (auto simp: op_bind_Inr op_return_def op_raise_def decided_outcome_def
      split: prod.splits sum.splits if_splits)

lemma act_on_decision_executedD:
  assumes run: "act_on_decision env req trace rid aid d now s = (Inr out, s')"
    and exec: "oc_executed out"
  shows "decision d \<notin> {Block, Require_Approval} \<and>
    (\<exists>g u. spend_capability env req trace rid d now s = (Inr g, u) \<and>
       execute_simulator env req rid None (decided_outcome rid (tool_name req) d []) u = (Inr out, s'))"
proof -
  from run exec have nb: "decision d \<noteq> Block"
    by (auto simp: act_on_decision_def gw_step_simps)
  with run obtain q u where q: "graph_call_op env (req_context req) (tool_name req) (tool_args req) False s = (q, u)"
    and rest: "(case q of Inl e \<Rightarrow>
          op_bind (emit env trace (Task_Graph_Denied rid e))
            (\<lambda>_. op_return (denied_outcome rid (tool_name req) d ''task_graph.conformance_failed'' e
               ''task plan violated, blocked''))
        | Inr _ \<Rightarrow> if decision d = Require_Approval then request_approval env req trace rid aid d now
            else run_ticketed env req trace rid d now) u = (Inr out, s')"
    by (auto simp: act_on_decision_def Let_def op_bind_Inr op_try_eq)
  from q have u: "u = s" by (rule graph_check_state)
  from rest exec obtain ok where ok: "q = Inr ok"
    by (cases q) (auto simp: gw_step_simps)
  with rest exec have nr: "decision d \<noteq> Require_Approval"
    by (auto dest: request_approval_not_executed)
  with rest ok u have "run_ticketed env req trace rid d now s = (Inr out, s')" by simp
  with exec nb nr show ?thesis
    unfolding run_ticketed_def op_bind_try
    by (auto simp: op_bind_Inr op_return_def op_raise_def split: prod.splits sum.splits if_splits)
qed

lemma guarded_executedD:
  assumes run: "guarded_tool_call env req rid aid now s = (Inr out, s')" and exec: "oc_executed out"
  shows "call_authorised env req rid now s out s'"
proof -
  let ?tr = "the (trace_id (req_context req))"
  from run obtain d s1 s2 where
      s1: "s1 = s\<lparr>gw_audit := gw_audit s @ [(?tr, Tool_Request_Event rid (tool_name req)
         (tool_args req) (audit_context_of (req_context req)))]\<rparr>"
    and d: "check_tool_call (ge_policies env) (ge_sha env) (gw_releases s) None req = Inr d"
    and s2: "s2 = s1\<lparr>gw_audit := gw_audit s1 @ [(?tr, Tool_Decision_Event rid (tool_name req)
         (tool_args req) (audit_context_of (req_context req)) d)]\<rparr>"
    and act: "act_on_decision env req ?tr rid aid d now s2 = (Inr out, s')"
    by (auto simp: guarded_tool_call_def Let_def gw_step_simps split: if_splits)
  from act_on_decision_executedD[OF act exec] obtain g u where
      dec: "decision d \<notin> {Block, Require_Approval}"
    and g: "spend_capability env req ?tr rid d now s2 = (Inr g, u)"
    and x: "execute_simulator env req rid None (decided_outcome rid (tool_name req) d []) u = (Inr out, s')"
    by blast
  note sp = spend_capability_InrD[OF g] and ex = execute_simulator_InrD[OF x no_decided_exec(1)]
  from ex(1)[OF exec] obtain res where res:
    "run_handler (ge_files env) (tool_name req) (tool_args req) (gw_files u) = (Inr res, gw_files s')"
    "oc_result out = Tool_Output res"
    "map snd (gw_audit s') = map snd (gw_audit u) @ [Tool_Result_Event rid (tool_name req) res (oc_labels out) None]"
    using ex(2)[OF exec] by (auto simp: set_field_def)
  have "oc_decision out = decision d" "oc_labels out = map label_value (infer_result_labels (tool_name req)
      (tool_args req) (data_labels (req_context req)))"
    using ex(2)[OF exec] by (simp_all add: decided_outcome_def)
  with d dec sp res ex(4,5) show ?thesis
    unfolding call_authorised_def by (auto simp: s1 s2)
qed

section \<open>Side effects\<close>

lemma no_filesD: "no_files m \<Longrightarrow> m s = (r, s') \<Longrightarrow> gw_files s' = gw_files s"
  by (simp add: no_files_def)

lemma run_ticketed_files:
  assumes run: "run_ticketed env req trace rid d now s = (r, s')" and ch: "gw_files s' \<noteq> gw_files s"
  obtains g u where "spend_capability env req trace rid d now s = (Inr g, u)"
    "execute_simulator env req rid None (decided_outcome rid (tool_name req) d []) u = (r, s')"
proof -
  obtain q u where q: "spend_capability env req trace rid d now s = (q, u)" by fastforce
  have same: "gw_files u = gw_files s" by (rule no_filesD[OF no_files_spend(1) q])
  show thesis
  proof (cases q)
    case (Inr g)
    with run q show ?thesis by (intro that) (auto simp: run_ticketed_def op_bind_try)
  next
    case (Inl e)
    have "no_files (if caught_capability e then
        op_bind (emit env trace (Capability_Denied rid e))
          (\<lambda>_. op_return (denied_outcome rid (tool_name req) d
             ''capability.authorization_failed'' e ''capability rejected, blocked''))
        else op_raise e)" by (intro no_files_if no_files_bind) simp_all
    from no_filesD[OF this, of u r s'] run q Inl ch same show ?thesis
      by (simp add: run_ticketed_def op_bind_try)
  qed
qed

lemma act_on_decision_files:
  assumes run: "act_on_decision env req trace rid aid d now s = (r, s')"
    and ch: "gw_files s' \<noteq> gw_files s"
  shows "decision d \<notin> {Block, Require_Approval} \<and> run_ticketed env req trace rid d now s = (r, s')"
proof -
  have nb: "decision d \<noteq> Block" using run ch by (auto simp: act_on_decision_def op_return_def)
  obtain q u where q: "graph_call_op env (req_context req) (tool_name req) (tool_args req) False s = (q, u)"
    by fastforce
  have u: "u = s" using q by (rule graph_check_state)
  have rest: "(case q of Inl e \<Rightarrow>
          op_bind (emit env trace (Task_Graph_Denied rid e))
            (\<lambda>_. op_return (denied_outcome rid (tool_name req) d ''task_graph.conformance_failed'' e
               ''task plan violated, blocked''))
        | Inr _ \<Rightarrow> if decision d = Require_Approval then request_approval env req trace rid aid d now
            else run_ticketed env req trace rid d now) s = (r, s')"
    using run nb q u by (simp add: act_on_decision_def Let_def op_bind_try)
  obtain ok where ok: "q = Inr ok"
  proof (cases q)
    case (Inl e)
    have "no_files (op_bind (emit env trace (Task_Graph_Denied rid e))
            (\<lambda>_. op_return (denied_outcome rid (tool_name req) d ''task_graph.conformance_failed'' e
               ''task plan violated, blocked'')))" by (intro no_files_bind) simp_all
    from no_filesD[OF this, of s r s'] rest Inl ch show ?thesis by simp
  qed
  have "decision d \<noteq> Require_Approval"
    using rest ok ch no_filesD[OF no_files_request_approval] by (auto split: if_splits)
  with nb rest ok show ?thesis by simp
qed

text \<open>
  A step that changes the files happened after a positive decision and a granted ticket,
  whatever the call then returned or raised.
\<close>

lemma guarded_files:
  assumes run: "guarded_tool_call env req rid aid now s = (r, s')" and ch: "gw_files s' \<noteq> gw_files s"
  obtains d g s1 u where
    "check_tool_call (ge_policies env) (ge_sha env) (gw_releases s) None req = Inr d"
    "decision d \<notin> {Block, Require_Approval}"
    "gw_ledger s1 = gw_ledger s" "gw_graph s1 = gw_graph s" "gw_files s1 = gw_files s"
    "map snd (gw_audit s1) = map snd (gw_audit s) @
       [Tool_Request_Event rid (tool_name req) (tool_args req) (audit_context_of (req_context req)),
        Tool_Decision_Event rid (tool_name req) (tool_args req) (audit_context_of (req_context req)) d]"
    "spend_capability env req (the (trace_id (req_context req))) rid d now s1 = (Inr g, u)"
    "execute_simulator env req rid None (decided_outcome rid (tool_name req) d []) u = (r, s')"
proof -
  let ?tr = "the (trace_id (req_context req))"
  let ?e1 = "Tool_Request_Event rid (tool_name req) (tool_args req) (audit_context_of (req_context req))"
  let ?e2 = "Tool_Decision_Event rid (tool_name req) (tool_args req) (audit_context_of (req_context req))"
  from run ch obtain d where
    d: "check_tool_call (ge_policies env) (ge_sha env) (gw_releases s) None req = Inr d"
    and act: "act_on_decision env req ?tr rid aid d now
      (s\<lparr>gw_audit := gw_audit s @ [(?tr, ?e1), (?tr, ?e2 d)]\<rparr>) = (r, s')"
    unfolding guarded_tool_call_def Let_def op_bind_def guard_call_def op_raise_def emit_def
    by (auto split: if_splits prod.splits sum.splits)
  have "gw_files s' \<noteq> gw_files (s\<lparr>gw_audit := gw_audit s @ [(?tr, ?e1), (?tr, ?e2 d)]\<rparr>)"
    using ch by simp
  note rt = act_on_decision_files[OF act this]
  from rt have dec: "decision d \<notin> {Block, Require_Approval}"
    and tk: "run_ticketed env req ?tr rid d now
      (s\<lparr>gw_audit := gw_audit s @ [(?tr, ?e1), (?tr, ?e2 d)]\<rparr>) = (r, s')" by simp_all
  obtain g u where "spend_capability env req ?tr rid d now
      (s\<lparr>gw_audit := gw_audit s @ [(?tr, ?e1), (?tr, ?e2 d)]\<rparr>) = (Inr g, u)"
    "execute_simulator env req rid None (decided_outcome rid (tool_name req) d []) u = (r, s')"
    by (rule run_ticketed_files[OF tk]) (use ch in simp_all)
  from d dec _ _ _ _ this show thesis by (rule that) simp_all
qed

lemma run_handler_files:
  assumes "run_handler fe tool args fs = (r, fs')" "fs' \<noteq> fs"
  shows "tool = ''file_write'' \<and>
    (\<exists>target text. fs' = fs(target \<mapsto> text) \<and> prefix (fe_real fe (fe_root fe)) target \<and>
       prefix (fe_root fe) target \<and>
       ''output'' \<in> set (drop (length (fe_root fe)) target) \<and> length text \<le> 100000)"
  using assms handler_files[of fe tool _ args fs r fs']
  by (auto simp: run_handler_def op_return_def split: option.splits)

lemma execute_simulator_files:
  assumes "execute_simulator env req rid aid base s = (r, s')"
  shows "\<exists>q. run_handler (ge_files env) (tool_name req) (tool_args req) (gw_files s) = (q, gw_files s')"
  using assms
  by (auto simp: execute_simulator_def Let_def op_bind_def emit_def op_return_def
      split: prod.splits sum.splits if_splits)

text \<open>A blocked call leaves everything but the audit log as it was.\<close>

lemma guarded_blocked:
  assumes "check_tool_call (ge_policies env) (ge_sha env) (gw_releases s) None req = Inr d"
    "decision d = Block" "guarded_tool_call env req rid aid now s = (r, s')"
  shows "\<exists>log. s' = s\<lparr>gw_audit := gw_audit s @ log\<rparr>"
  using assms
  unfolding guarded_tool_call_def Let_def op_bind_def guard_call_def op_raise_def emit_def
    act_on_decision_def op_return_def
  by (auto split: if_splits intro: exI[of _ "[]"])

section \<open>Resuming\<close>

lemma authorize_check_only:
  "authorize env svc ledger ticket tool args ctx v False now s = (Inr g, s') \<Longrightarrow> s' = s"
  by (auto dest: authorize_InrD(2))

lemma authorize_spends:
  "authorize env svc ledger ticket tool args ctx v True now s = (Inr g, s') \<Longrightarrow>
     \<exists>n. ledger (ticket_id g) (max_uses g) (gr_expires_at g) s = (Inr n, s')"
  by (rule authorize_InrD(3)) simp_all

lemma spend_approval_InrD:
  assumes "spend_approval env aid ticket req planned d now s = (Inr g, s')"
  shows
    "authorize_grant (ge_cap env) (ge_service env) ticket (tool_name req) (tool_args req)
       (req_context req) (policy_version d) now = Inr g"
    "\<exists>n. sql_consume (ticket_id g) (max_uses g) (gr_expires_at g) (gw_ledger s) =
       (Inr n, gw_ledger s')"
    "validate (ge_sha env) (req_context req) (tool_name req) planned True (gw_graph s) =
       (Inr (), gw_graph s')"
    "\<exists>rec. consume (ge_fp env) aid now (gw_approvals s) = (Inr rec, gw_approvals s')"
    "gw_audit s' = gw_audit s" "gw_releases s' = gw_releases s" "gw_files s' = gw_files s"
  using assms
  by (auto simp: spend_approval_def Let_def gw_step_simps
      dest: authorize_InrD(1) validate_check_same authorize_spends dest!: authorize_check_only)

lemma resume_executedD:
  assumes run: "resume_approved_tool_call env aid ticket now s = (Inr out, s')"
    and exec: "oc_executed out"
  obtains rec t d g where
    "get aid now (gw_approvals s) = (Inr rec, t)"
    "check_tool_call (ge_policies env) (ge_sha env) (gw_releases s) None
       \<lparr>tool_name = ap_tool_name (rec_state rec), tool_args = execution_args rec,
        req_context = rec_context rec\<rparr> = Inr d"
    "decision d \<noteq> Block"
    "authorize_grant (ge_cap env) (ge_service env) ticket (ap_tool_name (rec_state rec))
       (execution_args rec) (rec_context rec) (policy_version d) now = Inr g"
    "\<exists>n. sql_consume (ticket_id g) (max_uses g) (gr_expires_at g) (gw_ledger s) =
       (Inr n, gw_ledger s')"
    "validate (ge_sha env) (rec_context rec) (ap_tool_name (rec_state rec)) (rec_args rec) True
       (gw_graph s) = (Inr (), gw_graph s')"
    "\<exists>fin. consume (ge_fp env) aid now t = (Inr fin, gw_approvals s')"
    "oc_approval_status out = Some Consumed" "oc_approval_id out = Some aid"
    "\<exists>res. run_handler (ge_files env) (ap_tool_name (rec_state rec)) (execution_args rec)
       (gw_files s) = (Inr res, gw_files s') \<and> oc_result out = Tool_Output res"
proof -
  from run obtain rec t d where
      rec: "get aid now (gw_approvals s) = (Inr rec, t)"
    and d: "check_tool_call (ge_policies env) (ge_sha env) (gw_releases s) None
       \<lparr>tool_name = ap_tool_name (rec_state rec), tool_args = execution_args rec,
        req_context = rec_context rec\<rparr> = Inr d"
    and act': "resume_decided env aid ticket rec
       \<lparr>tool_name = ap_tool_name (rec_state rec), tool_args = execution_args rec,
        req_context = rec_context rec\<rparr> d now
       (s\<lparr>gw_approvals := t, gw_audit := gw_audit s @ [(ap_trace_id (rec_state rec),
          Approval_Resume_Check aid (request_id (rec_state rec)) d)]\<rparr>) = (Inr out, s')"
    by (auto simp: resume_approved_tool_call_def Let_def gw_step_simps split: if_splits)
  define s1 where "s1 = s\<lparr>gw_approvals := t, gw_audit := gw_audit s @ [(ap_trace_id (rec_state rec),
          Approval_Resume_Check aid (request_id (rec_state rec)) d)]\<rparr>"
  have s1: "gw_approvals s1 = t" "gw_ledger s1 = gw_ledger s" "gw_graph s1 = gw_graph s"
      "gw_files s1 = gw_files s" by (simp_all add: s1_def)
  note act = act'[folded s1_def]
  let ?req = "\<lparr>tool_name = ap_tool_name (rec_state rec), tool_args = execution_args rec,
        req_context = rec_context rec\<rparr>"
  let ?rid = "request_id (rec_state rec)"
  have nb: "decision d \<noteq> Block"
    using act exec by (auto simp: resume_decided_def op_return_def decided_outcome_def)
  obtain q u where q: "spend_approval env aid ticket ?req (rec_args rec) d now s1 = (q, u)"
    by fastforce
  obtain g where g: "q = Inr g"
    using act exec nb q
    by (cases q) (auto simp: resume_decided_def Let_def op_bind_try op_bind_Inr op_return_def op_raise_def
        decided_outcome_def denied_outcome_def split: if_splits)
  obtain mid v where
      v: "v = u\<lparr>gw_audit := gw_audit u @ [(ap_trace_id (rec_state rec),
            Approval_Consumed_Event aid ?rid (ticket_id g))]\<rparr>"
    and x: "execute_simulator env ?req ?rid (Some aid)
      (decided_outcome ?rid (ap_tool_name (rec_state rec)) d []) v = (Inr mid, s')"
    and out: "out = mid\<lparr>oc_approval_status := Some Consumed\<rparr>"
    using act nb q g by (auto simp: resume_decided_def Let_def op_bind_try gw_step_simps)
  note sp = spend_approval_InrD[OF q[unfolded g]] and ex = execute_simulator_InrD[OF x no_decided_exec(1)]
  have exm: "oc_executed mid" using exec out by simp
  have aid: "oc_approval_id mid = Some aid"
    using x by (auto simp: execute_simulator_def Let_def gw_step_simps split: prod.splits sum.splits)
  from rec d nb show thesis
    by (rule that) (use sp ex(1)[OF exm] ex(4-7) aid s1 in \<open>auto simp: v out\<close>)
qed

end
