(* ===== verification/Demo.thy ===== *)
theory Demo
  imports GatewayRuntime
begin

text \<open>
  One concrete gateway, service, user and request on which the properties of the gateway
  are exercised: a member of staff writes a file below \<open>/data/output\<close> under the released
  policy 2.0.0 with a single-use ticket. The MAC and the serialisation are instantiated by
  simple functions.
\<close>

definition demo_user :: principal where
  "demo_user = \<lparr>principal_id = ''u1'', principal_kind = User, p_role = ''staff'', tenant_id = ''t1'',
     attributes = []\<rparr>"

definition demo_service :: cap_service where
  "demo_service = \<lparr>secret = ''0123456789abcdef0123456789abcdef'', svc_issuer = ''gov''\<rparr>"

definition demo_args :: pydict where
  "demo_args = [(''path'', PStr ''/data/output/r.txt''), (''content'', PStr ''ok'')]"

definition demo_grant :: capability_grant where
  "demo_grant = \<lparr>ticket_id = ''CAP-1'', issuer = ''gov'', subject_id = ''u1'', gr_tenant_id = ''t1'',
     gr_trace_id = ''T'', gr_task_id = None,
     gr_scope = \<lparr>sc_tool_name = ''file_write'', exact_args = demo_args, path_prefixes = [],
       url_domains = [], recipient_domains = [], sc_data_scopes = [],
       allowed_data_labels = [Public]\<rparr>,
     issued_at = 0, gr_expires_at = 300, max_uses = 1, gr_policy_version = ''2.0.0'',
     nonce = ''n''\<rparr>"

definition mail_args :: pydict where
  "mail_args = [(''to'', PStr ''a@x.com'')]"

definition mail_grant :: capability_grant where
  "mail_grant = demo_grant\<lparr>ticket_id := ''CAP-2'', gr_scope := (gr_scope demo_grant)
     \<lparr>sc_tool_name := ''send_email'', exact_args := mail_args\<rparr>\<rparr>"

definition demo_cap :: cap_env where
  "demo_cap = \<lparr>mac = (\<lambda>k p. take 4 k @ p), dump = ticket_id,
     load = (\<lambda>s. if s = ''CAP-1'' then Some demo_grant
       else if s = ''CAP-2'' then Some mail_grant else None)\<rparr>"

definition demo_env :: gw_env where
  "demo_env = \<lparr>ge_policies = policy_dir, ge_sha = (\<lambda>s. s), ge_cap = demo_cap,
     ge_service = demo_service, ge_fp = \<lparr>fp_sha = (\<lambda>s. s), fp_dump = (\<lambda>_. ''{}'')\<rparr>,
     ge_files = \<lparr>fe_root = [''srv'', ''data''], fe_real = (\<lambda>p. p), fe_writable = (\<lambda>_. True)\<rparr>,
     ge_sink = (\<lambda>_ _. True)\<rparr>"

definition demo_ctx :: gateway_context where
  "demo_ctx = context_default\<lparr>trace_id := Some ''T'', ctx_user := Some demo_user,
     capability_ticket := Some (sign_ticket demo_cap demo_service demo_grant)\<rparr>"

definition demo_request :: tool_request where
  "demo_request = \<lparr>tool_name = ''file_write'', tool_args = demo_args, req_context = demo_ctx\<rparr>"

definition demo_gateway :: gateway where
  "demo_gateway = \<lparr>gw_releases = snd (init_release policy_dir 0 empty_release),
     gw_ledger = \<lparr>us_rows = [], us_up = True\<rparr>, gw_graph = empty_graph_store,
     gw_approvals = empty_approvals, gw_files = (\<lambda>_. None), gw_audit = []\<rparr>"

lemma demo_valid: "valid_tool_request demo_request" by code_simp

lemma demo_decision: "check_tool_call policy_dir (\<lambda>s. s) (gw_releases demo_gateway) None demo_request =
   Inr (mk_decision Allow_With_Log Medium Request_Conforms ''tools.file_write.action'' ''2.0.0'')"
  by code_simp

lemma demo_inspect: "inspect demo_cap demo_service (sign_ticket demo_cap demo_service demo_grant) = Inr demo_grant"
  by (rule inspect_sign_ticket) (simp_all add: demo_cap_def demo_grant_def demo_service_def)

lemma demo_scope: "check_scope (gr_scope demo_grant) ''file_write'' demo_args demo_ctx = None"
  by code_simp

lemma demo_fields: "gr_expires_at demo_grant = 300" "gr_trace_id demo_grant = ''T''"
  "gr_task_id demo_grant = None" "gr_policy_version demo_grant = ''2.0.0''" "max_uses demo_grant = 1"
  "subject_id demo_grant = ''u1''" "gr_tenant_id demo_grant = ''t1''" "ticket_id demo_grant = ''CAP-1''"
  "trace_id demo_ctx = Some ''T''" "task_id demo_ctx = None" "subject demo_ctx = Inr (''u1'', ''t1'')"
  "ctx_task_graph demo_ctx = None"
  "capability_ticket demo_ctx = Some (sign_ticket demo_cap demo_service demo_grant)"
  by (simp_all add: demo_grant_def demo_ctx_def demo_user_def subject_def context_default_def)

lemma demo_authorized: "authorize_grant demo_cap demo_service (sign_ticket demo_cap demo_service demo_grant)
   ''file_write'' demo_args demo_ctx ''2.0.0'' 10 = Inr demo_grant"
  unfolding authorize_grant_def demo_inspect by (simp add: demo_scope demo_fields)

lemma demo_handler: "run_handler (ge_files demo_env) ''file_write'' demo_args (\<lambda>_. None) =
   (Inr [(''status'', PStr ''success''), (''path'', PStr ''/data/output/r.txt''), (''bytes'', PInt 2)],
    [[''srv'', ''data'', ''output'', ''r.txt''] \<mapsto> ''ok''])"
proof -
  have "resolve_virtual (ge_files demo_env) (PStr ''/data/output/r.txt'') =
     Inr [''srv'', ''data'', ''output'', ''r.txt'']" by code_simp
  moreover have "fe_root (ge_files demo_env) = [''srv'', ''data'']" "fe_writable (ge_files demo_env) = (\<lambda>_. True)"
    by (simp_all add: demo_env_def)
  ultimately show ?thesis
    by (simp add: run_handler_def get_tool_handler_def tool_handlers_def file_write_def demo_args_def
        dict_get_def arg_or_def utf8_len_def)
qed


lemma demo_ticket_nonempty [simp]: "sign_ticket demo_cap demo_service demo_grant \<noteq> []"
  by (simp add: sign_ticket_def Let_def)

lemma demo_env_sel [simp]:
  "ge_policies demo_env = policy_dir" "ge_sha demo_env = (\<lambda>s. s)" "ge_cap demo_env = demo_cap"
  "ge_service demo_env = demo_service" "ge_sink demo_env = (\<lambda>_ _. True)"
  by (simp_all add: demo_env_def)

lemma demo_request_sel [simp]:
  "tool_name demo_request = ''file_write''" "tool_args demo_request = demo_args"
  "req_context demo_request = demo_ctx"
  by (simp_all add: demo_request_def)

lemma demo_gateway_sel [simp]:
  "gw_ledger demo_gateway = \<lparr>us_rows = [], us_up = True\<rparr>" "gw_files demo_gateway = (\<lambda>_. None)"
  by (simp_all add: demo_gateway_def)

lemma demo_emit: "emit demo_env tr ev s = (Inr (), s\<lparr>gw_audit := gw_audit s @ [(tr, ev)]\<rparr>)"
  by (simp add: emit_def)

lemma demo_runs:
  "\<exists>out s. guarded_tool_call demo_env demo_request ''REQ-1'' ''APR-1'' 10 demo_gateway = (Inr out, s) \<and>
     oc_executed out \<and> gw_files s \<noteq> gw_files demo_gateway"
  by (simp add: guarded_tool_call_def Let_def demo_valid op_bind_def op_try_def demo_emit
      guard_call_def demo_decision demo_fields act_on_decision_def mk_decision_def run_ticketed_def
      spend_capability_def graph_call_op_def on_graph_def op_on_def validate_def
      authorize_call_def on_ledger_def authorize_def demo_authorized sql_consume_def
      execute_simulator_def demo_handler op_return_def decided_outcome_def set_field_def fun_eq_iff)

section \<open>A mail that waits for a decision\<close>

definition mail_ctx :: gateway_context where
  "mail_ctx = context_default\<lparr>trace_id := Some ''T'', ctx_user := Some demo_user\<rparr>"

definition mail_created :: approval_store where
  "mail_created = snd (create (ge_fp demo_env) ''APR-1'' ''T'' ''REQ-1'' ''send_email'' mail_args mail_ctx
     ''idem'' 900 0 empty_approvals)"

definition mail_store :: approval_store where
  "mail_store = snd (decide ''APR-1'' ''allow'' ''boss'' ''key'' [] None 5 mail_created)"

definition mail_row :: approval_row where
  "mail_row = \<lparr>ar_state =
     \<lparr>approval_id = ''APR-1'', ap_trace_id = ''T'', request_id = ''REQ-1'', status = Approved,
      actor = Some ''boss'', idempotency_key = ''idem'', requested_at = 0, expires_at = 900,
      decided_at = Some 5, consumed_at = None, revoked_at = None, ap_tool_name = ''send_email'',
      request_hash = request_fingerprint (ge_fp demo_env) ''send_email'' mail_args mail_ctx,
      masked_args = []\<rparr>,
     ar_decision_key = Some ''key'', ar_args = mail_args, ar_context = mail_ctx, ar_comment = []\<rparr>"

lemma mail_store_rows: "mail_store = \<lparr>as_rows = [mail_row], as_up = True\<rparr>"
  by (simp add: mail_store_def mail_created_def create_def empty_approvals_def find_approval_def
      Let_def decide_def decision_target_def table_simps ar_id_def ar_status_def reread_def
      row_update_def mail_row_def)

lemma mail_store_wf: "approvals_wf fp mail_store" if "fp = ge_fp demo_env"
proof -
  have "approvals_wf fp mail_created"
    unfolding mail_created_def that
    by (rule create_wf[OF empty_approvals_wf]) (rule prod.collapse[symmetric])
  then show ?thesis
    unfolding mail_store_def by (rule decide_wf) (rule prod.collapse[symmetric])
qed

definition mail_gateway :: gateway where
  "mail_gateway = demo_gateway\<lparr>gw_approvals := mail_store\<rparr>"

definition mail_ticket :: string where
  "mail_ticket = sign_ticket demo_cap demo_service mail_grant"

lemma mail_decision: "check_tool_call policy_dir (\<lambda>s. s) (gw_releases demo_gateway) None
    \<lparr>tool_name = ''send_email'', tool_args = mail_args, req_context = mail_ctx\<rparr> =
  Inr (mk_decision Require_Approval High External_Recipient ''tools.send_email.external_domain_action''
       ''2.0.0'')"
  by code_simp

lemma mail_inspect: "inspect demo_cap demo_service mail_ticket = Inr mail_grant"
  unfolding mail_ticket_def
  by (rule inspect_sign_ticket) (simp_all add: demo_cap_def mail_grant_def demo_grant_def demo_service_def)

lemma mail_scope: "check_scope (gr_scope mail_grant) ''send_email'' mail_args mail_ctx = None"
  by code_simp

lemma mail_fields: "gr_expires_at mail_grant = 300" "gr_trace_id mail_grant = ''T''"
  "gr_task_id mail_grant = None" "gr_policy_version mail_grant = ''2.0.0''" "max_uses mail_grant = 1"
  "subject_id mail_grant = ''u1''" "gr_tenant_id mail_grant = ''t1''" "ticket_id mail_grant = ''CAP-2''"
  "trace_id mail_ctx = Some ''T''" "task_id mail_ctx = None" "subject mail_ctx = Inr (''u1'', ''t1'')"
  "ctx_task_graph mail_ctx = None" "data_labels mail_ctx = []"
  by (simp_all add: mail_grant_def demo_grant_def mail_ctx_def demo_user_def subject_def
      context_default_def)

lemma mail_authorized:
  "authorize_grant demo_cap demo_service mail_ticket ''send_email'' mail_args mail_ctx ''2.0.0'' 10 =
     Inr mail_grant"
  unfolding authorize_grant_def mail_inspect by (simp add: mail_scope mail_fields)

lemma mail_handler: "\<exists>out. run_handler (ge_files demo_env) ''send_email'' mail_args (\<lambda>_. None) =
   (Inr out, \<lambda>_. None)"
  by (simp add: run_handler_def get_tool_handler_def tool_handlers_def send_email_def mail_args_def
      dict_get_def arg_or_def slice_def Let_def)

lemma mail_valid:
  "valid_tool_request \<lparr>tool_name = ''send_email'', tool_args = mail_args, req_context = mail_ctx\<rparr>"
  by code_simp

lemma mail_gateway_sel [simp]:
  "gw_ledger mail_gateway = \<lparr>us_rows = [], us_up = True\<rparr>" "gw_files mail_gateway = (\<lambda>_. None)"
  "gw_releases mail_gateway = gw_releases demo_gateway"
  "gw_approvals mail_gateway = \<lparr>as_rows = [mail_row], as_up = True\<rparr>"
  by (simp_all add: mail_gateway_def mail_store_rows)

lemma mail_row_sel [simp]:
  "ar_id mail_row = ''APR-1''" "approval_id (ar_state mail_row) = ''APR-1''" "ar_status mail_row = Approved" "ar_args mail_row = mail_args"
  "ar_context mail_row = mail_ctx" "ap_tool_name (ar_state mail_row) = ''send_email''"
  "expires_at (ar_state mail_row) = 900" "masked_args (ar_state mail_row) = []"
  "request_hash (ar_state mail_row) = request_fingerprint (ge_fp demo_env) ''send_email'' mail_args mail_ctx"
  by (simp_all add: mail_row_def ar_id_def ar_status_def)

lemma mail_resumes:
  "\<exists>out s. resume_approved_tool_call demo_env ''APR-1'' mail_ticket 10 mail_gateway = (Inr out, s) \<and>
     oc_executed out"
proof -
  obtain res where h: "run_handler (ge_files demo_env) ''send_email'' mail_args (\<lambda>_. None) =
     (Inr res, \<lambda>_. None)" using mail_handler by blast
  have row: "find_approval ''APR-1'' \<lparr>as_rows = [mail_row], as_up = True\<rparr> = Some mail_row"
    by (simp add: find_approval_def table_simps)
  have got: "get ''APR-1'' 10 \<lparr>as_rows = [mail_row], as_up = True\<rparr> =
      (Inr (row_to_record mail_row), \<lparr>as_rows = [mail_row], as_up = True\<rparr>)"
    by (simp add: get_def row)
  obtain fin t where c: "consume (ge_fp demo_env) ''APR-1'' 10 \<lparr>as_rows = [mail_row], as_up = True\<rparr> = (Inr fin, t)"
    by (simp add: consume_def row reread_def update_approval_def find_approval_def table_simps
        row_update_def ar_id_def)
  have req: "\<lparr>tool_name = ap_tool_name (rec_state (row_to_record mail_row)),
      tool_args = execution_args (row_to_record mail_row), req_context = rec_context (row_to_record mail_row)\<rparr>
    = \<lparr>tool_name = ''send_email'', tool_args = mail_args, req_context = mail_ctx\<rparr>"
    "rec_args (row_to_record mail_row) = mail_args"
    by (simp_all add: row_to_record_def execution_args_def)
  show ?thesis
    by (simp add: resume_approved_tool_call_def Let_def op_bind_def op_try_def on_approvals_def op_on_def
        got req mail_valid guard_call_def mail_decision demo_emit resume_decided_def mk_decision_def
        spend_approval_def graph_call_op_def on_graph_def validate_def mail_fields
        authorize_call_def on_ledger_def authorize_def mail_authorized sql_consume_def c
        execute_simulator_def h op_return_def decided_outcome_def)
qed

end
