(* ===== verification/GuardProps.thy ===== *)
theory GuardProps
  imports Demo
begin

text \<open>
  The properties of the policy guard: containment of file calls, completeness of the deny
  list, the network whitelist, identity checks, and the flow of data labels; and, at the
  end, three inputs on which the guard is weaker than its policy reads.
\<close>

section \<open>Files\<close>

lemma released_file_config:
  "map_of tools_2_0_0 ''file_read'' = Some cfg \<Longrightarrow>
     cfg_allow_paths cfg = Some [''/data/public'', ''/data/approved'']"
  "map_of tools_2_0_0 ''file_write'' = Some cfg \<Longrightarrow> cfg_allow_paths cfg = Some [''/data/output'']"
  by (auto simp: tools_2_0_0_def)

definition file_areas :: "string \<Rightarrow> string list list" where
  "file_areas tool =
     (if tool = ''file_read'' then [[''data'', ''public''], [''data'', ''approved'']]
      else [[''data'', ''output'']])"

lemma released_areas:
  "posix_components ''data/public'' = [''data'', ''public'']"
  "posix_components ''data/approved'' = [''data'', ''approved'']"
  "posix_components ''data/output'' = [''data'', ''output'']"
  by code_simp+

text \<open>C9: Under the released policies a file call that is not blocked names an absolute path that
  resolves, \<open>..\<close> included, inside one of the granted areas: \<open>/data/public\<close> or
  \<open>/data/approved\<close> for reads, \<open>/data/output\<close> for writes.\<close>

theorem released_file_call_contained:
  assumes "check_tool_call policy_dir sha releases None req = Inr d" "decision d \<noteq> Block"
    and tool: "tool_name req \<in> {''file_read'', ''file_write''}"
  shows "startswith (str_arg (tool_args req) ''path'') ''/'' \<and>
    (\<exists>area \<in> set (file_areas (tool_name req)).
       prefix area (resolve (str_arg (tool_args req) ''path'')))"
proof -
  let ?p = "str_arg (tool_args req) ''path''"
  obtain pol where used: "policy_used policy_dir sha releases None req = Inr pol"
    and du: "decide_under pol req = Inr d" using check_tool_call_nonblock[OF assms(1,2)] by blast
  from du assms(2) show ?thesis
  proof (cases rule: decide_under_nonblock)
    case (1 cfg dd rr why hit)
    have cfg: "map_of tools_2_0_0 (tool_name req) = Some cfg"
      using 1(1) policy_used_released[OF used] by (simp add: list_or_def)
    have ct: "check_file (tool_name req) (tool_args req) cfg = Pending dd rr why hit"
      using 1(4) tool by (auto simp: check_tool_def is_file_tool_def)
    note f = check_file_pending[OF ct]
    have "under ?p (list_or (cfg_allow_paths cfg))"
      by (rule f(4)) (use cfg tool released_file_config[of cfg] in \<open>auto simp: list_or_def\<close>)
    from under_components[OF this] obtain q where
      q: "q \<in> set (list_or (cfg_allow_paths cfg))" "prefix (posix_components q) (resolve ?p)"
      by (auto simp: f(2))
    with tool cfg released_file_config[of cfg] f(1) show ?thesis
      by (auto simp: list_or_def file_areas_def released_areas)
  qed
qed

theorem released_file_call_contained_witness:
  "startswith (str_arg demo_args ''path'') ''/'' \<and>
     (\<exists>area \<in> set (file_areas ''file_write''). prefix area (resolve (str_arg demo_args ''path'')))"
  using released_file_call_contained[OF demo_decision] by (simp add: mk_decision_def)

text \<open>The deny list is complete: whatever the policy, a file call on an absolute path that
  resolves to or below a denied directory is blocked.\<close>

theorem denied_directory_blocked:
  assumes run: "check_tool_call dir sha releases snapshot req = Inr d"
    and pol: "policy_used dir sha releases snapshot req = Inr pol"
      "map_of (list_or (pol_tools pol)) (tool_name req) = Some cfg"
    and deny: "p \<in> set (list_or (cfg_deny_paths cfg))"
      "p = CHR ''/'' # join ''/'' (posix_components p)" "posix_components p \<noteq> []"
    and req: "is_file_tool (tool_name req)" "posix_root (str_arg (tool_args req) ''path'') = ''/''"
      "prefix (posix_components p) (resolve (str_arg (tool_args req) ''path''))"
  shows "decision d = Block"
proof (rule ccontr)
  assume nb: "decision d \<noteq> Block"
  then have "decide_under pol req = Inr d" using check_tool_call_nonblock[OF run] pol(1) by auto
  then show False using nb
  proof (cases rule: decide_under_nonblock)
    case (1 cfg' dd rr why hit)
    then have ct: "check_file (tool_name req) (tool_args req) cfg = Pending dd rr why hit"
      using pol(2) req(1) by (simp add: is_file_tool_check)
    note f = check_file_pending[OF ct]
    have "under (str_arg (tool_args req) ''path'') (list_or (cfg_deny_paths cfg))"
      by (rule under_complete[OF deny(1) req(2) deny(2) refl deny(3)]) (use req(3) f(2) in simp)
    with f(3) show False by simp
  qed
qed

definition secret_request :: tool_request where
  "secret_request = \<lparr>tool_name = ''file_read'',
     tool_args = [(''path'', PStr ''/data/secret/./keys.txt'')], req_context = demo_ctx\<rparr>"

theorem denied_directory_blocked_witness:
  "\<exists>d. check_tool_call policy_dir (\<lambda>s. s) empty_release (Some policy_2_0_0) secret_request = Inr d \<and>
     decision d = Block"
proof -
  have run: "check_tool_call policy_dir (\<lambda>s. s) empty_release (Some policy_2_0_0) secret_request =
      Inr (mk_decision Block Critical (Sensitive_Path ''/data/secret/./keys.txt'')
        ''tools.file_read.deny_paths'' ''2.0.0'')" by code_simp
  have "decision (mk_decision Block Critical (Sensitive_Path ''/data/secret/./keys.txt'')
        ''tools.file_read.deny_paths'' ''2.0.0'') = Block"
    by (rule denied_directory_blocked[OF run, of policy_2_0_0 "snd (hd tools_2_0_0)" "''/data/secret''"])
       (unfold policy_used_def option.case, code_simp+)
  with run show ?thesis by blast
qed

section \<open>Network\<close>

lemma released_net_config:
  "tool \<in> {''browser_visit'', ''api_call''} \<Longrightarrow> map_of tools_2_0_0 tool = Some cfg \<Longrightarrow>
     cfg_domain_whitelist cfg = Some [''gov.cn'', ''xiongan.gov.cn''] \<and>
     cfg_block_private_ip cfg = Some True"
  by (auto simp: tools_2_0_0_def)

text \<open>Under the released policies a network call that is not blocked goes over HTTP or HTTPS to a
  host whose last two labels are \<open>gov\<close> and \<open>cn\<close> and that is neither local nor a private address.\<close>

theorem released_net_call_whitelisted:
  assumes "check_tool_call policy_dir sha releases None req = Inr d" "decision d \<noteq> Block"
    and tool: "tool_name req \<in> {''browser_visit'', ''api_call''}"
  shows "\<exists>scheme host. urlparse (str_arg (tool_args req) ''url'') = Some (scheme, Some host) \<and>
     scheme \<in> {''http'', ''https''} \<and> \<not> host_is_private host \<and>
     suffix [''gov'', ''cn''] (domain_labels (rstrip_dot (casefold host)))"
proof -
  obtain pol where used: "policy_used policy_dir sha releases None req = Inr pol"
    and du: "decide_under pol req = Inr d" using check_tool_call_nonblock[OF assms(1,2)] by blast
  from du assms(2) show ?thesis
  proof (cases rule: decide_under_nonblock)
    case (1 cfg dd rr why hit)
    have cfg: "map_of tools_2_0_0 (tool_name req) = Some cfg"
      using 1(1) policy_used_released[OF used] by (simp add: list_or_def)
    have ct: "check_url (tool_name req) (tool_args req) cfg = Pending dd rr why hit"
      using 1(4) tool by (simp add: is_net_tool_check is_net_tool_def)
    note c = released_net_config[OF tool cfg]
    have lbl: "domain_labels ''gov.cn'' = [''gov'', ''cn'']"
      "domain_labels ''xiongan.gov.cn'' = [''xiongan'', ''gov'', ''cn'']" by code_simp+
    from ct show ?thesis
    proof (cases rule: check_url_pending)
      case (1 scheme host)
      from domain_allowed_labels[OF 1(5)] c lbl
      have "suffix [''gov'', ''cn''] (domain_labels (rstrip_dot (casefold host)))"
        by (auto simp: list_or_def dest: suffix_ConsD)
      with 1 c show ?thesis by auto
    qed
  qed
qed

definition portal_request :: tool_request where
  "portal_request = \<lparr>tool_name = ''browser_visit'',
     tool_args = [(''url'', PStr ''https://www.gov.cn/a'')], req_context = demo_ctx\<rparr>"

theorem released_net_call_whitelisted_witness:
  "\<exists>scheme host. urlparse ''https://www.gov.cn/a'' = Some (scheme, Some host) \<and>
     \<not> host_is_private host"
proof -
  have "check_tool_call policy_dir (\<lambda>s. s) (gw_releases demo_gateway) None portal_request =
      Inr (mk_decision Allow_With_Log Medium Whitelisted_Host ''tools.browser_visit.action'' ''2.0.0'')"
    by code_simp
  from released_net_call_whitelisted[OF this] show ?thesis
    by (auto simp: mk_decision_def portal_request_def str_arg_def dict_get_def py_str_def)
qed

section \<open>Identity, registration and pinned versions\<close>

text \<open>A decision other than \<open>Block\<close> means, under any policy: the tool has a non-empty entry, a pinned
  version is the one that decided, the caller's role and the agent's role may use the tool, and the
  agent acts in its user's tenant.\<close>

theorem nonblock_identity_and_registration:
  assumes "check_tool_call dir sha releases snapshot req = Inr d" "decision d \<noteq> Block"
  shows "\<exists>pol cfg. policy_used dir sha releases snapshot req = Inr pol \<and>
    map_of (list_or (pol_tools pol)) (tool_name req) = Some cfg \<and> cfg \<noteq> empty_config \<and>
    (set_field (ctx_policy_version (req_context req)) \<longrightarrow>
       ctx_policy_version (req_context req) = Some (policy_version d)) \<and>
    tool_name req \<notin> set (blocked_tools (role_overrides pol) (request_role (req_context req))) \<and>
    (\<forall>a. ctx_agent (req_context req) = Some a \<longrightarrow>
       tool_name req \<notin> set (blocked_tools (agent_role_overrides pol) (p_role a)) \<and>
       (\<forall>u. ctx_user (req_context req) = Some u \<longrightarrow> tenant_id u = tenant_id a))"
proof -
  obtain pol where used: "policy_used dir sha releases snapshot req = Inr pol"
    and du: "decide_under pol req = Inr d" using check_tool_call_nonblock[OF assms] by blast
  from du assms(2) show ?thesis
  proof (cases rule: decide_under_nonblock)
    case (1 cfg dd rr why hit)
    with used show ?thesis
      by (auto simp: identity_block_def Let_def split: if_splits option.splits)
  qed
qed

theorem nonblock_identity_and_registration_witness:
  "\<exists>pol cfg. policy_used policy_dir (\<lambda>s. s) (gw_releases demo_gateway) None demo_request = Inr pol \<and>
     map_of (list_or (pol_tools pol)) ''file_write'' = Some cfg \<and>
     ''file_write'' \<notin> set (blocked_tools (role_overrides pol) (request_role demo_ctx))"
  using nonblock_identity_and_registration[OF demo_decision] by (auto simp: mk_decision_def)

section \<open>Taint\<close>

lemma restricted_external_blocked:
  assumes lbl: "Restricted \<in> set (data_labels (req_context req)) \<or> Credential \<in> set (data_labels (req_context req))"
    and sink: "is_external_sink (tool_name req) (tool_args req) (req_context req)"
    and run: "check_tool_call dir sha releases snapshot req = Inr d"
  shows "decision d = Block"
proof (rule ccontr)
  assume nb: "decision d \<noteq> Block"
  from blocked_when_restricted[OF lbl sink] obtain v where
    v: "evaluate_taint_flow (tool_name req) (tool_args req) (req_context req) = Some v"
      "ov_decision v = Block" by blast
  obtain pol where "decide_under pol req = Inr d" using check_tool_call_nonblock[OF run nb] by blast
  from this nb show False by (cases rule: decide_under_nonblock) (use v nb in auto)
qed

text \<open>C8: Restricted data and credentials never leave: whatever the policy allows, a call to an external
  sink with such a label in its context is blocked, and so it is after any chain of tool calls whose
  inferred labels the agent carries along.\<close>

theorem restricted_data_never_leaves:
  assumes "Restricted \<in> set ls \<or> Credential \<in> set ls"
    and lbl: "data_labels (req_context req) = chain_labels calls ls"
    and sink: "is_external_sink (tool_name req) (tool_args req) (req_context req)"
    and run: "check_tool_call dir sha releases snapshot req = Inr d"
  shows "decision d = Block"
  by (rule restricted_external_blocked[OF _ sink run])
    (use assms(1) chain_labels_subset[of ls calls] in \<open>auto simp: lbl\<close>)

definition leak_request :: tool_request where
  "leak_request = \<lparr>tool_name = ''browser_visit'',
     tool_args = [(''url'', PStr ''https://www.gov.cn/a'')],
     req_context = demo_ctx\<lparr>data_labels := chain_labels [(''db_query'', [])] [Restricted]\<rparr>\<rparr>"

theorem restricted_data_never_leaves_witness:
  "\<exists>d. check_tool_call policy_dir (\<lambda>s. s) (gw_releases demo_gateway) None leak_request = Inr d \<and>
     decision d = Block"
proof -
  have run: "check_tool_call policy_dir (\<lambda>s. s) (gw_releases demo_gateway) None leak_request =
      Inr (mk_decision Block Critical (Taint_Flow (Label_Forbidden_Externally Restricted))
        ''data_flow.external_sink.block'' ''2.0.0'')" by code_simp
  moreover have "decision (mk_decision Block Critical (Taint_Flow (Label_Forbidden_Externally Restricted))
        ''data_flow.external_sink.block'' ''2.0.0'') = Block"
    by (rule restricted_data_never_leaves[OF _ _ _ run, of "[Restricted]" "[(''db_query'', [])]"])
       (simp_all add: leak_request_def is_external_sink_def)
  ultimately show ?thesis by blast
qed

text \<open>The released tool table decides an external email at least as strictly as an approval.\<close>

lemma released_pending_rank:
  assumes "map_of tools_2_0_0 tool = Some cfg" "check_tool tool args cfg = Pending dd rr why hit"
    "decision_of dd = Some x" "is_external_sink tool args ctx"
  shows "decision_rank x \<le> 3"
proof -
  have "tool = ''send_email'' \<or> tool = ''browser_visit'' \<or> tool = ''api_call''"
    using assms(4) by (auto simp: is_external_sink_def split: if_splits)
  then have "dd \<in> {''allow_with_log'', ''require_approval''}"
    using assms(1,2)
    by (auto simp: tools_2_0_0_def check_tool_def is_file_tool_def is_net_tool_def check_email_def
        str_or_def Let_def split: if_splits elim!: check_url_pending)
  with assms(3) show ?thesis by (auto simp: decision_of_def)
qed

definition with_labels :: "tool_request \<Rightarrow> data_label list \<Rightarrow> tool_request" where
  "with_labels req ls = req\<lparr>req_context := (req_context req)\<lparr>data_labels := ls\<rparr>\<rparr>"

lemma with_labels_sel [simp]:
  "tool_name (with_labels req ls) = tool_name req" "tool_args (with_labels req ls) = tool_args req"
  "req_context (with_labels req ls) = (req_context req)\<lparr>data_labels := ls\<rparr>"
  by (simp_all add: with_labels_def)

lemma select_version_labels [simp]:
  "select_version sha rel (ctx\<lparr>data_labels := ls\<rparr>) = select_version sha rel ctx"
proof -
  have "ctx_principal (ctx\<lparr>data_labels := ls\<rparr>) = ctx_principal ctx"
    by (cases "ctx_agent ctx"; cases "ctx_user ctx") (simp_all add: ctx_principal_def)
  then have "bucket_key (ctx\<lparr>data_labels := ls\<rparr>) = bucket_key ctx"
    by (simp add: bucket_key_def Let_def)
  then show ?thesis by (simp add: select_version_def canary_bucket_def Let_def)
qed

lemma policy_used_labels [simp]:
  "policy_used dir sha rel snap (with_labels req ls) = policy_used dir sha rel snap req"
  by (cases snap; cases "release_status dir rel") (simp_all add: policy_used_def select_policy_def)

lemma request_role_labels [simp]: "request_role (ctx\<lparr>data_labels := ls\<rparr>) = request_role ctx"
  by (simp add: request_role_def cong: option.case_cong)

lemma identity_block_labels [simp]:
  "identity_block pol tool (ctx\<lparr>data_labels := ls\<rparr>) = identity_block pol tool ctx"
  by (cases "ctx_agent ctx"; cases "ctx_user ctx") (simp_all add: identity_block_def Let_def)

text \<open>Under the released policies data labels only ever make a decision stricter: adding labels to a
  request never lowers the rank of its decision.\<close>

theorem released_labels_monotone:
  assumes d: "check_tool_call policy_dir sha releases None (with_labels req ls) = Inr d"
    and e: "check_tool_call policy_dir sha releases None (with_labels req ms) = Inr e"
    and sub: "set ls \<subseteq> set ms"
  shows "decision d \<le> decision e"
proof (cases "decision e = Block")
  case True
  then show ?thesis by (cases "decision d") (simp_all add: less_eq_decision_def)
next
  case False
  obtain pol where used: "policy_used policy_dir sha releases None req = Inr pol"
    and du: "decide_under pol (with_labels req ms) = Inr e"
    using check_tool_call_nonblock[OF e False] by auto
  let ?tool = "tool_name req" and ?args = "tool_args req" and ?ctx = "req_context req"
  from du False show ?thesis
  proof (cases rule: decide_under_nonblock)
    case (1 cfg dd rr why hit)
    have cfg: "map_of tools_2_0_0 ?tool = Some cfg"
      using 1(1) policy_used_released[OF used] by (simp add: list_or_def)
    have dud: "decide_under pol (with_labels req ls) = Inr d"
      using d used by (auto simp: check_tool_call_def policy_used_def select_policy_def split: if_splits sum.splits)
    have res: "(case evaluate_taint_flow ?tool ?args (?ctx\<lparr>data_labels := ls\<rparr>) of
         Some ov \<Rightarrow> Inr (mk_decision (ov_decision ov) (ov_risk_level ov)
                    (Taint_Flow (ov_reason ov)) (ov_policy_hit ov) (policy_version e))
       | None \<Rightarrow> decision_record dd rr why hit (policy_version e)) = Inr d"
      using dud 1 by (auto simp: decide_under_def Let_def split: if_splits option.splits)
    let ?l = "evaluate_taint_flow ?tool ?args (?ctx\<lparr>data_labels := ls\<rparr>)"
    let ?m = "evaluate_taint_flow ?tool ?args (?ctx\<lparr>data_labels := ms\<rparr>)"
    have rank: "override_rank ?l \<le> override_rank ?m"
      using sink_rank_mono[OF highest_label_mono[OF sub]] by (simp add: override_rank_eq)
    have m3: "?m = None \<or> 3 \<le> override_rank ?m \<and> is_external_sink ?tool ?args ?ctx"
      by (auto simp: evaluate_taint_flow_def override_rank_def Let_def)
    have some: "override_rank (Some v) = decision_rank (ov_decision v)" "override_rank None = 0" for v
      by (simp_all add: override_rank_def)
    have l_none: "?m = None \<Longrightarrow> ?l = None \<or> override_rank ?l = 0" using rank some by auto
    have l_pos: "?l = None \<or> 3 \<le> override_rank ?l"
      by (auto simp: evaluate_taint_flow_def override_rank_def Let_def)
    show ?thesis
    proof (cases ?m)
      case None
      with l_none l_pos have "?l = None" by auto
      with None res 1 show ?thesis
        by (auto simp: decision_record_def mk_decision_def split: option.splits)
    next
      case (Some v)
      then have ve: "decision e = ov_decision v" and sink: "is_external_sink ?tool ?args ?ctx"
        using 1 m3 by auto
      show ?thesis
      proof (cases ?l)
        case None
        with res obtain x where x: "decision_of dd = Some x" "decision d = x"
          by (auto simp: decision_record_def mk_decision_def split: option.splits)
        have "decision_rank x \<le> 3" by (rule released_pending_rank[OF cfg _ x(1) sink]) (use 1(4) in simp)
        with x ve m3 Some some show ?thesis by (simp add: less_eq_decision_def)
      next
        case (Some w)
        with res have "decision d = ov_decision w" by (auto simp: mk_decision_def)
        with ve rank \<open>?m = Some v\<close> Some some show ?thesis by (simp add: less_eq_decision_def)
      qed
    qed
  qed
qed

definition mail_request :: tool_request where
  "mail_request = \<lparr>tool_name = ''send_email'', tool_args = [(''to'', PStr ''a@x.com'')],
     req_context = demo_ctx\<rparr>"

lemma mail_decisions:
  "check_tool_call policy_dir (\<lambda>s. s) (gw_releases demo_gateway) None (with_labels mail_request []) =
     Inr (mk_decision Require_Approval High External_Recipient ''tools.send_email.external_domain_action''
       ''2.0.0'')"
  "check_tool_call policy_dir (\<lambda>s. s) (gw_releases demo_gateway) None (with_labels mail_request [Internal]) =
     Inr (mk_decision Require_Approval Medium (Taint_Flow Internal_Needs_Approval)
       ''data_flow.external_sink.require_approval'' ''2.0.0'')"
  by code_simp+

theorem released_labels_monotone_witness: "Require_Approval \<le> Require_Approval"
  using released_labels_monotone[OF mail_decisions] by (simp add: mk_decision_def)

section \<open>What the guard does not guarantee\<close>

text \<open>
  The taint override replaces the policy's verdict instead of joining with it: marking a
  mail \<open>Internal\<close> lowers its reported risk from high to medium, and under a policy that
  blocks external mail a label turns the block into an approval.
\<close>

definition strict_mail_policy :: policy where
  "strict_mail_policy = policy_2_0_0\<lparr>pol_tools := Some
     [(''send_email'', empty_config\<lparr>cfg_external_action := Some ''block''\<rparr>)]\<rparr>"

lemma taint_override_weakens:
  "map_sum id decision (check_tool_call policy_dir (\<lambda>s. s) empty_release (Some strict_mail_policy)
     (with_labels mail_request [])) = Inr Block"
  "map_sum id decision (check_tool_call policy_dir (\<lambda>s. s) empty_release (Some strict_mail_policy)
     (with_labels mail_request [Confidential])) = Inr Require_Approval"
  by code_simp+

text \<open>
  \<open>PurePosixPath\<close> keeps exactly two leading slashes, so \<open>//etc/passwd\<close> is under no
  denied directory: a policy that only lists \<open>deny_paths\<close> lets it through.
\<close>

definition deny_only_policy :: policy where
  "deny_only_policy = policy_2_0_0\<lparr>pol_tools := Some
     [(''file_read'', empty_config\<lparr>cfg_deny_paths := Some [''/etc''],
         cfg_action := Some ''allow''\<rparr>)]\<rparr>"

lemma double_slash_bypasses_deny:
  "map_sum id decision (check_tool_call policy_dir (\<lambda>s. s) empty_release (Some deny_only_policy)
     \<lparr>tool_name = ''file_read'', tool_args = [(''path'', PStr ''//etc/passwd'')],
      req_context = demo_ctx\<rparr>) = Inr Allow"
  by code_simp

text \<open>The SQL filter looks for keywords followed by a space, so a tab hides them.\<close>

lemma sql_filter_tab:
  "map_sum id decision (check_tool_call policy_dir (\<lambda>s. s) (gw_releases demo_gateway) None
     \<lparr>tool_name = ''db_query'',
      tool_args = [(''sql'', PStr (''select 1; drop'' @ [CHR 0x09] @ ''table t''))],
      req_context = demo_ctx\<rparr>) = Inr Allow_With_Log"
  by code_simp

end
