(* ===== verification/GatewayProps.thy ===== *)
theory GatewayProps
  imports Demo
begin

text \<open>
  The properties of the gateway runtime and of what it spends: capability tickets, planned
  steps, approvals and policy releases.
\<close>

lemma execute_simulator_log:
  assumes "execute_simulator env req rid aid base s = (r, s')"
  shows "set (gw_audit s) \<subseteq> set (gw_audit s')"
  using assms
  by (auto simp: execute_simulator_def Let_def op_bind_def emit_def op_return_def
      split: prod.splits sum.splits if_splits)


section \<open>The guarded call\<close>

text \<open>C1: A tool runs only after everything has been checked: whenever \<open>guarded_tool_call\<close> reports an
  execution, the current policy decided neither \<open>Block\<close> nor \<open>Require_Approval\<close>, the ticket authorised
  this tool, these arguments, this subject and this policy version, one use of the ticket and one use
  of the planned step were consumed, the outcome carries the labels inferred for its result, and the
  audit log gained exactly the request, the decision, the consumption and the result, in this order.\<close>

theorem executed_call_authorised:
  assumes "guarded_tool_call env req rid aid now s = (Inr out, s')" "oc_executed out"
  shows "call_authorised env req rid now s out s'"
  using assms by (rule guarded_executedD)

theorem executed_call_authorised_witness:
  "\<exists>out s'. call_authorised demo_env demo_request ''REQ-1'' 10 demo_gateway out s'"
  using demo_runs executed_call_authorised by metis

text \<open>C4: Files change only under authority, even when the call ends in an exception: if the file store
  differs after \<open>guarded_tool_call\<close>, the tool was \<open>file_write\<close>, the policy allowed it, its ticket was
  granted and the capability consumption is in the log, and the change is one file of at most
  100000 characters inside the resolved data root, below an \<open>output\<close> directory.\<close>

theorem files_change_only_under_authority:
  assumes run: "guarded_tool_call env req rid aid now s = (r, s')" and ch: "gw_files s' \<noteq> gw_files s"
  shows "tool_name req = ''file_write'' \<and>
    (\<exists>d g. check_tool_call (ge_policies env) (ge_sha env) (gw_releases s) None req = Inr d \<and>
       decision d \<notin> {Block, Require_Approval} \<and>
       authorize_grant (ge_cap env) (ge_service env) (the (capability_ticket (req_context req)))
         (tool_name req) (tool_args req) (req_context req) (policy_version d) now = Inr g \<and>
       Capability_Consumed rid (ticket_id g) (max_uses g) \<in> set (map snd (gw_audit s'))) \<and>
    (\<exists>target content. gw_files s' = (gw_files s)(target \<mapsto> content) \<and> length content \<le> 100000 \<and>
       prefix (fe_real (ge_files env) (fe_root (ge_files env))) target \<and>
       ''output'' \<in> set (drop (length (fe_root (ge_files env))) target))"
proof -
  obtain d g s1 u where
    d: "check_tool_call (ge_policies env) (ge_sha env) (gw_releases s) None req = Inr d"
      "decision d \<notin> {Block, Require_Approval}"
    and s1: "gw_files s1 = gw_files s"
    and g: "spend_capability env req (the (trace_id (req_context req))) rid d now s1 = (Inr g, u)"
    and x: "execute_simulator env req rid None (decided_outcome rid (tool_name req) d []) u = (r, s')"
    using guarded_files[OF run ch] by metis
  note sp = spend_capability_InrD[OF g]
  obtain q where "run_handler (ge_files env) (tool_name req) (tool_args req) (gw_files s) = (q, gw_files s')"
    using execute_simulator_files[OF x] sp(8) s1 by auto
  note h = run_handler_files[OF this ch]
  have "set (gw_audit u) \<subseteq> set (gw_audit s')" by (rule execute_simulator_log[OF x])
  with d sp(2,5) h show ?thesis by force
qed

theorem files_change_only_under_authority_witness:
  "\<exists>d. check_tool_call policy_dir (\<lambda>s. s) (gw_releases demo_gateway) None demo_request = Inr d \<and>
     decision d \<notin> {Block, Require_Approval}"
proof -
  obtain out s where "guarded_tool_call demo_env demo_request ''REQ-1'' ''APR-1'' 10 demo_gateway = (Inr out, s)"
    "gw_files s \<noteq> gw_files demo_gateway" using demo_runs by blast
  from files_change_only_under_authority[OF this] show ?thesis by auto
qed

text \<open>A blocked call is inert: it leaves releases, ledger, task graph, approvals and files as they
  were and only appends to the audit log.\<close>

theorem blocked_call_inert:
  assumes "check_tool_call (ge_policies env) (ge_sha env) (gw_releases s) None req = Inr d"
    "decision d = Block" "guarded_tool_call env req rid aid now s = (r, s')"
  shows "\<exists>log. s' = s\<lparr>gw_audit := gw_audit s @ log\<rparr>"
  using assms by (rule guarded_blocked)

definition shell_request :: tool_request where
  "shell_request = \<lparr>tool_name = ''shell_exec'', tool_args = [(''command'', PStr ''id'')],
     req_context = demo_ctx\<rparr>"

lemma shell_decision:
  "check_tool_call policy_dir (\<lambda>s. s) (gw_releases demo_gateway) None shell_request =
     Inr (mk_decision Block Critical Request_Conforms ''tools.shell_exec.action'' ''2.0.0'')"
  by code_simp

theorem blocked_call_inert_witness:
  "\<exists>log. snd (guarded_tool_call demo_env shell_request ''REQ-2'' ''APR-2'' 10 demo_gateway) =
     demo_gateway\<lparr>gw_audit := gw_audit demo_gateway @ log\<rparr>"
proof -
  obtain r s' where run: "guarded_tool_call demo_env shell_request ''REQ-2'' ''APR-2'' 10 demo_gateway = (r, s')"
    by fastforce
  have "\<exists>log. s' = demo_gateway\<lparr>gw_audit := gw_audit demo_gateway @ log\<rparr>"
    by (rule blocked_call_inert[OF _ _ run]) (simp_all add: shell_decision, simp add: mk_decision_def)
  with run show ?thesis by simp
qed

section \<open>Resumed calls\<close>



section \<open>Approvals\<close>

text \<open>C6: No run of the approval store, in whatever order its operations interleave, grants the
  consumption of one approval more than once.\<close>

theorem approval_consumed_at_most_once:
  assumes "approvals_run fp cs st = (rs, st')"
  shows "consumptions aid cs rs \<le> 1"
  using assms by (rule consumptions_le_1)

theorem approval_consumed_at_most_once_witness:
  "\<exists>rs st'. approvals_run (ge_fp demo_env) [Call_Consume ''APR-1'' 10, Call_Consume ''APR-1'' 11] mail_store =
     (rs, st') \<and> consumptions ''APR-1'' [Call_Consume ''APR-1'' 10, Call_Consume ''APR-1'' 11] rs \<le> 1"
  by (metis approval_consumed_at_most_once surj_pair)

text \<open>Approvals only move forward and never change what was asked: after any run every stored
  approval is still there, its status has moved along the state machine
  \<open>requested -> approved | masked -> consumed\<close>, with \<open>denied\<close>, \<open>expired\<close> and \<open>revoked\<close> as
  final exits, and its tool, arguments, context, digest, keys and deadlines are the ones it was
  created with.\<close>

theorem approvals_move_forward:
  assumes "approvals_run fp cs st = (rs, st')" "find_approval aid st = Some r"
  shows "\<exists>r'. find_approval aid st' = Some r' \<and> approval_trans\<^sup>*\<^sup>* (ar_status r) (ar_status r') \<and>
     intent r' = intent r \<and> (ar_status r' \<noteq> ar_status r \<longrightarrow>
       approval_rank (ar_status r) < approval_rank (ar_status r'))"
proof -
  obtain r' where r': "find_approval aid st' = Some r'"
    "approval_trans\<^sup>*\<^sup>* (ar_status r) (ar_status r')" "intent r' = intent r"
    using evolvesD[OF approvals_run_evolves[OF assms(1)]] assms(2)
    by (auto simp: find_approval_def)
  moreover have "ar_status r' \<noteq> ar_status r \<longrightarrow>
      approval_rank (ar_status r) < approval_rank (ar_status r')"
    using rtranclpD[OF r'(2)] approvals.reach_strict by auto
  ultimately show ?thesis by blast
qed

theorem approvals_move_forward_witness:
  "\<exists>r'. find_approval ''APR-1'' (snd (approvals_run (ge_fp demo_env) [Call_Consume ''APR-1'' 10] mail_store)) =
     Some r' \<and> intent r' = intent mail_row"
proof -
  obtain rs st' where run: "approvals_run (ge_fp demo_env) [Call_Consume ''APR-1'' 10] mail_store = (rs, st')"
    by fastforce
  have "find_approval ''APR-1'' mail_store = Some mail_row"
    by (simp add: mail_store_rows find_approval_def table_simps)
  from approvals_move_forward[OF run this] run show ?thesis by auto
qed

text \<open>The approval table stays well formed under every operation: identifiers, idempotency keys,
  request keys and decision keys are unique; decided rows record who decided and when, before the
  deadline; consumed rows were decided and consumed in time; masked approvals carry masked arguments;
  and every stored digest is the digest of the stored snapshot.\<close>

theorem approval_table_well_formed:
  assumes "approvals_run fp cs empty_approvals = (rs, st')"
  shows "approvals_wf fp st'"
  by (rule approvals_run_wf[OF empty_approvals_wf assms])

theorem approval_table_well_formed_witness:
  "approvals_wf (ge_fp demo_env) (snd (approvals_run (ge_fp demo_env)
     [Call_Create ''APR-1'' ''T'' ''REQ-1'' ''send_email'' mail_args mail_ctx ''idem'' 900 0,
      Call_Revoke ''APR-1'' ''boss'' 3] empty_approvals))"
  by (rule approval_table_well_formed) (rule prod.collapse[symmetric])

section \<open>Capability tickets\<close>

text \<open>C11: A ticket the service issues is accepted again: \<open>inspect\<close> of an issued ticket returns the
  issued grant, through the Base64 encoding, the signature and the payload, for every MAC, provided
  the payload parses back to the grant; its lifetime is the requested one, within an hour.\<close>

theorem issued_ticket_inspects:
  assumes "issue env svc sub tenant trace scope version task ttl uses now tid rnd = Inr (g, ticket)"
    and "load env (dump env g) = Some g"
  shows "inspect env svc ticket = Inr g \<and> max_uses g = uses \<and> gr_scope g = scope \<and>
     gr_expires_at g = now + ttl \<and> 1 \<le> ttl \<and> ttl \<le> 3600"
  using assms inspect_sign_ticket[of env g svc]
  by (auto simp: issue_def Let_def split: if_splits)

definition issue_env :: "capability_grant \<Rightarrow> cap_env" where
  "issue_env g = \<lparr>mac = (\<lambda>k p. take 4 k), dump = ticket_id, load = (\<lambda>_. Some g)\<rparr>"

definition issued_grant :: capability_grant where
  "issued_grant = demo_grant\<lparr>ticket_id := ''CAP-7'', nonce := ''0123456789abcdef''\<rparr>"

theorem issued_ticket_inspects_witness:
  "inspect (issue_env issued_grant) demo_service (sign_ticket (issue_env issued_grant) demo_service issued_grant)
     = Inr issued_grant"
proof -
  have "valid_grant issued_grant" by code_simp
  moreover have g: "issued_grant = \<lparr>ticket_id = ''CAP-7'', issuer = ''gov'', subject_id = ''u1'',
      gr_tenant_id = ''t1'', gr_trace_id = ''T'', gr_task_id = None, gr_scope = gr_scope demo_grant,
      issued_at = 0, gr_expires_at = 300, max_uses = 1, gr_policy_version = ''2.0.0'',
      nonce = ''0123456789abcdef''\<rparr>"
    by (simp add: issued_grant_def demo_grant_def)
  ultimately have "issue (issue_env issued_grant) demo_service ''u1'' ''t1'' ''T'' (gr_scope demo_grant) ''2.0.0''
      None 300 1 0 ''7'' ''0123456789abcdef'' =
    Inr (issued_grant, sign_ticket (issue_env issued_grant) demo_service issued_grant)"
    by (simp add: issue_def Let_def demo_service_def)
  from issued_ticket_inspects[OF this] show ?thesis by (simp add: issue_env_def)
qed

text \<open>Authorisation is sound: an authorised call carries a ticket that shows the service's own MAC of
  its payload, is not expired, is bound to this subject, tenant, trace, task and policy version, and
  whose scope names this tool, these exact argument values, and covers every data scope and label of
  the context.\<close>

theorem authorized_call_in_scope:
  assumes "authorize env svc ledger ticket tool args ctx version consuming now s = (Inr g, s')"
  shows "(\<exists>a b payload. partition_on CHR ''.'' ticket = (a, True, b) \<and>
      b64decode_lenient a = Some payload \<and>
      b64decode_lenient b = Some (mac env (secret svc) payload) \<and> load env payload = Some g) \<and>
    now < gr_expires_at g \<and> subject ctx = Inr (subject_id g, gr_tenant_id g) \<and>
    trace_id ctx = Some (gr_trace_id g) \<and> task_id ctx = gr_task_id g \<and> gr_policy_version g = version \<and>
    sc_tool_name (gr_scope g) = tool \<and>
    (\<forall>(name, v) \<in> set (exact_args (gr_scope g)). py_eq (get_or_none args name) v) \<and>
    set (data_scopes ctx) \<subseteq> set (sc_data_scopes (gr_scope g)) \<and>
    set (data_labels ctx) \<subseteq> set (allowed_data_labels (gr_scope g))"
  using inspect_InrD[OF authorize_grantD(1)[OF authorize_InrD(1)[OF assms]]]
    authorize_grantD[OF authorize_InrD(1)[OF assms]]
    check_scope_NoneD[OF authorize_grantD(7)[OF authorize_InrD(1)[OF assms]]]
  by auto

theorem authorized_call_in_scope_witness:
  "\<exists>payload. load demo_cap payload = Some demo_grant \<and> sc_tool_name (gr_scope demo_grant) = ''file_write''"
proof -
  have "authorize demo_cap demo_service mem_consume (sign_ticket demo_cap demo_service demo_grant)
      ''file_write'' demo_args demo_ctx ''2.0.0'' False 10 (\<lambda>_. None) = (Inr demo_grant, \<lambda>_. None)"
    by (simp add: authorize_def demo_authorized)
  from authorized_call_in_scope[OF this] show ?thesis by blast
qed

text \<open>C10: The durable ledger grants exactly what a ticket is worth: over any interleaving of consumptions
  that name the same maximum for the ticket, the number granted is the smaller of the number requested
  and the uses that were left.\<close>

theorem ledger_grants_exactly:
  assumes "consume_all sql_consume reqs s = (rs, s')" "same_max t m reqs" "sql_uses s t \<le> m"
    "sql_fits s t m"
  shows "int (granted t reqs rs) = min (int (requested t reqs)) (m - sql_uses s t)"
  using sql_ledger.exactly_min[OF TrueI assms] .

theorem ledger_grants_exactly_witness:
  "granted ''CAP-1'' [(''CAP-1'', 1, 9), (''CAP-2'', 2, 9), (''CAP-1'', 1, 9)]
     (fst (consume_all sql_consume [(''CAP-1'', 1, 9), (''CAP-2'', 2, 9), (''CAP-1'', 1, 9)]
        \<lparr>us_rows = [], us_up = True\<rparr>)) = 1"
proof -
  let ?reqs = "[(''CAP-1'', 1, 9), (''CAP-2'', 2, 9), (''CAP-1'', 1, 9)] :: (string \<times> int \<times> int) list"
  obtain rs s' where run: "consume_all sql_consume ?reqs \<lparr>us_rows = [], us_up = True\<rparr> = (rs, s')"
    by fastforce
  have "int (granted ''CAP-1'' ?reqs rs) = min (int (requested ''CAP-1'' ?reqs))
      (1 - sql_uses \<lparr>us_rows = [], us_up = True\<rparr> ''CAP-1'')"
    by (rule ledger_grants_exactly[OF run]) (simp_all add: same_max_def sql_uses_def sql_fits_def)
  with run show ?thesis by (simp add: sql_uses_def)
qed

section \<open>Task graphs\<close>

text \<open>A run of the task-graph guard follows the plan: every consumed step is a step of the declared
  graph with this tool and these arguments' fingerprint, each of its predecessors was consumed by an
  earlier call of the same task and plan, and the step has been consumed fewer times than its maximum.\<close>

theorem consumed_steps_follow_plan:
  assumes run: "graph_run sha cs empty_graph_store = (rs, st')" and i: "i < length cs"
    and ok: "is_ok (rs ! i)" and g: "ctx_task_graph (gc_ctx (cs ! i)) = Some g"
  shows "\<exists>step \<in> set (steps g). step_index step = task_step (gc_ctx (cs ! i)) \<and>
    step_tool step = gc_tool (cs ! i) \<and> args_hash step = tool_args_fingerprint sha (gc_args (cs ! i)) \<and>
    (\<forall>p \<in> set (predecessors step). \<exists>j < i. is_ok (rs ! j) \<and>
       call_key (cs ! j) = Some (ctx_key (gc_ctx (cs ! i)) p)) \<and>
    int (consumed (take i cs) (take i rs) (ctx_key (gc_ctx (cs ! i)) (step_index step))) < max_calls step"
proof -
  let ?c = "cs ! i"
  obtain u v where u: "graph_run sha (take i cs) empty_graph_store = (take i rs, u)"
    and v: "validate sha (gc_ctx ?c) (gc_tool ?c) (gc_args ?c) (gc_consume ?c) u = (rs ! i, v)"
    by (rule graph_run_at[OF run i])
  obtain x where "rs ! i = Inr x" using ok by (auto simp: is_ok_iff)
  then have v': "validate sha (gc_ctx ?c) (gc_tool ?c) (gc_args ?c) (gc_consume ?c) u = (Inr (), v)"
    using v by simp
  note val = validate_InrD[OF v' g]
  have uses: "step_uses u k = int (consumed (take i cs) (take i rs) k)" for k
    using graph_run_counts[OF u] by (simp add: step_uses_def empty_graph_store_def)
  have len: "length (take i rs) = length (take i cs)" using graph_run_length[OF u] .
  have pred: "\<exists>j < i. is_ok (rs ! j) \<and> call_key (cs ! j) = Some (ctx_key (gc_ctx ?c) p)"
    if "p \<in> set (predecessors (ctx_step (gc_ctx ?c)))" for p
    using consumed_pos[of "take i cs" "take i rs" "ctx_key (gc_ctx ?c) p"] val(5)[OF that] uses len i
    by (auto simp: min_def split: if_splits)
  have "int (consumed (take i cs) (take i rs) (ctx_key (gc_ctx ?c) (step_index (ctx_step (gc_ctx ?c)))))
      < max_calls (ctx_step (gc_ctx ?c))"
    using val(6) uses by (simp add: val(2))
  with val(1-4) pred show ?thesis by blast
qed

definition plan_graph :: task_graph where
  "plan_graph = \<lparr>plan_id = ''P'', steps =
     [\<lparr>step_index = 1, step_tool = ''file_read'', args_hash = ''{}'', predecessors = [], max_calls = 1\<rparr>,
      \<lparr>step_index = 2, step_tool = ''send_email'', args_hash = ''{}'', predecessors = [1], max_calls = 1\<rparr>]\<rparr>"

definition plan_call :: "int \<Rightarrow> string \<Rightarrow> graph_call" where
  "plan_call i tool = \<lparr>gc_ctx = context_default\<lparr>trace_id := Some ''T'', task_id := Some ''K'',
     task_step := i, ctx_task_graph := Some plan_graph\<rparr>, gc_tool = tool, gc_args = [], gc_consume = True\<rparr>"

lemma plan_run:
  "map is_ok (fst (graph_run (\<lambda>s. s)
     [plan_call 2 ''send_email'', plan_call 1 ''file_read'', plan_call 2 ''send_email'', plan_call 2 ''send_email'']
     empty_graph_store)) = [False, True, True, False]"
  by code_simp

theorem consumed_steps_follow_plan_witness:
  "\<exists>step \<in> set (steps plan_graph). step_index step = 2 \<and> step_tool step = ''send_email''"
proof -
  let ?cs = "[plan_call 2 ''send_email'', plan_call 1 ''file_read'', plan_call 2 ''send_email'',
    plan_call 2 ''send_email'']"
  obtain rs st' where run: "graph_run (\<lambda>s. s) ?cs empty_graph_store = (rs, st')" by fastforce
  have oks: "map is_ok rs = [False, True, True, False]" using plan_run unfolding run by simp
  have len: "length rs = 4" using graph_run_length[OF run] by simp
  have "is_ok (rs ! 2)" using arg_cong[OF oks, of "\<lambda>xs. xs ! 2"] len by simp
  from consumed_steps_follow_plan[OF run _ this, of plan_graph] show ?thesis
    by (auto simp: plan_call_def)
qed

text \<open>Fingerprints do not depend on the order in which the arguments are listed: permuting the keys
  of a dictionary changes neither the task-graph fingerprint nor the digest an approval is bound to.\<close>

theorem fingerprints_ignore_key_order:
  assumes "mset args = mset args'" "distinct (map fst args)"
  shows "tool_args_fingerprint sha args = tool_args_fingerprint sha args' \<and>
    request_fingerprint fp tool args ctx = request_fingerprint fp tool args' ctx"
  using json_dumps_key_order[OF assms] by (simp add: tool_args_fingerprint_def request_fingerprint_def)

theorem fingerprints_ignore_key_order_witness:
  "tool_args_fingerprint (\<lambda>s. s) [(''a'', PNone), (''b'', PNone)] =
     tool_args_fingerprint (\<lambda>s. s) [(''b'', PNone), (''a'', PNone)]"
  by (rule fingerprints_ignore_key_order[THEN conjunct1]) simp_all

section \<open>Policy releases\<close>

text \<open>The release table stays well formed: from its bootstrap row, any sequence of canary
  configurations, promotions and rollbacks, refused ones included, leaves a row whose versions all load,
  whose canary differs from the stable version and has a rollout between 1 and 100, and a history that
  links every generation back to the first without a gap.\<close>

theorem release_table_well_formed:
  assumes "init_release dir now empty_release = (Inr (), st)"
  shows "release_wf dir (release_run dir cmds st)"
proof -
  have "loads dir default_stable_version"
    using assms by (auto simp: init_release_def loads_def split: sum.splits)
  from init_release_wf[OF this, of now] assms have "release_wf dir st" by auto
  then show ?thesis by (rule release_run_wf)
qed

theorem release_table_well_formed_witness:
  "release_wf policy_dir (release_run policy_dir
     [(1, Configure_Canary ''2.1.0'' 10 ''ops''), (2, Promote ''ops''), (3, Rollback ''ops'')]
     (snd (init_release policy_dir 0 empty_release)))"
  by (rule release_table_well_formed[of policy_dir 0])
     (simp add: init_release_def default_stable_version_def load_2_0_0 empty_release_def)

lemma releases_after:
  assumes "release_wf dir st" "release_mutate dir now action who mut st = (Inr new, st')"
  obtains row v where "rel_row st = Some row" "row_wf dir row" "mut row = Inr v" "rel_row st' = Some new"
    "new = row\<lparr>stable_version := new_stable v, canary_version := new_canary v,
       rollout_percent := new_rollout v, previous_stable_version := new_previous v,
       generation := generation row + 1, updated_at := now, updated_by := who\<rparr>"
  using assms(2)
proof (cases rule: release_mutate_cases)
  case (committed row v new')
  then show thesis using that[of row v] assms(1) by (auto simp: release_wf_def)
qed simp

text \<open>A rollback undoes a promotion: after \<open>promote\<close> succeeds on a well-formed table, \<open>rollback\<close> by any
  named actor succeeds, restores the version that was stable before, and leaves no canary; the promoted
  version becomes the one a further rollback returns to.\<close>

theorem rollback_undoes_promote:
  assumes wf: "release_wf dir st" and row: "rel_row st = Some row"
    and prom: "promote dir now who st = (Inr promoted, st')"
    and who: "who' \<noteq> []" "length who' \<le> 160"
  shows "canary_version row = Some (stable_version promoted) \<and>
    (\<exists>back. fst (rollback dir now' who' st') = Inr back \<and> stable_version back = stable_version row \<and>
       canary_version back = None \<and> rollout_percent back = 0 \<and>
       previous_stable_version back = canary_version row \<and> generation back = generation row + 2)"
proof -
  obtain v where p: "row_wf dir row" "rel_row st' = Some promoted"
    and canary: "canary_version row = Some (stable_version promoted)"
    and vals: "promoted = row\<lparr>stable_version := stable_version promoted, canary_version := None,
       rollout_percent := 0, previous_stable_version := Some (stable_version row),
       generation := generation row + 1, updated_at := now, updated_by := who\<rparr>"
    by (rule releases_after[OF wf prom[unfolded promote_def]])
       (use row in \<open>auto split: option.splits if_splits\<close>)
  have wf': "row_wf dir promoted"
    using promote_wf[OF prom wf] p(2) by (simp add: release_wf_def)
  have loads: "loads dir (stable_version row)" using p(1) by (simp add: row_wf_def)
  then obtain pol where pol: "load_policy_version dir (stable_version row) = Inr pol"
    by (auto simp: loads_def is_ok_iff)
  obtain pol' where pol': "load_policy_version dir (stable_version promoted) = Inr pol'"
    using wf' by (auto simp: row_wf_def loads_def is_ok_iff)
  have "previous_stable_version promoted = Some (stable_version row)" "canary_version promoted = None"
    "generation promoted = generation row + 1" by (subst vals, simp)+
  then show ?thesis
    using canary who p(2) pol pol' loads_nonempty[OF loads]
    by (simp add: rollback_def release_mutate_def release_record_def Let_def)
qed

definition canary_store :: release_store where
  "canary_store = snd (configure_canary policy_dir 1 ''2.1.0'' 10 ''ops''
     (snd (init_release policy_dir 0 empty_release)))"

definition canary_row :: release_row where
  "canary_row = \<lparr>stable_version = ''2.0.0'', canary_version = Some ''2.1.0'', rollout_percent = 10,
     previous_stable_version = None, generation = 2, updated_at = 1, updated_by = ''ops''\<rparr>"

lemma canary_store_row: "rel_row canary_store = Some canary_row"
  by code_simp

lemma canary_store_wf: "release_wf policy_dir canary_store"
  using release_run_wf[of policy_dir "snd (init_release policy_dir 0 empty_release)"
      "[(1, Configure_Canary ''2.1.0'' 10 ''ops'')]"] init_release_wf[of policy_dir 0]
  by (auto simp: release_run_def canary_store_def loads_def default_stable_version_def load_2_0_0)

theorem rollback_undoes_promote_witness:
  "\<exists>back. fst (rollback policy_dir 3 ''ops'' (snd (promote policy_dir 2 ''ops'' canary_store))) = Inr back \<and>
     stable_version back = ''2.0.0''"
proof -
  have "is_ok (fst (promote policy_dir 2 ''ops'' canary_store))" by code_simp
  then obtain new st' where run: "promote policy_dir 2 ''ops'' canary_store = (Inr new, st')"
    by (cases "promote policy_dir 2 ''ops'' canary_store") (auto simp: is_ok_iff)
  from rollback_undoes_promote[OF canary_store_wf canary_store_row run, of "''ops''" 3] run
  show ?thesis by (auto simp: canary_row_def)
qed

text \<open>The canary is sticky and the rollout only widens: an unpinned request that the canary serves at
  one percentage is served by it at every larger one; at 100 every request is, at 0 none.\<close>

theorem canary_rollout_monotone:
  assumes "row_wf dir rel" "canary_version rel = Some c" "\<not> set_field (ctx_policy_version ctx)"
  shows "(select_version sha rel ctx = Inr c \<longrightarrow> rollout_percent rel \<le> pct \<longrightarrow>
       select_version sha (rel\<lparr>rollout_percent := pct\<rparr>) ctx = Inr c) \<and>
    select_version sha (rel\<lparr>rollout_percent := 100\<rparr>) ctx = Inr c \<and>
    select_version sha (rel\<lparr>rollout_percent := 0\<rparr>) ctx = Inr (stable_version rel)"
proof -
  have "c \<noteq> stable_version rel" "0 < rollout_percent rel" "set_field (canary_version rel)"
    using assms(1,2) loads_nonempty[of dir c] by (auto simp: row_wf_def set_field_def)
  moreover have "canary_bucket sha ctx < 100" by (simp add: canary_bucket_def)
  ultimately show ?thesis using assms(2,3) by (auto simp: select_version_def)
qed

theorem canary_rollout_monotone_witness:
  "select_version (\<lambda>_. ''00000005'') (canary_row\<lparr>rollout_percent := 100\<rparr>) demo_ctx = Inr ''2.1.0''"
proof -
  have "row_wf policy_dir canary_row"
    using canary_store_wf canary_store_row by (simp add: release_wf_def)
  from canary_rollout_monotone[OF this, of "''2.1.0''" demo_ctx] show ?thesis
    by (simp add: canary_row_def demo_ctx_def context_default_def set_field_def)
qed

end
