(* ===== verification/Auth.thy ===== *)
theory Auth
  imports B64 Contracts
begin

text \<open>
  The bearer tokens of \<^verbatim>\<open>safeagent_gov/auth.py\<close>: \<open>TokenSigner.issue\<close> and \<open>verify\<close>.
  HMAC-SHA256, SHA-256, \<open>json.loads\<close> and the serialisation and validation of the claims
  (pydantic) are arguments; Base64 is the strict decoder of \<open>B64\<close>. The lemmas show what an
  accepted token has been checked for, and that an issued token is accepted within its life.
\<close>

section \<open>Claims and errors\<close>

record auth_claims =
  cl_sub :: string
  cl_tenant :: string
  cl_role :: string
  cl_scopes :: "string list"
  cl_aud :: string
  cl_iss :: string
  cl_iat :: int
  cl_exp :: int
  cl_jti :: string

definition valid_claims :: "auth_claims \<Rightarrow> bool" where
  "valid_claims c \<longleftrightarrow>
     len_between 1 160 (cl_sub c) \<and> len_between 1 160 (cl_tenant c) \<and>
     len_between 1 80 (cl_role c) \<and> length (cl_scopes c) \<le> 100 \<and>
     0 \<le> cl_iat c \<and> 0 \<le> cl_exp c \<and> len_between 16 160 (cl_jti c)"

definition claims_identity :: "auth_claims \<Rightarrow> principal" where
  "claims_identity c =
     \<lparr>principal_id = cl_sub c, principal_kind = User, p_role = cl_role c, tenant_id = cl_tenant c,
      attributes = [(''scopes'', join '' '' (cl_scopes c))]\<rparr>"

datatype auth_reason =
    Weak_Secret
  | Unsupported_Role
  | Ttl_Out_Of_Range
  | Empty_Or_Too_Long
  | Bad_Format
  | Bad_Segment_Length
  | Bad_Base64
  | Bad_Token_Signature
  | Bad_Claims
  | Bad_Header
  | Wrong_Audience
  | Invalid_Role
  | Issued_In_Future
  | Token_Expired
  | Lifetime_Exceeded

text \<open>\<open>AuthenticationError\<close>, and a bare \<open>ValueError\<close> (pydantic, \<open>UnicodeEncodeError\<close>).\<close>

datatype auth_error = Authentication_Error auth_reason | Auth_Value_Error

record auth_env =
  au_mac :: "string \<Rightarrow> string \<Rightarrow> string"
  au_sha :: "string \<Rightarrow> string"
  au_json :: "string \<Rightarrow> pyval option"
  au_dump :: "auth_claims \<Rightarrow> string"
  au_load :: "string \<Rightarrow> auth_claims option"

definition auth_audience :: string where "auth_audience = ''safeagent-gov-api''"
definition auth_issuer :: string where "auth_issuer = ''safeagent-gov-local''"

definition max_token_bytes :: nat where "max_token_bytes = 16384"
definition max_ttl_seconds :: int where "max_ttl_seconds = 86400"

definition allowed_roles :: "string list" where
  "allowed_roles =
     [''admin'', ''security_reviewer'', ''reviewer'', ''auditor'', ''replayer'', ''operator'',
      ''manager'', ''staff'', ''visitor'']"

section \<open>The signer\<close>

definition new_signer :: "string \<Rightarrow> auth_error + string" where
  "new_signer key = (if length key < 32 then Inl (Authentication_Error Weak_Secret) else Inr key)"

definition key_id :: "auth_env \<Rightarrow> string \<Rightarrow> string" where
  "key_id env key = take 16 (au_sha env key)"

definition token_header :: "auth_env \<Rightarrow> string \<Rightarrow> pydict" where
  "token_header env key =
     [(''alg'', PStr ''HS256''), (''typ'', PStr ''SAT''), (''kid'', PStr (key_id env key))]"

text \<open>\<open>_b64decode\<close>\<close>

definition auth_b64decode :: "string \<Rightarrow> auth_error + string" where
  "auth_b64decode v =
     (if v = [] \<or> max_token_bytes < length v then Inl (Authentication_Error Bad_Segment_Length)
      else (case b64decode_strict v of
          None \<Rightarrow> Inl (Authentication_Error Bad_Base64)
        | Some s \<Rightarrow> Inr s))"

definition token_of :: "auth_env \<Rightarrow> string \<Rightarrow> auth_claims \<Rightarrow> string" where
  "token_of env key c =
     (let header_part = b64encode (json_dumps (PDict (token_header env key)));
          payload_part = b64encode (au_dump env c);
          signing_input = header_part @ ''.'' @ payload_part
      in signing_input @ ''.'' @ b64encode (au_mac env key signing_input))"

definition issue_token ::
    "auth_env \<Rightarrow> string \<Rightarrow> string \<Rightarrow> string \<Rightarrow> string \<Rightarrow> string list \<Rightarrow> int \<Rightarrow> int \<Rightarrow> string \<Rightarrow>
     auth_error + (auth_claims \<times> string)" where
  "issue_token env key sub tenant role scopes ttl now rnd =
     (let normalized = casefold (strip role);
          c = \<lparr>cl_sub = sub, cl_tenant = tenant, cl_role = normalized,
               cl_scopes = sort (remdups scopes), cl_aud = auth_audience, cl_iss = auth_issuer,
               cl_iat = now, cl_exp = now + ttl, cl_jti = rnd\<rparr>
      in if normalized \<notin> set allowed_roles then Inl (Authentication_Error Unsupported_Role)
         else if ttl < 1 \<or> max_ttl_seconds < ttl then Inl (Authentication_Error Ttl_Out_Of_Range)
         else if \<not> valid_claims c then Inl Auth_Value_Error
         else Inr (c, token_of env key c))"

definition is_ascii :: "string \<Rightarrow> bool" where
  "is_ascii s \<longleftrightarrow> list_all (\<lambda>c. (of_char c :: nat) < 128) s"

text \<open>The claims' own checks, in the code's order; \<open>None\<close> when they pass.\<close>

definition claims_problem :: "auth_claims \<Rightarrow> int \<Rightarrow> int \<Rightarrow> auth_reason option" where
  "claims_problem c now leeway =
     (if cl_aud c \<noteq> auth_audience \<or> cl_iss c \<noteq> auth_issuer then Some Wrong_Audience
      else if cl_role c \<notin> set allowed_roles then Some Invalid_Role
      else if now + leeway < cl_iat c then Some Issued_In_Future
      else if cl_exp c \<le> now - leeway \<or> cl_exp c \<le> cl_iat c then Some Token_Expired
      else if max_ttl_seconds < cl_exp c - cl_iat c then Some Lifetime_Exceeded
      else None)"

text \<open>The dictionary comparison of the header: the same keys with equal values.\<close>

definition header_matches :: "pyval \<Rightarrow> pydict \<Rightarrow> bool" where
  "header_matches v expected \<longleftrightarrow> py_eq v (PDict expected)"

definition verify_parts ::
    "auth_env \<Rightarrow> string \<Rightarrow> string \<Rightarrow> string \<Rightarrow> string \<Rightarrow> int \<Rightarrow> int \<Rightarrow> auth_error + auth_claims" where
  "verify_parts env key hp pp sp now leeway =
     (if \<not> is_ascii (hp @ pp) then Inl Auth_Value_Error
      else (case auth_b64decode sp of
        Inl e \<Rightarrow> Inl e
      | Inr actual \<Rightarrow>
          if actual \<noteq> au_mac env key (hp @ ''.'' @ pp)
            then Inl (Authentication_Error Bad_Token_Signature)
          else (case auth_b64decode hp of
              Inl e \<Rightarrow> Inl e
            | Inr h \<Rightarrow>
                (case au_json env h of
                   None \<Rightarrow> Inl (Authentication_Error Bad_Claims)
                 | Some header \<Rightarrow>
                     (case auth_b64decode pp of
                        Inl e \<Rightarrow> Inl e
                      | Inr p \<Rightarrow>
                          (case au_load env p of
                             None \<Rightarrow> Inl (Authentication_Error Bad_Claims)
                           | Some c \<Rightarrow>
                               if \<not> header_matches header (token_header env key)
                                 then Inl (Authentication_Error Bad_Header)
                               else (case claims_problem c now leeway of
                                   Some r \<Rightarrow> Inl (Authentication_Error r)
                                 | None \<Rightarrow> Inr c)))))))"

definition verify_token ::
    "auth_env \<Rightarrow> string \<Rightarrow> string \<Rightarrow> int \<Rightarrow> int \<Rightarrow> auth_error + auth_claims" where
  "verify_token env key token now leeway =
     (if token = [] \<or> max_token_bytes < utf8_len token
        then Inl (Authentication_Error Empty_Or_Too_Long)
      else (case split_on CHR ''.'' token of
          [hp, pp, sp] \<Rightarrow> verify_parts env key hp pp sp now leeway
        | _ \<Rightarrow> Inl (Authentication_Error Bad_Format)))"

section \<open>Soundness\<close>

lemma verify_partsD:
  assumes "verify_parts env key hp pp sp now leeway = Inr c"
  shows "b64decode_strict sp = Some (au_mac env key (hp @ ''.'' @ pp))"
    "\<exists>p. b64decode_strict pp = Some p \<and> au_load env p = Some c"
    "\<exists>h v. b64decode_strict hp = Some h \<and> au_json env h = Some v \<and>
       py_eq v (PDict (token_header env key))"
    "claims_problem c now leeway = None"
  using assms
  by (auto simp: verify_parts_def auth_b64decode_def header_matches_def
      split: if_splits sum.splits option.splits)

lemma verify_tokenD:
  assumes "verify_token env key token now leeway = Inr c"
  obtains hp pp sp where "split_on CHR ''.'' token = [hp, pp, sp]"
    "verify_parts env key hp pp sp now leeway = Inr c" "utf8_len token \<le> max_token_bytes"
  using assms by (auto simp: verify_token_def split: if_splits list.splits)

lemma claims_problem_None:
  "claims_problem c now leeway = None \<longleftrightarrow>
     cl_aud c = auth_audience \<and> cl_iss c = auth_issuer \<and> cl_role c \<in> set allowed_roles \<and>
     cl_iat c \<le> now + leeway \<and> now - leeway < cl_exp c \<and> cl_iat c < cl_exp c \<and>
     cl_exp c - cl_iat c \<le> max_ttl_seconds"
  by (auto simp: claims_problem_def)

section \<open>Round trip\<close>

lemma b64_char_ascii: "n < 64 \<Longrightarrow> (of_char (b64_char n) :: nat) < 128"
  by (auto simp: b64_code)

lemma b64encode_ascii: "is_ascii (b64encode s)"
  unfolding is_ascii_def list_all_iff by (auto dest!: b64encode_chars simp: b64_char_ascii)

lemma b64encode_empty: "b64encode s = [] \<longleftrightarrow> s = []"
  by (cases "map of_char s :: nat list" rule: sextets.cases) (auto simp: b64encode_def)

lemma utf8_len_ge: "length s \<le> utf8_len s"
  by (induction s) (auto simp: utf8_len_def)

lemma issued_token_verifies:
  assumes issued: "issue_token env key sub tenant role scopes ttl now0 rnd = Inr (c, token)"
    and load: "au_load env (au_dump env c) = Some c" "au_dump env c \<noteq> []"
    and json: "au_json env (json_dumps (PDict (token_header env key))) = Some v"
      "py_eq v (PDict (token_header env key))"
    and mac: "au_mac env key (b64encode (json_dumps (PDict (token_header env key))) @ ''.'' @
        b64encode (au_dump env c)) \<noteq> []"
    and size: "utf8_len token \<le> max_token_bytes"
    and time: "now0 \<le> now + leeway" "now - leeway < now0 + ttl"
  shows "verify_token env key token now leeway = Inr c"
proof -
  define h where "h = b64encode (json_dumps (PDict (token_header env key)))"
  define p where "p = b64encode (au_dump env c)"
  define g where "g = b64encode (au_mac env key (h @ ''.'' @ p))"
  have token: "token = h @ ''.'' @ p @ ''.'' @ g" and
    c: "cl_aud c = auth_audience" "cl_iss c = auth_issuer" "cl_role c \<in> set allowed_roles"
      "cl_iat c = now0" "cl_exp c = now0 + ttl" "1 \<le> ttl" "ttl \<le> max_ttl_seconds"
    using issued
    by (auto simp: issue_token_def token_of_def h_def p_def g_def Let_def split: if_splits)
  have nodot: "CHR ''.'' \<notin> set h" "CHR ''.'' \<notin> set p" "CHR ''.'' \<notin> set g"
    by (simp_all add: h_def p_def g_def b64encode_no_dot)
  then have split: "split_on CHR ''.'' token = [h, p, g]"
    by (simp add: token split_on_append)
  have len: "length h \<le> max_token_bytes" "length p \<le> max_token_bytes" "length g \<le> max_token_bytes"
    using size utf8_len_ge[of token] by (auto simp: token)
  have ne: "h \<noteq> []" "p \<noteq> []" "g \<noteq> []"
    using load(2) mac by (auto simp: h_def p_def g_def b64encode_empty)
  have dec: "auth_b64decode h = Inr (json_dumps (PDict (token_header env key)))"
    "auth_b64decode p = Inr (au_dump env c)" "auth_b64decode g = Inr (au_mac env key (h @ ''.'' @ p))"
    using len ne by (simp_all add: auth_b64decode_def not_less h_def[symmetric] p_def[symmetric])
       (simp_all add: h_def p_def g_def)
  have asc: "is_ascii (h @ p)" using b64encode_ascii by (simp add: is_ascii_def h_def p_def)
  have "claims_problem c now leeway = None"
    using c time by (simp add: claims_problem_None)
  then have "verify_parts env key h p g now leeway = Inr c"
    using asc dec json load(1) by (simp add: verify_parts_def header_matches_def)
  with split size ne(1) show ?thesis by (simp add: verify_token_def token)
qed

end
