(* ===== verification/ApiAccess.thy ===== *)
theory ApiAccess
  imports Auth
begin

text \<open>
  The API boundary of \<^verbatim>\<open>backend/auth.py\<close> and \<^verbatim>\<open>backend/rate_limit.py\<close>: bearer
  authentication, role checks, tenant isolation and the sliding-window limiter per identity.
  The clock is an input, in integer ticks. The lemmas show that no window of the configured
  length ever contains more accepted requests of one identity than the limit.
\<close>

section \<open>The limiter\<close>

record limiter =
  lm_limit :: int
  lm_window :: int
  lm_max_keys :: int
  lm_events :: "(string \<times> int list) list"

datatype limit_error = Identity_Capacity | Too_Frequent

definition new_limiter :: "int \<Rightarrow> int \<Rightarrow> int \<Rightarrow> unit + limiter" where
  "new_limiter limit window max_keys =
     (if limit < 1 \<or> window \<le> 0 \<or> max_keys < 1 then Inl ()
      else Inr \<lparr>lm_limit = limit, lm_window = window, lm_max_keys = max_keys, lm_events = []\<rparr>)"

definition events_of :: "limiter \<Rightarrow> string \<Rightarrow> int list" where
  "events_of l k = (case row_get fst k (lm_events l) of None \<Rightarrow> [] | Some (_, es) \<Rightarrow> es)"

definition set_events :: "string \<Rightarrow> int list \<Rightarrow> (string \<times> int list) list \<Rightarrow> (string \<times> int list) list" where
  "set_events k es tab =
     (if row_get fst k tab = None then tab @ [(k, es)] else row_update fst k (\<lambda>r. (fst r, es)) tab)"

text \<open>At capacity a new identity first evicts those with no event inside the window.\<close>

definition evict_stale :: "int \<Rightarrow> (string \<times> int list) list \<Rightarrow> (string \<times> int list) list" where
  "evict_stale cutoff tab = filter (\<lambda>(_, es). \<not> (es = [] \<or> last es \<le> cutoff)) tab"

definition check_rate :: "string \<Rightarrow> int \<Rightarrow> (limiter, limit_error, int) op" where
  "check_rate k now l =
     (let cutoff = now - lm_window l;
          full = row_get fst k (lm_events l) = None \<and> lm_max_keys l \<le> int (length (lm_events l));
          tab = (if full then evict_stale cutoff (lm_events l) else lm_events l)
      in if full \<and> lm_max_keys l \<le> int (length tab)
           then (Inl Identity_Capacity, l\<lparr>lm_events := tab\<rparr>)
         else (let es = dropWhile (\<lambda>t. t \<le> cutoff) (events_of (l\<lparr>lm_events := tab\<rparr>) k)
               in if lm_limit l \<le> int (length es)
                    then (Inl Too_Frequent, l\<lparr>lm_events := set_events k es tab\<rparr>)
                  else (Inr (lm_limit l - int (length es) - 1),
                        l\<lparr>lm_events := set_events k (es @ [now]) tab\<rparr>)))"

section \<open>Runs of the limiter\<close>

fun rate_run :: "(string \<times> int) list \<Rightarrow> limiter \<Rightarrow> (limit_error + int) list \<times> limiter" where
  "rate_run [] l = ([], l)"
| "rate_run ((k, now) # cs) l =
     (case check_rate k now l of (r, l') \<Rightarrow> (case rate_run cs l' of (rs, l'') \<Rightarrow> (r # rs, l'')))"

definition accepted_at :: "string \<Rightarrow> (string \<times> int) list \<Rightarrow> (limit_error + int) list \<Rightarrow> int list" where
  "accepted_at k cs rs = map (snd \<circ> fst) (filter (\<lambda>((k', _), r). k' = k \<and> is_ok r) (zip cs rs))"

lemma accepted_at_simps [simp]:
  "accepted_at k [] rs = []"
  "accepted_at k ((k', t) # cs) (r # rs) =
     (if k' = k \<and> is_ok r then [t] else []) @ accepted_at k cs rs"
  by (simp_all add: accepted_at_def)

text \<open>
  The table stands for the history: the stored events of an identity are a suffix of its
  accepted ones, and whatever was dropped has left the window.
\<close>

definition window_inv :: "limiter \<Rightarrow> int \<Rightarrow> (string \<Rightarrow> int list) \<Rightarrow> bool" where
  "window_inv l now acc \<longleftrightarrow>
     (\<forall>k. \<exists>old. acc k = old @ events_of l k \<and> (\<forall>t \<in> set old. t \<le> now - lm_window l) \<and>
        sorted (acc k) \<and> (\<forall>t \<in> set (acc k). t \<le> now)) \<and>
     distinct (map fst (lm_events l))"

lemma events_of_set:
  "events_of (l\<lparr>lm_events := set_events k es tab\<rparr>) k' =
     (if k' = k then es else events_of (l\<lparr>lm_events := tab\<rparr>) k')"
  by (auto simp: events_of_def set_events_def table_simps split: option.splits)

lemma set_events_keys:
  "distinct (map fst tab) \<Longrightarrow> distinct (map fst (set_events k es tab))"
proof (cases "row_get fst k tab")
  case None
  assume "distinct (map fst tab)"
  with None show ?thesis by (simp add: set_events_def row_get_None_iff)
next
  case (Some r)
  assume d: "distinct (map fst tab)"
  have "map fst (row_update fst k (\<lambda>r. (fst r, es)) tab) = map fst tab"
    by (simp add: row_update_keys)
  with Some d show ?thesis by (simp add: set_events_def)
qed

lemma events_of_evict:
  assumes "distinct (map fst tab)"
  shows "events_of (l\<lparr>lm_events := evict_stale cutoff tab\<rparr>) k =
     (let es = events_of (l\<lparr>lm_events := tab\<rparr>) k in if es = [] \<or> last es \<le> cutoff then [] else es)"
  using assms
proof (induction tab)
  case Nil
  then show ?case by (simp add: events_of_def evict_stale_def)
next
  case (Cons q tab)
  obtain j es where q: "q = (j, es)" by (cases q)
  have "row_get fst k (evict_stale cutoff tab) = None" if "j = k"
    using Cons.prems that by (auto simp: q row_get_None_iff evict_stale_def)
  with Cons show ?case
    by (auto simp: q events_of_def evict_stale_def table_simps Let_def)
qed

text \<open>Dropping what has left the window keeps the correspondence.\<close>

lemma suffix_after_drop:
  assumes "acc = old @ es" "\<forall>t \<in> set old. t \<le> cutoff" "sorted acc"
  shows "\<exists>old'. acc = old' @ dropWhile (\<lambda>t. t \<le> cutoff) es \<and> (\<forall>t \<in> set old'. t \<le> cutoff)"
proof (intro exI conjI ballI)
  show "acc = (old @ takeWhile (\<lambda>t. t \<le> cutoff) es) @ dropWhile (\<lambda>t. t \<le> cutoff) es"
    using assms(1) by simp
  show "t \<le> cutoff" if "t \<in> set (old @ takeWhile (\<lambda>t. t \<le> cutoff) es)" for t
    using that assms(2) by (auto dest: set_takeWhileD)
qed

lemma suffix_after_evict:
  assumes "acc = old @ es" "\<forall>t \<in> set old. t \<le> cutoff" "sorted acc" "es = [] \<or> last es \<le> cutoff"
  shows "\<forall>t \<in> set acc. t \<le> (cutoff :: int)"
proof -
  have "t \<le> cutoff" if t: "t \<in> set es" for t
  proof -
    have ne: "es \<noteq> []" using t by auto
    have "sorted (butlast es @ [last es])" using assms(1,3) ne by (simp add: sorted_append)
    moreover have "t \<in> set (butlast es @ [last es])" using t ne by simp
    ultimately have "t \<le> last es" by (auto simp: sorted_append)
    with assms(4) ne show ?thesis by simp
  qed
  with assms(1,2) show ?thesis by auto
qed


definition appended :: "(string \<Rightarrow> int list) \<Rightarrow> string \<Rightarrow> int \<Rightarrow> limit_error + int \<Rightarrow> string \<Rightarrow> int list" where
  "appended acc k now r = (if is_ok r then acc(k := acc k @ [now]) else acc)"

text \<open>One check: the correspondence is kept, and an acceptance found room in the window.\<close>

lemma check_rate_inv:
  assumes inv: "window_inv l past acc" and past: "past \<le> now" "0 < lm_window l"
    and run: "check_rate k now l = (r, l')"
  shows "window_inv l' now (appended acc k now r) \<and> lm_limit l' = lm_limit l \<and>
    lm_window l' = lm_window l \<and>
    (is_ok r \<longrightarrow> int (length (filter (\<lambda>t. now - lm_window l < t) (acc k))) < lm_limit l)"
proof -
  let ?c = "now - lm_window l"
  let ?full = "row_get fst k (lm_events l) = None \<and> lm_max_keys l \<le> int (length (lm_events l))"
  define tab where "tab = (if ?full then evict_stale ?c (lm_events l) else lm_events l)"
  have d: "distinct (map fst (lm_events l))" using inv by (simp add: window_inv_def)
  have dt: "distinct (map fst tab)"
    using d by (simp add: tab_def evict_stale_def distinct_map_filter)
  have inv0: "\<exists>old. acc j = old @ events_of (l\<lparr>lm_events := tab\<rparr>) j \<and> (\<forall>t \<in> set old. t \<le> ?c) \<and>
      sorted (acc j) \<and> (\<forall>t \<in> set (acc j). t \<le> now)" for j
  proof -
    obtain old where o: "acc j = old @ events_of l j" "\<forall>t \<in> set old. t \<le> past - lm_window l"
      "sorted (acc j)" "\<forall>t \<in> set (acc j). t \<le> past"
      using inv unfolding window_inv_def by blast
    then have oc: "\<forall>t \<in> set old. t \<le> ?c" "\<forall>t \<in> set (acc j). t \<le> now" using past(1) by force+
    have same: "l\<lparr>lm_events := lm_events l\<rparr> = l" by simp
    have ev: "events_of (l\<lparr>lm_events := tab\<rparr>) j =
       (if ?full \<and> (events_of l j = [] \<or> last (events_of l j) \<le> ?c) then [] else events_of l j)"
      using events_of_evict[OF d, where l = l and cutoff = "?c" and k = j] by (auto simp: tab_def same Let_def)
    show ?thesis
    proof (cases "?full \<and> (events_of l j = [] \<or> last (events_of l j) \<le> ?c)")
      case True
      have "\<forall>t \<in> set (acc j). t \<le> ?c"
        by (rule suffix_after_evict[OF o(1) oc(1) o(3)]) (use True in blast)
      with True o(3) oc(2) ev show ?thesis by auto
    next
      case False
      then have "events_of (l\<lparr>lm_events := tab\<rparr>) j = events_of l j"
        using ev by (simp only: if_False)
      with o oc show ?thesis by auto
    qed
  qed
  let ?es = "dropWhile (\<lambda>t. t \<le> ?c) (events_of (l\<lparr>lm_events := tab\<rparr>) k)"
  obtain old where old: "acc k = old @ ?es" "\<forall>t \<in> set old. t \<le> ?c"
  proof -
    obtain oo where oo: "acc k = oo @ events_of (l\<lparr>lm_events := tab\<rparr>) k" "\<forall>t \<in> set oo. t \<le> ?c" "sorted (acc k)"
      using inv0[of k] by blast
    from suffix_after_drop[OF oo] that show thesis by blast
  qed
  have sorted: "sorted (acc k)" "\<forall>t \<in> set (acc k). t \<le> now" using inv0[of k] by auto
  have keep: "window_inv (l\<lparr>lm_events := set_events k es' tab\<rparr>) now (acc(k := acc k @ tl'))"
    if "es' = ?es @ tl'" "tl' = [] \<or> tl' = [now]" for es' tl'
  proof -
    have "acc k @ tl' = old @ es'" using old(1) that(1) by simp
    moreover have "sorted (acc k @ tl')" "\<forall>t \<in> set (acc k @ tl'). t \<le> now"
      using sorted that(2) by (auto simp: sorted_append)
    ultimately show ?thesis
      using inv0 old(2) set_events_keys[OF dt]
      unfolding window_inv_def by (auto simp: events_of_set)
  qed
  have cases: "(?full \<and> lm_max_keys l \<le> int (length tab) \<and> r = Inl Identity_Capacity \<and>
        l' = l\<lparr>lm_events := tab\<rparr>) \<or>
      (r = Inl Too_Frequent \<and> l' = l\<lparr>lm_events := set_events k ?es tab\<rparr>) \<or>
      (int (length ?es) < lm_limit l \<and> is_ok r \<and> l' = l\<lparr>lm_events := set_events k (?es @ [now]) tab\<rparr>)"
    using run unfolding check_rate_def Let_def tab_def[symmetric] by (auto simp: not_le split: if_splits)
  have room: "length (filter (\<lambda>t. ?c < t) (acc k)) \<le> length ?es"
  proof -
    have "filter (\<lambda>t. ?c < t) old = []" using old(2) by (auto simp: filter_empty_conv)
    then show ?thesis by (subst old(1)) (simp add: length_filter_le)
  qed
  from cases show ?thesis
  proof (elim disjE conjE)
    assume r: "r = Inl Identity_Capacity" "l' = l\<lparr>lm_events := tab\<rparr>"
    then show ?thesis using inv0 dt by (simp add: window_inv_def appended_def)
  next
    assume r: "r = Inl Too_Frequent" "l' = l\<lparr>lm_events := set_events k ?es tab\<rparr>"
    then show ?thesis using keep[of ?es "[]"] by (simp add: appended_def)
  next
    assume "int (length ?es) < lm_limit l" "is_ok r" "l' = l\<lparr>lm_events := set_events k (?es @ [now]) tab\<rparr>"
    then show ?thesis using keep[of "?es @ [now]" "[now]"] room by (simp add: appended_def)
  qed
qed

definition window_bounded :: "int \<Rightarrow> int \<Rightarrow> int list \<Rightarrow> bool" where
  "window_bounded limit window ts \<longleftrightarrow>
     (\<forall>w. int (length (filter (\<lambda>t. w < t \<and> t \<le> w + window) ts)) \<le> limit)"

lemma window_bounded_append:
  assumes "window_bounded limit window ts"
    "int (length (filter (\<lambda>t. now - window < t) ts)) < limit"
  shows "window_bounded limit window (ts @ [now])"
  unfolding window_bounded_def
proof
  fix w
  let ?in = "\<lambda>t. w < t \<and> t \<le> w + window"
  show "int (length (filter ?in (ts @ [now]))) \<le> limit"
  proof (cases "?in now")
    case False
    then have "filter ?in (ts @ [now]) = filter ?in ts" by simp
    with assms(1) show ?thesis unfolding window_bounded_def by metis
  next
    case True
    have "filter ?in (filter (\<lambda>t. now - window < t) ts) = filter ?in ts"
      unfolding filter_filter by (rule filter_cong) (use True in auto)
    then have "length (filter ?in ts) \<le> length (filter (\<lambda>t. now - window < t) ts)"
      by (metis length_filter_le)
    with assms(2) True show ?thesis by simp
  qed
qed

lemma rate_run_bounded:
  assumes "rate_run cs l = (rs, l')" "sorted (map snd cs)" "\<forall>t \<in> set (map snd cs). past \<le> t"
    "window_inv l past acc" "0 < lm_window l" "\<And>k. window_bounded (lm_limit l) (lm_window l) (acc k)"
  shows "window_bounded (lm_limit l) (lm_window l) (acc k @ accepted_at k cs rs)"
  using assms
proof (induction cs arbitrary: l rs l' past acc)
  case Nil
  then show ?case by simp
next
  case (Cons c cs)
  obtain j now where c: "c = (j, now)" by (cases c)
  obtain r u where r: "check_rate j now l = (r, u)" by fastforce
  obtain rs' v where rs: "rate_run cs u = (rs', v)" by fastforce
  have eq: "rs = r # rs'" using Cons.prems(1) by (simp add: c r rs)
  have past: "past \<le> now" using Cons.prems(3) by (simp add: c)
  note one = check_rate_inv[OF Cons.prems(4) past Cons.prems(5) r]
  have b: "window_bounded (lm_limit u) (lm_window u) (appended acc j now r i)" for i
    using one Cons.prems(6) by (auto simp: appended_def intro!: window_bounded_append)
  have "window_bounded (lm_limit u) (lm_window u) (appended acc j now r k @ accepted_at k cs rs')"
    by (rule Cons.IH[OF rs _ _ _ _ b]) (use Cons.prems(2,5) one in \<open>auto simp: c\<close>)
  moreover have "appended acc j now r k @ accepted_at k cs rs' = acc k @ accepted_at k (c # cs) rs"
    by (auto simp: appended_def eq c)
  ultimately show ?case using one by simp
qed

section \<open>Authentication, roles and tenants\<close>

text \<open>
  What a request ends with: a status code, or an exception no handler expects (a 500).
\<close>

datatype http_error = Http int | Unhandled

definition rate_key :: "auth_claims \<Rightarrow> string" where
  "rate_key c = cl_tenant c @ '':'' @ cl_sub c"

definition current_principal ::
    "auth_env \<Rightarrow> string \<Rightarrow> (string \<times> string) option \<Rightarrow> int \<Rightarrow> int \<Rightarrow> (limiter, http_error, auth_claims) op" where
  "current_principal env key credentials now ticks l =
     (case credentials of
        None \<Rightarrow> (Inl (Http 401), l)
      | Some (scheme, token) \<Rightarrow>
          if casefold scheme \<noteq> ''bearer'' then (Inl (Http 401), l)
          else (case verify_token env key token now 30 of
              Inl (Authentication_Error _) \<Rightarrow> (Inl (Http 401), l)
            | Inl Auth_Value_Error \<Rightarrow> (Inl Unhandled, l)
            | Inr c \<Rightarrow>
                (case check_rate (rate_key c) ticks l of
                   (Inl _, l') \<Rightarrow> (Inl (Http 429), l')
                 | (Inr _, l') \<Rightarrow> (Inr c, l'))))"

definition require_roles :: "string list \<Rightarrow> auth_claims \<Rightarrow> http_error + auth_claims" where
  "require_roles roles c = (if cl_role c \<notin> set roles then Inl (Http 403) else Inr c)"

definition audit_views :: "(string \<times> string) list" where
  "audit_views =
     [(''admin'', ''admin''), (''replayer'', ''replayer''), (''security_reviewer'', ''reviewer''),
      (''reviewer'', ''reviewer''), (''auditor'', ''auditor''), (''operator'', ''operator''),
      (''manager'', ''operator''), (''staff'', ''operator''), (''visitor'', ''viewer'')]"

text \<open>\<open>None\<close> is the \<open>KeyError\<close> of the dictionary.\<close>

definition audit_view_for :: "auth_claims \<Rightarrow> string option" where
  "audit_view_for c = map_of audit_views (cl_role c)"

definition enforce_tenant :: "string option \<Rightarrow> auth_claims \<Rightarrow> http_error + unit" where
  "enforce_tenant owner c =
     (if ''audit:cross_tenant'' \<in> set (cl_scopes c) then Inr ()
      else if \<not> set_field owner \<or> owner \<noteq> Some (cl_tenant c) then Inl (Http 404)
      else Inr ())"

lemma audit_view_total: "cl_role c \<in> set allowed_roles \<Longrightarrow> audit_view_for c \<noteq> None"
  by (auto simp: allowed_roles_def audit_view_for_def audit_views_def)

lemma current_principalD:
  assumes "current_principal env key cred now ticks l = (Inr c, l')"
  obtains token n where "cred = Some (fst (the cred), token)" "verify_token env key token now 30 = Inr c"
    "check_rate (rate_key c) ticks l = (Inr n, l')"
  using assms
  by (auto simp: current_principal_def split: option.splits prod.splits if_splits sum.splits
      auth_error.splits)

end
