(* ===== verification/AccessProps.thy ===== *)
theory AccessProps
  imports ApiAccess
begin

text \<open>
  The properties of the API boundary: bearer tokens and the sliding-window limiter, and two
  inputs on which it is weaker than intended.
\<close>

definition demo_claims :: auth_claims where
  "demo_claims = \<lparr>cl_sub = ''alice'', cl_tenant = ''t1'', cl_role = ''staff'', cl_scopes = [''read''],
     cl_aud = auth_audience, cl_iss = auth_issuer, cl_iat = 1000, cl_exp = 4600,
     cl_jti = ''0123456789abcdef''\<rparr>"

definition demo_key :: string where
  "demo_key = ''0123456789abcdef0123456789abcdef''"

definition demo_auth :: auth_env where
  "demo_auth = \<lparr>au_mac = (\<lambda>k m. take 4 k), au_sha = (\<lambda>s. s),
     au_json = (\<lambda>_. Some (PDict [(''alg'', PStr ''HS256''), (''kid'', PStr ''0123456789abcdef''),
       (''typ'', PStr ''SAT'')])),
     au_dump = cl_sub, au_load = (\<lambda>s. if s = ''alice'' then Some demo_claims else None)\<rparr>"

lemma demo_issue:
  "issue_token demo_auth demo_key ''alice'' ''t1'' '' Staff '' [''read''] 3600 1000 ''0123456789abcdef'' =
     Inr (demo_claims, token_of demo_auth demo_key demo_claims)"
proof -
  have role: "casefold (strip '' Staff '') = ''staff''" by code_simp
  have "valid_claims demo_claims" by code_simp
  then show ?thesis
    unfolding issue_token_def role Let_def
    by (simp add: allowed_roles_def max_ttl_seconds_def demo_claims_def)
qed

lemma demo_header: "py_eq (PDict [(''alg'', PStr ''HS256''), (''kid'', PStr ''0123456789abcdef''),
       (''typ'', PStr ''SAT'')]) (PDict (token_header demo_auth demo_key))"
  by code_simp

lemma ascii_utf8_len: "is_ascii s \<Longrightarrow> utf8_len s = length s"
  by (induction s) (auto simp: is_ascii_def utf8_len_def)

lemma b64encode_length: "length (b64encode s) \<le> 2 * length s"
proof -
  have "length (sextets xs) \<le> 2 * length xs" for xs
    by (induction xs rule: sextets.induct) simp_all
  from this[of "map of_char s"] show ?thesis by (simp add: b64encode_def)
qed

lemma token_length:
  assumes "\<And>m. length (au_mac env key m) \<le> n"
  shows "length (token_of env key c) \<le> 2 * length (json_dumps (PDict (token_header env key))) +
    2 * length (au_dump env c) + 2 * n + 2"
proof -
  define j where "j = json_dumps (PDict (token_header env key))"
  define m where "m = au_mac env key (b64encode j @ ''.'' @ b64encode (au_dump env c))"
  have "length (token_of env key c) =
      length (b64encode j) + length (b64encode (au_dump env c)) + length (b64encode m) + 2"
    unfolding token_of_def Let_def j_def[symmetric] m_def by simp
  moreover have "length m \<le> n" using assms by (simp add: m_def)
  ultimately show ?thesis
    using b64encode_length[of j] b64encode_length[of "au_dump env c"] b64encode_length[of m]
    unfolding j_def[symmetric] by linarith
qed

lemma demo_token_size: "utf8_len (token_of demo_auth demo_key demo_claims) \<le> max_token_bytes"
proof -
  have a: "is_ascii (token_of demo_auth demo_key demo_claims)"
    using b64encode_ascii by (simp add: token_of_def Let_def is_ascii_def)
  have bounds: "length (json_dumps (PDict (token_header demo_auth demo_key))) \<le> 100"
    "length (au_dump demo_auth demo_claims) \<le> 10" by code_simp+
  have mac: "length (au_mac demo_auth demo_key m) \<le> 4" for m by (simp add: demo_auth_def)
  have "length (token_of demo_auth demo_key demo_claims) \<le> 1000"
    using token_length[of demo_auth demo_key 4 demo_claims, OF mac] bounds by linarith
  with ascii_utf8_len[OF a] show ?thesis by (simp add: max_token_bytes_def)
qed

section \<open>Tokens\<close>

text \<open>An issued token is accepted for exactly its claims throughout its life: from the moment of issue
  until its expiry plus the leeway, \<open>verify\<close> returns the claims \<open>issue\<close> signed, through segment
  splitting, strict Base64, signature and header comparison.\<close>

theorem token_issue_verify_roundtrip:
  assumes "issue_token env key sub tenant role scopes ttl now0 rnd = Inr (c, token)"
    "au_load env (au_dump env c) = Some c" "au_dump env c \<noteq> []"
    "au_json env (json_dumps (PDict (token_header env key))) = Some v"
    "py_eq v (PDict (token_header env key))"
    "\<And>m. au_mac env key m \<noteq> []" "utf8_len token \<le> max_token_bytes"
    "0 \<le> leeway" "now0 \<le> now" "now < now0 + ttl + leeway"
  shows "verify_token env key token now leeway = Inr c \<and> cl_role c = casefold (strip role) \<and>
     cl_tenant c = tenant \<and> cl_sub c = sub \<and> cl_exp c = now0 + ttl"
proof -
  have "verify_token env key token now leeway = Inr c"
    by (rule issued_token_verifies[OF assms(1-5) assms(6) assms(7)]) (use assms(8-10) in simp_all)
  then show ?thesis using assms(1) by (auto simp: issue_token_def Let_def split: if_splits)
qed

theorem token_issue_verify_roundtrip_witness:
  "verify_token demo_auth demo_key (token_of demo_auth demo_key demo_claims) 2000 30 = Inr demo_claims"
  by (rule token_issue_verify_roundtrip[OF demo_issue _ _ _ demo_header _ demo_token_size, THEN conjunct1])
     (simp_all add: demo_auth_def demo_claims_def demo_key_def)

text \<open>An accepted token has been checked: it has three segments of at most 16384 bytes in all, its
  third segment decodes to the service's MAC of the first two, its header is the service's own, and its
  claims name this API, a known role and a life of at most a day that contains the present, within the
  leeway.\<close>

theorem accepted_token_checked:
  assumes "verify_token env key token now leeway = Inr c"
  shows "\<exists>hp pp sp p. split_on CHR ''.'' token = [hp, pp, sp] \<and> utf8_len token \<le> 16384 \<and>
     b64decode_strict sp = Some (au_mac env key (hp @ ''.'' @ pp)) \<and>
     b64decode_strict pp = Some p \<and> au_load env p = Some c \<and>
     cl_aud c = auth_audience \<and> cl_iss c = auth_issuer \<and> cl_role c \<in> set allowed_roles \<and>
     cl_iat c \<le> now + leeway \<and> now - leeway < cl_exp c \<and> cl_exp c - cl_iat c \<le> 86400"
proof -
  obtain hp pp sp where t: "split_on CHR ''.'' token = [hp, pp, sp]" "utf8_len token \<le> max_token_bytes"
    and v: "verify_parts env key hp pp sp now leeway = Inr c" by (rule verify_tokenD[OF assms])
  from verify_partsD[OF v] t show ?thesis
    by (auto simp: claims_problem_None max_token_bytes_def max_ttl_seconds_def)
qed

theorem accepted_token_checked_witness:
  "\<exists>hp pp sp. split_on CHR ''.'' (token_of demo_auth demo_key demo_claims) = [hp, pp, sp] \<and>
     b64decode_strict sp = Some (au_mac demo_auth demo_key (hp @ ''.'' @ pp))"
proof -
  have "verify_token demo_auth demo_key (token_of demo_auth demo_key demo_claims) 2000 30 = Inr demo_claims"
    by (rule issued_token_verifies[OF demo_issue _ _ _ demo_header _ demo_token_size])
       (simp_all add: demo_auth_def demo_claims_def demo_key_def)
  from accepted_token_checked[OF this] show ?thesis by blast
qed

section \<open>Rate limiting\<close>

text \<open>C12: The limiter holds its promise over any window: on a clock that does not run backwards, whatever
  the interleaving of identities, evictions included, no half-open window of the configured length ever
  contains more accepted requests of one identity than the limit.\<close>

theorem sliding_window_never_exceeded:
  assumes "new_limiter limit window max_keys = Inr l" "rate_run cs l = (rs, l')" "sorted (map snd cs)"
  shows "int (length (filter (\<lambda>t. w < t \<and> t \<le> w + window) (accepted_at k cs rs))) \<le> limit"
proof -
  have l: "l = \<lparr>lm_limit = limit, lm_window = window, lm_max_keys = max_keys, lm_events = []\<rparr>"
    "1 \<le> limit" "0 < window"
    using assms(1) by (auto simp: new_limiter_def split: if_splits)
  define past where "past = (case cs of [] \<Rightarrow> 0 | c # _ \<Rightarrow> snd c)"
  have past: "\<forall>t \<in> set (map snd cs). past \<le> t"
    using assms(3) by (cases cs) (force simp: past_def)+
  have inv: "window_inv l past (\<lambda>_. [])" by (simp add: window_inv_def l(1) events_of_def)
  have "window_bounded (lm_limit l) (lm_window l) ([] @ accepted_at k cs rs)"
    by (rule rate_run_bounded[OF assms(2,3) past inv]) (use l in \<open>simp_all add: window_bounded_def\<close>)
  then show ?thesis by (simp add: window_bounded_def l(1))
qed

theorem sliding_window_never_exceeded_witness:
  "length (filter (\<lambda>t. 0 < t \<and> t \<le> 10) (accepted_at ''a'' [(''a'', 1), (''a'', 2), (''b'', 2), (''a'', 3)]
     (fst (rate_run [(''a'', 1), (''a'', 2), (''b'', 2), (''a'', 3)]
       \<lparr>lm_limit = 2, lm_window = 10, lm_max_keys = 5, lm_events = []\<rparr>)))) \<le> 2"
proof -
  let ?cs = "[(''a'', 1), (''a'', 2), (''b'', 2), (''a'', 3)] :: (string \<times> int) list"
  have new: "new_limiter 2 10 5 = Inr \<lparr>lm_limit = 2, lm_window = 10, lm_max_keys = 5, lm_events = []\<rparr>"
    by (simp add: new_limiter_def)
  obtain rs l' where run: "rate_run ?cs \<lparr>lm_limit = 2, lm_window = 10, lm_max_keys = 5, lm_events = []\<rparr> = (rs, l')"
    by fastforce
  from sliding_window_never_exceeded[OF new run, of 0 "''a''"] run show ?thesis by simp
qed

section \<open>What the boundary does not guarantee\<close>

text \<open>
  A token with a character outside ASCII raises \<open>UnicodeEncodeError\<close> before any check, which the
  dependency does not translate into a 401; and the limiter's key joins tenant and subject
  with a colon either may contain.
\<close>

lemma non_ascii_token_unhandled:
  "fst (current_principal demo_auth demo_key (Some (''Bearer'', [CHR 0xE9] @ ''.a.b'')) 2000 0
     \<lparr>lm_limit = 2, lm_window = 10, lm_max_keys = 5, lm_events = []\<rparr>) = Inl Unhandled"
  by code_simp

lemma rate_key_collides:
  "rate_key (demo_claims\<lparr>cl_tenant := ''a'', cl_sub := ''b:c''\<rparr>) =
   rate_key (demo_claims\<lparr>cl_tenant := ''a:b'', cl_sub := ''c''\<rparr>)"
  by (simp add: rate_key_def)

end
