(* ===== verification/RouterExec.thy ===== *)
theory RouterExec
  imports Contracts
begin

text \<open>
  Fan-out and fan-in of \<^verbatim>\<open>safeagent_gov/router/\<close>: the plan contract of \<open>contracts.py\<close> and
  \<open>SafeRouterExecutor.execute\<close> of \<open>executor.py\<close>. Every task runs once, so a schedule of
  the event loop amounts to what each handler and each audit call does: both are functions
  here, and the semaphore, which only delays, is not modelled. Topological generations are
  networkx's and an argument; \<open>layers_ok\<close> states what its documentation promises.
\<close>

section \<open>Plans and results\<close>

record sub_task =
  st_id :: string
  st_agent :: string
  st_name :: string
  st_task :: string
  st_priority :: string
  st_timeout_ms :: int
  st_group :: string
  st_skills :: "string list"
  st_tools :: "string list"
  st_predecessors :: "string list"
  st_mandatory :: bool
  st_always_run :: bool

record router_plan =
  rp_trace_id :: string
  rp_plan_id :: string
  rp_intent :: string
  rp_risk_baseline :: risk_level
  rp_parallel :: bool
  rp_prechecks :: "string list"
  rp_tool_guards :: "string list"
  rp_context_guards :: "string list"
  rp_postchecks :: "string list"
  rp_tasks :: "sub_task list"
  rp_warnings :: "string list"

text \<open>\<open>validate_task_graph\<close> and the bounds of \<open>sub_tasks\<close>.\<close>

definition valid_plan :: "router_plan \<Rightarrow> bool" where
  "valid_plan p \<longleftrightarrow>
     1 \<le> length (rp_tasks p) \<and> length (rp_tasks p) \<le> 16 \<and>
     distinct (map st_id (rp_tasks p)) \<and>
     list_all (\<lambda>t. set (st_predecessors t) \<subseteq> set (map st_id (rp_tasks p)) \<and>
       st_id t \<notin> set (st_predecessors t)) (rp_tasks p)"

record sub_outcome =
  so_decision :: decision
  so_risk :: risk_level
  so_output :: pydict

datatype sub_status = Completed | Failed | Timeout | Skipped

datatype sub_error =
    Blocked_Predecessor
  | Handler_Not_Registered
  | Subagent_Timeout
  | Subagent_Error string
  | Audit_Error string

record sub_result =
  sr_task_id :: string
  sr_agent_id :: string
  sr_status :: sub_status
  sr_decision :: decision
  sr_risk :: risk_level
  sr_output :: pydict
  sr_error :: "sub_error option"
  sr_audited :: bool

datatype handler_run = Returned sub_outcome | Timed_Out | Raised string

record router_result =
  rr_trace_id :: string
  rr_plan_id :: string
  rr_status :: string
  rr_decision :: decision
  rr_risk :: risk_level
  rr_results :: "sub_result list"
  rr_audit_complete :: bool

text \<open>
  What an execution meets: the handler registered for an agent (\<open>None\<close> if none is), what it
  does with a task, the exception of the audit call on a result, and the generations.
\<close>

record router_env =
  re_handler :: "string \<Rightarrow> (sub_task \<Rightarrow> handler_run) option"
  re_audit :: "sub_result \<Rightarrow> string option"
  re_layers :: "sub_task list \<Rightarrow> sub_task list list option"

datatype planning_error = Planning_Error

section \<open>Running one task\<close>

definition record_audit :: "router_env \<Rightarrow> sub_result \<Rightarrow> sub_result" where
  "record_audit env r =
     (case re_audit env r of
        None \<Rightarrow> r\<lparr>sr_audited := True\<rparr>
      | Some exn \<Rightarrow> r\<lparr>sr_status := Failed, sr_decision := Block, sr_risk := Critical,
                     sr_error := Some (Audit_Error exn), sr_audited := False\<rparr>)"

definition failure :: "sub_task \<Rightarrow> sub_status \<Rightarrow> risk_level \<Rightarrow> sub_error \<Rightarrow> sub_result" where
  "failure t st mandatory_risk e =
     \<lparr>sr_task_id = st_id t, sr_agent_id = st_agent t, sr_status = st,
      sr_decision = (if st_mandatory t then Block else Require_Approval),
      sr_risk = (if st_mandatory t then mandatory_risk else Medium),
      sr_output = [], sr_error = Some e, sr_audited = False\<rparr>"

definition blocked_predecessor :: "(string \<Rightarrow> sub_result option) \<Rightarrow> sub_task \<Rightarrow> bool" where
  "blocked_predecessor results t \<longleftrightarrow>
     list_ex (\<lambda>p. case results p of Some r \<Rightarrow> sr_decision r = Block | None \<Rightarrow> False)
       (st_predecessors t)"

definition run_handler_of :: "(sub_task \<Rightarrow> handler_run) \<Rightarrow> sub_task \<Rightarrow> sub_result" where
  "run_handler_of h t =
     (case h t of
        Returned out \<Rightarrow>
          \<lparr>sr_task_id = st_id t, sr_agent_id = st_agent t, sr_status = Completed,
           sr_decision = so_decision out, sr_risk = so_risk out, sr_output = so_output out,
           sr_error = None, sr_audited = False\<rparr>
      | Timed_Out \<Rightarrow> failure t Timeout Critical Subagent_Timeout
      | Raised exn \<Rightarrow> failure t Failed Critical (Subagent_Error exn))"

definition run_one :: "router_env \<Rightarrow> (string \<Rightarrow> sub_result option) \<Rightarrow> sub_task \<Rightarrow> sub_result" where
  "run_one env results t =
     record_audit env
       (if blocked_predecessor results t \<and> \<not> st_always_run t
          then failure t Skipped High Blocked_Predecessor
        else (case re_handler env (st_agent t) of
            None \<Rightarrow> failure t Failed Critical Handler_Not_Registered
          | Some h \<Rightarrow> run_handler_of h t))"

section \<open>Fan-out and fan-in\<close>

definition run_generation ::
    "router_env \<Rightarrow> sub_task list \<Rightarrow> (string \<Rightarrow> sub_result option) \<Rightarrow> (string \<Rightarrow> sub_result option)" where
  "run_generation env layer results =
     results ++ map_of (rev (map (\<lambda>t. (st_id t, run_one env results t)) layer))"

definition run_generations ::
    "router_env \<Rightarrow> sub_task list list \<Rightarrow> (string \<Rightarrow> sub_result option)" where
  "run_generations env layers = fold (run_generation env) layers Map.empty"

definition status_of :: "decision \<Rightarrow> string" where
  "status_of d =
     (if d = Block then ''blocked'' else if d = Require_Approval then ''pending_approval''
      else if d = Mask_And_Allow then ''masked'' else ''completed'')"

definition fan_in :: "router_plan \<Rightarrow> sub_result list \<Rightarrow> router_result" where
  "fan_in p ordered =
     (let complete = list_all sr_audited ordered;
          d = (if complete then the (max_by decision_rank (map sr_decision ordered)) else Block);
          r = (if complete then the (max_by risk_rank (map sr_risk ordered)) else Critical)
      in \<lparr>rr_trace_id = rp_trace_id p, rr_plan_id = rp_plan_id p, rr_status = status_of d,
          rr_decision = d, rr_risk = r, rr_results = ordered, rr_audit_complete = complete\<rparr>)"

definition execute_plan :: "router_env \<Rightarrow> router_plan \<Rightarrow> planning_error + router_result" where
  "execute_plan env p =
     (case re_layers env (rp_tasks p) of
        None \<Rightarrow> Inl Planning_Error
      | Some layers \<Rightarrow>
          (let results = run_generations env layers
           in Inr (fan_in p (map (\<lambda>t. the (results (st_id t))) (rp_tasks p)))))"

text \<open>
  networkx: the generations list every node once, each after the generations of all its
  predecessors.
\<close>

fun layered :: "string set \<Rightarrow> sub_task list list \<Rightarrow> bool" where
  "layered done [] = True"
| "layered done (layer # layers) =
     ((\<forall>t \<in> set layer. set (st_predecessors t) \<subseteq> done) \<and> layered (done \<union> st_id ` set layer) layers)"

definition layers_ok :: "sub_task list \<Rightarrow> sub_task list list \<Rightarrow> bool" where
  "layers_ok tasks layers \<longleftrightarrow> mset (concat layers) = mset tasks \<and> layered {} layers"

section \<open>Every task has its result\<close>

text \<open>The result of a task, seen from the final results: its predecessors' results are final.\<close>

lemma run_generation_other:
  "k \<notin> st_id ` set layer \<Longrightarrow> run_generation env layer results k = results k"
  by (auto simp: run_generation_def map_add_dom_app_simps dom_map_of_conv_image_fst image_comp comp_def
      intro!: map_add_dom_app_simps(3))

lemma run_generation_task:
  assumes "t \<in> set layer" "distinct (map st_id layer)"
  shows "run_generation env layer results (st_id t) = Some (run_one env results t)"
proof -
  let ?kv = "map (\<lambda>t. (st_id t, run_one env results t)) layer"
  have "distinct (map fst (rev ?kv))"
    using assms(2) by (simp add: rev_map[symmetric] comp_def)
  then have "map_of (rev ?kv) (st_id t) = Some (run_one env results t)"
    by (rule map_of_is_SomeI) (use assms(1) in force)
  then show ?thesis by (simp add: run_generation_def)
qed

lemma run_one_cong:
  "(\<And>p. p \<in> set (st_predecessors t) \<Longrightarrow> results p = results' p) \<Longrightarrow>
     run_one env results t = run_one env results' t"
  by (simp add: run_one_def blocked_predecessor_def list_ex_iff cong: bex_cong)

lemma fold_generations_keeps:
  "k \<notin> st_id ` set (concat layers) \<Longrightarrow> fold (run_generation env) layers results k = results k"
  by (induction layers arbitrary: results) (auto simp: run_generation_other image_Un)

lemma fold_generations_result:
  assumes "distinct (map st_id (concat layers))" "layered done layers"
    "done \<inter> st_id ` set (concat layers) = {}" "t \<in> set (concat layers)"
  shows "fold (run_generation env) layers results (st_id t) =
     Some (run_one env (fold (run_generation env) layers results) t)"
  using assms
proof (induction layers arbitrary: "done" results)
  case Nil
  then show ?case by simp
next
  case (Cons layer layers)
  let ?r = "run_generation env layer results"
  let ?final = "fold (run_generation env) layers ?r"
  have d: "distinct (map st_id layer)" "distinct (map st_id (concat layers))"
    "st_id ` set layer \<inter> st_id ` set (concat layers) = {}"
    using Cons.prems(1) by auto
  have keep: "?final k = ?r k" if "k \<notin> st_id ` set (concat layers)" for k
    by (rule fold_generations_keeps[OF that])
  show ?case
  proof (cases "t \<in> set layer")
    case True
    have nt: "st_id t \<notin> st_id ` set (concat layers)" using True d(3) by auto
    have pre: "?final p = results p" if "p \<in> set (st_predecessors t)" for p
    proof -
      have "p \<in> done" using that True Cons.prems(2) by auto
      then have "p \<notin> st_id ` set layer" "p \<notin> st_id ` set (concat layers)"
        using Cons.prems(3) by auto
      then show ?thesis by (simp add: keep run_generation_other)
    qed
    have "run_one env results t = run_one env ?final t"
      by (rule run_one_cong) (simp add: pre)
    with True d(1) nt show ?thesis by (simp add: keep run_generation_task)
  next
    case False
    have "?final (st_id t) = Some (run_one env ?final t)"
      by (rule Cons.IH[of "done \<union> st_id ` set layer"])
         (use Cons.prems d False in \<open>auto simp: image_Un Int_Un_distrib Int_Un_distrib2\<close>)
    then show ?thesis by simp
  qed
qed

lemma generations_result:
  assumes "layers_ok tasks layers" "distinct (map st_id tasks)" "t \<in> set tasks"
  shows "run_generations env layers (st_id t) = Some (run_one env (run_generations env layers) t)"
proof -
  have "set (concat layers) = set tasks"
    using assms(1) by (metis layers_ok_def set_mset_mset)
  moreover have "distinct (map st_id (concat layers))"
    using assms(1,2) by (metis layers_ok_def mset_map mset_eq_imp_distinct_iff)
  ultimately show ?thesis
    using assms(1,3) fold_generations_result[of layers "{}" t env Map.empty]
    by (simp add: run_generations_def layers_ok_def)
qed

text \<open>What an execution reports, task by task.\<close>

lemma execute_planD:
  assumes "execute_plan env p = Inr res" "valid_plan p"
    "\<And>layers. re_layers env (rp_tasks p) = Some layers \<Longrightarrow> layers_ok (rp_tasks p) layers"
  shows "\<exists>results. rr_results res = map (\<lambda>t. run_one env results t) (rp_tasks p) \<and>
     (\<forall>t \<in> set (rp_tasks p). results (st_id t) = Some (run_one env results t)) \<and>
     res = fan_in p (rr_results res)"
proof -
  obtain layers where l: "re_layers env (rp_tasks p) = Some layers"
    and res: "res = fan_in p (map (\<lambda>t. the (run_generations env layers (st_id t))) (rp_tasks p))"
    using assms(1) by (auto simp: execute_plan_def Let_def split: option.splits)
  have all: "run_generations env layers (st_id t) = Some (run_one env (run_generations env layers) t)"
    if "t \<in> set (rp_tasks p)" for t
    by (rule generations_result[OF assms(3)[OF l]]) (use assms(2) that in \<open>auto simp: valid_plan_def\<close>)
  then have m: "map (\<lambda>t. the (run_generations env layers (st_id t))) (rp_tasks p) =
      map (run_one env (run_generations env layers)) (rp_tasks p)" by simp
  have rr: "rr_results res = map (run_one env (run_generations env layers)) (rp_tasks p)"
    unfolding res m by (simp add: fan_in_def Let_def)
  with all res m show ?thesis by (intro exI[of _ "run_generations env layers"]) simp
qed

section \<open>Fan-in is closed under failure\<close>

lemma fan_in_results [simp]: "rr_results (fan_in p rs) = rs"
  by (simp add: fan_in_def Let_def)

lemma fan_in_ge:
  assumes "rs \<noteq> []" "r \<in> set rs"
  shows "sr_decision r \<le> rr_decision (fan_in p rs) \<and> sr_risk r \<le> rr_risk (fan_in p rs)"
proof (cases "list_all sr_audited rs")
  case False
  then show ?thesis
    by (cases "sr_decision r"; cases "sr_risk r")
       (simp_all add: fan_in_def Let_def less_eq_decision_def less_eq_risk_level_def)
next
  case True
  obtain d where d: "max_by decision_rank (map sr_decision rs) = Some d"
    using assms(1) by (cases "max_by decision_rank (map sr_decision rs)") auto
  obtain k where k: "max_by risk_rank (map sr_risk rs) = Some k"
    using assms(1) by (cases "max_by risk_rank (map sr_risk rs)") auto
  have "decision_rank (sr_decision r) \<le> decision_rank d"
    by (rule decision_ranked.max_ge[OF d]) (use assms(2) in simp)
  moreover have "risk_rank (sr_risk r) \<le> risk_rank k"
    by (rule risk_ranked.max_ge[OF k]) (use assms(2) in simp)
  ultimately show ?thesis
    using True d k by (simp add: fan_in_def Let_def less_eq_decision_def less_eq_risk_level_def)
qed

lemma fan_in_unaudited:
  "r \<in> set rs \<Longrightarrow> \<not> sr_audited r \<Longrightarrow>
     rr_decision (fan_in p rs) = Block \<and> rr_risk (fan_in p rs) = Critical \<and>
     \<not> rr_audit_complete (fan_in p rs)"
  by (auto simp: fan_in_def Let_def list_all_iff)

lemma run_one_audited_or_blocked:
  "sr_audited (run_one env results t) \<or> sr_decision (run_one env results t) = Block"
  by (simp add: run_one_def record_audit_def split: option.splits)

text \<open>A task that did not complete is at least an approval, and a block when mandatory.\<close>

lemma run_one_incomplete:
  assumes "sr_status (run_one env results t) \<noteq> Completed"
  shows "Require_Approval \<le> sr_decision (run_one env results t)"
    "st_mandatory t \<Longrightarrow> sr_decision (run_one env results t) = Block"
  using assms
  by (auto simp: run_one_def record_audit_def failure_def run_handler_of_def less_eq_decision_def
      split: option.splits handler_run.splits if_splits)

lemma run_one_completed:
  assumes "sr_status (run_one env results t) = Completed"
  shows "\<exists>h out. re_handler env (st_agent t) = Some h \<and> h t = Returned out \<and>
     sr_decision (run_one env results t) = so_decision out \<and> sr_audited (run_one env results t) \<and>
     (st_always_run t \<or> \<not> blocked_predecessor results t)"
  using assms
  by (auto simp: run_one_def record_audit_def failure_def run_handler_of_def
      split: option.splits handler_run.splits if_splits)

end
