(* ===== verification/RouterPlanning.thy ===== *)
theory RouterPlanning
  imports RouterExec PyValues
begin

text \<open>
  The planning half of SafeRouter-Gov, \<^verbatim>\<open>safeagent_gov/router/service.py\<close>: from a capability
  retrieval to a bounded plan of analysis tasks with the audit task last. SHA-256, the
  retrieval and the capability graph (names and outgoing edges of an agent) are inputs.
\<close>

section \<open>Behaviour of the agents\<close>

datatype priority = Critical_First | High_First | Medium_First | Low_First

fun priority_value :: "priority \<Rightarrow> string" where
  "priority_value Critical_First = ''critical''"
| "priority_value High_First = ''high''"
| "priority_value Medium_First = ''medium''"
| "priority_value Low_First = ''low''"

fun priority_rank :: "priority \<Rightarrow> nat" where
  "priority_rank Critical_First = 0"
| "priority_rank High_First = 1"
| "priority_rank Medium_First = 2"
| "priority_rank Low_First = 3"

record agent_behavior =
  ab_task :: string
  ab_priority :: priority
  ab_timeout_ms :: int
  ab_group :: string
  ab_mandatory :: bool
  ab_always_run :: bool

definition audit_agent :: string where
  "audit_agent = ''agent.audit_agent''"

definition agent_behavior_table :: "(string \<times> agent_behavior) list" where
  "agent_behavior_table =
     [(''agent.tool_risk_agent'', \<lparr>ab_task = ''assess candidate tools'', ab_priority = Critical_First,
         ab_timeout_ms = 5000, ab_group = ''tool_risk'', ab_mandatory = True, ab_always_run = False\<rparr>),
      (''agent.compliance_agent'', \<lparr>ab_task = ''judge compliance'', ab_priority = High_First,
         ab_timeout_ms = 8000, ab_group = ''compliance'', ab_mandatory = True, ab_always_run = False\<rparr>),
      (''agent.skill_scan_agent'', \<lparr>ab_task = ''scan the skill'', ab_priority = Critical_First,
         ab_timeout_ms = 15000, ab_group = ''supply_chain'', ab_mandatory = True, ab_always_run = False\<rparr>),
      (''agent.document_risk_agent'', \<lparr>ab_task = ''inspect documents'', ab_priority = Critical_First,
         ab_timeout_ms = 8000, ab_group = ''security_precheck'', ab_mandatory = True,
         ab_always_run = False\<rparr>),
      (''agent.gov_rag_agent'', \<lparr>ab_task = ''retrieve and summarise'', ab_priority = Medium_First,
         ab_timeout_ms = 20000, ab_group = ''content_analysis'', ab_mandatory = False,
         ab_always_run = False\<rparr>),
      (''agent.audit_agent'', \<lparr>ab_task = ''collect and audit'', ab_priority = Critical_First,
         ab_timeout_ms = 5000, ab_group = ''audit_finalize'', ab_mandatory = True,
         ab_always_run = True\<rparr>)]"

definition behavior :: "string \<Rightarrow> agent_behavior option" where
  "behavior a = map_of agent_behavior_table a"

definition risk_by_intent :: "string \<Rightarrow> risk_level" where
  "risk_by_intent i =
     (if i \<in> {''intent.sensitive_external_send'', ''intent.skill_security_scan''} then High
      else if i = ''intent.operations_command'' then Critical
      else if i \<in> {''intent.policy_summary'', ''intent.general_task''} then Low
      else Medium)"

section \<open>Planning\<close>

record plan_request =
  pr_parallel :: bool
  pr_max_sub_agents :: nat

definition valid_plan_request :: "plan_request \<Rightarrow> bool" where
  "valid_plan_request r \<longleftrightarrow> 2 \<le> pr_max_sub_agents r \<and> pr_max_sub_agents r \<le> 16"

record retrieval =
  rv_agents :: "string list"
  rv_skills :: "string list"
  rv_intent :: string
  rv_within_budget :: bool

record plan_env =
  pe_sha :: "string \<Rightarrow> string"
  pe_name :: "string \<Rightarrow> string option"
  pe_skills :: "string \<Rightarrow> string list"
  pe_tools :: "string \<Rightarrow> string list"
  pe_digest :: string

datatype plan_error = Plan_Key_Error | Plan_Invalid

definition plan_task_id :: "plan_env \<Rightarrow> string \<Rightarrow> string \<Rightarrow> nat \<Rightarrow> string" where
  "plan_task_id env trace agent i =
     ''subtask_'' @ take 16 (pe_sha env (trace @ '':'' @ agent @ '':'' @ show_nat i))"

definition select_agents :: "plan_request \<Rightarrow> retrieval \<Rightarrow> string list" where
  "select_agents req rv =
     (let candidates = filter (\<lambda>a. behavior a \<noteq> None) (rv_agents rv);
          rank = (\<lambda>a. case behavior a of Some b \<Rightarrow> priority_rank (ab_priority b) | None \<Rightarrow> 0);
          analysis = sort_key rank (sort (filter (\<lambda>a. a \<noteq> audit_agent) candidates));
          reserve = audit_agent \<in> set candidates
      in take (pr_max_sub_agents req - (if reserve then 1 else 0)) analysis @
         (if reserve then [audit_agent] else []))"

definition task_specs :: "plan_request \<Rightarrow> retrieval \<Rightarrow> string list" where
  "task_specs req rv = (let s = select_agents req rv in if s = [] then [audit_agent] else s)"

text \<open>An analysis task; \<open>None\<close> when the graph has no such node (\<open>KeyError\<close>).\<close>

definition analysis_task :: "plan_env \<Rightarrow> string \<Rightarrow> nat \<times> string \<Rightarrow> sub_task option" where
  "analysis_task env trace = (\<lambda>(i, agent).
     case (behavior agent, pe_name env agent) of
       (Some b, Some nm) \<Rightarrow>
         Some \<lparr>st_id = plan_task_id env trace agent i, st_agent = agent, st_name = nm,
            st_task = ab_task b, st_priority = priority_value (ab_priority b),
            st_timeout_ms = ab_timeout_ms b, st_group = ab_group b, st_skills = pe_skills env agent,
            st_tools = pe_tools env agent, st_predecessors = [], st_mandatory = ab_mandatory b,
            st_always_run = False\<rparr>
     | _ \<Rightarrow> None)"

fun all_some :: "'a option list \<Rightarrow> 'a list option" where
  "all_some [] = Some []"
| "all_some (None # xs) = None"
| "all_some (Some x # xs) = map_option ((#) x) (all_some xs)"

definition analysis_specs :: "string list \<Rightarrow> (nat \<times> string) list" where
  "analysis_specs specs =
     filter (\<lambda>(_, a). case behavior a of Some b \<Rightarrow> \<not> ab_always_run b | None \<Rightarrow> False)
       (zip [1..<Suc (length specs)] specs)"

definition audit_task :: "plan_env \<Rightarrow> string \<Rightarrow> nat \<Rightarrow> sub_task list \<Rightarrow> sub_task option" where
  "audit_task env trace i before =
     (case (behavior audit_agent, pe_name env audit_agent) of
        (Some b, Some nm) \<Rightarrow>
          Some \<lparr>st_id = plan_task_id env trace audit_agent i, st_agent = audit_agent, st_name = nm,
             st_task = ab_task b, st_priority = ''critical'', st_timeout_ms = ab_timeout_ms b,
             st_group = ''audit_finalize'', st_skills = pe_skills env audit_agent, st_tools = [],
             st_predecessors = map st_id before, st_mandatory = True, st_always_run = True\<rparr>
      | _ \<Rightarrow> None)"

definition plan_tasks :: "plan_env \<Rightarrow> plan_request \<Rightarrow> retrieval \<Rightarrow> string \<Rightarrow> sub_task list option" where
  "plan_tasks env req rv trace =
     (let specs = task_specs req rv
      in case all_some (map (analysis_task env trace) (analysis_specs specs)) of
           None \<Rightarrow> None
         | Some tasks \<Rightarrow>
             if audit_agent \<in> set (select_agents req rv) \<or> tasks = []
               then map_option (\<lambda>a. tasks @ [a]) (audit_task env trace (length specs + 1) tasks)
             else Some tasks)"

definition retrieved :: "string list \<Rightarrow> retrieval \<Rightarrow> string list" where
  "retrieved wanted rv = sort (filter (\<lambda>s. s \<in> set (rv_skills rv)) wanted)"

definition route_plan ::
    "plan_env \<Rightarrow> plan_request \<Rightarrow> retrieval \<Rightarrow> string \<Rightarrow> plan_error + router_plan" where
  "route_plan env req rv trace =
     (case plan_tasks env req rv trace of
        None \<Rightarrow> Inl Plan_Key_Error
      | Some tasks \<Rightarrow>
          (let p = \<lparr>rp_trace_id = trace,
                rp_plan_id = ''router_'' @
                  take 24 (pe_sha env (trace @ '':'' @ rv_intent rv @ '':'' @ pe_digest env)),
                rp_intent = rv_intent rv, rp_risk_baseline = risk_by_intent (rv_intent rv),
                rp_parallel = pr_parallel req,
                rp_prechecks = retrieved [''skill.promptshield_gov''] rv,
                rp_tool_guards = retrieved [''skill.mcpguard_gov''] rv,
                rp_context_guards =
                  retrieved [''skill.sensitivedata_gov'', ''skill.compliance_gov''] rv,
                rp_postchecks = retrieved [''skill.traceaudit_gov''] rv,
                rp_tasks = tasks,
                rp_warnings = (if rv_within_budget rv then [] else [''token budget exceeded''])\<rparr>
           in if valid_plan p then Inr p else Inl Plan_Invalid))"

section \<open>The shape of a plan\<close>

lemma all_some_SomeD: "all_some xs = Some ys \<Longrightarrow> xs = map Some ys"
  by (induction xs arbitrary: ys rule: all_some.induct) auto

lemma analysis_tasks:
  assumes "all_some (map (analysis_task env trace) specs) = Some tasks" "t \<in> set tasks"
  shows "st_predecessors t = [] \<and> \<not> st_always_run t"
proof -
  have "Some t \<in> set (map Some tasks)" using assms(2) by simp
  then have "Some t \<in> set (map (analysis_task env trace) specs)"
    using all_some_SomeD[OF assms(1)] by simp
  then obtain q where "analysis_task env trace q = Some t" by auto
  then show ?thesis by (cases q) (auto simp: analysis_task_def split: option.splits)
qed

lemma audit_taskD:
  "audit_task env trace i before = Some a \<Longrightarrow>
     st_agent a = audit_agent \<and> st_always_run a \<and> st_mandatory a \<and>
     st_predecessors a = map st_id before"
  by (auto simp: audit_task_def split: option.splits)

text \<open>
  Analysis tasks have no predecessors; the audit task, if there is one, is last and waits
  for all of them.
\<close>

lemma plan_tasks_shape:
  assumes "plan_tasks env req rv trace = Some tasks"
  obtains analysis where "\<forall>t \<in> set analysis. st_predecessors t = [] \<and> \<not> st_always_run t"
    "tasks = analysis \<or>
     (\<exists>a. tasks = analysis @ [a] \<and> st_agent a = audit_agent \<and> st_always_run a \<and> st_mandatory a \<and>
        st_predecessors a = map st_id analysis)"
    "audit_agent \<in> set (select_agents req rv) \<Longrightarrow> tasks \<noteq> analysis"
proof -
  obtain analysis where an: "all_some (map (analysis_task env trace)
      (analysis_specs (task_specs req rv))) = Some analysis"
    using assms by (auto simp: plan_tasks_def Let_def split: option.splits)
  have rest: "(if audit_agent \<in> set (select_agents req rv) \<or> analysis = []
       then map_option (\<lambda>a. analysis @ [a])
         (audit_task env trace (length (task_specs req rv) + 1) analysis)
       else Some analysis) = Some tasks"
    using assms an unfolding plan_tasks_def Let_def by simp
  have none: "\<forall>t \<in> set analysis. st_predecessors t = [] \<and> \<not> st_always_run t"
    using analysis_tasks[OF an] by blast
  show thesis
  proof (cases "audit_agent \<in> set (select_agents req rv) \<or> analysis = []")
    case True
    with rest obtain a where "audit_task env trace (length (task_specs req rv) + 1) analysis = Some a"
      "tasks = analysis @ [a]" by auto
    with audit_taskD none show thesis by (intro that[of analysis]) auto
  next
    case False
    with rest none show thesis by (intro that[of analysis]) auto
  qed
qed

definition two_layers :: "sub_task list \<Rightarrow> sub_task list list" where
  "two_layers tasks =
     [filter (\<lambda>t. st_predecessors t = []) tasks, filter (\<lambda>t. st_predecessors t \<noteq> []) tasks]"

text \<open>Every plan the service makes has generations: the analysis tasks, then the audit.\<close>

lemma plan_tasks_layered:
  assumes "plan_tasks env req rv trace = Some tasks"
  shows "layers_ok tasks (two_layers tasks)"
proof -
  obtain analysis where a: "\<forall>t \<in> set analysis. st_predecessors t = [] \<and> \<not> st_always_run t"
    "tasks = analysis \<or>
     (\<exists>a. tasks = analysis @ [a] \<and> st_agent a = audit_agent \<and> st_always_run a \<and> st_mandatory a \<and>
        st_predecessors a = map st_id analysis)"
    by (rule plan_tasks_shape[OF assms])
  have "mset (concat (two_layers tasks)) = mset tasks"
    by (simp add: two_layers_def)
  moreover have "layered {} (two_layers tasks)"
    using a by (auto simp: two_layers_def)
  ultimately show ?thesis by (simp add: layers_ok_def)
qed

lemma length_analysis: "length (analysis_specs specs) \<le> length specs"
  unfolding analysis_specs_def by (rule order_trans[OF length_filter_le]) simp

lemma select_agents_length:
  assumes "valid_plan_request req"
  shows "length (select_agents req rv) \<le> pr_max_sub_agents req"
  using assms by (auto simp: select_agents_def valid_plan_request_def Let_def min_def)

end
