(* ===== verification/RouterProps.thy ===== *)
theory RouterProps
  imports RouterPlanning
begin

text \<open>
  The properties of SafeRouter-Gov: fan-in fails closed, and plans end in their audit.
\<close>

section \<open>A small plan\<close>

definition small_task :: "string \<Rightarrow> string \<Rightarrow> string list \<Rightarrow> bool \<Rightarrow> sub_task" where
  "small_task i agent preds mand =
     \<lparr>st_id = i, st_agent = agent, st_name = agent, st_task = agent, st_priority = ''high'',
      st_timeout_ms = 10, st_group = ''g'', st_skills = [], st_tools = [], st_predecessors = preds,
      st_mandatory = mand, st_always_run = False\<rparr>"

definition small_plan :: "sub_task list \<Rightarrow> router_plan" where
  "small_plan ts = \<lparr>rp_trace_id = ''T'', rp_plan_id = ''P'', rp_intent = ''i'', rp_risk_baseline = Low,
     rp_parallel = True, rp_prechecks = [], rp_tool_guards = [], rp_context_guards = [],
     rp_postchecks = [], rp_tasks = ts, rp_warnings = []\<rparr>"

text \<open>Agent \<open>ok\<close> allows, \<open>bad\<close> blocks, \<open>late\<close> times out; nothing else is registered.\<close>

definition small_env :: router_env where
  "small_env = \<lparr>re_handler = (\<lambda>a.
       if a = ''ok'' then Some (\<lambda>_. Returned \<lparr>so_decision = Allow, so_risk = Safe, so_output = []\<rparr>)
       else if a = ''bad'' then Some (\<lambda>_. Returned \<lparr>so_decision = Block, so_risk = High, so_output = []\<rparr>)
       else if a = ''late'' then Some (\<lambda>_. Timed_Out) else None),
     re_audit = (\<lambda>_. None), re_layers = (\<lambda>ts. Some (map (\<lambda>t. [t]) ts))\<rparr>"

section \<open>Fan-in\<close>




text \<open>A plan passes only if every task passed: when the verdict needs no approval, each task had a
  registered handler that returned in time with a decision at most the verdict, no task ran behind a
  blocked predecessor unless it always runs, and every result was audited.\<close>

theorem router_pass_means_all_passed:
  assumes run: "execute_plan env p = Inr res" and p: "valid_plan p"
    and nx: "\<And>layers. re_layers env (rp_tasks p) = Some layers \<Longrightarrow> layers_ok (rp_tasks p) layers"
    and pass: "rr_decision res < Require_Approval" and t: "t \<in> set (rp_tasks p)"
  shows "\<exists>h out. re_handler env (st_agent t) = Some h \<and> h t = Returned out \<and>
    so_decision out \<le> rr_decision res \<and>
    (\<exists>r \<in> set (rr_results res). sr_task_id r = st_id t \<and> sr_status r = Completed \<and> sr_audited r)"
proof -
  obtain results where r: "rr_results res = map (\<lambda>t. run_one env results t) (rp_tasks p)"
    and f: "res = fan_in p (rr_results res)" using execute_planD[OF run p nx] by blast
  have ne: "rr_results res \<noteq> []" using p r by (auto simp: valid_plan_def)
  have mem: "run_one env results t \<in> set (rr_results res)" using t r by simp
  have ge: "sr_decision (run_one env results t) \<le> rr_decision res"
    using fan_in_ge[OF ne mem, of p] f by simp
  have "sr_status (run_one env results t) = Completed"
    using run_one_incomplete(1)[of env results t] ge pass by (meson leD le_less_trans)
  from run_one_completed[OF this] this ge mem show ?thesis
    by (auto intro!: bexI[OF _ mem] simp: run_one_def record_audit_def run_handler_of_def
        split: option.splits handler_run.splits if_splits)
qed

theorem router_pass_means_all_passed_witness:
  "\<exists>h out. re_handler small_env ''ok'' = Some h \<and> h (small_task ''a'' ''ok'' [] True) = Returned out"
proof -
  let ?t = "small_task ''a'' ''ok'' [] True"
  obtain res where run: "execute_plan small_env (small_plan [?t]) = Inr res"
    by (simp add: execute_plan_def small_env_def small_plan_def Let_def)
  have p: "valid_plan (small_plan [?t])" by (simp add: valid_plan_def small_plan_def small_task_def)
  have nx: "layers_ok (rp_tasks (small_plan [?t])) layers"
    if "re_layers small_env (rp_tasks (small_plan [?t])) = Some layers" for layers
    using that by (auto simp: small_env_def small_plan_def small_task_def layers_ok_def)
  have "map_sum id rr_decision (execute_plan small_env (small_plan [?t])) = Inr Allow" by code_simp
  then have "rr_decision res < Require_Approval" using run by (simp add: less_decision_def)
  from router_pass_means_all_passed[OF run p nx this, of ?t] show ?thesis
    by (auto simp: small_plan_def small_task_def)
qed

section \<open>Planning\<close>

text \<open>A routed plan can always be scheduled and ends in its audit: its tasks have generations, at most
  the requested number of analysis agents is selected, and whenever the retrieval offers the audit agent
  it is the last task, waits for all others, and always runs, so that no blocked predecessor skips it.\<close>

theorem routed_plan_ends_in_audit:
  assumes plan: "route_plan env req rv trace = Inr p" and req: "valid_plan_request req"
    and audit: "audit_agent \<in> set (rv_agents rv)"
  shows "layers_ok (rp_tasks p) (two_layers (rp_tasks p)) \<and>
    length (select_agents req rv) \<le> pr_max_sub_agents req \<and>
    st_agent (last (rp_tasks p)) = audit_agent \<and>
    st_predecessors (last (rp_tasks p)) = map st_id (butlast (rp_tasks p)) \<and>
    sr_status (run_one renv results (last (rp_tasks p))) \<noteq> Skipped"
proof -
  have tasks: "plan_tasks env req rv trace = Some (rp_tasks p)"
    using plan by (auto simp: route_plan_def Let_def split: option.splits if_splits)
  have "behavior audit_agent \<noteq> None" by code_simp
  then have sel: "audit_agent \<in> set (select_agents req rv)"
    using audit by (simp add: select_agents_def Let_def)
  obtain analysis where an: "rp_tasks p = analysis \<or>
     (\<exists>a. rp_tasks p = analysis @ [a] \<and> st_agent a = audit_agent \<and> st_always_run a \<and> st_mandatory a \<and>
        st_predecessors a = map st_id analysis)" "rp_tasks p \<noteq> analysis"
    using plan_tasks_shape[OF tasks] sel by metis
  then obtain a where a: "rp_tasks p = analysis @ [a]" "st_agent a = audit_agent" "st_always_run a"
    "st_predecessors a = map st_id analysis" by blast
  have "sr_status (run_one renv results a) \<noteq> Skipped"
    using a(3) by (simp add: run_one_def record_audit_def failure_def run_handler_of_def
        split: option.splits handler_run.splits)
  with a plan_tasks_layered[OF tasks] select_agents_length[OF req] show ?thesis by simp
qed

definition small_retrieval :: retrieval where
  "small_retrieval = \<lparr>rv_agents = [''agent.audit_agent'', ''agent.compliance_agent''],
     rv_skills = [''skill.mcpguard_gov''], rv_intent = ''intent.policy_summary'',
     rv_within_budget = True\<rparr>"

definition small_plan_env :: plan_env where
  "small_plan_env = \<lparr>pe_sha = (\<lambda>s. rev s), pe_name = Some, pe_skills = (\<lambda>_. []), pe_tools = (\<lambda>_. []),
     pe_digest = ''d''\<rparr>"

theorem routed_plan_ends_in_audit_witness:
  "\<exists>p. route_plan small_plan_env \<lparr>pr_parallel = True, pr_max_sub_agents = 4\<rparr> small_retrieval ''T'' = Inr p \<and>
     st_agent (last (rp_tasks p)) = audit_agent"
proof -
  have "is_ok (route_plan small_plan_env \<lparr>pr_parallel = True, pr_max_sub_agents = 4\<rparr> small_retrieval ''T'')"
    by code_simp
  then obtain p where p: "route_plan small_plan_env \<lparr>pr_parallel = True, pr_max_sub_agents = 4\<rparr>
      small_retrieval ''T'' = Inr p" by (auto simp: is_ok_iff)
  from routed_plan_ends_in_audit[OF p] show ?thesis
    using p by (auto simp: valid_plan_request_def small_retrieval_def audit_agent_def)
qed

section \<open>What the executor does not guarantee\<close>

text \<open>
  A block is not carried past a skipped optional task: \<open>b\<close> is skipped behind the blocked \<open>a\<close>
  and ends in \<open>Require_Approval\<close>, so \<open>c\<close>, which depends on \<open>a\<close> only through \<open>b\<close>, runs.
\<close>

lemma block_stops_at_skipped_task:
  "map_sum id (\<lambda>res. map sr_status (rr_results res)) (execute_plan small_env (small_plan
     [small_task ''a'' ''bad'' [] True, small_task ''b'' ''ok'' [''a''] False,
      small_task ''c'' ''ok'' [''b''] False])) = Inr [Completed, Skipped, Completed]"
  by code_simp

end
