(* ===== verification/TaskRuntime.thy ===== *)
theory TaskRuntime
  imports Lifecycle Contracts
begin

text \<open>
  The in-memory task runtime of \<^verbatim>\<open>safeagent_gov/task_runtime/\<close>: the contracts and
  \<open>TaskDispatcher\<close> of \<open>dispatcher.py\<close>. Coroutines are threads with a program counter; each
  definition is the code between two \<open>await\<close>s, and any interleaving of threads, with any
  answer of the audit hook and of a handler, is a run; \<open>stop\<close>, with or without drain, may cut
  in anywhere. Identifiers, the clock and the
  answers are inputs. Error messages, which copy the exception's text, are not carried.
\<close>

section \<open>Contracts\<close>

datatype task_kind = Security_Check | Agent_Kind | Skill_Scan_Kind | Evaluation_Kind
datatype task_pool = Security_Pool | Agent_Pool | Evaluation_Pool
datatype task_priority = Priority_Critical | Priority_High | Priority_Medium | Priority_Low
datatype task_status = Queued | Running | Succeeded | Task_Failed | Rejected

fun terminal :: "task_status \<Rightarrow> bool" where
  "terminal Queued = False"
| "terminal Running = False"
| "terminal Succeeded = True"
| "terminal Task_Failed = True"
| "terminal Rejected = True"

fun task_priority_rank :: "task_priority \<Rightarrow> nat" where
  "task_priority_rank Priority_Critical = 0"
| "task_priority_rank Priority_High = 1"
| "task_priority_rank Priority_Medium = 2"
| "task_priority_rank Priority_Low = 3"

fun kind_pool :: "task_kind \<Rightarrow> task_pool" where
  "kind_pool Security_Check = Security_Pool"
| "kind_pool Skill_Scan_Kind = Security_Pool"
| "kind_pool Agent_Kind = Agent_Pool"
| "kind_pool Evaluation_Kind = Evaluation_Pool"

definition pools :: "task_pool list" where
  "pools = [Security_Pool, Agent_Pool, Evaluation_Pool]"

record submission =
  sb_kind :: task_kind
  sb_priority :: task_priority
  sb_payload :: pydict
  sb_idem :: "string option"
  sb_timeout_ms :: int
  sb_max_attempts :: nat

definition valid_submission :: "(pydict \<Rightarrow> nat) \<Rightarrow> submission \<Rightarrow> bool" where
  "valid_submission json_size s \<longleftrightarrow>
     (case sb_idem s of None \<Rightarrow> True | Some k \<Rightarrow> len_between 8 160 k) \<and>
     0 < sb_timeout_ms s \<and> sb_timeout_ms s \<le> 600000 \<and>
     1 \<le> sb_max_attempts s \<and> sb_max_attempts s \<le> 3 \<and> json_size (sb_payload s) \<le> 262144"

record task_identity =
  ti_tenant :: string
  ti_actor :: string
  ti_role :: string

datatype task_error = Audit_Failure string | Backpressure | Handler_Failure string | Unconfirmed_Submission

record task_record =
  tk_id :: string
  tk_trace :: string
  tk_tenant :: string
  tk_actor :: string
  tk_role :: string
  tk_kind :: task_kind
  tk_pool :: task_pool
  tk_priority :: task_priority
  tk_payload :: pydict
  tk_idem :: "string option"
  tk_timeout_ms :: int
  tk_max_attempts :: nat
  tk_status :: task_status
  tk_attempts :: nat
  tk_result :: "pydict option"
  tk_error :: "task_error option"
  tk_audits :: nat
  tk_created :: int
  tk_updated :: int
  tk_started :: "int option"
  tk_completed :: "int option"

section \<open>The dispatcher\<close>

text \<open>
  Where each coroutine waits, with the local variables it still needs; \<open>Wk_*\<close> are the pool
  workers, and their last \<open>nat\<close>s are the attempts allowed and the attempt under way.
\<close>

type_synonym queue_item = "nat \<times> nat \<times> string"

datatype thread =
    Sub_Replay string string
  | Sub_Audit string task_priority task_pool
  | Sub_Enqueue task_pool queue_item
  | Sub_Reject_Audit string
  | Wk_Idle task_pool
  | Wk_Start task_pool string nat
  | Wk_Attempt task_pool string nat nat
  | Wk_Retry task_pool string nat nat
  | Wk_Complete task_pool string pydict
  | Wk_Final task_pool string pydict
  | Wk_Failing task_pool string

datatype reply = Reply_Record task_record | Reply_Not_Found | Reply_Runtime_Error | Reply_Backpressure

record task_metrics =
  m_submitted :: nat
  m_accepted :: nat
  m_rejected :: nat
  m_started :: nat
  m_succeeded :: nat
  m_failed :: nat
  m_retried :: nat
  m_replays :: nat
  m_audit_failures :: nat

record dispatcher =
  ds_records :: "task_record list"
  ds_idem :: "(string \<times> string) list"
  ds_queues :: "task_pool \<Rightarrow> queue_item list"
  ds_sequence :: nat
  ds_running :: bool
  ds_stopping :: bool
  ds_metrics :: task_metrics
  ds_threads :: "thread list"
  ds_log :: "(string \<times> string) list"
  ds_replies :: "(string \<times> reply) list"

record task_config =
  tc_workers :: "task_pool \<Rightarrow> nat"
  tc_capacity :: "task_pool \<Rightarrow> nat"
  tc_max_records :: nat
  tc_handlers :: "task_kind list"
  tc_json_size :: "pydict \<Rightarrow> nat"

definition zero_metrics :: task_metrics where
  "zero_metrics = \<lparr>m_submitted = 0, m_accepted = 0, m_rejected = 0, m_started = 0, m_succeeded = 0,
     m_failed = 0, m_retried = 0, m_replays = 0, m_audit_failures = 0\<rparr>"

definition new_dispatcher :: dispatcher where
  "new_dispatcher = \<lparr>ds_records = [], ds_idem = [], ds_queues = (\<lambda>_. []), ds_sequence = 1,
     ds_running = False, ds_stopping = False, ds_metrics = zero_metrics, ds_threads = [],
     ds_log = [], ds_replies = []\<rparr>"

text \<open>
  The answer a waiting coroutine gets: of the audit hook (recorded; recorded, but the call
  timed out or failed afterwards; not recorded), of the handler, or of the queue.
\<close>

datatype audit_answer = Audit_Ok | Audit_Late string | Audit_Raised string
datatype handler_answer = Handler_Result pydict | Handler_Transient string | Handler_Broken string
datatype answer = Audit audit_answer | Handler handler_answer | Proceed | Enqueue_Timeout

definition count_metric :: "(task_metrics \<Rightarrow> task_metrics) \<Rightarrow> dispatcher \<Rightarrow> dispatcher" where
  "count_metric f s = s\<lparr>ds_metrics := f (ds_metrics s)\<rparr>"

definition get_task :: "string \<Rightarrow> dispatcher \<Rightarrow> task_record option" where
  "get_task k s = row_get tk_id k (ds_records s)"

text \<open>\<open>_update\<close>; the callers below know the record to exist.\<close>

definition update_task ::
    "string \<Rightarrow> int \<Rightarrow> (task_record \<Rightarrow> task_record) \<Rightarrow> dispatcher \<Rightarrow> dispatcher" where
  "update_task k now f s =
     s\<lparr>ds_records := row_update tk_id k (\<lambda>r. (f r)\<lparr>tk_updated := now\<rparr>) (ds_records s)\<rparr>"

definition add_reply :: "string \<Rightarrow> reply \<Rightarrow> dispatcher \<Rightarrow> dispatcher" where
  "add_reply k r s = s\<lparr>ds_replies := ds_replies s @ [(k, r)]\<rparr>"

definition reply_get :: "string \<Rightarrow> string \<Rightarrow> dispatcher \<Rightarrow> dispatcher" where
  "reply_get tag k s =
     add_reply tag (case get_task k s of Some r \<Rightarrow> Reply_Record r | None \<Rightarrow> Reply_Not_Found) s"

definition log_audit :: "string \<Rightarrow> string \<Rightarrow> dispatcher \<Rightarrow> dispatcher" where
  "log_audit k stage s = s\<lparr>ds_log := ds_log s @ [(k, stage)]\<rparr>"

text \<open>
  \<open>_audit_record\<close> when its await returns: the exception, if any, and the state. The record was
  there when the await began; if it has been evicted since, the audit is written and the
  update raises \<open>TaskNotFoundError\<close>.
\<close>

definition audit_record ::
    "string \<Rightarrow> string \<Rightarrow> audit_answer \<Rightarrow> int \<Rightarrow> dispatcher \<Rightarrow> string option \<times> dispatcher" where
  "audit_record k stage a now s =
     (case a of
        Audit_Ok \<Rightarrow>
          (case get_task k s of
             None \<Rightarrow> (Some ''TaskNotFoundError'', log_audit k stage s)
           | Some _ \<Rightarrow>
               (None, update_task k now (\<lambda>r. r\<lparr>tk_audits := tk_audits r + 1\<rparr>) (log_audit k stage s)))
      | Audit_Late e \<Rightarrow> (Some e, log_audit k stage s)
      | Audit_Raised e \<Rightarrow> (Some e, s))"

section \<open>Submitting\<close>

definition idem_scope :: "task_identity \<Rightarrow> string option \<Rightarrow> string option" where
  "idem_scope ident key =
     (case key of
        None \<Rightarrow> None
      | Some k \<Rightarrow> if k = [] then None else Some (ti_tenant ident @ '':'' @ ti_actor ident @ '':'' @ k))"

definition record_scope :: "task_record \<Rightarrow> string option" where
  "record_scope r =
     idem_scope \<lparr>ti_tenant = tk_tenant r, ti_actor = tk_actor r, ti_role = tk_role r\<rparr> (tk_idem r)"

text \<open>
  At capacity the oldest finished records are dropped, with their idempotency keys: enough
  for one more record, if there are as many.
\<close>

definition evict :: "task_config \<Rightarrow> dispatcher \<Rightarrow> dispatcher" where
  "evict cfg s =
     (if length (ds_records s) < tc_max_records cfg then s
      else (let finished = sort_key tk_updated (filter (\<lambda>r. terminal (tk_status r)) (ds_records s));
                victims = take (length (ds_records s) - tc_max_records cfg + 1) finished
            in s\<lparr>ds_records := filter (\<lambda>r. tk_id r \<notin> tk_id ` set victims) (ds_records s),
                 ds_idem := filter (\<lambda>(k, _). Some k \<notin> record_scope ` set victims) (ds_idem s)\<rparr>))"

definition new_record ::
    "submission \<Rightarrow> task_identity \<Rightarrow> string \<Rightarrow> string \<Rightarrow> int \<Rightarrow> task_record" where
  "new_record sub ident trace tid now =
     \<lparr>tk_id = tid, tk_trace = trace, tk_tenant = ti_tenant ident, tk_actor = ti_actor ident,
      tk_role = ti_role ident, tk_kind = sb_kind sub, tk_pool = kind_pool (sb_kind sub),
      tk_priority = sb_priority sub, tk_payload = sb_payload sub, tk_idem = sb_idem sub,
      tk_timeout_ms = sb_timeout_ms sub, tk_max_attempts = sb_max_attempts sub, tk_status = Queued,
      tk_attempts = 0, tk_result = None, tk_error = None, tk_audits = 0, tk_created = now,
      tk_updated = now, tk_started = None, tk_completed = None\<rparr>"

definition store_task ::
    "task_config \<Rightarrow> submission \<Rightarrow> task_identity \<Rightarrow> string \<Rightarrow> string \<Rightarrow> int \<Rightarrow> dispatcher \<Rightarrow> dispatcher" where
  "store_task cfg sub ident trace tid now s =
     (let u = evict cfg s
      in if tc_max_records cfg \<le> length (ds_records u)
           then add_reply tid Reply_Backpressure (count_metric (\<lambda>m. m\<lparr>m_rejected := m_rejected m + 1\<rparr>) u)
         else u\<lparr>ds_records := ds_records u @ [new_record sub ident trace tid now],
                ds_idem := (case idem_scope ident (sb_idem sub) of
                    None \<Rightarrow> ds_idem u
                  | Some sc \<Rightarrow> (sc, tid) # filter (\<lambda>(k, _). k \<noteq> sc) (ds_idem u)),
                ds_threads := ds_threads u @ [Sub_Audit tid (sb_priority sub) (kind_pool (sb_kind sub))]\<rparr>)"

definition submit_task ::
    "task_config \<Rightarrow> submission \<Rightarrow> task_identity \<Rightarrow> string \<Rightarrow> string \<Rightarrow> int \<Rightarrow> dispatcher \<Rightarrow> dispatcher" where
  "submit_task cfg sub ident trace tid now s0 =
     (let s = count_metric (\<lambda>m. m\<lparr>m_submitted := m_submitted m + 1\<rparr>) s0;
          refuse = add_reply tid Reply_Runtime_Error
            (count_metric (\<lambda>m. m\<lparr>m_rejected := m_rejected m + 1\<rparr>) s)
      in if \<not> ds_running s \<or> ds_stopping s then refuse
         else if sb_kind sub \<notin> set (tc_handlers cfg) then refuse
         else (case idem_scope ident (sb_idem sub) of
             None \<Rightarrow> store_task cfg sub ident trace tid now s
           | Some sc \<Rightarrow>
               (case map_of (ds_idem s) sc of
                  Some existing \<Rightarrow>
                    (count_metric (\<lambda>m. m\<lparr>m_replays := m_replays m + 1\<rparr>) s)
                      \<lparr>ds_threads := ds_threads s @ [Sub_Replay tid existing]\<rparr>
                | None \<Rightarrow> store_task cfg sub ident trace tid now s)))"

section \<open>Resuming a submission\<close>

definition reject_task :: "string \<Rightarrow> task_error \<Rightarrow> int \<Rightarrow> dispatcher \<Rightarrow> dispatcher" where
  "reject_task k e now s =
     update_task k now (\<lambda>r. r\<lparr>tk_status := Rejected, tk_error := Some e, tk_completed := Some now\<rparr>)
       (count_metric (\<lambda>m. m\<lparr>m_rejected := m_rejected m + 1\<rparr>) s)"

definition audit_failed :: "dispatcher \<Rightarrow> dispatcher" where
  "audit_failed s = count_metric (\<lambda>m. m\<lparr>m_audit_failures := m_audit_failures m + 1\<rparr>) s"

definition queue_has_room :: "task_config \<Rightarrow> task_pool \<Rightarrow> dispatcher \<Rightarrow> bool" where
  "queue_has_room cfg p s \<longleftrightarrow> length (ds_queues s p) < tc_capacity cfg p"

definition enqueue :: "task_pool \<Rightarrow> queue_item \<Rightarrow> dispatcher \<Rightarrow> dispatcher" where
  "enqueue p item s =
     (let k = snd (snd item)
      in reply_get k k
           (count_metric (\<lambda>m. m\<lparr>m_accepted := m_accepted m + 1\<rparr>)
             (s\<lparr>ds_queues := (ds_queues s)(p := ds_queues s p @ [item])\<rparr>)))"

text \<open>
  After the enqueue audit: a critical or high task waits for room, any other is put without
  waiting, or rejected.
\<close>

definition after_queue_audit ::
    "task_config \<Rightarrow> string \<Rightarrow> task_priority \<Rightarrow> task_pool \<Rightarrow> int \<Rightarrow> dispatcher \<Rightarrow>
     thread option \<times> dispatcher" where
  "after_queue_audit cfg k pr p now s =
     (let item = (task_priority_rank pr, ds_sequence s, k);
          u = s\<lparr>ds_sequence := Suc (ds_sequence s)\<rparr>
      in if pr \<in> {Priority_Critical, Priority_High} then (Some (Sub_Enqueue p item), u)
         else if queue_has_room cfg p u then (None, enqueue p item u)
         else (Some (Sub_Reject_Audit k), reject_task k Backpressure now u))"

definition resume_submit ::
    "task_config \<Rightarrow> thread \<Rightarrow> answer \<Rightarrow> int \<Rightarrow> dispatcher \<Rightarrow> thread option \<times> dispatcher" where
  "resume_submit cfg th ans now s =
     (case (th, ans) of
        (Sub_Replay tag existing, Audit a) \<Rightarrow>
          (case a of
             Audit_Ok \<Rightarrow> (None, reply_get tag existing s)
           | _ \<Rightarrow> (None, add_reply tag Reply_Runtime_Error (audit_failed s)))
      | (Sub_Audit k pr p, Audit a) \<Rightarrow>
          (case audit_record k ''task_queued'' a now s of
             (None, u) \<Rightarrow> after_queue_audit cfg k pr p now u
           | (Some e, u) \<Rightarrow>
               (None, add_reply k Reply_Runtime_Error (reject_task k (Audit_Failure e) now (audit_failed u))))
      | (Sub_Enqueue p item, Proceed) \<Rightarrow>
          if queue_has_room cfg p s then (None, enqueue p item s) else (Some th, s)
      | (Sub_Enqueue p item, Enqueue_Timeout) \<Rightarrow>
          (Some (Sub_Reject_Audit (snd (snd item))), reject_task (snd (snd item)) Backpressure now s)
      | (Sub_Reject_Audit k, Audit a) \<Rightarrow>
          (case audit_record k ''final_output'' a now s of
             (None, u) \<Rightarrow> (None, add_reply k Reply_Backpressure u)
           | (Some e, u) \<Rightarrow> (None, add_reply k Reply_Runtime_Error (audit_failed u)))
      | _ \<Rightarrow> (Some th, s))"

section \<open>Workers\<close>

text \<open>\<open>PriorityQueue.get\<close>: the least tuple; sequence numbers make it unique.\<close>

definition item_before :: "queue_item \<Rightarrow> queue_item \<Rightarrow> bool" where
  "item_before x y \<longleftrightarrow> fst x < fst y \<or> (fst x = fst y \<and> fst (snd x) < fst (snd y))"

fun queue_min :: "queue_item \<Rightarrow> queue_item list \<Rightarrow> queue_item" where
  "queue_min x [] = x"
| "queue_min x (y # ys) = queue_min (if item_before y x then y else x) ys"

text \<open>\<open>_fail\<close> up to its audit.\<close>

definition fail_task :: "string \<Rightarrow> task_error \<Rightarrow> int \<Rightarrow> dispatcher \<Rightarrow> dispatcher" where
  "fail_task k e now s =
     update_task k now (\<lambda>r. r\<lparr>tk_status := Task_Failed, tk_error := Some e, tk_completed := Some now\<rparr>) s"

definition count_failed :: "dispatcher \<Rightarrow> dispatcher" where
  "count_failed s = count_metric (\<lambda>m. m\<lparr>m_failed := m_failed m + 1\<rparr>) s"

text \<open>The branch of a failed mandatory audit: the task fails and the worker is free again.\<close>

definition worker_audit_failed ::
    "task_pool \<Rightarrow> string \<Rightarrow> string \<Rightarrow> int \<Rightarrow> dispatcher \<Rightarrow> thread option \<times> dispatcher" where
  "worker_audit_failed p k e now s =
     (Some (Wk_Idle p), count_failed (fail_task k (Audit_Failure e) now (audit_failed s)))"

definition take_task :: "task_pool \<Rightarrow> int \<Rightarrow> dispatcher \<Rightarrow> thread option \<times> dispatcher" where
  "take_task p now s =
     (case ds_queues s p of
        [] \<Rightarrow> (Some (Wk_Idle p), s)
      | x # xs \<Rightarrow>
          (let item = queue_min x xs; k = snd (snd item);
               u = count_metric (\<lambda>m. m\<lparr>m_started := m_started m + 1\<rparr>)
                     (s\<lparr>ds_queues := (ds_queues s)(p := remove1 item (x # xs))\<rparr>)
           in case get_task k u of
                None \<Rightarrow> (None, u)
              | Some r \<Rightarrow>
                  (Some (Wk_Start p k (tk_max_attempts r)),
                   update_task k now
                     (\<lambda>r. r\<lparr>tk_status := Running, tk_started := Some now, tk_attempts := 0\<rparr>) u)))"

definition begin_attempt ::
    "task_pool \<Rightarrow> string \<Rightarrow> nat \<Rightarrow> nat \<Rightarrow> int \<Rightarrow> dispatcher \<Rightarrow> thread option \<times> dispatcher" where
  "begin_attempt p k mx n now s =
     (Some (Wk_Attempt p k mx n), update_task k now (\<lambda>r. r\<lparr>tk_attempts := n\<rparr>) s)"

definition handler_failed ::
    "task_pool \<Rightarrow> string \<Rightarrow> string \<Rightarrow> int \<Rightarrow> dispatcher \<Rightarrow> thread option \<times> dispatcher" where
  "handler_failed p k e now s = (Some (Wk_Failing p k), fail_task k (Handler_Failure e) now s)"

definition finish_attempt ::
    "task_config \<Rightarrow> task_pool \<Rightarrow> string \<Rightarrow> nat \<Rightarrow> nat \<Rightarrow> handler_answer \<Rightarrow> int \<Rightarrow> dispatcher \<Rightarrow>
     thread option \<times> dispatcher" where
  "finish_attempt cfg p k mx n h now s =
     (case h of
        Handler_Result res \<Rightarrow>
          if 1048576 < tc_json_size cfg res then handler_failed p k ''TaskRuntimeError'' now s
          else (Some (Wk_Complete p k res), s)
      | Handler_Transient e \<Rightarrow>
          if n < mx then (Some (Wk_Retry p k mx n), count_metric (\<lambda>m. m\<lparr>m_retried := m_retried m + 1\<rparr>) s)
          else handler_failed p k e now s
      | Handler_Broken e \<Rightarrow> handler_failed p k e now s)"

definition complete_task :: "string \<Rightarrow> pydict \<Rightarrow> int \<Rightarrow> dispatcher \<Rightarrow> dispatcher" where
  "complete_task k res now s =
     count_metric (\<lambda>m. m\<lparr>m_succeeded := m_succeeded m + 1\<rparr>)
       (update_task k now
          (\<lambda>r. r\<lparr>tk_status := Succeeded, tk_result := Some res, tk_completed := Some now\<rparr>) s)"

definition resume_worker ::
    "task_config \<Rightarrow> thread \<Rightarrow> answer \<Rightarrow> int \<Rightarrow> dispatcher \<Rightarrow> thread option \<times> dispatcher" where
  "resume_worker cfg th ans now s =
     (case (th, ans) of
        (Wk_Idle p, Proceed) \<Rightarrow> take_task p now s
      | (Wk_Start p k mx, Audit a) \<Rightarrow>
          (case audit_record k ''task_started'' a now s of
             (None, u) \<Rightarrow> begin_attempt p k mx 1 now u
           | (Some e, u) \<Rightarrow> worker_audit_failed p k e now u)
      | (Wk_Attempt p k mx n, Handler h) \<Rightarrow> finish_attempt cfg p k mx n h now s
      | (Wk_Retry p k mx n, Audit a) \<Rightarrow>
          (case audit_record k ''task_retry'' a now s of
             (None, u) \<Rightarrow> begin_attempt p k mx (Suc n) now u
           | (Some e, u) \<Rightarrow> handler_failed p k e now (audit_failed u))
      | (Wk_Complete p k res, Audit a) \<Rightarrow>
          (case audit_record k ''task_completed'' a now s of
             (None, u) \<Rightarrow> (Some (Wk_Final p k res), u)
           | (Some e, u) \<Rightarrow> worker_audit_failed p k e now u)
      | (Wk_Final p k res, Audit a) \<Rightarrow>
          (case audit_record k ''final_output'' a now s of
             (None, u) \<Rightarrow> (Some (Wk_Idle p), complete_task k res now u)
           | (Some e, u) \<Rightarrow> worker_audit_failed p k e now u)
      | (Wk_Failing p k, Audit a) \<Rightarrow>
          (case audit_record k ''final_output'' a now s of
             (None, u) \<Rightarrow> (Some (Wk_Idle p), count_failed u)
           | (Some _, u) \<Rightarrow> (Some (Wk_Idle p), count_failed (audit_failed u)))
      | _ \<Rightarrow> (Some th, s))"

fun is_worker :: "thread \<Rightarrow> bool" where
  "is_worker (Sub_Replay _ _) = False"
| "is_worker (Sub_Audit _ _ _) = False"
| "is_worker (Sub_Enqueue _ _) = False"
| "is_worker (Sub_Reject_Audit _) = False"
| "is_worker _ = True"

definition resume_thread ::
    "task_config \<Rightarrow> thread \<Rightarrow> answer \<Rightarrow> int \<Rightarrow> dispatcher \<Rightarrow> thread option \<times> dispatcher" where
  "resume_thread cfg th ans now s =
     (if is_worker th then resume_worker cfg th ans now s else resume_submit cfg th ans now s)"

text \<open>Thread \<open>i\<close> runs to its next await; the others stay where they are.\<close>

definition run_thread :: "task_config \<Rightarrow> nat \<Rightarrow> answer \<Rightarrow> int \<Rightarrow> dispatcher \<Rightarrow> dispatcher" where
  "run_thread cfg i ans now s =
     (let before = take i (ds_threads s); after = drop (Suc i) (ds_threads s)
      in case resume_thread cfg (ds_threads s ! i) ans now s of
           (None, u) \<Rightarrow> u\<lparr>ds_threads := before @ after\<rparr>
         | (Some th, u) \<Rightarrow> u\<lparr>ds_threads := before @ th # after\<rparr>)"

section \<open>Start and stop\<close>

definition start_dispatcher :: "task_config \<Rightarrow> dispatcher \<Rightarrow> dispatcher" where
  "start_dispatcher cfg s =
     (if ds_running s \<or> list_ex (\<lambda>p. ds_queues s p \<noteq> []) pools then s
      else s\<lparr>ds_running := True, ds_stopping := False,
             ds_threads := ds_threads s @ concat (map (\<lambda>p. replicate (tc_workers cfg p) (Wk_Idle p)) pools)\<rparr>)"

definition stop_request :: "dispatcher \<Rightarrow> dispatcher" where
  "stop_request s = (if ds_running s then s\<lparr>ds_stopping := True\<rparr> else s)"

text \<open>
  The end of \<open>stop\<close>: every worker is cancelled, wherever it waits. With \<open>drain\<close> this comes
  after each queue was empty and idle at some moment, without at any time.
\<close>

definition cancel_workers :: "dispatcher \<Rightarrow> dispatcher" where
  "cancel_workers s =
     s\<lparr>ds_threads := filter (\<lambda>th. \<not> is_worker th) (ds_threads s), ds_running := False,
       ds_stopping := False\<rparr>"

section \<open>Queries\<close>

definition list_tasks :: "string \<Rightarrow> nat \<Rightarrow> dispatcher \<Rightarrow> task_record list" where
  "list_tasks tenant limit s =
     take limit (sort_key (\<lambda>r. - tk_created r) (filter (\<lambda>r. tk_tenant r = tenant) (ds_records s)))"

definition dead_letters :: "nat \<Rightarrow> string option \<Rightarrow> dispatcher \<Rightarrow> task_record list" where
  "dead_letters limit tenant s =
     take limit (sort_key (\<lambda>r. - tk_updated r)
       (filter (\<lambda>r. tk_status r = Task_Failed \<and>
          (case tenant of None \<Rightarrow> True | Some t \<Rightarrow> tk_tenant r = t)) (ds_records s)))"

fun works_for :: "task_pool \<Rightarrow> thread \<Rightarrow> bool" where
  "works_for p (Wk_Idle q) = False"
| "works_for p (Wk_Start q _ _) = (q = p)"
| "works_for p (Wk_Attempt q _ _ _) = (q = p)"
| "works_for p (Wk_Retry q _ _ _) = (q = p)"
| "works_for p (Wk_Complete q _ _) = (q = p)"
| "works_for p (Wk_Final q _ _) = (q = p)"
| "works_for p (Wk_Failing q _) = (q = p)"
| "works_for p _ = False"

definition active_tasks :: "task_pool \<Rightarrow> dispatcher \<Rightarrow> nat" where
  "active_tasks p s = length (filter (works_for p) (ds_threads s))"

record pool_metrics =
  pm_pool :: task_pool
  pm_depth :: nat
  pm_active :: nat
  pm_dead_letters :: nat

definition pool_metrics_of :: "task_pool \<Rightarrow> dispatcher \<Rightarrow> pool_metrics" where
  "pool_metrics_of p s =
     \<lparr>pm_pool = p, pm_depth = length (ds_queues s p), pm_active = active_tasks p s,
      pm_dead_letters =
        length (filter (\<lambda>r. tk_pool r = p \<and> tk_status r = Task_Failed) (ds_records s))\<rparr>"

section \<open>Runs\<close>

inductive task_step :: "task_config \<Rightarrow> dispatcher \<Rightarrow> dispatcher \<Rightarrow> bool" for cfg where
  submit: "valid_submission (tc_json_size cfg) sub \<Longrightarrow> get_task tid s = None \<Longrightarrow>
    tid \<notin> fst ` set (ds_replies s) \<Longrightarrow> task_step cfg s (submit_task cfg sub ident trace tid now s)"
| resume: "i < length (ds_threads s) \<Longrightarrow> task_step cfg s (run_thread cfg i ans now s)"
| start: "task_step cfg s (start_dispatcher cfg s)"
| stopping: "task_step cfg s (stop_request s)"
| stopped: "task_step cfg s (cancel_workers s)"

inductive task_reachable :: "task_config \<Rightarrow> dispatcher \<Rightarrow> bool" for cfg where
  initial: "task_reachable cfg new_dispatcher"
| reach_step: "task_reachable cfg s \<Longrightarrow> task_step cfg s s' \<Longrightarrow> task_reachable cfg s'"

section \<open>The best item of a queue\<close>

lemma queue_min_in: "queue_min x xs \<in> set (x # xs)"
  by (induction x xs rule: queue_min.induct) (auto split: if_splits)

lemma item_before_trans:
  "\<not> item_before y x \<Longrightarrow> \<not> item_before z y \<Longrightarrow> \<not> item_before z x"
  by (auto simp: item_before_def)

lemma queue_min_least: "y \<in> set (x # xs) \<Longrightarrow> \<not> item_before y (queue_min x xs)"
proof (induction x xs arbitrary: y rule: queue_min.induct)
  case (1 x)
  then show ?case by (simp add: item_before_def)
next
  case (2 x z zs)
  let ?b = "if item_before z x then z else x"
  have least: "\<not> item_before w (queue_min ?b zs)" if "w = ?b \<or> w \<in> set zs" for w
    using "2.IH"[of w] that by simp
  have "\<not> item_before x ?b" "\<not> item_before z ?b" by (auto simp: item_before_def)
  then have "\<not> item_before x (queue_min ?b zs)" "\<not> item_before z (queue_min ?b zs)"
    using item_before_trans least by blast+
  with least[of y] "2.prems" have "\<not> item_before y (queue_min ?b zs)"
    by (metis set_ConsD)
  then show ?case by simp
qed

end
