(* ===== verification/TaskInvariants.thy ===== *)
theory TaskInvariants
  imports TaskRuntime
begin

text \<open>
  What every interleaving of submitters and workers keeps: each queued or running task has
  one holder, and the record the holder relies on is there, in the status and with the
  audits its program counter implies.
\<close>

section \<open>Claims\<close>

text \<open>
  A claim is what a coroutine or a queued item relies on: the record of a task is there, in
  a given status, with these stages audited, in this order, and a property of its other
  columns.
\<close>

type_synonym claim = "string \<times> task_status \<times> string list \<times> (task_record \<Rightarrow> bool)"

definition task_log :: "string \<Rightarrow> dispatcher \<Rightarrow> string list" where
  "task_log k s = map snd (filter (\<lambda>e. fst e = k) (ds_log s))"

definition item_claim :: "task_pool \<Rightarrow> queue_item \<Rightarrow> claim" where
  "item_claim p item =
     (snd (snd item), Queued, [''task_queued''],
      \<lambda>r. tk_pool r = p \<and> task_priority_rank (tk_priority r) = fst item)"

definition run_claim :: "task_pool \<Rightarrow> string \<Rightarrow> string list \<Rightarrow> (task_record \<Rightarrow> bool) \<Rightarrow> claim" where
  "run_claim p k stages P = (k, Running, stages, \<lambda>r. tk_pool r = p \<and> P r)"

fun holds :: "thread \<Rightarrow> claim list" where
  "holds (Sub_Audit k pr p) = [(k, Queued, [], \<lambda>r. tk_pool r = p \<and> tk_priority r = pr)]"
| "holds (Sub_Enqueue p item) = [item_claim p item]"
| "holds (Wk_Start p k mx) = [run_claim p k [''task_queued''] (\<lambda>r. tk_max_attempts r = mx)]"
| "holds (Wk_Attempt p k mx n) =
     [run_claim p k [''task_queued'', ''task_started'']
        (\<lambda>r. tk_max_attempts r = mx \<and> tk_attempts r = n \<and> 1 \<le> n \<and> n \<le> mx)]"
| "holds (Wk_Retry p k mx n) =
     [run_claim p k [''task_queued'', ''task_started'']
        (\<lambda>r. tk_max_attempts r = mx \<and> tk_attempts r = n \<and> 1 \<le> n \<and> n < mx)]"
| "holds (Wk_Complete p k res) = [run_claim p k [''task_queued'', ''task_started''] (\<lambda>_. True)]"
| "holds (Wk_Final p k res) =
     [run_claim p k [''task_queued'', ''task_started'', ''task_completed''] (\<lambda>_. True)]"
| "holds _ = []"

definition thread_claims :: "thread list \<Rightarrow> claim multiset" where
  "thread_claims ths = mset (concat (map holds ths))"

definition queue_claims :: "(task_pool \<Rightarrow> queue_item list) \<Rightarrow> claim multiset" where
  "queue_claims q = mset (concat (map (\<lambda>p. map (item_claim p) (q p)) pools))"

text \<open>What every stored record satisfies, and what it means that a claim is backed.\<close>

definition record_ok :: "task_record \<Rightarrow> string list \<Rightarrow> bool" where
  "record_ok r l \<longleftrightarrow>
     1 \<le> tk_max_attempts r \<and> tk_attempts r \<le> tk_max_attempts r \<and>
     (tk_completed r \<noteq> None \<longleftrightarrow> terminal (tk_status r)) \<and>
     (tk_status r = Succeeded \<longrightarrow> tk_result r \<noteq> None \<and>
        subseq [''task_queued'', ''task_started'', ''task_completed'', ''final_output''] l)"

definition unaffected :: "(task_record \<Rightarrow> bool) \<Rightarrow> bool" where
  "unaffected P \<longleftrightarrow> (\<forall>r n t. P (r\<lparr>tk_audits := n, tk_updated := t\<rparr>) = P r)"

definition backed :: "dispatcher \<Rightarrow> claim \<Rightarrow> bool" where
  "backed s c = (case c of (k, st, stages, P) \<Rightarrow>
     \<not> terminal st \<and> unaffected P \<and>
     (\<exists>r. get_task k s = Some r \<and> tk_status r = st \<and> subseq stages (task_log k s) \<and> P r))"

definition records_ok :: "dispatcher \<Rightarrow> bool" where
  "records_ok s \<longleftrightarrow> distinct (map tk_id (ds_records s)) \<and>
     (\<forall>r \<in> set (ds_records s). record_ok r (task_log (tk_id r) s))"

definition claims_ok :: "claim multiset \<Rightarrow> dispatcher \<Rightarrow> bool" where
  "claims_ok C s \<longleftrightarrow> records_ok s \<and> (\<forall>c \<in># C. backed s c) \<and>
     (\<forall>k. count (image_mset fst C) k \<le> 1)"

definition task_inv :: "dispatcher \<Rightarrow> bool" where
  "task_inv s \<longleftrightarrow> claims_ok (thread_claims (ds_threads s) + queue_claims (ds_queues s)) s"

section \<open>Claims under the primitive updates\<close>

lemma claims_ok_cong:
  "ds_records s' = ds_records s \<Longrightarrow> ds_log s' = ds_log s \<Longrightarrow> claims_ok C s' = claims_ok C s"
  by (simp add: claims_ok_def records_ok_def backed_def get_task_def task_log_def)

lemma claims_ok_simps [simp]:
  "claims_ok C (count_metric f s) = claims_ok C s"
  "claims_ok C (add_reply k r s) = claims_ok C s"
  "claims_ok C (reply_get k j s) = claims_ok C s"
  "claims_ok C (audit_failed s) = claims_ok C s"
  "claims_ok C (count_failed s) = claims_ok C s"
  "claims_ok C (s\<lparr>ds_sequence := n\<rparr>) = claims_ok C s"
  "claims_ok C (s\<lparr>ds_queues := q\<rparr>) = claims_ok C s"
  "claims_ok C (s\<lparr>ds_threads := ths\<rparr>) = claims_ok C s"
  by (rule claims_ok_cong; simp add: count_metric_def add_reply_def reply_get_def audit_failed_def
      count_failed_def)+

lemma claims_ok_drop: "claims_ok (add_mset c C) s \<Longrightarrow> claims_ok C s"
proof -
  assume ok: "claims_ok (add_mset c C) s"
  have "count (image_mset fst C) k \<le> 1" for k
  proof -
    have "count (image_mset fst C) k \<le> count (image_mset fst (add_mset c C)) k" by simp
    also have "\<dots> \<le> 1" using ok unfolding claims_ok_def by blast
    finally show ?thesis .
  qed
  with ok show ?thesis by (simp add: claims_ok_def)
qed

lemma claims_okD:
  assumes "claims_ok (add_mset (k, st, stages, P) C) s"
  shows "\<exists>r. get_task k s = Some r \<and> tk_status r = st \<and> subseq stages (task_log k s) \<and> P r \<and>
       record_ok r (task_log k s) \<and> \<not> terminal st \<and> unaffected P"
proof -
  have "backed s (k, st, stages, P)" using assms by (simp add: claims_ok_def)
  then obtain r where r: "get_task k s = Some r" "tk_status r = st" "subseq stages (task_log k s)" "P r"
    "\<not> terminal st" "unaffected P" unfolding backed_def by blast
  moreover have "record_ok r (task_log k s)"
    using assms r(1) by (auto simp: claims_ok_def records_ok_def get_task_def dest!: row_get_SomeD)
  ultimately show ?thesis by blast
qed

text \<open>Another claim cannot be about the same task.\<close>

lemma claims_ok_alone: "claims_ok (add_mset c C) s \<Longrightarrow> d \<in># C \<Longrightarrow> fst d \<noteq> fst c"
proof
  assume ok: "claims_ok (add_mset c C) s" and d: "d \<in># C" and eq: "fst d = fst c"
  have "fst c \<in># image_mset fst C" using d eq by (metis image_eqI set_image_mset)
  then have "0 < count (image_mset fst C) (fst c)" by simp
  then have "1 < count (image_mset fst (add_mset c C)) (fst c)" by simp
  with ok show False unfolding claims_ok_def by (metis not_less)
qed

lemma task_log_simps [simp]:
  "task_log k (update_task j now f s) = task_log k s"
  "task_log k (log_audit j st s) = task_log k s @ (if j = k then [st] else [])"
  "task_log k (count_metric g s) = task_log k s"
  by (simp_all add: task_log_def update_task_def log_audit_def count_metric_def)

lemma get_task_log [simp]: "get_task k (log_audit j st s) = get_task k s"
  by (simp add: get_task_def log_audit_def)

lemma get_task_update:
  "(\<And>r. tk_id (f r) = tk_id r) \<Longrightarrow>
   get_task k (update_task j now f s) =
     (if k = j then map_option (\<lambda>r. (f r)\<lparr>tk_updated := now\<rparr>) (get_task k s) else get_task k s)"
  by (simp add: get_task_def update_task_def table_simps)

lemma records_ok_update:
  assumes ok: "records_ok s" and id: "\<And>r. tk_id (f r) = tk_id r"
    and new: "\<And>r. get_task k s = Some r \<Longrightarrow> record_ok ((f r)\<lparr>tk_updated := now\<rparr>) (task_log k s)"
  shows "records_ok (update_task k now f s)"
proof -
  have d: "distinct (map tk_id (ds_records s))" using ok by (simp add: records_ok_def)
  have "record_ok r (task_log (tk_id r) s)"
    if "r \<in> set (row_update tk_id k (\<lambda>r. (f r)\<lparr>tk_updated := now\<rparr>) (ds_records s))" for r
    using set_row_updateD[OF that]
  proof (elim disjE bexE conjE)
    fix q assume q: "q \<in> set (ds_records s)" "tk_id q = k" "r = (f q)\<lparr>tk_updated := now\<rparr>"
    have "get_task k s = Some q"
      using row_get_distinct[OF d q(1)] q(2) by (simp add: get_task_def)
    from new[OF this] q show ?thesis by (simp add: id)
  next
    assume "r \<in> set (ds_records s)"
    with ok show ?thesis by (simp add: records_ok_def)
  qed
  then show ?thesis using d
    by (simp add: records_ok_def update_task_def id task_log_def)
qed

lemma backed_update_other:
  assumes "backed s c" "fst c \<noteq> k" "\<And>r. tk_id (f r) = tk_id r"
  shows "backed (update_task k now f s) c"
  using assms by (auto simp: backed_def get_task_update split: prod.splits)

lemma claims_ok_update_drop:
  assumes ok: "claims_ok (add_mset (k, st, stages, P) C) s" and id: "\<And>r. tk_id (f r) = tk_id r"
    and new: "\<And>r. tk_status r = st \<Longrightarrow> P r \<Longrightarrow> subseq stages (task_log k s) \<Longrightarrow>
      record_ok r (task_log k s) \<Longrightarrow> record_ok ((f r)\<lparr>tk_updated := now\<rparr>) (task_log k s)"
  shows "claims_ok C (update_task k now f s)"
proof -
  obtain r where r: "get_task k s = Some r" "tk_status r = st" "subseq stages (task_log k s)" "P r"
    "record_ok r (task_log k s)" using claims_okD[OF ok] by blast
  have "records_ok (update_task k now f s)"
    using ok r new by (intro records_ok_update) (auto simp: claims_ok_def id)
  moreover have "backed (update_task k now f s) c" if "c \<in># C" for c
    by (rule backed_update_other[OF _ _ id]) (use claims_ok_alone[OF ok that] ok that in \<open>auto simp: claims_ok_def\<close>)
  ultimately show ?thesis using claims_ok_drop[OF ok] by (auto simp: claims_ok_def)
qed

lemma claims_ok_update_keep_at:
  assumes ok: "claims_ok (add_mset (k, st, stages, P) C) s" and id: "\<And>r. tk_id (f r) = tk_id r"
    and new: "tk_status r = st \<Longrightarrow> P r \<Longrightarrow> subseq stages (task_log k s) \<Longrightarrow>
      record_ok r (task_log k s) \<Longrightarrow> record_ok ((f r)\<lparr>tk_updated := now\<rparr>) (task_log k s) \<and>
        tk_status (f r) = st' \<and> Q ((f r)\<lparr>tk_updated := now\<rparr>)"
    and r: "get_task k s = Some r" and st': "\<not> terminal st'" "unaffected Q"
  shows "claims_ok (add_mset (k, st', stages, Q) C) (update_task k now f s)"
proof -
  have r': "tk_status r = st" "subseq stages (task_log k s)" "P r" "record_ok r (task_log k s)"
    using claims_okD[OF ok] r by auto
  have "claims_ok C (update_task k now f s)"
  proof -
    have "records_ok (update_task k now f s)"
      using ok r r' new by (intro records_ok_update) (auto simp: claims_ok_def id)
    moreover have "backed (update_task k now f s) c" if "c \<in># C" for c
      by (rule backed_update_other[OF _ _ id]) (use claims_ok_alone[OF ok that] ok that in \<open>auto simp: claims_ok_def\<close>)
    ultimately show ?thesis using claims_ok_drop[OF ok] by (auto simp: claims_ok_def)
  qed
  moreover have "backed (update_task k now f s) (k, st', stages, Q)"
    using r r' new st' by (simp add: backed_def get_task_update id)
  ultimately show ?thesis using ok by (simp add: claims_ok_def)
qed

lemma claims_ok_update_keep:
  assumes ok: "claims_ok (add_mset (k, st, stages, P) C) s" and id: "\<And>r. tk_id (f r) = tk_id r"
    and new: "\<And>r. tk_status r = st \<Longrightarrow> P r \<Longrightarrow> subseq stages (task_log k s) \<Longrightarrow>
      record_ok r (task_log k s) \<Longrightarrow> record_ok ((f r)\<lparr>tk_updated := now\<rparr>) (task_log k s) \<and>
        tk_status (f r) = st' \<and> Q ((f r)\<lparr>tk_updated := now\<rparr>)"
    and st': "\<not> terminal st'" "unaffected Q"
  shows "claims_ok (add_mset (k, st', stages, Q) C) (update_task k now f s)"
  using claims_okD[OF ok] claims_ok_update_keep_at[where f = f and now = now, OF ok id new _ st'] by blast

lemma subseq_snoc: "subseq xs ys \<Longrightarrow> subseq xs (ys @ zs)"
  by (meson subseq_append_iff subseq_order.dual_order.trans list_emb_append2 subseq_rev_drop_many)

lemma record_ok_log: "record_ok r l \<Longrightarrow> record_ok r (l @ m)"
  by (auto simp: record_ok_def intro: subseq_snoc)

lemma backed_log: "backed s c \<Longrightarrow> backed (log_audit k stage s) c"
  unfolding backed_def by (cases c) (simp, blast intro: subseq_snoc)

lemma records_ok_log: "records_ok s \<Longrightarrow> records_ok (log_audit k stage s)"
  unfolding records_ok_def task_log_simps by (auto simp: log_audit_def intro: record_ok_log)

lemma claims_ok_log: "claims_ok C s \<Longrightarrow> claims_ok C (log_audit k stage s)"
  by (auto simp: claims_ok_def intro: backed_log records_ok_log)

lemma claims_ok_log_add:
  assumes "claims_ok (add_mset (k, st, stages, P) C) s"
  shows "claims_ok (add_mset (k, st, stages @ [stage], P) C) (log_audit k stage s)"
proof -
  have "backed s (k, st, stages, P)" using assms by (simp add: claims_ok_def)
  then have "backed (log_audit k stage s) (k, st, stages @ [stage], P)"
    by (auto simp: backed_def intro: list_emb_append_mono)
  with claims_ok_log[OF assms, of k stage] show ?thesis by (simp add: claims_ok_def)
qed

text \<open>An audit counted on a record concerns nobody else's claim.\<close>

lemma claims_ok_audits:
  assumes ok: "claims_ok C s"
  shows "claims_ok C (update_task k now (\<lambda>r. r\<lparr>tk_audits := tk_audits r + 1\<rparr>) s)"
proof -
  let ?u = "update_task k now (\<lambda>r. r\<lparr>tk_audits := tk_audits r + 1\<rparr>) s"
  have "records_ok ?u"
  proof (rule records_ok_update)
    show "records_ok s" using ok by (simp add: claims_ok_def)
    fix r assume "get_task k s = Some r"
    with ok have "record_ok r (task_log k s)"
      by (auto simp: claims_ok_def records_ok_def get_task_def dest!: row_get_SomeD)
    then show "record_ok (r\<lparr>tk_audits := tk_audits r + 1, tk_updated := now\<rparr>) (task_log k s)"
      by (simp add: record_ok_def)
  qed simp
  moreover have "backed ?u c" if "c \<in># C" for c
  proof -
    have "backed s c" using ok that by (simp add: claims_ok_def)
    then show ?thesis
      by (cases c) (auto simp: backed_def get_task_update unaffected_def)
  qed
  ultimately show ?thesis using ok by (auto simp: claims_ok_def)
qed

text \<open>\<open>_audit_record\<close>: on success the stage is recorded, otherwise the claim stays.\<close>

lemma audit_record_None:
  assumes "claims_ok (add_mset (k, st, stages, P) C) s" "audit_record k stage a now s = (None, u)"
  shows "claims_ok (add_mset (k, st, stages @ [stage], P) C) u"
  using assms(2) claims_ok_audits[OF claims_ok_log_add[OF assms(1), of stage], of k now]
  by (auto simp: audit_record_def split: audit_answer.splits option.splits)

lemma audit_record_keeps:
  assumes "claims_ok C s" "audit_record k stage a now s = (e, u)"
  shows "claims_ok C u"
  using assms(2) claims_ok_audits[OF claims_ok_log[OF assms(1), of k stage], of k now]
    claims_ok_log[OF assms(1), of k stage] assms(1)
  by (auto simp: audit_record_def split: audit_answer.splits option.splits)

lemma audit_record_fixed:
  "audit_record k stage a now s = (e, u) \<Longrightarrow>
     ds_queues u = ds_queues s \<and> ds_threads u = ds_threads s \<and> ds_metrics u = ds_metrics s \<and>
     ds_running u = ds_running s \<and> ds_stopping u = ds_stopping s \<and> ds_idem u = ds_idem s \<and>
     map tk_id (ds_records u) = map tk_id (ds_records s) \<and> ds_sequence u = ds_sequence s"
  by (auto simp: audit_record_def log_audit_def update_task_def
      split: audit_answer.splits option.splits)

section \<open>Claims when a coroutine resumes\<close>

lemma thread_claims_simps [simp]:
  "thread_claims [] = {#}"
  "thread_claims (th # ths) = mset (holds th) + thread_claims ths"
  "thread_claims (xs @ ys) = thread_claims xs + thread_claims ys"
  by (simp_all add: thread_claims_def)

lemma queue_claims_put [simp]:
  "queue_claims (q(p := q p @ [item])) = add_mset (item_claim p item) (queue_claims q)"
  by (cases p) (simp_all add: queue_claims_def pools_def)

lemma queue_claims_take:
  assumes "item \<in> set (q p)"
  shows "queue_claims q = add_mset (item_claim p item) (queue_claims (q(p := remove1 item (q p))))"
proof -
  have "mset (q p) = add_mset item (mset (remove1 item (q p)))" using assms by simp
  then have "mset (map (item_claim p) (q p)) =
      add_mset (item_claim p item) (mset (map (item_claim p) (remove1 item (q p))))"
    by (metis image_mset_add_mset mset_map)
  then show ?thesis by (cases p) (simp_all add: queue_claims_def pools_def)
qed

lemma ds_queues_simps [simp]:
  "ds_queues (count_metric f s) = ds_queues s"
  "ds_queues (add_reply k r s) = ds_queues s"
  "ds_queues (reply_get k j s) = ds_queues s"
  "ds_queues (audit_failed s) = ds_queues s"
  "ds_queues (count_failed s) = ds_queues s"
  "ds_queues (update_task k now g s) = ds_queues s"
  "ds_queues (fail_task k er now s) = ds_queues s"
  "ds_queues (reject_task k er now s) = ds_queues s"
  "ds_queues (complete_task k res now s) = ds_queues s"
  by (simp_all add: count_metric_def add_reply_def reply_get_def audit_failed_def count_failed_def
      update_task_def fail_task_def reject_task_def complete_task_def)

lemma unaffected_simps [simp]:
  "unaffected (\<lambda>_. b)"
  "unaffected (\<lambda>r. tk_pool r = p)"
  "unaffected (\<lambda>r. tk_priority r = pr)"
  "unaffected (\<lambda>r. f (tk_priority r) = n)"
  "unaffected (\<lambda>r. tk_max_attempts r = n)"
  "unaffected (\<lambda>r. tk_attempts r = n)"
  "unaffected P \<Longrightarrow> unaffected Q \<Longrightarrow> unaffected (\<lambda>r. P r \<and> Q r)"
  by (simp_all add: unaffected_def)

lemmas claim_defs = item_claim_def run_claim_def

lemma reject_task_claims:
  "claims_ok (add_mset (k, st, stages, P) C) s \<Longrightarrow> claims_ok C (reject_task k e now s)"
  unfolding reject_task_def by (rule claims_ok_update_drop) (auto simp: record_ok_def)

lemma fail_task_claims:
  "claims_ok (add_mset (k, st, stages, P) C) s \<Longrightarrow> claims_ok C (fail_task k e now s)"
  unfolding fail_task_def by (rule claims_ok_update_drop) (auto simp: record_ok_def)

lemma complete_task_claims:
  assumes "claims_ok (add_mset (k, st, [''task_queued'', ''task_started'', ''task_completed'',
     ''final_output''], P) C) s"
  shows "claims_ok C (complete_task k res now s)"
  unfolding complete_task_def claims_ok_simps
  by (rule claims_ok_update_drop[OF assms]) (auto simp: record_ok_def)

lemma begin_attempt_claims:
  assumes "claims_ok (add_mset (run_claim p k stages P) C) s"
    "\<And>r l. P r \<Longrightarrow> record_ok r l \<Longrightarrow> tk_max_attempts r = mx \<and> n \<le> mx" "1 \<le> n"
  shows "claims_ok (add_mset (run_claim p k stages
      (\<lambda>r. tk_max_attempts r = mx \<and> tk_attempts r = n \<and> 1 \<le> n \<and> n \<le> mx)) C)
    (update_task k now (\<lambda>r. r\<lparr>tk_attempts := n\<rparr>) s)"
  using assms(1) unfolding run_claim_def
proof (rule claims_ok_update_keep)
  fix r assume r: "tk_pool r = p \<and> P r" "record_ok r (task_log k s)" "tk_status r = Running"
  from assms(2)[of r] r assms(3)
  show "record_ok (r\<lparr>tk_attempts := n, tk_updated := now\<rparr>) (task_log k s) \<and>
      tk_status (r\<lparr>tk_attempts := n\<rparr>) = Running \<and>
      tk_pool (r\<lparr>tk_attempts := n, tk_updated := now\<rparr>) = p \<and>
      tk_max_attempts (r\<lparr>tk_attempts := n, tk_updated := now\<rparr>) = mx \<and>
      tk_attempts (r\<lparr>tk_attempts := n, tk_updated := now\<rparr>) = n \<and> 1 \<le> n \<and> n \<le> mx"
    by (auto simp: record_ok_def)
qed simp_all

definition out_claims :: "thread option \<Rightarrow> claim multiset" where
  "out_claims o' = (case o' of None \<Rightarrow> {#} | Some th \<Rightarrow> mset (holds th))"

lemma out_claims_simps [simp]:
  "out_claims None = {#}" "out_claims (Some th) = mset (holds th)"
  by (simp_all add: out_claims_def)

definition out_ok :: "claim multiset \<Rightarrow> thread option \<times> dispatcher \<Rightarrow> bool" where
  "out_ok T out \<longleftrightarrow>
     claims_ok (out_claims (fst out) + queue_claims (ds_queues (snd out)) + T) (snd out)"

lemma out_okI:
  "claims_ok (out_claims o' + queue_claims (ds_queues u) + T) u \<Longrightarrow> out_ok T (o', u)"
  by (simp add: out_ok_def)

lemma enqueue_claims:
  "claims_ok (add_mset (item_claim p item) (queue_claims (ds_queues s) + T)) s \<Longrightarrow>
     out_ok T (None, enqueue p item s)"
  by (simp add: out_ok_def enqueue_def Let_def)

lemma worker_audit_failed_claims:
  "claims_ok (add_mset (run_claim p k stages P) (queue_claims (ds_queues s) + T)) s \<Longrightarrow>
     out_ok T (worker_audit_failed p k e now s)"
  by (simp add: out_ok_def worker_audit_failed_def run_claim_def fail_task_claims)

lemma handler_failed_claims:
  "claims_ok (add_mset (run_claim p k stages P) (queue_claims (ds_queues s) + T)) s \<Longrightarrow>
     out_ok T (handler_failed p k e now s)"
  by (simp add: out_ok_def handler_failed_def run_claim_def fail_task_claims)

lemma begin_attempt_out:
  assumes "claims_ok (add_mset (run_claim p k [''task_queued'', ''task_started''] P)
      (queue_claims (ds_queues s) + T)) s"
    "\<And>r l. P r \<Longrightarrow> record_ok r l \<Longrightarrow> tk_max_attempts r = mx \<and> n \<le> mx" "1 \<le> n"
  shows "out_ok T (begin_attempt p k mx n now s)"
  using begin_attempt_claims[OF assms]
  by (simp add: out_ok_def begin_attempt_def)

lemma after_queue_audit_claims:
  assumes "claims_ok (add_mset (k, Queued, [''task_queued''], \<lambda>r. tk_pool r = p \<and> tk_priority r = pr)
      (queue_claims (ds_queues s) + T)) s"
  shows "out_ok T (after_queue_audit cfg k pr p now s)"
proof -
  let ?item = "(task_priority_rank pr, ds_sequence s, k)"
  let ?u = "s\<lparr>ds_sequence := Suc (ds_sequence s)\<rparr>"
  have item: "claims_ok (add_mset (item_claim p ?item) (queue_claims (ds_queues ?u) + T)) ?u"
  proof -
    have "claims_ok (add_mset (item_claim p ?item) (queue_claims (ds_queues s) + T)) s"
      using assms by (simp add: claims_ok_def backed_def item_claim_def unaffected_def) blast
    then show ?thesis by simp
  qed
  have "claims_ok (queue_claims (ds_queues s) + T) (reject_task k Backpressure now ?u)"
    using assms by (intro reject_task_claims) simp
  with item enqueue_claims[OF item] show ?thesis
    by (simp add: after_queue_audit_def Let_def out_ok_def)
qed

lemma resume_submit_claims:
  assumes ok: "claims_ok (mset (holds th) + queue_claims (ds_queues s) + T) s"
    and th: "\<not> is_worker th"
  shows "out_ok T (resume_submit cfg th ans now s)"
proof -
  have same: "out_ok T (Some th, s)" using ok by (simp add: out_ok_def)
  show ?thesis
  proof (cases th)
    case (Sub_Replay tag ex)
    then show ?thesis using ok same
      by (simp add: resume_submit_def out_ok_def split: answer.splits audit_answer.splits)
  next
    case (Sub_Audit k pr p)
    show ?thesis
    proof (cases ans)
      case (Audit a)
      obtain e u where au: "audit_record k ''task_queued'' a now s = (e, u)"
        by (cases "audit_record k ''task_queued'' a now s")
      note u = audit_record_fixed[OF au]
      have c: "claims_ok (add_mset (k, Queued, [], \<lambda>r. tk_pool r = p \<and> tk_priority r = pr)
          (queue_claims (ds_queues s) + T)) s" using ok Sub_Audit by simp
      show ?thesis
      proof (cases e)
        case None
        show ?thesis using after_queue_audit_claims[of k p pr u T cfg now]
            audit_record_None[OF c au[unfolded None]] u
          by (simp add: resume_submit_def Sub_Audit Audit au None)
      next
        case (Some x)
        show ?thesis using reject_task_claims[of k Queued "[]" _ _ "audit_failed u"]
            audit_record_keeps[OF c au] u
          by (simp add: resume_submit_def Sub_Audit Audit au Some out_ok_def)
      qed
    qed (use same Sub_Audit in \<open>simp_all add: resume_submit_def\<close>)
  next
    case (Sub_Enqueue p item)
    obtain rk sq k where item: "item = (rk, sq, k)" by (cases item)
    have c: "claims_ok (add_mset (item_claim p item) (queue_claims (ds_queues s) + T)) s"
      using ok Sub_Enqueue by simp
    show ?thesis
      using same enqueue_claims[OF c] reject_task_claims[OF c[unfolded item_claim_def]]
      by (cases ans) (simp_all add: resume_submit_def Sub_Enqueue out_ok_def)
  next
    case (Sub_Reject_Audit k)
    show ?thesis
    proof (cases ans)
      case (Audit a)
      obtain e u where au: "audit_record k ''final_output'' a now s = (e, u)"
        by (cases "audit_record k ''final_output'' a now s")
      show ?thesis using audit_record_keeps[OF ok au] audit_record_fixed[OF au]
        by (simp add: resume_submit_def Sub_Reject_Audit Audit au out_ok_def split: option.splits)
    qed (use same Sub_Reject_Audit in \<open>simp_all add: resume_submit_def\<close>)
  qed (use th in simp_all)
qed

lemma get_task_simps [simp]:
  "get_task k (count_metric f s) = get_task k s"
  "get_task k (s\<lparr>ds_queues := q\<rparr>) = get_task k s"
  by (simp_all add: get_task_def count_metric_def)

lemma take_task_Cons:
  assumes "ds_queues s p = x # xs" "queue_min x xs = (rk, sq, k)" "get_task k s = Some r"
  shows "take_task p now s =
    (Some (Wk_Start p k (tk_max_attempts r)),
     update_task k now (\<lambda>r. r\<lparr>tk_status := Running, tk_started := Some now, tk_attempts := 0\<rparr>)
       (count_metric (\<lambda>m. m\<lparr>m_started := m_started m + 1\<rparr>)
         (s\<lparr>ds_queues := (ds_queues s)(p := remove1 (rk, sq, k) (ds_queues s p))\<rparr>)))"
  unfolding take_task_def assms(1,2) list.case Let_def snd_conv by (simp add: assms(3))

lemma take_task_claims:
  assumes ok: "claims_ok (queue_claims (ds_queues s) + T) s"
  shows "out_ok T (take_task p now s)"
proof (cases "ds_queues s p")
  case Nil
  then show ?thesis using ok by (simp add: take_task_def out_ok_def)
next
  case (Cons x xs)
  define item where "item = queue_min x xs"
  obtain rk sq k where i: "item = (rk, sq, k)" by (cases item)
  define q where "q = (ds_queues s)(p := remove1 item (ds_queues s p))"
  define u where "u = count_metric (\<lambda>m. m\<lparr>m_started := m_started m + 1\<rparr>) (s\<lparr>ds_queues := q\<rparr>)"
  have "item \<in> set (ds_queues s p)" using queue_min_in[of x xs] by (simp add: Cons item_def)
  then have "queue_claims (ds_queues s) = add_mset (item_claim p item) (queue_claims q)"
    unfolding q_def by (rule queue_claims_take)
  then have c: "claims_ok (add_mset (k, Queued, [''task_queued''],
      \<lambda>r. tk_pool r = p \<and> task_priority_rank (tk_priority r) = rk) (queue_claims q + T)) u"
    using ok by (simp add: q_def u_def item_claim_def i)
  obtain r where r: "get_task k u = Some r" using claims_okD[OF c] by blast
  have "claims_ok (add_mset (run_claim p k [''task_queued''] (\<lambda>q. tk_max_attempts q = tk_max_attempts r))
      (queue_claims q + T))
      (update_task k now (\<lambda>r. r\<lparr>tk_status := Running, tk_started := Some now, tk_attempts := 0\<rparr>) u)"
    unfolding run_claim_def
  proof (rule claims_ok_update_keep_at[OF c _ _ r])
  qed (auto simp: record_ok_def)
  moreover have "get_task k s = Some r" using r by (simp add: u_def)
  ultimately show ?thesis
    using take_task_Cons[of s p x xs rk sq k r now] by (simp add: out_ok_def u_def q_def Cons item_def[symmetric] i)
qed

text \<open>Every resumption of a worker, by the way of its audit.\<close>

lemma audited_claims:
  assumes ok: "claims_ok (add_mset (k, st, stages, P) (queue_claims (ds_queues s) + T)) s"
    and good: "\<And>u. claims_ok (add_mset (k, st, stages @ [stage], P) (queue_claims (ds_queues u) + T)) u \<Longrightarrow>
      out_ok T (f u)"
    and bad: "\<And>e u. claims_ok (add_mset (k, st, stages, P) (queue_claims (ds_queues u) + T)) u \<Longrightarrow>
      out_ok T (g e u)"
  shows "out_ok T (case audit_record k stage a now s of (None, u) \<Rightarrow> f u | (Some e, u) \<Rightarrow> g e u)"
proof -
  obtain e u where au: "audit_record k stage a now s = (e, u)"
    by (cases "audit_record k stage a now s")
  note q = conjunct1[OF audit_record_fixed[OF au]]
  show ?thesis
  proof (cases e)
    case None
    then show ?thesis using good[of u] audit_record_None[OF ok] au q by simp
  next
    case (Some x)
    then show ?thesis using bad[of u x] audit_record_keeps[OF ok au] au q by simp
  qed
qed

lemmas audited_run = audited_claims[where P = "\<lambda>r. tk_pool r = p \<and> P r" and st = Running,
  folded run_claim_def] for p P

lemma claims_ok_weaken:
  assumes "claims_ok (add_mset (k, st, stages, P) C) s"
    "\<And>l. subseq stages l \<Longrightarrow> subseq stages' l" "\<And>r. P r \<Longrightarrow> Q r" "unaffected Q"
  shows "claims_ok (add_mset (k, st, stages', Q) C) s"
  using assms by (simp add: claims_ok_def backed_def) blast

lemma retry_stages:
  "claims_ok (add_mset (run_claim p k [a, b, c] P) C) s \<Longrightarrow> claims_ok (add_mset (run_claim p k [a, b] P) C) s"
  unfolding run_claim_def
  by (frule claims_okD, erule claims_ok_weaken) (auto intro: subseq_order.trans[of "[a, b]" "[a, b, c]"])

lemma finish_attempt_claims:
  assumes c: "claims_ok (add_mset (run_claim p k [''task_queued'', ''task_started'']
        (\<lambda>r. tk_max_attempts r = mx \<and> tk_attempts r = n \<and> 1 \<le> n \<and> n \<le> mx))
        (queue_claims (ds_queues s) + T)) s"
  shows "out_ok T (finish_attempt cfg p k mx n h now s)"
proof -
  have f: "out_ok T (handler_failed p k e now s)" for e by (rule handler_failed_claims[OF c])
  have res: "out_ok T (Some (Wk_Complete p k res), s)" for res
    using claims_ok_weaken[OF c[unfolded run_claim_def], of _ "\<lambda>r. tk_pool r = p \<and> True"]
    by (simp add: out_ok_def run_claim_def)
  have ret: "out_ok T (Some (Wk_Retry p k mx n), count_metric g s)" if "n < mx" for g
    using claims_ok_weaken[OF c[unfolded run_claim_def],
        of _ "\<lambda>r. tk_pool r = p \<and> tk_max_attempts r = mx \<and> tk_attempts r = n \<and> 1 \<le> n \<and> n < mx"] that
    by (simp add: out_ok_def run_claim_def)
  show ?thesis
    using f res ret by (cases h) (simp_all add: finish_attempt_def)
qed

lemma complete_run_claims:
  "claims_ok (add_mset (run_claim p k [''task_queued'', ''task_started'', ''task_completed'',
     ''final_output''] P) C) s \<Longrightarrow> claims_ok C (complete_task k res now s)"
  unfolding run_claim_def by (rule complete_task_claims)

lemma resume_worker_claims:
  assumes ok: "claims_ok (mset (holds th) + queue_claims (ds_queues s) + T) s"
    and th: "is_worker th"
  shows "out_ok T (resume_worker cfg th ans now s)"
proof -
  have same: "out_ok T (Some th, s)" using ok by (simp add: out_ok_def)
  show ?thesis
  proof (cases th)
    case (Wk_Idle p)
    then show ?thesis using ok same take_task_claims[of s T p now]
      by (cases ans) (simp_all add: resume_worker_def)
  next
    case (Wk_Start p k mx)
    have c: "claims_ok (add_mset (run_claim p k [''task_queued''] (\<lambda>r. tk_max_attempts r = mx))
        (queue_claims (ds_queues s) + T)) s" using ok Wk_Start by simp
    show ?thesis
    proof (cases ans)
      case (Audit a)
      show ?thesis unfolding resume_worker_def Wk_Start Audit prod.case thread.case answer.case
        by (rule audited_run[OF c])
          (auto simp: record_ok_def intro!: begin_attempt_out worker_audit_failed_claims)
    qed (use same Wk_Start in \<open>simp_all add: resume_worker_def\<close>)
  next
    case (Wk_Attempt p k mx n)
    have c: "claims_ok (add_mset (run_claim p k [''task_queued'', ''task_started'']
        (\<lambda>r. tk_max_attempts r = mx \<and> tk_attempts r = n \<and> 1 \<le> n \<and> n \<le> mx))
        (queue_claims (ds_queues s) + T)) s" using ok Wk_Attempt by simp
    show ?thesis
    proof (cases ans)
      case (Handler h)
      then show ?thesis using finish_attempt_claims[OF c, of cfg h now]
        by (simp add: resume_worker_def Wk_Attempt)
    qed (use same Wk_Attempt in \<open>simp_all add: resume_worker_def\<close>)
  next
    case (Wk_Failing p k)
    show ?thesis
    proof (cases ans)
      case (Audit a)
      obtain e u where au: "audit_record k ''final_output'' a now s = (e, u)"
        by (cases "audit_record k ''final_output'' a now s")
      show ?thesis using audit_record_keeps[OF ok au] audit_record_fixed[OF au]
        by (simp add: resume_worker_def Wk_Failing Audit au out_ok_def split: option.splits)
    qed (use same Wk_Failing in \<open>simp_all add: resume_worker_def\<close>)
  next
    case (Wk_Retry p k mx n)
    have c: "claims_ok (add_mset (run_claim p k [''task_queued'', ''task_started'']
        (\<lambda>r. tk_max_attempts r = mx \<and> tk_attempts r = n \<and> 1 \<le> n \<and> n < mx))
        (queue_claims (ds_queues s) + T)) s" using ok Wk_Retry by simp
    show ?thesis
    proof (cases ans)
      case (Audit a)
      show ?thesis unfolding resume_worker_def Wk_Retry Audit prod.case thread.case answer.case
        by (rule audited_run[OF c])
          (auto intro!: begin_attempt_out handler_failed_claims retry_stages)
    qed (use same Wk_Retry in \<open>simp_all add: resume_worker_def\<close>)
  next
    case (Wk_Complete p k res)
    have c: "claims_ok (add_mset (run_claim p k [''task_queued'', ''task_started''] (\<lambda>_. True))
        (queue_claims (ds_queues s) + T)) s" using ok Wk_Complete by simp
    show ?thesis
    proof (cases ans)
      case (Audit a)
      show ?thesis unfolding resume_worker_def Wk_Complete Audit prod.case thread.case answer.case
        by (rule audited_run[OF c])
          (auto simp: out_ok_def intro!: worker_audit_failed_claims[unfolded out_ok_def])
    qed (use same Wk_Complete in \<open>simp_all add: resume_worker_def\<close>)
  next
    case (Wk_Final p k res)
    have c: "claims_ok (add_mset (run_claim p k [''task_queued'', ''task_started'', ''task_completed''] (\<lambda>_. True))
        (queue_claims (ds_queues s) + T)) s" using ok Wk_Final by simp
    show ?thesis
    proof (cases ans)
      case (Audit a)
      show ?thesis unfolding resume_worker_def Wk_Final Audit prod.case thread.case answer.case
        by (rule audited_run[OF c])
          (auto simp: out_ok_def complete_run_claims
            intro!: worker_audit_failed_claims[unfolded out_ok_def])
    qed (use same Wk_Final in \<open>simp_all add: resume_worker_def\<close>)
  qed (use th in simp_all)
qed

section \<open>Claims over whole runs\<close>

lemma run_thread_inv:
  assumes inv: "task_inv s" and i: "i < length (ds_threads s)"
  shows "task_inv (run_thread cfg i ans now s)"
proof -
  define before after where "before = take i (ds_threads s)" "after = drop (Suc i) (ds_threads s)"
  note ba = before_after_def
  let ?th = "ds_threads s ! i"
  let ?T = "thread_claims before + thread_claims after"
  have split: "ds_threads s = before @ ?th # after" using i by (simp add: ba id_take_nth_drop)
  have "claims_ok (mset (holds ?th) + queue_claims (ds_queues s) + ?T) s"
  proof -
    have "thread_claims (ds_threads s) = mset (holds ?th) + ?T" by (subst split) (simp add: ac_simps)
    with inv show ?thesis by (simp add: task_inv_def ac_simps)
  qed
  then have out: "out_ok ?T (resume_thread cfg ?th ans now s)"
    using resume_submit_claims[of ?th s ?T cfg ans now] resume_worker_claims[of ?th s ?T cfg ans now]
    by (simp add: resume_thread_def)
  obtain o' u where r: "resume_thread cfg ?th ans now s = (o', u)"
    by (cases "resume_thread cfg ?th ans now s")
  show ?thesis using out
    by (cases o') (simp_all add: run_thread_def Let_def r ba[symmetric] out_ok_def task_inv_def ac_simps)
qed

lemma evict_victims:
  "r \<in> set (ds_records s) \<Longrightarrow> \<not> terminal (tk_status r) \<Longrightarrow> distinct (map tk_id (ds_records s)) \<Longrightarrow>
   r \<in> set (ds_records (evict cfg s))"
  by (auto simp: evict_def Let_def dest!: in_set_takeD)
    (metis (no_types, lifting) row_get_distinct option.inject)

lemma evict_subset: "set (ds_records (evict cfg s)) \<subseteq> set (ds_records s)"
  by (auto simp: evict_def Let_def)

lemma evict_distinct:
  "distinct (map tk_id (ds_records s)) \<Longrightarrow> distinct (map tk_id (ds_records (evict cfg s)))"
  by (auto simp: evict_def Let_def distinct_map intro: inj_on_subset)

lemma evict_fixed [simp]:
  "ds_queues (evict cfg s) = ds_queues s" "ds_threads (evict cfg s) = ds_threads s"
  "ds_log (evict cfg s) = ds_log s" "ds_metrics (evict cfg s) = ds_metrics s"
  "ds_running (evict cfg s) = ds_running s" "ds_replies (evict cfg s) = ds_replies s"
  "ds_stopping (evict cfg s) = ds_stopping s"
  by (simp_all add: evict_def Let_def)

lemma task_log_cong: "ds_log s' = ds_log s \<Longrightarrow> task_log k s' = task_log k s"
  by (simp add: task_log_def)

lemma evict_claims:
  assumes ok: "claims_ok C s"
  shows "claims_ok C (evict cfg s)"
proof -
  let ?u = "evict cfg s"
  have log: "task_log k ?u = task_log k s" for k by (rule task_log_cong) simp
  have d: "distinct (map tk_id (ds_records s))" using ok by (simp add: claims_ok_def records_ok_def)
  have "records_ok ?u"
    using ok evict_distinct[OF d, of cfg] evict_subset[of cfg s, THEN subsetD]
    by (auto simp: claims_ok_def records_ok_def log)
  moreover have "backed ?u c" if "c \<in># C" for c
  proof -
    obtain k st stages P where c: "c = (k, st, stages, P)" by (cases c)
    have "backed s c" using ok that by (simp add: claims_ok_def)
    then obtain r where r: "get_task k s = Some r" "tk_status r = st" "subseq stages (task_log k s)"
      "P r" "\<not> terminal st" "unaffected P" by (auto simp: backed_def c)
    then have "r \<in> set (ds_records ?u)" "tk_id r = k"
      using evict_victims[of r s cfg] d by (auto simp: get_task_def dest!: row_get_SomeD)
    then have "get_task k ?u = Some r"
      using row_get_distinct[OF evict_distinct[OF d]] by (auto simp: get_task_def)
    with r show ?thesis by (auto simp: backed_def c log)
  qed
  ultimately show ?thesis using ok by (simp add: claims_ok_def)
qed

lemma evict_get_None: "get_task k s = None \<Longrightarrow> get_task k (evict cfg s) = None"
  using evict_subset[of cfg s] by (auto simp: get_task_def row_get_None_iff)

lemma add_record_claims:
  assumes ok: "claims_ok C s" and new: "get_task (tk_id r) s = None"
    and r: "record_ok r (task_log (tk_id r) s)" "tk_status r = Queued" "P r" "unaffected P"
  shows "claims_ok (add_mset (tk_id r, Queued, [], P) C) (s\<lparr>ds_records := ds_records s @ [r]\<rparr>)"
proof -
  let ?u = "s\<lparr>ds_records := ds_records s @ [r]\<rparr>"
  have log: "task_log k ?u = task_log k s" for k by (rule task_log_cong) simp
  have get: "get_task k ?u = (if k = tk_id r then Some r else get_task k s)" for k
    using new by (auto simp: get_task_def table_simps split: option.splits)
  have "records_ok ?u"
    using ok new r by (auto simp: claims_ok_def records_ok_def log get_task_def row_get_None_iff)
  moreover have old: "backed s c" "fst c \<noteq> tk_id r" if "c \<in># C" for c
  proof -
    show "backed s c" using ok that by (simp add: claims_ok_def)
    then show "fst c \<noteq> tk_id r" using new by (cases c) (auto simp: backed_def)
  qed
  moreover have "backed ?u c" if "c \<in># C" for c
    using old[OF that] by (cases c) (auto simp: backed_def log get)
  moreover have "backed ?u (tk_id r, Queued, [], P)" using r by (simp add: backed_def get log)
  moreover have "count (image_mset fst C) (tk_id r) = 0"
    using old(2) by (force simp: count_eq_zero_iff)
  ultimately show ?thesis using ok by (simp add: claims_ok_def)
qed

lemma store_task_inv:
  assumes inv: "task_inv s" and sub: "valid_submission js sub" and new: "get_task tid s = None"
  shows "task_inv (store_task cfg sub ident trace tid now s)"
proof -
  let ?C = "thread_claims (ds_threads s) + queue_claims (ds_queues s)"
  let ?r = "new_record sub ident trace tid now"
  let ?P = "\<lambda>r. tk_pool r = kind_pool (sb_kind sub) \<and> tk_priority r = sb_priority sub"
  let ?u = "evict cfg s"
  have ok: "claims_ok ?C ?u" using inv evict_claims by (simp add: task_inv_def)
  have "claims_ok (add_mset (tk_id ?r, Queued, [], ?P) ?C) (?u\<lparr>ds_records := ds_records ?u @ [?r]\<rparr>)"
  proof (rule add_record_claims[OF ok])
    show "get_task (tk_id ?r) ?u = None" using new evict_get_None by (simp add: new_record_def)
  qed (use sub in \<open>auto simp: new_record_def record_ok_def valid_submission_def unaffected_def\<close>)
  then have add: "claims_ok (add_mset (tid, Queued, [], ?P) ?C) (?u\<lparr>ds_records := ds_records ?u @ [?r]\<rparr>)"
    by (simp add: new_record_def)
  show ?thesis
  proof (cases "tc_max_records cfg \<le> length (ds_records ?u)")
    case True
    then show ?thesis using ok by (simp add: store_task_def Let_def task_inv_def add_reply_def count_metric_def
          claims_ok_def records_ok_def backed_def get_task_def task_log_def)
  next
    case False
    then show ?thesis using add
      by (simp add: store_task_def Let_def task_inv_def claims_ok_def records_ok_def backed_def get_task_def task_log_def
          split: prod.splits)
  qed
qed

lemma claims_ok_mono:
  assumes "claims_ok D s" "C \<subseteq># D"
  shows "claims_ok C s"
proof -
  have "count (image_mset fst C) k \<le> 1" for k
  proof -
    have "count (image_mset fst C) k \<le> count (image_mset fst D) k"
      by (rule mset_subset_eq_count[OF image_mset_subseteq_mono[OF assms(2)]])
    also have "\<dots> \<le> 1" using assms(1) unfolding claims_ok_def by blast
    finally show ?thesis .
  qed
  with assms mset_subset_eqD[OF assms(2)] show ?thesis by (auto simp: claims_ok_def)
qed

lemma submit_task_inv:
  assumes inv: "task_inv s" and sub: "valid_submission js sub" and new: "get_task tid s = None"
  shows "task_inv (submit_task cfg sub ident trace tid now s)"
proof -
  let ?s = "count_metric (\<lambda>m. m\<lparr>m_submitted := m_submitted m + 1\<rparr>) s"
  have same: "ds_threads (count_metric f t) = ds_threads t" "ds_threads (add_reply k r t) = ds_threads t"
    for f t k r by (simp_all add: count_metric_def add_reply_def)
  have s: "task_inv ?s" using inv by (simp add: task_inv_def same)
  have store: "task_inv (store_task cfg sub ident trace tid now ?s)"
    using store_task_inv[OF s sub] new by simp
  have replay: "task_inv ((count_metric f ?s)\<lparr>ds_threads := ds_threads ?s @ [Sub_Replay tid k]\<rparr>)" for f k
    using inv by (simp add: task_inv_def same)
  show ?thesis using inv store replay
    unfolding submit_task_def Let_def by (simp add: task_inv_def same split: option.splits)
qed

lemma start_dispatcher_inv: "task_inv s \<Longrightarrow> task_inv (start_dispatcher cfg s)"
proof -
  assume inv: "task_inv s"
  have idle: "thread_claims (replicate n (Wk_Idle p)) = {#}" for n p
    by (induction n) simp_all
  have "thread_claims (concat (map (\<lambda>p. replicate (tc_workers cfg p) (Wk_Idle p)) pools)) = {#}"
    by (simp add: pools_def idle)
  with inv show ?thesis
    by (auto simp: start_dispatcher_def task_inv_def claims_ok_def records_ok_def backed_def get_task_def task_log_def)
qed

lemma thread_claims_filter: "thread_claims (filter P ths) \<subseteq># thread_claims ths"
  by (induction ths) (simp_all add: subset_mset.add_increasing subset_mset.add_mono)

lemma cancel_workers_inv: "task_inv s \<Longrightarrow> task_inv (cancel_workers s)"
proof -
  assume inv: "task_inv s"
  have "claims_ok (thread_claims (filter (\<lambda>th. \<not> is_worker th) (ds_threads s)) + queue_claims (ds_queues s)) s"
    using inv thread_claims_filter by (auto simp: task_inv_def elim!: claims_ok_mono intro: subset_mset.add_right_mono)
  then show ?thesis
    by (simp add: cancel_workers_def task_inv_def claims_ok_def records_ok_def backed_def get_task_def task_log_def)
qed

lemma task_step_inv: "task_step cfg s s' \<Longrightarrow> task_inv s \<Longrightarrow> task_inv s'"
proof (induction rule: task_step.induct)
  case (submit sub tid s ident trace now)
  then show ?case using submit_task_inv by blast
next
  case (stopping s)
  then show ?case
    by (simp add: stop_request_def task_inv_def claims_ok_def records_ok_def backed_def get_task_def task_log_def)
qed (simp_all add: run_thread_inv start_dispatcher_inv cancel_workers_inv)

lemma new_dispatcher_inv: "task_inv new_dispatcher"
  by (simp add: new_dispatcher_def task_inv_def claims_ok_def records_ok_def thread_claims_def
      queue_claims_def pools_def)

lemma task_reachable_inv: "task_reachable cfg s \<Longrightarrow> task_inv s"
  by (induction rule: task_reachable.induct) (simp_all add: new_dispatcher_inv task_step_inv)

end
