(* ===== verification/TaskBounds.thy ===== *)
theory TaskBounds
  imports TaskInvariants
begin

text \<open>
  Capacities, worker counts and counters of the dispatcher over whole runs, and what a
  resumption leaves of the records that are final.
\<close>

section \<open>Bounds\<close>

fun worker_pool :: "thread \<Rightarrow> task_pool option" where
  "worker_pool (Wk_Idle p) = Some p"
| "worker_pool (Wk_Start p _ _) = Some p"
| "worker_pool (Wk_Attempt p _ _ _) = Some p"
| "worker_pool (Wk_Retry p _ _ _) = Some p"
| "worker_pool (Wk_Complete p _ _) = Some p"
| "worker_pool (Wk_Final p _ _) = Some p"
| "worker_pool (Wk_Failing p _) = Some p"
| "worker_pool _ = None"

lemma is_worker_pool: "is_worker th \<longleftrightarrow> worker_pool th \<noteq> None"
  by (cases th) simp_all

definition workers :: "task_pool \<Rightarrow> thread list \<Rightarrow> nat" where
  "workers p ths = length (filter (\<lambda>th. worker_pool th = Some p) ths)"

definition bounds_ok :: "task_config \<Rightarrow> dispatcher \<Rightarrow> bool" where
  "bounds_ok cfg s \<longleftrightarrow>
     (\<forall>p. length (ds_queues s p) \<le> tc_capacity cfg p) \<and>
     length (ds_records s) \<le> tc_max_records cfg \<and>
     (\<forall>p. workers p (ds_threads s) \<le> (if ds_running s then tc_workers cfg p else 0))"

section \<open>Counters\<close>

fun pending :: "thread \<Rightarrow> nat" where
  "pending (Sub_Audit _ _ _) = 1"
| "pending (Sub_Enqueue _ _) = 1"
| "pending _ = 0"

definition queued :: "dispatcher \<Rightarrow> nat" where
  "queued s = sum_list (map (\<lambda>p. length (ds_queues s p)) pools)"

definition active :: "dispatcher \<Rightarrow> nat" where
  "active s = sum_list (map (\<lambda>p. active_tasks p s) pools)"

definition busy :: "thread \<Rightarrow> nat" where
  "busy th = (if is_worker th \<and> (\<forall>p. th \<noteq> Wk_Idle p) then 1 else 0)"

definition counters_ok :: "dispatcher \<Rightarrow> bool" where
  "counters_ok s \<longleftrightarrow> (let m = ds_metrics s in
     m_submitted m = m_accepted m + m_rejected m + m_replays m + sum_list (map pending (ds_threads s)) \<and>
     m_accepted m = m_started m + queued s \<and>
     m_succeeded m + m_failed m + sum_list (map busy (ds_threads s)) \<le> m_started m)"

definition out_sum :: "(thread \<Rightarrow> nat) \<Rightarrow> thread option \<Rightarrow> nat" where
  "out_sum f o' = (case o' of None \<Rightarrow> 0 | Some th \<Rightarrow> f th)"

lemma out_sum_simps [simp]: "out_sum f None = 0" "out_sum f (Some th) = f th"
  by (simp_all add: out_sum_def)

lemma busy_simps [simp]:
  "busy (Sub_Replay a b) = 0" "busy (Sub_Audit c d e) = 0" "busy (Sub_Enqueue f g) = 0"
  "busy (Sub_Reject_Audit h) = 0" "busy (Wk_Idle p) = 0" "busy (Wk_Start p k mx) = 1"
  "busy (Wk_Attempt p k mx n) = 1" "busy (Wk_Retry p k mx n) = 1" "busy (Wk_Complete p k r) = 1"
  "busy (Wk_Final p k r) = 1" "busy (Wk_Failing p k) = 1"
  by (simp_all add: busy_def)

text \<open>What one resumption does to the counters, the queues and the worker's place.\<close>

definition resume_ok :: "task_config \<Rightarrow> thread \<Rightarrow> dispatcher \<Rightarrow> thread option \<times> dispatcher \<Rightarrow> bool" where
  "resume_ok cfg th s out \<longleftrightarrow> (case out of (o', u) \<Rightarrow>
     (let m = ds_metrics s; n = ds_metrics u in
     m_submitted n = m_submitted m \<and>
     m_accepted n + m_rejected n + m_replays n + out_sum pending o' =
       m_accepted m + m_rejected m + m_replays m + pending th \<and>
     m_accepted n + (m_started m + queued s) = m_accepted m + (m_started n + queued u) \<and>
     m_succeeded n + m_failed n + out_sum busy o' + m_started m \<le>
       m_succeeded m + m_failed m + busy th + m_started n \<and>
     (\<forall>p. length (ds_queues u p) \<le> max (tc_capacity cfg p) (length (ds_queues s p))) \<and>
     map tk_id (ds_records u) = map tk_id (ds_records s) \<and> ds_running u = ds_running s \<and>
     (\<forall>th'. o' = Some th' \<longrightarrow> worker_pool th' = worker_pool th)))"

lemma frame_simps [simp]:
  "ds_metrics (update_task k now g s) = ds_metrics s"
  "ds_metrics (add_reply k r s) = ds_metrics s"
  "ds_metrics (reply_get k j s) = ds_metrics s"
  "ds_metrics (fail_task k e now s) = ds_metrics s"
  "ds_metrics (count_metric h s) = h (ds_metrics s)"
  "ds_running (update_task k now g s) = ds_running s"
  "ds_running (add_reply k r s) = ds_running s"
  "ds_running (reply_get k j s) = ds_running s"
  "ds_running (fail_task k e now s) = ds_running s"
  "ds_running (count_metric h s) = ds_running s"
  "ds_records (add_reply k r s) = ds_records s"
  "ds_records (reply_get k j s) = ds_records s"
  "ds_records (count_metric h s) = ds_records s"
  "ds_threads (add_reply k r s) = ds_threads s"
  "ds_threads (count_metric h s) = ds_threads s"
  by (simp_all add: update_task_def add_reply_def reply_get_def fail_task_def count_metric_def)

lemma update_ids [simp]:
  "(\<And>r. tk_id (f r) = tk_id r) \<Longrightarrow> map tk_id (ds_records (update_task k now f s)) = map tk_id (ds_records s)"
  by (simp add: update_task_def)

lemma queued_cong: "ds_queues u = ds_queues s \<Longrightarrow> queued u = queued s"
  by (simp add: queued_def)

lemma queued_simps [simp]:
  "queued (update_task k now g s) = queued s"
  "queued (add_reply k r s) = queued s"
  "queued (reply_get k j s) = queued s"
  "queued (fail_task k e now s) = queued s"
  "queued (count_metric h s) = queued s"
  "queued (s\<lparr>ds_sequence := n\<rparr>) = queued s"
  by (rule queued_cong; simp)+

lemma queued_put [simp]:
  "queued (s\<lparr>ds_queues := (ds_queues s)(p := ds_queues s p @ [item])\<rparr>) = Suc (queued s)"
  by (cases p) (simp_all add: queued_def pools_def)

lemma queued_take:
  "item \<in> set (ds_queues s p) \<Longrightarrow>
   Suc (queued (s\<lparr>ds_queues := (ds_queues s)(p := remove1 item (ds_queues s p))\<rparr>)) = queued s"
proof -
  assume i: "item \<in> set (ds_queues s p)"
  then have "Suc (length (remove1 item (ds_queues s p))) = length (ds_queues s p)"
    using length_pos_if_in_set[OF i] by (simp add: length_remove1)
  then show ?thesis by (cases p) (simp_all add: queued_def pools_def)
qed

lemmas resume_frame = count_failed_def audit_failed_def reject_task_def enqueue_def complete_task_def
  worker_audit_failed_def handler_failed_def begin_attempt_def fail_task_def

lemma take_task_ok: "resume_ok cfg (Wk_Idle p) s (take_task p now s)"
proof (cases "ds_queues s p")
  case Nil
  then show ?thesis by (simp add: take_task_def resume_ok_def Let_def)
next
  case (Cons x xs)
  define item where "item = queue_min x xs"
  define q where "q = (ds_queues s)(p := remove1 item (ds_queues s p))"
  have "item \<in> set (ds_queues s p)" using queue_min_in[of x xs] by (simp add: Cons item_def)
  then have len: "Suc (queued (s\<lparr>ds_queues := q\<rparr>)) = queued s" unfolding q_def by (rule queued_take)
  have le: "length (q p') \<le> length (ds_queues s p')" for p'
    by (simp add: q_def length_remove1)
  have *: "take_task p now s = (let u = count_metric (\<lambda>m. m\<lparr>m_started := m_started m + 1\<rparr>) (s\<lparr>ds_queues := q\<rparr>)
      in case get_task (snd (snd item)) u of
           None \<Rightarrow> (None, u)
         | Some r \<Rightarrow> (Some (Wk_Start p (snd (snd item)) (tk_max_attempts r)),
             update_task (snd (snd item)) now
               (\<lambda>r. r\<lparr>tk_status := Running, tk_started := Some now, tk_attempts := 0\<rparr>) u))"
    unfolding take_task_def q_def item_def Cons list.case Let_def by (rule refl)
  show ?thesis
  proof (cases "get_task (snd (snd item)) s")
    case None
    then show ?thesis using len le by (simp add: * resume_ok_def Let_def le_max_iff_disj)
  next
    case (Some r)
    then show ?thesis using len le by (simp add: * resume_ok_def Let_def le_max_iff_disj)
  qed
qed

lemma queue_put_le:
  "queue_has_room cfg p s \<Longrightarrow>
   length (((ds_queues s)(p := ds_queues s p @ [item])) p') \<le> max (tc_capacity cfg p') (length (ds_queues s p'))"
  by (auto simp: queue_has_room_def)

lemma enqueue_ok:
  assumes "queue_has_room cfg p s" "pending th = 1" "busy th = 0"
  shows "resume_ok cfg th s (None, enqueue p item s)"
  using assms queue_put_le[OF assms(1), of item]
  by (simp add: resume_ok_def enqueue_def Let_def)

lemma resume_ok_trans:
  assumes "ds_queues u = ds_queues s" "ds_metrics u = ds_metrics s" "ds_running u = ds_running s"
    "map tk_id (ds_records u) = map tk_id (ds_records s)"
  shows "resume_ok cfg th u out \<Longrightarrow> resume_ok cfg th s out"
  using assms queued_cong[OF assms(1)] by (simp add: resume_ok_def)

lemma audit_resume_ok:
  assumes "\<And>u. resume_ok cfg th u (f u)" "\<And>e u. resume_ok cfg th u (g e u)"
  shows "resume_ok cfg th s (case audit_record k stage a now s of (None, u) \<Rightarrow> f u | (Some e, u) \<Rightarrow> g e u)"
proof -
  obtain e u where au: "audit_record k stage a now s = (e, u)" by (cases "audit_record k stage a now s")
  note fx = audit_record_fixed[OF au]
  show ?thesis
    using resume_ok_trans[of u s cfg th, OF _ _ _ _ assms(1)] resume_ok_trans[of u s cfg th, OF _ _ _ _ assms(2)] fx
    by (cases e) (simp_all add: au)
qed

lemma after_queue_audit_ok: "resume_ok cfg (Sub_Audit k pr p) u (after_queue_audit cfg k pr p now u)"
proof -
  let ?u = "u\<lparr>ds_sequence := Suc (ds_sequence u)\<rparr>"
  have "resume_ok cfg (Sub_Audit k pr p) ?u (None, enqueue p item ?u)" if "queue_has_room cfg p ?u" for item
    by (rule enqueue_ok[OF that]) simp_all
  then have "resume_ok cfg (Sub_Audit k pr p) u (None, enqueue p item ?u)" if "queue_has_room cfg p ?u" for item
    by (rule resume_ok_trans[rotated 4]) (use that in simp_all)
  then show ?thesis
    by (simp add: after_queue_audit_def Let_def) (simp add: resume_ok_def reject_task_def Let_def)
qed

lemma resume_thread_ok: "resume_ok cfg th s (resume_thread cfg th ans now s)"
proof -
  have same: "resume_ok cfg th s (Some th, s)" by (simp add: resume_ok_def Let_def)
  note defs = resume_thread_def resume_submit_def resume_worker_def
  note step = resume_ok_def resume_frame Let_def
  show ?thesis
  proof (cases th)
    case (Sub_Replay tag ex)
    then show ?thesis using same
      by (cases ans) (simp_all add: defs, simp add: step split: audit_answer.splits)
  next
    case (Sub_Audit k pr p)
    show ?thesis
    proof (cases ans)
      case (Audit a)
      show ?thesis
        by (simp add: defs Sub_Audit Audit, rule audit_resume_ok, rule after_queue_audit_ok) (simp add: step)
    qed (use same Sub_Audit in \<open>simp_all add: defs\<close>)
  next
    case (Sub_Enqueue p item)
    then show ?thesis using same enqueue_ok[of cfg p s th item]
      by (cases ans) (simp_all add: defs, simp add: step)
  next
    case (Sub_Reject_Audit k)
    show ?thesis
    proof (cases ans)
      case (Audit a)
      show ?thesis
        by (simp add: defs Sub_Reject_Audit Audit, rule audit_resume_ok) (simp_all add: step)
    qed (use same Sub_Reject_Audit in \<open>simp_all add: defs\<close>)
  next
    case (Wk_Idle p)
    then show ?thesis using same take_task_ok[of cfg p s now] by (cases ans) (simp_all add: defs)
  next
    case (Wk_Start p k mx)
    show ?thesis
    proof (cases ans)
      case (Audit a)
      show ?thesis
        by (simp add: defs Wk_Start Audit, rule audit_resume_ok) (simp_all add: step)
    qed (use same Wk_Start in \<open>simp_all add: defs\<close>)
  next
    case (Wk_Attempt p k mx n)
    then show ?thesis using same
      by (cases ans) (simp_all add: defs, simp add: finish_attempt_def step split: handler_answer.splits)
  next
    case (Wk_Retry p k mx n)
    show ?thesis
    proof (cases ans)
      case (Audit a)
      show ?thesis
        by (simp add: defs Wk_Retry Audit, rule audit_resume_ok) (simp_all add: step)
    qed (use same Wk_Retry in \<open>simp_all add: defs\<close>)
  next
    case (Wk_Complete p k res)
    show ?thesis
    proof (cases ans)
      case (Audit a)
      show ?thesis
        by (simp add: defs Wk_Complete Audit, rule audit_resume_ok) (simp_all add: step)
    qed (use same Wk_Complete in \<open>simp_all add: defs\<close>)
  next
    case (Wk_Final p k res)
    show ?thesis
    proof (cases ans)
      case (Audit a)
      show ?thesis
        by (simp add: defs Wk_Final Audit, rule audit_resume_ok) (simp_all add: step)
    qed (use same Wk_Final in \<open>simp_all add: defs\<close>)
  next
    case (Wk_Failing p k)
    show ?thesis
    proof (cases ans)
      case (Audit a)
      show ?thesis
        by (simp add: defs Wk_Failing Audit, rule audit_resume_ok) (simp_all add: step)
    qed (use same Wk_Failing in \<open>simp_all add: defs\<close>)
  qed
qed

section \<open>Bounds and counters over runs\<close>

lemma run_thread_split:
  assumes "i < length (ds_threads s)"
  obtains before after o' u where "ds_threads s = before @ ds_threads s ! i # after"
    "resume_thread cfg (ds_threads s ! i) ans now s = (o', u)"
    "run_thread cfg i ans now s =
       u\<lparr>ds_threads := before @ (case o' of None \<Rightarrow> [] | Some th \<Rightarrow> [th]) @ after\<rparr>"
proof -
  obtain o' u where r: "resume_thread cfg (ds_threads s ! i) ans now s = (o', u)"
    by (cases "resume_thread cfg (ds_threads s ! i) ans now s")
  have "run_thread cfg i ans now s = u\<lparr>ds_threads := take i (ds_threads s) @
      (case o' of None \<Rightarrow> [] | Some th \<Rightarrow> [th]) @ drop (Suc i) (ds_threads s)\<rparr>"
    by (simp add: run_thread_def Let_def r split: option.splits)
  from that[OF id_take_nth_drop[OF assms] r this] show ?thesis .
qed

lemma workers_simps [simp]:
  "workers p [] = 0"
  "workers p (th # ths) = (if worker_pool th = Some p then 1 else 0) + workers p ths"
  "workers p (xs @ ys) = workers p xs + workers p ys"
  by (simp_all add: workers_def)

lemma queued_threads [simp]: "queued (s\<lparr>ds_threads := ths\<rparr>) = queued s"
  by (rule queued_cong) simp

lemma run_thread_bounds:
  assumes ok: "bounds_ok cfg s" "counters_ok s" and i: "i < length (ds_threads s)"
  shows "bounds_ok cfg (run_thread cfg i ans now s) \<and> counters_ok (run_thread cfg i ans now s)"
proof -
  obtain before after o' u where th: "ds_threads s = before @ ds_threads s ! i # after"
    and r: "resume_thread cfg (ds_threads s ! i) ans now s = (o', u)"
    and run: "run_thread cfg i ans now s =
       u\<lparr>ds_threads := before @ (case o' of None \<Rightarrow> [] | Some th \<Rightarrow> [th]) @ after\<rparr>"
    by (rule run_thread_split[OF i])
  define t where "t = ds_threads s ! i"
  have ok': "resume_ok cfg t s (o', u)" using resume_thread_ok[of cfg t s ans now] r by (simp add: t_def)
  have th': "ds_threads s = before @ t # after" using th by (simp add: t_def)
  have len: "length (ds_records u) = length (ds_records s)"
    using ok' by (auto simp: resume_ok_def Let_def dest: map_eq_imp_length_eq)
  have q: "length (ds_queues u p) \<le> tc_capacity cfg p" for p
  proof -
    have "length (ds_queues u p) \<le> max (tc_capacity cfg p) (length (ds_queues s p))"
      using ok' by (simp add: resume_ok_def Let_def)
    moreover have "length (ds_queues s p) \<le> tc_capacity cfg p" using ok(1) by (simp add: bounds_ok_def)
    ultimately show ?thesis by simp
  qed
  have w: "workers p (before @ (case o' of None \<Rightarrow> [] | Some th \<Rightarrow> [th]) @ after) \<le> workers p (ds_threads s)" for p
    using ok' by (cases o') (simp_all add: th' resume_ok_def Let_def)
  have "bounds_ok cfg (run_thread cfg i ans now s)"
    unfolding bounds_ok_def
  proof (intro conjI allI)
    fix p
    have "workers p (ds_threads s) \<le> (if ds_running s then tc_workers cfg p else 0)"
      using ok(1) unfolding bounds_ok_def by blast
    moreover have "ds_running u = ds_running s" using ok' by (simp add: resume_ok_def Let_def)
    ultimately show "workers p (ds_threads (run_thread cfg i ans now s)) \<le>
        (if ds_running (run_thread cfg i ans now s) then tc_workers cfg p else 0)"
      using w[of p] unfolding run by simp
  qed (use ok(1) len q in \<open>simp_all add: run bounds_ok_def\<close>)
  moreover have "counters_ok (run_thread cfg i ans now s)"
    using ok(2) ok' unfolding run
    by (cases o') (simp_all add: counters_ok_def resume_ok_def Let_def th')
  ultimately show ?thesis by blast
qed

lemma evict_length: "length (ds_records (evict cfg s)) \<le> length (ds_records s)"
  by (simp add: evict_def Let_def)

lemma submit_bounds:
  assumes ok: "bounds_ok cfg s" "counters_ok s"
  shows "bounds_ok cfg (submit_task cfg sub ident trace tid now s) \<and>
    counters_ok (submit_task cfg sub ident trace tid now s)"
proof -
  let ?s = "count_metric (\<lambda>m. m\<lparr>m_submitted := m_submitted m + 1\<rparr>) s"
  have el: "length (ds_records (evict cfg ?s)) \<le> length (ds_records s)"
    using evict_length[of cfg ?s] by simp
  have q: "queued (evict cfg t) = queued t" for t by (rule queued_cong) simp
  have sizes: "length (ds_queues s p) \<le> tc_capacity cfg p"
    "workers p (ds_threads s) \<le> (if ds_running s then tc_workers cfg p else 0)"
    "length (ds_records s) \<le> tc_max_records cfg" for p
    using ok(1) unfolding bounds_ok_def by blast+
  have store: "bounds_ok cfg (store_task cfg sub ident trace tid now ?s) \<and>
      counters_ok (store_task cfg sub ident trace tid now ?s)"
  proof (cases "tc_max_records cfg \<le> length (ds_records (evict cfg ?s))")
    case True
    then show ?thesis
      using el sizes ok(2)
      by (simp add: store_task_def Let_def bounds_ok_def counters_ok_def q)
  next
    case False
    have "queued (u\<lparr>ds_records := a, ds_idem := b, ds_threads := c\<rparr>) = queued u" for u a b c
      by (rule queued_cong) simp
    then show ?thesis
      using False sizes ok(2)
      by (simp add: store_task_def Let_def bounds_ok_def counters_ok_def q)
  qed
  have refuse: "bounds_ok cfg (add_reply tid r (count_metric (\<lambda>m. m\<lparr>m_rejected := m_rejected m + 1\<rparr>) ?s)) \<and>
      counters_ok (add_reply tid r (count_metric (\<lambda>m. m\<lparr>m_rejected := m_rejected m + 1\<rparr>) ?s))" for r
    using sizes ok(2) by (simp add: bounds_ok_def counters_ok_def Let_def)
  have replay: "bounds_ok cfg ((count_metric (\<lambda>m. m\<lparr>m_replays := m_replays m + 1\<rparr>) ?s)
        \<lparr>ds_threads := ds_threads ?s @ [Sub_Replay tid ex]\<rparr>) \<and>
      counters_ok ((count_metric (\<lambda>m. m\<lparr>m_replays := m_replays m + 1\<rparr>) ?s)
        \<lparr>ds_threads := ds_threads ?s @ [Sub_Replay tid ex]\<rparr>)" for ex
    using sizes ok(2) by (simp add: bounds_ok_def counters_ok_def Let_def)
  from store refuse replay show ?thesis
    unfolding submit_task_def Let_def by (simp split: option.splits)
qed

lemma task_step_bounds:
  "task_step cfg s s' \<Longrightarrow> bounds_ok cfg s \<Longrightarrow> counters_ok s \<Longrightarrow> bounds_ok cfg s' \<and> counters_ok s'"
proof (induction rule: task_step.induct)
  case (submit sub tid s ident trace now)
  then show ?case using submit_bounds by blast
next
  case (resume i s ans now)
  then show ?case using run_thread_bounds by blast
next
  case (start s)
  let ?new = "concat (map (\<lambda>p. replicate (tc_workers cfg p) (Wk_Idle p)) pools)"
  have "workers q (replicate n (Wk_Idle p)) = (if p = q then n else 0)" for p q n
    by (simp add: workers_def filter_replicate)
  then have w: "workers p ?new = tc_workers cfg p" for p
    by (cases p) (simp_all add: pools_def)
  have z: "sum_list (map f (concat (map (\<lambda>p. replicate (n p) (Wk_Idle p)) pools))) = 0"
    if "\<And>p. f (Wk_Idle p) = 0" for f :: "thread \<Rightarrow> nat" and n
    by (simp add: pools_def that map_replicate_const sum_list_replicate)
  have q: "queued (s\<lparr>ds_running := True, ds_stopping := False\<rparr>) = queued s"
    by (rule queued_cong) simp
  show ?case
  proof (cases "ds_running s \<or> list_ex (\<lambda>p. ds_queues s p \<noteq> []) pools")
    case True
    then show ?thesis using start by (simp add: start_dispatcher_def)
  next
    case False
    then have "workers p (ds_threads s) = 0" for p
      using start(1) unfolding bounds_ok_def by (metis le_zero_eq)
    with False start show ?thesis
      by (simp add: start_dispatcher_def bounds_ok_def w) (simp add: counters_ok_def Let_def z q)
  qed
next
  case (stopping s)
  have "queued (s\<lparr>ds_stopping := True\<rparr>) = queued s" by (rule queued_cong) simp
  with stopping show ?case
    by (auto simp: stop_request_def bounds_ok_def counters_ok_def Let_def split: if_splits)
next
  case (stopped s)
  let ?P = "\<lambda>th. \<not> is_worker th"
  have w: "workers p (filter ?P ths) = 0" for p ths
    by (induction ths) (auto simp: is_worker_pool)
  have pe: "sum_list (map pending (filter ?P ths)) = sum_list (map pending ths)" for ths
  proof (induction ths)
    case (Cons th ths)
    then show ?case by (cases th) simp_all
  qed simp
  have bu: "sum_list (map busy (filter ?P ths)) \<le> sum_list (map busy ths)" for ths
    by (induction ths) simp_all
  have q: "queued (s\<lparr>ds_threads := c, ds_running := False, ds_stopping := False\<rparr>) = queued s" for c
    by (rule queued_cong) simp
  from stopped show ?case
    using bu[of "ds_threads s"] by (simp add: cancel_workers_def bounds_ok_def w counters_ok_def Let_def pe q)
qed

lemma new_dispatcher_bounds: "bounds_ok cfg new_dispatcher \<and> counters_ok new_dispatcher"
  by (simp add: new_dispatcher_def bounds_ok_def counters_ok_def zero_metrics_def queued_def pools_def)

lemma task_reachable_bounds: "task_reachable cfg s \<Longrightarrow> bounds_ok cfg s \<and> counters_ok s"
  by (induction rule: task_reachable.induct) (use new_dispatcher_bounds task_step_bounds in blast)+

section \<open>Final records\<close>

text \<open>Which columns of a record are settled once its status is final.\<close>

definition settled :: "task_record \<Rightarrow> task_status \<times> pydict option \<times> task_error option \<times> int option" where
  "settled r = (tk_status r, tk_result r, tk_error r, tk_completed r)"

definition settled_in ::
    "string \<Rightarrow> dispatcher \<Rightarrow> (task_status \<times> pydict option \<times> task_error option \<times> int option) option" where
  "settled_in k s = map_option settled (get_task k s)"

lemma settled_update_other:
  "k \<noteq> j \<Longrightarrow> (\<And>r. tk_id (f r) = tk_id r) \<Longrightarrow> settled_in k (update_task j now f s) = settled_in k s"
  by (simp add: settled_in_def get_task_update)

lemma settled_cong: "ds_records u = ds_records s \<Longrightarrow> settled_in k u = settled_in k s"
  by (simp add: settled_in_def get_task_def)

lemma settled_simps [simp]:
  "settled_in k (count_metric f s) = settled_in k s"
  "settled_in k (add_reply j r s) = settled_in k s"
  "settled_in k (reply_get j i s) = settled_in k s"
  "settled_in k (log_audit j st s) = settled_in k s"
  "settled_in k (s\<lparr>ds_queues := q\<rparr>) = settled_in k s"
  "settled_in k (s\<lparr>ds_sequence := n\<rparr>) = settled_in k s"
  "settled_in k (s\<lparr>ds_threads := ths\<rparr>) = settled_in k s"
  by (rule settled_cong; simp add: log_audit_def)+

lemma settled_audit:
  "audit_record j stage a now s = (e, u) \<Longrightarrow> settled_in k u = settled_in k s"
  by (auto simp: audit_record_def settled_in_def get_task_update settled_def option.map_comp comp_def
      split: audit_answer.splits option.splits)

lemma audit_settled:
  assumes "\<And>u. settled_in k u = settled_in k s \<Longrightarrow> settled_in k (snd (f u)) = settled_in k s"
    "\<And>e u. settled_in k u = settled_in k s \<Longrightarrow> settled_in k (snd (g e u)) = settled_in k s"
  shows "settled_in k (snd (case audit_record j stage a now s of (None, u) \<Rightarrow> f u | (Some e, u) \<Rightarrow> g e u)) =
    settled_in k s"
proof -
  obtain e u where au: "audit_record j stage a now s = (e, u)" by (cases "audit_record j stage a now s")
  show ?thesis using settled_audit[OF au, of k] assms by (cases e) (simp_all add: au)
qed

text \<open>The task a resumption writes the outcome of, if any: the one its thread or queue item holds.\<close>

lemma resume_settled:
  assumes "k \<notin> fst ` set (holds th)" "\<And>p item. item \<in> set (ds_queues s p) \<Longrightarrow> snd (snd item) \<noteq> k"
  shows "settled_in k (snd (resume_thread cfg th ans now s)) = settled_in k s"
proof -
  note defs = resume_thread_def resume_submit_def resume_worker_def
  note step = resume_frame settled_update_other after_queue_audit_def finish_attempt_def Let_def
  note h = assms(1) item_claim_def run_claim_def
  show ?thesis
  proof (cases th)
    case (Sub_Replay tag ex)
    then show ?thesis
      by (cases ans) (simp_all add: defs, simp add: step split: audit_answer.splits)
  next
    case (Sub_Audit j pr p)
    then have "k \<noteq> j" using assms(1) by simp
    then show ?thesis
      by (cases ans) (simp_all add: defs Sub_Audit audit_settled step)
  next
    case (Sub_Enqueue p item)
    then have "k \<noteq> snd (snd item)" using assms(1) by (simp add: item_claim_def)
    then show ?thesis
      by (cases ans) (simp_all add: defs Sub_Enqueue step)
  next
    case (Sub_Reject_Audit j)
    then show ?thesis
      by (cases ans) (simp_all add: defs audit_settled step)
  next
    case (Wk_Idle p)
    have "settled_in k (snd (take_task p now s)) = settled_in k s"
    proof (cases "ds_queues s p")
      case Nil
      then show ?thesis by (simp add: take_task_def)
    next
      case (Cons x xs)
      then have "snd (snd (queue_min x xs)) \<noteq> k"
        using assms(2)[of "queue_min x xs" p] queue_min_in[of x xs] by simp
      then show ?thesis unfolding take_task_def Cons list.case Let_def
        by (simp add: settled_update_other split: option.splits)
    qed
    then show ?thesis using Wk_Idle by (cases ans) (simp_all add: defs)
  next
    case (Wk_Failing p j)
    then show ?thesis
      by (cases ans) (simp_all add: defs audit_settled step)
  next
    case (Wk_Start p j mx)
    then have "k \<noteq> j" using assms(1) by (simp add: run_claim_def)
    then show ?thesis by (cases ans) (simp_all add: defs Wk_Start audit_settled step)
  next
    case (Wk_Attempt p j mx n)
    then have "k \<noteq> j" using assms(1) by (simp add: run_claim_def)
    then show ?thesis
      by (cases ans) (simp_all add: defs Wk_Attempt, simp add: step split: handler_answer.splits)
  next
    case (Wk_Retry p j mx n)
    then have "k \<noteq> j" using assms(1) by (simp add: run_claim_def)
    then show ?thesis by (cases ans) (simp_all add: defs Wk_Retry audit_settled step)
  next
    case (Wk_Complete p j res)
    then have "k \<noteq> j" using assms(1) by (simp add: run_claim_def)
    then show ?thesis by (cases ans) (simp_all add: defs Wk_Complete audit_settled step)
  next
    case (Wk_Final p j res)
    then have "k \<noteq> j" using assms(1) by (simp add: run_claim_def)
    then show ?thesis by (cases ans) (simp_all add: defs Wk_Final audit_settled step)
  qed
qed

lemma final_not_claimed:
  assumes inv: "task_inv s" and r: "get_task k s = Some r" "terminal (tk_status r)"
  shows "th \<in> set (ds_threads s) \<Longrightarrow> k \<notin> fst ` set (holds th)"
    "item \<in> set (ds_queues s p) \<Longrightarrow> snd (snd item) \<noteq> k"
proof -
  have no: "fst c \<noteq> k" if "c \<in># thread_claims (ds_threads s) + queue_claims (ds_queues s)" for c
  proof
    assume "fst c = k"
    moreover have "backed s c" using inv that unfolding task_inv_def claims_ok_def by blast
    ultimately show False using r by (auto simp: backed_def split: prod.splits)
  qed
  show "th \<in> set (ds_threads s) \<Longrightarrow> k \<notin> fst ` set (holds th)"
    using no by (force simp: thread_claims_def)
  assume i: "item \<in> set (ds_queues s p)"
  have "item_claim p item \<in># queue_claims (ds_queues s)"
    using i by (cases p) (auto simp: queue_claims_def pools_def)
  then show "snd (snd item) \<noteq> k" using no[of "item_claim p item"] by (simp add: item_claim_def)
qed

lemma settled_evict:
  assumes "distinct (map tk_id (ds_records s))"
  shows "settled_in k (evict cfg s) = settled_in k s \<or> get_task k (evict cfg s) = None"
proof (cases "get_task k (evict cfg s)")
  case (Some r)
  then have "r \<in> set (ds_records s)" "tk_id r = k"
    using evict_subset[of cfg s] by (auto simp: get_task_def dest!: row_get_SomeD)
  then have "get_task k s = Some r" using row_get_distinct[OF assms] by (auto simp: get_task_def)
  with Some show ?thesis by (simp add: settled_in_def)
qed simp

lemma settled_submit:
  assumes inv: "task_inv s" and k: "get_task k s \<noteq> None" and new: "get_task tid s = None"
  shows "settled_in k (submit_task cfg sub ident trace tid now s) = settled_in k s \<or>
    get_task k (submit_task cfg sub ident trace tid now s) = None"
proof -
  let ?s = "count_metric (\<lambda>m. m\<lparr>m_submitted := m_submitted m + 1\<rparr>) s"
  have d: "distinct (map tk_id (ds_records ?s))"
    using inv by (simp add: task_inv_def claims_ok_def records_ok_def)
  have kt: "k \<noteq> tid" using k new by auto
  have store: "settled_in k (store_task cfg sub ident trace tid now ?s) = settled_in k s \<or>
      get_task k (store_task cfg sub ident trace tid now ?s) = None"
    using settled_evict[OF d, of k cfg] kt
    by (auto simp: store_task_def Let_def settled_in_def get_task_def table_simps new_record_def
        count_metric_def add_reply_def split: option.splits)
  then show ?thesis unfolding submit_task_def Let_def
    by (auto split: option.splits)
qed

end
