(* ===== verification/TaskProps.thy ===== *)
theory TaskProps
  imports TaskBounds
begin

text \<open>
  The properties of the in-memory task runtime, with a concrete run (one task submitted,
  started and completed) on which they are applied.
\<close>

section \<open>Properties\<close>

definition held_tasks :: "dispatcher \<Rightarrow> string list" where
  "held_tasks s = concat (map (\<lambda>th. map fst (holds th)) (ds_threads s)) @
     concat (map (\<lambda>p. map (\<lambda>item. snd (snd item)) (ds_queues s p)) pools)"

lemma mset_held_tasks:
  "mset (held_tasks s) = image_mset fst (thread_claims (ds_threads s) + queue_claims (ds_queues s))"
proof -
  have "image_mset fst (thread_claims ths) = mset (concat (map (\<lambda>th. map fst (holds th)) ths))" for ths
    by (induction ths) simp_all
  moreover have "image_mset fst (mset (map (item_claim p) q)) = mset (map (\<lambda>item. snd (snd item)) q)" for p q
    by (induction q) (simp_all add: item_claim_def)
  ultimately show ?thesis by (simp add: held_tasks_def queue_claims_def pools_def)
qed

text \<open>A concrete run: one pool worker each, one task submitted, run and completed.\<close>

definition demo_config :: task_config where
  "demo_config = \<lparr>tc_workers = (\<lambda>_. 1), tc_capacity = (\<lambda>_. 2), tc_max_records = 1000,
     tc_handlers = [Agent_Kind], tc_json_size = length\<rparr>"

definition demo_submission :: submission where
  "demo_submission = \<lparr>sb_kind = Agent_Kind, sb_priority = Priority_Medium, sb_payload = [],
     sb_idem = None, sb_timeout_ms = 30000, sb_max_attempts = 2\<rparr>"

definition demo_identity :: task_identity where
  "demo_identity = \<lparr>ti_tenant = ''t'', ti_actor = ''a'', ti_role = ''staff''\<rparr>"

definition demo_submitted :: dispatcher where
  "demo_submitted = submit_task demo_config demo_submission demo_identity ''tr'' ''k1'' 5
     (start_dispatcher demo_config new_dispatcher)"

definition demo_queued :: dispatcher where
  "demo_queued = run_thread demo_config 3 (Audit Audit_Ok) 6 demo_submitted"

definition demo_started :: dispatcher where
  "demo_started = run_thread demo_config 1 Proceed 7 demo_queued"

definition run_thread_all :: "task_config \<Rightarrow> nat \<Rightarrow> answer list \<Rightarrow> int \<Rightarrow> dispatcher \<Rightarrow> dispatcher" where
  "run_thread_all cfg i answers now s = fold (\<lambda>a. run_thread cfg i a now) answers s"

definition success_answers :: "pydict \<Rightarrow> answer list" where
  "success_answers res = [Audit Audit_Ok, Handler (Handler_Result res), Audit Audit_Ok, Audit Audit_Ok]"

definition demo_done :: dispatcher where
  "demo_done = run_thread_all demo_config 1 (success_answers []) 8 demo_started"

lemma demo_config_simps [simp]:
  "tc_workers demo_config p = 1" "tc_capacity demo_config p = 2" "tc_max_records demo_config = 1000"
  "tc_handlers demo_config = [Agent_Kind]" "tc_json_size demo_config = length"
  by (simp_all add: demo_config_def)

lemma demo_submitted_eq:
  "ds_threads demo_submitted = [Wk_Idle Security_Pool, Wk_Idle Agent_Pool, Wk_Idle Evaluation_Pool,
     Sub_Audit ''k1'' Priority_Medium Agent_Pool]"
  "ds_records demo_submitted = [new_record demo_submission demo_identity ''tr'' ''k1'' 5]"
  "ds_running demo_submitted" "ds_queues demo_submitted = (\<lambda>_. [])"
  "ds_log demo_submitted = []" "ds_replies demo_submitted = []" "ds_sequence demo_submitted = 1"
  by (simp_all add: demo_submitted_def submit_task_def start_dispatcher_def new_dispatcher_def pools_def
      Let_def idem_scope_def demo_submission_def store_task_def evict_def count_metric_def)

lemma demo_submitted_reachable: "task_reachable demo_config demo_submitted"
proof -
  have "task_reachable demo_config (start_dispatcher demo_config new_dispatcher)"
    by (rule reach_step[OF initial start])
  then show ?thesis unfolding demo_submitted_def
    by (rule reach_step, intro submit)
      (simp_all add: valid_submission_def demo_submission_def start_dispatcher_def new_dispatcher_def
        get_task_def)
qed

lemma demo_queued_eq:
  "ds_threads demo_queued = [Wk_Idle Security_Pool, Wk_Idle Agent_Pool, Wk_Idle Evaluation_Pool]"
  "ds_queues demo_queued = (\<lambda>_. [])(Agent_Pool := [(2, 1, ''k1'')])"
  "ds_log demo_queued = [(''k1'', ''task_queued'')]"
  "ds_records demo_queued = [(new_record demo_submission demo_identity ''tr'' ''k1'' 5)
     \<lparr>tk_audits := 1, tk_updated := 6\<rparr>]"
  by (simp_all add: demo_queued_def run_thread_def demo_submitted_eq Let_def resume_thread_def
      resume_submit_def audit_record_def get_task_def row_get_Cons log_audit_def update_task_def
      row_update_def after_queue_audit_def queue_has_room_def enqueue_def count_metric_def reply_get_def
      add_reply_def new_record_def)

lemma demo_queued_reachable: "task_reachable demo_config demo_queued"
  unfolding demo_queued_def
  by (rule reach_step[OF demo_submitted_reachable resume]) (simp add: demo_submitted_eq)

definition demo_record :: task_record where
  "demo_record = (new_record demo_submission demo_identity ''tr'' ''k1'' 5)
     \<lparr>tk_audits := 1, tk_updated := 7, tk_status := Running, tk_started := Some 7\<rparr>"

lemma demo_started_eq:
  "ds_threads demo_started = [Wk_Idle Security_Pool, Wk_Start Agent_Pool ''k1'' 2, Wk_Idle Evaluation_Pool]"
  "ds_queues demo_started = (\<lambda>_. [])"
  "ds_log demo_started = [(''k1'', ''task_queued'')]"
  "ds_records demo_started = [demo_record]"
  by (auto simp: demo_started_def run_thread_def demo_queued_eq Let_def resume_thread_def
      resume_worker_def take_task_def get_task_def row_get_Cons update_task_def row_update_def
      count_metric_def new_record_def demo_submission_def demo_record_def)

lemma demo_started_reachable: "task_reachable demo_config demo_started"
  unfolding demo_started_def
  by (rule reach_step[OF demo_queued_reachable resume]) (simp add: demo_queued_eq)


text \<open>A thread that goes on where it is.\<close>

lemma run_thread_at:
  assumes "i < length (ds_threads s)" "resume_thread cfg (ds_threads s ! i) ans now s = (Some th, u)"
  shows "run_thread cfg i ans now s = u\<lparr>ds_threads := (ds_threads s)[i := th]\<rparr>"
  using assms by (simp add: run_thread_def Let_def upd_conv_take_nth_drop)

lemma get_task_threads [simp]: "get_task k (s\<lparr>ds_threads := ths\<rparr>) = get_task k s"
  by (simp add: get_task_def)

lemma audit_ok:
  assumes "get_task k s = Some r"
  obtains u where "audit_record k stage Audit_Ok now s = (None, u)" "ds_threads u = ds_threads s"
    "get_task k u = Some (r\<lparr>tk_audits := tk_audits r + 1, tk_updated := now\<rparr>)"
proof
  let ?u = "update_task k now (\<lambda>r. r\<lparr>tk_audits := tk_audits r + 1\<rparr>) (log_audit k stage s)"
  show "audit_record k stage Audit_Ok now s = (None, ?u)" by (simp add: audit_record_def assms)
  show "ds_threads ?u = ds_threads s" by (simp add: update_task_def log_audit_def)
  show "get_task k ?u = Some (r\<lparr>tk_audits := tk_audits r + 1, tk_updated := now\<rparr>)"
    by (simp add: get_task_update assms)
qed

lemma started_runs_to_success:
  assumes r: "get_task k s = Some r" and i: "i < length (ds_threads s)"
    and th: "ds_threads s ! i = Wk_Start p k mx" and small: "tc_json_size cfg res \<le> 1048576"
  shows "\<exists>u q. run_thread_all cfg i (success_answers res) now s = u \<and>
    ds_threads u = (ds_threads s)[i := Wk_Idle p] \<and> get_task k u = Some q \<and>
    tk_status q = Succeeded \<and> tk_result q = Some res \<and> tk_attempts q = 1"
proof -
  note defs = resume_thread_def resume_worker_def
  obtain u1 where u1: "audit_record k ''task_started'' Audit_Ok now s = (None, u1)"
    "ds_threads u1 = ds_threads s"
    "get_task k u1 = Some (r\<lparr>tk_audits := tk_audits r + 1, tk_updated := now\<rparr>)"
    by (rule audit_ok[OF r])
  define s1 where "s1 = run_thread cfg i (Audit Audit_Ok) now s"
  have s1: "s1 = (update_task k now (\<lambda>r. r\<lparr>tk_attempts := 1\<rparr>) u1)
      \<lparr>ds_threads := (ds_threads s)[i := Wk_Attempt p k mx 1]\<rparr>"
    unfolding s1_def by (rule run_thread_at[OF i]) (simp add: th defs u1 begin_attempt_def)
  obtain r1 where g1: "get_task k s1 = Some r1" "tk_attempts r1 = 1"
    using u1(3) by (simp add: s1 get_task_update)
  have t1: "ds_threads s1 = (ds_threads s)[i := Wk_Attempt p k mx 1]" by (simp add: s1)
  define s2 where "s2 = run_thread cfg i (Handler (Handler_Result res)) now s1"
  have s2: "s2 = s1\<lparr>ds_threads := (ds_threads s)[i := Wk_Complete p k res]\<rparr>"
    unfolding s2_def using small i
    by (subst run_thread_at[where th = "Wk_Complete p k res" and u = s1]) (simp_all add: t1 defs finish_attempt_def)
  have t2: "ds_threads s2 = (ds_threads s)[i := Wk_Complete p k res]" by (simp add: s2)
  have g2: "get_task k s2 = Some r1" using g1 by (simp add: s2)
  obtain u3 where u3: "audit_record k ''task_completed'' Audit_Ok now s2 = (None, u3)"
    "ds_threads u3 = ds_threads s2"
    "get_task k u3 = Some (r1\<lparr>tk_audits := tk_audits r1 + 1, tk_updated := now\<rparr>)"
    by (rule audit_ok[OF g2])
  define s3 where "s3 = run_thread cfg i (Audit Audit_Ok) now s2"
  have s3: "s3 = u3\<lparr>ds_threads := (ds_threads s)[i := Wk_Final p k res]\<rparr>"
    unfolding s3_def using i
    by (subst run_thread_at[where th = "Wk_Final p k res" and u = u3]) (simp_all add: t2 defs u3(1))
  have t3: "ds_threads s3 = (ds_threads s)[i := Wk_Final p k res]" by (simp add: s3)
  obtain r3 where g3: "get_task k s3 = Some r3" "tk_attempts r3 = 1" using u3(3) g1(2) by (simp add: s3)
  obtain u4 where u4: "audit_record k ''final_output'' Audit_Ok now s3 = (None, u4)"
    "ds_threads u4 = ds_threads s3"
    "get_task k u4 = Some (r3\<lparr>tk_audits := tk_audits r3 + 1, tk_updated := now\<rparr>)"
    by (rule audit_ok[OF g3(1)])
  have s4: "run_thread cfg i (Audit Audit_Ok) now s3 =
      (complete_task k res now u4)\<lparr>ds_threads := (ds_threads s)[i := Wk_Idle p]\<rparr>"
    using i by (subst run_thread_at[where th = "Wk_Idle p" and u = "complete_task k res now u4"])
      (simp_all add: t3 defs u4(1))
  have "run_thread_all cfg i (success_answers res) now s = run_thread cfg i (Audit Audit_Ok) now s3"
    by (simp add: run_thread_all_def success_answers_def s1_def s2_def s3_def)
  then show ?thesis using u4(3) g3(2)
    by (simp add: s4 complete_task_def get_task_update)
qed


lemma run_thread_length:
  "i < length (ds_threads s) \<Longrightarrow> resume_thread cfg (ds_threads s ! i) ans now s = (Some th, u) \<Longrightarrow>
     length (ds_threads (run_thread cfg i ans now s)) = length (ds_threads s)"
  by (simp add: run_thread_at)

lemma demo_done_reachable: "task_reachable demo_config demo_done"
proof -
  note defs = resume_thread_def resume_worker_def begin_attempt_def finish_attempt_def
  note upd = run_thread_def Let_def audit_record_def get_task_def row_get_Cons log_audit_def
    update_task_def row_update_def
  define s1 where "s1 = run_thread demo_config 1 (Audit Audit_Ok) 8 demo_started"
  define s2 where "s2 = run_thread demo_config 1 (Handler (Handler_Result [])) 8 s1"
  define s3 where "s3 = run_thread demo_config 1 (Audit Audit_Ok) 8 s2"
  have s1: "ds_threads s1 = [Wk_Idle Security_Pool, Wk_Attempt Agent_Pool ''k1'' 2 1, Wk_Idle Evaluation_Pool]"
    "ds_records s1 = [demo_record\<lparr>tk_audits := 2, tk_attempts := 1, tk_updated := 8\<rparr>]"
    by (simp_all add: s1_def demo_started_eq defs upd demo_record_def new_record_def)
  have s2: "ds_threads s2 = [Wk_Idle Security_Pool, Wk_Complete Agent_Pool ''k1'' [], Wk_Idle Evaluation_Pool]"
    "ds_records s2 = ds_records s1"
    by (simp_all add: s2_def s1 defs upd)
  have s3: "length (ds_threads s3) = 3"
    by (simp add: s3_def s2 s1 defs upd demo_record_def new_record_def)
  have "task_reachable demo_config s1" unfolding s1_def
    by (rule reach_step[OF demo_started_reachable resume]) (simp add: demo_started_eq)
  then have "task_reachable demo_config s2" unfolding s2_def
    by (rule reach_step[OF _ resume]) (simp add: s1)
  then have "task_reachable demo_config s3" unfolding s3_def
    by (rule reach_step[OF _ resume]) (simp add: s2)
  then have "task_reachable demo_config (run_thread demo_config 1 (Audit Audit_Ok) 8 s3)"
    by (rule reach_step[OF _ resume]) (simp add: s3)
  then show ?thesis by (simp add: demo_done_def run_thread_all_def success_answers_def s1_def s2_def s3_def)
qed

lemma demo_done_record:
  "\<exists>q. get_task ''k1'' demo_done = Some q \<and> tk_status q = Succeeded \<and> tk_result q = Some []"
  using started_runs_to_success[of "''k1''" demo_started demo_record 1 Agent_Pool 2 demo_config "[]" 8]
  by (auto simp: demo_done_def demo_started_eq get_task_def row_get_Cons demo_record_def new_record_def)

text \<open>C14: Whatever the interleaving, no task is held twice: over all queues, submitters that still
  owe the enqueue and workers, every task id occurs at most once, and the record it names is
  stored with a status that is not final. So no task is run by two workers or run again, and
  no worker meets a missing record.\<close>

theorem task_has_one_holder:
  assumes "task_reachable cfg s"
  shows "distinct (held_tasks s) \<and>
    (\<forall>k \<in> set (held_tasks s). \<exists>r. get_task k s = Some r \<and> \<not> terminal (tk_status r))"
proof -
  let ?C = "thread_claims (ds_threads s) + queue_claims (ds_queues s)"
  have ok: "claims_ok ?C s" using task_reachable_inv[OF assms] by (simp add: task_inv_def)
  have "count (mset (held_tasks s)) k \<le> 1" for k
    using ok unfolding mset_held_tasks claims_ok_def by blast
  then have "distinct (held_tasks s)"
    by (simp add: distinct_count_atmost_1 count_mset) (metis One_nat_def count_mset le_Suc_eq le_zero_eq count_mset_0_iff)
  moreover have "\<exists>r. get_task k s = Some r \<and> \<not> terminal (tk_status r)" if "k \<in> set (held_tasks s)" for k
  proof -
    have "k \<in># image_mset fst ?C" using that unfolding mset_held_tasks[symmetric] by simp
    then obtain c where c: "c \<in># ?C" "fst c = k" by auto
    then have "backed s c" using ok unfolding claims_ok_def by blast
    then show ?thesis using c(2) by (auto simp: backed_def split: prod.splits)
  qed
  ultimately show ?thesis by blast
qed

theorem task_has_one_holder_witness:
  "distinct (held_tasks demo_started) \<and> held_tasks demo_started = [''k1''] \<and>
   (\<exists>r. get_task ''k1'' demo_started = Some r \<and> \<not> terminal (tk_status r))"
  using task_has_one_holder[OF demo_started_reachable]
  by (simp add: held_tasks_def demo_started_eq run_claim_def pools_def)

text \<open>C15: A task is stored as succeeded only with a result and with its enqueue, start, completion
  and final output audited, in this order.\<close>

theorem task_success_is_audited:
  assumes "task_reachable cfg s" "r \<in> set (ds_records s)" "tk_status r = Succeeded"
  shows "tk_result r \<noteq> None \<and>
    subseq [''task_queued'', ''task_started'', ''task_completed'', ''final_output'']
      (map snd (filter (\<lambda>e. fst e = tk_id r) (ds_log s)))"
proof -
  have "record_ok r (task_log (tk_id r) s)"
    using task_reachable_inv[OF assms(1)] assms(2) by (simp add: task_inv_def claims_ok_def records_ok_def)
  with assms(3) show ?thesis by (simp add: record_ok_def task_log_def)
qed

theorem task_success_is_audited_witness:
  "\<exists>r. r \<in> set (ds_records demo_done) \<and> tk_result r \<noteq> None \<and>
    subseq [''task_queued'', ''task_started'', ''task_completed'', ''final_output'']
      (map snd (filter (\<lambda>e. fst e = tk_id r) (ds_log demo_done)))"
proof -
  obtain q where q: "q \<in> set (ds_records demo_done)" "tk_status q = Succeeded"
    using demo_done_record by (auto simp: get_task_def dest!: row_get_SomeD)
  from task_success_is_audited[OF demo_done_reachable q] q(1) show ?thesis by blast
qed

text \<open>A final outcome is never revised: after any step from a reachable state, the status,
  result, error and completion time of a succeeded, failed or rejected task are unchanged, or
  the record has been evicted.\<close>

theorem final_outcome_kept:
  assumes "task_reachable cfg s" "task_step cfg s s'" "get_task k s = Some r" "terminal (tk_status r)"
  shows "settled_in k s' = Some (settled r) \<or> get_task k s' = None"
proof -
  have inv: "task_inv s" by (rule task_reachable_inv[OF assms(1)])
  have old: "settled_in k s = Some (settled r)" using assms(3) by (simp add: settled_in_def)
  from assms(2) show ?thesis
  proof cases
    case (submit sub tid ident trace now)
    then show ?thesis using settled_submit[OF inv, of k tid cfg sub ident trace now] assms(3) old by auto
  next
    case (resume i ans now)
    obtain o' u where r: "resume_thread cfg (ds_threads s ! i) ans now s = (o', u)"
      and run: "\<exists>ths. s' = u\<lparr>ds_threads := ths\<rparr>"
      using run_thread_split[OF resume(2), of cfg ans now] resume(1) by metis
    have "settled_in k u = settled_in k s"
      using resume_settled[of k "ds_threads s ! i" s cfg ans now]
        final_not_claimed[OF inv assms(3,4)] resume(2) r by simp
    with run old show ?thesis by auto
  qed (use old in \<open>auto simp: start_dispatcher_def stop_request_def cancel_workers_def settled_in_def
      get_task_def\<close>)
qed

theorem final_outcome_kept_witness:
  "\<exists>r s'. get_task ''k1'' demo_done = Some r \<and> tk_status r = Succeeded \<and> s' = stop_request demo_done \<and>
     (settled_in ''k1'' s' = Some (settled r) \<or> get_task ''k1'' s' = None)"
proof -
  obtain r where r: "get_task ''k1'' demo_done = Some r" "tk_status r = Succeeded"
    using demo_done_record by blast
  with final_outcome_kept[OF demo_done_reachable stopping r(1)] show ?thesis by auto
qed

text \<open>C16: Bulkheads hold: at every moment each queue is within its capacity, the state store within
  its limit, no more workers of a pool exist than configured and none when stopped, and no
  task has been attempted more often than it asked for.\<close>

theorem task_runtime_bounded:
  assumes "task_reachable cfg s"
  shows "length (ds_queues s p) \<le> tc_capacity cfg p \<and> length (ds_records s) \<le> tc_max_records cfg \<and>
    workers p (ds_threads s) \<le> (if ds_running s then tc_workers cfg p else 0) \<and>
    list_all (\<lambda>r. tk_attempts r \<le> tk_max_attempts r) (ds_records s)"
  using task_reachable_bounds[OF assms] task_reachable_inv[OF assms]
  by (auto simp: bounds_ok_def task_inv_def claims_ok_def records_ok_def record_ok_def list_all_iff)

theorem task_runtime_bounded_witness:
  "length (ds_queues demo_queued Agent_Pool) \<le> tc_capacity demo_config Agent_Pool \<and>
   ds_queues demo_queued Agent_Pool \<noteq> []"
  using task_runtime_bounded[OF demo_queued_reachable, of Agent_Pool] by (simp add: demo_queued_eq)



text \<open>A free worker takes the queued task of the highest priority, and among equals the one
  queued first; every other item stays queued.\<close>

theorem highest_priority_first:
  assumes "take_task p now s = (Some (Wk_Start p k mx), u)"
  shows "\<exists>item \<in> set (ds_queues s p). snd (snd item) = k \<and>
    list_all (\<lambda>other. \<not> item_before other item) (ds_queues s p) \<and>
    ds_queues u = (ds_queues s)(p := remove1 item (ds_queues s p))"
proof (cases "ds_queues s p")
  case Nil
  with assms show ?thesis by (simp add: take_task_def)
next
  case (Cons x xs)
  let ?item = "queue_min x xs"
  have "snd (snd ?item) = k \<and> ds_queues u = (ds_queues s)(p := remove1 ?item (ds_queues s p))"
    using assms unfolding take_task_def Cons list.case Let_def by (auto split: option.splits)
  then show ?thesis using queue_min_least[of _ x xs] queue_min_in[of x xs]
    by (intro bexI[of _ ?item]) (auto simp: Cons list_all_iff)
qed

theorem highest_priority_first_witness:
  "\<exists>item \<in> set (ds_queues demo_queued Agent_Pool). snd (snd item) = ''k1''"
proof -
  have "fst (take_task Agent_Pool 7 demo_queued) = Some (Wk_Start Agent_Pool ''k1'' 2)"
    by (simp add: take_task_def demo_queued_eq get_task_def row_get_Cons count_metric_def Let_def
        new_record_def demo_submission_def)
  then show ?thesis
    using highest_priority_first[of Agent_Pool 7 demo_queued "''k1''" 2] by (metis prod.collapse)
qed

text \<open>A started task is brought to an end: in any reachable state, a worker that has just taken a
  task and whose audits and handler answer stores the task as succeeded with the handler's
  result after four resumptions, and is idle again, all other threads untouched.\<close>

theorem started_task_completes:
  assumes "task_reachable cfg s" "i < length (ds_threads s)" "ds_threads s ! i = Wk_Start p k mx"
    "tc_json_size cfg res \<le> 1048576"
  shows "\<exists>q. ds_threads (run_thread_all cfg i (success_answers res) now s) = (ds_threads s)[i := Wk_Idle p] \<and>
    get_task k (run_thread_all cfg i (success_answers res) now s) = Some q \<and>
    tk_status q = Succeeded \<and> tk_result q = Some res \<and> tk_attempts q = 1"
proof -
  have "k \<in> set (held_tasks s)"
    using assms(2,3) nth_mem[OF assms(2)]
    by (auto simp: held_tasks_def run_claim_def intro!: bexI[of _ "Wk_Start p k mx"])
  then have "k \<in># mset (held_tasks s)" by simp
  then obtain c where c: "c \<in># thread_claims (ds_threads s) + queue_claims (ds_queues s)" "fst c = k"
    unfolding mset_held_tasks by auto
  then have "backed s c"
    using task_reachable_inv[OF assms(1)] unfolding task_inv_def claims_ok_def by blast
  then obtain r where "get_task k s = Some r" using c(2) by (auto simp: backed_def split: prod.splits)
  from started_runs_to_success[OF this assms(2-4), of now] show ?thesis by blast
qed

theorem started_task_completes_witness:
  "\<exists>q. get_task ''k1'' demo_done = Some q \<and> tk_status q = Succeeded \<and> tk_result q = Some []"
  using started_task_completes[OF demo_started_reachable, of 1 Agent_Pool "''k1''" 2 "[]" 8]
  by (auto simp: demo_started_eq demo_done_def)

end
