(* ===== verification/JsonText.thy ===== *)
theory JsonText
  imports PyValues
begin

text \<open>
  Canonical JSON text is unambiguous: a value's text is read back up to its end, so the text
  of an envelope determines the texts of its fields. Digests of such envelopes rest on it.
\<close>

section \<open>Strings\<close>

lemma hex_digit_less:
  assumes "d < 16"
  shows "hex_digit d \<noteq> CHR 0x22 \<and> hex_digit d \<noteq> CHR 0x5C"
  using assms by (auto simp: hex_digit_def char_of_eq_iff take_bit_eq_mod)

definition hex_value :: "char \<Rightarrow> nat" where
  "hex_value c = (if of_char c < (58 :: nat) then of_char c - 48 else of_char c - 87)"

lemma hex_value_digit: "d < 16 \<Longrightarrow> hex_value (hex_digit d) = d"
  by (simp add: hex_value_def hex_digit_def of_char_of)

text \<open>Reading one character back, and what follows it.\<close>

definition json_read :: "string \<Rightarrow> char \<times> string" where
  "json_read s = (case s of
       [] \<Rightarrow> (CHR 0x00, [])
     | c # t \<Rightarrow>
         if c \<noteq> CHR 0x5C then (c, t)
         else (case t of
             [] \<Rightarrow> (c, [])
           | e # u \<Rightarrow>
               if e = CHR ''n'' then (CHR 0x0A, u)
               else if e = CHR ''r'' then (CHR 0x0D, u)
               else if e = CHR ''t'' then (CHR 0x09, u)
               else if e = CHR ''f'' then (CHR 0x0C, u)
               else if e = CHR ''b'' then (CHR 0x08, u)
               else if e = CHR ''u'' then
                 (char_of (16 * hex_value (u ! 2) + hex_value (u ! 3)), drop 4 u)
               else (e, u)))"

lemma json_read_char: "json_read (json_char c @ r) = (c, r)"
proof -
  have "char_of (16 * (of_char c div 16) + of_char c mod (16 :: nat)) = c"
    by (metis char_of_char div_mult_mod_eq mult.commute)
  moreover have "hex_value (hex_digit (of_char c div 16)) = of_char c div 16" if "of_char c < (32 :: nat)"
    using that by (intro hex_value_digit) simp
  moreover have "hex_value (hex_digit (of_char c mod 16)) = of_char c mod 16"
    by (intro hex_value_digit) simp
  ultimately show ?thesis
    by (simp add: json_char_def json_read_def)
qed

lemma json_char_not_Nil [simp]: "json_char c \<noteq> []"
  by (simp add: json_char_def)

lemma json_chars_inj:
  "concat (map json_char s) = concat (map json_char t) \<Longrightarrow> s = t"
proof (induction s arbitrary: t)
  case Nil
  then show ?case by (cases t) simp_all
next
  case (Cons c s)
  then show ?case
  proof (cases t)
    case Nil
    with Cons.prems show ?thesis by simp
  next
    case (Cons d u)
    have "json_read (json_char c @ concat (map json_char s)) =
        json_read (json_char d @ concat (map json_char u))"
      using Cons.prems Cons by simp
    then show ?thesis using Cons.IH[of u] Cons unfolding json_read_char by simp
  qed
qed

lemma json_string_inj: "json_string s = json_string t \<Longrightarrow> s = t"
  by (simp add: json_string_def json_chars_inj)

section \<open>Where a value ends\<close>

text \<open>
  A scanner that skips one value: it only watches quotes, escapes and the nesting of
  brackets. \<open>q\<close> and \<open>e\<close> say that it is inside a string, behind a backslash.
\<close>

fun scan :: "nat \<Rightarrow> bool \<Rightarrow> bool \<Rightarrow> string \<Rightarrow> string" where
  "scan d q e [] = []"
| "scan d q e (c # s) =
     (if q then
        (if e then scan d True False s
         else if c = CHR 0x5C then scan d True True s
         else if c = CHR 0x22 then (if d = 0 then s else scan d False False s)
         else scan d True False s)
      else if c = CHR 0x22 then scan d True False s
      else if c = CHR ''['' \<or> c = CHR 0x7B then scan (Suc d) False False s
      else if c = CHR '']'' \<or> c = CHR 0x7D then
        (if d \<le> 1 then s else scan (d - 1) False False s)
      else scan d False False s)"

definition skip_value :: "string \<Rightarrow> string" where
  "skip_value s = (case s of
       [] \<Rightarrow> []
     | c # _ \<Rightarrow> if c = CHR 0x22 \<or> c = CHR ''['' \<or> c = CHR 0x7B then scan 0 False False s
         else dropWhile (\<lambda>c. c \<notin> {CHR '','', CHR '']'', CHR 0x7D}) s)"

text \<open>Numbers hold no punctuation; this is all that is needed of a float's text.\<close>

definition punctuation :: "char set" where
  "punctuation = {CHR 0x22, CHR '','', CHR ''['', CHR '']'', CHR 0x7B, CHR 0x7D}"

fun json_ok :: "pyval \<Rightarrow> bool" where
  "json_ok (PFloat r) = (r \<noteq> [] \<and> list_all (\<lambda>c. c \<notin> punctuation) r)"
| "json_ok (PList xs) = list_all json_ok xs"
| "json_ok (PDict kvs) = list_all (\<lambda>(_, v). json_ok v) kvs"
| "json_ok _ = True"

lemma scan_plain:
  "list_all (\<lambda>c. c \<notin> punctuation) s \<Longrightarrow> scan d False False (s @ r) = scan d False False r"
  by (induction s) (auto simp: punctuation_def)

lemma digit_plain: "d < 10 \<Longrightarrow> digit_char d \<notin> punctuation"
  by (auto simp: digit_char_def punctuation_def char_of_eq_iff take_bit_eq_mod)

lemma show_nat_plain: "list_all (\<lambda>c. c \<notin> punctuation) (show_nat n)"
  by (induction n rule: show_nat.induct) (subst show_nat.simps, simp add: digit_plain)

lemma show_int_plain: "list_all (\<lambda>c. c \<notin> punctuation) (show_int i)"
  by (simp add: show_int_def show_nat_plain) (simp add: punctuation_def)

lemma scan_chars:
  "scan d True False (concat (map json_char s) @ CHR 0x22 # r) =
     (if d = 0 then r else scan d False False r)"
proof (induction s)
  case (Cons c s)
  have "scan d True False (json_char c @ t) = scan d True False t" for t
    using hex_digit_less[of "of_char c div 16"] hex_digit_less[of "of_char c mod 16"]
    by (auto simp: json_char_def)
  with Cons show ?case by simp
qed simp

lemma scan_string: "scan d False False (json_string s @ r) = (if d = 0 then r else scan d False False r)"
  using scan_chars[of d s r] by (simp add: json_string_def)

lemma join_map_Cons: "join sep (x # xs) = x @ concat (map (\<lambda>y. sep @ y) xs)"
  by (induction xs arbitrary: x) simp_all

lemma scan_join:
  assumes "\<And>x r. x \<in> set xs \<Longrightarrow> scan (Suc d) False False (x @ r) = scan (Suc d) False False r"
  shows "scan (Suc d) False False (join '','' xs @ r) = scan (Suc d) False False r"
proof (cases xs)
  case (Cons x ys)
  have "scan (Suc d) False False (concat (map (\<lambda>y. '','' @ y) zs) @ r) = scan (Suc d) False False r"
    if "set zs \<subseteq> set xs" for zs
    using that by (induction zs) (simp_all add: assms)
  with assms Cons show ?thesis by (auto simp: join_map_Cons)
qed simp

text \<open>Inside brackets a whole value is skipped; at the outside a container ends the scan.\<close>

lemma scan_value:
  "json_ok v \<Longrightarrow> scan (Suc d) False False (json_dumps v @ r) = scan (Suc d) False False r"
proof (induction v arbitrary: d r)
  case (PList xs)
  have "scan (Suc (Suc d)) False False (join '','' (map json_dumps xs) @ CHR '']'' # r) =
      scan (Suc (Suc d)) False False (CHR '']'' # r)"
    using PList by (intro scan_join) (auto simp: list_all_iff)
  then show ?case by simp
next
  case (PDict kvs)
  let ?ys = "sort_key fst (map (\<lambda>(k, v). (k, json_dumps v)) kvs)"
  have "scan (Suc (Suc d)) False False (join '','' (map (\<lambda>(k, t). json_string k @ '':'' @ t) ?ys) @ CHR 0x7D # r) =
      scan (Suc (Suc d)) False False (CHR 0x7D # r)"
  proof (rule scan_join)
    fix x r' assume "x \<in> set (map (\<lambda>(k, t). json_string k @ '':'' @ t) ?ys)"
    then obtain k v where kv: "(k, v) \<in> set kvs" and x: "x = json_string k @ '':'' @ json_dumps v" by auto
    then have "json_ok v" using PDict.prems by (auto simp: list_all_iff)
    with PDict.IH[of "(k, v)" v] kv show "scan (Suc (Suc d)) False False (x @ r') = scan (Suc (Suc d)) False False r'"
      by (simp add: x scan_string)
  qed
  then show ?case by simp
qed (simp_all add: scan_plain scan_plain[OF show_int_plain] scan_string punctuation_def)

definition delimiter :: "string \<Rightarrow> bool" where
  "delimiter r \<longleftrightarrow> r = [] \<or> hd r \<in> {CHR '','', CHR '']'', CHR 0x7D}"

lemma drop_plain:
  assumes "list_all (\<lambda>c. c \<notin> punctuation) s" "delimiter r"
  shows "dropWhile (\<lambda>c. c \<notin> {CHR '','', CHR '']'', CHR 0x7D}) (s @ r) = r"
proof -
  have "dropWhile (\<lambda>c. c \<notin> {CHR '','', CHR '']'', CHR 0x7D}) (s @ r) =
      dropWhile (\<lambda>c. c \<notin> {CHR '','', CHR '']'', CHR 0x7D}) r"
    using assms(1) by (intro dropWhile_append2) (auto simp: list_all_iff punctuation_def)
  with assms(2) show ?thesis by (cases r) (auto simp: delimiter_def)
qed

lemma skip_plain:
  assumes "list_all (\<lambda>c. c \<notin> punctuation) s" "s \<noteq> []" "delimiter r"
  shows "skip_value (s @ r) = r"
  using assms drop_plain[OF assms(1,3)] by (cases s) (auto simp: skip_value_def punctuation_def)

lemma skip_value_dumps: "json_ok v \<Longrightarrow> delimiter r \<Longrightarrow> skip_value (json_dumps v @ r) = r"
proof (cases v)
  case (PStr s)
  show ?thesis using scan_string[of 0 s r] by (simp add: PStr skip_value_def json_string_def)
next
  case (PList xs)
  assume ok: "json_ok v"
  have "scan (Suc 0) False False (join '','' (map json_dumps xs) @ CHR '']'' # r) =
      scan (Suc 0) False False (CHR '']'' # r)"
    using ok PList by (intro scan_join scan_value) (auto simp: list_all_iff scan_value)
  then show ?thesis by (simp add: PList skip_value_def)
next
  case (PDict kvs)
  assume ok: "json_ok v"
  let ?ys = "sort_key fst (map (\<lambda>(k, v). (k, json_dumps v)) kvs)"
  have "scan (Suc 0) False False (join '','' (map (\<lambda>(k, t). json_string k @ '':'' @ t) ?ys) @ CHR 0x7D # r) =
      scan (Suc 0) False False (CHR 0x7D # r)"
  proof (rule scan_join)
    fix x r' assume "x \<in> set (map (\<lambda>(k, t). json_string k @ '':'' @ t) ?ys)"
    then obtain k w where kv: "(k, w) \<in> set kvs" and x: "x = json_string k @ '':'' @ json_dumps w" by auto
    then have "json_ok w" using ok PDict by (auto simp: list_all_iff)
    then show "scan (Suc 0) False False (x @ r') = scan (Suc 0) False False r'"
      by (simp add: x scan_string scan_value)
  qed
  then show ?thesis by (simp add: PDict skip_value_def)
next
  case (PInt i)
  have "show_nat n \<noteq> []" for n by (subst show_nat.simps) simp
  then have "show_int i \<noteq> []" by (simp add: show_int_def)
  moreover assume "delimiter r"
  ultimately show ?thesis by (simp add: PInt skip_plain show_int_plain)
next
  case (PFloat t)
  assume "json_ok v" "delimiter r"
  then show ?thesis by (simp add: PFloat skip_plain)
next
  case (PBool b)
  assume "delimiter r"
  then show ?thesis using skip_plain[of "''true''" r] skip_plain[of "''false''" r]
    by (simp add: PBool punctuation_def)
next
  case PNone
  assume "delimiter r"
  then show ?thesis using skip_plain[of "''null''" r] by (simp add: PNone punctuation_def)
qed

text \<open>JSON text is unambiguous: two values followed by a delimiter agree only together.\<close>

lemma json_dumps_cut:
  assumes "json_dumps v @ r = json_dumps w @ t" "json_ok v" "json_ok w" "delimiter r" "delimiter t"
  shows "json_dumps v = json_dumps w \<and> r = t"
  using assms skip_value_dumps[of v r] skip_value_dumps[of w t] by simp

text \<open>So the text of an object with given keys determines the text of each of its values.\<close>

lemma json_object_cut:
  assumes "length vs = length ks" "length ws = length ks" "list_all json_ok vs" "list_all json_ok ws"
    "join '','' (map (\<lambda>(k, t). json_string k @ '':'' @ t) (zip ks (map json_dumps vs))) @ CHR 0x7D # r =
     join '','' (map (\<lambda>(k, t). json_string k @ '':'' @ t) (zip ks (map json_dumps ws))) @ CHR 0x7D # t"
  shows "map json_dumps vs = map json_dumps ws \<and> r = t"
  using assms
proof (induction ks arbitrary: vs ws)
  case Nil
  then show ?case by simp
next
  case (Cons k ks)
  obtain v vs' w ws' where vw: "vs = v # vs'" "ws = w # ws'"
    using Cons.prems(1,2) by (cases vs; cases ws) auto
  show ?case
  proof (cases ks)
    case Nil
    then have "json_dumps v @ CHR 0x7D # r = json_dumps w @ CHR 0x7D # t"
      using Cons.prems vw by simp
    then show ?thesis using json_dumps_cut[of v "CHR 0x7D # r" w "CHR 0x7D # t"] Cons.prems vw Nil
      by (simp add: delimiter_def)
  next
    case (Cons k' ks')
    let ?j = "\<lambda>vs. join '','' (map (\<lambda>(k, t). json_string k @ '':'' @ t) (zip ks (map json_dumps vs)))"
    have ne: "zip ks (map json_dumps vs') \<noteq> []" "zip ks (map json_dumps ws') \<noteq> []"
      using Cons.prems vw Cons by (cases vs'; cases ws'; simp)+
    have "json_dumps v @ CHR '','' # ?j vs' @ CHR 0x7D # r = json_dumps w @ CHR '','' # ?j ws' @ CHR 0x7D # t"
      using Cons.prems(5) ne by (simp add: vw neq_Nil_conv) auto
    then have "json_dumps v = json_dumps w \<and> CHR '','' # ?j vs' @ CHR 0x7D # r = CHR '','' # ?j ws' @ CHR 0x7D # t"
      using Cons.prems(3,4) vw by (intro json_dumps_cut) (simp_all add: delimiter_def)
    then show ?thesis using Cons.IH[of vs' ws'] Cons.prems vw by simp
  qed
qed

end
