(* ===== verification/AuditChain.thy ===== *)
theory AuditChain
  imports JsonText
begin

text \<open>
  The signed event chain of \<^verbatim>\<open>skills/traceaudit-gov/src/\<close>: canonical serialisation,
  redaction, digests and verification of \<open>integrity.py\<close>, and the appending, viewing and
  listing operations of \<open>audit.py\<close> over the \<open>traces\<close>, \<open>audit_events\<close> and \<open>audit_alerts\<close>
  tables of \<open>backend/database.py\<close>. SHA-256, the keyed MAC, \<open>json.loads\<close> and the comparison
  of ISO times are arguments; clock readings and fresh identifiers are inputs.
\<close>

section \<open>Serialisation\<close>

record audit_env =
  ae_sha :: "string \<Rightarrow> string"
  ae_mac :: "string \<Rightarrow> string"
  ae_key :: string
  ae_loads :: "string \<Rightarrow> pyval option"
  ae_reached :: "string \<Rightarrow> string \<Rightarrow> bool"

definition event_version :: string where "event_version = ''2.0.0''"

definition genesis :: string where "genesis = replicate 64 CHR ''0''"

fun json_safe :: "pyval \<Rightarrow> pyval" where
  "json_safe (PFloat r) = (if r \<in> {''nan'', ''inf'', ''-inf''} then PStr r else PFloat r)"
| "json_safe (PList xs) = PList (map json_safe xs)"
| "json_safe (PDict kvs) = PDict (map (\<lambda>(k, v). (k, json_safe v)) kvs)"
| "json_safe v = v"

definition canonical_json :: "pyval \<Rightarrow> string" where
  "canonical_json v = json_dumps (json_safe v)"

section \<open>Redaction\<close>

text \<open>
  \<open>_SECRET_KEY\<close>: one of the words, alone or after an underscore or a dash, optionally with
  \<open>_value\<close> behind it, case ignored; \<open>$\<close> lets a final newline pass and \<open>.\<close> no newline.
\<close>

definition secret_words :: "string list" where
  "secret_words =
     [''password'', ''token'', ''secret'', ''apikey'', ''api_key'', ''api-key'', ''authorization'',
      ''cookie'', ''privatekey'', ''private_key'', ''private-key'', ''capabilityticket'',
      ''capability_ticket'', ''capability-ticket'']"

definition ends_in_secret :: "string \<Rightarrow> bool" where
  "ends_in_secret k \<longleftrightarrow>
     list_ex (\<lambda>w. list_ex (\<lambda>v. endswith k (w @ v) \<and>
         (let p = take (length k - length (w @ v)) k
          in p = [] \<or> (last p \<in> {CHR ''_'', CHR ''-''} \<and> CHR 0x0A \<notin> set p)))
       ['''', ''_value'', ''-value'']) secret_words"

definition is_secret_key :: "string \<Rightarrow> bool" where
  "is_secret_key key =
     (let k = casefold key
      in ends_in_secret k \<or> (k \<noteq> [] \<and> last k = CHR 0x0A \<and> ends_in_secret (butlast k)))"

definition content_keys :: "string list" where
  "content_keys = [''content'', ''content_preview'', ''document_text'', ''raw_content'']"

definition summarize_text :: "audit_env \<Rightarrow> pyval \<Rightarrow> pyval" where
  "summarize_text env v =
     (let text = (case v of PStr s \<Rightarrow> s | _ \<Rightarrow> canonical_json v)
      in PDict [(''redacted'', PBool True), (''sha256'', PStr (ae_sha env text)),
                (''length'', PInt (int (length text)))])"

fun redact_for_storage :: "audit_env \<Rightarrow> string \<Rightarrow> pyval \<Rightarrow> pyval" where
  "redact_for_storage env key v =
     (if is_secret_key key then PStr ''[REDACTED_SECRET]''
      else if casefold key \<in> set content_keys then summarize_text env v
      else (case v of
          PDict kvs \<Rightarrow> PDict (map (\<lambda>(k, x). (k, redact_for_storage env k x)) kvs)
        | PList xs \<Rightarrow> PList (map (redact_for_storage env key) xs)
        | _ \<Rightarrow> json_safe v))"

declare redact_for_storage.simps [simp del]

text \<open>
  \<open>_mask_text\<close>: the value behind each \<open>password:\<close>, \<open>token=\<close> and the like is replaced, then the
  text is cut at 120 characters.
\<close>

definition mask_words :: "string list" where
  "mask_words = [''password'', ''token'', ''secret'', ''api_key'', ''api-key'', ''apikey'']"

text \<open>A match at the beginning: the word as written, and the text behind the value.\<close>

definition mask_match :: "string \<Rightarrow> (string \<times> string) option" where
  "mask_match s =
     (case find (\<lambda>w. startswith (casefold s) w) mask_words of
        None \<Rightarrow> None
      | Some w \<Rightarrow>
          (case dropWhile is_space (drop (length w) s) of
             c # t \<Rightarrow>
               if c \<in> {CHR '':'', CHR ''=''} \<and> dropWhile is_space t \<noteq> []
                 then Some (take (length w) s, dropWhile (\<lambda>c. \<not> is_space c) (dropWhile is_space t))
               else None
           | [] \<Rightarrow> None))"

fun mask_all :: "nat \<Rightarrow> string \<Rightarrow> string" where
  "mask_all 0 s = s"
| "mask_all (Suc n) [] = []"
| "mask_all (Suc n) (c # s) =
     (case mask_match (c # s) of
        Some (w, rest) \<Rightarrow> w @ ''=[REDACTED]'' @ mask_all n rest
      | None \<Rightarrow> c # mask_all n s)"

definition mask_text :: "string \<Rightarrow> string" where
  "mask_text text =
     (let masked = mask_all (length text) text
      in take 120 masked @ (if 120 < length masked then ''...'' else []))"

section \<open>Rows\<close>

record trace_row =
  tr_id :: string
  tr_user_input :: string
  tr_source :: string
  tr_created :: string
  tr_schema :: string
  tr_input_hash :: "string option"
  tr_context_json :: string
  tr_class :: string
  tr_until :: "string option"
  tr_tenant :: "string option"
  tr_user :: "string option"
  tr_agent :: "string option"
  tr_count :: int
  tr_head :: "string option"
  tr_sig :: "string option"

record event_row =
  er_id :: nat
  er_trace :: string
  er_stage :: string
  er_event_json :: string
  er_created :: string
  er_sequence :: "int option"
  er_version :: string
  er_policy :: string
  er_model :: string
  er_dataset :: string
  er_actor :: "string option"
  er_prev :: "string option"
  er_hash :: "string option"
  er_sig :: "string option"

record alert_row =
  al_trace :: string
  al_type :: string
  al_detail :: string
  al_created :: string

record audit_db =
  ad_traces :: "trace_row list"
  ad_events :: "event_row list"
  ad_last_id :: nat
  ad_alerts :: "alert_row list"

datatype audit_error =
    Unknown_Trace
  | Audit_Integrity
  | Audit_Value_Error
  | Audit_Crash

section \<open>Digests and verification\<close>

definition opt_str :: "string option \<Rightarrow> pyval" where
  "opt_str o' = (case o' of None \<Rightarrow> PNone | Some s \<Rightarrow> PStr s)"

definition envelope ::
    "string \<Rightarrow> int \<Rightarrow> string \<Rightarrow> pyval \<Rightarrow> string \<Rightarrow> string \<Rightarrow> string \<Rightarrow> string \<Rightarrow> string \<Rightarrow> string option \<Rightarrow>
     string option \<Rightarrow> pyval" where
  "envelope trace sq stage event created version policy model dataset actor prev =
     PDict [(''trace_id'', PStr trace), (''sequence'', PInt sq), (''stage'', PStr stage),
       (''event'', event), (''created_at'', PStr created), (''event_version'', PStr version),
       (''policy_version'', PStr policy), (''model_version'', PStr model),
       (''dataset_version'', PStr dataset), (''actor_id'', opt_str actor), (''prev_hash'', opt_str prev)]"

definition event_digest ::
    "audit_env \<Rightarrow> string \<Rightarrow> int \<Rightarrow> string \<Rightarrow> pyval \<Rightarrow> string \<Rightarrow> string \<Rightarrow> string \<Rightarrow> string \<Rightarrow> string \<Rightarrow>
     string option \<Rightarrow> string option \<Rightarrow> string" where
  "event_digest env trace sq stage event created version policy model dataset actor prev =
     ae_sha env (canonical_json
       (envelope trace sq stage event created version policy model dataset actor prev))"

definition ascii_only :: "string \<Rightarrow> bool" where
  "ascii_only s \<longleftrightarrow> list_all (\<lambda>c. (of_char c :: nat) < 128) s"

definition head_signature :: "audit_env \<Rightarrow> string \<Rightarrow> int \<Rightarrow> string \<Rightarrow> string" where
  "head_signature env trace n head =
     ae_mac env (ae_sha env (trace @ '':'' @ show_int n @ '':'' @ head))"

datatype audit_issue =
    Sequence_Gap_Or_Reorder int
  | Prev_Hash_Mismatch
  | Invalid_Event_Payload
  | Event_Hash_Mismatch
  | Event_Signature_Mismatch
  | Event_Count_Mismatch
  | Trace_Head_Mismatch
  | Trace_Signature_Mismatch

definition or_empty :: "string option \<Rightarrow> string" where
  "or_empty o' = (case o' of None \<Rightarrow> [] | Some s \<Rightarrow> s)"

definition row_digest :: "audit_env \<Rightarrow> event_row \<Rightarrow> string option" where
  "row_digest env r =
     (case (ae_loads env (er_event_json r), er_sequence r) of
        (Some ev, Some sq) \<Rightarrow>
          Some (event_digest env (er_trace r) sq (er_stage r) ev (er_created r) (er_version r)
            (er_policy r) (er_model r) (er_dataset r) (er_actor r) (er_prev r))
      | _ \<Rightarrow> None)"

text \<open>
  \<open>None\<close> is an exception the loop does not catch: a hash that is not ASCII cannot be signed,
  and \<open>hmac.compare_digest\<close> refuses a signature that is not.
\<close>

definition signature_issues :: "audit_env \<Rightarrow> event_row \<Rightarrow> audit_issue list option" where
  "signature_issues env r =
     (if or_empty (er_sig r) = [] then Some [Event_Signature_Mismatch]
      else if \<not> ascii_only (or_empty (er_hash r)) \<or> \<not> ascii_only (or_empty (er_sig r)) then None
      else if or_empty (er_sig r) = ae_mac env (or_empty (er_hash r)) then Some []
      else Some [Event_Signature_Mismatch])"

definition row_issues :: "audit_env \<Rightarrow> int \<Rightarrow> string \<Rightarrow> event_row \<Rightarrow> audit_issue list option" where
  "row_issues env expected prev r =
     map_option (\<lambda>sig.
       (if er_sequence r \<noteq> Some expected then [Sequence_Gap_Or_Reorder expected] else []) @
       (if er_prev r \<noteq> Some prev then [Prev_Hash_Mismatch] else []) @
       (if row_digest env r = None then [Invalid_Event_Payload] else []) @
       (if er_hash r \<noteq> Some (or_empty (row_digest env r)) then [Event_Hash_Mismatch] else []) @ sig)
     (signature_issues env r)"

fun chain_issues :: "audit_env \<Rightarrow> int \<Rightarrow> string \<Rightarrow> event_row list \<Rightarrow> audit_issue list option" where
  "chain_issues env n prev [] = Some []"
| "chain_issues env n prev (r # rs) =
     (case row_issues env n prev r of
        None \<Rightarrow> None
      | Some is' \<Rightarrow>
          (case chain_issues env (n + 1) (or_empty (er_hash r)) rs of
             None \<Rightarrow> None
           | Some js \<Rightarrow> Some (is' @ js)))"

definition actual_head :: "event_row list \<Rightarrow> string option" where
  "actual_head rows = (if rows = [] then Some genesis else er_hash (last rows))"

definition head_or_genesis :: "string option \<Rightarrow> string" where
  "head_or_genesis h = (if or_empty h = [] then genesis else or_empty h)"

definition trace_issues :: "audit_env \<Rightarrow> trace_row \<Rightarrow> event_row list \<Rightarrow> audit_issue list option" where
  "trace_issues env tr rows =
     (let counts = (if tr_count tr \<noteq> int (length rows) then [Event_Count_Mismatch] else []);
          heads = (if tr_head tr \<noteq> actual_head rows then [Trace_Head_Mismatch] else []);
          expected = head_signature env (tr_id tr) (tr_count tr) (head_or_genesis (tr_head tr))
      in if or_empty (tr_sig tr) = [] then Some (counts @ heads @ [Trace_Signature_Mismatch])
         else if \<not> ascii_only (or_empty (tr_sig tr)) then None
         else if or_empty (tr_sig tr) = expected then Some (counts @ heads)
         else Some (counts @ heads @ [Trace_Signature_Mismatch]))"

record verdict =
  vd_valid :: bool
  vd_count :: nat
  vd_head :: "string option"
  vd_key :: string
  vd_issues :: "audit_issue list"

definition verify_rows :: "audit_env \<Rightarrow> trace_row \<Rightarrow> event_row list \<Rightarrow> verdict option" where
  "verify_rows env tr rows =
     (case (chain_issues env 1 genesis rows, trace_issues env tr rows) of
        (Some is', Some js) \<Rightarrow>
          Some \<lparr>vd_valid = (is' @ js = []), vd_count = length rows, vd_head = actual_head rows,
                vd_key = ae_key env, vd_issues = is' @ js\<rparr>
      | _ \<Rightarrow> None)"

definition trace_rows :: "string \<Rightarrow> audit_db \<Rightarrow> event_row list" where
  "trace_rows tid db = sort_key er_id (filter (\<lambda>r. er_trace r = tid) (ad_events db))"

definition find_trace :: "string \<Rightarrow> audit_db \<Rightarrow> trace_row option" where
  "find_trace tid db = row_get tr_id tid (ad_traces db)"

definition verify_trace :: "audit_env \<Rightarrow> string \<Rightarrow> audit_db \<Rightarrow> audit_error + verdict" where
  "verify_trace env tid db =
     (case find_trace tid db of
        None \<Rightarrow> Inl Unknown_Trace
      | Some tr \<Rightarrow>
          (case verify_rows env tr (trace_rows tid db) of
             None \<Rightarrow> Inl Audit_Crash
           | Some v \<Rightarrow> Inr v))"

section \<open>Appending\<close>

text \<open>\<open>a or event.get(k) ... or dflt\<close>, as a string.\<close>

definition str_first :: "string option \<Rightarrow> pydict \<Rightarrow> string list \<Rightarrow> string \<Rightarrow> string" where
  "str_first given event ks dflt =
     (if or_empty given \<noteq> [] then or_empty given
      else (case find py_truthy (map (get_or_none event) ks) of
          Some v \<Rightarrow> py_str v
        | None \<Rightarrow> dflt))"

definition actor_of :: "string option \<Rightarrow> pydict \<Rightarrow> string option" where
  "actor_of given event =
     (if or_empty given \<noteq> [] then given
      else if py_truthy (get_or_none event ''actor'') then Some (py_str (get_or_none event ''actor''))
      else None)"

text \<open>\<open>AUTOINCREMENT\<close>: above every identifier there is or ever was.\<close>

definition next_event_id :: "audit_db \<Rightarrow> nat" where
  "next_event_id db = Suc (fold max (map er_id (ad_events db)) (ad_last_id db))"

text \<open>Of an alert's detail, the stage is kept; the text of the error is not.\<close>

definition record_alert :: "string \<Rightarrow> string \<Rightarrow> string \<Rightarrow> string \<Rightarrow> audit_db \<Rightarrow> audit_db" where
  "record_alert tid kind detail now db =
     db\<lparr>ad_alerts := ad_alerts db @
        [\<lparr>al_trace = tid, al_type = kind, al_detail = detail, al_created = now\<rparr>]\<rparr>"

record event_options =
  eo_policy :: "string option"
  eo_model :: "string option"
  eo_dataset :: "string option"
  eo_actor :: "string option"
  eo_created :: "string option"

definition no_options :: event_options where
  "no_options = \<lparr>eo_policy = None, eo_model = None, eo_dataset = None, eo_actor = None, eo_created = None\<rparr>"

definition new_event ::
    "audit_env \<Rightarrow> string \<Rightarrow> string \<Rightarrow> pydict \<Rightarrow> event_options \<Rightarrow> string \<Rightarrow> trace_row \<Rightarrow> audit_db \<Rightarrow> event_row" where
  "new_event env tid stage event opts now tr db =
     (let safe = redact_for_storage env [] (PDict event);
          policy = str_first (eo_policy opts) event [''policy_version''] ''unknown'';
          model = str_first (eo_model opts) event [''classifier_model_version'', ''model_version''] ''none'';
          dataset = str_first (eo_dataset opts) event [''dataset_version''] ''unknown'';
          actor = actor_of (eo_actor opts) event;
          stamp = (if or_empty (eo_created opts) \<noteq> [] then or_empty (eo_created opts) else now);
          sq = tr_count tr + 1; prev = head_or_genesis (tr_head tr);
          digest = event_digest env tid sq stage safe stamp event_version policy model dataset actor (Some prev)
      in \<lparr>er_id = next_event_id db, er_trace = tid, er_stage = stage, er_event_json = canonical_json safe,
          er_created = stamp, er_sequence = Some sq, er_version = event_version, er_policy = policy,
          er_model = model, er_dataset = dataset, er_actor = actor, er_prev = Some prev,
          er_hash = Some digest, er_sig = Some (ae_mac env digest)\<rparr>)"

definition append_event :: "audit_env \<Rightarrow> event_row \<Rightarrow> audit_db \<Rightarrow> audit_db" where
  "append_event env r db =
     db\<lparr>ad_events := ad_events db @ [r], ad_last_id := er_id r,
        ad_traces := row_update tr_id (er_trace r)
          (\<lambda>t. t\<lparr>tr_count := the (er_sequence r), tr_head := er_hash r,
            tr_sig := Some (head_signature env (er_trace r) (the (er_sequence r)) (or_empty (er_hash r)))\<rparr>)
          (ad_traces db)\<rparr>"

definition log_event ::
    "audit_env \<Rightarrow> string \<Rightarrow> string \<Rightarrow> pydict \<Rightarrow> event_options \<Rightarrow> string \<Rightarrow> (audit_db, audit_error, unit) op" where
  "log_event env tid stage event opts now db =
     (case find_trace tid db of
        None \<Rightarrow> (Inl Unknown_Trace, db)
      | Some tr \<Rightarrow>
          (case verify_rows env tr (trace_rows tid db) of
             None \<Rightarrow> (Inl Audit_Crash, db)
           | Some v \<Rightarrow>
               if \<not> vd_valid v
                 then (Inl Audit_Integrity, record_alert tid ''append_failed_integrity'' stage now db)
               else (Inr (), append_event env (new_event env tid stage event opts now tr db) db)))"

record trace_request =
  tq_input :: string
  tq_source :: string
  tq_context :: pydict
  tq_days :: int
  tq_class :: string
  tq_tenant :: "string option"
  tq_user :: "string option"
  tq_agent :: "string option"

definition first_set :: "string option \<Rightarrow> string option \<Rightarrow> string option" where
  "first_set a b = (if or_empty a \<noteq> [] then a else b)"

definition create_trace ::
    "audit_env \<Rightarrow> trace_request \<Rightarrow> string \<Rightarrow> string \<Rightarrow> string \<Rightarrow> (audit_db, audit_error, string) op" where
  "create_trace env q tid now until db =
     (if tq_days q < 1 \<or> 3650 < tq_days q then (Inl Audit_Value_Error, db)
      else if find_trace tid db \<noteq> None then (Inl Audit_Crash, db)
      else op_bind
        (log_event env tid ''trace_created''
           [(''status'', PStr ''created''), (''input_source'', PStr (tq_source q)),
            (''retention_class'', PStr (tq_class q)), (''retention_until'', PStr until)]
           (no_options\<lparr>eo_actor := first_set (tq_user q) (tq_agent q)\<rparr>) now)
        (\<lambda>_. op_return tid)
        (db\<lparr>ad_traces := ad_traces db @
           [\<lparr>tr_id = tid, tr_user_input = tq_input q, tr_source = tq_source q, tr_created = now,
             tr_schema = event_version, tr_input_hash = Some (ae_sha env (tq_input q)),
             tr_context_json = canonical_json (json_safe (PDict (tq_context q))), tr_class = tq_class q,
             tr_until = Some until, tr_tenant = tq_tenant q, tr_user = tq_user q, tr_agent = tq_agent q,
             tr_count = 0, tr_head = Some genesis, tr_sig = Some (head_signature env tid 0 genesis)\<rparr>]\<rparr>))"

end
