(* ===== verification/AuditVerify.thy ===== *)
theory AuditVerify
  imports AuditChain
begin

text \<open>
  What a verified chain means: the columns a digest covers are determined by the trace head,
  and appending to a verified chain gives a verified chain.
\<close>

section \<open>What a digest covers\<close>

definition envelope_values :: "audit_env \<Rightarrow> event_row \<Rightarrow> pyval \<Rightarrow> pyval list" where
  "envelope_values env r ev =
     [opt_str (er_actor r), PStr (er_created r), PStr (er_dataset r), json_safe ev, PStr (er_version r),
      PStr (er_model r), PStr (er_policy r), opt_str (er_prev r), PInt (the (er_sequence r)),
      PStr (er_stage r), PStr (er_trace r)]"

definition envelope_keys :: "string list" where
  "envelope_keys = [''actor_id'', ''created_at'', ''dataset_version'', ''event'', ''event_version'',
     ''model_version'', ''policy_version'', ''prev_hash'', ''sequence'', ''stage'', ''trace_id'']"

definition row_text :: "audit_env \<Rightarrow> event_row \<Rightarrow> string option" where
  "row_text env r =
     (case (ae_loads env (er_event_json r), er_sequence r) of
        (Some ev, Some sq) \<Rightarrow>
          Some (canonical_json (envelope (er_trace r) sq (er_stage r) ev (er_created r) (er_version r)
            (er_policy r) (er_model r) (er_dataset r) (er_actor r) (er_prev r)))
      | _ \<Rightarrow> None)"

lemma row_digest_text: "row_digest env r = map_option (ae_sha env) (row_text env r)"
  by (simp add: row_digest_def row_text_def event_digest_def split: option.splits)

lemma json_safe_opt_str [simp]: "json_safe (opt_str v) = opt_str v"
  by (simp add: opt_str_def split: option.splits)

lemma envelope_text:
  assumes "er_sequence r = Some sq"
  shows "canonical_json (envelope (er_trace r) sq (er_stage r) ev (er_created r) (er_version r)
      (er_policy r) (er_model r) (er_dataset r) (er_actor r) (er_prev r)) =
    [CHR 0x7B] @ join '','' (map (\<lambda>(k, t). json_string k @ '':'' @ t)
      (zip envelope_keys (map json_dumps (envelope_values env r ev)))) @ [CHR 0x7D]"
  by (simp add: canonical_json_def envelope_def envelope_keys_def envelope_values_def assms
      sort_key_simps insort_key_left_comm)

definition event_text :: "audit_env \<Rightarrow> event_row \<Rightarrow> string option" where
  "event_text env r = map_option canonical_json (ae_loads env (er_event_json r))"

definition event_plain :: "audit_env \<Rightarrow> event_row \<Rightarrow> bool" where
  "event_plain env r \<longleftrightarrow> (case ae_loads env (er_event_json r) of None \<Rightarrow> True | Some ev \<Rightarrow> json_ok (json_safe ev))"

text \<open>The columns a digest covers; the event counts as the value its text is read as.\<close>

definition covered ::
    "audit_env \<Rightarrow> event_row \<Rightarrow>
     (string \<times> int option \<times> string \<times> string option) \<times> (string \<times> string \<times> string \<times> string \<times> string) \<times>
     (string option \<times> string option)" where
  "covered env r =
     ((er_trace r, er_sequence r, er_stage r, event_text env r),
      (er_created r, er_version r, er_policy r, er_model r, er_dataset r), (er_actor r, er_prev r))"

lemma opt_str_text_inj: "json_dumps (opt_str a) = json_dumps (opt_str b) \<Longrightarrow> a = b"
  by (auto simp: opt_str_def json_string_def dest: json_chars_inj split: option.splits)

lemma json_ok_opt_str [simp]: "json_ok (opt_str a)"
  by (simp add: opt_str_def split: option.splits)

lemma row_text_covered:
  assumes t: "row_text env r = Some t" "row_text env q = Some t"
    and plain: "event_plain env r" "event_plain env q" and sq: "er_sequence r = er_sequence q"
  shows "covered env r = covered env q"
proof -
  obtain ev n where r: "ae_loads env (er_event_json r) = Some ev" "er_sequence r = Some n"
    using t(1) by (auto simp: row_text_def split: option.splits)
  obtain ev' m where q: "ae_loads env (er_event_json q) = Some ev'" "er_sequence q = Some m"
    using t(2) by (auto simp: row_text_def split: option.splits)
  let ?j = "\<lambda>r ev. join '','' (map (\<lambda>(k, t). json_string k @ '':'' @ t)
      (zip envelope_keys (map json_dumps (envelope_values env r ev))))"
  have "canonical_json (envelope (er_trace r) n (er_stage r) ev (er_created r) (er_version r)
        (er_policy r) (er_model r) (er_dataset r) (er_actor r) (er_prev r)) =
      canonical_json (envelope (er_trace q) m (er_stage q) ev' (er_created q) (er_version q)
        (er_policy q) (er_model q) (er_dataset q) (er_actor q) (er_prev q))"
    using t by (simp add: row_text_def r q)
  then have "?j r ev @ CHR 0x7D # [] = ?j q ev' @ CHR 0x7D # []"
    unfolding envelope_text[OF r(2), of ev env] envelope_text[OF q(2), of ev' env] by simp
  then have "map json_dumps (envelope_values env r ev) = map json_dumps (envelope_values env q ev')"
    using plain by (intro json_object_cut[where ks = envelope_keys, THEN conjunct1])
      (simp_all add: envelope_values_def envelope_keys_def event_plain_def r q)
  then show ?thesis using r q sq
    by (auto simp: envelope_values_def covered_def event_text_def canonical_json_def
        dest!: json_string_inj opt_str_text_inj)
qed

section \<open>A verified chain\<close>

text \<open>What no issue at a row means.\<close>

lemma row_issues_none:
  assumes "row_issues env n prev r = Some []"
  shows "er_sequence r = Some n" "er_prev r = Some prev" "row_digest env r \<noteq> None"
    "er_hash r = row_digest env r" "er_sig r = Some (ae_mac env (or_empty (er_hash r)))"
  using assms
  by (auto simp: row_issues_def signature_issues_def or_empty_def split: if_splits option.splits)

lemma chain_issues_Cons:
  "chain_issues env n prev (r # rs) = Some [] \<longleftrightarrow>
     row_issues env n prev r = Some [] \<and> chain_issues env (n + 1) (or_empty (er_hash r)) rs = Some []"
  by (simp split: option.splits)

lemma chain_issues_append:
  "chain_issues env n prev (rs @ qs) = Some [] \<longleftrightarrow>
     chain_issues env n prev rs = Some [] \<and>
     chain_issues env (n + int (length rs)) (if rs = [] then prev else or_empty (er_hash (last rs))) qs = Some []"
proof (induction rs arbitrary: n prev)
  case (Cons r rs)
  have "n + 1 + int (length rs) = n + int (length (r # rs))" by simp
  with Cons show ?case
    by (simp only: append_Cons chain_issues_Cons) auto
qed simp

lemma chain_snoc:
  "chain_issues env n prev (rs @ [r]) = Some [] \<longleftrightarrow>
     chain_issues env n prev rs = Some [] \<and>
     row_issues env (n + int (length rs)) (if rs = [] then prev else or_empty (er_hash (last rs))) r = Some []"
  by (subst chain_issues_append) (simp add: chain_issues_Cons del: chain_issues.simps(2))

text \<open>
  Two verified chains that end in the same hash are the same in every covered column, if no
  two of their envelopes collide under the hash.
\<close>

definition row_texts :: "audit_env \<Rightarrow> event_row list \<Rightarrow> string set" where
  "row_texts env rows = {t. \<exists>r \<in> set rows. row_text env r = Some t}"

lemma chain_rows_agree:
  assumes "chain_issues env n prev rs = Some []" "chain_issues env n prev qs = Some []"
    "length rs = length qs" "rs \<noteq> [] \<Longrightarrow> er_hash (last rs) = er_hash (last qs)"
    "inj_on (ae_sha env) (row_texts env (rs @ qs))" "list_all (event_plain env) (rs @ qs)"
  shows "map (covered env) rs = map (covered env) qs \<and> map er_hash rs = map er_hash qs"
  using assms
proof (induction rs arbitrary: qs rule: rev_induct)
  case Nil
  then show ?case by simp
next
  case (snoc r rs)
  obtain q qs' where qs: "qs = qs' @ [q]" using snoc.prems(3) by (cases qs rule: rev_cases) auto
  have len: "length rs = length qs'" using snoc.prems(3) qs by simp
  have r: "row_issues env (n + int (length rs)) (if rs = [] then prev else or_empty (er_hash (last rs))) r = Some []"
    and rs: "chain_issues env n prev rs = Some []"
    using snoc.prems(1) chain_snoc by metis+
  have q: "row_issues env (n + int (length qs')) (if qs' = [] then prev else or_empty (er_hash (last qs'))) q = Some []"
    and qs': "chain_issues env n prev qs' = Some []"
    using snoc.prems(2) chain_snoc unfolding qs by metis+
  note ri = row_issues_none[OF r] and qi = row_issues_none[OF q]
  obtain t where t: "row_text env r = Some t" using ri(3) by (auto simp: row_digest_text)
  obtain u where u: "row_text env q = Some u" using qi(3) by (auto simp: row_digest_text)
  have "ae_sha env t = ae_sha env u"
    using snoc.prems(4) ri(4) qi(4) t u by (simp add: qs row_digest_text)
  moreover have "t \<in> row_texts env ((rs @ [r]) @ qs)" "u \<in> row_texts env ((rs @ [r]) @ qs)"
    using t u by (auto simp: row_texts_def qs)
  ultimately have "t = u" using snoc.prems(5) by (auto dest: inj_onD)
  then have cov: "covered env r = covered env q"
    using t u ri(1) qi(1) len snoc.prems(6) by (intro row_text_covered) (auto simp: qs)
  then have "er_prev r = er_prev q" by (simp add: covered_def)
  then have prev: "(if rs = [] then prev else or_empty (er_hash (last rs))) =
      (if qs' = [] then prev else or_empty (er_hash (last qs')))" using ri(2) qi(2) by simp
  have hash: "rs \<noteq> [] \<Longrightarrow> er_hash (last rs) = er_hash (last qs')"
  proof -
    assume ne: "rs \<noteq> []"
    then have ne': "qs' \<noteq> []" using len by auto
    have some: "er_hash (last xs) \<noteq> None" if "chain_issues env n prev xs = Some []" "xs \<noteq> []" for xs
    proof -
      obtain ys y where xs: "xs = ys @ [y]" using \<open>xs \<noteq> []\<close> by (cases xs rule: rev_cases) auto
      show ?thesis using that(1) row_issues_none(3,4) unfolding xs chain_snoc by fastforce
    qed
    show ?thesis using some[OF rs ne] some[OF qs' ne'] prev ne ne' by (auto simp: or_empty_def)
  qed
  have "map (covered env) rs = map (covered env) qs' \<and> map er_hash rs = map er_hash qs'"
  proof (rule snoc.IH[OF rs qs' len hash])
    show "inj_on (ae_sha env) (row_texts env (rs @ qs'))"
      by (rule inj_on_subset[OF snoc.prems(5)]) (auto simp: row_texts_def qs)
    show "list_all (event_plain env) (rs @ qs')" using snoc.prems(6) by (simp add: qs)
  qed
  with cov snoc.prems(4) show ?case by (simp add: qs)
qed

lemma verify_rowsD:
  assumes "verify_rows env tr rows = Some v" "vd_valid v"
  shows "chain_issues env 1 genesis rows = Some []" "tr_count tr = int (length rows)"
    "tr_head tr = actual_head rows"
    "tr_sig tr = Some (head_signature env (tr_id tr) (tr_count tr) (head_or_genesis (tr_head tr)))"
  using assms
  by (auto simp: verify_rows_def trace_issues_def Let_def or_empty_def split: option.splits if_splits)

section \<open>Appending to a verified chain\<close>

definition reads_back :: "audit_env \<Rightarrow> pyval \<Rightarrow> bool" where
  "reads_back env v \<longleftrightarrow> (case ae_loads env (canonical_json v) of
     None \<Rightarrow> False | Some w \<Rightarrow> canonical_json w = canonical_json v)"

definition hex_outputs :: "audit_env \<Rightarrow> bool" where
  "hex_outputs env \<longleftrightarrow> (\<forall>s. ae_sha env s \<noteq> [] \<and> ascii_only (ae_sha env s) \<and>
     ae_mac env s \<noteq> [] \<and> ascii_only (ae_mac env s))"

lemma envelope_text_cong:
  assumes "canonical_json w = canonical_json v"
  shows "canonical_json (envelope t n st w c ve p m d a pr) = canonical_json (envelope t n st v c ve p m d a pr)"
proof -
  define r where "r = \<lparr>er_id = 0, er_trace = t, er_stage = st, er_event_json = [], er_created = c,
    er_sequence = Some n, er_version = ve, er_policy = p, er_model = m, er_dataset = d, er_actor = a,
    er_prev = pr, er_hash = None, er_sig = None\<rparr>"
  have "map json_dumps (envelope_values env r w) = map json_dumps (envelope_values env r v)" for env
    using assms by (simp add: envelope_values_def canonical_json_def)
  then show ?thesis
    using envelope_text[of r n w undefined] envelope_text[of r n v undefined] by (simp add: r_def)
qed

lemma verify_rows_valid_iff:
  "(\<exists>v. verify_rows env tr rows = Some v \<and> vd_valid v \<and> vd_count v = length rows) \<longleftrightarrow>
     chain_issues env 1 genesis rows = Some [] \<and> trace_issues env tr rows = Some []"
  by (auto simp: verify_rows_def split: option.splits)

lemma genesis_ne [simp]: "genesis \<noteq> []"
  by (simp add: genesis_def)

lemma new_event_simps [simp]:
  "er_id (new_event env tid stage ev opts now tr db) = next_event_id db"
  "er_trace (new_event env tid stage ev opts now tr db) = tid"
  "er_sequence (new_event env tid stage ev opts now tr db) = Some (tr_count tr + 1)"
  "er_prev (new_event env tid stage ev opts now tr db) = Some (head_or_genesis (tr_head tr))"
  "er_stage (new_event env tid stage ev opts now tr db) = stage"
  "er_event_json (new_event env tid stage ev opts now tr db) =
     canonical_json (redact_for_storage env [] (PDict ev))"
  by (simp_all add: new_event_def Let_def)

lemma append_verifies:
  assumes ok: "verify_rows env tr rows = Some v" "vd_valid v" and hex: "hex_outputs env"
    and rb: "reads_back env (redact_for_storage env [] (PDict ev))"
    and r: "r = new_event env (tr_id tr) stage ev opts now tr db"
    and tr': "tr_id tr' = tr_id tr" "tr_count tr' = tr_count tr + 1" "tr_head tr' = er_hash r"
      "tr_sig tr' = Some (head_signature env (tr_id tr) (tr_count tr + 1) (or_empty (er_hash r)))"
  shows "\<exists>v'. verify_rows env tr' (rows @ [r]) = Some v' \<and> vd_valid v' \<and> vd_count v' = length (rows @ [r])"
proof -
  note old = verify_rowsD[OF ok]
  let ?safe = "redact_for_storage env [] (PDict ev)"
  obtain w where w: "ae_loads env (canonical_json ?safe) = Some w" "canonical_json w = canonical_json ?safe"
    using rb by (auto simp: reads_back_def split: option.splits)
  obtain d where d: "er_hash r = Some d" "er_sig r = Some (ae_mac env d)"
    "d = event_digest env (er_trace r) (tr_count tr + 1) (er_stage r) ?safe (er_created r) (er_version r)
      (er_policy r) (er_model r) (er_dataset r) (er_actor r) (er_prev r)"
    unfolding r by (simp add: new_event_def Let_def)
  have rd: "row_digest env r = Some d"
    using w envelope_text_cong[OF w(2)] by (simp add: row_digest_def r d(3) event_digest_def)
  have dn: "d \<noteq> []" "ascii_only d" using hex by (simp_all add: d(3) event_digest_def hex_outputs_def)
  have prev: "er_prev r = Some (if rows = [] then genesis else or_empty (er_hash (last rows)))"
  proof (cases "rows = []")
    case True
    then show ?thesis using old(3) by (simp add: r actual_head_def head_or_genesis_def or_empty_def)
  next
    case False
    then obtain qs q where rows: "rows = qs @ [q]" by (cases rows rule: rev_cases) auto
    have "row_issues env (1 + int (length qs)) (if qs = [] then genesis else or_empty (er_hash (last qs))) q = Some []"
      using old(1) unfolding rows chain_snoc by blast
    note q = row_issues_none[OF this]
    have "or_empty (er_hash q) \<noteq> []"
      using q(3,4) hex by (auto simp: row_digest_text hex_outputs_def or_empty_def)
    with old(3) rows show ?thesis
      by (simp add: r actual_head_def head_or_genesis_def)
  qed
  have "row_issues env (1 + int (length rows)) (if rows = [] then genesis else or_empty (er_hash (last rows))) r = Some []"
    using prev old(2) rd d(1,2) dn hex
    by (simp add: row_issues_def signature_issues_def or_empty_def r hex_outputs_def)
  then have "chain_issues env 1 genesis (rows @ [r]) = Some []" using old(1) chain_snoc by simp
  moreover have "trace_issues env tr' (rows @ [r]) = Some []"
    using tr' old(2) d dn hex
    by (simp add: trace_issues_def actual_head_def head_or_genesis_def or_empty_def head_signature_def
        hex_outputs_def)
  ultimately show ?thesis using verify_rows_valid_iff by blast
qed

lemma insort_key_snoc: "f y \<le> f x \<Longrightarrow> insort_key f y (zs @ [x]) = insort_key f y zs @ [x]"
  by (induction zs) auto

lemma sort_key_snoc: "(\<And>y. y \<in> set xs \<Longrightarrow> f y \<le> f x) \<Longrightarrow> sort_key f (xs @ [x]) = sort_key f xs @ [x]"
  by (induction xs) (auto simp: insort_key_snoc)

lemma fold_max_ge: "x \<in> insert a (set xs) \<Longrightarrow> x \<le> fold max xs (a :: nat)"
proof (induction xs arbitrary: a x)
  case (Cons y ys)
  show ?case
  proof (cases "x \<in> set ys")
    case True
    then show ?thesis using Cons.IH[of x "max y a"] by simp
  next
    case False
    then have "x \<le> max y a" using Cons.prems by auto
    also have "\<dots> \<le> fold max ys (max y a)" using Cons.IH[of "max y a" "max y a"] by simp
    finally show ?thesis by simp
  qed
qed simp

lemma next_event_id_fresh: "e \<in> set (ad_events db) \<Longrightarrow> er_id e < next_event_id db"
  using fold_max_ge[of "er_id e" "ad_last_id db" "map er_id (ad_events db)"]
  by (simp add: next_event_id_def less_Suc_eq_le)

lemma trace_rows_append:
  assumes "er_id r = next_event_id db"
  shows "trace_rows tid (append_event env r db) = trace_rows tid db @ (if er_trace r = tid then [r] else [])"
proof -
  have "sort_key er_id (filter (\<lambda>r. er_trace r = tid) (ad_events db) @ [r]) =
      sort_key er_id (filter (\<lambda>r. er_trace r = tid) (ad_events db)) @ [r]"
    using next_event_id_fresh[of _ db] assms by (intro sort_key_snoc) (auto simp: less_imp_le)
  then show ?thesis by (simp add: trace_rows_def append_event_def)
qed

lemma find_trace_append:
  "find_trace tid (append_event env r db) =
     (if tid = er_trace r
      then map_option (\<lambda>t. t\<lparr>tr_count := the (er_sequence r), tr_head := er_hash r,
         tr_sig := Some (head_signature env (er_trace r) (the (er_sequence r)) (or_empty (er_hash r)))\<rparr>)
         (find_trace tid db)
      else find_trace tid db)"
  by (simp add: find_trace_def append_event_def row_get_update)

lemma log_event_ok:
  assumes run: "log_event env tid stage ev opts now db = (Inr (), db')" and hex: "hex_outputs env"
    and rb: "reads_back env (redact_for_storage env [] (PDict ev))"
  shows "\<exists>tr v v'. find_trace tid db = Some tr \<and> verify_rows env tr (trace_rows tid db) = Some v \<and> vd_valid v \<and>
    verify_trace env tid db' = Inr v' \<and> vd_valid v' \<and> vd_count v' = length (trace_rows tid db) + 1 \<and>
    db' = append_event env (new_event env tid stage ev opts now tr db) db"
proof -
  obtain tr where tr: "find_trace tid db = Some tr"
    using run by (auto simp: log_event_def split: option.splits)
  obtain v where v: "verify_rows env tr (trace_rows tid db) = Some v"
    using run tr by (auto simp: log_event_def split: option.splits)
  have valid: "vd_valid v" and db': "db' = append_event env (new_event env tid stage ev opts now tr db) db"
    using run tr v by (auto simp: log_event_def split: if_splits)
  have id: "tr_id tr = tid" using tr by (auto simp: find_trace_def dest: row_get_SomeD)
  let ?r = "new_event env tid stage ev opts now tr db"
  define tr' where "tr' = tr\<lparr>tr_count := the (er_sequence ?r), tr_head := er_hash ?r,
     tr_sig := Some (head_signature env (er_trace ?r) (the (er_sequence ?r)) (or_empty (er_hash ?r)))\<rparr>"
  have find': "find_trace tid db' = Some tr'" by (simp add: db' find_trace_append tr tr'_def)
  have rows': "trace_rows tid db' = trace_rows tid db @ [?r]"
    by (simp add: db' trace_rows_append)
  have "\<exists>v'. verify_rows env tr' (trace_rows tid db @ [?r]) = Some v' \<and> vd_valid v' \<and>
      vd_count v' = length (trace_rows tid db @ [?r])"
    by (rule append_verifies[OF v valid hex rb, of _ stage opts now db])
      (simp_all add: id tr'_def)
  then show ?thesis using tr v valid db' find' rows' by (auto simp: verify_trace_def)
qed

end
