(* ===== verification/AuditViews.thy ===== *)
theory AuditViews
  imports AuditVerify Approvals
begin

text \<open>
  The readers of the audit database: role-filtered views, ownership, expired traces and
  pending approvals of \<open>audit.py\<close>, the recording of an approval decision, and the migration
  of traces written before events were chained (\<open>migrate_legacy_chains\<close>).
\<close>

section \<open>Views\<close>

datatype audit_role = Admin | Reviewer | Auditor | Operator | Viewer | Replayer

record event_view =
  ev_id :: nat
  ev_sequence :: "int option"
  ev_stage :: string
  ev_event :: pyval
  ev_created :: string
  ev_versions :: "string \<times> string \<times> string \<times> string"
  ev_actor :: "string option"
  ev_hashes :: "string option \<times> string option \<times> string option"

text \<open>The event a role sees; an event that is not an object has no \<open>get\<close> and no \<open>pop\<close>.\<close>

definition viewed_event :: "audit_role \<Rightarrow> pyval \<Rightarrow> pyval option" where
  "viewed_event role ev =
     (case role of
        Viewer \<Rightarrow>
          (case ev of
             PDict d \<Rightarrow>
               Some (PDict [(''summary'', PStr ''event details hidden for viewer role''),
                 (''decision'', get_or_none d ''decision''), (''status'', get_or_none d ''status''),
                 (''risk_level'', get_or_none d ''risk_level'')])
           | _ \<Rightarrow> None)
      | _ \<Rightarrow>
          if role \<in> {Operator, Auditor}
            then (case ev of
                PDict d \<Rightarrow> Some (PDict (filter (\<lambda>(k, _). k \<noteq> ''masked_args'') d))
              | _ \<Rightarrow> None)
          else Some ev)"

definition event_view_of :: "audit_env \<Rightarrow> audit_role \<Rightarrow> event_row \<Rightarrow> event_view option" where
  "event_view_of env role r =
     (case ae_loads env (er_event_json r) of
        None \<Rightarrow> None
      | Some ev \<Rightarrow>
          map_option (\<lambda>e. \<lparr>ev_id = er_id r, ev_sequence = er_sequence r, ev_stage = er_stage r,
              ev_event = e, ev_created = er_created r,
              ev_versions = (er_version r, er_policy r, er_model r, er_dataset r),
              ev_actor = er_actor r, ev_hashes = (er_prev r, er_hash r, er_sig r)\<rparr>)
            (viewed_event role ev))"

fun option_all :: "'a option list \<Rightarrow> 'a list option" where
  "option_all [] = Some []"
| "option_all (None # xs) = None"
| "option_all (Some x # xs) = map_option ((#) x) (option_all xs)"

record trace_view =
  tv_id :: string
  tv_schema :: string
  tv_input :: string
  tv_input_hash :: "string option"
  tv_source :: string
  tv_context :: pyval
  tv_owner :: "string option \<times> string option \<times> string option"
  tv_created :: string
  tv_class :: string
  tv_until :: "string option"
  tv_expired :: bool
  tv_events :: "event_view list"
  tv_integrity :: verdict
  tv_complete :: bool

definition or_braces :: "string \<Rightarrow> string" where
  "or_braces s = (if s = [] then [CHR 0x7B, CHR 0x7D] else s)"

definition viewed_input :: "audit_role \<Rightarrow> string \<Rightarrow> string" where
  "viewed_input role text =
     (if role \<in> {Admin, Replayer} then text
      else if role \<in> {Reviewer, Auditor, Operator} then mask_text text
      else ''[REDACTED]'')"

definition viewed_context :: "audit_env \<Rightarrow> audit_role \<Rightarrow> string \<Rightarrow> pyval option" where
  "viewed_context env role ctx =
     (if role \<in> {Admin, Replayer} then ae_loads env (or_braces ctx)
      else if role \<in> {Reviewer, Auditor, Operator}
        then Some (PDict [(''summary'', PStr ''trace context hidden''),
               (''context_hash'', PStr (ae_sha env (or_braces ctx)))])
      else Some (PDict []))"

definition viewed_owner :: "audit_role \<Rightarrow> trace_row \<Rightarrow> string option \<times> string option \<times> string option" where
  "viewed_owner role tr =
     (if role \<in> {Admin, Auditor, Replayer} then (tr_tenant tr, tr_user tr, tr_agent tr)
      else (None, None, None))"

definition trace_view_of ::
    "audit_env \<Rightarrow> audit_role \<Rightarrow> string \<Rightarrow> trace_row \<Rightarrow> event_row list \<Rightarrow> trace_view option" where
  "trace_view_of env role now tr rows =
     (case (option_all (map (event_view_of env role) rows),
            viewed_context env role (tr_context_json tr), verify_rows env tr rows) of
        (Some events, Some ctx, Some v) \<Rightarrow>
          Some \<lparr>tv_id = tr_id tr, tv_schema = tr_schema tr, tv_input = viewed_input role (tr_user_input tr),
            tv_input_hash = tr_input_hash tr, tv_source = tr_source tr, tv_context = ctx,
            tv_owner = viewed_owner role tr, tv_created = tr_created tr, tv_class = tr_class tr,
            tv_until = tr_until tr,
            tv_expired = (or_empty (tr_until tr) \<noteq> [] \<and> ae_reached env now (or_empty (tr_until tr))),
            tv_events = events, tv_integrity = v,
            tv_complete = list_ex (\<lambda>e. ev_stage e = ''final_output'') events\<rparr>
      | _ \<Rightarrow> None)"

definition get_audit_trace ::
    "audit_env \<Rightarrow> audit_role option \<Rightarrow> string \<Rightarrow> string \<Rightarrow> audit_db \<Rightarrow> audit_error + trace_view" where
  "get_audit_trace env role tid now db =
     (case role of
        None \<Rightarrow> Inl Audit_Value_Error
      | Some r \<Rightarrow>
          (case find_trace tid db of
             None \<Rightarrow> Inl Unknown_Trace
           | Some tr \<Rightarrow>
               (case trace_view_of env r now tr (trace_rows tid db) of
                  None \<Rightarrow> Inl Audit_Crash
                | Some v \<Rightarrow> Inr v)))"

definition get_trace_identity ::
    "string \<Rightarrow> audit_db \<Rightarrow> audit_error + (string option \<times> string option \<times> string option)" where
  "get_trace_identity tid db =
     (case find_trace tid db of
        None \<Rightarrow> Inl Unknown_Trace
      | Some tr \<Rightarrow> Inr (tr_tenant tr, tr_user tr, tr_agent tr))"

definition list_expired_traces :: "(string \<Rightarrow> string \<Rightarrow> bool) \<Rightarrow> string \<Rightarrow> audit_db \<Rightarrow> string list" where
  "list_expired_traces before now db =
     map tr_id (sort_key (\<lambda>t. or_empty (tr_until t))
       (filter (\<lambda>t. case tr_until t of None \<Rightarrow> False | Some u \<Rightarrow> before u now) (ad_traces db)))"

section \<open>Approvals in the log\<close>

definition newest_first :: "event_row list \<Rightarrow> event_row list" where
  "newest_first rows = rev (sort_key er_id rows)"

definition tenant_rows :: "string option \<Rightarrow> audit_db \<Rightarrow> event_row list" where
  "tenant_rows tenant db =
     (if or_empty tenant = [] then ad_events db
      else filter (\<lambda>r. case find_trace (er_trace r) db of
          None \<Rightarrow> False | Some t \<Rightarrow> tr_tenant t = tenant) (ad_events db))"

text \<open>
  The scan over the newest rows: a decision seen earlier in the scan is a later decision.
  \<open>None\<close> is an event that is no JSON object.
\<close>

fun scan_pending ::
    "audit_env \<Rightarrow> (string \<times> string) list \<Rightarrow> event_row list \<Rightarrow> (string \<times> string \<times> pydict) list option" where
  "scan_pending env decided [] = Some []"
| "scan_pending env decided (r # rs) =
     (case ae_loads env (er_event_json r) of
        Some (PDict d) \<Rightarrow>
          (let key = (er_trace r, str_arg d ''request_id'')
           in if er_stage r = ''approval_decision'' then scan_pending env (key # decided) rs
              else if er_stage r = ''tool_decision'' \<and> get_or_none d ''decision'' = PStr ''require_approval'' \<and>
                 key \<notin> set decided
                then map_option ((#) (er_trace r, er_created r, d)) (scan_pending env decided rs)
              else scan_pending env decided rs)
      | _ \<Rightarrow> None)"

definition list_pending_approvals ::
    "audit_env \<Rightarrow> nat \<Rightarrow> string option \<Rightarrow> audit_db \<Rightarrow> audit_error + (string \<times> string \<times> pydict) list" where
  "list_pending_approvals env limit tenant db =
     (case scan_pending env [] (take (max (limit * 5) 100) (newest_first (tenant_rows tenant db))) of
        None \<Rightarrow> Inl Audit_Crash
      | Some xs \<Rightarrow> Inr (take limit xs))"

datatype record_error = Record_Approval approval_error | Record_Audit audit_error

text \<open>The state: the approval store and the audit database; each is committed on its own.\<close>

definition record_approval ::
    "audit_env \<Rightarrow> string \<Rightarrow> string \<Rightarrow> string \<Rightarrow> string \<Rightarrow> pydict option \<Rightarrow> string \<Rightarrow> string option \<Rightarrow> int \<Rightarrow>
     string \<Rightarrow> (approval_store \<times> audit_db, record_error, pydict) op" where
  "record_approval env tid rid d comment masked who dkey now stamp =
     (if d \<notin> {''allow'', ''deny'', ''mask_and_allow''}
        then op_raise (Record_Approval (Approval_State_Error Invalid_Approval_Decision))
      else op_bind
        (op_on fst (\<lambda>t (_, b). (t, b)) Record_Approval
           (decide_by_request tid rid d who
              (if or_empty dkey \<noteq> [] then or_empty dkey else tid @ '':'' @ rid @ '':'' @ d) comment masked now))
        (\<lambda>rec.
           (let event = [(''approval_id'', PStr (approval_id (rec_state rec))), (''request_id'', PStr rid),
                  (''decision'', PStr d), (''status'', PStr (status_value (status (rec_state rec)))),
                  (''comment'', PStr comment),
                  (''masked_args'', PDict (case masked of None \<Rightarrow> [] | Some m \<Rightarrow> m)), (''actor'', PStr who)]
            in op_bind
                 (op_on snd (\<lambda>b (t, _). (t, b)) Record_Audit
                    (log_event env tid ''approval_decision'' event (no_options\<lparr>eo_actor := Some who\<rparr>) stamp))
                 (\<lambda>_. op_return event))))"

section \<open>Migration\<close>

definition legacy :: string where "legacy = ''legacy-unknown''"

text \<open>The rows of a wholly unhashed trace, chained from \<open>prev\<close>; \<open>None\<close> when one does not parse.\<close>

fun backfill :: "audit_env \<Rightarrow> string \<Rightarrow> int \<Rightarrow> string \<Rightarrow> event_row list \<Rightarrow> event_row list option" where
  "backfill env tid n prev [] = Some []"
| "backfill env tid n prev (r # rs) =
     (case ae_loads env (er_event_json r) of
        None \<Rightarrow> None
      | Some ev \<Rightarrow>
          (let d = event_digest env tid n (er_stage r) ev (er_created r) event_version legacy legacy legacy
                 None (Some prev)
           in map_option ((#) (r\<lparr>er_sequence := Some n, er_version := event_version, er_policy := legacy,
                er_model := legacy, er_dataset := legacy, er_actor := None, er_prev := Some prev,
                er_hash := Some d, er_sig := Some (ae_mac env d)\<rparr>))
                (backfill env tid (n + 1) d rs)))"

definition rehead :: "audit_env \<Rightarrow> nat \<Rightarrow> string \<Rightarrow> trace_row \<Rightarrow> trace_row" where
  "rehead env n head t =
     t\<lparr>tr_count := int n, tr_head := Some head,
       tr_sig := Some (head_signature env (tr_id t) (int n) head),
       tr_input_hash := (case tr_input_hash t of None \<Rightarrow> Some (ae_sha env (tr_user_input t)) | Some h \<Rightarrow> Some h)\<rparr>"

definition replace_rows :: "event_row list \<Rightarrow> event_row list \<Rightarrow> event_row list" where
  "replace_rows new rows =
     map (\<lambda>r. case find (\<lambda>q. er_id q = er_id r) new of None \<Rightarrow> r | Some q \<Rightarrow> q) rows"

text \<open>One trace; \<open>None\<close> aborts the whole migration.\<close>

definition migrate_trace :: "audit_env \<Rightarrow> string \<Rightarrow> trace_row \<Rightarrow> audit_db \<Rightarrow> audit_db option" where
  "migrate_trace env now tr db =
     (let tid = tr_id tr; rows = trace_rows tid db; hashed = map (\<lambda>r. or_empty (er_hash r) \<noteq> []) rows
      in if rows = []
           then Some (db\<lparr>ad_traces := row_update tr_id tid (rehead env 0 genesis) (ad_traces db)\<rparr>)
         else if list_ex id hashed \<and> \<not> list_all id hashed
           then Some (record_alert tid ''partial_legacy_chain'' (show_nat (length rows)) now db)
         else if list_ex id hashed then Some db
         else (case backfill env tid 1 genesis rows of
             None \<Rightarrow> None
           | Some new \<Rightarrow>
               Some (db\<lparr>ad_events := replace_rows new (ad_events db),
                 ad_traces := row_update tr_id tid
                   (rehead env (length rows) (or_empty (actual_head new))) (ad_traces db)\<rparr>)))"

fun migrate_all :: "audit_env \<Rightarrow> string \<Rightarrow> trace_row list \<Rightarrow> audit_db \<Rightarrow> audit_db option" where
  "migrate_all env now [] db = Some db"
| "migrate_all env now (t # ts) db =
     (case migrate_trace env now t db of None \<Rightarrow> None | Some db' \<Rightarrow> migrate_all env now ts db')"

definition migrate_legacy_chains :: "audit_env \<Rightarrow> string \<Rightarrow> (audit_db, audit_error, unit) op" where
  "migrate_legacy_chains env now db =
     (case migrate_all env now (sort_key tr_created (sort_key tr_id (ad_traces db))) db of
        None \<Rightarrow> (Inl Audit_Crash, db)
      | Some db' \<Rightarrow> (Inr (), db'))"

end
