(* ===== verification/Replay.thy ===== *)
theory Replay
  imports AuditViews Guard
begin

text \<open>
  Signed replay bundles (\<^verbatim>\<open>skills/traceaudit-gov/src/replay.py\<close>): freezing a verified trace
  with the policies it used, checking a bundle, and re-deciding its recorded tool calls with
  the guard of \<open>Guard\<close>. A bundle is the dictionary the code handles, so also one that was
  received from outside; \<open>None\<close> is an exception. The policy files, the YAML parser, the
  validation of a request and the input analysis are arguments.
\<close>

record replay_env =
  re_audit :: audit_env
  re_prompt_files :: "(string \<times> string \<times> string) list"
  re_policy_file :: "string \<Rightarrow> (string \<times> string) option"
  re_policy :: "string \<Rightarrow> policy option"
  re_request :: "pyval \<Rightarrow> pyval \<Rightarrow> pydict \<Rightarrow> tool_request option"
  re_analyze :: "string \<Rightarrow> pyval \<Rightarrow> pyval \<Rightarrow> pyval \<Rightarrow> pydict option"
  re_dir :: "string \<Rightarrow> policy_file option"
  re_releases :: release_store

definition replay_version :: string where "replay_version = ''1.0.0''"

section \<open>Bundles\<close>

definition snapshot :: "replay_env \<Rightarrow> string \<Rightarrow> string \<Rightarrow> pyval" where
  "snapshot env path text =
     PDict [(''path'', PStr path), (''sha256'', PStr (ae_sha (re_audit env) text)), (''content'', PStr text)]"

text \<open>The snapshot of the first version is stored once more under the bare name.\<close>

definition policy_snapshots :: "replay_env \<Rightarrow> string list \<Rightarrow> pydict" where
  "policy_snapshots env tool_versions =
     (let versions = (if tool_versions = [] then [default_stable_version] else tool_versions)
      in map (\<lambda>(n, p, t). (n, snapshot env p t)) (re_prompt_files env) @
         concat (map (\<lambda>(i, v). case re_policy_file env v of
             None \<Rightarrow> []
           | Some (p, t) \<Rightarrow> (''mcp_tool_policy:'' @ v, snapshot env p t) #
               (if i = 0 then [(''mcp_tool_policy'', snapshot env p t)] else []))
           (zip [0..<length versions] versions)))"

definition bundle_digest :: "replay_env \<Rightarrow> pydict \<Rightarrow> string" where
  "bundle_digest env payload =
     ae_sha (re_audit env) (canonical_json (PDict (filter
       (\<lambda>(k, _). k \<notin> {''bundle_hash'', ''bundle_signature'', ''key_id''}) payload)))"

definition strings :: "string list \<Rightarrow> pyval" where
  "strings xs = PList (map PStr (sort (remdups xs)))"

definition opt_int :: "int option \<Rightarrow> pyval" where
  "opt_int o' = (case o' of None \<Rightarrow> PNone | Some i \<Rightarrow> PInt i)"

definition tool_versions_of :: "event_view list \<Rightarrow> string list" where
  "tool_versions_of events =
     sort (remdups (map (\<lambda>e. fst (snd (ev_versions e)))
       (filter (\<lambda>e. ev_stage e = ''tool_decision'' \<and>
          fst (snd (ev_versions e)) \<notin> {''unknown'', ''unavailable''}) events)))"

definition bundle_payload :: "replay_env \<Rightarrow> string \<Rightarrow> trace_view \<Rightarrow> pydict" where
  "bundle_payload env tid tv =
     [(''replay_version'', PStr replay_version), (''trace_id'', PStr tid),
      (''trace_head_hash'', opt_str (vd_head (tv_integrity tv))),
      (''input'', PDict [(''user_input'', PStr (tv_input tv)), (''user_input_hash'', opt_str (tv_input_hash tv)),
         (''input_source'', PStr (tv_source tv)), (''trace_context'', tv_context tv)]),
      (''policy_snapshots'', PDict (policy_snapshots env (tool_versions_of (tv_events tv)))),
      (''versions'', PDict
         [(''event'', strings (map (fst \<circ> ev_versions) (tv_events tv))),
          (''policy'', strings (map (fst \<circ> snd \<circ> ev_versions) (tv_events tv))),
          (''model'', strings (map (fst \<circ> snd \<circ> snd \<circ> ev_versions) (tv_events tv))),
          (''dataset'', strings (map (snd \<circ> snd \<circ> snd \<circ> ev_versions) (tv_events tv)))]),
      (''events'', PList (map (\<lambda>e. PDict [(''sequence'', opt_int (ev_sequence e)), (''stage'', PStr (ev_stage e)),
          (''event'', ev_event e), (''event_hash'', opt_str (fst (snd (ev_hashes e))))]) (tv_events tv)))]"

definition sign_bundle :: "replay_env \<Rightarrow> pydict \<Rightarrow> pydict" where
  "sign_bundle env payload =
     (let d = bundle_digest env payload
      in payload @ [(''bundle_hash'', PStr d), (''bundle_signature'', PStr (ae_mac (re_audit env) d)),
           (''key_id'', PStr (ae_key (re_audit env)))])"

definition create_replay_bundle ::
    "replay_env \<Rightarrow> string \<Rightarrow> string \<Rightarrow> audit_db \<Rightarrow> audit_error + pydict" where
  "create_replay_bundle env tid now db =
     (case get_audit_trace (re_audit env) (Some Replayer) tid now db of
        Inl e \<Rightarrow> Inl e
      | Inr tv \<Rightarrow>
          if \<not> vd_valid (tv_integrity tv) then Inl Audit_Value_Error
          else Inr (sign_bundle env (bundle_payload env tid tv)))"

section \<open>Checking a bundle\<close>

datatype bundle_issue = Bundle_Hash_Mismatch | Bundle_Signature_Mismatch | Policy_Snapshot_Mismatch string

definition get_or :: "pydict \<Rightarrow> string \<Rightarrow> pyval \<Rightarrow> pyval" where
  "get_or d k v = (case dict_get d k of None \<Rightarrow> v | Some w \<Rightarrow> w)"

definition snapshot_issue :: "replay_env \<Rightarrow> string \<times> pyval \<Rightarrow> bundle_issue list option" where
  "snapshot_issue env nv =
     (case snd nv of
        PDict s \<Rightarrow>
          (case get_or s ''content'' (PStr []) of
             PStr text \<Rightarrow>
               Some (if get_or_none s ''sha256'' = PStr (ae_sha (re_audit env) text) then []
                     else [Policy_Snapshot_Mismatch (fst nv)])
           | _ \<Rightarrow> None)
      | _ \<Rightarrow> None)"

definition signature_issue :: "replay_env \<Rightarrow> pydict \<Rightarrow> bundle_issue list option" where
  "signature_issue env bundle =
     (case get_or bundle ''bundle_hash'' (PStr []) of
        PStr h \<Rightarrow>
          if \<not> ascii_only h then None
          else Some (if get_or_none bundle ''bundle_signature'' = PStr (ae_mac (re_audit env) h) then []
                     else [Bundle_Signature_Mismatch])
      | _ \<Rightarrow> None)"

definition verify_replay_bundle :: "replay_env \<Rightarrow> pydict \<Rightarrow> bundle_issue list option" where
  "verify_replay_bundle env bundle =
     (case (signature_issue env bundle, get_or bundle ''policy_snapshots'' (PDict [])) of
        (Some sig, PDict snaps) \<Rightarrow>
          map_option (\<lambda>xs.
              (if get_or_none bundle ''bundle_hash'' = PStr (bundle_digest env bundle) then []
               else [Bundle_Hash_Mismatch]) @ sig @ concat xs)
            (option_all (map (snapshot_issue env) snaps))
      | _ \<Rightarrow> None)"

section \<open>Replaying\<close>

text \<open>The recorded events of a stage, each the object under \<open>event\<close>.\<close>

fun staged :: "string \<Rightarrow> pyval list \<Rightarrow> pydict list option" where
  "staged stage [] = Some []"
| "staged stage (e # es) =
     (case e of
        PDict d \<Rightarrow>
          (case dict_get d ''stage'' of
             None \<Rightarrow> None
           | Some st \<Rightarrow>
               if st \<noteq> PStr stage then staged stage es
               else (case dict_get d ''event'' of
                   Some (PDict ev) \<Rightarrow> map_option ((#) ev) (staged stage es)
                 | _ \<Rightarrow> None))
      | _ \<Rightarrow> None)"

definition recorded_by_stage :: "pydict \<Rightarrow> string \<Rightarrow> pydict list option" where
  "recorded_by_stage bundle stage =
     (case dict_get bundle ''events'' of Some (PList es) \<Rightarrow> staged stage es | _ \<Rightarrow> None)"

text \<open>\<open>{event.get("request_id"): event ...}\<close>: the last event of a key, at its first place.\<close>

definition by_request :: "pydict list \<Rightarrow> (pyval \<times> pydict) list" where
  "by_request evs = fold (\<lambda>e m. let k = get_or_none e ''request_id''
     in if k \<in> fst ` set m then map (\<lambda>(j, x). (j, if j = k then e else x)) m else m @ [(k, e)]) evs []"

definition or_value :: "pyval \<Rightarrow> pyval \<Rightarrow> pyval" where
  "or_value v w = (if py_truthy v then v else w)"

definition replayed_principal :: "pyval \<Rightarrow> string \<Rightarrow> pyval \<Rightarrow> pyval \<Rightarrow> pyval" where
  "replayed_principal who kind role tenant =
     PDict [(''principal_id'', who), (''principal_type'', PStr kind), (''role'', role), (''tenant_id'', tenant)]"

definition tool_context :: "pydict \<Rightarrow> pydict option" where
  "tool_context recorded =
     (case get_or recorded ''context'' (PDict []) of
        PDict c \<Rightarrow>
          (let tenant = or_value (get_or_none c ''tenant_id'') (PStr ''replay'');
               user = get_or_none c ''user_id''; agent = get_or_none c ''agent_id''
           in Some ([(''trace_id'', or_value (get_or_none recorded ''trace_id'') (PStr ''replay'')),
                (''task_id'', get_or_none c ''task_id''), (''user_role'', get_or_none c ''user_role''),
                (''data_labels'', get_or c ''data_labels'' (PList [])),
                (''data_scopes'', get_or c ''data_scopes'' (PList [])),
                (''authorized_recipients'', get_or c ''authorized_recipients'' (PList [])),
                (''authorized_domains'', get_or c ''authorized_domains'' (PList [])),
                (''task_step'', get_or c ''task_step'' (PInt 0))] @
               (if py_truthy user then [(''user'', replayed_principal user ''user''
                   (or_value (get_or_none c ''user_role'') (PStr ''staff'')) tenant)] else []) @
               (if py_truthy agent then [(''agent'', replayed_principal agent ''agent''
                   (or_value (get_or_none c ''agent_role'') (PStr ''orchestrator'')) tenant)] else [])))
      | _ \<Rightarrow> None)"

datatype replay_difference =
    Bundle_Issue bundle_issue
  | Missing_Input_Detection
  | Input_Decision_Mismatch string
  | Missing_Tool_Decision pyval
  | Tool_Decision_Mismatch pyval

definition decision_fields :: "policy_decision \<Rightarrow> pydict" where
  "decision_fields d =
     [(''decision'', PStr (decision_value (decision d))), (''risk_level'', PStr (risk_value (risk_level d))),
      (''policy_hit'', PStr (policy_hit d)), (''policy_version'', PStr (policy_version d))]"

definition policy_text :: "pydict \<Rightarrow> pyval \<Rightarrow> string option" where
  "policy_text bundle version =
     (case dict_get bundle ''policy_snapshots'' of
        Some (PDict snaps) \<Rightarrow>
          (let named = get_or_none snaps (''mcp_tool_policy:'' @ py_str version);
               chosen = (if py_truthy named then Some named else dict_get snaps ''mcp_tool_policy'')
           in case chosen of
                Some (PDict s) \<Rightarrow> (case dict_get s ''content'' of Some (PStr t) \<Rightarrow> Some t | _ \<Rightarrow> None)
              | _ \<Rightarrow> None)
      | _ \<Rightarrow> None)"

text \<open>One recorded call decided again under the policy text of the bundle.\<close>

definition redecide :: "replay_env \<Rightarrow> pydict \<Rightarrow> pydict \<Rightarrow> pydict \<Rightarrow> policy_decision option" where
  "redecide env bundle request recorded =
     (case (policy_text bundle (or_value (get_or_none recorded ''policy_version'') (PStr default_stable_version)),
            tool_context request, dict_get request ''tool_name'') of
        (Some text, Some ctx, Some tool) \<Rightarrow>
          (case (re_policy env text, re_request env tool (get_or request ''tool_args'' (PDict [])) ctx) of
             (Some pol, Some req) \<Rightarrow>
               (case check_tool_call (re_dir env) (ae_sha (re_audit env)) (re_releases env) (Some pol) req of
                  Inl _ \<Rightarrow> None
                | Inr d \<Rightarrow> Some d)
           | _ \<Rightarrow> None)
      | _ \<Rightarrow> None)"

definition same_decision :: "pydict \<Rightarrow> pydict \<Rightarrow> bool" where
  "same_decision replayed recorded \<longleftrightarrow>
     list_all (\<lambda>f. py_eq (get_or_none replayed f) (get_or_none recorded f))
       [''decision'', ''risk_level'', ''policy_hit'', ''policy_version'']"

fun replay_requests ::
    "replay_env \<Rightarrow> pydict \<Rightarrow> (pyval \<times> pydict) list \<Rightarrow> (pyval \<times> pydict) list \<Rightarrow>
     ((pyval \<times> bool) list \<times> replay_difference list) option" where
  "replay_requests env bundle decisions [] = Some ([], [])"
| "replay_requests env bundle decisions ((k, request) # rs) =
     (case replay_requests env bundle decisions rs of
        None \<Rightarrow> None
      | Some (results, found) \<Rightarrow>
          (case (if py_truthy k then map_of decisions k else None) of
             None \<Rightarrow> Some (results, Missing_Tool_Decision k # found)
           | Some recorded \<Rightarrow>
               (case redecide env bundle request recorded of
                  None \<Rightarrow> None
                | Some d \<Rightarrow>
                    (let match = same_decision (decision_fields d) recorded
                     in Some ((k, match) # results,
                          (if match then [] else [Tool_Decision_Mismatch k]) @ found)))))"

definition replay_tools ::
    "replay_env \<Rightarrow> pydict \<Rightarrow> ((pyval \<times> bool) list \<times> replay_difference list) option" where
  "replay_tools env bundle =
     (case (recorded_by_stage bundle ''tool_request'', recorded_by_stage bundle ''tool_decision'') of
        (Some rq, Some ds) \<Rightarrow> replay_requests env bundle (by_request ds) (by_request rq)
      | _ \<Rightarrow> None)"

definition replay_input :: "replay_env \<Rightarrow> pydict \<Rightarrow> (bool option \<times> replay_difference list) option" where
  "replay_input env bundle =
     (case recorded_by_stage bundle ''input_detection'' of
        None \<Rightarrow> None
      | Some [] \<Rightarrow> Some (None, [Missing_Input_Detection])
      | Some evs \<Rightarrow>
          (case (dict_get bundle ''input'', dict_get bundle ''trace_id'') of
             (Some (PDict inp), Some (PStr session)) \<Rightarrow>
               (case (dict_get inp ''user_input'', get_or inp ''trace_context'' (PDict [])) of
                  (Some text, PDict ctx) \<Rightarrow>
                    (case re_analyze env session text (get_or ctx ''document_text'' (PStr []))
                            (get_or ctx ''document_source'' (PStr ''uploaded_doc'')) of
                       None \<Rightarrow> None
                     | Some replayed \<Rightarrow>
                         (let found = map Input_Decision_Mismatch
                            (filter (\<lambda>f. \<not> py_eq (get_or_none (last evs) f) (get_or_none replayed f))
                              [''risk_type'', ''risk_level'', ''action'', ''policy_version'', ''classifier_model_version''])
                          in Some (Some (found = []), found)))
                | _ \<Rightarrow> None)
           | _ \<Rightarrow> None))"

record replay_result =
  rr_reproducible :: bool
  rr_bundle :: "bundle_issue list"
  rr_chain :: bool
  rr_input :: "bool option"
  rr_tools :: "(pyval \<times> bool) list"
  rr_differences :: "replay_difference list"

definition chain_valid :: "replay_env \<Rightarrow> string \<Rightarrow> pydict \<Rightarrow> audit_db \<Rightarrow> bool option" where
  "chain_valid env tid bundle db =
     (if get_or_none bundle ''trace_id'' = PStr tid
        then (case verify_trace (re_audit env) tid db of Inl _ \<Rightarrow> None | Inr v \<Rightarrow> Some (vd_valid v))
      else Some False)"

definition replay_bundle :: "replay_env \<Rightarrow> string \<Rightarrow> pydict \<Rightarrow> audit_db \<Rightarrow> replay_result option" where
  "replay_bundle env tid bundle db =
     (case (verify_replay_bundle env bundle, chain_valid env tid bundle db) of
        (Some issues, Some chain) \<Rightarrow>
          if issues \<noteq> []
            then Some \<lparr>rr_reproducible = False, rr_bundle = issues, rr_chain = chain, rr_input = None,
                   rr_tools = [], rr_differences = map Bundle_Issue issues\<rparr>
          else (case (replay_input env bundle, replay_tools env bundle) of
              (Some (inp, d1), Some (tools, d2)) \<Rightarrow>
                Some \<lparr>rr_reproducible = (chain \<and> d1 @ d2 = []), rr_bundle = [], rr_chain = chain,
                  rr_input = inp, rr_tools = tools, rr_differences = d1 @ d2\<rparr>
            | _ \<Rightarrow> None)
      | _ \<Rightarrow> None)"

definition replay_trace ::
    "replay_env \<Rightarrow> string \<Rightarrow> pydict option \<Rightarrow> string \<Rightarrow> audit_db \<Rightarrow> replay_result option" where
  "replay_trace env tid bundle now db =
     (case bundle of
        Some (b # bs) \<Rightarrow> replay_bundle env tid (b # bs) db
      | _ \<Rightarrow>
          (case create_replay_bundle env tid now db of
             Inl _ \<Rightarrow> None
           | Inr b \<Rightarrow> replay_bundle env tid b db))"

end
