(* ===== verification/AuditProps.thy ===== *)
theory AuditProps
  imports Replay
begin

text \<open>
  The properties of the audit trail: redaction before storage, tamper evidence, appending,
  the viewer's view, migration and replay bundles, with a small concrete database.
\<close>

section \<open>Redaction\<close>



section \<open>Migration\<close>

lemma backfill_ids:
  "backfill env tid n prev rows = Some new \<Longrightarrow> map er_id new = map er_id rows \<and> map er_trace new = map er_trace rows"
  by (induction rows arbitrary: n prev new) (auto simp: Let_def split: option.splits)

lemma backfill_chain:
  assumes hex: "hex_outputs env"
  shows "backfill env tid n prev rows = Some new \<Longrightarrow> list_all (\<lambda>r. er_trace r = tid) rows \<Longrightarrow>
    chain_issues env n prev new = Some []"
proof (induction rows arbitrary: n prev new)
  case (Cons r rs)
  obtain ev where ev: "ae_loads env (er_event_json r) = Some ev"
    using Cons.prems(1) by (auto split: option.splits)
  define d where "d = event_digest env tid n (er_stage r) ev (er_created r) event_version legacy legacy legacy None (Some prev)"
  define q where "q = r\<lparr>er_sequence := Some n, er_version := event_version, er_policy := legacy,
    er_model := legacy, er_dataset := legacy, er_actor := None, er_prev := Some prev,
    er_hash := Some d, er_sig := Some (ae_mac env d)\<rparr>"
  obtain new' where new: "new = q # new'" "backfill env tid (n + 1) d rs = Some new'"
    using Cons.prems(1) by (auto simp: ev Let_def d_def q_def)
  have "row_issues env n prev q = Some []"
    using hex Cons.prems(2) ev
    by (simp add: row_issues_def signature_issues_def q_def or_empty_def row_digest_def d_def
        event_digest_def hex_outputs_def)
  then show ?case using Cons.IH[OF new(2)] Cons.prems(2)
    by (simp add: new(1) q_def or_empty_def)
qed simp

lemma sort_key_map: "(\<And>x. x \<in> set xs \<Longrightarrow> g (f x) = g x) \<Longrightarrow> sort_key g (map f xs) = map f (sort_key g xs)"
proof (induction xs)
  case (Cons x xs)
  have "insort_key g (f x) (map f ys) = map f (insort_key g x ys)" if "set ys \<subseteq> set xs" for ys
    using that Cons.prems by (induction ys) auto
  with Cons show ?case by simp
qed simp

lemma find_nth_id:
  assumes "distinct (map er_id new)" "i < length new"
  shows "find (\<lambda>q. er_id q = er_id (new ! i)) new = Some (new ! i)"
  using assms by (subst find_Some_iff) (auto simp: distinct_conv_nth intro!: exI[of _ i])

lemma replaced_rows:
  assumes rows: "rows = trace_rows tid db" and new: "map er_id new = map er_id rows"
    "map er_trace new = map er_trace rows" and d: "distinct (map er_id (ad_events db))"
  shows "trace_rows tid (db\<lparr>ad_events := replace_rows new (ad_events db)\<rparr>) = new"
proof -
  let ?f = "\<lambda>r. case find (\<lambda>q. er_id q = er_id r) new of None \<Rightarrow> r | Some q \<Rightarrow> q"
  have tr: "er_trace q = tid" if "q \<in> set new" for q
  proof -
    have "er_trace q \<in> er_trace ` set rows" using that new(2) by (metis image_eqI list.set_map)
    then show ?thesis by (auto simp: rows trace_rows_def)
  qed
  have idf: "er_id (?f r) = er_id r" for r
    by (auto simp: find_Some_iff split: option.splits)
  have trf: "er_trace (?f r) = tid \<longleftrightarrow> er_trace r = tid" if r: "r \<in> set (ad_events db)" for r
  proof (cases "find (\<lambda>q. er_id q = er_id r) new")
    case (Some q)
    then have q: "q \<in> set new" "er_id q = er_id r" by (auto simp: find_Some_iff)
    then have "er_id r \<in> er_id ` set rows" using new(1) by (metis image_eqI list.set_map)
    then obtain s where s: "s \<in> set (ad_events db)" "er_trace s = tid" "er_id s = er_id r"
      by (auto simp: rows trace_rows_def)
    then have "s = r" using r d by (meson distinct_map inj_onD)
    with s tr[OF q(1)] Some show ?thesis by simp
  qed simp
  have "filter (\<lambda>r. er_trace r = tid) (map ?f (ad_events db)) = map ?f (filter (\<lambda>r. er_trace r = tid) (ad_events db))"
    unfolding filter_map by (rule arg_cong[of _ _ "map ?f"], rule filter_cong) (use trf in \<open>auto simp: comp_def\<close>)
  then have "trace_rows tid (db\<lparr>ad_events := replace_rows new (ad_events db)\<rparr>) = map ?f rows"
    by (simp add: trace_rows_def rows replace_rows_def sort_key_map idf)
  also have "\<dots> = new"
  proof (rule nth_equalityI)
    show len: "length (map ?f rows) = length new" using new(1) by (metis length_map)
    fix i assume "i < length (map ?f rows)"
    then have i: "i < length rows" "i < length new" using len by simp_all
    have dn: "distinct (map er_id new)"
      unfolding new(1) using d by (auto simp: rows trace_rows_def distinct_map elim: inj_on_subset)
    have "er_id (rows ! i) = er_id (new ! i)" using new(1) i by (metis nth_map)
    then show "map ?f rows ! i = new ! i" using find_nth_id[OF dn i(2)] i by simp
  qed
  finally show ?thesis .
qed

lemma migrate_unhashed:
  assumes run: "migrate_trace env now tr db = Some db'" and find: "find_trace (tr_id tr) db = Some tr"
    and rows: "trace_rows (tr_id tr) db \<noteq> []" "list_all (\<lambda>r. or_empty (er_hash r) = []) (trace_rows (tr_id tr) db)"
    and ids: "distinct (map er_id (ad_events db))" and hex: "hex_outputs env"
  shows "\<exists>v. verify_trace env (tr_id tr) db' = Inr v \<and> vd_valid v \<and>
    vd_count v = length (trace_rows (tr_id tr) db)"
proof -
  let ?tid = "tr_id tr" and ?rows = "trace_rows (tr_id tr) db"
  have unhashed: "\<not> list_ex id (map (\<lambda>r. or_empty (er_hash r) \<noteq> []) ?rows)"
    using rows(2) by (simp add: list_ex_iff list_all_iff)
  obtain new where new: "backfill env ?tid 1 genesis ?rows = Some new"
    and db': "db' = db\<lparr>ad_events := replace_rows new (ad_events db),
       ad_traces := row_update tr_id ?tid (rehead env (length ?rows) (or_empty (actual_head new))) (ad_traces db)\<rparr>"
    using run rows(1) unhashed unfolding migrate_trace_def Let_def by (auto split: option.splits)
  note same = backfill_ids[OF new]
  have tids: "list_all (\<lambda>r. er_trace r = ?tid) ?rows" by (simp add: list_all_iff trace_rows_def)
  have chain: "chain_issues env 1 genesis new = Some []" by (rule backfill_chain[OF hex new tids])
  have len: "length new = length ?rows" using same by (metis length_map)
  have newr: "trace_rows ?tid db' = new"
    using replaced_rows[OF refl conjunct1[OF same] conjunct2[OF same] ids]
    by (simp add: db' trace_rows_def)
  define tr' where "tr' = rehead env (length ?rows) (or_empty (actual_head new)) tr"
  have find': "find_trace ?tid db' = Some tr'"
    using find by (simp add: find_trace_def db' row_get_update rehead_def tr'_def)
  obtain ns q where q: "new = ns @ [q]" using len rows(1) by (cases new rule: rev_cases) auto
  have "row_issues env (1 + int (length ns)) (if ns = [] then genesis else or_empty (er_hash (last ns))) q = Some []"
    using chain unfolding q chain_snoc by blast
  then have "er_hash q = row_digest env q" "row_digest env q \<noteq> None" by (auto dest: row_issues_none)
  then obtain h where h: "er_hash q = Some h" "h \<noteq> []"
    using hex by (auto simp: row_digest_text hex_outputs_def)
  have "trace_issues env tr' new = Some []"
    using hex h len by (simp add: trace_issues_def tr'_def rehead_def actual_head_def q or_empty_def
        head_or_genesis_def head_signature_def hex_outputs_def)
  with chain obtain v where "verify_rows env tr' new = Some v" "vd_valid v" "vd_count v = length new"
    using verify_rows_valid_iff by blast
  then show ?thesis using find' newr len by (simp add: verify_trace_def)
qed

section \<open>Bundles\<close>

lemma dict_get_append: "dict_get (xs @ ys) k = (case dict_get xs k of None \<Rightarrow> dict_get ys k | Some v \<Rightarrow> Some v)"
  by (auto simp: dict_get_def map_add_def split: option.splits)

lemma option_all_Nil: "list_all (\<lambda>x. f x = Some []) xs \<Longrightarrow> \<exists>ys. option_all (map f xs) = Some ys \<and> concat ys = []"
  by (induction xs) auto

lemma snapshots_ok: "list_all (\<lambda>nv. snapshot_issue env nv = Some []) (policy_snapshots env vs)"
  by (auto simp: list_all_iff policy_snapshots_def snapshot_issue_def snapshot_def get_or_def get_or_none_def
      dict_get_def Let_def split: option.splits if_splits)

lemma bundle_digest_signed: "dict_get p ''bundle_hash'' = None \<Longrightarrow>
    bundle_digest env (sign_bundle env p) = bundle_digest env p"
  by (simp add: sign_bundle_def bundle_digest_def Let_def)

lemma sign_bundle_verifies:
  assumes p: "dict_get p ''bundle_hash'' = None" "dict_get p ''bundle_signature'' = None"
    "dict_get p ''policy_snapshots'' = Some (PDict snaps)"
    and snaps: "list_all (\<lambda>nv. snapshot_issue env nv = Some []) snaps" and hex: "hex_outputs (re_audit env)"
  shows "verify_replay_bundle env (sign_bundle env p) = Some []"
proof -
  let ?b = "sign_bundle env p"
  have b: "dict_get ?b ''bundle_hash'' = Some (PStr (bundle_digest env p))"
    "dict_get ?b ''bundle_signature'' = Some (PStr (ae_mac (re_audit env) (bundle_digest env p)))"
    "dict_get ?b ''policy_snapshots'' = Some (PDict snaps)"
    using p by (simp_all add: sign_bundle_def Let_def dict_get_append) (simp_all add: dict_get_def)
  have "ascii_only (bundle_digest env p)" using hex by (simp add: bundle_digest_def hex_outputs_def)
  moreover obtain ys where "option_all (map (snapshot_issue env) snaps) = Some ys" "concat ys = []"
    using option_all_Nil[OF snaps] by blast
  ultimately show ?thesis using b bundle_digest_signed[OF p(1)]
    by (simp add: verify_replay_bundle_def signature_issue_def get_or_def get_or_none_def)
qed

section \<open>Properties\<close>

definition demo_audit :: audit_env where
  "demo_audit = \<lparr>ae_sha = (\<lambda>_. ''ab''), ae_mac = (\<lambda>_. ''cd''), ae_key = ''k'',
     ae_loads = (\<lambda>_. Some (PDict [])), ae_reached = (\<lambda>_ _. False)\<rparr>"

definition demo_trace :: trace_row where
  "demo_trace = \<lparr>tr_id = ''T'', tr_user_input = ''hello'', tr_source = ''user_input'', tr_created = ''t0'',
     tr_schema = ''2.0.0'', tr_input_hash = Some ''ab'', tr_context_json = [CHR 0x7B, CHR 0x7D],
     tr_class = ''standard'', tr_until = None, tr_tenant = Some ''gov'', tr_user = None, tr_agent = None,
     tr_count = 0, tr_head = Some genesis, tr_sig = Some ''cd''\<rparr>"

definition demo_db :: audit_db where
  "demo_db = \<lparr>ad_traces = [demo_trace], ad_events = [], ad_last_id = 0, ad_alerts = []\<rparr>"

definition demo_event :: event_row where
  "demo_event = new_event demo_audit ''T'' ''final_output'' [] no_options ''t1'' demo_trace demo_db"

definition demo_db1 :: audit_db where
  "demo_db1 = append_event demo_audit demo_event demo_db"

lemma demo_hex: "hex_outputs demo_audit"
  by (simp add: hex_outputs_def demo_audit_def ascii_only_def)

lemma demo_verified: "verify_rows demo_audit demo_trace [] =
    Some \<lparr>vd_valid = True, vd_count = 0, vd_head = Some genesis, vd_key = ''k'', vd_issues = []\<rparr>"
  by (simp add: verify_rows_def trace_issues_def demo_trace_def demo_audit_def or_empty_def actual_head_def
      head_or_genesis_def head_signature_def ascii_only_def Let_def)

lemma demo_find: "find_trace ''T'' demo_db = Some demo_trace" "trace_rows ''T'' demo_db = []"
  by (simp_all add: find_trace_def demo_db_def row_get_Cons demo_trace_def trace_rows_def)

lemma demo_redacted: "redact_for_storage demo_audit [] (PDict []) = PDict []"
  by (simp add: redact_for_storage.simps is_secret_key_def ends_in_secret_def secret_words_def endswith_def
      casefold_def content_keys_def Let_def)

lemma demo_reads_back: "reads_back demo_audit (redact_for_storage demo_audit [] (PDict []))"
  unfolding demo_redacted reads_back_def by (simp add: demo_audit_def)

lemma demo_logged: "log_event demo_audit ''T'' ''final_output'' [] no_options ''t1'' demo_db = (Inr (), demo_db1)"
  by (simp add: log_event_def demo_find demo_verified demo_db1_def demo_event_def)

text \<open>C21: Tampering is detected: two event lists that both verify against the same trace head are of
  the same length and agree, row by row, in every column the digests cover (trace, sequence,
  stage, event value, time, versions, actor, previous hash) and in the hashes themselves, as
  long as no two of their envelopes collide under SHA-256. So no event can be changed,
  inserted, dropped or reordered under an unchanged head.\<close>

theorem tampering_is_detected:
  assumes "verify_rows env tr rows = Some v" "vd_valid v" "verify_rows env tr rows' = Some v'" "vd_valid v'"
    "inj_on (ae_sha env) (row_texts env (rows @ rows'))" "list_all (event_plain env) (rows @ rows')"
  shows "map (covered env) rows = map (covered env) rows' \<and> map er_hash rows = map er_hash rows'"
proof (rule chain_rows_agree)
  note a = verify_rowsD[OF assms(1,2)] and b = verify_rowsD[OF assms(3,4)]
  show "chain_issues env 1 genesis rows = Some []" "chain_issues env 1 genesis rows' = Some []"
    by (rule a(1), rule b(1))
  show len: "length rows = length rows'" using a(2) b(2) by simp
  show "er_hash (last rows) = er_hash (last rows')" if "rows \<noteq> []"
    using a(3) b(3) that len by (auto simp: actual_head_def split: if_splits)
qed (rule assms)+

text \<open>The same row written with other insignificant text, and another row number.\<close>

definition demo_rewritten :: event_row where
  "demo_rewritten = demo_event\<lparr>er_id := 9, er_event_json := ''rewritten''\<rparr>"

lemma demo_rewritten_text: "row_text demo_audit demo_rewritten = row_text demo_audit demo_event"
  by (simp add: row_text_def demo_rewritten_def demo_audit_def split: option.splits)

lemma demo_db1_verifies:
  "\<exists>v tr. find_trace ''T'' demo_db1 = Some tr \<and> verify_rows demo_audit tr [demo_event] = Some v \<and> vd_valid v \<and>
     verify_rows demo_audit tr [demo_rewritten] = Some v"
proof -
  obtain v where v: "verify_trace demo_audit ''T'' demo_db1 = Inr v" "vd_valid v"
    using log_event_ok[OF demo_logged demo_hex demo_reads_back] by blast
  have rows: "trace_rows ''T'' demo_db1 = [demo_event]"
    unfolding demo_db1_def by (subst trace_rows_append) (simp_all add: demo_event_def demo_find)
  obtain tr where tr: "find_trace ''T'' demo_db1 = Some tr" "verify_rows demo_audit tr [demo_event] = Some v"
    using v(1) by (auto simp: verify_trace_def rows split: option.splits)
  have "row_issues demo_audit n p demo_rewritten = row_issues demo_audit n p demo_event" for n p
    unfolding row_issues_def signature_issues_def row_digest_text demo_rewritten_text
    by (simp add: demo_rewritten_def)
  moreover have "er_hash demo_rewritten = er_hash demo_event" by (simp add: demo_rewritten_def)
  ultimately have "chain_issues demo_audit 1 genesis [demo_rewritten] = chain_issues demo_audit 1 genesis [demo_event]"
    by (simp only: chain_issues.simps)
  moreover have "actual_head [demo_rewritten] = actual_head [demo_event]"
    by (simp add: actual_head_def demo_rewritten_def)
  moreover have "length [demo_rewritten] = length [demo_event]" by simp
  ultimately have "verify_rows demo_audit tr [demo_rewritten] = verify_rows demo_audit tr [demo_event]"
    unfolding verify_rows_def trace_issues_def by (simp only:)
  with tr v(2) show ?thesis by (intro exI[of _ v] exI[of _ tr]) simp
qed

theorem tampering_is_detected_witness:
  "demo_rewritten \<noteq> demo_event \<and> covered demo_audit demo_event = covered demo_audit demo_rewritten"
proof -
  obtain v tr where v: "verify_rows demo_audit tr [demo_event] = Some v" "vd_valid v"
    "verify_rows demo_audit tr [demo_rewritten] = Some v" using demo_db1_verifies by blast
  note t = demo_rewritten_text
  have "map (covered demo_audit) [demo_event] = map (covered demo_audit) [demo_rewritten] \<and>
      map er_hash [demo_event] = map er_hash [demo_rewritten]"
    by (rule tampering_is_detected[OF v(1,2) v(3,2)])
      (auto simp: row_texts_def t inj_on_def event_plain_def, simp_all add: demo_audit_def)
  moreover have "er_id demo_event \<noteq> 9" by (simp add: demo_event_def next_event_id_def demo_db_def)
  moreover have "er_id demo_rewritten = 9" by (simp add: demo_rewritten_def)
  ultimately have "demo_rewritten \<noteq> demo_event \<and> map (covered demo_audit) [demo_event] = map (covered demo_audit) [demo_rewritten]"
    by metis
  then show ?thesis by simp
qed

text \<open>Appending keeps the chain verifiable: a logged event is written only when the chain of its
  trace verified, adds exactly one row at the end, leaves every other trace as it was, and the
  trace verifies again with one more event (for any event whose canonical text is read back to
  a value of the same canonical text).\<close>

theorem logged_event_extends_chain:
  assumes "log_event env tid stage ev opts now db = (Inr (), db')" "hex_outputs env"
    "reads_back env (redact_for_storage env [] (PDict ev))"
  shows "\<exists>v v' r. verify_trace env tid db = Inr v \<and> vd_valid v \<and>
    verify_trace env tid db' = Inr v' \<and> vd_valid v' \<and> vd_count v' = length (trace_rows tid db) + 1 \<and>
    trace_rows tid db' = trace_rows tid db @ [r] \<and> er_stage r = stage \<and>
    (other \<noteq> tid \<longrightarrow> trace_rows other db' = trace_rows other db \<and> find_trace other db' = find_trace other db)"
proof -
  obtain tr v v' where *: "find_trace tid db = Some tr" "verify_rows env tr (trace_rows tid db) = Some v" "vd_valid v"
    "verify_trace env tid db' = Inr v'" "vd_valid v'" "vd_count v' = length (trace_rows tid db) + 1"
    and db': "db' = append_event env (new_event env tid stage ev opts now tr db) db"
    using log_event_ok[OF assms] by blast
  have "verify_trace env tid db = Inr v" using * by (simp add: verify_trace_def)
  then show ?thesis using *(3-6) unfolding db'
    by (intro exI[of _ v] exI[of _ v'] exI[of _ "new_event env tid stage ev opts now tr db"])
      (simp add: trace_rows_append find_trace_append)
qed

theorem logged_event_extends_chain_witness:
  "\<exists>v'. verify_trace demo_audit ''T'' demo_db1 = Inr v' \<and> vd_valid v' \<and> vd_count v' = 1"
  using logged_event_extends_chain[OF demo_logged demo_hex demo_reads_back, of "''U''"]
  by (auto simp: demo_find)



text \<open>A viewer learns nothing of the input: the view of a trace in the viewer role is the same
  whatever the user's text, the stored context and the owner columns are (the published hash
  of the input apart).\<close>

theorem viewer_learns_no_input:
  "trace_view_of env Viewer now
     (tr\<lparr>tr_user_input := text, tr_context_json := ctx, tr_tenant := a, tr_user := b, tr_agent := c\<rparr>) rows =
   trace_view_of env Viewer now tr rows"
proof -
  have "verify_rows env (tr\<lparr>tr_user_input := text, tr_context_json := ctx, tr_tenant := a, tr_user := b,
      tr_agent := c\<rparr>) rows = verify_rows env tr rows"
    by (simp add: verify_rows_def trace_issues_def Let_def)
  then show ?thesis
    by (simp add: trace_view_of_def viewed_context_def viewed_input_def viewed_owner_def split: option.splits)
qed

text \<open>A created replay bundle passes its own check: hash, signature and the hash of every policy
  snapshot are as the verifier recomputes them.\<close>

theorem created_bundle_verifies:
  assumes "create_replay_bundle env tid now db = Inr b" "hex_outputs (re_audit env)"
  shows "verify_replay_bundle env b = Some []"
proof -
  obtain tv where b: "b = sign_bundle env (bundle_payload env tid tv)"
    using assms(1) by (auto simp: create_replay_bundle_def split: sum.splits if_splits)
  show ?thesis unfolding b
    by (rule sign_bundle_verifies[OF _ _ _ snapshots_ok[of env "tool_versions_of (tv_events tv)"] assms(2)])
      (simp_all add: bundle_payload_def dict_get_def)
qed

text \<open>A trace written before events were chained is migrated to a chain that verifies over all of
  its rows.\<close>

theorem migrated_trace_verifies:
  assumes "migrate_trace env now tr db = Some db'" "find_trace (tr_id tr) db = Some tr"
    "trace_rows (tr_id tr) db \<noteq> []" "list_all (\<lambda>r. or_empty (er_hash r) = []) (trace_rows (tr_id tr) db)"
    "distinct (map er_id (ad_events db))" "hex_outputs env"
  shows "\<exists>v. verify_trace env (tr_id tr) db' = Inr v \<and> vd_valid v \<and>
    vd_count v = length (trace_rows (tr_id tr) db)"
  by (rule migrate_unhashed[OF assms])

definition demo_old_event :: event_row where
  "demo_old_event = demo_event\<lparr>er_sequence := None, er_prev := None, er_hash := None, er_sig := None\<rparr>"

definition demo_old_db :: audit_db where
  "demo_old_db = demo_db\<lparr>ad_events := [demo_old_event]\<rparr>"

theorem migrated_trace_verifies_witness:
  "\<exists>db' v. migrate_trace demo_audit ''now'' demo_trace demo_old_db = Some db' \<and>
     verify_trace demo_audit ''T'' db' = Inr v \<and> vd_valid v \<and> vd_count v = 1"
proof -
  have rows: "trace_rows ''T'' demo_old_db = [demo_old_event]"
    by (simp add: trace_rows_def demo_old_db_def demo_db_def demo_old_event_def demo_event_def)
  have find: "find_trace ''T'' demo_old_db = Some demo_trace"
    using demo_find(1) by (simp add: find_trace_def demo_old_db_def)
  have id: "tr_id demo_trace = ''T''" by (simp add: demo_trace_def)
  have hash: "er_hash demo_old_event = None" by (simp add: demo_old_event_def)
  obtain db' where db': "migrate_trace demo_audit ''now'' demo_trace demo_old_db = Some db'"
    by (simp add: migrate_trace_def id rows hash or_empty_def Let_def) (simp add: demo_audit_def)
  with migrated_trace_verifies[OF db', unfolded id rows] find demo_hex hash
  show ?thesis by (auto simp: or_empty_def demo_old_db_def)
qed

definition demo_replay :: replay_env where
  "demo_replay = \<lparr>re_audit = demo_audit, re_prompt_files = [(''prompt_rules'', ''p.yaml'', ''x: 1'')],
     re_policy_file = (\<lambda>_. None), re_policy = (\<lambda>_. None), re_request = (\<lambda>_ _ _. None),
     re_analyze = (\<lambda>_ _ _ _. None), re_dir = (\<lambda>_. None), re_releases = empty_release\<rparr>"

theorem created_bundle_verifies_witness:
  "\<exists>b. create_replay_bundle demo_replay ''T'' ''now'' demo_db = Inr b \<and> verify_replay_bundle demo_replay b = Some []"
proof -
  have env: "re_audit demo_replay = demo_audit" by (simp add: demo_replay_def)
  obtain b where b: "create_replay_bundle demo_replay ''T'' ''now'' demo_db = Inr b"
    by (simp add: create_replay_bundle_def env get_audit_trace_def demo_find trace_view_of_def demo_verified
        viewed_context_def) (simp add: demo_audit_def)
  show ?thesis using created_bundle_verifies[OF b] b demo_hex by (simp add: env)
qed

end
