(* ===== verification/ModelContracts.thy ===== *)
theory ModelContracts
  imports Contracts Complex_Main
begin

text \<open>
  The contracts and the registry of the model gateway
  (\<^verbatim>\<open>safeagent_gov/model_gateway/contracts.py\<close>, \<open>registry.py\<close>). Prices, costs and
  temperatures are exact rationals where the code has binary floats; seconds are
  milliseconds. The YAML reader with the pydantic coercions, and SHA-256, are arguments.
\<close>

section \<open>Enumerations\<close>

datatype provider_protocol =
    Internal_Protocol | OpenAI_Chat | OpenAI_Responses | Anthropic_Messages | Gemini_Generate_Content
  | Azure_OpenAI | AWS_Bedrock | Vertex_AI | Ollama_Chat | VLLM_OpenAI

datatype capability = Chat | Structured_Output | Long_Context | Tool_Planning | Code

datatype classification = Public_Data | Internal_Data | Confidential_Data | Restricted_Data

datatype message_role = System_Role | User_Role | Assistant_Role

section \<open>Requests\<close>

record model_message =
  mm_role :: message_role
  mm_content :: string

record model_request =
  mr_messages :: "model_message list"
  mr_task :: string
  mr_provider :: "string option"
  mr_max_output :: nat
  mr_temperature :: rat
  mr_capabilities :: "capability list"
  mr_class :: classification
  mr_private :: bool
  mr_fallback :: bool
  mr_cache :: bool
  mr_max_cost :: "rat option"

text \<open>\<open>[a-z][a-z0-9_]{1,63}\<close> and \<open>[a-z0-9][a-z0-9-]{1,79}\<close>; pydantic's \<open>$\<close> is the end of the text.\<close>

definition task_name :: "string \<Rightarrow> bool" where
  "task_name s \<longleftrightarrow> (case s of
     [] \<Rightarrow> False
   | c # t \<Rightarrow> is_lower c \<and> len_between 1 63 t \<and> list_all (\<lambda>c. is_lower c \<or> is_digit c \<or> c = CHR ''_'') t)"

definition provider_name :: "string \<Rightarrow> bool" where
  "provider_name s \<longleftrightarrow> (case s of
     [] \<Rightarrow> False
   | c # t \<Rightarrow> (is_lower c \<or> is_digit c) \<and> len_between 1 79 t \<and>
       list_all (\<lambda>c. is_lower c \<or> is_digit c \<or> c = CHR ''-'') t)"

definition valid_message :: "model_message \<Rightarrow> bool" where
  "valid_message m \<longleftrightarrow> len_between 1 200000 (mm_content m)"

definition valid_model_request :: "model_request \<Rightarrow> bool" where
  "valid_model_request r \<longleftrightarrow>
     mr_messages r \<noteq> [] \<and> length (mr_messages r) \<le> 128 \<and> list_all valid_message (mr_messages r) \<and>
     task_name (mr_task r) \<and> opt_all provider_name (mr_provider r) \<and>
     1 \<le> mr_max_output r \<and> mr_max_output r \<le> 32768 \<and> 0 \<le> mr_temperature r \<and> mr_temperature r \<le> 2 \<and>
     opt_all (\<lambda>c. 0 \<le> c \<and> c \<le> 100) (mr_max_cost r) \<and>
     list_ex (\<lambda>m. mm_role m = User_Role) (mr_messages r)"

record call_context =
  mc_trace :: string
  mc_tenant :: string
  mc_actor :: string

definition valid_call_context :: "call_context \<Rightarrow> bool" where
  "valid_call_context c \<longleftrightarrow>
     len_between 1 160 (mc_trace c) \<and> len_between 1 120 (mc_tenant c) \<and> len_between 1 120 (mc_actor c)"

section \<open>Providers and routing rules\<close>

record provider =
  pv_id :: string
  pv_name :: string
  pv_protocol :: provider_protocol
  pv_model :: string
  pv_endpoint :: "string option"
  pv_credential :: "string option"
  pv_enabled :: bool
  pv_network :: bool
  pv_private :: bool
  pv_capabilities :: "capability list"
  pv_tasks :: "string list"
  pv_max_context :: nat
  pv_max_output :: nat
  pv_prompt_cost :: rat
  pv_completion_cost :: rat
  pv_priority :: nat
  pv_timeout_ms :: int
  pv_attempts :: nat
  pv_threshold :: nat
  pv_recovery_ms :: int

definition env_name :: "string \<Rightarrow> bool" where
  "env_name s \<longleftrightarrow> (case s of
     [] \<Rightarrow> False
   | c # t \<Rightarrow> is_upper c \<and> len_between 2 127 t \<and> list_all (\<lambda>c. is_upper c \<or> is_digit c \<or> c = CHR ''_'') t)"

definition transport_boundary :: "provider \<Rightarrow> bool" where
  "transport_boundary p \<longleftrightarrow>
     (if pv_protocol p = Internal_Protocol
        then pv_endpoint p = None \<and> \<not> pv_network p \<and> pv_credential p = None
      else (case pv_endpoint p of
          None \<Rightarrow> False
        | Some e \<Rightarrow> e \<noteq> [] \<and> pv_network p \<and>
            (if startswith e ''http://''
               then (startswith e ''http://127.0.0.1:'' \<or> startswith e ''http://localhost:'') \<and> pv_private p
             else startswith e ''https://'')))"

definition valid_provider :: "provider \<Rightarrow> bool" where
  "valid_provider p \<longleftrightarrow>
     provider_name (pv_id p) \<and> len_between 1 160 (pv_name p) \<and> len_between 1 200 (pv_model p) \<and>
     opt_len 1000 (pv_endpoint p) \<and> opt_all env_name (pv_credential p) \<and>
     256 \<le> pv_max_context p \<and> pv_max_context p \<le> 10000000 \<and>
     1 \<le> pv_max_output p \<and> pv_max_output p \<le> 1000000 \<and>
     0 \<le> pv_prompt_cost p \<and> pv_prompt_cost p \<le> 10000 \<and>
     0 \<le> pv_completion_cost p \<and> pv_completion_cost p \<le> 10000 \<and> pv_priority p \<le> 10000 \<and>
     0 < pv_timeout_ms p \<and> pv_timeout_ms p \<le> 300000 \<and> 1 \<le> pv_attempts p \<and> pv_attempts p \<le> 3 \<and>
     1 \<le> pv_threshold p \<and> pv_threshold p \<le> 100 \<and> 0 < pv_recovery_ms p \<and> pv_recovery_ms p \<le> 3600000 \<and>
     transport_boundary p"

record routing_rule =
  rr_candidates :: "string list"
  rr_capabilities :: "capability list"
  rr_private :: bool
  rr_max_latency_ms :: "int option"

definition valid_rule :: "routing_rule \<Rightarrow> bool" where
  "valid_rule r \<longleftrightarrow> rr_candidates r \<noteq> [] \<and> length (rr_candidates r) \<le> 32 \<and>
     opt_all (\<lambda>l. 1 \<le> l \<and> l \<le> 300000) (rr_max_latency_ms r)"

record model_config =
  mg_version :: string
  mg_default :: string
  mg_concurrency :: nat
  mg_ttl_ms :: int
  mg_max_entries :: nat
  mg_max_cost :: rat
  mg_providers :: "(string \<times> provider) list"
  mg_rules :: "(string \<times> routing_rule) list"

definition version_triple :: "string \<Rightarrow> bool" where
  "version_triple v \<longleftrightarrow> (case split_on CHR ''.'' v of
     [a, b, c] \<Rightarrow> list_all (\<lambda>p. p \<noteq> [] \<and> list_all is_digit p) [a, b, c]
   | _ \<Rightarrow> False)"

definition valid_references :: "model_config \<Rightarrow> bool" where
  "valid_references c \<longleftrightarrow>
     mg_default c \<in> fst ` set (mg_providers c) \<and>
     list_all (\<lambda>(k, p). k = pv_id p) (mg_providers c) \<and>
     list_all (\<lambda>(t, r). t \<noteq> [] \<and> list_all (\<lambda>k. k \<in> fst ` set (mg_providers c)) (rr_candidates r)) (mg_rules c)"

definition valid_model_config :: "model_config \<Rightarrow> bool" where
  "valid_model_config c \<longleftrightarrow>
     version_triple (mg_version c) \<and> provider_name (mg_default c) \<and>
     1 \<le> mg_concurrency c \<and> mg_concurrency c \<le> 1000 \<and> 0 \<le> mg_ttl_ms c \<and> mg_ttl_ms c \<le> 86400000 \<and>
     mg_max_entries c \<le> 100000 \<and> 0 \<le> mg_max_cost c \<and> mg_max_cost c \<le> 1000 \<and>
     mg_providers c \<noteq> [] \<and> length (mg_providers c) \<le> 128 \<and> distinct (map fst (mg_providers c)) \<and>
     list_all (\<lambda>(_, p). valid_provider p) (mg_providers c) \<and>
     list_all (\<lambda>(_, r). valid_rule r) (mg_rules c) \<and> valid_references c"

section \<open>Registry\<close>

record registry_record =
  gr_id :: string
  gr_name :: string
  gr_protocol :: provider_protocol
  gr_model :: string
  gr_enabled :: bool
  gr_private :: bool
  gr_capabilities :: "capability list"
  gr_tasks :: "string list"
  gr_max_context :: nat
  gr_max_output :: nat

record registry_snapshot =
  gs_version :: string
  gs_digest :: string
  gs_default :: string
  gs_count :: nat
  gs_enabled :: nat
  gs_providers :: "registry_record list"

definition registry_record_of :: "provider \<Rightarrow> registry_record" where
  "registry_record_of p =
     \<lparr>gr_id = pv_id p, gr_name = pv_name p, gr_protocol = pv_protocol p, gr_model = pv_model p,
      gr_enabled = pv_enabled p, gr_private = pv_private p, gr_capabilities = pv_capabilities p,
      gr_tasks = pv_tasks p, gr_max_context = pv_max_context p, gr_max_output = pv_max_output p\<rparr>"

definition registry_snapshot_of :: "model_config \<Rightarrow> string \<Rightarrow> registry_snapshot" where
  "registry_snapshot_of c digest =
     (let rs = map registry_record_of (sort_key pv_id (map snd (mg_providers c)))
      in \<lparr>gs_version = mg_version c, gs_digest = digest, gs_default = mg_default c, gs_count = length rs,
          gs_enabled = length (filter gr_enabled rs), gs_providers = rs\<rparr>)"

record registry =
  rg_config :: "model_config option"
  rg_digest :: string

datatype registry_error = Configuration_Error

datatype config_file = Config_Symlink | Config_Unreadable | Config_Text string

text \<open>
  \<open>load\<close>: a rejected file leaves the loaded registry as it is. The reader gives the
  configuration a text denotes, if it is an object of the right shape.
\<close>

definition load_registry ::
    "(string \<Rightarrow> string) \<Rightarrow> (string \<Rightarrow> model_config option) \<Rightarrow> config_file \<Rightarrow>
     (registry, registry_error, registry_snapshot) op" where
  "load_registry sha reader f g =
     (case f of
        Config_Text t \<Rightarrow>
          (case reader t of
             None \<Rightarrow> (Inl Configuration_Error, g)
           | Some c \<Rightarrow>
               if \<not> valid_model_config c then (Inl Configuration_Error, g)
               else (Inr (registry_snapshot_of c (sha t)), \<lparr>rg_config = Some c, rg_digest = sha t\<rparr>))
      | _ \<Rightarrow> (Inl Configuration_Error, g))"

definition registry_config :: "registry \<Rightarrow> registry_error + model_config" where
  "registry_config g = (case rg_config g of None \<Rightarrow> Inl Configuration_Error | Some c \<Rightarrow> Inr c)"

definition get_provider :: "string \<Rightarrow> registry \<Rightarrow> registry_error + provider" where
  "get_provider k g =
     (case rg_config g of
        None \<Rightarrow> Inl Configuration_Error
      | Some c \<Rightarrow> (case map_of (mg_providers c) k of None \<Rightarrow> Inl Configuration_Error | Some p \<Rightarrow> Inr p))"

definition registry_snapshot :: "registry \<Rightarrow> registry_error + registry_snapshot" where
  "registry_snapshot g =
     (case rg_config g of
        None \<Rightarrow> Inl Configuration_Error
      | Some c \<Rightarrow> Inr (registry_snapshot_of c (rg_digest g)))"

text \<open>A loaded registry is valid, and stays loaded and valid whatever file comes next.\<close>

definition registry_ok :: "registry \<Rightarrow> bool" where
  "registry_ok g \<longleftrightarrow> opt_all valid_model_config (rg_config g)"

lemma load_registry_ok:
  "registry_ok g \<Longrightarrow> load_registry sha reader f g = (r, g') \<Longrightarrow>
     registry_ok g' \<and> (rg_config g \<noteq> None \<longrightarrow> rg_config g' \<noteq> None) \<and> (\<not> is_ok r \<longrightarrow> g' = g)"
  by (auto simp: load_registry_def registry_ok_def opt_all_def is_ok_def
      split: config_file.splits option.splits if_splits)

end
