(* ===== verification/ModelGateway.thy ===== *)
theory ModelGateway
  imports ModelContracts
begin

text \<open>
  The model gateway (\<^verbatim>\<open>safeagent_gov/model_gateway/service.py\<close>, \<open>resilience.py\<close>): policy
  routing, budget, circuit breakers, response cache, retries, fallback and audit of one
  \<open>chat\<close> call. Calls run one after the other: the concurrency slot is not modelled. What a
  provider answers, what the audit hook does and what the clock shows are read from the
  environment, by the number of the attempt, of the audit and of the reading in the call.
\<close>

section \<open>Circuit breakers\<close>

record breaker =
  br_threshold :: nat
  br_recovery :: int
  br_failures :: nat
  br_opened :: "int option"
  br_probe :: bool

definition new_breaker :: "nat \<Rightarrow> int \<Rightarrow> breaker" where
  "new_breaker threshold recovery =
     \<lparr>br_threshold = threshold, br_recovery = recovery, br_failures = 0, br_opened = None, br_probe = False\<rparr>"

definition allow_call :: "int \<Rightarrow> breaker \<Rightarrow> bool \<times> breaker" where
  "allow_call now b =
     (case br_opened b of
        None \<Rightarrow> (\<not> br_probe b, b)
      | Some t \<Rightarrow>
          if now - t < br_recovery b then (False, b)
          else if br_probe b then (False, b)
          else (True, b\<lparr>br_opened := None, br_probe := True\<rparr>))"

definition record_success :: "breaker \<Rightarrow> breaker" where
  "record_success b = b\<lparr>br_failures := 0, br_opened := None, br_probe := False\<rparr>"

definition record_failure :: "int \<Rightarrow> breaker \<Rightarrow> breaker" where
  "record_failure now b =
     (let n = br_failures b + 1
      in b\<lparr>br_failures := n, br_probe := False,
           br_opened := (if br_threshold b \<le> n then Some now else br_opened b)\<rparr>)"

datatype circuit_state = Circuit_Open | Circuit_Half_Open | Circuit_Closed

definition circuit_state :: "breaker \<Rightarrow> circuit_state" where
  "circuit_state b =
     (if br_opened b \<noteq> None then Circuit_Open else if br_probe b then Circuit_Half_Open else Circuit_Closed)"

section \<open>Responses and the state\<close>

record provider_result =
  pr_content :: string
  pr_finish :: string
  pr_prompt :: nat
  pr_completion :: nat

record usage =
  us_prompt :: nat
  us_completion :: nat
  us_total :: nat

datatype response_status = Completed_Call | Fallback_Call | Cache_Hit

record model_response =
  ms_request :: string
  ms_trace :: string
  ms_status :: response_status
  ms_provider :: string
  ms_model :: string
  ms_protocol :: provider_protocol
  ms_content :: string
  ms_finish :: string
  ms_usage :: usage
  ms_cost :: rat
  ms_attempts :: nat
  ms_fallback_from :: "string list"
  ms_cached :: bool
  ms_audited :: bool
  ms_trusted :: bool

record counters =
  ct_calls :: nat
  ct_successes :: nat
  ct_failures :: nat
  ct_prompt :: nat
  ct_completion :: nat
  ct_cost :: rat

record model_metrics =
  mx_total :: nat
  mx_success :: nat
  mx_failed :: nat
  mx_fallback :: nat
  mx_hits :: nat
  mx_prompt :: nat
  mx_completion :: nat
  mx_cost :: rat

datatype error_code = Transport_Error | Unavailable_Error | Response_Error | Other_Error string

datatype model_error =
    Unknown_Provider
  | Budget_Exceeded
  | No_Candidate
  | All_Candidates_Failed
  | Raised error_code
  | Audit_Timeout_Error
  | Audit_Hook_Error
  | Gateway_Audit_Failed

datatype model_event =
    Ev_Cache_Hit string
  | Ev_Routed string "string list" classification
  | Ev_Skipped string
  | Ev_Attempt string nat
  | Ev_Response string provider_protocol usage rat "string list"
  | Ev_Retry string nat error_code
  | Ev_Provider_Failed string "error_code option"
  | Ev_Request_Failed model_error

text \<open>An audited event: trace, request, actor and what the stage adds.\<close>

type_synonym audited = "string \<times> string \<times> string \<times> model_event"

record gateway_state =
  gt_breakers :: "(string \<times> breaker) list"
  gt_cache :: "(string \<times> int \<times> model_response) list"
  gt_counters :: "(string \<times> counters) list"
  gt_metrics :: model_metrics
  gt_log :: "audited list"

definition zero_model_metrics :: model_metrics where
  "zero_model_metrics = \<lparr>mx_total = 0, mx_success = 0, mx_failed = 0, mx_fallback = 0, mx_hits = 0,
     mx_prompt = 0, mx_completion = 0, mx_cost = 0\<rparr>"

definition new_model_gateway :: gateway_state where
  "new_model_gateway = \<lparr>gt_breakers = [], gt_cache = [], gt_counters = [],
     gt_metrics = zero_model_metrics, gt_log = []\<rparr>"

text \<open>\<open>refresh\<close> when no request is active, and \<open>clear_cache\<close>.\<close>

definition clear_cache :: "gateway_state \<Rightarrow> gateway_state" where
  "clear_cache g = g\<lparr>gt_cache := []\<rparr>"

definition refresh :: "gateway_state \<Rightarrow> gateway_state" where
  "refresh g = clear_cache (g\<lparr>gt_breakers := []\<rparr>)"

definition reset_model_metrics :: "gateway_state \<Rightarrow> gateway_state" where
  "reset_model_metrics g = g\<lparr>gt_metrics := zero_model_metrics, gt_counters := []\<rparr>"

definition bump :: "(model_metrics \<Rightarrow> model_metrics) \<Rightarrow> gateway_state \<Rightarrow> gateway_state" where
  "bump f g = g\<lparr>gt_metrics := f (gt_metrics g)\<rparr>"

text \<open>A dictionary entry, replaced or added.\<close>

definition put :: "string \<Rightarrow> 'a \<Rightarrow> (string \<times> 'a) list \<Rightarrow> (string \<times> 'a) list" where
  "put k v m = (k, v) # filter (\<lambda>(j, _). j \<noteq> k) m"

definition zero_counters :: counters where
  "zero_counters = \<lparr>ct_calls = 0, ct_successes = 0, ct_failures = 0, ct_prompt = 0, ct_completion = 0, ct_cost = 0\<rparr>"

definition counters_of :: "string \<Rightarrow> gateway_state \<Rightarrow> counters" where
  "counters_of k g = (case map_of (gt_counters g) k of None \<Rightarrow> zero_counters | Some c \<Rightarrow> c)"

definition record_provider_failure :: "string \<Rightarrow> gateway_state \<Rightarrow> gateway_state" where
  "record_provider_failure k g =
     (let c = counters_of k g
      in g\<lparr>gt_counters := put k (c\<lparr>ct_calls := ct_calls c + 1, ct_failures := ct_failures c + 1\<rparr>) (gt_counters g)\<rparr>)"

definition record_provider_success :: "string \<Rightarrow> usage \<Rightarrow> rat \<Rightarrow> gateway_state \<Rightarrow> gateway_state" where
  "record_provider_success k u cost g =
     (let c = counters_of k g
      in bump (\<lambda>m. m\<lparr>mx_prompt := mx_prompt m + us_prompt u,
             mx_completion := mx_completion m + us_completion u, mx_cost := mx_cost m + cost\<rparr>)
           (g\<lparr>gt_counters := put k (c\<lparr>ct_calls := ct_calls c + 1, ct_successes := ct_successes c + 1,
              ct_prompt := ct_prompt c + us_prompt u, ct_completion := ct_completion c + us_completion u,
              ct_cost := ct_cost c + cost\<rparr>) (gt_counters g)\<rparr>))"

section \<open>Routing\<close>

definition prompt_tokens :: "model_request \<Rightarrow> nat" where
  "prompt_tokens r = max 1 (sum_list (map (\<lambda>m. length (mm_content m)) (mr_messages r)))"

definition worst_case_cost :: "provider \<Rightarrow> nat \<Rightarrow> nat \<Rightarrow> rat" where
  "worst_case_cost p prompt output =
     (of_nat prompt * pv_prompt_cost p + of_nat output * pv_completion_cost p) / 1000000"

definition routing_rule_for :: "model_config \<Rightarrow> string \<Rightarrow> routing_rule option" where
  "routing_rule_for c task =
     (case map_of (mg_rules c) task of
        None \<Rightarrow> map_of (mg_rules c) ''general''
      | Some r \<Rightarrow> Some r)"

text \<open>\<open>list(dict.fromkeys(xs))\<close>: first occurrences.\<close>

fun unique :: "string list \<Rightarrow> string list" where
  "unique [] = []"
| "unique (x # xs) = x # filter (\<lambda>y. y \<noteq> x) (unique xs)"

definition opt_list :: "string option \<Rightarrow> string list" where
  "opt_list o' = (case o' of None \<Rightarrow> [] | Some s \<Rightarrow> if s = [] then [] else [s])"

definition candidate_ids :: "model_config \<Rightarrow> model_request \<Rightarrow> string list" where
  "candidate_ids c r =
     (let all = opt_list (mr_provider r) @
            (case routing_rule_for c (mr_task r) of None \<Rightarrow> [mg_default c] | Some rule \<Rightarrow> rr_candidates rule)
      in unique (if mr_fallback r then all else take 1 all))"

definition required_capabilities :: "model_config \<Rightarrow> model_request \<Rightarrow> capability list" where
  "required_capabilities c r = mr_capabilities r @
     (case routing_rule_for c (mr_task r) of None \<Rightarrow> [] | Some rule \<Rightarrow> rr_capabilities rule)"

definition private_only :: "model_config \<Rightarrow> model_request \<Rightarrow> bool" where
  "private_only c r \<longleftrightarrow> mr_private r \<or>
     (case routing_rule_for c (mr_task r) of None \<Rightarrow> False | Some rule \<Rightarrow> rr_private rule) \<or>
     mr_class r = Restricted_Data"

definition max_latency :: "model_config \<Rightarrow> model_request \<Rightarrow> int option" where
  "max_latency c r = (case routing_rule_for c (mr_task r) of None \<Rightarrow> None | Some rule \<Rightarrow> rr_max_latency_ms rule)"

definition call_budget :: "model_config \<Rightarrow> model_request \<Rightarrow> rat" where
  "call_budget c r = min (mg_max_cost c) (case mr_max_cost r of None \<Rightarrow> mg_max_cost c | Some b \<Rightarrow> b)"

text \<open>The constraints of one candidate, and its price.\<close>

definition admissible :: "model_config \<Rightarrow> model_request \<Rightarrow> provider \<Rightarrow> bool" where
  "admissible c r p \<longleftrightarrow>
     pv_enabled p \<and> (private_only c r \<longrightarrow> pv_private p) \<and>
     set (required_capabilities c r) \<subseteq> set (pv_capabilities p) \<and>
     (mr_task r \<in> set (pv_tasks p) \<or> ''general'' \<in> set (pv_tasks p)) \<and>
     mr_max_output r \<le> pv_max_output p \<and> prompt_tokens r + mr_max_output r \<le> pv_max_context p \<and>
     (case max_latency c r of None \<Rightarrow> True | Some l \<Rightarrow> pv_timeout_ms p \<le> l)"

definition affordable :: "model_config \<Rightarrow> model_request \<Rightarrow> provider \<Rightarrow> bool" where
  "affordable c r p \<longleftrightarrow> worst_case_cost p (prompt_tokens r) (mr_max_output r) \<le> call_budget c r"

fun select_candidates ::
    "model_config \<Rightarrow> model_request \<Rightarrow> string list \<Rightarrow> model_error + (provider list \<times> nat)" where
  "select_candidates c r [] = Inr ([], 0)"
| "select_candidates c r (k # ks) =
     (case map_of (mg_providers c) k of
        None \<Rightarrow> if mr_provider r = Some k then Inl Unknown_Provider else select_candidates c r ks
      | Some p \<Rightarrow>
          (case select_candidates c r ks of
             Inl e \<Rightarrow> Inl e
           | Inr (ps, n) \<Rightarrow>
               if \<not> admissible c r p then Inr (ps, n)
               else if \<not> affordable c r p then Inr (ps, n + 1)
               else Inr (p # ps, n)))"

definition eligible_candidates :: "model_config \<Rightarrow> model_request \<Rightarrow> model_error + provider list" where
  "eligible_candidates c r =
     (case select_candidates c r (candidate_ids c r) of
        Inl e \<Rightarrow> Inl e
      | Inr (ps, n) \<Rightarrow>
          if ps = [] then (if 0 < n then Inl Budget_Exceeded else Inl No_Candidate) else Inr ps)"

section \<open>The environment of a call\<close>

datatype hook_answer = Hook_Ok | Hook_Timeout | Hook_Raised

datatype generate_answer =
    Generated provider_result
  | Gen_Timeout
  | Gen_Transport
  | Gen_Unavailable
  | Gen_Response
  | Gen_Other string

record call_env =
  ce_audit :: "nat \<Rightarrow> hook_answer"
  ce_generate :: "nat \<Rightarrow> string \<Rightarrow> generate_answer"
  ce_clock :: "nat \<Rightarrow> int"
  ce_cost :: "provider \<Rightarrow> usage \<Rightarrow> rat"
  ce_key :: "string \<Rightarrow> string \<Rightarrow> string \<Rightarrow> model_request \<Rightarrow> string"
  ce_digest :: string

text \<open>
  The state of the gateway and of the running call: audits and clock readings so far, the
  attempts, the providers left behind and the last error.
\<close>

record call_state =
  cs_gateway :: gateway_state
  cs_audits :: nat
  cs_ticks :: nat
  cs_attempts :: nat
  cs_fallback :: "string list"
  cs_last :: "error_code option"

type_synonym 'a call = "(call_state, model_error, 'a) op"

definition on_gateway :: "(gateway_state \<Rightarrow> gateway_state) \<Rightarrow> call_state \<Rightarrow> call_state" where
  "on_gateway f s = s\<lparr>cs_gateway := f (cs_gateway s)\<rparr>"

definition audit_event :: "call_env \<Rightarrow> call_context \<Rightarrow> string \<Rightarrow> model_event \<Rightarrow> unit call" where
  "audit_event env ctx rid ev s =
     (let t = s\<lparr>cs_audits := Suc (cs_audits s)\<rparr>
      in case ce_audit env (cs_audits s) of
           Hook_Ok \<Rightarrow>
             (Inr (), on_gateway (\<lambda>g. g\<lparr>gt_log := gt_log g @ [(mc_trace ctx, rid, mc_actor ctx, ev)]\<rparr>) t)
         | Hook_Timeout \<Rightarrow> (Inl Audit_Timeout_Error, t)
         | Hook_Raised \<Rightarrow> (Inl Audit_Hook_Error, t))"

definition read_clock :: "call_env \<Rightarrow> int call" where
  "read_clock env s = (Inr (ce_clock env (cs_ticks s)), s\<lparr>cs_ticks := Suc (cs_ticks s)\<rparr>)"

definition breaker_of :: "provider \<Rightarrow> gateway_state \<Rightarrow> breaker" where
  "breaker_of p g =
     (case map_of (gt_breakers g) (pv_id p) of
        None \<Rightarrow> new_breaker (pv_threshold p) (pv_recovery_ms p)
      | Some b \<Rightarrow> b)"

definition set_breaker :: "provider \<Rightarrow> breaker \<Rightarrow> call_state \<Rightarrow> call_state" where
  "set_breaker p b = on_gateway (\<lambda>g. g\<lparr>gt_breakers := put (pv_id p) b (gt_breakers g)\<rparr>)"

definition ask_breaker :: "call_env \<Rightarrow> provider \<Rightarrow> bool call" where
  "ask_breaker env p =
     op_bind (read_clock env) (\<lambda>now s.
       (case allow_call now (breaker_of p (cs_gateway s)) of (ok, b) \<Rightarrow> (Inr ok, set_breaker p b s)))"

definition fail_breaker :: "call_env \<Rightarrow> provider \<Rightarrow> unit call" where
  "fail_breaker env p =
     op_bind (read_clock env) (\<lambda>now s.
       (Inr (), set_breaker p (record_failure now (breaker_of p (cs_gateway s))) s))"

section \<open>Cache\<close>

definition cache_get :: "call_env \<Rightarrow> string \<Rightarrow> model_response option call" where
  "cache_get env key =
     op_bind (read_clock env) (\<lambda>now s.
       (let m = gt_cache (cs_gateway s); rest = filter (\<lambda>(k, _). k \<noteq> key) m
        in case map_of m key of
             None \<Rightarrow> (Inr None, s)
           | Some (until, resp) \<Rightarrow>
               if until \<le> now then (Inr None, on_gateway (\<lambda>g. g\<lparr>gt_cache := rest\<rparr>) s)
               else (Inr (Some resp), on_gateway (\<lambda>g. g\<lparr>gt_cache := rest @ [(key, until, resp)]\<rparr>) s)))"

text \<open>Least recently used entries go first.\<close>

definition cache_put :: "call_env \<Rightarrow> model_config \<Rightarrow> string \<Rightarrow> model_response \<Rightarrow> unit call" where
  "cache_put env c key resp =
     (if mg_max_entries c = 0 \<or> mg_ttl_ms c = 0 then op_return ()
      else op_bind (read_clock env) (\<lambda>now s.
        (Inr (), on_gateway (\<lambda>g.
           (let m = filter (\<lambda>(k, _). k \<noteq> key) (gt_cache g) @ [(key, now + mg_ttl_ms c, resp)]
            in g\<lparr>gt_cache := drop (length m - mg_max_entries c) m\<rparr>)) s)))"

section \<open>One attempt\<close>

definition usage_of :: "provider_result \<Rightarrow> usage" where
  "usage_of x = \<lparr>us_prompt = pr_prompt x, us_completion = pr_completion x,
     us_total = pr_prompt x + pr_completion x\<rparr>"

definition response_of ::
    "call_env \<Rightarrow> call_context \<Rightarrow> string \<Rightarrow> provider \<Rightarrow> provider_result \<Rightarrow> call_state \<Rightarrow> model_response" where
  "response_of env ctx rid p x s =
     \<lparr>ms_request = rid, ms_trace = mc_trace ctx,
      ms_status = (if cs_fallback s = [] then Completed_Call else Fallback_Call),
      ms_provider = pv_id p, ms_model = pv_model p, ms_protocol = pv_protocol p,
      ms_content = pr_content x, ms_finish = pr_finish x, ms_usage = usage_of x,
      ms_cost = ce_cost env p (usage_of x), ms_attempts = cs_attempts s,
      ms_fallback_from = cs_fallback s, ms_cached = False, ms_audited = True, ms_trusted = False\<rparr>"

text \<open>How an attempt ends: with a response, or with an error that allows a retry or does not.\<close>

datatype attempt_end = Answered model_response | Retryable error_code | Given_Up error_code

definition generate :: "call_env \<Rightarrow> provider \<Rightarrow> generate_answer call" where
  "generate env p s = (Inr (ce_generate env (cs_attempts s) (pv_id p)), s)"

definition with_state :: "(call_state \<Rightarrow> 'a call) \<Rightarrow> 'a call" where
  "with_state f s = f s s"

definition modify :: "(call_state \<Rightarrow> call_state) \<Rightarrow> unit call" where
  "modify f s = (Inr (), f s)"

definition accept_result ::
    "call_env \<Rightarrow> model_config \<Rightarrow> call_context \<Rightarrow> string \<Rightarrow> model_request \<Rightarrow> string \<Rightarrow> provider \<Rightarrow>
     provider_result \<Rightarrow> attempt_end call" where
  "accept_result env c ctx rid r key p x =
     with_state (\<lambda>s0.
       let resp = response_of env ctx rid p x s0 in
       op_bind (audit_event env ctx rid
           (Ev_Response (pv_id p) (pv_protocol p) (ms_usage resp) (ms_cost resp) (cs_fallback s0))) (\<lambda>_.
       op_bind (modify (\<lambda>s. set_breaker p (record_success (breaker_of p (cs_gateway s))) s)) (\<lambda>_.
       op_bind (modify (on_gateway (record_provider_success (pv_id p) (ms_usage resp) (ms_cost resp)))) (\<lambda>_.
       op_bind (if mr_cache r then cache_put env c key resp else op_return ()) (\<lambda>_.
       op_bind (modify (on_gateway (bump (\<lambda>m. m\<lparr>mx_success := mx_success m + 1,
           mx_fallback := mx_fallback m + (if cs_fallback s0 = [] then 0 else 1)\<rparr>)))) (\<lambda>_.
       op_return (Answered resp)))))))"

text \<open>\<open>except TimeoutError\<close> also catches a timeout of the audit hook inside the attempt.\<close>

definition run_attempt ::
    "call_env \<Rightarrow> model_config \<Rightarrow> call_context \<Rightarrow> string \<Rightarrow> model_request \<Rightarrow> string \<Rightarrow> provider \<Rightarrow> nat \<Rightarrow>
     attempt_end call" where
  "run_attempt env c ctx rid r key p n =
     (let fail = (\<lambda>e. op_bind (fail_breaker env p) (\<lambda>_.
            op_bind (modify (on_gateway (record_provider_failure (pv_id p)))) (\<lambda>_. op_return e)))
      in op_bind (modify (\<lambda>s. s\<lparr>cs_attempts := Suc (cs_attempts s)\<rparr>)) (\<lambda>_.
         op_bind (op_try
           (op_bind (audit_event env ctx rid (Ev_Attempt (pv_id p) n)) (\<lambda>_.
            op_bind (generate env p) (\<lambda>a.
              (case a of
                 Generated x \<Rightarrow> accept_result env c ctx rid r key p x
               | Gen_Timeout \<Rightarrow> op_return (Retryable Transport_Error)
               | Gen_Transport \<Rightarrow> op_return (Retryable Transport_Error)
               | Gen_Unavailable \<Rightarrow> op_return (Given_Up Unavailable_Error)
               | Gen_Response \<Rightarrow> op_return (Given_Up Response_Error)
               | Gen_Other e \<Rightarrow> op_raise (Raised (Other_Error e)))))))
           (\<lambda>res. (case res of
              Inl Audit_Timeout_Error \<Rightarrow> fail (Retryable Transport_Error)
            | Inl e \<Rightarrow> op_raise e
            | Inr (Answered resp) \<Rightarrow> op_return (Answered resp)
            | Inr (Given_Up Unavailable_Error) \<Rightarrow>
                op_bind (modify (on_gateway (record_provider_failure (pv_id p))))
                  (\<lambda>_. op_return (Given_Up Unavailable_Error))
            | Inr e \<Rightarrow> fail e))))"

section \<open>Attempts, candidates, calls\<close>

text \<open>The attempts left on one provider; \<open>None\<close> when it has failed for good.\<close>

fun run_attempts ::
    "call_env \<Rightarrow> model_config \<Rightarrow> call_context \<Rightarrow> string \<Rightarrow> model_request \<Rightarrow> string \<Rightarrow> provider \<Rightarrow> nat \<Rightarrow> nat \<Rightarrow>
     model_response option call" where
  "run_attempts env c ctx rid r key p n 0 = op_return None"
| "run_attempts env c ctx rid r key p n (Suc left) =
     op_bind (run_attempt env c ctx rid r key p n) (\<lambda>e.
       (case e of
          Answered resp \<Rightarrow> op_return (Some resp)
        | Given_Up x \<Rightarrow> op_bind (modify (\<lambda>s. s\<lparr>cs_last := Some x\<rparr>)) (\<lambda>_. op_return None)
        | Retryable x \<Rightarrow>
            op_bind (modify (\<lambda>s. s\<lparr>cs_last := Some x\<rparr>)) (\<lambda>_.
            if left = 0 then op_return None
            else op_bind (ask_breaker env p) (\<lambda>ok.
              if \<not> ok then op_return None
              else op_bind (audit_event env ctx rid (Ev_Retry (pv_id p) n x))
                (\<lambda>_. run_attempts env c ctx rid r key p (Suc n) left)))))"

definition leave_provider :: "provider \<Rightarrow> call_state \<Rightarrow> call_state" where
  "leave_provider p s = s\<lparr>cs_fallback := cs_fallback s @ [pv_id p]\<rparr>"

fun run_candidates ::
    "call_env \<Rightarrow> model_config \<Rightarrow> call_context \<Rightarrow> string \<Rightarrow> model_request \<Rightarrow> string \<Rightarrow> provider list \<Rightarrow>
     model_response option call" where
  "run_candidates env c ctx rid r key [] = op_return None"
| "run_candidates env c ctx rid r key (p # ps) =
     op_bind (ask_breaker env p) (\<lambda>ok.
       if \<not> ok
         then op_bind (modify (\<lambda>s. (leave_provider p s)\<lparr>cs_last := Some Unavailable_Error\<rparr>)) (\<lambda>_.
              op_bind (audit_event env ctx rid (Ev_Skipped (pv_id p)))
                (\<lambda>_. run_candidates env c ctx rid r key ps))
       else op_bind (run_attempts env c ctx rid r key p 1 (pv_attempts p)) (\<lambda>res.
         (case res of
            Some resp \<Rightarrow> op_return (Some resp)
          | None \<Rightarrow>
              op_bind (with_state (\<lambda>s. audit_event env ctx rid (Ev_Provider_Failed (pv_id p) (cs_last s)))) (\<lambda>_.
              op_bind (modify (leave_provider p)) (\<lambda>_.
              if mr_fallback r then run_candidates env c ctx rid r key ps else op_return None)))))"

definition cached_response :: "string \<Rightarrow> call_context \<Rightarrow> model_response \<Rightarrow> model_response" where
  "cached_response rid ctx resp =
     resp\<lparr>ms_request := rid, ms_trace := mc_trace ctx, ms_status := Cache_Hit, ms_cost := 0,
          ms_attempts := 0, ms_fallback_from := [], ms_cached := True\<rparr>"

definition cache_lookup ::
    "call_env \<Rightarrow> call_context \<Rightarrow> string \<Rightarrow> model_request \<Rightarrow> string \<Rightarrow> model_response option call" where
  "cache_lookup env ctx rid r key =
     (if \<not> mr_cache r then op_return None
      else op_bind (cache_get env key) (\<lambda>hit.
        (case hit of
           None \<Rightarrow> op_return None
         | Some resp \<Rightarrow>
             op_bind (audit_event env ctx rid (Ev_Cache_Hit (ms_provider resp))) (\<lambda>_.
             op_bind (modify (on_gateway (bump (\<lambda>m. m\<lparr>mx_success := mx_success m + 1, mx_hits := mx_hits m + 1\<rparr>)))) (\<lambda>_.
             op_return (Some (cached_response rid ctx resp)))))))"

definition chat_body ::
    "call_env \<Rightarrow> model_config \<Rightarrow> call_context \<Rightarrow> string \<Rightarrow> model_request \<Rightarrow> model_response call" where
  "chat_body env c ctx rid r =
     (case eligible_candidates c r of
        Inl e \<Rightarrow> op_raise e
      | Inr ps \<Rightarrow>
          (let key = ce_key env (ce_digest env) (mc_tenant ctx) (mc_actor ctx) r in
           op_bind (cache_lookup env ctx rid r key) (\<lambda>hit.
             (case hit of
                Some resp \<Rightarrow> op_return resp
              | None \<Rightarrow>
                  op_bind (audit_event env ctx rid (Ev_Routed (mr_task r) (map pv_id ps) (mr_class r))) (\<lambda>_.
                  op_bind (run_candidates env c ctx rid r key ps) (\<lambda>res.
                    (case res of
                       Some resp \<Rightarrow> op_return resp
                     | None \<Rightarrow> op_raise All_Candidates_Failed)))))))"

definition chat ::
    "call_env \<Rightarrow> model_config \<Rightarrow> call_context \<Rightarrow> string \<Rightarrow> model_request \<Rightarrow>
     (gateway_state, model_error, model_response) op" where
  "chat env c ctx rid r g =
     (let s0 = \<lparr>cs_gateway = bump (\<lambda>m. m\<lparr>mx_total := mx_total m + 1\<rparr>) g, cs_audits = 0, cs_ticks = 0,
                cs_attempts = 0, cs_fallback = [], cs_last = None\<rparr>
      in case op_catch (chat_body env c ctx rid r)
             (\<lambda>e. op_bind (modify (on_gateway (bump (\<lambda>m. m\<lparr>mx_failed := mx_failed m + 1\<rparr>)))) (\<lambda>_.
                op_bind (op_try (audit_event env ctx rid (Ev_Request_Failed e))) (\<lambda>a.
                  (case a of Inl _ \<Rightarrow> op_raise Gateway_Audit_Failed | Inr _ \<Rightarrow> op_raise e)))) s0 of
           (res, s) \<Rightarrow> (res, cs_gateway s))"

section \<open>Metrics\<close>

record provider_metric =
  pm_id :: string
  pm_counters :: counters
  pm_circuit :: circuit_state

definition provider_metrics :: "model_config \<Rightarrow> gateway_state \<Rightarrow> provider_metric list" where
  "provider_metrics c g =
     map (\<lambda>k. \<lparr>pm_id = k, pm_counters = counters_of k g,
         pm_circuit = (case map_of (gt_breakers g) k of None \<Rightarrow> Circuit_Closed | Some b \<Rightarrow> circuit_state b)\<rparr>)
       (sort (remdups (map fst (mg_providers c) @ map fst (gt_counters g))))"

end
