(* ===== verification/ModelRules.thy ===== *)
theory ModelRules
  imports ModelGateway
begin

text \<open>
  How a property of a model call is proved: an invariant of its steps carries over attempts,
  candidates and the call (\<open>run_attempt_rule\<close> to \<open>chat_body_rule\<close>), and \<open>chat_cases\<close> says what the
  call makes of what its body leaves.
\<close>

section \<open>Keeping an invariant\<close>

lemma op_keeps_triple: "op_keeps I m \<longleftrightarrow> op_triple I m (\<lambda>_. I) (\<lambda>_. I)"
  unfolding op_keeps_def op_triple_def by (auto split: prod.splits sum.splits)

lemma op_keepsI: "(\<And>s r t. I s \<Longrightarrow> m s = (r, t) \<Longrightarrow> I t) \<Longrightarrow> op_keeps I m"
  by (auto simp: op_keeps_def)

lemma op_keeps_modify: "(\<And>s. I s \<Longrightarrow> I (f s)) \<Longrightarrow> op_keeps I (modify f)"
  by (auto intro: op_keepsI simp: modify_def)

lemma op_keeps_with_state:
  assumes "\<And>s. op_keeps I (f s)"
  shows "op_keeps I (with_state f)"
proof (rule op_keepsI)
  fix s r t assume "I s" "with_state f s = (r, t)"
  then show "I t" using op_keepsD[OF assms[of s]] by (simp add: with_state_def)
qed

lemma op_triple_with_state:
  assumes "\<And>s. op_triple P (f s) Q E"
  shows "op_triple P (with_state f) Q E"
  unfolding op_triple_def with_state_def
proof (intro allI impI)
  fix s assume "P s"
  then show "case f s s of (r, t) \<Rightarrow> case r of Inl e \<Rightarrow> E e t | Inr x \<Rightarrow> Q x t"
    using assms[of s] by (simp add: op_triple_def)
qed

lemma op_triple_modify_bind:
  assumes "\<And>s. I s \<Longrightarrow> I (f s)" and "op_triple I m Q (\<lambda>_. I)"
  shows "op_triple I (op_bind (modify f) (\<lambda>_. m)) Q (\<lambda>_. I)"
  using assms by (auto simp: op_triple_def op_bind_def modify_def)

lemma op_triple_keeps_bind:
  "op_keeps I m \<Longrightarrow> (\<And>x. op_triple I (f x) Q (\<lambda>_. I)) \<Longrightarrow> op_triple I (op_bind m f) Q (\<lambda>_. I)"
  unfolding op_keeps_triple by (rule op_triple_bind)

lemma op_triple_of_keeps: "op_keeps I m \<Longrightarrow> op_triple I m (\<lambda>_. I) (\<lambda>_. I)"
  by (simp add: op_keeps_triple)

lemma op_triple_pre: "(K \<Longrightarrow> op_triple I m Q E) \<Longrightarrow> op_triple (\<lambda>s. I s \<and> K) m Q E"
  by (auto simp: op_triple_def)

section \<open>Rules for a call\<close>

text \<open>
  An invariant of the steps of a call and a relation that an accepted answer establishes give
  what the whole call establishes. The providers \<open>ok\<close> are those the breakers may let through.
\<close>

abbreviation ends_in :: "(call_state \<Rightarrow> bool) \<Rightarrow> (model_response \<Rightarrow> call_state \<Rightarrow> bool) \<Rightarrow> attempt_end \<Rightarrow> call_state \<Rightarrow> bool" where
  "ends_in I A e s \<equiv> (case e of Answered resp \<Rightarrow> A resp s | _ \<Rightarrow> I s)"

abbreviation found_in :: "(call_state \<Rightarrow> bool) \<Rightarrow> (model_response \<Rightarrow> call_state \<Rightarrow> bool) \<Rightarrow> model_response option \<Rightarrow> call_state \<Rightarrow> bool" where
  "found_in I A e s \<equiv> (case e of Some resp \<Rightarrow> A resp s | None \<Rightarrow> I s)"

lemma run_attempt_rule:
  assumes audit: "op_keeps I (audit_event env ctx rid (Ev_Attempt (pv_id p) n))"
    and accept: "\<And>x. op_triple I (accept_result env c ctx rid r key p x) (ends_in (\<lambda>_. False) A) (\<lambda>_. I)"
    and fail: "op_keeps I (fail_breaker env p)"
    and count: "\<And>s. I s \<Longrightarrow> I (s\<lparr>cs_attempts := Suc (cs_attempts s)\<rparr>)"
    and failed: "\<And>s. I s \<Longrightarrow> I (on_gateway (record_provider_failure (pv_id p)) s)"
  shows "op_triple I (run_attempt env c ctx rid r key p n) (ends_in I A) (\<lambda>_. I)"
proof -
  define body where "body = op_bind (audit_event env ctx rid (Ev_Attempt (pv_id p) n)) (\<lambda>_.
            op_bind (generate env p) (\<lambda>a.
              (case a of
                 Generated x \<Rightarrow> accept_result env c ctx rid r key p x
               | Gen_Timeout \<Rightarrow> op_return (Retryable Transport_Error)
               | Gen_Transport \<Rightarrow> op_return (Retryable Transport_Error)
               | Gen_Unavailable \<Rightarrow> op_return (Given_Up Unavailable_Error)
               | Gen_Response \<Rightarrow> op_return (Given_Up Response_Error)
               | Gen_Other e \<Rightarrow> op_raise (Raised (Other_Error e)))))"
  have gen: "op_keeps I (generate env p)" by (auto intro: op_keepsI simp: generate_def)
  have acc: "op_triple I (accept_result env c ctx rid r key p x) (ends_in I A) (\<lambda>_. I)" for x
    by (rule op_triple_weaken[OF accept]) (auto split: attempt_end.splits)
  have body: "op_triple I body (ends_in I A) (\<lambda>_. I)"
    unfolding body_def
    by (intro op_triple_keeps_bind audit gen)
      (auto split: generate_answer.splits intro!: acc op_triple_return op_triple_raise)
  have tried: "op_triple I (op_try body)
      (\<lambda>res s. case res of Inl _ \<Rightarrow> I s | Inr e \<Rightarrow> ends_in I A e s) (\<lambda>_. I)"
    by (rule op_triple_try[OF body]) auto
  have "op_triple I (op_bind (fail_breaker env p) (\<lambda>_.
      op_bind (modify (on_gateway (record_provider_failure (pv_id p)))) (\<lambda>_. op_return e)))
      (ends_in I A) (\<lambda>_. I)" if "\<And>resp. e \<noteq> Answered resp" for e
    by (rule op_triple_keeps_bind[OF fail], rule op_triple_modify_bind, erule failed, rule op_triple_return)
      (use that in \<open>auto split: attempt_end.splits\<close>)
  note fails = this
  show ?thesis
    unfolding run_attempt_def Let_def body_def[symmetric]
  proof (rule op_triple_modify_bind, erule count, rule op_triple_bind[OF tried])
    fix res
    show "op_triple (\<lambda>s. case res of Inl _ \<Rightarrow> I s | Inr e \<Rightarrow> ends_in I A e s)
      (case res of Inl Audit_Timeout_Error \<Rightarrow> op_bind (fail_breaker env p) (\<lambda>_.
            op_bind (modify (on_gateway (record_provider_failure (pv_id p)))) (\<lambda>_. op_return (Retryable Transport_Error)))
        | Inl e \<Rightarrow> op_raise e
        | Inr (Answered resp) \<Rightarrow> op_return (Answered resp)
        | Inr (Given_Up Unavailable_Error) \<Rightarrow>
            op_bind (modify (on_gateway (record_provider_failure (pv_id p))))
              (\<lambda>_. op_return (Given_Up Unavailable_Error))
        | Inr e \<Rightarrow> op_bind (fail_breaker env p) (\<lambda>_.
            op_bind (modify (on_gateway (record_provider_failure (pv_id p)))) (\<lambda>_. op_return e)))
      (ends_in I A) (\<lambda>_. I)"
    proof (cases res)
      case (Inl e)
      then show ?thesis by (cases e) (auto intro: op_triple_raise fails)
    next
      case (Inr e)
      have up: "op_triple I (op_bind (modify (on_gateway (record_provider_failure (pv_id p))))
          (\<lambda>_. op_return (Given_Up Unavailable_Error))) (ends_in I A) (\<lambda>_. I)"
        by (rule op_triple_modify_bind, erule failed, rule op_triple_return) simp
      show ?thesis
      proof (cases e)
        case (Given_Up x)
        then show ?thesis using Inr by (cases x) (auto intro: fails up)
      qed (use Inr in \<open>auto intro: fails op_triple_return\<close>)
    qed
  qed
qed

lemma run_attempts_rule:
  assumes audit: "\<And>ev. good ev \<Longrightarrow> op_keeps I (audit_event env ctx rid ev)"
    and good: "\<And>n. good (Ev_Attempt (pv_id p) n)" "\<And>n x. good (Ev_Retry (pv_id p) n x)"
    and accept: "\<And>x. op_triple I (accept_result env c ctx rid r key p x) (ends_in (\<lambda>_. False) A) (\<lambda>_. I)"
    and fail: "op_keeps I (fail_breaker env p)" and ask: "op_keeps I (ask_breaker env p)"
    and count: "\<And>s. I s \<Longrightarrow> I (s\<lparr>cs_attempts := Suc (cs_attempts s)\<rparr>)"
    and last: "\<And>s x. I s \<Longrightarrow> I (s\<lparr>cs_last := Some x\<rparr>)"
    and failed: "\<And>s. I s \<Longrightarrow> I (on_gateway (record_provider_failure (pv_id p)) s)"
  shows "op_triple I (run_attempts env c ctx rid r key p n left) (found_in I A) (\<lambda>_. I)"
proof (induction left arbitrary: n)
  case 0
  then show ?case by (auto intro: op_triple_return)
next
  case (Suc left)
  have retry: "op_triple I (if left = 0 then op_return None
      else op_bind (ask_breaker env p) (\<lambda>ok.
        if \<not> ok then op_return None
        else op_bind (audit_event env ctx rid (Ev_Retry (pv_id p) n x))
          (\<lambda>_. run_attempts env c ctx rid r key p (Suc n) left))) (found_in I A) (\<lambda>_. I)" for x
    by (auto intro!: op_triple_return op_triple_keeps_bind[OF ask] op_triple_keeps_bind[OF audit] good Suc.IH)
  show ?case unfolding run_attempts.simps
  proof (rule op_triple_bind[OF run_attempt_rule[OF audit[OF good(1)] accept fail count failed]])
    fix e
    show "op_triple (ends_in I A e)
      (case e of Answered resp \<Rightarrow> op_return (Some resp)
        | Given_Up x \<Rightarrow> op_bind (modify (\<lambda>s. s\<lparr>cs_last := Some x\<rparr>)) (\<lambda>_. op_return None)
        | Retryable x \<Rightarrow>
            op_bind (modify (\<lambda>s. s\<lparr>cs_last := Some x\<rparr>)) (\<lambda>_.
            if left = 0 then op_return None
            else op_bind (ask_breaker env p) (\<lambda>ok.
              if \<not> ok then op_return None
              else op_bind (audit_event env ctx rid (Ev_Retry (pv_id p) n x))
                (\<lambda>_. run_attempts env c ctx rid r key p (Suc n) left)))) (found_in I A) (\<lambda>_. I)"
    proof (cases e)
      case (Retryable x)
      show ?thesis unfolding Retryable attempt_end.case
        by (rule op_triple_modify_bind[OF _ retry]) (rule last)
    qed (auto intro!: op_triple_return op_triple_modify_bind last)
  qed
qed

lemma run_candidates_rule:
  assumes audit: "\<And>ev. good ev \<Longrightarrow> op_keeps I (audit_event env ctx rid ev)"
    and good: "\<And>p n. p \<in> set ps \<Longrightarrow> ok p \<Longrightarrow> good (Ev_Attempt (pv_id p) n)" "\<And>k n x. good (Ev_Retry k n x)"
      "\<And>k. good (Ev_Skipped k)" "\<And>k e. good (Ev_Provider_Failed k e)"
    and accept: "\<And>p x. p \<in> set ps \<Longrightarrow> ok p \<Longrightarrow>
      op_triple I (accept_result env c ctx rid r key p x) (ends_in (\<lambda>_. False) A) (\<lambda>_. I)"
    and fail: "\<And>p. p \<in> set ps \<Longrightarrow> ok p \<Longrightarrow> op_keeps I (fail_breaker env p)"
    and ask: "\<And>p. p \<in> set ps \<Longrightarrow> op_triple I (ask_breaker env p) (\<lambda>b s. I s \<and> (b \<longrightarrow> ok p)) (\<lambda>_. I)"
    and count: "\<And>s. I s \<Longrightarrow> I (s\<lparr>cs_attempts := Suc (cs_attempts s)\<rparr>)"
    and last: "\<And>s x. I s \<Longrightarrow> I (s\<lparr>cs_last := Some x\<rparr>)"
    and leave: "\<And>s p. I s \<Longrightarrow> I (leave_provider p s)"
    and failed: "\<And>s k. I s \<Longrightarrow> I (on_gateway (record_provider_failure k) s)"
  shows "op_triple I (run_candidates env c ctx rid r key ps) (found_in I A) (\<lambda>_. I)"
  using good accept fail ask
proof (induction ps)
  case Nil
  then show ?case by (auto intro: op_triple_return)
next
  case (Cons p ps)
  have rest: "op_triple I (run_candidates env c ctx rid r key ps) (found_in I A) (\<lambda>_. I)"
    by (rule Cons.IH) (use Cons.prems in auto)
  have skip: "op_triple I (op_bind (modify (\<lambda>s. (leave_provider p s)\<lparr>cs_last := Some Unavailable_Error\<rparr>)) (\<lambda>_.
      op_bind (audit_event env ctx rid (Ev_Skipped (pv_id p)))
        (\<lambda>_. run_candidates env c ctx rid r key ps))) (found_in I A) (\<lambda>_. I)"
    by (intro op_triple_modify_bind last leave op_triple_keeps_bind[OF audit] rest Cons.prems(3)) 
  have ask': "op_keeps I (ask_breaker env p)"
    unfolding op_keeps_triple by (rule op_triple_weaken[OF Cons.prems(7)[of p]]) auto
  have tried: "op_triple I (op_bind (run_attempts env c ctx rid r key p 1 (pv_attempts p)) (\<lambda>res.
         (case res of
            Some resp \<Rightarrow> op_return (Some resp)
          | None \<Rightarrow>
              op_bind (with_state (\<lambda>s. audit_event env ctx rid (Ev_Provider_Failed (pv_id p) (cs_last s)))) (\<lambda>_.
              op_bind (modify (leave_provider p)) (\<lambda>_.
              if mr_fallback r then run_candidates env c ctx rid r key ps else op_return None)))))
      (found_in I A) (\<lambda>_. I)" if p: "ok p"
  proof (rule op_triple_bind[OF run_attempts_rule[where good = good and A = A]])
    fix res
    have next': "op_triple I (op_bind (with_state (\<lambda>s. audit_event env ctx rid (Ev_Provider_Failed (pv_id p) (cs_last s)))) (\<lambda>_.
        op_bind (modify (leave_provider p)) (\<lambda>_.
        if mr_fallback r then run_candidates env c ctx rid r key ps else op_return None))) (found_in I A) (\<lambda>_. I)"
      by (auto intro!: op_triple_keeps_bind[OF op_keeps_with_state] audit Cons.prems op_triple_modify_bind
        leave rest op_triple_return)
    show "op_triple (found_in I A res) (case res of
            Some resp \<Rightarrow> op_return (Some resp)
          | None \<Rightarrow>
              op_bind (with_state (\<lambda>s. audit_event env ctx rid (Ev_Provider_Failed (pv_id p) (cs_last s)))) (\<lambda>_.
              op_bind (modify (leave_provider p)) (\<lambda>_.
              if mr_fallback r then run_candidates env c ctx rid r key ps else op_return None)))
      (found_in I A) (\<lambda>_. I)"
    proof (cases res)
      case None
      show ?thesis unfolding None option.case by (rule next')
    qed (auto intro: op_triple_return)
  qed (use Cons.prems audit ask' p in \<open>auto intro: count last failed\<close>)
  show ?case unfolding run_candidates.simps
  proof (rule op_triple_bind[OF Cons.prems(7)[of p]], simp)
    fix b
    show "op_triple (\<lambda>s. I s \<and> (b \<longrightarrow> ok p)) (if \<not> b
         then op_bind (modify (\<lambda>s. (leave_provider p s)\<lparr>cs_last := Some Unavailable_Error\<rparr>)) (\<lambda>_.
              op_bind (audit_event env ctx rid (Ev_Skipped (pv_id p)))
                (\<lambda>_. run_candidates env c ctx rid r key ps))
       else op_bind (run_attempts env c ctx rid r key p 1 (pv_attempts p)) (\<lambda>res.
         (case res of
            Some resp \<Rightarrow> op_return (Some resp)
          | None \<Rightarrow>
              op_bind (with_state (\<lambda>s. audit_event env ctx rid (Ev_Provider_Failed (pv_id p) (cs_last s)))) (\<lambda>_.
              op_bind (modify (leave_provider p)) (\<lambda>_.
              if mr_fallback r then run_candidates env c ctx rid r key ps else op_return None)))))
      (found_in I A) (\<lambda>_. I)"
      by (rule op_triple_pre, cases b) (simp_all only: not_True_eq_False not_False_eq_True if_True if_False skip tried simp_thms)
  qed
qed

lemma chat_body_rule:
  assumes audit: "\<And>ev. good ev \<Longrightarrow> op_keeps I (audit_event env ctx rid ev)"
    and good: "\<And>ps p n. eligible_candidates c r = Inr ps \<Longrightarrow> p \<in> set ps \<Longrightarrow> ok p \<Longrightarrow> good (Ev_Attempt (pv_id p) n)"
      "\<And>k n x. good (Ev_Retry k n x)" "\<And>k. good (Ev_Skipped k)" "\<And>k e. good (Ev_Provider_Failed k e)"
      "\<And>t ks d. good (Ev_Routed t ks d)"
    and look: "op_triple I (cache_lookup env ctx rid r (ce_key env (ce_digest env) (mc_tenant ctx) (mc_actor ctx) r))
      (found_in I A) (\<lambda>_. I)"
    and accept: "\<And>ps p x. eligible_candidates c r = Inr ps \<Longrightarrow> p \<in> set ps \<Longrightarrow> ok p \<Longrightarrow>
      op_triple I (accept_result env c ctx rid r (ce_key env (ce_digest env) (mc_tenant ctx) (mc_actor ctx) r) p x)
        (ends_in (\<lambda>_. False) A) (\<lambda>_. I)"
    and fail: "\<And>p. ok p \<Longrightarrow> op_keeps I (fail_breaker env p)"
    and ask: "\<And>ps p. eligible_candidates c r = Inr ps \<Longrightarrow> p \<in> set ps \<Longrightarrow>
      op_triple I (ask_breaker env p) (\<lambda>b s. I s \<and> (b \<longrightarrow> ok p)) (\<lambda>_. I)"
    and count: "\<And>s. I s \<Longrightarrow> I (s\<lparr>cs_attempts := Suc (cs_attempts s)\<rparr>)"
    and last: "\<And>s x. I s \<Longrightarrow> I (s\<lparr>cs_last := Some x\<rparr>)"
    and leave: "\<And>s p. I s \<Longrightarrow> I (leave_provider p s)"
    and failed: "\<And>s k. I s \<Longrightarrow> I (on_gateway (record_provider_failure k) s)"
  shows "op_triple I (chat_body env c ctx rid r) A (\<lambda>_. I)"
proof (cases "eligible_candidates c r")
  case (Inl e)
  then show ?thesis by (auto simp: chat_body_def intro: op_triple_raise)
next
  case (Inr ps)
  define key where "key = ce_key env (ce_digest env) (mc_tenant ctx) (mc_actor ctx) r"
  have run: "op_triple I (run_candidates env c ctx rid r key ps) (found_in I A) (\<lambda>_. I)"
    by (rule run_candidates_rule[where good = good and ok = ok])
      (use Inr in \<open>auto simp: key_def intro: assms\<close>)
  have ended: "op_triple (found_in I A res) (case res of
      Some resp \<Rightarrow> op_return resp | None \<Rightarrow> op_raise All_Candidates_Failed) A (\<lambda>_. I)" for res
    by (cases res) (auto intro: op_triple_return op_triple_raise)
  have routed: "op_triple I (op_bind (audit_event env ctx rid (Ev_Routed (mr_task r) (map pv_id ps) (mr_class r))) (\<lambda>_.
      op_bind (run_candidates env c ctx rid r key ps) (\<lambda>res.
        (case res of Some resp \<Rightarrow> op_return resp | None \<Rightarrow> op_raise All_Candidates_Failed)))) A (\<lambda>_. I)"
    by (rule op_triple_keeps_bind[OF audit[OF good(5)]], rule op_triple_bind[OF run ended])
  have "op_triple (found_in I A hit) (case hit of
        Some resp \<Rightarrow> op_return resp
      | None \<Rightarrow> op_bind (audit_event env ctx rid (Ev_Routed (mr_task r) (map pv_id ps) (mr_class r))) (\<lambda>_.
          op_bind (run_candidates env c ctx rid r key ps) (\<lambda>res.
            (case res of Some resp \<Rightarrow> op_return resp | None \<Rightarrow> op_raise All_Candidates_Failed)))) A (\<lambda>_. I)" for hit
  proof (cases hit)
    case None
    show ?thesis unfolding None option.case by (rule routed)
  qed (auto intro: op_triple_return)
  then show ?thesis
    unfolding chat_body_def Inr sum.case Let_def key_def[symmetric]
    by (rule op_triple_bind[OF look[folded key_def]])
qed

definition call_start :: "gateway_state \<Rightarrow> call_state" where
  "call_start g = \<lparr>cs_gateway = bump (\<lambda>m. m\<lparr>mx_total := mx_total m + 1\<rparr>) g, cs_audits = 0, cs_ticks = 0,
     cs_attempts = 0, cs_fallback = [], cs_last = None\<rparr>"

text \<open>What a call leaves, from what its body leaves.\<close>

lemma chat_cases:
  assumes "chat env c ctx rid r g = (res, g')"
  obtains
    (answered) resp s where "chat_body env c ctx rid r (call_start g) = (Inr resp, s)" "res = Inr resp" "g' = cs_gateway s"
  | (failed) e s s' where "chat_body env c ctx rid r (call_start g) = (Inl e, s)" "res = Inl e"
      "audit_event env ctx rid (Ev_Request_Failed e)
         (on_gateway (bump (\<lambda>m. m\<lparr>mx_failed := mx_failed m + 1\<rparr>)) s) = (Inr (), s')" "g' = cs_gateway s'"
  | (silent) e s x s' where "chat_body env c ctx rid r (call_start g) = (Inl e, s)" "res = Inl Gateway_Audit_Failed"
      "audit_event env ctx rid (Ev_Request_Failed e)
         (on_gateway (bump (\<lambda>m. m\<lparr>mx_failed := mx_failed m + 1\<rparr>)) s) = (Inl x, s')" "g' = cs_gateway s'"
proof -
  obtain q s where body: "chat_body env c ctx rid r (call_start g) = (q, s)" by (cases "chat_body env c ctx rid r (call_start g)")
  show thesis
  proof (cases q)
    case (Inr resp)
    then show thesis using assms body answered
      by (auto simp: chat_def call_start_def op_catch_def)
  next
    case (Inl e)
    obtain a s' where last: "audit_event env ctx rid (Ev_Request_Failed e)
         (on_gateway (bump (\<lambda>m. m\<lparr>mx_failed := mx_failed m + 1\<rparr>)) s) = (a, s')"
      by (cases "audit_event env ctx rid (Ev_Request_Failed e)
         (on_gateway (bump (\<lambda>m. m\<lparr>mx_failed := mx_failed m + 1\<rparr>)) s)")
    show thesis
      using assms body Inl last failed silent
      by (cases a) (auto simp: chat_def call_start_def op_catch_def op_bind_def modify_def op_try_def op_raise_def)
  qed
qed

lemma audit_event_log:
  "audit_event env ctx rid ev s = (Inr (), t) \<Longrightarrow>
     gt_log (cs_gateway t) = gt_log (cs_gateway s) @ [(mc_trace ctx, rid, mc_actor ctx, ev)]"
  "audit_event env ctx rid ev s = (Inl x, t) \<Longrightarrow> cs_gateway t = cs_gateway s"
  by (auto simp: audit_event_def Let_def on_gateway_def split: hook_answer.splits)

lemma audit_event_keeps:
  "(\<And>s. I s \<Longrightarrow> I (s\<lparr>cs_audits := Suc (cs_audits s)\<rparr>)) \<Longrightarrow>
   (\<And>s. I s \<Longrightarrow> I (on_gateway (\<lambda>g. g\<lparr>gt_log := gt_log g @ [(mc_trace ctx, rid, mc_actor ctx, ev)]\<rparr>) s)) \<Longrightarrow>
     op_keeps I (audit_event env ctx rid ev)"
  by (rule op_keepsI) (auto simp: audit_event_def Let_def split: hook_answer.splits)

lemma read_clock_keeps: "(\<And>s. I s \<Longrightarrow> I (s\<lparr>cs_ticks := Suc (cs_ticks s)\<rparr>)) \<Longrightarrow> op_keeps I (read_clock env)"
  by (rule op_keepsI) (auto simp: read_clock_def)

end
