(* ===== verification/ModelEffects.thy ===== *)
theory ModelEffects
  imports ModelRules
begin

text \<open>
  What the steps of a model call do to the cache, the log and the counts, and the provenance of
  every answer (\<open>chat_provenance\<close>): it comes from an eligible provider of this call, or from the
  cache under this call's key.
\<close>

section \<open>Provenance of answers and the audit log\<close>

definition call_key :: "call_env \<Rightarrow> call_context \<Rightarrow> model_request \<Rightarrow> string" where
  "call_key env ctx r = ce_key env (ce_digest env) (mc_tenant ctx) (mc_actor ctx) r"

definition cache_from :: "(string \<times> model_response) set \<Rightarrow> gateway_state \<Rightarrow> bool" where
  "cache_from S g \<longleftrightarrow> (\<forall>(k, u, e) \<in> set (gt_cache g). (k, e) \<in> S)"

definition log_from :: "audited list \<Rightarrow> call_context \<Rightarrow> string \<Rightarrow> model_event set \<Rightarrow> gateway_state \<Rightarrow> bool" where
  "log_from L ctx rid E g \<longleftrightarrow>
     (\<exists>evs. gt_log g = L @ map (\<lambda>ev. (mc_trace ctx, rid, mc_actor ctx, ev)) evs \<and>
        (E \<noteq> UNIV \<longrightarrow> evs \<noteq> [] \<and> last evs \<in> E))"

definition answered_by :: "model_config \<Rightarrow> model_request \<Rightarrow> model_response \<Rightarrow> bool" where
  "answered_by c r resp \<longleftrightarrow>
     (\<exists>k p. k \<in> set (candidate_ids c r) \<and> map_of (mg_providers c) k = Some p \<and>
        ms_provider resp = pv_id p \<and> admissible c r p \<and> affordable c r p)"

definition answer_event :: "model_response \<Rightarrow> model_event set" where
  "answer_event resp = {Ev_Cache_Hit (ms_provider resp)} \<union>
     {Ev_Response (ms_provider resp) (ms_protocol resp) (ms_usage resp) (ms_cost resp) (ms_fallback_from resp)}"

lemma cache_from_mono: "cache_from S g \<Longrightarrow> S \<subseteq> T \<Longrightarrow> cache_from T g"
  by (auto simp: cache_from_def)

lemma cache_from_same: "gt_cache g = gt_cache h \<Longrightarrow> cache_from S g \<longleftrightarrow> cache_from S h"
  by (simp add: cache_from_def)

lemma log_from_same: "gt_log g = gt_log h \<Longrightarrow> log_from L ctx rid E g \<longleftrightarrow> log_from L ctx rid E h"
  by (simp add: log_from_def)

lemma log_from_step:
  assumes "log_from L ctx rid UNIV g" "gt_log h = gt_log g @ [(mc_trace ctx, rid, mc_actor ctx, ev)]" "ev \<in> E"
  shows "log_from L ctx rid E h"
proof -
  obtain evs where "gt_log g = L @ map (\<lambda>ev. (mc_trace ctx, rid, mc_actor ctx, ev)) evs"
    using assms(1) by (auto simp: log_from_def)
  then have "gt_log h = L @ map (\<lambda>ev. (mc_trace ctx, rid, mc_actor ctx, ev)) (evs @ [ev])"
    using assms(2) by simp
  then show ?thesis using assms(3) unfolding log_from_def
    by (intro exI[of _ "evs @ [ev]"]) auto
qed

lemma log_from_any: "log_from L ctx rid E g \<Longrightarrow> log_from L ctx rid UNIV g"
  by (auto simp: log_from_def)

lemma selected_candidates:
  "select_candidates c r ks = Inr (ps, n) \<Longrightarrow> p \<in> set ps \<Longrightarrow>
     \<exists>k \<in> set ks. map_of (mg_providers c) k = Some p \<and> admissible c r p \<and> affordable c r p"
  by (induction ks arbitrary: ps n) (auto split: option.splits sum.splits if_splits)

lemma eligible_provider:
  assumes "eligible_candidates c r = Inr ps" "p \<in> set ps" "ms_provider resp = pv_id p"
  shows "answered_by c r resp"
proof -
  obtain n where "select_candidates c r (candidate_ids c r) = Inr (ps, n)"
    using assms(1) by (auto simp: eligible_candidates_def split: sum.splits prod.splits if_splits)
  then show ?thesis using selected_candidates[of c r "candidate_ids c r" ps n p] assms(2,3)
    unfolding answered_by_def by blast
qed

text \<open>The invariant of a running call, and what it has when an answer is found.\<close>

definition call_inv :: "(string \<times> model_response) set \<Rightarrow> audited list \<Rightarrow> call_context \<Rightarrow> string \<Rightarrow> call_state \<Rightarrow> bool" where
  "call_inv S L ctx rid s \<longleftrightarrow> cache_from S (cs_gateway s) \<and> log_from L ctx rid UNIV (cs_gateway s)"

definition call_answer ::
    "(string \<times> model_response) set \<Rightarrow> audited list \<Rightarrow> call_env \<Rightarrow> model_config \<Rightarrow> call_context \<Rightarrow> string \<Rightarrow>
     model_request \<Rightarrow> model_response \<Rightarrow> call_state \<Rightarrow> bool" where
  "call_answer S L env c ctx rid r resp s \<longleftrightarrow>
     log_from L ctx rid (answer_event resp) (cs_gateway s) \<and>
     (if ms_cached resp
        then cache_from S (cs_gateway s) \<and>
          (\<exists>e. (call_key env ctx r, e) \<in> S \<and> resp = cached_response rid ctx e)
        else cache_from (insert (call_key env ctx r, resp) S) (cs_gateway s) \<and> answered_by c r resp)"

lemma call_inv_same:
  "gt_cache (cs_gateway s) = gt_cache (cs_gateway t) \<Longrightarrow> gt_log (cs_gateway s) = gt_log (cs_gateway t) \<Longrightarrow>
     call_inv S L ctx rid s \<longleftrightarrow> call_inv S L ctx rid t"
  by (simp add: call_inv_def cache_from_def log_from_def)

lemma gateway_parts [simp]:
  "cs_gateway (on_gateway f s) = f (cs_gateway s)"
  "gt_cache (bump h g) = gt_cache g" "gt_log (bump h g) = gt_log g"
  "gt_counters (bump h g) = gt_counters g" "gt_breakers (bump h g) = gt_breakers g"
  "gt_metrics (bump h g) = h (gt_metrics g)"
  "cs_gateway (set_breaker p b s) = (cs_gateway s)\<lparr>gt_breakers := put (pv_id p) b (gt_breakers (cs_gateway s))\<rparr>"
  "cs_gateway (leave_provider p s) = cs_gateway s"
  by (simp_all add: on_gateway_def bump_def set_breaker_def leave_provider_def)

lemma counter_parts [simp]:
  "gt_cache (record_provider_failure k g) = gt_cache g" "gt_log (record_provider_failure k g) = gt_log g"
  "gt_breakers (record_provider_failure k g) = gt_breakers g" "gt_metrics (record_provider_failure k g) = gt_metrics g"
  "gt_cache (record_provider_success k u x g) = gt_cache g" "gt_log (record_provider_success k u x g) = gt_log g"
  "gt_breakers (record_provider_success k u x g) = gt_breakers g"
  "mx_total (gt_metrics (record_provider_success k u x g)) = mx_total (gt_metrics g)"
  "mx_success (gt_metrics (record_provider_success k u x g)) = mx_success (gt_metrics g)"
  "mx_failed (gt_metrics (record_provider_success k u x g)) = mx_failed (gt_metrics g)"
  "gt_counters (record_provider_success k u x (g\<lparr>gt_breakers := bs\<rparr>)) = gt_counters (record_provider_success k u x g)"
  "gt_metrics (record_provider_success k u x (g\<lparr>gt_breakers := bs\<rparr>)) = gt_metrics (record_provider_success k u x g)"
  by (simp_all add: record_provider_failure_def record_provider_success_def counters_of_def Let_def bump_def)

lemma audit_call_inv: "op_keeps (call_inv S L ctx rid) (audit_event env ctx rid ev)"
  by (rule audit_event_keeps) (auto simp: call_inv_def cache_from_def elim: log_from_step)

lemma breaker_steps_keep:
  assumes "\<And>s t. gt_cache (cs_gateway s) = gt_cache (cs_gateway t) \<Longrightarrow>
    gt_log (cs_gateway s) = gt_log (cs_gateway t) \<Longrightarrow> gt_metrics (cs_gateway s) = gt_metrics (cs_gateway t) \<Longrightarrow>
    gt_counters (cs_gateway s) = gt_counters (cs_gateway t) \<Longrightarrow> I s \<Longrightarrow> I t"
  shows "op_keeps I (ask_breaker env p)" "op_keeps I (fail_breaker env p)"
  by (rule op_keepsI; rule assms;
      fastforce simp: ask_breaker_def fail_breaker_def op_bind_def read_clock_def split: prod.splits)+

definition same_rest :: "gateway_state \<Rightarrow> gateway_state \<Rightarrow> bool" where
  "same_rest g h \<longleftrightarrow> gt_log g = gt_log h \<and> gt_metrics g = gt_metrics h \<and> gt_counters g = gt_counters h \<and>
     gt_breakers g = gt_breakers h"

lemma cache_put_effect:
  assumes "cache_put env c key resp s = (q, t)"
  shows "q = Inr ()" "same_rest (cs_gateway s) (cs_gateway t)"
    "set (gt_cache (cs_gateway t)) \<subseteq> set (gt_cache (cs_gateway s)) \<union> {key} \<times> UNIV \<times> {resp}"
    "length (gt_cache (cs_gateway s)) \<le> mg_max_entries c \<Longrightarrow> length (gt_cache (cs_gateway t)) \<le> mg_max_entries c"
    "distinct (map fst (gt_cache (cs_gateway s))) \<Longrightarrow> distinct (map fst (gt_cache (cs_gateway t)))"
proof -
  let ?m = "\<lambda>g now. filter (\<lambda>(k, _). k \<noteq> key) (gt_cache g) @ [(key, now + mg_ttl_ms c, resp)]"
  have q: "q = Inr () \<and> same_rest (cs_gateway s) (cs_gateway t) \<and>
      (gt_cache (cs_gateway t) = gt_cache (cs_gateway s) \<or>
       (\<exists>now. gt_cache (cs_gateway t) = drop (length (?m (cs_gateway s) now) - mg_max_entries c) (?m (cs_gateway s) now)))"
    using assms
    by (auto simp: cache_put_def op_return_def op_bind_def read_clock_def same_rest_def Let_def split: if_splits)
  then show "q = Inr ()" "same_rest (cs_gateway s) (cs_gateway t)" by auto
  have sub: "set (?m (cs_gateway s) now) \<subseteq> set (gt_cache (cs_gateway s)) \<union> {key} \<times> UNIV \<times> {resp}" for now
    by auto
  show "set (gt_cache (cs_gateway t)) \<subseteq> set (gt_cache (cs_gateway s)) \<union> {key} \<times> UNIV \<times> {resp}"
    using q by (auto dest!: in_set_dropD)
  show "length (gt_cache (cs_gateway s)) \<le> mg_max_entries c \<Longrightarrow> length (gt_cache (cs_gateway t)) \<le> mg_max_entries c"
    using q by auto
  have m: "distinct (map fst (gt_cache (cs_gateway s))) \<Longrightarrow> distinct (map fst (?m (cs_gateway s) now))" for now
    by (auto simp: distinct_map_filter)
  have d: "distinct (map fst ys) \<Longrightarrow> distinct (map fst (drop n ys))" for n and ys :: "(string \<times> int \<times> model_response) list"
    by (simp add: drop_map[symmetric])
  show "distinct (map fst (gt_cache (cs_gateway t)))" if "distinct (map fst (gt_cache (cs_gateway s)))"
    using q
  proof (elim conjE disjE exE)
    fix now
    assume "gt_cache (cs_gateway t) = drop (length (?m (cs_gateway s) now) - mg_max_entries c) (?m (cs_gateway s) now)"
    then show ?thesis using d[OF m[OF that]] by (simp only:)
  qed (use that in simp)
qed

lemma cache_get_effect:
  assumes "cache_get env key s = (q, t)"
  obtains hit where "q = Inr hit" "same_rest (cs_gateway s) (cs_gateway t)"
    "set (gt_cache (cs_gateway t)) \<subseteq> set (gt_cache (cs_gateway s))"
    "length (gt_cache (cs_gateway t)) \<le> length (gt_cache (cs_gateway s)) \<or> \<not> distinct (map fst (gt_cache (cs_gateway s)))"
    "distinct (map fst (gt_cache (cs_gateway s))) \<Longrightarrow> distinct (map fst (gt_cache (cs_gateway t)))"
    "\<And>e. hit = Some e \<Longrightarrow> \<exists>u. (key, u, e) \<in> set (gt_cache (cs_gateway s))"
proof -
  let ?m = "gt_cache (cs_gateway s)" and ?rest = "filter (\<lambda>(k, _). k \<noteq> key) (gt_cache (cs_gateway s))"
  have eff: "(\<exists>e u. map_of ?m key = Some (u, e) \<and> q = Inr (Some e) \<and> gt_cache (cs_gateway t) = ?rest @ [(key, u, e)]) \<or>
      (q = Inr None \<and> (gt_cache (cs_gateway t) = ?m \<or> gt_cache (cs_gateway t) = ?rest))"
    and rest: "same_rest (cs_gateway s) (cs_gateway t)"
    using assms by (auto simp: cache_get_def op_bind_def read_clock_def same_rest_def Let_def
        split: option.splits if_splits)
  have "length ?rest < length ?m" if "map_of ?m key = Some y" for y
    using map_of_SomeD[OF that] by (auto intro!: length_filter_less)
  then have len: "length (gt_cache (cs_gateway t)) \<le> length ?m"
    using eff by (auto intro: Suc_leI)
  have sub: "set (gt_cache (cs_gateway t)) \<subseteq> set ?m" using eff by (auto dest: map_of_SomeD)
  have dist: "distinct (map fst ?m) \<Longrightarrow> distinct (map fst (gt_cache (cs_gateway t)))"
    using eff by (auto simp: distinct_map_filter)
  from eff show thesis
  proof (elim disjE exE conjE)
    fix e u assume "map_of ?m key = Some (u, e)" "q = Inr (Some e)"
    then show thesis using that[of "Some e"] rest sub len dist by (auto dest: map_of_SomeD)
  next
    assume "q = Inr None"
    then show thesis using that[of None] rest sub len dist by blast
  next
    assume "q = Inr None"
    then show thesis using that[of None] rest sub len dist by blast
  qed
qed

lemma accept_result_effect:
  assumes "accept_result env c ctx rid r key p x s = (q, t)"
  obtains
    (refused) e where "q = Inl e" "cs_gateway t = cs_gateway s"
  | (accepted) resp where "q = Inr (Answered resp)" "ms_provider resp = pv_id p" "\<not> ms_cached resp"
      "gt_log (cs_gateway t) = gt_log (cs_gateway s) @ [(mc_trace ctx, rid, mc_actor ctx,
         Ev_Response (ms_provider resp) (ms_protocol resp) (ms_usage resp) (ms_cost resp) (ms_fallback_from resp))]"
      "set (gt_cache (cs_gateway t)) \<subseteq> set (gt_cache (cs_gateway s)) \<union> {key} \<times> UNIV \<times> {resp}"
      "length (gt_cache (cs_gateway s)) \<le> mg_max_entries c \<Longrightarrow> length (gt_cache (cs_gateway t)) \<le> mg_max_entries c"
      "distinct (map fst (gt_cache (cs_gateway s))) \<Longrightarrow> distinct (map fst (gt_cache (cs_gateway t)))"
      "mx_total (gt_metrics (cs_gateway t)) = mx_total (gt_metrics (cs_gateway s))"
      "mx_failed (gt_metrics (cs_gateway t)) = mx_failed (gt_metrics (cs_gateway s))"
      "mx_success (gt_metrics (cs_gateway t)) = Suc (mx_success (gt_metrics (cs_gateway s)))"
      "gt_counters (cs_gateway t) = gt_counters (record_provider_success (pv_id p) (ms_usage resp) (ms_cost resp) (cs_gateway s))"
      "gt_breakers (cs_gateway t) = put (pv_id p) (record_success (breaker_of p (cs_gateway s))) (gt_breakers (cs_gateway s))"
proof -
  define resp where "resp = response_of env ctx rid p x s"
  let ?ev = "Ev_Response (pv_id p) (pv_protocol p) (ms_usage resp) (ms_cost resp) (cs_fallback s)"
  have fields: "ms_provider resp = pv_id p" "\<not> ms_cached resp" "ms_protocol resp = pv_protocol p"
    "ms_fallback_from resp = cs_fallback s" by (simp_all add: resp_def response_of_def)
  obtain a u where au: "audit_event env ctx rid ?ev s = (a, u)" by (cases "audit_event env ctx rid ?ev s")
  show thesis
  proof (cases a)
    case (Inl e)
    then show thesis using assms au audit_event_log(2)[of env ctx rid ?ev s e u] refused[of e]
      by (simp add: accept_result_def with_state_def Let_def op_bind_def resp_def)
  next
    case (Inr z)
    let ?u1 = "set_breaker p (record_success (breaker_of p (cs_gateway u))) u"
    let ?u2 = "on_gateway (record_provider_success (pv_id p) (ms_usage resp) (ms_cost resp)) ?u1"
    have u: "gt_log (cs_gateway u) = gt_log (cs_gateway s) @ [(mc_trace ctx, rid, mc_actor ctx, ?ev)]"
        "gt_cache (cs_gateway u) = gt_cache (cs_gateway s)" "gt_metrics (cs_gateway u) = gt_metrics (cs_gateway s)"
        "gt_counters (cs_gateway u) = gt_counters (cs_gateway s)" "gt_breakers (cs_gateway u) = gt_breakers (cs_gateway s)"
      using au Inr by (auto simp: audit_event_def Let_def split: hook_answer.splits)
    obtain b v where bv: "(if mr_cache r then cache_put env c key resp else op_return ()) ?u2 = (b, v)"
      by (cases "(if mr_cache r then cache_put env c key resp else op_return ()) ?u2")
    have all: "b = Inr () \<and> same_rest (cs_gateway ?u2) (cs_gateway v) \<and>
        set (gt_cache (cs_gateway v)) \<subseteq> set (gt_cache (cs_gateway ?u2)) \<union> {key} \<times> UNIV \<times> {resp} \<and>
        (length (gt_cache (cs_gateway ?u2)) \<le> mg_max_entries c \<longrightarrow> length (gt_cache (cs_gateway v)) \<le> mg_max_entries c) \<and>
        (distinct (map fst (gt_cache (cs_gateway ?u2))) \<longrightarrow> distinct (map fst (gt_cache (cs_gateway v))))"
    proof (cases "mr_cache r")
      case True
      then have "cache_put env c key resp ?u2 = (b, v)" using bv by simp
      from cache_put_effect[OF this] show ?thesis by blast
    next
      case False
      then have "b = Inr () \<and> v = ?u2" using bv by (simp add: op_return_def)
      then show ?thesis by (simp add: same_rest_def)
    qed
    have put: "b = Inr ()" "same_rest (cs_gateway ?u2) (cs_gateway v)"
      "set (gt_cache (cs_gateway v)) \<subseteq> set (gt_cache (cs_gateway ?u2)) \<union> {key} \<times> UNIV \<times> {resp}"
      "length (gt_cache (cs_gateway ?u2)) \<le> mg_max_entries c \<Longrightarrow> length (gt_cache (cs_gateway v)) \<le> mg_max_entries c"
      "distinct (map fst (gt_cache (cs_gateway ?u2))) \<Longrightarrow> distinct (map fst (gt_cache (cs_gateway v)))"
      using all by blast+
    have q: "q = Inr (Answered resp)" and t: "t = on_gateway (bump (\<lambda>m. m\<lparr>mx_success := mx_success m + 1,
           mx_fallback := mx_fallback m + (if cs_fallback s = [] then 0 else 1)\<rparr>)) v"
      using assms au Inr bv put(1)
      by (auto simp: accept_result_def with_state_def Let_def op_bind_def resp_def modify_def op_return_def
          split: if_splits)
    show thesis
    proof (rule accepted[OF q fields(1,2)])
      have rest: "gt_log (cs_gateway t) = gt_log (cs_gateway u)"
        "gt_counters (cs_gateway t) = gt_counters (cs_gateway ?u2)"
        "gt_breakers (cs_gateway t) = gt_breakers (cs_gateway ?u1)" "gt_cache (cs_gateway t) = gt_cache (cs_gateway v)"
        "gt_metrics (cs_gateway v) = gt_metrics (cs_gateway ?u2)"
        using put(2) unfolding t by (simp_all add: same_rest_def)
      show "gt_log (cs_gateway t) = gt_log (cs_gateway s) @ [(mc_trace ctx, rid, mc_actor ctx,
         Ev_Response (ms_provider resp) (ms_protocol resp) (ms_usage resp) (ms_cost resp) (ms_fallback_from resp))]"
        using rest(1) u(1) fields by simp
      show "set (gt_cache (cs_gateway t)) \<subseteq> set (gt_cache (cs_gateway s)) \<union> {key} \<times> UNIV \<times> {resp}"
        "length (gt_cache (cs_gateway s)) \<le> mg_max_entries c \<Longrightarrow> length (gt_cache (cs_gateway t)) \<le> mg_max_entries c"
        "distinct (map fst (gt_cache (cs_gateway s))) \<Longrightarrow> distinct (map fst (gt_cache (cs_gateway t)))"
        using put(3-5) rest(4) u(2) by simp_all
      show "mx_total (gt_metrics (cs_gateway t)) = mx_total (gt_metrics (cs_gateway s))"
        "mx_failed (gt_metrics (cs_gateway t)) = mx_failed (gt_metrics (cs_gateway s))"
        "mx_success (gt_metrics (cs_gateway t)) = Suc (mx_success (gt_metrics (cs_gateway s)))"
        unfolding t using rest(5) u(3) by simp_all
      show "gt_counters (cs_gateway t) = gt_counters (record_provider_success (pv_id p) (ms_usage resp) (ms_cost resp) (cs_gateway s))"
        using rest(2) u(4) by (simp add: record_provider_success_def Let_def counters_of_def)
      show "gt_breakers (cs_gateway t) = put (pv_id p) (record_success (breaker_of p (cs_gateway s))) (gt_breakers (cs_gateway s))"
        using rest(3) u(5) by (simp add: breaker_of_def)
    qed
  qed
qed

lemma cache_lookup_effect:
  assumes "cache_lookup env ctx rid r key s = (q, t)"
  obtains
    (missed) "q = Inr None \<or> (\<exists>e. q = Inl e)" "same_rest (cs_gateway s) (cs_gateway t)"
      "set (gt_cache (cs_gateway t)) \<subseteq> set (gt_cache (cs_gateway s))"
      "length (gt_cache (cs_gateway t)) \<le> length (gt_cache (cs_gateway s)) \<or> \<not> distinct (map fst (gt_cache (cs_gateway s)))"
      "distinct (map fst (gt_cache (cs_gateway s))) \<Longrightarrow> distinct (map fst (gt_cache (cs_gateway t)))"
  | (hit) e u where "q = Inr (Some (cached_response rid ctx e))" "(key, u, e) \<in> set (gt_cache (cs_gateway s))"
      "gt_log (cs_gateway t) = gt_log (cs_gateway s) @ [(mc_trace ctx, rid, mc_actor ctx, Ev_Cache_Hit (ms_provider e))]"
      "set (gt_cache (cs_gateway t)) \<subseteq> set (gt_cache (cs_gateway s))"
      "length (gt_cache (cs_gateway t)) \<le> length (gt_cache (cs_gateway s)) \<or> \<not> distinct (map fst (gt_cache (cs_gateway s)))"
      "distinct (map fst (gt_cache (cs_gateway s))) \<Longrightarrow> distinct (map fst (gt_cache (cs_gateway t)))"
      "mx_total (gt_metrics (cs_gateway t)) = mx_total (gt_metrics (cs_gateway s))"
      "mx_failed (gt_metrics (cs_gateway t)) = mx_failed (gt_metrics (cs_gateway s))"
      "mx_success (gt_metrics (cs_gateway t)) = Suc (mx_success (gt_metrics (cs_gateway s)))"
      "gt_counters (cs_gateway t) = gt_counters (cs_gateway s)" "gt_breakers (cs_gateway t) = gt_breakers (cs_gateway s)"
proof (cases "mr_cache r")
  case False
  then show thesis using missed assms by (auto simp: cache_lookup_def op_return_def same_rest_def)
next
  case True
  obtain q1 t1 where get: "cache_get env key s = (q1, t1)" by (cases "cache_get env key s")
  obtain found where f: "q1 = Inr found" "same_rest (cs_gateway s) (cs_gateway t1)"
    "set (gt_cache (cs_gateway t1)) \<subseteq> set (gt_cache (cs_gateway s))"
    "length (gt_cache (cs_gateway t1)) \<le> length (gt_cache (cs_gateway s)) \<or> \<not> distinct (map fst (gt_cache (cs_gateway s)))"
    "distinct (map fst (gt_cache (cs_gateway s))) \<Longrightarrow> distinct (map fst (gt_cache (cs_gateway t1)))"
    "\<And>e. found = Some e \<Longrightarrow> \<exists>u. (key, u, e) \<in> set (gt_cache (cs_gateway s))"
    using cache_get_effect[OF get] by metis
  show thesis
  proof (cases found)
    case None
    then have "q = Inr None" "t = t1"
      using assms True get f(1) by (auto simp: cache_lookup_def op_bind_def op_return_def)
    then show thesis using missed f by blast
  next
    case (Some e)
    obtain a v where au: "audit_event env ctx rid (Ev_Cache_Hit (ms_provider e)) t1 = (a, v)"
      by (cases "audit_event env ctx rid (Ev_Cache_Hit (ms_provider e)) t1")
    obtain u where u: "(key, u, e) \<in> set (gt_cache (cs_gateway s))" using f(6) Some by blast
    show thesis
    proof (cases a)
      case (Inl x)
      then have q: "q = Inl x" and t: "t = v"
        using assms True get f(1) Some au by (auto simp: cache_lookup_def op_bind_def)
      have "cs_gateway t = cs_gateway t1" using audit_event_log(2) au Inl unfolding t by blast
      then show thesis using missed q f by simp
    next
      case (Inr z)
      have v: "same_rest (cs_gateway t1 \<lparr>gt_log := gt_log (cs_gateway v)\<rparr>) (cs_gateway v)"
        "gt_cache (cs_gateway v) = gt_cache (cs_gateway t1)"
        "gt_log (cs_gateway v) = gt_log (cs_gateway t1) @ [(mc_trace ctx, rid, mc_actor ctx, Ev_Cache_Hit (ms_provider e))]"
        using au Inr by (auto simp: audit_event_def Let_def same_rest_def split: hook_answer.splits)
      have q: "q = Inr (Some (cached_response rid ctx e))"
        and t: "t = on_gateway (bump (\<lambda>m. m\<lparr>mx_success := mx_success m + 1, mx_hits := mx_hits m + 1\<rparr>)) v"
        using assms True get f(1) Some au Inr
        by (auto simp: cache_lookup_def op_bind_def modify_def op_return_def)
      show thesis by (rule hit[OF q u]) (use t v f in \<open>auto simp: same_rest_def\<close>)
    qed
  qed
qed

lemma cached_response_fields [simp]:
  "ms_provider (cached_response rid ctx e) = ms_provider e" "ms_cached (cached_response rid ctx e)"
  "ms_content (cached_response rid ctx e) = ms_content e"
  by (simp_all add: cached_response_def)

text \<open>What a call does to cache and log, and where its answer comes from.\<close>

lemma chat_body_provenance:
  "op_triple (call_inv S L ctx rid) (chat_body env c ctx rid r) (call_answer S L env c ctx rid r)
     (\<lambda>_. call_inv S L ctx rid)"
proof (rule chat_body_rule[where good = "\<lambda>_. True" and ok = "\<lambda>_. True"])
  have weaker: "op_triple P m Q (\<lambda>_. I) \<Longrightarrow> op_triple P m (\<lambda>b s. Q b s \<and> (b \<longrightarrow> True)) (\<lambda>_. I)" for P m Q I
    by simp
  have same: "gt_cache (cs_gateway s) = gt_cache (cs_gateway t) \<Longrightarrow> gt_log (cs_gateway s) = gt_log (cs_gateway t) \<Longrightarrow>
      call_inv S L ctx rid s \<Longrightarrow> call_inv S L ctx rid t" for s t
    using call_inv_same[of s t S L ctx rid] by blast
  show "op_keeps (call_inv S L ctx rid) (audit_event env ctx rid ev)" for ev by (rule audit_call_inv)
  show "op_keeps (call_inv S L ctx rid) (fail_breaker env p)" for p by (rule breaker_steps_keep) (rule same)
  show "op_triple (call_inv S L ctx rid) (ask_breaker env p) (\<lambda>b s. call_inv S L ctx rid s \<and> (b \<longrightarrow> True))
      (\<lambda>_. call_inv S L ctx rid)" for p
    by (rule weaker, rule op_triple_of_keeps, rule breaker_steps_keep) (rule same)
  show "op_triple (call_inv S L ctx rid)
      (cache_lookup env ctx rid r (ce_key env (ce_digest env) (mc_tenant ctx) (mc_actor ctx) r))
      (found_in (call_inv S L ctx rid) (call_answer S L env c ctx rid r)) (\<lambda>_. call_inv S L ctx rid)"
  proof (rule op_tripleI)
    fix s e t assume inv: "call_inv S L ctx rid s"
      and run: "cache_lookup env ctx rid r (ce_key env (ce_digest env) (mc_tenant ctx) (mc_actor ctx) r) s = (Inl e, t)"
    from run show "call_inv S L ctx rid t"
      by (rule cache_lookup_effect) (use inv in \<open>auto simp: call_inv_def cache_from_def same_rest_def log_from_def\<close>)
  next
    fix s x t assume inv: "call_inv S L ctx rid s"
      and run: "cache_lookup env ctx rid r (ce_key env (ce_digest env) (mc_tenant ctx) (mc_actor ctx) r) s = (Inr x, t)"
    from run show "found_in (call_inv S L ctx rid) (call_answer S L env c ctx rid r) x t"
    proof (rule cache_lookup_effect, goal_cases)
      case 1
      then show ?case using inv by (auto simp: call_inv_def cache_from_def same_rest_def log_from_def)
    next
      case (2 e u)
      have "log_from L ctx rid (answer_event (cached_response rid ctx e)) (cs_gateway t)"
        by (rule log_from_step[OF _ 2(3)]) (use inv in \<open>auto simp: call_inv_def answer_event_def\<close>)
      then show ?case using 2 inv
        by (auto simp: call_answer_def call_inv_def cache_from_def call_key_def)
    qed
  qed
next
  fix ps p x assume el: "eligible_candidates c r = Inr ps" "p \<in> set ps"
  let ?key = "ce_key env (ce_digest env) (mc_tenant ctx) (mc_actor ctx) r"
  show "op_triple (call_inv S L ctx rid) (accept_result env c ctx rid r ?key p x)
      (ends_in (\<lambda>_. False) (call_answer S L env c ctx rid r)) (\<lambda>_. call_inv S L ctx rid)"
  proof (rule op_tripleI)
    fix s e t assume inv: "call_inv S L ctx rid s" and run: "accept_result env c ctx rid r ?key p x s = (Inl e, t)"
    from run show "call_inv S L ctx rid t"
      by (rule accept_result_effect) (use inv in \<open>auto simp: call_inv_def\<close>)
  next
    fix s e t assume inv: "call_inv S L ctx rid s" and run: "accept_result env c ctx rid r ?key p x s = (Inr e, t)"
    from run show "ends_in (\<lambda>_. False) (call_answer S L env c ctx rid r) e t"
    proof (rule accept_result_effect, goal_cases)
      case (2 resp)
      have "log_from L ctx rid (answer_event resp) (cs_gateway t)"
        by (rule log_from_step[OF _ 2(4)]) (use inv in \<open>auto simp: call_inv_def answer_event_def\<close>)
      moreover have "answered_by c r resp" using eligible_provider el 2(2) by blast
      ultimately show ?case using 2 inv
        by (auto simp: call_answer_def call_inv_def cache_from_def call_key_def)
    qed simp
  qed
qed (auto simp: call_inv_def cache_from_def log_from_def)

lemma chat_provenance:
  assumes "chat env c ctx rid r g = (res, g')" and S: "cache_from S g"
  shows "case res of
      Inr resp \<Rightarrow> log_from (gt_log g) ctx rid (answer_event resp) g' \<and>
        (if ms_cached resp
           then cache_from S g' \<and> (\<exists>e. (call_key env ctx r, e) \<in> S \<and> resp = cached_response rid ctx e)
           else cache_from (insert (call_key env ctx r, resp) S) g' \<and> answered_by c r resp)
    | Inl e \<Rightarrow> cache_from S g' \<and>
        log_from (gt_log g) ctx rid (if e = Gateway_Audit_Failed then UNIV else {Ev_Request_Failed e}) g'"
proof -
  have start: "call_inv S (gt_log g) ctx rid (call_start g)"
    using S by (auto simp: call_inv_def call_start_def cache_from_def log_from_def)
  note tr = chat_body_provenance[of S "gt_log g" ctx rid env c r]
  from assms(1) show ?thesis
  proof (cases rule: chat_cases)
    case (answered resp s)
    then show ?thesis using op_triple_Inr[OF tr start answered(1)] by (auto simp: call_answer_def)
  next
    case (failed e s s')
    have inv: "call_inv S (gt_log g) ctx rid s" using op_triple_Inl[OF tr start failed(1)] .
    have "cache_from S (cs_gateway s')"
      using failed(3) inv by (auto simp: audit_event_def Let_def call_inv_def cache_from_def split: hook_answer.splits)
    moreover have "log_from (gt_log g) ctx rid {Ev_Request_Failed e} (cs_gateway s')"
      by (rule log_from_step[of _ _ _ "cs_gateway s"])
        (use inv audit_event_log(1)[OF failed(3)] in \<open>auto simp: call_inv_def\<close>)
    ultimately show ?thesis using failed log_from_any by auto
  next
    case (silent e s x s')
    have inv: "call_inv S (gt_log g) ctx rid s" using op_triple_Inl[OF tr start silent(1)] .
    then show ?thesis using silent audit_event_log(2)[OF silent(3)]
      by (auto simp: call_inv_def cache_from_def log_from_def)
  qed
qed

end
