(* ===== verification/ModelProps.thy ===== *)
theory ModelProps
  imports ModelEffects
begin

text \<open>
  Properties of the model gateway over sequences of calls: routing constraints, cache isolation,
  audit, circuit breakers and counts.
\<close>

section \<open>Sequences of calls\<close>

record model_call =
  ml_config :: model_config
  ml_env :: call_env
  ml_context :: call_context
  ml_id :: string
  ml_request :: model_request

definition run_call :: "model_call \<Rightarrow> (gateway_state, model_error, model_response) op" where
  "run_call l = chat (ml_env l) (ml_config l) (ml_context l) (ml_id l) (ml_request l)"

fun run_chats :: "model_call list \<Rightarrow> gateway_state \<Rightarrow> (model_error + model_response) list \<times> gateway_state" where
  "run_chats [] g = ([], g)"
| "run_chats (l # ls) g =
     (case run_call l g of (res, h) \<Rightarrow> (case run_chats ls h of (rs, k) \<Rightarrow> (res # rs, k)))"

definition key_of :: "model_call \<Rightarrow> string" where
  "key_of l = call_key (ml_env l) (ml_context l) (ml_request l)"

text \<open>
  Equal cache keys come from equal configurations, tenants, actors and requests: SHA-256 has no
  collision among the calls at hand.
\<close>

definition keys_faithful :: "model_call list \<Rightarrow> bool" where
  "keys_faithful ls \<longleftrightarrow> (\<forall>l \<in> set ls. \<forall>m \<in> set ls. key_of l = key_of m \<longrightarrow>
     ml_config l = ml_config m \<and> ml_request l = ml_request m \<and>
     mc_tenant (ml_context l) = mc_tenant (ml_context m) \<and> mc_actor (ml_context l) = mc_actor (ml_context m))"

lemma run_chats_snoc:
  "run_chats (ls @ [l]) g =
     (case run_chats ls g of (rs, h) \<Rightarrow> (case run_call l h of (res, k) \<Rightarrow> (rs @ [res], k)))"
  by (induction ls arbitrary: g) (auto split: prod.splits)

lemma run_chats_length: "run_chats ls g = (rs, h) \<Longrightarrow> length rs = length ls"
  by (induction ls arbitrary: g rs) (auto split: prod.splits)

definition entries_before :: "model_call list \<Rightarrow> (model_error + model_response) list \<Rightarrow> nat \<Rightarrow> (string \<times> model_response) set" where
  "entries_before ls rs n = {(key_of (ls ! j), e) |j e. j < n \<and> rs ! j = Inr e \<and> \<not> ms_cached e}"

lemma entries_before_append:
  "n \<le> length ls \<Longrightarrow> n \<le> length rs \<Longrightarrow> entries_before (ls @ ms) (rs @ qs) n = entries_before ls rs n"
  unfolding entries_before_def by (auto simp: nth_append cong: conj_cong)

text \<open>Every cached entry is the answer of an earlier call under its key, and so is every cached answer.\<close>

lemma run_chats_provenance:
  "run_chats ls new_model_gateway = (rs, g) \<Longrightarrow>
     cache_from (entries_before ls rs (length ls)) g \<and>
     (\<forall>i < length ls. \<forall>resp. rs ! i = Inr resp \<longrightarrow>
        (if ms_cached resp
           then \<exists>e. (key_of (ls ! i), e) \<in> entries_before ls rs i \<and>
                 resp = cached_response (ml_id (ls ! i)) (ml_context (ls ! i)) e
           else answered_by (ml_config (ls ! i)) (ml_request (ls ! i)) resp))"
proof (induction ls arbitrary: rs g rule: rev_induct)
  case Nil
  then show ?case by (auto simp: new_model_gateway_def cache_from_def)
next
  case (snoc l ls)
  obtain qs h where pre: "run_chats ls new_model_gateway = (qs, h)" by (cases "run_chats ls new_model_gateway")
  obtain res where step: "run_call l h = (res, g)" "rs = qs @ [res]"
    using snoc.prems pre by (auto simp: run_chats_snoc split: prod.splits)
  note IH = snoc.IH[OF pre]
  have len: "length qs = length ls" using run_chats_length[OF pre] .
  have same: "entries_before (ls @ [l]) rs n = entries_before ls qs n" if "n \<le> length ls" for n
    using that len unfolding step(2) by (simp add: entries_before_append)
  have more: "entries_before (ls @ [l]) rs (length (ls @ [l])) =
      entries_before ls qs (length ls) \<union> {(key_of l, e) |e. res = Inr e \<and> \<not> ms_cached e}"
  proof -
    have "entries_before (ls @ [l]) rs (Suc (length ls)) = entries_before (ls @ [l]) rs (length ls) \<union>
        {(key_of l, e) |e. res = Inr e \<and> \<not> ms_cached e}"
      using len unfolding entries_before_def step(2) by (auto simp: less_Suc_eq nth_append)
    then show ?thesis by (simp add: same)
  qed
  note prov = chat_provenance[OF step(1)[unfolded run_call_def] conjunct1[OF IH]]
  have "cache_from (entries_before (ls @ [l]) rs (length (ls @ [l]))) g"
    unfolding more using prov
    by (cases res) (auto simp: key_of_def intro: cache_from_mono split: if_splits)
  moreover have "if ms_cached resp
       then \<exists>e. (key_of l, e) \<in> entries_before ls qs (length ls) \<and> resp = cached_response (ml_id l) (ml_context l) e
       else answered_by (ml_config l) (ml_request l) resp" if "res = Inr resp" for resp
    using prov that by (auto simp: key_of_def split: if_splits)
  ultimately show ?case
    using IH len same by (auto simp: nth_append step(2) less_Suc_eq)
qed



section \<open>Properties\<close>

definition demo_provider :: provider where
  "demo_provider = \<lparr>pv_id = ''local'', pv_name = ''Local'', pv_protocol = Internal_Protocol, pv_model = ''m'',
     pv_endpoint = None, pv_credential = None, pv_enabled = True, pv_network = False, pv_private = True,
     pv_capabilities = [Chat], pv_tasks = [''general''], pv_max_context = 9, pv_max_output = 4,
     pv_prompt_cost = 0, pv_completion_cost = 0, pv_priority = 1, pv_timeout_ms = 9, pv_attempts = 1,
     pv_threshold = 1, pv_recovery_ms = 5\<rparr>"

definition demo_config :: model_config where
  "demo_config = \<lparr>mg_version = ''1.0.0'', mg_default = ''local'', mg_concurrency = 1, mg_ttl_ms = 9,
     mg_max_entries = 2, mg_max_cost = 1, mg_providers = [(''local'', demo_provider)], mg_rules = []\<rparr>"

definition demo_env :: "generate_answer \<Rightarrow> call_env" where
  "demo_env a = \<lparr>ce_audit = \<lambda>_. Hook_Ok, ce_generate = \<lambda>_ _. a, ce_clock = \<lambda>_. 0, ce_cost = \<lambda>_ _. 0,
     ce_key = \<lambda>_ _ _ _. ''key'', ce_digest = ''digest''\<rparr>"

definition demo_model_request :: model_request where
  "demo_model_request = \<lparr>mr_messages = [\<lparr>mm_role = User_Role, mm_content = ''hi''\<rparr>], mr_task = ''general'',
     mr_provider = None, mr_max_output = 3, mr_temperature = 0, mr_capabilities = [], mr_class = Restricted_Data,
     mr_private = False, mr_fallback = True, mr_cache = True, mr_max_cost = None\<rparr>"

definition demo_call :: "generate_answer \<Rightarrow> model_call" where
  "demo_call a = \<lparr>ml_config = demo_config, ml_env = demo_env a,
     ml_context = \<lparr>mc_trace = ''t'', mc_tenant = ''acme'', mc_actor = ''ann''\<rparr>, ml_id = ''r1'',
     ml_request = demo_model_request\<rparr>"

abbreviation demo_answer :: generate_answer where
  "demo_answer \<equiv> Generated \<lparr>pr_content = ''hello'', pr_finish = ''stop'', pr_prompt = 1, pr_completion = 1\<rparr>"

lemmas demo_defs = demo_provider_def demo_config_def demo_env_def demo_model_request_def demo_call_def


lemma demo_eligible: "eligible_candidates demo_config demo_model_request = Inr [demo_provider]"
  by (simp add: eligible_candidates_def candidate_ids_def routing_rule_for_def opt_list_def demo_defs admissible_def
     affordable_def private_only_def required_capabilities_def prompt_tokens_def max_latency_def worst_case_cost_def call_budget_def)

lemmas call_evals = chat_def chat_body_def cache_lookup_def cache_get_def cache_put_def read_clock_def
  audit_event_def ask_breaker_def fail_breaker_def run_attempt_def accept_result_def generate_def
  with_state_def modify_def on_gateway_def bump_def set_breaker_def breaker_of_def allow_call_def new_breaker_def
  record_success_def record_failure_def record_provider_success_def record_provider_failure_def counters_of_def
  zero_counters_def zero_model_metrics_def put_def response_of_def usage_of_def cached_response_def
  leave_provider_def new_model_gateway_def op_bind_def op_catch_def op_try_def op_return_def op_raise_def
  eval_nat_numeral Let_def

lemma demo_run:
  "(case run_chats [demo_call demo_answer, demo_call Gen_Timeout] new_model_gateway of
      (rs, g) \<Rightarrow> (case rs of [Inr a, Inr b] \<Rightarrow> ms_provider b = ''local'' \<and> \<not> ms_cached a \<and> ms_cached b | _ \<Rightarrow> False))"
  by (simp add: run_call_def demo_call_def call_evals demo_eligible)
    (simp add: demo_defs call_evals)

lemma demo_results:
  obtains a b g where "run_chats [demo_call demo_answer, demo_call Gen_Timeout] new_model_gateway = ([Inr a, Inr b], g)"
    "ms_provider b = ''local''" "\<not> ms_cached a" "ms_cached b"
proof -
  obtain rs g where run: "run_chats [demo_call demo_answer, demo_call Gen_Timeout] new_model_gateway = (rs, g)"
    by (cases "run_chats [demo_call demo_answer, demo_call Gen_Timeout] new_model_gateway")
  have shape: "case rs of [Inr a, Inr b] \<Rightarrow> ms_provider b = ''local'' \<and> \<not> ms_cached a \<and> ms_cached b | _ \<Rightarrow> False"
    using demo_run unfolding run by (simp only: prod.case)
  obtain x y where xy: "rs = [x, y]" using run_chats_length[OF run] by (auto simp: length_Suc_conv)
  show thesis using that[OF _] run shape unfolding xy by (cases x; cases y) simp_all
qed

lemma demo_keys: "keys_faithful [demo_call demo_answer, demo_call Gen_Timeout]"
  by (simp add: keys_faithful_def demo_call_def)


text \<open>The response cache never crosses tenants, actors or requests. A cached answer repeats
  the content and provider of an answer that an earlier call of the same tenant and actor, with
  the same request under the same configuration, received from its provider.\<close>

theorem cached_answers_stay_with_tenant:
  assumes "run_chats ls new_model_gateway = (rs, g)" "keys_faithful ls"
    and "i < length ls" "rs ! i = Inr resp" "ms_cached resp"
  shows "\<exists>j < i. \<exists>first. rs ! j = Inr first \<and> \<not> ms_cached first \<and>
    ms_content resp = ms_content first \<and> ms_provider resp = ms_provider first \<and>
    mc_tenant (ml_context (ls ! j)) = mc_tenant (ml_context (ls ! i)) \<and>
    mc_actor (ml_context (ls ! j)) = mc_actor (ml_context (ls ! i)) \<and>
    ml_request (ls ! j) = ml_request (ls ! i) \<and> ml_config (ls ! j) = ml_config (ls ! i)"
proof -
  obtain e where e: "(key_of (ls ! i), e) \<in> entries_before ls rs i"
    "resp = cached_response (ml_id (ls ! i)) (ml_context (ls ! i)) e"
    using run_chats_provenance[OF assms(1)] assms(3-5) by (metis (full_types))
  then obtain j where j: "j < i" "rs ! j = Inr e" "\<not> ms_cached e" "key_of (ls ! i) = key_of (ls ! j)"
    by (auto simp: entries_before_def)
  moreover have "ls ! i \<in> set ls" "ls ! j \<in> set ls" using assms(3) j by auto
  ultimately show ?thesis using assms(2) e(2) unfolding keys_faithful_def by fastforce
qed

theorem cached_answers_stay_with_tenant_witness:
  "\<exists>a b g. run_chats [demo_call demo_answer, demo_call Gen_Timeout] new_model_gateway = ([Inr a, Inr b], g) \<and>
     ms_content b = ms_content a"
proof (rule demo_results)
  fix a b g assume run: "run_chats [demo_call demo_answer, demo_call Gen_Timeout] new_model_gateway = ([Inr a, Inr b], g)"
    and "ms_cached b"
  then show ?thesis using cached_answers_stay_with_tenant[OF run demo_keys, of 1 b] by auto
qed

text \<open>C31: No model call goes unaudited. A call only appends to the audit log, every event carries
  its trace, request and actor, and the last one reports the outcome the caller gets: the
  answer with its provider, usage and cost, the cache hit, or the error raised; the only error
  without an event is the one that says the audit failed.\<close>

theorem model_calls_are_audited:
  assumes "chat env c ctx rid r g = (res, g')"
  shows "\<exists>evs. gt_log g' = gt_log g @ map (\<lambda>ev. (mc_trace ctx, rid, mc_actor ctx, ev)) evs \<and>
    (case res of
       Inr resp \<Rightarrow> evs \<noteq> [] \<and> (last evs = Ev_Cache_Hit (ms_provider resp) \<or>
         last evs = Ev_Response (ms_provider resp) (ms_protocol resp) (ms_usage resp) (ms_cost resp) (ms_fallback_from resp))
     | Inl e \<Rightarrow> e = Gateway_Audit_Failed \<or> evs \<noteq> [] \<and> last evs = Ev_Request_Failed e)"
proof -
  have out: "log_from L ctx rid E g \<Longrightarrow> \<exists>x. x \<notin> E \<Longrightarrow>
      \<exists>evs. gt_log g = L @ map (\<lambda>ev. (mc_trace ctx, rid, mc_actor ctx, ev)) evs \<and> evs \<noteq> [] \<and> last evs \<in> E" for L E g
    unfolding log_from_def by blast
  have some: "\<exists>x. x \<notin> answer_event resp" for resp
    by (rule exI[of _ "Ev_Skipped []"]) (simp add: answer_event_def)
  have other: "\<exists>x. x \<notin> {Ev_Request_Failed e}" for e by (rule exI[of _ "Ev_Skipped []"]) simp
  have "cache_from UNIV g" by (simp add: cache_from_def)
  note prov = chat_provenance[OF assms this]
  show ?thesis
  proof (cases res)
    case (Inr resp)
    then have "log_from (gt_log g) ctx rid (answer_event resp) g'" using prov by simp
    from out[OF this some] show ?thesis by (auto simp: Inr answer_event_def)
  next
    case (Inl e)
    show ?thesis
    proof (cases "e = Gateway_Audit_Failed")
      case True
      then show ?thesis using prov by (auto simp: Inl log_from_def)
    next
      case False
      then have "log_from (gt_log g) ctx rid {Ev_Request_Failed e} g'" using prov Inl by simp
      from out[OF this other] show ?thesis by (auto simp: Inl)
    qed
  qed
qed

theorem model_calls_are_audited_witness:
  "\<exists>res g' evs. run_call (demo_call demo_answer) new_model_gateway = (res, g') \<and>
     gt_log g' = gt_log new_model_gateway @ map (\<lambda>ev. (''t'', ''r1'', ''ann'', ev)) evs"
proof -
  obtain res g' where run: "run_call (demo_call demo_answer) new_model_gateway = (res, g')"
    by (cases "run_call (demo_call demo_answer) new_model_gateway")
  then show ?thesis
    using model_calls_are_audited[of "ml_env (demo_call demo_answer)" "ml_config (demo_call demo_answer)"
        "ml_context (demo_call demo_answer)" "ml_id (demo_call demo_answer)" "ml_request (demo_call demo_answer)"]
    by (fastforce simp: run_call_def demo_call_def)
qed

section \<open>Circuit breakers in calls\<close>

definition refuses :: "call_env \<Rightarrow> breaker \<Rightarrow> bool" where
  "refuses env b \<longleftrightarrow> (\<forall>n. \<not> fst (allow_call (ce_clock env n) b))"

definition attempts_on :: "string \<Rightarrow> audited list \<Rightarrow> nat" where
  "attempts_on k L = length (filter (\<lambda>(_, _, _, ev). case ev of Ev_Attempt j _ \<Rightarrow> j = k | _ \<Rightarrow> False) L)"

definition refused_inv :: "string \<Rightarrow> breaker \<Rightarrow> nat \<Rightarrow> call_state \<Rightarrow> bool" where
  "refused_inv k b n s \<longleftrightarrow> map_of (gt_breakers (cs_gateway s)) k = Some b \<and> attempts_on k (gt_log (cs_gateway s)) = n"

lemma refused_unchanged: "\<not> fst (allow_call now b) \<Longrightarrow> snd (allow_call now b) = b"
  by (auto simp: allow_call_def split: option.splits if_splits)

lemma map_of_put: "map_of (put k v m) j = (if j = k then Some v else map_of m j)"
  by (induction m) (auto simp: put_def)

lemma refused_chat_body:
  assumes "refuses env b"
  shows "op_triple (refused_inv k b n) (chat_body env c ctx rid r) (\<lambda>_. refused_inv k b n) (\<lambda>_. refused_inv k b n)"
proof (rule chat_body_rule[where good = "\<lambda>ev. \<forall>i. ev \<noteq> Ev_Attempt k i" and ok = "\<lambda>p. pv_id p \<noteq> k"])
  fix ev assume "\<forall>i. ev \<noteq> Ev_Attempt k i"
  then show "op_keeps (refused_inv k b n) (audit_event env ctx rid ev)"
    by (intro audit_event_keeps) (auto simp: refused_inv_def attempts_on_def split: model_event.splits)
next
  fix p :: provider assume "pv_id p \<noteq> k"
  then show "op_keeps (refused_inv k b n) (fail_breaker env p)"
    by (intro op_keepsI) (auto simp: fail_breaker_def op_bind_def read_clock_def refused_inv_def map_of_put)
next
  fix p
  show "op_triple (refused_inv k b n) (ask_breaker env p) (\<lambda>q s. refused_inv k b n s \<and> (q \<longrightarrow> pv_id p \<noteq> k))
      (\<lambda>_. refused_inv k b n)"
  proof (rule op_tripleI)
    fix s x t assume "refused_inv k b n s" "ask_breaker env p s = (Inr x, t)"
    moreover have "\<not> fst (allow_call (ce_clock env (cs_ticks s)) b)" using assms by (simp add: refuses_def)
    ultimately show "refused_inv k b n t \<and> (x \<longrightarrow> pv_id p \<noteq> k)"
      using refused_unchanged[of "ce_clock env (cs_ticks s)" b]
      by (auto simp: ask_breaker_def op_bind_def read_clock_def refused_inv_def map_of_put breaker_of_def
          split: prod.splits)
  qed (auto simp: ask_breaker_def op_bind_def read_clock_def split: prod.splits)
next
  show "op_triple (refused_inv k b n)
      (cache_lookup env ctx rid r (ce_key env (ce_digest env) (mc_tenant ctx) (mc_actor ctx) r))
      (found_in (refused_inv k b n) (\<lambda>_. refused_inv k b n)) (\<lambda>_. refused_inv k b n)"
    by (rule op_tripleI; erule cache_lookup_effect)
      (auto simp: refused_inv_def same_rest_def attempts_on_def split: option.splits)
next
  fix ps x and p :: provider assume "pv_id p \<noteq> k"
  then show "op_triple (refused_inv k b n)
      (accept_result env c ctx rid r (ce_key env (ce_digest env) (mc_tenant ctx) (mc_actor ctx) r) p x)
      (ends_in (\<lambda>_. False) (\<lambda>_. refused_inv k b n)) (\<lambda>_. refused_inv k b n)"
    by (intro op_tripleI; elim accept_result_effect)
      (auto simp: refused_inv_def attempts_on_def map_of_put)
qed (auto simp: refused_inv_def attempts_on_def)

lemma refused_chat:
  assumes "refuses env b" "map_of (gt_breakers g) k = Some b" "chat env c ctx rid r g = (res, g')"
  shows "map_of (gt_breakers g') k = Some b \<and> attempts_on k (gt_log g') = attempts_on k (gt_log g)"
proof -
  have start: "refused_inv k b (attempts_on k (gt_log g)) (call_start g)"
    using assms(2) by (simp add: refused_inv_def call_start_def)
  note tr = refused_chat_body[OF assms(1), of k "attempts_on k (gt_log g)" c ctx rid r]
  from assms(3) show ?thesis
  proof (cases rule: chat_cases)
    case (answered resp s)
    then show ?thesis using op_triple_Inr[OF tr start answered(1)] by (simp add: refused_inv_def)
  next
    case (failed e s s')
    then show ?thesis using op_triple_Inl[OF tr start failed(1)]
      by (auto simp: refused_inv_def audit_event_def Let_def attempts_on_def split: hook_answer.splits)
  next
    case (silent e s x s')
    then show ?thesis using op_triple_Inl[OF tr start silent(1)] audit_event_log(2)[OF silent(3)]
      by (simp add: refused_inv_def)
  qed
qed

lemma refused_chats:
  assumes "\<And>l. l \<in> set ls \<Longrightarrow> refuses (ml_env l) b" "map_of (gt_breakers g) k = Some b" "run_chats ls g = (rs, g')"
  shows "map_of (gt_breakers g') k = Some b \<and> attempts_on k (gt_log g') = attempts_on k (gt_log g)"
  using assms
proof (induction ls arbitrary: g rs)
  case (Cons l ls)
  obtain res h where step: "run_call l g = (res, h)" by (cases "run_call l g")
  obtain rs' where rest: "run_chats ls h = (rs', g')" using Cons.prems(3) step by (auto split: prod.splits)
  have "map_of (gt_breakers h) k = Some b \<and> attempts_on k (gt_log h) = attempts_on k (gt_log g)"
    using refused_chat[OF _ Cons.prems(2) step[unfolded run_call_def]] Cons.prems(1) by simp
  then show ?case using Cons.IH[OF _ _ rest] Cons.prems(1) by simp
qed simp

text \<open>An open circuit is respected. While a provider's circuit is open and the clock has not
  reached its recovery time, no sequence of calls makes an attempt on the provider, and the
  circuit stays as it is.\<close>

theorem open_circuit_respected:
  assumes "map_of (gt_breakers g) k = Some b" "br_opened b = Some t" "run_chats ls g = (rs, g')"
    and "\<And>l n. l \<in> set ls \<Longrightarrow> ce_clock (ml_env l) n < t + br_recovery b"
  shows "attempts_on k (gt_log g') = attempts_on k (gt_log g) \<and> map_of (gt_breakers g') k = Some b"
proof -
  have "refuses (ml_env l) b" if "l \<in> set ls" for l
    unfolding refuses_def allow_call_def using assms(2) assms(4)[OF that]
    by (auto simp: diff_less_eq add.commute)
  then show ?thesis using refused_chats[OF _ assms(1,3)] by blast
qed

definition open_breaker :: breaker where
  "open_breaker = record_failure 0 (new_breaker 1 5)"

theorem open_circuit_respected_witness:
  "attempts_on ''local'' (gt_log (snd (run_chats [demo_call demo_answer]
     (new_model_gateway\<lparr>gt_breakers := [(''local'', open_breaker)]\<rparr>)))) = 0"
proof -
  let ?g = "new_model_gateway\<lparr>gt_breakers := [(''local'', open_breaker)]\<rparr>"
  obtain rs g' where run: "run_chats [demo_call demo_answer] ?g = (rs, g')"
    by (cases "run_chats [demo_call demo_answer] ?g")
  show ?thesis
    using open_circuit_respected[OF _ _ run, of "''local''" open_breaker 0] run
    by (simp add: open_breaker_def record_failure_def new_breaker_def demo_defs attempts_on_def new_model_gateway_def)
qed

text \<open>
  A half-open circuit whose probe has been given out and never reported back refuses for good.
\<close>

lemma half_open_stuck:
  assumes "map_of (gt_breakers g) k = Some b" "br_opened b = None" "br_probe b" "run_chats ls g = (rs, g')"
  shows "attempts_on k (gt_log g') = attempts_on k (gt_log g) \<and> map_of (gt_breakers g') k = Some b"
proof -
  have "refuses env b" for env using assms(2,3) by (simp add: refuses_def allow_call_def)
  then show ?thesis using refused_chats[OF _ assms(1,4)] by blast
qed

text \<open>
  One unavailable answer to the probe is enough: after it, whatever the clock shows and however
  many calls follow, the provider is never tried again.
\<close>

lemma probe_lost_to_unavailable:
  "(case run_chats [demo_call Gen_Unavailable] (new_model_gateway\<lparr>gt_breakers := [(''local'', open_breaker\<lparr>br_recovery := 0\<rparr>)]\<rparr>) of
      (rs, g) \<Rightarrow> (case map_of (gt_breakers g) ''local'' of Some b \<Rightarrow> br_opened b = None \<and> br_probe b | None \<Rightarrow> False))"
  by (simp add: run_call_def demo_call_def call_evals demo_eligible open_breaker_def)
    (simp add: demo_defs call_evals)?

text \<open>
  An audit hook that times out while an attempt is announced is taken for a provider that timed
  out: the call goes on, and the failure is charged to the provider, whose circuit opens.
\<close>

lemma audit_timeout_blamed_on_provider:
  "(case run_call (demo_call demo_answer\<lparr>ml_env := demo_env demo_answer
        \<lparr>ce_audit := \<lambda>n. if n = 1 then Hook_Timeout else Hook_Ok\<rparr>\<rparr>) new_model_gateway of
      (res, g) \<Rightarrow> res = Inl All_Candidates_Failed \<and>
        (case map_of (gt_breakers g) ''local'' of Some b \<Rightarrow> circuit_state b = Circuit_Open | None \<Rightarrow> False))"
  by (simp add: run_call_def demo_call_def call_evals demo_eligible circuit_state_def)
    (simp add: demo_defs call_evals circuit_state_def)

section \<open>Counts\<close>

definition counters_add_up :: "gateway_state \<Rightarrow> bool" where
  "counters_add_up g \<longleftrightarrow> (\<forall>(k, n) \<in> set (gt_counters g). ct_calls n = ct_successes n + ct_failures n)"

definition cache_bounded :: "nat \<Rightarrow> gateway_state \<Rightarrow> bool" where
  "cache_bounded m g \<longleftrightarrow> length (gt_cache g) \<le> m \<and> distinct (map fst (gt_cache g))"

definition counted :: "nat \<Rightarrow> nat \<Rightarrow> gateway_state \<Rightarrow> bool" where
  "counted m d g \<longleftrightarrow> counters_add_up g \<and> cache_bounded m g \<and>
     mx_total (gt_metrics g) = mx_success (gt_metrics g) + mx_failed (gt_metrics g) + d"

lemma counters_step:
  assumes "counters_add_up g"
  shows "counters_add_up (record_provider_failure k g)" "counters_add_up (record_provider_success k u x g)"
proof -
  have "ct_calls (counters_of k g) = ct_successes (counters_of k g) + ct_failures (counters_of k g)"
    using assms by (auto simp: counters_add_up_def counters_of_def zero_counters_def dest!: map_of_SomeD split: option.splits)
  then show "counters_add_up (record_provider_failure k g)" "counters_add_up (record_provider_success k u x g)"
    using assms by (auto simp: counters_add_up_def record_provider_failure_def record_provider_success_def Let_def put_def bump_def)
qed

lemma counters_cong: "gt_counters h = gt_counters g \<Longrightarrow> counters_add_up g \<Longrightarrow> counters_add_up h"
  by (simp add: counters_add_up_def)

lemma counted_same:
  "gt_cache g = gt_cache h \<Longrightarrow> gt_counters g = gt_counters h \<Longrightarrow> gt_metrics g = gt_metrics h \<Longrightarrow>
     counted m d g \<Longrightarrow> counted m d h"
  by (simp add: counted_def counters_add_up_def cache_bounded_def)

lemma counted_chat_body:
  "op_triple (\<lambda>s. counted (mg_max_entries c) 1 (cs_gateway s)) (chat_body env c ctx rid r)
     (\<lambda>_ s. counted (mg_max_entries c) 0 (cs_gateway s)) (\<lambda>_ s. counted (mg_max_entries c) 1 (cs_gateway s))"
proof (rule chat_body_rule[where good = "\<lambda>_. True" and ok = "\<lambda>_. True"])
  let ?I = "\<lambda>s. counted (mg_max_entries c) 1 (cs_gateway s)"
  show "op_keeps ?I (audit_event env ctx rid ev)" for ev
    by (rule audit_event_keeps) (auto elim: counted_same[rotated -1])
  show "op_keeps ?I (fail_breaker env p)" for p by (rule breaker_steps_keep) (blast intro: counted_same)
  show "op_triple ?I (ask_breaker env p) (\<lambda>b s. ?I s \<and> (b \<longrightarrow> True)) (\<lambda>_. ?I)" for p
    by (simp, rule op_triple_of_keeps, rule breaker_steps_keep) (blast intro: counted_same)
  show "op_triple ?I (cache_lookup env ctx rid r (ce_key env (ce_digest env) (mc_tenant ctx) (mc_actor ctx) r))
      (found_in ?I (\<lambda>_ s. counted (mg_max_entries c) 0 (cs_gateway s))) (\<lambda>_. ?I)"
    by (rule op_tripleI; erule cache_lookup_effect)
      (auto simp: counted_def counters_add_up_def cache_bounded_def same_rest_def split: option.splits)
next
  fix p x
  show "op_triple (\<lambda>s. counted (mg_max_entries c) 1 (cs_gateway s))
      (accept_result env c ctx rid r (ce_key env (ce_digest env) (mc_tenant ctx) (mc_actor ctx) r) p x)
      (ends_in (\<lambda>_. False) (\<lambda>_ s. counted (mg_max_entries c) 0 (cs_gateway s)))
      (\<lambda>_ s. counted (mg_max_entries c) 1 (cs_gateway s))"
    by (rule op_tripleI; erule accept_result_effect)
      (auto simp: counted_def cache_bounded_def intro: counters_cong[OF _ counters_step(2)])
qed (auto simp: counted_def cache_bounded_def counters_step)

lemma counted_chat:
  assumes "counted (mg_max_entries c) 0 g" "chat env c ctx rid r g = (res, g')"
  shows "counted (mg_max_entries c) 0 g'"
proof -
  have start: "counted (mg_max_entries c) 1 (cs_gateway (call_start g))"
    using assms(1) by (simp add: counted_def call_start_def counters_add_up_def cache_bounded_def)
  note tr = counted_chat_body[of c env ctx rid r]
  have close: "counted m 1 h \<Longrightarrow> counted m 0 (bump (\<lambda>m. m\<lparr>mx_failed := mx_failed m + 1\<rparr>) h)" for m h
    by (simp add: counted_def counters_add_up_def cache_bounded_def)
  from assms(2) show ?thesis
  proof (cases rule: chat_cases)
    case (answered resp s)
    then show ?thesis using op_triple_Inr[OF tr start answered(1)] by simp
  next
    case (failed e s s')
    have "counted (mg_max_entries c) 0 (cs_gateway (on_gateway (bump (\<lambda>m. m\<lparr>mx_failed := mx_failed m + 1\<rparr>)) s))"
      using close[OF op_triple_Inl[OF tr start failed(1)]] by simp
    then show ?thesis using failed(3,4)
      by (auto simp: audit_event_def Let_def split: hook_answer.splits elim!: counted_same[rotated -1])
  next
    case (silent e s x s')
    then show ?thesis using close[OF op_triple_Inl[OF tr start silent(1)]] audit_event_log(2)[OF silent(3)] by simp
  qed
qed

text \<open>The gateway's books balance and its cache is bounded. After any sequence of calls under
  one configuration every call is counted once as a success or a failure, every provider's
  attempts split into successes and failures, and the cache holds at most the configured number
  of entries, at most one per key.\<close>

theorem model_gateway_counts:
  assumes "run_chats ls new_model_gateway = (rs, g)" "\<And>l. l \<in> set ls \<Longrightarrow> ml_config l = c"
  shows "mx_total (gt_metrics g) = mx_success (gt_metrics g) + mx_failed (gt_metrics g) \<and>
    counters_add_up g \<and> cache_bounded (mg_max_entries c) g"
proof -
  have "counted (mg_max_entries c) 0 g" if "counted (mg_max_entries c) 0 h" "run_chats ls h = (rs, g)" for h
    using that assms(2)
  proof (induction ls arbitrary: h rs)
    case (Cons l ls)
    obtain res k where step: "run_call l h = (res, k)" by (cases "run_call l h")
    obtain rs' where rest: "run_chats ls k = (rs', g)" using Cons.prems(2) step by (auto split: prod.splits)
    have "counted (mg_max_entries c) 0 k"
      using counted_chat[of "ml_config l" h] step Cons.prems(1,3) unfolding run_call_def by auto
    then show ?case using Cons.IH[OF _ rest] Cons.prems(3) by simp
  qed simp
  moreover have "counted (mg_max_entries c) 0 new_model_gateway"
    by (simp add: counted_def new_model_gateway_def counters_add_up_def cache_bounded_def zero_model_metrics_def)
  ultimately show ?thesis using assms(1) by (auto simp: counted_def)
qed

theorem model_gateway_counts_witness:
  "cache_bounded 2 (snd (run_chats [demo_call demo_answer, demo_call Gen_Timeout] new_model_gateway))"
proof -
  let ?ls = "[demo_call demo_answer, demo_call Gen_Timeout]"
  obtain rs g where run: "run_chats ?ls new_model_gateway = (rs, g)" by (cases "run_chats ?ls new_model_gateway")
  have "ml_config l = demo_config" if "l \<in> set ?ls" for l using that by (auto simp: demo_call_def)
  from model_gateway_counts[OF run this] show ?thesis unfolding run by (simp add: demo_config_def)
qed

section \<open>The breaker as a state machine\<close>

datatype breaker_op = Ask int | Succeeded | Failed_At int

fun breaker_step :: "breaker_op \<Rightarrow> breaker \<Rightarrow> breaker" where
  "breaker_step (Ask now) b = snd (allow_call now b)"
| "breaker_step Succeeded b = record_success b"
| "breaker_step (Failed_At now) b = record_failure now b"

text \<open>The failures since the last success, in a history with the latest operation last.\<close>

fun failures_of :: "breaker_op list \<Rightarrow> nat" where
  "failures_of [] = 0"
| "failures_of (Failed_At _ # ops) = Suc (failures_of ops)"
| "failures_of (Succeeded # ops) = 0"
| "failures_of (Ask _ # ops) = failures_of ops"

lemma breaker_history:
  defines "run ops \<equiv> fold breaker_step ops"
  shows "br_failures (run ops (new_breaker n d)) = failures_of (rev ops) \<and>
    br_threshold (run ops (new_breaker n d)) = n \<and> br_recovery (run ops (new_breaker n d)) = d \<and>
    (br_opened (run ops (new_breaker n d)) \<noteq> None \<longrightarrow> n \<le> failures_of (rev ops) \<and> \<not> br_probe (run ops (new_breaker n d)))"
proof (induction ops rule: rev_induct)
  case (snoc x ops)
  then show ?case
    by (cases x) (auto simp: run_def allow_call_def record_success_def record_failure_def Let_def
        split: option.splits if_splits)
qed (simp add: run_def new_breaker_def)

text \<open>A circuit breaker opens exactly at its threshold. After any history of operations the
  breaker refuses a call for a reason the history shows: too many failures in a row, or a
  probe that is still out; and a failure that reaches the threshold opens it until the
  recovery time has passed.\<close>

theorem breaker_opens_at_threshold:
  assumes "b = fold breaker_step ops (new_breaker n d)"
  shows "(circuit_state b = Circuit_Open \<longrightarrow> n \<le> failures_of (rev ops)) \<and>
    (\<not> fst (allow_call now b) \<longrightarrow> circuit_state b \<noteq> Circuit_Closed) \<and>
    (n \<le> Suc (failures_of (rev ops)) \<longrightarrow> (\<forall>now'. now' < now + d \<longrightarrow>
       \<not> fst (allow_call now' (record_failure now b)))) \<and>
    (Suc (failures_of (rev ops)) < n \<longrightarrow> fst (allow_call now (record_failure now b)))"
  using breaker_history[of ops n d] unfolding assms[symmetric]
  by (auto simp: circuit_state_def allow_call_def record_failure_def Let_def diff_less_eq add.commute
      split: option.splits if_splits)

theorem breaker_opens_at_threshold_witness:
  "circuit_state (fold breaker_step [Failed_At 0] (new_breaker 1 5)) = Circuit_Open \<and>
   \<not> fst (allow_call 4 (record_failure 0 (fold breaker_step [Failed_At 0] (new_breaker 1 5))))"
  using breaker_opens_at_threshold[of "fold breaker_step [Failed_At 0] (new_breaker 1 5)" "[Failed_At 0]" 1 5 0]
  by (simp add: circuit_state_def record_failure_def new_breaker_def)

text \<open>
  The prefix test for loopback endpoints can be met by user information in front of a remote host.
\<close>

lemma loopback_prefix_spoofed:
  "transport_boundary (demo_provider\<lparr>pv_protocol := Ollama_Chat, pv_network := True,
     pv_endpoint := Some ''http://localhost:x@models.example''\<rparr>)"
  by (simp add: transport_boundary_def demo_provider_def startswith_def)

end
