(* ===== verification/RedisStore.thy ===== *)
theory RedisStore
  imports TaskRuntime
begin

text \<open>
  The distributed task store (\<^verbatim>\<open>safeagent_gov/task_runtime/redis_store.py\<close>). Every operation is one
  optimistic transaction: it reads what it watches and commits only if nothing of it changed,
  so its effect is one atomic step from the state it commits in; the loops below are the
  retries that a transaction makes on its own account, with the same bound of 64. A
  transaction that keeps losing its race, and an unreachable server, raise without effect
  and are not carried. Times are milliseconds, fresh identifiers are arguments, SHA-256 is a
  parameter.
\<close>

section \<open>Sorted sets\<close>

type_synonym zset = "(string \<times> int) list"

definition zmembers :: "zset \<Rightarrow> string set" where
  "zmembers z = fst ` set z"

definition zrem :: "string \<Rightarrow> zset \<Rightarrow> zset" where
  "zrem k z = filter (\<lambda>(j, _). j \<noteq> k) z"

definition zadd :: "string \<Rightarrow> int \<Rightarrow> zset \<Rightarrow> zset" where
  "zadd k v z = (k, v) # zrem k z"

definition zscore :: "string \<Rightarrow> zset \<Rightarrow> int option" where
  "zscore k z = map_of z k"

text \<open>Members in the order of their scores, equal scores in the order of the members.\<close>

definition zsorted :: "zset \<Rightarrow> zset" where
  "zsorted z = sort_key snd (sort_key fst z)"

definition zfirst :: "zset \<Rightarrow> string option" where
  "zfirst z = (case zsorted z of [] \<Rightarrow> None | (k, _) # _ \<Rightarrow> Some k)"

definition zup_to :: "int \<Rightarrow> nat \<Rightarrow> zset \<Rightarrow> string list" where
  "zup_to hi n z = take n (map fst (filter (\<lambda>(_, v). 0 \<le> v \<and> v \<le> hi) (zsorted z)))"

definition znewest :: "nat \<Rightarrow> zset \<Rightarrow> string list" where
  "znewest n z = take n (rev (map fst (zsorted z)))"

section \<open>The keyspace\<close>

record lease_record = task_record +
  rl_deliveries :: nat
  rl_recoveries :: nat
  rl_worker :: "string option"
  rl_lease :: "int option"

record redis_metrics =
  rm_submitted :: nat
  rm_accepted :: nat
  rm_rejected :: nat
  rm_started :: nat
  rm_succeeded :: nat
  rm_failed :: nat
  rm_retried :: nat
  rm_replays :: nat
  rm_audit_failures :: nat
  rm_recovered :: nat
  rm_dead :: nat
  rm_reconcile_failures :: nat
  rm_broker_failures :: nat

record redis_store =
  rs_data :: "string \<rightharpoonup> lease_record"
  rs_idem :: "string \<rightharpoonup> string"
  rs_index :: zset
  rs_tenants :: "string \<Rightarrow> zset"
  rs_staging :: zset
  rs_queues :: "task_pool \<Rightarrow> zset"
  rs_leases :: "task_pool \<Rightarrow> zset"
  rs_terminal :: zset
  rs_outbox :: zset
  rs_dead :: zset
  rs_dead_pools :: "task_pool \<Rightarrow> zset"
  rs_sequence :: nat
  rs_peak_queue :: "task_pool \<Rightarrow> nat"
  rs_peak_active :: "task_pool \<Rightarrow> nat"
  rs_metrics :: redis_metrics

record redis_config =
  rc_tasks :: task_config
  rc_lease_ms :: int
  rc_staging_ms :: int
  rc_sha :: "string \<Rightarrow> string"

datatype redis_error = Redis_Not_Found | Redis_Backpressure | Redis_Runtime | Redis_Value

type_synonym 'a redis_op = "(redis_store, redis_error, 'a) op"

definition no_redis_metrics :: redis_metrics where
  "no_redis_metrics = \<lparr>rm_submitted = 0, rm_accepted = 0, rm_rejected = 0, rm_started = 0, rm_succeeded = 0,
     rm_failed = 0, rm_retried = 0, rm_replays = 0, rm_audit_failures = 0, rm_recovered = 0, rm_dead = 0,
     rm_reconcile_failures = 0, rm_broker_failures = 0\<rparr>"

definition empty_redis :: redis_store where
  "empty_redis = \<lparr>rs_data = Map.empty, rs_idem = Map.empty, rs_index = [], rs_tenants = (\<lambda>_. []), rs_staging = [],
     rs_queues = (\<lambda>_. []), rs_leases = (\<lambda>_. []), rs_terminal = [], rs_outbox = [], rs_dead = [],
     rs_dead_pools = (\<lambda>_. []), rs_sequence = 0, rs_peak_queue = (\<lambda>_. 0), rs_peak_active = (\<lambda>_. 0),
     rs_metrics = no_redis_metrics\<rparr>"

definition valid_redis_config :: "redis_config \<Rightarrow> bool" where
  "valid_redis_config c \<longleftrightarrow> 1000 \<le> rc_lease_ms c \<and> rc_lease_ms c \<le> 3600000 \<and>
     1000 \<le> rc_staging_ms c \<and> rc_staging_ms c \<le> 3600000 \<and>
     (\<forall>p \<in> set pools. 1 \<le> tc_workers (rc_tasks c) p \<and> 1 \<le> tc_capacity (rc_tasks c) p) \<and>
     1000 \<le> tc_max_records (rc_tasks c) \<and> tc_max_records (rc_tasks c) \<le> 1000000"

definition rmetric :: "(redis_metrics \<Rightarrow> redis_metrics) \<Rightarrow> redis_store \<Rightarrow> redis_store" where
  "rmetric f s = s\<lparr>rs_metrics := f (rs_metrics s)\<rparr>"

definition on_queue :: "task_pool \<Rightarrow> (zset \<Rightarrow> zset) \<Rightarrow> redis_store \<Rightarrow> redis_store" where
  "on_queue p f s = s\<lparr>rs_queues := (rs_queues s)(p := f (rs_queues s p))\<rparr>"

definition on_leases :: "task_pool \<Rightarrow> (zset \<Rightarrow> zset) \<Rightarrow> redis_store \<Rightarrow> redis_store" where
  "on_leases p f s = s\<lparr>rs_leases := (rs_leases s)(p := f (rs_leases s p))\<rparr>"

definition put_record :: "string \<Rightarrow> lease_record \<Rightarrow> redis_store \<Rightarrow> redis_store" where
  "put_record k r s = s\<lparr>rs_data := (rs_data s)(k \<mapsto> r)\<rparr>"

text \<open>The hashed keys of a tenant's index and of an idempotency scope; \<open>CHR 31\<close> is the separator.\<close>

definition tenant_key :: "redis_config \<Rightarrow> string \<Rightarrow> string" where
  "tenant_key c tenant = rc_sha c tenant"

definition idempotency_key :: "redis_config \<Rightarrow> task_identity \<Rightarrow> string \<Rightarrow> string" where
  "idempotency_key c i key = rc_sha c (ti_tenant i @ [CHR 0x1F] @ ti_actor i @ [CHR 0x1F] @ key)"

definition record_identity :: "lease_record \<Rightarrow> task_identity" where
  "record_identity r = \<lparr>ti_tenant = tk_tenant r, ti_actor = tk_actor r, ti_role = tk_role r\<rparr>"

section \<open>Reading\<close>

definition redis_get :: "string \<Rightarrow> lease_record redis_op" where
  "redis_get k s = (case rs_data s k of None \<Rightarrow> (Inl Redis_Not_Found, s) | Some r \<Rightarrow> (Inr r, s))"

definition get_many :: "string list \<Rightarrow> redis_store \<Rightarrow> lease_record list" where
  "get_many ks s = List.map_filter (rs_data s) ks"

definition list_tasks :: "redis_config \<Rightarrow> string \<Rightarrow> nat \<Rightarrow> redis_store \<Rightarrow> lease_record list" where
  "list_tasks c tenant n s = get_many (znewest n (rs_tenants s (tenant_key c tenant))) s"

definition dead_letters :: "nat \<Rightarrow> string option \<Rightarrow> redis_store \<Rightarrow> lease_record list" where
  "dead_letters n tenant s =
     take n (filter (\<lambda>r. case tenant of None \<Rightarrow> True | Some t \<Rightarrow> tk_tenant r = t)
       (get_many (znewest (n * 4) (rs_dead s)) s))"

section \<open>Creation\<close>

text \<open>\<open>_purge_oldest_terminal\<close>: the first of the terminal set goes, with everything that names it.\<close>

definition drop_record :: "redis_config \<Rightarrow> string \<Rightarrow> lease_record \<Rightarrow> redis_store \<Rightarrow> redis_store" where
  "drop_record c k r s =
     s\<lparr>rs_data := (rs_data s)(k := None), rs_index := zrem k (rs_index s),
       rs_tenants := (rs_tenants s)(tenant_key c (tk_tenant r) := zrem k (rs_tenants s (tenant_key c (tk_tenant r)))),
       rs_terminal := zrem k (rs_terminal s), rs_dead := zrem k (rs_dead s),
       rs_dead_pools := (rs_dead_pools s)(tk_pool r := zrem k (rs_dead_pools s (tk_pool r))),
       rs_idem := (case tk_idem r of
           None \<Rightarrow> rs_idem s
         | Some key \<Rightarrow> if key = [] then rs_idem s
             else (rs_idem s)(idempotency_key c (record_identity r) key := None))\<rparr>"

definition purge_oldest_terminal :: "redis_config \<Rightarrow> redis_store \<Rightarrow> bool \<times> redis_store" where
  "purge_oldest_terminal c s =
     (case zfirst (rs_terminal s) of
        None \<Rightarrow> (False, s)
      | Some k \<Rightarrow>
          (case rs_data s k of
             None \<Rightarrow> (True, s\<lparr>rs_terminal := zrem k (rs_terminal s)\<rparr>)
           | Some r \<Rightarrow>
               if \<not> terminal (tk_status r) then (True, s\<lparr>rs_terminal := zrem k (rs_terminal s)\<rparr>)
               else (True, drop_record c k r s)))"

definition new_lease_record :: "submission \<Rightarrow> task_identity \<Rightarrow> string \<Rightarrow> string \<Rightarrow> int \<Rightarrow> lease_record" where
  "new_lease_record sub i trace k now =
     task_record.extend (new_record sub i trace k now)
       \<lparr>rl_deliveries = 0, rl_recoveries = 0, rl_worker = None, rl_lease = None\<rparr>"

definition insert_record :: "redis_config \<Rightarrow> lease_record \<Rightarrow> int \<Rightarrow> redis_store \<Rightarrow> redis_store" where
  "insert_record c r now s =
     (let k = tk_id r; tk = tenant_key c (tk_tenant r)
      in s\<lparr>rs_data := (rs_data s)(k \<mapsto> r), rs_index := zadd k now (rs_index s),
           rs_tenants := (rs_tenants s)(tk := zadd k now (rs_tenants s tk)),
           rs_staging := zadd k now (rs_staging s),
           rs_idem := (case tk_idem r of
               None \<Rightarrow> rs_idem s
             | Some key \<Rightarrow> (rs_idem s)(idempotency_key c (record_identity r) key \<mapsto> k))\<rparr>)"

definition retries :: nat where
  "retries = 64"

definition index_full :: "redis_config \<Rightarrow> redis_store \<Rightarrow> bool" where
  "index_full c s \<longleftrightarrow> tc_max_records (rc_tasks c) \<le> length (rs_index s)"

text \<open>What the idempotency key, if there is one, already names.\<close>

definition existing_task :: "redis_config \<Rightarrow> submission \<Rightarrow> task_identity \<Rightarrow> redis_store \<Rightarrow> string option" where
  "existing_task c sub i s =
     (case sb_idem sub of
        None \<Rightarrow> None
      | Some key \<Rightarrow> (case rs_idem s (idempotency_key c i key) of
            None \<Rightarrow> None | Some k \<Rightarrow> if k = [] then None else Some k))"

fun create_loop ::
    "redis_config \<Rightarrow> submission \<Rightarrow> task_identity \<Rightarrow> string \<Rightarrow> string \<Rightarrow> int \<Rightarrow> nat \<Rightarrow> (lease_record \<times> bool) redis_op" where
  "create_loop c sub i trace k now 0 s = (Inl Redis_Runtime, s)"
| "create_loop c sub i trace k now (Suc n) s =
     (case (if index_full c s then purge_oldest_terminal c s else (True, s)) of
        (False, u) \<Rightarrow> (Inl Redis_Backpressure, rmetric (\<lambda>m. m\<lparr>rm_rejected := rm_rejected m + 1\<rparr>) u)
      | (True, u) \<Rightarrow>
          (case existing_task c sub i u of
             Some old \<Rightarrow>
               (let v = rmetric (\<lambda>m. m\<lparr>rm_replays := rm_replays m + 1\<rparr>) u
                in case rs_data v old of None \<Rightarrow> (Inl Redis_Not_Found, v) | Some r \<Rightarrow> (Inr (r, True), v))
           | None \<Rightarrow>
               if index_full c u then create_loop c sub i trace k now n u
               else (Inr (new_lease_record sub i trace k now, False),
                     insert_record c (new_lease_record sub i trace k now) now u)))"

definition create_or_replay ::
    "redis_config \<Rightarrow> submission \<Rightarrow> task_identity \<Rightarrow> string \<Rightarrow> string \<Rightarrow> int \<Rightarrow> (lease_record \<times> bool) redis_op" where
  "create_or_replay c sub i trace k now s =
     create_loop c sub i trace k now retries (rmetric (\<lambda>m. m\<lparr>rm_submitted := rm_submitted m + 1\<rparr>) s)"

section \<open>Updates\<close>

definition redis_update ::
    "string \<Rightarrow> string option \<Rightarrow> (lease_record \<Rightarrow> lease_record) \<Rightarrow> int \<Rightarrow> lease_record redis_op" where
  "redis_update k worker f now s =
     (case rs_data s k of
        None \<Rightarrow> (Inl Redis_Not_Found, s)
      | Some r \<Rightarrow>
          if worker \<noteq> None \<and> rl_worker r \<noteq> worker then (Inl Redis_Runtime, s)
          else (let r' = (f r)\<lparr>tk_updated := now\<rparr> in (Inr r', put_record k r' s)))"

definition increment_audit :: "string \<Rightarrow> int \<Rightarrow> lease_record redis_op" where
  "increment_audit k now = redis_update k None (\<lambda>r. r\<lparr>tk_audits := tk_audits r + 1\<rparr>) now"

definition set_attempts :: "string \<Rightarrow> string \<Rightarrow> nat \<Rightarrow> int \<Rightarrow> lease_record redis_op" where
  "set_attempts k w n now = redis_update k (Some w) (\<lambda>r. r\<lparr>tk_attempts := n\<rparr>) now"

section \<open>The queue and the outbox\<close>

definition priority_stride :: int where
  "priority_stride = 1000000000000"

definition queue_score :: "task_priority \<Rightarrow> nat \<Rightarrow> int" where
  "queue_score p n = int (task_priority_rank p) * priority_stride + int n"

definition next_sequence :: "redis_store \<Rightarrow> nat \<times> redis_store" where
  "next_sequence s = (Suc (rs_sequence s), s\<lparr>rs_sequence := Suc (rs_sequence s)\<rparr>)"

fun pool_value :: "task_pool \<Rightarrow> string" where
  "pool_value Security_Pool = ''security''"
| "pool_value Agent_Pool = ''agent''"
| "pool_value Evaluation_Pool = ''evaluation''"

definition pool_of_value :: "string \<Rightarrow> task_pool option" where
  "pool_of_value v = find (\<lambda>p. pool_value p = v) pools"

definition outbox_member :: "task_pool \<Rightarrow> string \<Rightarrow> nat \<Rightarrow> string" where
  "outbox_member p k gen = pool_value p @ ''|'' @ k @ ''|'' @ show_nat gen"

definition outbox_put :: "task_pool \<Rightarrow> string \<Rightarrow> nat \<Rightarrow> int \<Rightarrow> redis_store \<Rightarrow> redis_store" where
  "outbox_put p k gen now s = s\<lparr>rs_outbox := zadd (outbox_member p k gen) now (rs_outbox s)\<rparr>"

definition peak_queue :: "task_pool \<Rightarrow> redis_store \<Rightarrow> redis_store" where
  "peak_queue p s = s\<lparr>rs_peak_queue := (rs_peak_queue s)(p := max (rs_peak_queue s p) (length (rs_queues s p)))\<rparr>"

definition peak_active :: "task_pool \<Rightarrow> redis_store \<Rightarrow> redis_store" where
  "peak_active p s = s\<lparr>rs_peak_active := (rs_peak_active s)(p := max (rs_peak_active s p) (length (rs_leases s p)))\<rparr>"

definition outstanding :: "task_pool \<Rightarrow> redis_store \<Rightarrow> nat" where
  "outstanding p s = length (rs_queues s p) + length (rs_leases s p)"

definition unstage :: "string \<Rightarrow> redis_store \<Rightarrow> redis_store" where
  "unstage k s = s\<lparr>rs_staging := zrem k (rs_staging s)\<rparr>"

definition activate :: "redis_config \<Rightarrow> string \<Rightarrow> int \<Rightarrow> lease_record redis_op" where
  "activate c k now s =
     (case rs_data s k of
        None \<Rightarrow> (Inl Redis_Not_Found, s)
      | Some r \<Rightarrow>
          (let p = tk_pool r in
           if tk_status r \<noteq> Queued then (Inl Redis_Runtime, s)
           else if zscore k (rs_queues s p) \<noteq> None \<or> zscore k (rs_leases s p) \<noteq> None
             then (Inr r, unstage k s)
           else if tc_capacity (rc_tasks c) p + tc_workers (rc_tasks c) p \<le> outstanding p s
             then (Inl Redis_Backpressure, s)
           else (case next_sequence s of (n, u) \<Rightarrow>
             (Inr r, peak_queue p
                (rmetric (\<lambda>m. m\<lparr>rm_accepted := rm_accepted m + 1\<rparr>)
                  (unstage k (outbox_put p k (rl_recoveries r) now
                    (on_queue p (zadd k (queue_score (tk_priority r) n)) u))))))))"

definition acknowledge_outbox :: "string \<Rightarrow> redis_store \<Rightarrow> redis_store" where
  "acknowledge_outbox m s = s\<lparr>rs_outbox := zrem m (rs_outbox s)\<rparr>"

text \<open>The pool a member names, if it has three parts and the first is a pool.\<close>

definition member_pool :: "string \<Rightarrow> task_pool option" where
  "member_pool m = (if 2 \<le> count_list m CHR ''|'' then pool_of_value (takeWhile (\<lambda>x. x \<noteq> CHR ''|'') m) else None)"

fun read_outbox :: "string list \<Rightarrow> redis_store \<Rightarrow> (string \<times> task_pool) list \<times> redis_store" where
  "read_outbox [] s = ([], s)"
| "read_outbox (m # ms) s =
     (case member_pool m of
        None \<Rightarrow> read_outbox ms (acknowledge_outbox m s)
      | Some p \<Rightarrow> (case read_outbox ms s of (out, t) \<Rightarrow> ((m, p) # out, t)))"

definition outbox_due :: "nat \<Rightarrow> int \<Rightarrow> redis_store \<Rightarrow> (string \<times> task_pool) list \<times> redis_store" where
  "outbox_due n now s = read_outbox (zup_to now n (rs_outbox s)) s"

section \<open>Outcomes and leases\<close>

definition redis_reject :: "string \<Rightarrow> task_error \<Rightarrow> bool \<Rightarrow> int \<Rightarrow> lease_record redis_op" where
  "redis_reject k e bad_audit now s =
     (case rs_data s k of
        None \<Rightarrow> (Inl Redis_Not_Found, s)
      | Some r \<Rightarrow>
          if terminal (tk_status r) then (Inr r, s)
          else (let r' = r\<lparr>tk_status := Rejected, tk_error := Some e, tk_completed := Some now, tk_updated := now,
                     rl_lease := None, rl_worker := None\<rparr>; p = tk_pool r
                in (Inr r', rmetric (\<lambda>m. m\<lparr>rm_rejected := rm_rejected m + 1,
                        rm_audit_failures := rm_audit_failures m + (if bad_audit then 1 else 0)\<rparr>)
                     (unstage k (on_queue p (zrem k) (on_leases p (zrem k)
                       (put_record k r' s\<lparr>rs_terminal := zadd k now (rs_terminal s)\<rparr>)))))))"

fun claim_loop :: "redis_config \<Rightarrow> task_pool \<Rightarrow> string \<Rightarrow> int \<Rightarrow> nat \<Rightarrow> lease_record option redis_op" where
  "claim_loop c p w now 0 s = (Inl Redis_Runtime, s)"
| "claim_loop c p w now (Suc n) s =
     (case zfirst (rs_queues s p) of
        None \<Rightarrow> (Inr None, s)
      | Some k \<Rightarrow>
          (case rs_data s k of
             None \<Rightarrow> (Inl Redis_Not_Found, s)
           | Some r \<Rightarrow>
               if tk_status r \<noteq> Queued then claim_loop c p w now n (on_queue p (zrem k) s)
               else (let r' = r\<lparr>tk_status := Running,
                          tk_started := Some (case tk_started r of None \<Rightarrow> now | Some t \<Rightarrow> t), tk_updated := now,
                          rl_deliveries := rl_deliveries r + 1, rl_worker := Some w,
                          rl_lease := Some (now + rc_lease_ms c)\<rparr>
                     in (Inr (Some r'), peak_active p
                          (rmetric (\<lambda>m. m\<lparr>rm_started := rm_started m + 1\<rparr>)
                            (put_record k r' (on_leases p (zadd k (now + rc_lease_ms c)) (on_queue p (zrem k) s))))))))"

definition claim_next :: "redis_config \<Rightarrow> task_pool \<Rightarrow> string \<Rightarrow> int \<Rightarrow> lease_record option redis_op" where
  "claim_next c p w now = claim_loop c p w now retries"

definition heartbeat :: "redis_config \<Rightarrow> string \<Rightarrow> string \<Rightarrow> int \<Rightarrow> bool redis_op" where
  "heartbeat c k w now s =
     (case rs_data s k of
        None \<Rightarrow> (Inl Redis_Not_Found, s)
      | Some r \<Rightarrow>
          if tk_status r \<noteq> Running \<or> rl_worker r \<noteq> Some w then (Inr False, s)
          else (Inr True, on_leases (tk_pool r) (zadd k (now + rc_lease_ms c))
                 (put_record k (r\<lparr>rl_lease := Some (now + rc_lease_ms c), tk_updated := now\<rparr>) s)))"

definition recover_one :: "task_pool \<Rightarrow> string \<Rightarrow> int \<Rightarrow> bool redis_op" where
  "recover_one p k now s =
     (case zscore k (rs_leases s p) of
        None \<Rightarrow> (Inr False, s)
      | Some e \<Rightarrow>
          if now < e then (Inr False, s)
          else (case rs_data s k of
             None \<Rightarrow> (Inl Redis_Not_Found, s)
           | Some r \<Rightarrow>
               if tk_status r \<noteq> Running then (Inr False, on_leases p (zrem k) s)
               else (case next_sequence s of (n, u) \<Rightarrow>
                 (let r' = r\<lparr>tk_status := Queued, tk_updated := now, rl_recoveries := rl_recoveries r + 1,
                       rl_worker := None, rl_lease := None\<rparr>
                  in (Inr True, peak_queue p
                       (rmetric (\<lambda>m. m\<lparr>rm_recovered := rm_recovered m + 1\<rparr>)
                         (put_record k r' (outbox_put p k (rl_recoveries r + 1) now
                           (on_queue p (zadd k (queue_score (tk_priority r) n)) (on_leases p (zrem k) u))))))))))"

fun recover_each :: "task_pool \<Rightarrow> int \<Rightarrow> string list \<Rightarrow> nat redis_op" where
  "recover_each p now [] = op_return 0"
| "recover_each p now (k # ks) =
     op_bind (recover_one p k now) (\<lambda>b. op_bind (recover_each p now ks) (\<lambda>n. op_return (if b then n + 1 else n)))"

fun recover_pools :: "nat \<Rightarrow> int \<Rightarrow> task_pool list \<Rightarrow> nat redis_op" where
  "recover_pools most now [] = op_return 0"
| "recover_pools most now (p # ps) =
     op_bind (\<lambda>s. recover_each p now (zup_to now most (rs_leases s p)) s)
       (\<lambda>n. op_bind (recover_pools most now ps) (\<lambda>m. op_return (n + m)))"

definition recover_expired :: "nat \<Rightarrow> int \<Rightarrow> nat redis_op" where
  "recover_expired most now = recover_pools most now pools"

text \<open>Staged tasks whose submission never came back: activated if their audit is recorded, rejected if not.\<close>

definition reconcile_one :: "redis_config \<Rightarrow> string \<Rightarrow> int \<Rightarrow> nat redis_op" where
  "reconcile_one c k now =
     op_bind (op_try (op_bind (redis_get k) (\<lambda>r.
         if 0 < tk_audits r then activate c k now else redis_reject k Unconfirmed_Submission True now)))
       (\<lambda>res. case res of
          Inr _ \<Rightarrow> op_return 1
        | Inl Redis_Backpressure \<Rightarrow> op_return 0
        | Inl Redis_Not_Found \<Rightarrow> (\<lambda>s. (Inr 0, unstage k s))
        | Inl e \<Rightarrow> op_raise e)"

fun reconcile_each :: "redis_config \<Rightarrow> int \<Rightarrow> string list \<Rightarrow> nat redis_op" where
  "reconcile_each c now [] = op_return 0"
| "reconcile_each c now (k # ks) =
     op_bind (reconcile_one c k now) (\<lambda>n. op_bind (reconcile_each c now ks) (\<lambda>m. op_return (n + m)))"

definition reconcile_staging :: "redis_config \<Rightarrow> nat \<Rightarrow> int \<Rightarrow> nat redis_op" where
  "reconcile_staging c most now s = reconcile_each c now (zup_to (now - rc_staging_ms c) most (rs_staging s)) s"

definition redis_finish ::
    "string \<Rightarrow> string \<Rightarrow> task_status \<Rightarrow> pydict option \<Rightarrow> task_error option \<Rightarrow> bool \<Rightarrow> int \<Rightarrow> lease_record redis_op" where
  "redis_finish k w st res e bad_audit now s =
     (if st \<noteq> Succeeded \<and> st \<noteq> Task_Failed then (Inl Redis_Value, s)
      else (case rs_data s k of
         None \<Rightarrow> (Inl Redis_Not_Found, s)
       | Some r \<Rightarrow>
           if terminal (tk_status r) then (Inr r, s)
           else if tk_status r \<noteq> Running \<or> rl_worker r \<noteq> Some w then (Inl Redis_Runtime, s)
           else (let r' = r\<lparr>tk_status := st, tk_result := (if st = Succeeded then res else None), tk_error := e,
                      tk_completed := Some now, tk_updated := now, rl_worker := None, rl_lease := None\<rparr>;
                     p = tk_pool r; failed = st = Task_Failed;
                     u = on_leases p (zrem k) (put_record k r' s\<lparr>rs_terminal := zadd k now (rs_terminal s)\<rparr>);
                     v = (if failed then u\<lparr>rs_dead := zadd k now (rs_dead u),
                            rs_dead_pools := (rs_dead_pools u)(p := zadd k now (rs_dead_pools u p))\<rparr> else u)
                 in (Inr r', rmetric (\<lambda>m. m\<lparr>rm_succeeded := rm_succeeded m + (if failed then 0 else 1),
                       rm_failed := rm_failed m + (if failed then 1 else 0),
                       rm_dead := rm_dead m + (if failed then 1 else 0),
                       rm_audit_failures := rm_audit_failures m + (if bad_audit then 1 else 0)\<rparr>) v))))"

definition reset_redis_metrics :: "redis_store \<Rightarrow> redis_store" where
  "reset_redis_metrics s = s\<lparr>rs_metrics := no_redis_metrics, rs_peak_queue := (\<lambda>_. 0), rs_peak_active := (\<lambda>_. 0)\<rparr>"

record redis_pool_row =
  rp_pool :: task_pool
  rp_workers :: nat
  rp_capacity :: nat
  rp_depth :: nat
  rp_active :: nat
  rp_max_depth :: nat
  rp_max_active :: nat
  rp_dead :: nat

definition redis_pool_metrics :: "redis_config \<Rightarrow> redis_store \<Rightarrow> task_pool \<Rightarrow> redis_pool_row" where
  "redis_pool_metrics c s p =
     (let depth = length (rs_queues s p); active = length (rs_leases s p)
      in \<lparr>rp_pool = p, rp_workers = tc_workers (rc_tasks c) p, rp_capacity = tc_capacity (rc_tasks c) p,
          rp_depth = depth, rp_active = active, rp_max_depth = max depth (rs_peak_queue s p),
          rp_max_active = max active (rs_peak_active s p), rp_dead = length (rs_dead_pools s p)\<rparr>)"

definition redis_runtime_metrics :: "redis_config \<Rightarrow> redis_store \<Rightarrow> redis_metrics \<times> redis_pool_row list" where
  "redis_runtime_metrics c s =
     (rs_metrics s, map (redis_pool_metrics c s) [Agent_Pool, Evaluation_Pool, Security_Pool])"

end
