(* ===== verification/RedisInvariants.thy ===== *)
theory RedisInvariants
  imports RedisStore
begin

text \<open>
  The distributed task store under everything its clients can do: every task is in the place
  its status says, pools and records stay within their bounds, scores and idempotency keys
  fit the records (\<open>redis_ok\<close>), in every reachable store (\<open>redis_reachable_ok\<close>).
\<close>

section \<open>Sorted sets\<close>

lemma zmembers_simps [simp]:
  "zmembers [] = {}" "zmembers (zadd k v z) = insert k (zmembers z)" "zmembers (zrem k z) = zmembers z - {k}"
  by (auto simp: zmembers_def zadd_def zrem_def)

lemma zscore_simps [simp]:
  "zscore k [] = None"
  "zscore j (zadd k v z) = (if j = k then Some v else zscore j z)"
  "zscore j (zrem k z) = (if j = k then None else zscore j z)"
proof -
  show rem: "zscore j (zrem k z) = (if j = k then None else zscore j z)"
    by (induction z) (auto simp: zscore_def zrem_def)
  then show "zscore j (zadd k v z) = (if j = k then Some v else zscore j z)"
    by (simp add: zadd_def zscore_def)
qed (simp add: zscore_def)

lemma zscore_None: "zscore k z = None \<longleftrightarrow> k \<notin> zmembers z"
  by (simp add: zscore_def zmembers_def map_of_eq_None_iff)

definition zdistinct :: "zset \<Rightarrow> bool" where
  "zdistinct z \<longleftrightarrow> distinct (map fst z)"

lemma zdistinct_simps [simp]:
  "zdistinct []" "zdistinct z \<Longrightarrow> zdistinct (zrem k z)" "zdistinct z \<Longrightarrow> zdistinct (zadd k v z)"
  by (auto simp: zdistinct_def zrem_def zadd_def distinct_map_filter)

lemma zrem_id: "k \<notin> zmembers z \<Longrightarrow> zrem k z = z"
  by (induction z) (auto simp: zrem_def zmembers_def)

lemma zlength_add: "k \<notin> zmembers z \<Longrightarrow> length (zadd k v z) = Suc (length z)"
  by (simp add: zadd_def zrem_id)

lemma zlength_rem: "zdistinct z \<Longrightarrow> k \<in> zmembers z \<Longrightarrow> length z = Suc (length (zrem k z))"
proof (induction z)
  case (Cons x z)
  show ?case
  proof (cases "fst x = k")
    case True
    then have "k \<notin> zmembers z" using Cons.prems by (auto simp: zdistinct_def zmembers_def)
    then show ?thesis using True zrem_id[of k z] by (cases x) (simp add: zrem_def)
  next
    case False
    then show ?thesis using Cons by (auto simp: zdistinct_def zmembers_def zrem_def)
  qed
qed simp

lemma zlength_rem_le: "length (zrem k z) \<le> length z"
  by (simp add: zrem_def)

lemma zlength_readd: "zdistinct z \<Longrightarrow> k \<in> zmembers z \<Longrightarrow> length (zadd k v z) = length z"
  using zlength_rem[of z k] by (simp add: zadd_def)

lemma zsorted_set [simp]: "set (zsorted z) = set z"
  by (simp add: zsorted_def)

lemma zfirst_None: "zfirst z = None \<longleftrightarrow> z = []"
proof -
  have "zsorted z = [] \<longleftrightarrow> z = []" by (metis set_empty zsorted_set)
  then show ?thesis by (auto simp: zfirst_def split: list.splits)
qed

lemma zfirst_least:
  assumes "zfirst z = Some k" "zdistinct z"
  obtains v where "zscore k z = Some v" "k \<in> zmembers z" "\<And>j u. zscore j z = Some u \<Longrightarrow> v \<le> u"
proof -
  obtain v xs where s: "zsorted z = (k, v) # xs"
    using assms(1) by (auto simp: zfirst_def split: list.splits)
  have "sorted (map snd (zsorted z))" by (simp add: zsorted_def)
  then have "\<forall>x \<in> set (zsorted z). v \<le> snd x" unfolding s by simp
  then have least: "\<forall>x \<in> set z. v \<le> snd x" by (simp only: zsorted_set)
  have "(k, v) \<in> set (zsorted z)" unfolding s by simp
  then have kv: "(k, v) \<in> set z" by (simp only: zsorted_set)
  show thesis
  proof (rule that)
    show "zscore k z = Some v" using kv assms(2) by (simp add: zscore_def zdistinct_def map_of_is_SomeI)
    show "k \<in> zmembers z" using kv by (force simp: zmembers_def)
    show "v \<le> u" if "zscore j z = Some u" for j u
      using map_of_SomeD[OF that[unfolded zscore_def]] least by auto
  qed
qed

lemma zup_to_members: "k \<in> set (zup_to hi n z) \<Longrightarrow> \<exists>v \<le> hi. (k, v) \<in> set z"
  unfolding zup_to_def by (force dest!: in_set_takeD)

section \<open>The invariant\<close>

text \<open>
  Every task is in the place its status says: a queued one is staged or in the queue of its
  pool under a score of its priority, a running one is leased in its pool until the time of
  its record and has a worker, a finished one is in the terminal set and, if it failed, among
  the dead letters; and no place holds anything else.
\<close>

definition home_place :: "string \<Rightarrow> lease_record \<Rightarrow> redis_store \<Rightarrow> bool" where
  "home_place k r s \<longleftrightarrow>
     (case tk_status r of
        Queued \<Rightarrow> rl_worker r = None \<and> rl_lease r = None \<and> (\<forall>p. zscore k (rs_leases s p) = None) \<and>
          (\<forall>p. p \<noteq> tk_pool r \<longrightarrow> zscore k (rs_queues s p) = None) \<and>
          (case zscore k (rs_queues s (tk_pool r)) of
             None \<Rightarrow> k \<in> zmembers (rs_staging s)
           | Some v \<Rightarrow> k \<notin> zmembers (rs_staging s) \<and> (\<exists>n \<le> rs_sequence s. v = queue_score (tk_priority r) n))
      | Running \<Rightarrow> rl_worker r \<noteq> None \<and> rl_lease r \<noteq> None \<and> k \<notin> zmembers (rs_staging s) \<and>
          (\<forall>p. zscore k (rs_queues s p) = None) \<and>
          (\<forall>p. zscore k (rs_leases s p) = (if p = tk_pool r then rl_lease r else None))
      | _ \<Rightarrow> rl_worker r = None \<and> rl_lease r = None \<and> k \<notin> zmembers (rs_staging s) \<and>
          (\<forall>p. zscore k (rs_queues s p) = None) \<and> (\<forall>p. zscore k (rs_leases s p) = None))"

definition at_home :: "string \<Rightarrow> redis_store \<Rightarrow> bool" where
  "at_home k s \<longleftrightarrow>
     (case rs_data s k of
        None \<Rightarrow> k \<notin> zmembers (rs_index s) \<and> k \<notin> zmembers (rs_staging s) \<and> k \<notin> zmembers (rs_terminal s) \<and>
          k \<notin> zmembers (rs_dead s) \<and>
          (\<forall>p. zscore k (rs_queues s p) = None \<and> zscore k (rs_leases s p) = None \<and> k \<notin> zmembers (rs_dead_pools s p))
      | Some r \<Rightarrow> tk_id r = k \<and> k \<in> zmembers (rs_index s) \<and> home_place k r s \<and>
          (k \<in> zmembers (rs_terminal s) \<longleftrightarrow> terminal (tk_status r)) \<and>
          (k \<in> zmembers (rs_dead s) \<longleftrightarrow> tk_status r = Task_Failed) \<and>
          (\<forall>p. k \<in> zmembers (rs_dead_pools s p) \<longleftrightarrow> p = tk_pool r \<and> tk_status r = Task_Failed))"

definition sized :: "redis_config \<Rightarrow> redis_store \<Rightarrow> bool" where
  "sized c s \<longleftrightarrow> zdistinct (rs_index s) \<and> zdistinct (rs_terminal s) \<and>
     (\<forall>p. zdistinct (rs_queues s p) \<and> zdistinct (rs_leases s p) \<and>
        outstanding p s \<le> tc_capacity (rc_tasks c) p + tc_workers (rc_tasks c) p) \<and>
     length (rs_index s) \<le> tc_max_records (rc_tasks c)"

definition keyed :: "redis_config \<Rightarrow> redis_store \<Rightarrow> bool" where
  "keyed c s \<longleftrightarrow> (\<forall>x k. rs_idem s x = Some k \<longrightarrow>
     (\<exists>r key. rs_data s k = Some r \<and> tk_idem r = Some key \<and> key \<noteq> [] \<and>
        x = idempotency_key c (record_identity r) key))"

definition redis_ok :: "redis_config \<Rightarrow> redis_store \<Rightarrow> bool" where
  "redis_ok c s \<longleftrightarrow> (\<forall>k. at_home k s) \<and> sized c s \<and> keyed c s"

lemma redis_parts [simp]:
  "rs_data (rmetric f s) = rs_data s" "rs_idem (rmetric f s) = rs_idem s" "rs_index (rmetric f s) = rs_index s"
  "rs_tenants (rmetric f s) = rs_tenants s" "rs_staging (rmetric f s) = rs_staging s"
  "rs_queues (rmetric f s) = rs_queues s" "rs_leases (rmetric f s) = rs_leases s"
  "rs_terminal (rmetric f s) = rs_terminal s" "rs_dead (rmetric f s) = rs_dead s"
  "rs_dead_pools (rmetric f s) = rs_dead_pools s" "rs_sequence (rmetric f s) = rs_sequence s"
  "rs_outbox (rmetric f s) = rs_outbox s"
  by (simp_all add: rmetric_def)

lemma peak_parts [simp]:
  "rs_data (peak_queue p s) = rs_data s" "rs_idem (peak_queue p s) = rs_idem s" "rs_index (peak_queue p s) = rs_index s"
  "rs_staging (peak_queue p s) = rs_staging s" "rs_queues (peak_queue p s) = rs_queues s"
  "rs_leases (peak_queue p s) = rs_leases s" "rs_terminal (peak_queue p s) = rs_terminal s"
  "rs_dead (peak_queue p s) = rs_dead s" "rs_dead_pools (peak_queue p s) = rs_dead_pools s"
  "rs_sequence (peak_queue p s) = rs_sequence s" "rs_outbox (peak_queue p s) = rs_outbox s"
  "rs_data (peak_active p s) = rs_data s" "rs_idem (peak_active p s) = rs_idem s" "rs_index (peak_active p s) = rs_index s"
  "rs_staging (peak_active p s) = rs_staging s" "rs_queues (peak_active p s) = rs_queues s"
  "rs_leases (peak_active p s) = rs_leases s" "rs_terminal (peak_active p s) = rs_terminal s"
  "rs_dead (peak_active p s) = rs_dead s" "rs_dead_pools (peak_active p s) = rs_dead_pools s"
  "rs_sequence (peak_active p s) = rs_sequence s" "rs_outbox (peak_active p s) = rs_outbox s"
  by (simp_all add: peak_queue_def peak_active_def)

lemma redis_ok_cong:
  assumes "rs_data s = rs_data t" "rs_idem s = rs_idem t" "rs_index s = rs_index t" "rs_staging s = rs_staging t"
    "rs_queues s = rs_queues t" "rs_leases s = rs_leases t" "rs_terminal s = rs_terminal t" "rs_dead s = rs_dead t"
    "rs_dead_pools s = rs_dead_pools t" "rs_sequence s = rs_sequence t"
  shows "redis_ok c s \<longleftrightarrow> redis_ok c t"
  unfolding redis_ok_def at_home_def home_place_def sized_def keyed_def outstanding_def assms by (rule refl)

lemma redis_ok_metric [simp]:
  "redis_ok c (rmetric f s) \<longleftrightarrow> redis_ok c s" "redis_ok c (peak_queue p s) \<longleftrightarrow> redis_ok c s"
  "redis_ok c (peak_active p s) \<longleftrightarrow> redis_ok c s" "redis_ok c (reset_redis_metrics s) \<longleftrightarrow> redis_ok c s"
  "redis_ok c (acknowledge_outbox m s) \<longleftrightarrow> redis_ok c s"
  by (rule redis_ok_cong; simp add: reset_redis_metrics_def acknowledge_outbox_def)+

lemma empty_redis_ok: "redis_ok c empty_redis"
  by (simp add: redis_ok_def empty_redis_def at_home_def sized_def keyed_def outstanding_def)

text \<open>A task none of whose places changes stays at home.\<close>

definition same_home :: "string \<Rightarrow> redis_store \<Rightarrow> redis_store \<Rightarrow> bool" where
  "same_home k s t \<longleftrightarrow> rs_data s k = rs_data t k \<and> (k \<in> zmembers (rs_index s) \<longleftrightarrow> k \<in> zmembers (rs_index t)) \<and>
     (k \<in> zmembers (rs_staging s) \<longleftrightarrow> k \<in> zmembers (rs_staging t)) \<and>
     (k \<in> zmembers (rs_terminal s) \<longleftrightarrow> k \<in> zmembers (rs_terminal t)) \<and>
     (k \<in> zmembers (rs_dead s) \<longleftrightarrow> k \<in> zmembers (rs_dead t)) \<and>
     (\<forall>p. zscore k (rs_queues s p) = zscore k (rs_queues t p) \<and> zscore k (rs_leases s p) = zscore k (rs_leases t p) \<and>
        (k \<in> zmembers (rs_dead_pools s p) \<longleftrightarrow> k \<in> zmembers (rs_dead_pools t p))) \<and>
     rs_sequence s \<le> rs_sequence t"

lemma same_home_keeps:
  assumes "at_home k s" "same_home k s t"
  shows "at_home k t"
proof (cases "rs_data s k")
  case None
  then show ?thesis using assms by (simp add: at_home_def same_home_def)
next
  case (Some r)
  then have t: "rs_data t k = Some r" using assms(2) by (simp add: same_home_def)
  have q: "zscore k (rs_queues t p) = zscore k (rs_queues s p)" "zscore k (rs_leases t p) = zscore k (rs_leases s p)"
    "k \<in> zmembers (rs_dead_pools t p) \<longleftrightarrow> k \<in> zmembers (rs_dead_pools s p)" for p
    using assms(2) by (simp_all add: same_home_def)
  have i: "k \<in> zmembers (rs_index t) \<longleftrightarrow> k \<in> zmembers (rs_index s)"
    "k \<in> zmembers (rs_staging t) \<longleftrightarrow> k \<in> zmembers (rs_staging s)"
    "k \<in> zmembers (rs_terminal t) \<longleftrightarrow> k \<in> zmembers (rs_terminal s)"
    "k \<in> zmembers (rs_dead t) \<longleftrightarrow> k \<in> zmembers (rs_dead s)" and n: "rs_sequence s \<le> rs_sequence t"
    using assms(2) by (simp_all add: same_home_def)
  have "home_place k r s \<Longrightarrow> home_place k r t"
    using n unfolding home_place_def q i
    by (cases "tk_status r"; cases "zscore k (rs_queues s (tk_pool r))") (auto intro: le_trans)
  then show ?thesis
    using assms(1) unfolding at_home_def t Some option.case q i by blast
qed

lemma at_home_all:
  assumes "\<And>j. at_home j s" "at_home k t" "\<And>j. j \<noteq> k \<Longrightarrow> same_home j s t"
  shows "at_home j t"
  using assms same_home_keeps[of j s t] by (cases "j = k") auto

lemma at_homeD:
  assumes "at_home k s" "rs_data s k = Some r"
  shows "tk_id r = k" "k \<in> zmembers (rs_index s)" "home_place k r s" "k \<in> zmembers (rs_terminal s) \<longleftrightarrow> terminal (tk_status r)"
    "k \<in> zmembers (rs_dead s) \<longleftrightarrow> tk_status r = Task_Failed"
    "k \<in> zmembers (rs_dead_pools s p) \<longleftrightarrow> p = tk_pool r \<and> tk_status r = Task_Failed"
  using assms by (simp_all add: at_home_def)

lemma home_queued:
  assumes "at_home k s" "zscore k (rs_queues s p) = Some v"
  obtains r n where "rs_data s k = Some r" "tk_pool r = p" "tk_status r = Queued" "k \<notin> zmembers (rs_staging s)"
    "n \<le> rs_sequence s" "v = queue_score (tk_priority r) n"
proof (cases "rs_data s k")
  case None
  then show thesis using assms by (simp add: at_home_def)
next
  case (Some r)
  note h = at_homeD(3)[OF assms(1) Some]
  have st: "tk_status r = Queued" using h assms(2) by (cases "tk_status r") (auto simp: home_place_def)
  have "tk_pool r = p" using h assms(2) st by (cases "tk_pool r = p") (auto simp: home_place_def)
  then show thesis using that[OF Some] h st assms(2) by (auto simp: home_place_def)
qed

lemma home_leased:
  assumes "at_home k s" "zscore k (rs_leases s p) = Some e"
  obtains r where "rs_data s k = Some r" "tk_pool r = p" "tk_status r = Running" "rl_lease r = Some e" "rl_worker r \<noteq> None"
proof (cases "rs_data s k")
  case None
  then show thesis using assms by (simp add: at_home_def)
next
  case (Some r)
  note h = at_homeD(3)[OF assms(1) Some]
  have st: "tk_status r = Running" using h assms(2) by (cases "tk_status r") (auto simp: home_place_def)
  then show thesis using that[OF Some] h assms(2) by (auto simp: home_place_def split: if_splits)
qed

lemma keyed_put:
  assumes "keyed c s" "rs_idem t = rs_idem s" "rs_data t = (rs_data s)(k \<mapsto> r')" "rs_data s k = Some r"
    "tk_idem r' = tk_idem r" "tk_tenant r' = tk_tenant r" "tk_actor r' = tk_actor r" "tk_role r' = tk_role r"
  shows "keyed c t"
  using assms unfolding keyed_def record_identity_def by fastforce

lemmas redis_effects = put_record_def on_queue_def on_leases_def unstage_def outbox_put_def next_sequence_def

lemma redis_put_ok:
  assumes ok: "redis_ok c s" and r: "rs_data s k = Some r"
    and f: "tk_id r' = tk_id r" "tk_status r' = tk_status r" "tk_pool r' = tk_pool r" "tk_priority r' = tk_priority r"
      "rl_worker r' = rl_worker r" "rl_lease r' = rl_lease r" "tk_idem r' = tk_idem r" "tk_tenant r' = tk_tenant r"
      "tk_actor r' = tk_actor r" "tk_role r' = tk_role r"
  shows "redis_ok c (put_record k r' s)"
proof -
  have home: "\<And>j. at_home j s" using ok by (simp add: redis_ok_def)
  have "at_home k (put_record k r' s)"
    using home[of k]
    by (cases "tk_status r"; cases "zscore k (rs_queues s (tk_pool r))")
      (simp_all add: at_home_def r f put_record_def home_place_def)
  moreover have "same_home j s (put_record k r' s)" if "j \<noteq> k" for j using that by (simp add: same_home_def put_record_def)
  moreover have "keyed c (put_record k r' s)"
    by (rule keyed_put[of c s _ k r' r]) (use ok r f in \<open>auto simp: redis_ok_def put_record_def\<close>)
  moreover have "sized c (put_record k r' s)" using ok by (simp add: redis_ok_def sized_def put_record_def outstanding_def)
  ultimately show ?thesis using at_home_all[OF home] by (simp add: redis_ok_def)
qed

lemma redis_okI:
  assumes "redis_ok c s" "at_home k t" "\<And>j. j \<noteq> k \<Longrightarrow> same_home j s t" "sized c t" "keyed c t"
  shows "redis_ok c t"
  using assms at_home_all[of s k t] unfolding redis_ok_def by blast

lemma redis_ok_home: "redis_ok c s \<Longrightarrow> at_home k s"
  by (simp add: redis_ok_def)

lemma sizedD:
  assumes "sized c s"
  shows "zdistinct (rs_queues s p)" "zdistinct (rs_leases s p)" "zdistinct (rs_index s)" "zdistinct (rs_terminal s)"
    "length (rs_queues s p) + length (rs_leases s p) \<le> tc_capacity (rc_tasks c) p + tc_workers (rc_tasks c) p"
    "length (rs_index s) \<le> tc_max_records (rc_tasks c)"
  using assms by (simp_all add: sized_def outstanding_def)

lemma zscore_Some_member: "zscore k z = Some v \<Longrightarrow> k \<in> zmembers z"
  using zscore_None[of k z] by auto

text \<open>Sizes: a task that leaves a pool makes room, one that moves from queue to lease or back does not.\<close>

lemma sized_leave:
  assumes "sized c s" "rs_index t = rs_index s" "zdistinct (rs_terminal t)"
    "\<And>q. rs_queues t q = rs_queues s q \<or> rs_queues t q = zrem k (rs_queues s q)"
    "\<And>q. rs_leases t q = rs_leases s q \<or> rs_leases t q = zrem k (rs_leases s q)"
  shows "sized c t"
proof -
  have "zdistinct (rs_queues t q) \<and> zdistinct (rs_leases t q) \<and>
      length (rs_queues t q) + length (rs_leases t q) \<le> length (rs_queues s q) + length (rs_leases s q)" for q
    using assms(4)[of q] assms(5)[of q] sizedD(1,2,5)[OF assms(1), of q] zlength_rem_le[of k "rs_queues s q"]
      zlength_rem_le[of k "rs_leases s q"] by auto
  then have "zdistinct (rs_queues t q) \<and> zdistinct (rs_leases t q) \<and>
      length (rs_queues t q) + length (rs_leases t q) \<le> tc_capacity (rc_tasks c) q + tc_workers (rc_tasks c) q" for q
    using sizedD(5)[OF assms(1), of q] le_trans by blast
  then show ?thesis using assms(1-3) by (simp add: sized_def outstanding_def)
qed

lemma sized_move:
  assumes s: "sized c s" and t: "rs_index t = rs_index s" "rs_terminal t = rs_terminal s"
    "rs_queues t = (rs_queues s)(p := q')" "rs_leases t = (rs_leases s)(p := l')"
    and move: "(k \<in> zmembers (rs_queues s p) \<and> k \<notin> zmembers (rs_leases s p) \<and>
        q' = zrem k (rs_queues s p) \<and> l' = zadd k v (rs_leases s p)) \<or>
      (k \<in> zmembers (rs_leases s p) \<and> k \<notin> zmembers (rs_queues s p) \<and>
        l' = zrem k (rs_leases s p) \<and> q' = zadd k v (rs_queues s p))"
  shows "sized c t"
proof -
  note d = sizedD[OF s]
  have "length q' + length l' = length (rs_queues s p) + length (rs_leases s p)"
    using move zlength_rem[OF d(1)[of p], of k] zlength_rem[OF d(2)[of p], of k] zlength_add[of k] by auto
  moreover have "zdistinct q'" "zdistinct l'" using move d(1)[of p] d(2)[of p] by auto
  ultimately show ?thesis using s t by (auto simp: sized_def outstanding_def)
qed

lemma redis_update_ok:
  assumes "redis_ok c s" "redis_update k w f now s = (res, t)"
    and "\<And>r. tk_id (f r) = tk_id r \<and> tk_status (f r) = tk_status r \<and> tk_pool (f r) = tk_pool r \<and>
      tk_priority (f r) = tk_priority r \<and> rl_worker (f r) = rl_worker r \<and> rl_lease (f r) = rl_lease r \<and>
      tk_idem (f r) = tk_idem r \<and> tk_tenant (f r) = tk_tenant r \<and> tk_actor (f r) = tk_actor r \<and> tk_role (f r) = tk_role r"
  shows "redis_ok c t"
  using assms(1,2) redis_put_ok[OF assms(1)] assms(3)
  by (auto simp: redis_update_def Let_def split: option.splits if_splits)

lemma activate_ok:
  assumes ok: "redis_ok c s" and run: "activate c k now s = (res, t)"
  shows "redis_ok c t"
proof (cases "rs_data s k")
  case None
  then show ?thesis using ok run by (simp add: activate_def)
next
  case (Some r)
  define p where "p = tk_pool r"
  note home = redis_ok_home[OF ok] and h = at_homeD[OF redis_ok_home[OF ok] Some]
  consider "t = s" | (staged) "tk_status r = Queued" "zscore k (rs_queues s p) \<noteq> None \<or> zscore k (rs_leases s p) \<noteq> None" "t = unstage k s"
    | (queued) u where "tk_status r = Queued" "zscore k (rs_queues s p) = None" "zscore k (rs_leases s p) = None"
        "outstanding p s < tc_capacity (rc_tasks c) p + tc_workers (rc_tasks c) p"
        "u = unstage k (outbox_put p k (rl_recoveries r) now
           (on_queue p (zadd k (queue_score (tk_priority r) (Suc (rs_sequence s)))) (snd (next_sequence s))))"
        "t = peak_queue p (rmetric (\<lambda>m. m\<lparr>rm_accepted := rm_accepted m + 1\<rparr>) u)"
    using run Some by (force simp: activate_def Let_def p_def next_sequence_def split: if_splits)
  then show ?thesis
  proof cases
    case staged
    then have "k \<notin> zmembers (rs_staging s)"
      using h(3) by (cases "zscore k (rs_queues s p)") (auto simp: home_place_def p_def)
    then have "unstage k s = s" by (simp add: unstage_def zrem_id)
    then show ?thesis using ok staged by simp
  next
    case (queued u)
    have "at_home k u" using home[of k] queued(1-3) Some
      by (simp add: queued(5) at_home_def home_place_def redis_effects p_def) blast
    moreover have "same_home j s u" if "j \<noteq> k" for j
      using that by (simp add: queued(5) same_home_def redis_effects)
    moreover have "sized c u"
      using ok queued(2,4) zlength_add[of k "rs_queues s p"] unfolding redis_ok_def sized_def outstanding_def queued(5)
      by (auto simp: redis_effects zscore_None)
    moreover have "keyed c u" using ok by (simp add: redis_ok_def keyed_def queued(5) redis_effects)
    ultimately show ?thesis using redis_okI[OF ok] queued(6) by simp
  qed (use ok in simp)
qed

lemma redis_reject_ok:
  assumes ok: "redis_ok c s" and run: "redis_reject k e b now s = (res, t)"
  shows "redis_ok c t"
proof (cases "rs_data s k")
  case None
  then show ?thesis using ok run by (simp add: redis_reject_def)
next
  case (Some r)
  define p where "p = tk_pool r"
  define r' where "r' = r\<lparr>tk_status := Rejected, tk_error := Some e, tk_completed := Some now, tk_updated := now,
     rl_lease := None, rl_worker := None\<rparr>"
  note home = redis_ok_home[OF ok] and h = at_homeD[OF redis_ok_home[OF ok] Some]
  show ?thesis
  proof (cases "terminal (tk_status r)")
    case True
    then show ?thesis using ok run Some by (simp add: redis_reject_def)
  next
    case False
    define u where "u = unstage k (on_queue p (zrem k) (on_leases p (zrem k)
       (put_record k r' s\<lparr>rs_terminal := zadd k now (rs_terminal s)\<rparr>)))"
    have t: "t = rmetric (\<lambda>m. m\<lparr>rm_rejected := rm_rejected m + 1,
        rm_audit_failures := rm_audit_failures m + (if b then 1 else 0)\<rparr>) u"
      using run Some False by (simp add: redis_reject_def Let_def u_def p_def r'_def)
    have nd: "tk_status r \<noteq> Task_Failed" using False by (cases "tk_status r") auto
    have "at_home k u" using home[of k] Some nd False
      by (cases "tk_status r") (simp_all add: u_def at_home_def home_place_def redis_effects p_def r'_def)
    moreover have "same_home j s u" if "j \<noteq> k" for j
      using that by (simp add: u_def same_home_def redis_effects)
    moreover have "sized c u"
      by (rule sized_leave[of c s u k]) (use ok in \<open>auto simp: redis_ok_def u_def redis_effects sized_def\<close>)
    moreover have "keyed c u"
      by (rule keyed_put[of c s u k r' r]) (use ok Some in \<open>auto simp: redis_ok_def u_def redis_effects r'_def\<close>)
    ultimately show ?thesis using redis_okI[OF ok] t by simp
  qed
qed

lemma claim_loop_ok:
  "redis_ok c s \<Longrightarrow> claim_loop c p w now n s = (res, t) \<Longrightarrow> redis_ok c t"
proof (induction n arbitrary: s)
  case (Suc n)
  show ?case
  proof (cases "zfirst (rs_queues s p)")
    case None
    then show ?thesis using Suc.prems by simp
  next
    case (Some k)
    have "zdistinct (rs_queues s p)" using sizedD(1)[of c s p] Suc.prems(1) by (simp add: redis_ok_def)
    from Some this obtain v where v: "zscore k (rs_queues s p) = Some v" by (rule zfirst_least)
    note home = redis_ok_home[OF Suc.prems(1)]
    obtain r where r: "rs_data s k = Some r" and pool: "tk_pool r = p" and st: "tk_status r = Queued"
      and ns: "k \<notin> zmembers (rs_staging s)" using home_queued[OF home v] by blast
    define r' where "r' = r\<lparr>tk_status := Running,
        tk_started := Some (case tk_started r of None \<Rightarrow> now | Some t \<Rightarrow> t), tk_updated := now,
        rl_deliveries := rl_deliveries r + 1, rl_worker := Some w, rl_lease := Some (now + rc_lease_ms c)\<rparr>"
    define u where "u = put_record k r' (on_leases p (zadd k (now + rc_lease_ms c)) (on_queue p (zrem k) s))"
    have t: "t = peak_active p (rmetric (\<lambda>m. m\<lparr>rm_started := rm_started m + 1\<rparr>) u)"
      using Suc.prems(2) Some r st by (simp add: Let_def u_def r'_def)
    have nl: "k \<notin> zmembers (rs_leases s p)"
      using at_homeD(3)[OF home r] st zscore_None[of k "rs_leases s p"] by (simp add: home_place_def)
    have "at_home k u" using home[of k] r st ns
      by (simp add: u_def at_home_def home_place_def redis_effects pool r'_def)
    moreover have "same_home j s u" if "j \<noteq> k" for j
      using that by (simp add: u_def same_home_def redis_effects)
    moreover have "sized c u"
      by (rule sized_move[of c s u p "zrem k (rs_queues s p)" "zadd k (now + rc_lease_ms c) (rs_leases s p)" k])
        (use Suc.prems(1) nl zscore_Some_member[OF v] in \<open>auto simp: redis_ok_def u_def redis_effects\<close>)
    moreover have "keyed c u"
      by (rule keyed_put[of c s u k r' r]) (use Suc.prems(1) r in \<open>auto simp: redis_ok_def u_def redis_effects r'_def\<close>)
    ultimately show ?thesis using redis_okI[OF Suc.prems(1)] t by simp
  qed
qed simp

lemma heartbeat_ok:
  assumes ok: "redis_ok c s" and run: "heartbeat c k w now s = (res, t)"
  shows "redis_ok c t"
proof (cases "rs_data s k")
  case None
  then show ?thesis using ok run by (simp add: heartbeat_def)
next
  case (Some r)
  note home = redis_ok_home[OF ok] and h = at_homeD[OF redis_ok_home[OF ok] Some]
  show ?thesis
  proof (cases "tk_status r \<noteq> Running \<or> rl_worker r \<noteq> Some w")
    case True
    then show ?thesis using ok run Some by (simp add: heartbeat_def)
  next
    case False
    define r' where "r' = r\<lparr>rl_lease := Some (now + rc_lease_ms c), tk_updated := now\<rparr>"
    have t: "t = on_leases (tk_pool r) (zadd k (now + rc_lease_ms c)) (put_record k r' s)"
      using run Some False by (simp add: heartbeat_def r'_def)
    have mem: "k \<in> zmembers (rs_leases s (tk_pool r))"
      using h(3) False zscore_Some_member[of k "rs_leases s (tk_pool r)"] by (auto simp: home_place_def)
    have "at_home k t" using home[of k] Some False
      by (simp add: t at_home_def home_place_def redis_effects r'_def)
    moreover have "same_home j s t" if "j \<noteq> k" for j
      using that by (simp add: t same_home_def redis_effects)
    moreover have "sized c t"
      using ok zlength_readd[OF _ mem] unfolding redis_ok_def sized_def outstanding_def t
      by (auto simp: redis_effects)
    moreover have "keyed c t"
      by (rule keyed_put[of c s t k r' r]) (use ok Some in \<open>auto simp: redis_ok_def t redis_effects r'_def\<close>)
    ultimately show ?thesis using redis_okI[OF ok] by simp
  qed
qed

lemma recover_one_ok:
  assumes ok: "redis_ok c s" and run: "recover_one p k now s = (res, t)"
  shows "redis_ok c t"
proof (cases "zscore k (rs_leases s p)")
  case None
  then show ?thesis using ok run by (simp add: recover_one_def)
next
  case (Some e)
  note home = redis_ok_home[OF ok]
  obtain r where r: "rs_data s k = Some r" "tk_pool r = p" "tk_status r = Running" "rl_lease r = Some e"
    using home_leased[OF home Some] by blast
  show ?thesis
  proof (cases "now < e")
    case True
    then show ?thesis using ok run Some by (simp add: recover_one_def)
  next
    case False
    define r' where "r' = r\<lparr>tk_status := Queued, tk_updated := now, rl_recoveries := rl_recoveries r + 1,
       rl_worker := None, rl_lease := None\<rparr>"
    define v where "v = queue_score (tk_priority r) (Suc (rs_sequence s))"
    define u where "u = put_record k r' (outbox_put p k (rl_recoveries r + 1) now
       (on_queue p (zadd k v) (on_leases p (zrem k) (snd (next_sequence s)))))"
    have t: "t = peak_queue p (rmetric (\<lambda>m. m\<lparr>rm_recovered := rm_recovered m + 1\<rparr>) u)"
      using run Some False r by (simp add: recover_one_def next_sequence_def Let_def u_def r'_def v_def)
    have nq: "k \<notin> zmembers (rs_queues s p)"
      using at_homeD(3)[OF home r(1)] r(3) zscore_None[of k "rs_queues s p"] by (simp add: home_place_def)
    have "\<exists>n \<le> Suc (rs_sequence s). v = queue_score (tk_priority r) n" by (auto simp: v_def)
    then have "at_home k u" using home[of k] r
      by (simp add: u_def at_home_def home_place_def redis_effects r'_def)
    moreover have "same_home j s u" if "j \<noteq> k" for j
      using that by (simp add: u_def same_home_def redis_effects)
    moreover have "sized c u"
      by (rule sized_move[of c s u p "zadd k v (rs_queues s p)" "zrem k (rs_leases s p)" k v])
        (use ok nq zscore_Some_member[OF Some] in \<open>auto simp: redis_ok_def u_def redis_effects\<close>)
    moreover have "keyed c u"
      by (rule keyed_put[of c s u k r' r]) (use ok r in \<open>auto simp: redis_ok_def u_def redis_effects r'_def\<close>)
    ultimately show ?thesis using redis_okI[OF ok] t by simp
  qed
qed

lemma redis_finish_ok:
  assumes ok: "redis_ok c s" and run: "redis_finish k w st x e b now s = (res, t)"
  shows "redis_ok c t"
proof (cases "\<exists>r. rs_data s k = Some r \<and> \<not> terminal (tk_status r) \<and> (st = Succeeded \<or> st = Task_Failed) \<and>
    tk_status r = Running \<and> rl_worker r = Some w")
  case False
  then have "t = s" using run by (auto simp: redis_finish_def split: if_splits option.splits)
  then show ?thesis using ok by simp
next
  case True
  then obtain r where r: "rs_data s k = Some r" "\<not> terminal (tk_status r)" "st = Succeeded \<or> st = Task_Failed"
    "tk_status r = Running" "rl_worker r = Some w" by blast
  define p where "p = tk_pool r"
  define r' where "r' = r\<lparr>tk_status := st, tk_result := (if st = Succeeded then x else None), tk_error := e,
     tk_completed := Some now, tk_updated := now, rl_worker := None, rl_lease := None\<rparr>"
  define u where "u = on_leases p (zrem k) (put_record k r' s\<lparr>rs_terminal := zadd k now (rs_terminal s)\<rparr>)"
  define v where "v = (if st = Task_Failed then u\<lparr>rs_dead := zadd k now (rs_dead u),
     rs_dead_pools := (rs_dead_pools u)(p := zadd k now (rs_dead_pools u p))\<rparr> else u)"
  obtain f where t: "t = rmetric f v"
    using run r by (auto simp: redis_finish_def Let_def u_def v_def p_def r'_def)
  note home = redis_ok_home[OF ok]
  have "at_home k v" using home[of k] r
    by (auto simp: v_def u_def at_home_def home_place_def redis_effects p_def r'_def)
  moreover have "same_home j s v" if "j \<noteq> k" for j
    using that by (simp add: v_def u_def same_home_def redis_effects)
  moreover have "sized c v"
    by (rule sized_leave[of c s v k]) (use ok in \<open>auto simp: redis_ok_def v_def u_def redis_effects sized_def\<close>)
  moreover have "keyed c v"
    by (rule keyed_put[of c s v k r' r]) (use ok r in \<open>auto simp: redis_ok_def v_def u_def redis_effects r'_def\<close>)
  ultimately show ?thesis using redis_okI[OF ok] t by simp
qed

lemma drop_record_ok:
  assumes ok: "redis_ok c s" and r: "rs_data s k = Some r" "terminal (tk_status r)"
  shows "redis_ok c (drop_record c k r s)"
proof -
  note home = redis_ok_home[OF ok]
  have no: "zscore k (rs_queues s p) = None" "zscore k (rs_leases s p) = None" "k \<notin> zmembers (rs_staging s)" for p
    using at_homeD(3)[OF home r(1)] r(2) by (cases "tk_status r"; simp add: home_place_def)+
  have "at_home k (drop_record c k r s)"
    using home[of k] r(1) no by (auto simp: at_home_def drop_record_def)
  moreover have "same_home j s (drop_record c k r s)" if "j \<noteq> k" for j
    using that by (simp add: same_home_def drop_record_def)
  moreover have "sized c (drop_record c k r s)"
    using ok zlength_rem_le[of k "rs_index s"]
    by (auto simp: redis_ok_def sized_def outstanding_def drop_record_def intro: order_trans)
  moreover have "keyed c (drop_record c k r s)"
    unfolding keyed_def
  proof (intro allI impI)
    fix x j assume x: "rs_idem (drop_record c k r s) x = Some j"
    then have old: "rs_idem s x = Some j"
      by (auto simp: drop_record_def split: option.splits if_splits)
    then obtain q key where q: "rs_data s j = Some q" "tk_idem q = Some key" "key \<noteq> []"
      "x = idempotency_key c (record_identity q) key" using ok unfolding redis_ok_def keyed_def by blast
    have "j \<noteq> k" using x q r(1) by (auto simp: drop_record_def split: option.splits if_splits)
    then show "\<exists>r' key. rs_data (drop_record c k r s) j = Some r' \<and> tk_idem r' = Some key \<and> key \<noteq> [] \<and>
        x = idempotency_key c (record_identity r') key"
      using q by (auto simp: drop_record_def)
  qed
  ultimately show ?thesis using redis_okI[OF ok] by blast
qed

text \<open>The terminal set holds finished records only, so its first is always dropped.\<close>

lemma purge_effect:
  assumes ok: "redis_ok c s" and run: "purge_oldest_terminal c s = (b, t)"
  obtains (none) "\<not> b" "t = s" "rs_terminal s = []"
  | (dropped) k r where "b" "rs_data s k = Some r" "terminal (tk_status r)" "t = drop_record c k r s"
proof (cases "zfirst (rs_terminal s)")
  case None
  then have "rs_terminal s = []" by (simp add: zfirst_None)
  then show thesis using None run none by (simp add: purge_oldest_terminal_def)
next
  case (Some k)
  have "zdistinct (rs_terminal s)" using ok by (simp add: redis_ok_def sized_def)
  from Some this have mem: "k \<in> zmembers (rs_terminal s)" by (rule zfirst_least)
  then obtain r where "rs_data s k = Some r" "terminal (tk_status r)"
    using redis_ok_home[OF ok, of k] by (cases "rs_data s k") (auto simp: at_home_def)
  then show thesis using run Some dropped by (simp add: purge_oldest_terminal_def)
qed

lemma new_lease_record_simps [simp]:
  "tk_id (new_lease_record sub i trace k now) = k" "tk_status (new_lease_record sub i trace k now) = Queued"
  "tk_idem (new_lease_record sub i trace k now) = sb_idem sub" "rl_worker (new_lease_record sub i trace k now) = None"
  "rl_lease (new_lease_record sub i trace k now) = None" "tk_tenant (new_lease_record sub i trace k now) = ti_tenant i"
  "tk_actor (new_lease_record sub i trace k now) = ti_actor i" "tk_role (new_lease_record sub i trace k now) = ti_role i"
  "tk_pool (new_lease_record sub i trace k now) = kind_pool (sb_kind sub)"
  by (simp_all add: new_lease_record_def task_record.defs new_record_def)

lemma insert_record_ok:
  assumes ok: "redis_ok c s" and fresh: "rs_data s k = None" and room: "\<not> index_full c s"
    and key: "sb_idem sub \<noteq> Some []"
  shows "redis_ok c (insert_record c (new_lease_record sub i trace k now) now s)"
proof -
  let ?r = "new_lease_record sub i trace k now"
  note home = redis_ok_home[OF ok]
  have new: "k \<notin> zmembers (rs_index s)" "k \<notin> zmembers (rs_terminal s)" "k \<notin> zmembers (rs_dead s)"
    "zscore k (rs_queues s p) = None" "zscore k (rs_leases s p) = None" "k \<notin> zmembers (rs_dead_pools s p)" for p
    using home[of k] fresh by (simp_all add: at_home_def)
  have "at_home k (insert_record c ?r now s)"
    using new by (simp add: at_home_def home_place_def insert_record_def Let_def)
  moreover have "same_home j s (insert_record c ?r now s)" if "j \<noteq> k" for j
    using that by (simp add: same_home_def insert_record_def Let_def)
  moreover have "sized c (insert_record c ?r now s)"
    using ok room new(1) zlength_add[of k "rs_index s" now]
    by (simp add: redis_ok_def sized_def outstanding_def insert_record_def Let_def index_full_def)
  moreover have "keyed c (insert_record c ?r now s)"
    unfolding keyed_def
  proof (intro allI impI)
    fix x j assume x: "rs_idem (insert_record c ?r now s) x = Some j"
    show "\<exists>r' key. rs_data (insert_record c ?r now s) j = Some r' \<and> tk_idem r' = Some key \<and> key \<noteq> [] \<and>
        x = idempotency_key c (record_identity r') key"
    proof (cases "rs_idem s x = Some j")
      case True
      then obtain q qk where "rs_data s j = Some q" "tk_idem q = Some qk" "qk \<noteq> []"
        "x = idempotency_key c (record_identity q) qk" using ok unfolding redis_ok_def keyed_def by blast
      then show ?thesis using fresh by (auto simp: insert_record_def Let_def)
    next
      case False
      then have "j = k \<and> (\<exists>y. sb_idem sub = Some y \<and> x = idempotency_key c (record_identity ?r) y)"
        using x by (auto simp: insert_record_def Let_def split: option.splits if_splits)
      then show ?thesis using key by (auto simp: insert_record_def Let_def)
    qed
  qed
  ultimately show ?thesis using redis_okI[OF ok] by blast
qed

lemma drop_record_none: "rs_data s k = None \<Longrightarrow> rs_data (drop_record c j r s) k = None"
  by (simp add: drop_record_def)

lemma create_loop_ok:
  assumes "redis_ok c s" "rs_data s k = None" "sb_idem sub \<noteq> Some []" "create_loop c sub i trace k now n s = (res, t)"
  shows "redis_ok c t"
  using assms
proof (induction n arbitrary: s)
  case (Suc n)
  obtain b u where bu: "(if index_full c s then purge_oldest_terminal c s else (True, s)) = (b, u)"
    by (cases "if index_full c s then purge_oldest_terminal c s else (True, s)")
  have u: "redis_ok c u" "rs_data u k = None"
  proof -
    consider "u = s" | j r where "rs_data s j = Some r" "terminal (tk_status r)" "u = drop_record c j r s"
    proof (cases "index_full c s")
      case True
      then have "purge_oldest_terminal c s = (b, u)" using bu by simp
      then show thesis using purge_effect[OF Suc.prems(1)] that by metis
    next
      case False
      then show thesis using bu that(1) by simp
    qed
    then show "redis_ok c u" "rs_data u k = None"
      using Suc.prems(1,2) drop_record_ok[OF Suc.prems(1)] drop_record_none by (cases; simp)+
  qed
  show ?case
  proof (cases b)
    case False
    then show ?thesis using Suc.prems(4) bu u by auto
  next
    case True
    then show ?thesis
      using Suc.prems(3,4) bu u insert_record_ok[OF u] Suc.IH[OF u]
      by (auto simp: Let_def split: option.splits if_splits)
  qed
qed simp

section \<open>Everything that can happen to the store\<close>

text \<open>
  The calls of dispatchers, reconcilers, heartbeats and workers, in any order and with any
  arguments, each at its own time.
\<close>

datatype redis_call =
    Call_Create submission task_identity string string
  | Call_Activate string
  | Call_Audit string
  | Call_Attempts string string nat
  | Call_Reject string task_error bool
  | Call_Claim task_pool string
  | Call_Heartbeat string string
  | Call_Recover nat
  | Call_Reconcile nat
  | Call_Finish string string task_status "pydict option" "task_error option" bool
  | Call_Outbox nat
  | Call_Acknowledge string
  | Call_Reset

fun perform :: "redis_config \<Rightarrow> redis_call \<Rightarrow> int \<Rightarrow> redis_store \<Rightarrow> redis_store" where
  "perform c (Call_Create sub i trace k) now s = snd (create_or_replay c sub i trace k now s)"
| "perform c (Call_Activate k) now s = snd (activate c k now s)"
| "perform c (Call_Audit k) now s = snd (increment_audit k now s)"
| "perform c (Call_Attempts k w n) now s = snd (set_attempts k w n now s)"
| "perform c (Call_Reject k e b) now s = snd (redis_reject k e b now s)"
| "perform c (Call_Claim p w) now s = snd (claim_next c p w now s)"
| "perform c (Call_Heartbeat k w) now s = snd (heartbeat c k w now s)"
| "perform c (Call_Recover most) now s = snd (recover_expired most now s)"
| "perform c (Call_Reconcile most) now s = snd (reconcile_staging c most now s)"
| "perform c (Call_Finish k w st x e b) now s = snd (redis_finish k w st x e b now s)"
| "perform c (Call_Outbox n) now s = snd (outbox_due n now s)"
| "perform c (Call_Acknowledge m) now s = acknowledge_outbox m s"
| "perform c Call_Reset now s = reset_redis_metrics s"

text \<open>A submission is valid and its identifier fresh.\<close>

fun call_allowed :: "redis_call \<Rightarrow> redis_store \<Rightarrow> bool" where
  "call_allowed (Call_Create sub i trace k) s \<longleftrightarrow> rs_data s k = None \<and> k \<noteq> [] \<and> sb_idem sub \<noteq> Some []"
| "call_allowed _ s \<longleftrightarrow> True"

inductive redis_reachable :: "redis_config \<Rightarrow> redis_store \<Rightarrow> bool" for c where
  redis_empty: "redis_reachable c empty_redis"
| redis_called: "redis_reachable c s \<Longrightarrow> call_allowed call s \<Longrightarrow> redis_reachable c (perform c call now s)"

fun redis_run :: "redis_config \<Rightarrow> (redis_call \<times> int) list \<Rightarrow> redis_store \<Rightarrow> redis_store" where
  "redis_run c [] s = s"
| "redis_run c ((call, now) # calls) s = redis_run c calls (perform c call now s)"

fun run_allowed :: "redis_config \<Rightarrow> (redis_call \<times> int) list \<Rightarrow> redis_store \<Rightarrow> bool" where
  "run_allowed c [] s \<longleftrightarrow> True"
| "run_allowed c ((call, now) # calls) s \<longleftrightarrow> call_allowed call s \<and> run_allowed c calls (perform c call now s)"

lemma redis_run_reachable:
  "redis_reachable c s \<Longrightarrow> run_allowed c calls s \<Longrightarrow> redis_reachable c (redis_run c calls s)"
proof (induction calls arbitrary: s)
  case (Cons x calls)
  obtain call now where "x = (call, now)" by (cases x)
  then show ?case using Cons.IH[OF redis_called[of c s call now]] Cons.prems by simp
qed simp

text \<open>What every single transaction keeps, the composed calls keep too.\<close>

lemma recover_each_keeps:
  assumes "\<And>k. op_keeps I (recover_one p k now)"
  shows "op_keeps I (recover_each p now ks)"
  by (induction ks) (auto intro!: op_keeps_bind op_keeps_return assms)

lemma recover_pools_keeps:
  assumes "\<And>p k. op_keeps I (recover_one p k now)"
  shows "op_keeps I (recover_pools most now ps)"
proof (induction ps)
  case (Cons p ps)
  have "op_keeps I (\<lambda>s. recover_each p now (zup_to now most (rs_leases s p)) s)"
    using recover_each_keeps[OF assms] unfolding op_keeps_def by blast
  then show ?case unfolding recover_pools.simps by (intro op_keeps_bind op_keeps_return Cons.IH)
qed auto

lemma reconcile_one_keeps:
  assumes a: "op_keeps I (activate c k now)" and r: "\<And>e b. op_keeps I (redis_reject k e b now)"
    and u: "\<And>s. I s \<Longrightarrow> rs_data s k = None \<Longrightarrow> I (unstage k s)"
  shows "op_keeps I (reconcile_one c k now)"
  unfolding op_keeps_def
proof (intro allI impI)
  fix s res t assume I: "I s" and run: "reconcile_one c k now s = (res, t)"
  show "I t"
  proof (cases "rs_data s k")
    case None
    then show ?thesis using run I u by (auto simp: reconcile_one_def redis_get_def op_defs)
  next
    case (Some rec)
    obtain q v where q: "(if 0 < tk_audits rec then activate c k now else redis_reject k Unconfirmed_Submission True now) s = (q, v)"
      by (cases "(if 0 < tk_audits rec then activate c k now else redis_reject k Unconfirmed_Submission True now) s")
    have v: "I v" using q I a r unfolding op_keeps_def by (metis (full_types))
    have "q \<noteq> Inl Redis_Not_Found"
      using q Some by (auto simp: activate_def redis_reject_def Let_def next_sequence_def split: if_splits)
    then have "t = v"
      using run q Some by (cases q) (auto simp: reconcile_one_def redis_get_def op_defs split: redis_error.splits)
    then show ?thesis using v by simp
  qed
qed

lemma reconcile_each_keeps:
  assumes "\<And>k. op_keeps I (reconcile_one c k now)"
  shows "op_keeps I (reconcile_each c now ks)"
  by (induction ks) (auto intro!: op_keeps_bind op_keeps_return assms)

lemma read_outbox_keeps: "(\<And>m s. I s \<Longrightarrow> I (acknowledge_outbox m s)) \<Longrightarrow> I s \<Longrightarrow> I (snd (read_outbox ms s))"
proof (induction ms arbitrary: s)
  case (Cons m ms)
  then show ?case by (cases "member_pool m") (auto split: prod.splits, metis snd_conv)
qed simp

lemma snd_keeps: "op_keeps I m \<Longrightarrow> I s \<Longrightarrow> I (snd (m s))"
  unfolding op_keeps_def by (metis prod.collapse)

lemma update_keeps_ok:
  "op_keeps (redis_ok c) (increment_audit k now)" "op_keeps (redis_ok c) (set_attempts k w n now)"
  unfolding op_keeps_def increment_audit_def set_attempts_def
  by (intro allI impI; erule (1) redis_update_ok; simp)+

lemma perform_ok:
  assumes ok: "redis_ok c s" and allowed: "call_allowed call s"
  shows "redis_ok c (perform c call now s)"
proof -
  have one: "op_keeps (redis_ok c) (activate c k now)" "op_keeps (redis_ok c) (redis_reject k e b now)"
    "op_keeps (redis_ok c) (recover_one p k now)" for k e b p
    using activate_ok[of c] redis_reject_ok[of c] recover_one_ok[of c] unfolding op_keeps_def by metis+
  have lost: "redis_ok c s \<Longrightarrow> rs_data s k = None \<Longrightarrow> redis_ok c (unstage k s)" for k s
  proof -
    assume ok: "redis_ok c s" and "rs_data s k = None"
    then have "k \<notin> zmembers (rs_staging s)" using redis_ok_home[OF ok, of k] by (simp add: at_home_def)
    then have "unstage k s = s" by (simp add: unstage_def zrem_id)
    then show ?thesis using ok by simp
  qed
  show ?thesis
  proof (cases call)
    case (Call_Create sub i trace k)
    then show ?thesis
      using create_loop_ok[of c "rmetric (\<lambda>m. m\<lparr>rm_submitted := rm_submitted m + 1\<rparr>) s" k sub i trace now retries] ok allowed
      by (simp add: create_or_replay_def) (metis prod.collapse)
  next
    case (Call_Recover most)
    then show ?thesis using snd_keeps[OF recover_pools_keeps[OF one(3)] ok] by (simp add: recover_expired_def)
  next
    case (Call_Reconcile most)
    then show ?thesis
      using snd_keeps[OF reconcile_each_keeps[OF reconcile_one_keeps[OF one(1,2) lost]] ok] by (simp add: reconcile_staging_def)
  next
    case (Call_Outbox n)
    then show ?thesis using read_outbox_keeps[of "redis_ok c"] ok by (simp add: outbox_due_def)
  next
    case (Call_Audit k)
    then show ?thesis using snd_keeps[OF update_keeps_ok(1) ok] by simp
  next
    case (Call_Attempts k w n)
    then show ?thesis using snd_keeps[OF update_keeps_ok(2) ok] by simp
  next
    case (Call_Claim p w)
    then show ?thesis using claim_loop_ok[OF ok] by (simp add: claim_next_def) (metis prod.collapse)
  next
    case (Call_Heartbeat k w)
    then show ?thesis using heartbeat_ok[OF ok] by simp (metis prod.collapse)
  next
    case (Call_Finish k w st x e b)
    then show ?thesis using redis_finish_ok[OF ok] by simp (metis prod.collapse)
  qed (use ok snd_keeps[OF one(1) ok] snd_keeps[OF one(2) ok] in simp_all)
qed

theorem redis_reachable_ok: "redis_reachable c s \<Longrightarrow> redis_ok c s"
  by (induction rule: redis_reachable.induct) (auto intro: perform_ok empty_redis_ok)

end
