(* ===== verification/RedisProps.thy ===== *)
theory RedisProps
  imports RedisInvariants
begin

text \<open>
  What the distributed store promises: where every task is, that it ends once, that a worker
  without its lease cannot commit, which task a claim takes, that a crashed worker's task runs
  again, how large the store grows, and that all of it implements a small abstract task.
\<close>

lemma zmember_score: "k \<in> zmembers z \<longleftrightarrow> (\<exists>v. zscore k z = Some v)"
  using zscore_None[of k z] by auto

section \<open>Consistency\<close>


definition demo_redis_config :: redis_config where
  "demo_redis_config = \<lparr>rc_tasks = \<lparr>tc_workers = \<lambda>_. 1, tc_capacity = \<lambda>_. 1, tc_max_records = 2,
     tc_handlers = [Agent_Kind], tc_json_size = \<lambda>_. 0\<rparr>, rc_lease_ms = 10, rc_staging_ms = 10, rc_sha = \<lambda>x. x\<rparr>"

definition demo_task :: submission where
  "demo_task = \<lparr>sb_kind = Agent_Kind, sb_priority = Priority_High, sb_payload = [], sb_idem = None,
     sb_timeout_ms = 5, sb_max_attempts = 1\<rparr>"

definition demo_owner :: task_identity where
  "demo_owner = \<lparr>ti_tenant = ''t'', ti_actor = ''a'', ti_role = ''r''\<rparr>"

abbreviation demo_calls :: "(redis_call \<times> int) list" where
  "demo_calls \<equiv> [(Call_Create demo_task demo_owner ''tr'' ''k'', 1), (Call_Audit ''k'', 1), (Call_Activate ''k'', 1),
     (Call_Claim Agent_Pool ''w'', 2)]"

definition demo_running :: redis_store where
  "demo_running = redis_run demo_redis_config demo_calls empty_redis"

lemmas redis_evals = demo_redis_config_def demo_task_def demo_owner_def empty_redis_def create_or_replay_def retries_def
  eval_nat_numeral index_full_def existing_task_def insert_record_def rmetric_def Let_def increment_audit_def
  redis_update_def put_record_def activate_def next_sequence_def outstanding_def on_queue_def on_leases_def
  outbox_put_def unstage_def peak_queue_def peak_active_def claim_next_def zfirst_def zsorted_def
  new_lease_record_def new_record_def task_record.defs zadd_def zrem_def zscore_def

lemma demo_running_eq:
  "rs_data demo_running ''k'' = Some \<lparr>tk_id = ''k'', tk_trace = ''tr'', tk_tenant = ''t'', tk_actor = ''a'', tk_role = ''r'',
      tk_kind = Agent_Kind, tk_pool = Agent_Pool, tk_priority = Priority_High, tk_payload = [], tk_idem = None,
      tk_timeout_ms = 5, tk_max_attempts = 1, tk_status = Running, tk_attempts = 0, tk_result = None, tk_error = None,
      tk_audits = 1, tk_created = 1, tk_updated = 2, tk_started = Some 2, tk_completed = None, rl_deliveries = 1,
      rl_recoveries = 0, rl_worker = Some ''w'', rl_lease = Some 12\<rparr>"
  by (simp add: demo_running_def redis_evals)

lemma demo_running_reachable: "redis_reachable demo_redis_config demo_running"
  unfolding demo_running_def
  by (rule redis_run_reachable[OF redis_empty]) (simp add: empty_redis_def demo_task_def)


section \<open>Outcomes\<close>

text \<open>What any transaction does to the record of one task that another call works on or that has ended.\<close>

definition same_outcome :: "lease_record \<Rightarrow> lease_record \<Rightarrow> bool" where
  "same_outcome r q \<longleftrightarrow> tk_status q = tk_status r \<and> tk_result q = tk_result r \<and> tk_error q = tk_error r \<and>
     tk_completed q = tk_completed r"

definition outcome_kept :: "string \<Rightarrow> lease_record \<Rightarrow> redis_store \<Rightarrow> bool" where
  "outcome_kept k r s \<longleftrightarrow> (case rs_data s k of None \<Rightarrow> True
     | Some q \<Rightarrow> same_outcome r q)"

definition unowned :: "string \<Rightarrow> string \<Rightarrow> redis_store \<Rightarrow> bool" where
  "unowned k w s \<longleftrightarrow> (case rs_data s k of None \<Rightarrow> True | Some q \<Rightarrow> rl_worker q \<noteq> Some w)"

text \<open>A property of the record of one task that all calls but its creation and one worker's claims keep.\<close>

definition steady :: "(redis_call \<Rightarrow> bool) \<Rightarrow> (redis_store \<Rightarrow> bool) \<Rightarrow> bool" where
  "steady skip I \<longleftrightarrow> (\<forall>c call now s. redis_ok c s \<longrightarrow> call_allowed call s \<longrightarrow> I s \<longrightarrow> \<not> skip call \<longrightarrow>
     I (perform c call now s))"

lemma steady_run:
  "steady skip I \<Longrightarrow> redis_reachable c s \<Longrightarrow> run_allowed c calls s \<Longrightarrow> I s \<Longrightarrow> (\<forall>x \<in> set calls. \<not> skip (fst x)) \<Longrightarrow>
     I (redis_run c calls s)"
proof (induction calls arbitrary: s)
  case (Cons x calls)
  obtain call now where x: "x = (call, now)" by (cases x)
  have "I (perform c call now s)"
    using Cons.prems redis_reachable_ok[OF Cons.prems(2)] unfolding steady_def x by simp
  then show ?case
    using Cons.IH[OF Cons.prems(1) redis_called[OF Cons.prems(2)]] Cons.prems(3,5) x by simp
qed simp

text \<open>The data of a task after each kind of transaction.\<close>

definition changes :: "string \<Rightarrow> (lease_record \<Rightarrow> lease_record \<Rightarrow> bool) \<Rightarrow> redis_store \<Rightarrow> redis_store \<Rightarrow> bool" where
  "changes k P s t \<longleftrightarrow> rs_data t = rs_data s \<or>
     (\<exists>r q. rs_data s k = Some r \<and> rs_data t k = Some q \<and> P r q \<and> (\<forall>j. j \<noteq> k \<longrightarrow> rs_data t j = rs_data s j))"

lemma data_activate: "activate c k now s = (res, t) \<Longrightarrow> rs_data t = rs_data s"
  by (auto simp: activate_def Let_def next_sequence_def unstage_def outbox_put_def on_queue_def split: option.splits if_splits)

lemma data_reject:
  "redis_reject k e b now s = (res, t) \<Longrightarrow>
     changes k (\<lambda>r q. \<not> terminal (tk_status r) \<and> tk_status q = Rejected \<and> rl_worker q = None) s t"
  by (auto simp: changes_def redis_reject_def Let_def redis_effects split: option.splits if_splits)

lemma data_recover:
  "recover_one p k now s = (res, t) \<Longrightarrow>
     changes k (\<lambda>r q. tk_status r = Running \<and> tk_status q = Queued \<and> rl_worker q = None) s t"
  by (auto simp: changes_def recover_one_def Let_def redis_effects split: option.splits if_splits)

lemma data_finish:
  "redis_finish k w st x e b now s = (res, t) \<Longrightarrow>
     changes k (\<lambda>r q. tk_status r = Running \<and> rl_worker r = Some w \<and> (st = Succeeded \<or> st = Task_Failed) \<and>
       tk_status q = st \<and> rl_worker q = None) s t"
  by (auto simp: changes_def redis_finish_def Let_def redis_effects split: option.splits if_splits)

lemma data_claim:
  "claim_loop c p w now n s = (res, t) \<Longrightarrow>
     \<exists>k. changes k (\<lambda>r q. tk_status r = Queued \<and> tk_status q = Running \<and> rl_worker q = Some w) s t"
proof (induction n arbitrary: s)
  case (Suc n)
  show ?case
  proof (cases "zfirst (rs_queues s p)")
    case (Some k)
    show ?thesis
    proof (cases "\<exists>r. rs_data s k = Some r \<and> tk_status r \<noteq> Queued")
      case True
      then have "claim_loop c p w now n (on_queue p (zrem k) s) = (res, t)" using Suc.prems Some by auto
      from Suc.IH[OF this] show ?thesis by (simp add: changes_def on_queue_def)
    next
      case False
      then have "changes k (\<lambda>r q. tk_status r = Queued \<and> tk_status q = Running \<and> rl_worker q = Some w) s t"
        using Suc.prems Some by (auto simp: changes_def Let_def redis_effects split: option.splits)
      then show ?thesis by blast
    qed
  qed (use Suc.prems in \<open>simp add: changes_def\<close>)
qed (simp add: changes_def)

lemma data_heartbeat:
  "heartbeat c k w now s = (res, t) \<Longrightarrow>
     changes k (\<lambda>r q. same_outcome r q \<and> rl_worker q = rl_worker r) s t"
  by (auto simp: changes_def same_outcome_def heartbeat_def redis_effects split: option.splits if_splits)

lemma data_create_purge:
  assumes "redis_ok c s" "create_loop c sub i trace k now n s = (res, t)"
  shows "\<forall>j. rs_data t j = rs_data s j \<or>
      (j = k \<and> (\<exists>r. rs_data t j = Some r \<and> tk_status r = Queued \<and> rl_worker r = None)) \<or>
      (rs_data t j = None \<and> (\<exists>r. rs_data s j = Some r \<and> terminal (tk_status r)))"
  using assms
proof (induction n arbitrary: s)
  case (Suc n)
  obtain b u where bu: "(if index_full c s then purge_oldest_terminal c s else (True, s)) = (b, u)"
    by (cases "if index_full c s then purge_oldest_terminal c s else (True, s)")
  have u: "redis_ok c u \<and> (\<forall>j. rs_data u j = rs_data s j \<or> (rs_data u j = None \<and> (\<exists>r. rs_data s j = Some r \<and> terminal (tk_status r))))"
  proof (cases "index_full c s")
    case True
    then have "purge_oldest_terminal c s = (b, u)" using bu by simp
    from purge_effect[OF Suc.prems(1) this] show ?thesis
      using Suc.prems(1) drop_record_ok[OF Suc.prems(1)] by cases (auto simp: drop_record_def)
  qed (use bu Suc.prems(1) in simp)
  have rest: "\<forall>j. rs_data t j = rs_data u j \<or>
      (j = k \<and> (\<exists>r. rs_data t j = Some r \<and> tk_status r = Queued \<and> rl_worker r = None)) \<or>
      (rs_data t j = None \<and> (\<exists>r. rs_data u j = Some r \<and> terminal (tk_status r)))"
  proof (cases b)
    case False
    then show ?thesis using Suc.prems(2) bu by auto
  next
    case True
    then show ?thesis using Suc.prems(2) bu Suc.IH[of u] u
      by (auto simp: Let_def insert_record_def split: option.splits if_splits)
  qed
  show ?case
  proof (intro allI)
    fix j
    show "rs_data t j = rs_data s j \<or>
      (j = k \<and> (\<exists>r. rs_data t j = Some r \<and> tk_status r = Queued \<and> rl_worker r = None)) \<or>
      (rs_data t j = None \<and> (\<exists>r. rs_data s j = Some r \<and> terminal (tk_status r)))"
      using spec[OF rest, of j] spec[OF conjunct2[OF u], of j] by auto
  qed
qed simp

lemma data_create:
  assumes "redis_ok c s" "create_loop c sub i trace k now n s = (res, t)"
  shows "\<forall>j. rs_data t j = rs_data s j \<or> rs_data t j = None \<or> (j = k \<and> (\<exists>r. rs_data t j = Some r \<and> tk_status r = Queued \<and> rl_worker r = None))"
  using data_create_purge[OF assms] by blast

lemma data_update:
  "redis_update k w f now s = (res, t) \<Longrightarrow> (\<And>r. same_outcome r (f r) \<and> rl_worker (f r) = rl_worker r) \<Longrightarrow>
     changes k (\<lambda>r q. same_outcome r q \<and> rl_worker q = rl_worker r) s t"
  by (auto simp: redis_update_def changes_def Let_def put_record_def same_outcome_def split: option.splits if_splits)

lemma changes_weaken: "changes k P s t \<Longrightarrow> (\<And>r q. P r q \<Longrightarrow> Q r q) \<Longrightarrow> changes k Q s t"
  by (auto simp: changes_def)

lemma data_read_outbox [simp]: "rs_data (snd (read_outbox ms s)) = rs_data s"
  using read_outbox_keeps[of "\<lambda>x. rs_data x = rs_data s" s ms] by (simp add: acknowledge_outbox_def)

lemma steadyI:
  assumes dep: "\<And>s t. rs_data t = rs_data s \<Longrightarrow> I s \<Longrightarrow> I t"
    and upd: "\<And>k s t. changes k (\<lambda>r q. same_outcome r q \<and> rl_worker q = rl_worker r) s t \<Longrightarrow> I s \<Longrightarrow> I t"
    and ended: "\<And>k s t. changes k (\<lambda>r q. \<not> terminal (tk_status r) \<and> rl_worker q = None) s t \<Longrightarrow> I s \<Longrightarrow> I t"
    and claim: "\<And>k p w s t. \<not> skip (Call_Claim p w) \<Longrightarrow>
      changes k (\<lambda>r q. tk_status r = Queued \<and> rl_worker q = Some w) s t \<Longrightarrow> I s \<Longrightarrow> I t"
    and create: "\<And>sub i trace k s t. \<not> skip (Call_Create sub i trace k) \<Longrightarrow>
      \<forall>j. rs_data t j = rs_data s j \<or> rs_data t j = None \<or>
        (j = k \<and> (\<exists>r. rs_data t j = Some r \<and> tk_status r = Queued \<and> rl_worker r = None)) \<Longrightarrow> I s \<Longrightarrow> I t"
  shows "steady skip I"
  unfolding steady_def
proof (intro allI impI)
  fix c call now s assume ok: "redis_ok c s" and I: "I s" and skip: "\<not> skip call"
  have act: "op_keeps I (activate c k now)" for k
    unfolding op_keeps_def using dep[OF data_activate] by blast
  have rej: "op_keeps I (redis_reject k e b now)" for k e b
    unfolding op_keeps_def using ended[OF changes_weaken[OF data_reject]] by fastforce
  have rec: "op_keeps I (recover_one p k now)" for p k
    unfolding op_keeps_def using ended[OF changes_weaken[OF data_recover]] by fastforce
  have beat: "op_keeps I (heartbeat c k w now)" for k w
    unfolding op_keeps_def using upd[OF data_heartbeat] by blast
  have fin: "op_keeps I (redis_finish k w st x e b now)" for k w st x e b
    unfolding op_keeps_def using ended[OF changes_weaken[OF data_finish]] by fastforce
  have aud: "op_keeps I (increment_audit k now)" "op_keeps I (set_attempts k w n now)" for k w n
    unfolding op_keeps_def increment_audit_def set_attempts_def
    by (intro allI impI, erule upd[OF data_update, rotated 2], simp, simp add: same_outcome_def)+
  have one: "op_keeps I (reconcile_one c k now)" for k
    by (rule reconcile_one_keeps[OF act rej]) (rule dep, simp_all add: unstage_def)
  show "I (perform c call now s)"
  proof (cases call)
    case (Call_Create sub i trace k)
    obtain res t where run: "create_or_replay c sub i trace k now s = (res, t)" by (cases "create_or_replay c sub i trace k now s")
    let ?s = "rmetric (\<lambda>m. m\<lparr>rm_submitted := rm_submitted m + 1\<rparr>) s"
    have "redis_ok c ?s" using ok by simp
    from data_create[OF this run[unfolded create_or_replay_def]] show ?thesis
      using create[of sub i trace k t s] skip I run Call_Create by simp
  next
    case (Call_Claim p w)
    obtain res t where run: "claim_next c p w now s = (res, t)" by (cases "claim_next c p w now s")
    obtain k where "changes k (\<lambda>r q. tk_status r = Queued \<and> tk_status q = Running \<and> rl_worker q = Some w) s t"
      using data_claim[OF run[unfolded claim_next_def]] by blast
    then have "changes k (\<lambda>r q. tk_status r = Queued \<and> rl_worker q = Some w) s t" by (rule changes_weaken) simp
    then show ?thesis using claim skip I run Call_Claim by simp
  next
    case (Call_Recover most)
    then show ?thesis using snd_keeps[OF recover_pools_keeps[OF rec] I] by (simp add: recover_expired_def)
  next
    case (Call_Reconcile most)
    then show ?thesis using snd_keeps[OF reconcile_each_keeps[OF one] I] by (simp add: reconcile_staging_def)
  next
    case (Call_Outbox n)
    then show ?thesis using dep I by (simp add: outbox_due_def)
  next
    case (Call_Acknowledge m)
    then show ?thesis using dep[OF _ I] by (simp add: acknowledge_outbox_def)
  next
    case Call_Reset
    then show ?thesis using dep[OF _ I] by (simp add: reset_redis_metrics_def)
  qed (use snd_keeps[OF act I] snd_keeps[OF rej I] snd_keeps[OF beat I] snd_keeps[OF fin I] snd_keeps[OF aud(1) I]
      snd_keeps[OF aud(2) I] in simp_all)
qed

definition creates :: "string \<Rightarrow> redis_call \<Rightarrow> bool" where
  "creates k call \<longleftrightarrow> (case call of Call_Create _ _ _ j \<Rightarrow> j = k | _ \<Rightarrow> False)"

definition claims_as :: "string \<Rightarrow> redis_call \<Rightarrow> bool" where
  "claims_as w call \<longleftrightarrow> (case call of Call_Claim _ v \<Rightarrow> v = w | _ \<Rightarrow> False)"

lemma outcome_steady:
  assumes "terminal (tk_status r)"
  shows "steady (creates k) (outcome_kept k r)"
proof (rule steadyI)
  have other: "changes j (\<lambda>q q'. \<not> terminal (tk_status q) \<and> P q q') s t \<Longrightarrow> outcome_kept k r s \<Longrightarrow> outcome_kept k r t" for j P s t
    using assms by (cases "j = k") (auto simp: changes_def outcome_kept_def same_outcome_def split: option.splits)
  show "changes j (\<lambda>r q. \<not> terminal (tk_status r) \<and> rl_worker q = None) s t \<Longrightarrow> outcome_kept k r s \<Longrightarrow> outcome_kept k r t" for j s t
    by (rule other)
  show "changes j (\<lambda>r q. tk_status r = Queued \<and> rl_worker q = Some w) s t \<Longrightarrow> outcome_kept k r s \<Longrightarrow> outcome_kept k r t" for j w s t
    by (rule other[of j "\<lambda>r q. rl_worker q = Some w"], erule changes_weaken) auto
  show "changes j (\<lambda>r q. same_outcome r q \<and> rl_worker q = rl_worker r) s t \<Longrightarrow> outcome_kept k r s \<Longrightarrow> outcome_kept k r t" for j s t
    by (cases "j = k") (auto simp: changes_def outcome_kept_def same_outcome_def split: option.splits)
  show "outcome_kept k r s \<Longrightarrow> outcome_kept k r t"
    if "\<not> creates k (Call_Create sub i trace j)"
      "\<forall>x. rs_data t x = rs_data s x \<or> rs_data t x = None \<or>
        (x = j \<and> (\<exists>r. rs_data t x = Some r \<and> tk_status r = Queued \<and> rl_worker r = None))" for sub i trace j s t
    using that spec[OF that(2), of k] by (auto simp: creates_def outcome_kept_def)
qed (simp add: outcome_kept_def)

text \<open>A distributed task ends once. When a task has succeeded, failed or been rejected, no
  interleaving of workers, heartbeats, recoveries and submissions changes its status, its
  result, its error or its completion time again, until its record is purged.\<close>

theorem redis_outcome_final:
  assumes "redis_reachable c s" "run_allowed c calls s" "rs_data s k = Some r" "terminal (tk_status r)"
    and "\<forall>x \<in> set calls. \<not> creates k (fst x)"
  shows "case rs_data (redis_run c calls s) k of
      None \<Rightarrow> True
    | Some q \<Rightarrow> tk_status q = tk_status r \<and> tk_result q = tk_result r \<and> tk_error q = tk_error r \<and> tk_completed q = tk_completed r"
proof -
  have "outcome_kept k r s" using assms(3) by (simp add: outcome_kept_def same_outcome_def)
  from steady_run[OF outcome_steady[OF assms(4)] assms(1,2) this assms(5)] show ?thesis
    by (simp add: outcome_kept_def same_outcome_def split: option.splits)
qed

definition demo_finished :: redis_store where
  "demo_finished = perform demo_redis_config (Call_Finish ''k'' ''w'' Succeeded (Some []) None False) 5 demo_running"

lemma demo_finished_reachable: "redis_reachable demo_redis_config demo_finished"
  unfolding demo_finished_def by (rule redis_called[OF demo_running_reachable]) simp

lemma demo_finished_eq:
  "\<exists>r. rs_data demo_finished ''k'' = Some r \<and> tk_status r = Succeeded \<and> rl_worker r = None"
  by (simp add: demo_finished_def redis_finish_def demo_running_eq Let_def put_record_def on_leases_def)

theorem redis_outcome_final_witness:
  "case rs_data (redis_run demo_redis_config [(Call_Finish ''k'' ''w'' Task_Failed None (Some Backpressure) False, 6),
      (Call_Recover 1, 30)] demo_finished) ''k'' of None \<Rightarrow> True | Some q \<Rightarrow> tk_status q = Succeeded"
proof -
  obtain r where r: "rs_data demo_finished ''k'' = Some r" "tk_status r = Succeeded" using demo_finished_eq by blast
  show ?thesis
    using redis_outcome_final[OF demo_finished_reachable _ r(1), of "[(Call_Finish ''k'' ''w'' Task_Failed None (Some Backpressure) False, 6),
      (Call_Recover 1, 30)]"] r(2) by (simp add: creates_def split: option.splits)
qed

lemma unowned_steady: "steady (claims_as w) (unowned k w)"
proof (rule steadyI)
  show "changes j (\<lambda>r q. \<not> terminal (tk_status r) \<and> rl_worker q = None) s t \<Longrightarrow> unowned k w s \<Longrightarrow> unowned k w t" for j s t
    by (cases "j = k") (auto simp: changes_def unowned_def split: option.splits)
  show "changes j (\<lambda>r q. same_outcome r q \<and> rl_worker q = rl_worker r) s t \<Longrightarrow> unowned k w s \<Longrightarrow> unowned k w t" for j s t
    by (cases "j = k") (auto simp: changes_def unowned_def split: option.splits)
  show "unowned k w s \<Longrightarrow> unowned k w t"
    if "\<not> claims_as w (Call_Claim p v)" "changes j (\<lambda>r q. tk_status r = Queued \<and> rl_worker q = Some v) s t" for j p v s t
    using that by (cases "j = k") (auto simp: changes_def unowned_def claims_as_def split: option.splits)
  show "unowned k w s \<Longrightarrow> unowned k w t"
    if "\<forall>x. rs_data t x = rs_data s x \<or> rs_data t x = None \<or>
        (x = j \<and> (\<exists>r. rs_data t x = Some r \<and> tk_status r = Queued \<and> rl_worker r = None))" for j s t
    using spec[OF that, of k] by (auto simp: unowned_def)
qed (simp add: unowned_def)

text \<open>C33: A worker that has lost its lease cannot commit. From the moment a task's record no longer
  names a worker (its lease expired and was recovered, or it never had one), that worker's
  \<open>finish\<close> changes no record, whatever has happened in between, unless the worker claims again.\<close>

theorem lost_lease_cannot_commit:
  assumes "redis_reachable c s" "run_allowed c calls s" "rs_data s k = Some r" "rl_worker r \<noteq> Some w"
    and "\<forall>x \<in> set calls. \<not> claims_as w (fst x)"
    and "redis_finish k w st x e b now (redis_run c calls s) = (res, t)"
  shows "t = redis_run c calls s"
proof -
  have "unowned k w s" using assms(3,4) by (simp add: unowned_def)
  from steady_run[OF unowned_steady assms(1,2) this assms(5)] have "unowned k w (redis_run c calls s)" .
  then show ?thesis using assms(6) by (auto simp: unowned_def redis_finish_def split: option.splits if_splits)
qed

text \<open>The lease of the running task of the example runs out, and its worker comes back late.\<close>

theorem lost_lease_cannot_commit_witness:
  "snd (redis_finish ''k'' ''w'' Succeeded (Some []) None False 40
     (redis_run demo_redis_config [(Call_Claim Agent_Pool ''v'', 35)] (perform demo_redis_config (Call_Recover 1) 30 demo_running))) =
   redis_run demo_redis_config [(Call_Claim Agent_Pool ''v'', 35)] (perform demo_redis_config (Call_Recover 1) 30 demo_running)"
proof -
  let ?s = "perform demo_redis_config (Call_Recover 1) 30 demo_running"
  have reach: "redis_reachable demo_redis_config ?s" by (rule redis_called[OF demo_running_reachable]) simp
  have leases: "rs_leases demo_running = (\<lambda>_. [])(Agent_Pool := [(''k'', 12)])"
    by (simp add: demo_running_def redis_evals)
  obtain r where r: "rs_data ?s ''k'' = Some r" "rl_worker r = None"
    by (simp add: recover_expired_def pools_def op_defs recover_one_def zup_to_def zsorted_def leases demo_running_eq
        next_sequence_def Let_def put_record_def on_leases_def on_queue_def outbox_put_def zscore_def)
  obtain res t where run: "redis_finish ''k'' ''w'' Succeeded (Some []) None False 40
     (redis_run demo_redis_config [(Call_Claim Agent_Pool ''v'', 35)] ?s) = (res, t)"
    by (cases "redis_finish ''k'' ''w'' Succeeded (Some []) None False 40
     (redis_run demo_redis_config [(Call_Claim Agent_Pool ''v'', 35)] ?s)")
  show ?thesis
    using lost_lease_cannot_commit[OF reach _ r(1) _ _ run] r(2) run by (simp add: claims_as_def)
qed

section \<open>Claims and recovery\<close>

lemma zfirst_least_ex:
  assumes "zfirst z = Some k" "zdistinct z"
  shows "\<exists>v. zscore k z = Some v \<and> (\<forall>j u. zscore j z = Some u \<longrightarrow> v \<le> u)"
  by (rule zfirst_least[OF assms]) blast

lemma claim_effect:
  assumes ok: "redis_ok c s" and q: "rs_queues s p \<noteq> []"
  obtains k r v where "rs_data s k = Some r" "tk_status r = Queued" "tk_pool r = p" "zscore k (rs_queues s p) = Some v"
    "\<And>j u. zscore j (rs_queues s p) = Some u \<Longrightarrow> v \<le> u"
    "fst (claim_next c p w now s) = Inr (Some (r\<lparr>tk_status := Running,
       tk_started := Some (case tk_started r of None \<Rightarrow> now | Some t \<Rightarrow> t), tk_updated := now,
       rl_deliveries := rl_deliveries r + 1, rl_worker := Some w, rl_lease := Some (now + rc_lease_ms c)\<rparr>))"
proof -
  obtain k where k: "zfirst (rs_queues s p) = Some k" using q zfirst_None[of "rs_queues s p"] by auto
  have "zdistinct (rs_queues s p)" using ok by (simp add: redis_ok_def sized_def)
  then obtain v where v: "zscore k (rs_queues s p) = Some v" "\<forall>j u. zscore j (rs_queues s p) = Some u \<longrightarrow> v \<le> u"
    using zfirst_least_ex[OF k] by blast
  obtain r where r: "rs_data s k = Some r" "tk_pool r = p" "tk_status r = Queued"
    using home_queued[OF redis_ok_home[OF ok] v(1)] by blast
  obtain m where "retries = Suc m" by (simp add: retries_def that[of 63])
  then have "claim_next c p w now s = claim_loop c p w now (Suc m) s" by (simp add: claim_next_def)
  then show thesis using that[OF r(1,3,2) v(1)] v(2) k r by (simp add: Let_def)
qed

text \<open>Workers take the best task. Whenever a pool's queue is not empty a claim succeeds, and the
  task it leases to the worker has the highest priority of the queue and, among its equals, was
  queued first. (Scores stay apart for the first 10^12 entries of the queue.)\<close>

theorem claim_takes_best:
  assumes "redis_reachable c s" "rs_queues s p \<noteq> []" "int (rs_sequence s) < priority_stride"
  shows "\<exists>k r q. fst (claim_next c p w now s) = Inr (Some r) \<and> rs_data s k = Some q \<and> tk_id r = k \<and>
    k \<in> zmembers (rs_queues s p) \<and> tk_status r = Running \<and> rl_worker r = Some w \<and>
    rl_deliveries r = rl_deliveries q + 1 \<and>
    (\<forall>j \<in> zmembers (rs_queues s p). \<exists>qj. rs_data s j = Some qj \<and>
       (task_priority_rank (tk_priority r) < task_priority_rank (tk_priority qj) \<or>
        tk_priority r = tk_priority qj \<and> the (zscore k (rs_queues s p)) \<le> the (zscore j (rs_queues s p))))"
proof -
  note ok = redis_reachable_ok[OF assms(1)]
  obtain k q v where kq: "rs_data s k = Some q" "tk_status q = Queued" "tk_pool q = p" "zscore k (rs_queues s p) = Some v"
    "\<And>j u. zscore j (rs_queues s p) = Some u \<Longrightarrow> v \<le> u"
    and run: "fst (claim_next c p w now s) = Inr (Some (q\<lparr>tk_status := Running,
       tk_started := Some (case tk_started q of None \<Rightarrow> now | Some t \<Rightarrow> t), tk_updated := now,
       rl_deliveries := rl_deliveries q + 1, rl_worker := Some w, rl_lease := Some (now + rc_lease_ms c)\<rparr>))"
    using claim_effect[OF ok assms(2), of w now] by blast
  have "tk_id q = k" using at_homeD(1)[OF redis_ok_home[OF ok] kq(1)] .
  obtain n where n: "n \<le> rs_sequence s" "v = queue_score (tk_priority q) n"
    using home_queued[OF redis_ok_home[OF ok] kq(4)] kq(1) by (metis option.inject)
  have best: "\<exists>qj. rs_data s j = Some qj \<and>
       (task_priority_rank (tk_priority q) < task_priority_rank (tk_priority qj) \<or>
        tk_priority q = tk_priority qj \<and> v \<le> the (zscore j (rs_queues s p)))" if "j \<in> zmembers (rs_queues s p)" for j
  proof -
    obtain u where u: "zscore j (rs_queues s p) = Some u" using \<open>j \<in> _\<close> zmember_score by blast
    obtain qj m where m: "rs_data s j = Some qj" "m \<le> rs_sequence s" "u = queue_score (tk_priority qj) m"
      using home_queued[OF redis_ok_home[OF ok] u] by blast
    have le: "queue_score (tk_priority q) n \<le> queue_score (tk_priority qj) m" using kq(5)[OF u] n m by simp
    have "int n < priority_stride" "int m < priority_stride" using n m assms(3) by auto
    then have "task_priority_rank (tk_priority q) \<le> task_priority_rank (tk_priority qj)"
      using le by (cases "tk_priority q"; cases "tk_priority qj") (simp_all add: queue_score_def priority_stride_def)
    then have "task_priority_rank (tk_priority q) < task_priority_rank (tk_priority qj) \<or> tk_priority q = tk_priority qj"
      by (cases "tk_priority q"; cases "tk_priority qj") simp_all
    then show ?thesis using m(1) kq(5)[OF u] u by auto
  qed
  show ?thesis
    by (rule exI[of _ k], rule exI, rule exI[of _ q], intro conjI, rule run)
      (use kq(1,4) best \<open>tk_id q = k\<close> zscore_Some_member[OF kq(4)] in simp_all)
qed

definition demo_waiting :: redis_store where
  "demo_waiting = redis_run demo_redis_config (take 3 demo_calls) empty_redis"

lemma demo_waiting_reachable: "redis_reachable demo_redis_config demo_waiting"
  unfolding demo_waiting_def
  by (rule redis_run_reachable[OF redis_empty]) (simp add: empty_redis_def demo_task_def eval_nat_numeral)

theorem claim_takes_best_witness:
  "\<exists>r. fst (claim_next demo_redis_config Agent_Pool ''w'' 2 demo_waiting) = Inr (Some r) \<and> tk_status r = Running"
proof -
  have "rs_queues demo_waiting Agent_Pool \<noteq> []" "int (rs_sequence demo_waiting) < priority_stride"
    by (simp_all add: demo_waiting_def redis_evals priority_stride_def)
  from claim_takes_best[OF demo_waiting_reachable this, of "''w''" 2] show ?thesis by blast
qed

text \<open>
  The two queues: entries of a priority, a sequence number and a task, as the in-memory dispatcher
  and as the Redis store keep them.
\<close>

definition memory_item :: "task_priority \<times> nat \<times> string \<Rightarrow> queue_item" where
  "memory_item = (\<lambda>(p, n, k). (task_priority_rank p, n, k))"

definition redis_member :: "task_priority \<times> nat \<times> string \<Rightarrow> string \<times> int" where
  "redis_member = (\<lambda>(p, n, k). (k, queue_score p n))"

lemma queue_score_before:
  assumes "int n < priority_stride" "int m < priority_stride"
  shows "queue_score p n \<le> queue_score q m \<longleftrightarrow> \<not> item_before (memory_item (q, m, j)) (memory_item (p, n, k))"
proof (cases "task_priority_rank p" "task_priority_rank q" rule: linorder_cases)
  case less
  then have "int (task_priority_rank p) + 1 \<le> int (task_priority_rank q)" by simp
  then have "(int (task_priority_rank p) + 1) * priority_stride \<le> int (task_priority_rank q) * priority_stride"
    by (rule mult_right_mono) (simp add: priority_stride_def)
  then show ?thesis using assms less by (simp add: queue_score_def item_before_def memory_item_def algebra_simps)
next
  case equal
  then show ?thesis by (auto simp: queue_score_def item_before_def memory_item_def)
next
  case greater
  then have "int (task_priority_rank q) + 1 \<le> int (task_priority_rank p)" by simp
  then have "(int (task_priority_rank q) + 1) * priority_stride \<le> int (task_priority_rank p) * priority_stride"
    by (rule mult_right_mono) (simp add: priority_stride_def)
  then show ?thesis using assms greater by (simp add: queue_score_def item_before_def memory_item_def algebra_simps)
qed

text \<open>C34: The distributed queue is the in-memory priority queue: for any queue entries with distinct tasks and
  distinct sequence numbers below 10^12, the first member of the Redis sorted set, by its score, is the
  task that the in-memory dispatcher's priority queue hands out.\<close>

theorem redis_queue_is_priority_queue:
  assumes "distinct (map (\<lambda>(p, n, k). k) (e # es))" "distinct (map (\<lambda>(p, n, k). n) (e # es))"
    and bound: "\<forall>(p, n, k) \<in> set (e # es). int n < priority_stride"
  shows "zfirst (map redis_member (e # es)) = Some (snd (snd (queue_min (memory_item e) (map memory_item es))))"
proof -
  let ?z = "map redis_member (e # es)" and ?m = "queue_min (memory_item e) (map memory_item es)"
  have keys: "map fst ?z = map (\<lambda>(p, n, k). k) (e # es)"
    unfolding map_map by (rule map_cong) (auto simp: redis_member_def)
  have dist: "zdistinct ?z" using assms(1) unfolding zdistinct_def keys .
  obtain k where k: "zfirst ?z = Some k" using zfirst_None[of ?z] by (cases "zfirst ?z") auto
  obtain v where v: "zscore k ?z = Some v" "\<And>j u. zscore j ?z = Some u \<Longrightarrow> v \<le> u" using k dist by (rule zfirst_least) blast
  have "(k, v) \<in> set ?z" using v(1) unfolding zscore_def by (rule map_of_SomeD)
  then obtain p n where pn: "(p, n, k) \<in> set (e # es)" "v = queue_score p n"
    unfolding set_map by (elim imageE) (auto simp only: redis_member_def split_paired_all prod.case prod.inject)
  have "?m \<in> memory_item ` set (e # es)" using queue_min_in[of "memory_item e" "map memory_item es"] by simp
  then obtain q m j where m: "(q, m, j) \<in> set (e # es)" "?m = memory_item (q, m, j)" by (metis imageE prod_cases3)
  have "redis_member (q, m, j) \<in> set ?z" using m(1) unfolding set_map by (rule imageI)
  then have "zscore j ?z = Some (queue_score q m)"
    using dist unfolding zscore_def zdistinct_def by (intro map_of_is_SomeI) (simp_all add: redis_member_def)
  then have "queue_score p n \<le> queue_score q m" using v(2) pn(2) by blast
  moreover have "int n < priority_stride" using bspec[OF bound pn(1)] by simp
  moreover have "int m < priority_stride" using bspec[OF bound m(1)] by simp
  ultimately have "\<not> item_before (memory_item (q, m, j)) (memory_item (p, n, k))" using queue_score_before by blast
  moreover have "\<not> item_before (memory_item (p, n, k)) (memory_item (q, m, j))"
  proof -
    have "memory_item (p, n, k) \<in> set (memory_item e # map memory_item es)" using pn(1) by auto
    then show ?thesis unfolding m(2)[symmetric] by (rule queue_min_least)
  qed
  ultimately have "n = m" by (auto simp: item_before_def memory_item_def)
  have inj: "inj_on (\<lambda>(p, n, k). n) (set (e # es))" using assms(2) unfolding distinct_map by blast
  have "(p, n, k) = (q, m, j)" by (rule inj_onD[OF inj _ pn(1) m(1)]) (simp add: \<open>n = m\<close>)
  then show ?thesis using k m(2) by (simp add: memory_item_def)
qed

theorem redis_queue_is_priority_queue_witness:
  "zfirst (map redis_member [(Priority_Low, 1, ''a''), (Priority_High, 3, ''b''), (Priority_High, 2, ''c'')]) = Some ''c''"
  using redis_queue_is_priority_queue[of "(Priority_Low, 1, ''a'')" "[(Priority_High, 3, ''b''), (Priority_High, 2, ''c'')]"]
  by (simp add: priority_stride_def memory_item_def item_before_def)

text \<open>Recovery of one pool's leases, in any order.\<close>

definition requeued :: "string \<Rightarrow> redis_store \<Rightarrow> bool" where
  "requeued k s \<longleftrightarrow> (\<exists>r. rs_data s k = Some r \<and> tk_status r = Queued \<and> zscore k (rs_queues s (tk_pool r)) \<noteq> None)"

definition expired_in :: "task_pool \<Rightarrow> int \<Rightarrow> string \<Rightarrow> redis_store \<Rightarrow> bool" where
  "expired_in p now k s \<longleftrightarrow> (\<exists>e \<le> now. zscore k (rs_leases s p) = Some e)"

lemma recover_one_total:
  assumes "redis_ok c s"
  obtains b t where "recover_one p k now s = (Inr b, t)" "redis_ok c t"
proof -
  obtain res t where run: "recover_one p k now s = (res, t)" by (cases "recover_one p k now s")
  have "res \<noteq> Inl e" for e
    using run home_leased[OF redis_ok_home[OF assms, of k]]
    by (fastforce simp: recover_one_def next_sequence_def Let_def split: option.splits if_splits)
  then show thesis using that run recover_one_ok[OF assms run] by (cases res) auto
qed

lemma recover_one_requeues:
  assumes ok: "redis_ok c s" and run: "recover_one p j now s = (Inr b, t)"
  shows "requeued k s \<Longrightarrow> requeued k t" "expired_in p' now k s \<Longrightarrow> (if p' = p \<and> k = j then requeued k t else expired_in p' now k t)"
proof -
  note home = redis_ok_home[OF ok]
  have cases: "(t = s \<and> \<not> expired_in p now j s) \<or> (\<exists>r v u. rs_data s j = Some r \<and> tk_pool r = p \<and> tk_status r = Running \<and>
      rs_data t = (rs_data s)(j \<mapsto> u) \<and> tk_status u = Queued \<and> tk_pool u = p \<and>
      rs_queues t = (rs_queues s)(p := zadd j v (rs_queues s p)) \<and> rs_leases t = (rs_leases s)(p := zrem j (rs_leases s p)))"
  proof (cases "zscore j (rs_leases s p)")
    case None
    then show ?thesis using run by (simp add: recover_one_def expired_in_def)
  next
    case (Some e)
    obtain r where r: "rs_data s j = Some r" "tk_pool r = p" "tk_status r = Running" using home_leased[OF home Some] by blast
    show ?thesis
    proof (cases "now < e")
      case True
      then show ?thesis using run Some by (simp add: recover_one_def expired_in_def)
    next
      case False
      let ?u = "r\<lparr>tk_status := Queued, tk_updated := now, rl_recoveries := rl_recoveries r + 1,
                       rl_worker := None, rl_lease := None\<rparr>"
      have "rs_data t = (rs_data s)(j \<mapsto> ?u)"
        "rs_queues t = (rs_queues s)(p := zadd j (queue_score (tk_priority r) (Suc (rs_sequence s))) (rs_queues s p))"
        "rs_leases t = (rs_leases s)(p := zrem j (rs_leases s p))"
        using run Some r False by (auto simp: recover_one_def Let_def redis_effects)
      moreover have "tk_status ?u = Queued" "tk_pool ?u = p" using r by simp_all
      ultimately show ?thesis using r by blast
    qed
  qed
  from cases show "requeued k s \<Longrightarrow> requeued k t" by (cases "k = j") (auto simp: requeued_def)
  from cases show "expired_in p' now k s \<Longrightarrow> (if p' = p \<and> k = j then requeued k t else expired_in p' now k t)"
    by (cases "k = j") (auto simp: requeued_def expired_in_def)
qed

lemma recover_each_requeues:
  "redis_ok c s \<Longrightarrow> \<exists>n t. recover_each p now ks s = (Inr n, t) \<and> redis_ok c t \<and>
     (\<forall>k. requeued k s \<longrightarrow> requeued k t) \<and>
     (\<forall>k p'. expired_in p' now k s \<longrightarrow> (if p' = p \<and> k \<in> set ks then requeued k t else expired_in p' now k t \<or> requeued k t))"
proof (induction ks arbitrary: s)
  case Nil
  then show ?case by (auto simp: op_return_def)
next
  case (Cons j ks)
  obtain b u where u: "recover_one p j now s = (Inr b, u)" "redis_ok c u" using recover_one_total[OF Cons.prems] by blast
  note step = recover_one_requeues[OF Cons.prems u(1)]
  obtain n t where t: "recover_each p now ks u = (Inr n, t)" "redis_ok c t" "\<forall>k. requeued k u \<longrightarrow> requeued k t"
    "\<forall>k p'. expired_in p' now k u \<longrightarrow> (if p' = p \<and> k \<in> set ks then requeued k t else expired_in p' now k t \<or> requeued k t)"
    using Cons.IH[OF u(2)] by blast
  have "recover_each p now (j # ks) s = (Inr (if b then n + 1 else n), t)"
    using u(1) t(1) by (simp add: op_defs)
  moreover have "if p' = p \<and> k \<in> set (j # ks) then requeued k t else expired_in p' now k t \<or> requeued k t"
    if "expired_in p' now k s" for k p'
    using step(2)[OF that] t(3,4) by (cases "p' = p \<and> k = j") (auto split: if_splits)
  ultimately show ?case using t(2,3) step(1) by blast
qed

lemma filter_le: "(\<And>x. P x \<Longrightarrow> Q x) \<Longrightarrow> length (filter P xs) \<le> length (filter Q xs)"
  by (induction xs) auto

lemma filter_mset_length: "mset xs = mset ys \<Longrightarrow> length (filter P xs) = length (filter P ys)"
  by (simp flip: size_mset)

text \<open>The leases of a pool that have run out; recovery reads the first of them.\<close>

definition expired_count :: "task_pool \<Rightarrow> int \<Rightarrow> redis_store \<Rightarrow> nat" where
  "expired_count p now s = length (filter (\<lambda>(_, e). e \<le> now) (rs_leases s p))"

lemma expired_listed:
  assumes "zscore k (rs_leases s p) = Some v" "0 \<le> v" "v \<le> now" and few: "expired_count p now s \<le> most"
  shows "k \<in> set (zup_to now most (rs_leases s p))"
proof -
  have v: "(k, v) \<in> set (rs_leases s p)" using assms(1) by (auto simp: zscore_def dest: map_of_SomeD)
  let ?f = "filter (\<lambda>(_, v). 0 \<le> v \<and> v \<le> now) (zsorted (rs_leases s p))"
  have "length ?f = length (filter (\<lambda>(_, v). 0 \<le> v \<and> v \<le> now) (rs_leases s p))"
    by (rule filter_mset_length) (simp add: zsorted_def)
  also have "\<dots> \<le> length (filter (\<lambda>(_, e). e \<le> now) (rs_leases s p))"
    by (rule filter_le) auto
  finally have "length ?f \<le> most" using few by (simp add: expired_count_def)
  then have "take most (map fst ?f) = map fst ?f" by simp
  moreover have "(k, v) \<in> set ?f" using v assms(2,3) by simp
  then have "k \<in> set (map fst ?f)" unfolding set_map by (rule image_eqI[rotated]) simp
  ultimately show ?thesis unfolding zup_to_def by simp
qed

lemma recover_one_leases: "recover_one p k now s = (res, t) \<Longrightarrow> q \<noteq> p \<Longrightarrow> rs_leases t q = rs_leases s q"
  by (auto simp: recover_one_def Let_def redis_effects split: option.splits if_splits)

lemma recover_each_leases: "recover_each p now ks s = (res, t) \<Longrightarrow> q \<noteq> p \<Longrightarrow> rs_leases t q = rs_leases s q"
  using recover_each_keeps[of "\<lambda>u. rs_leases u q = rs_leases s q" p now ks] recover_one_leases[of p _ now _ _ _ q]
  unfolding op_keeps_def by metis

lemma recover_pools_requeues:
  assumes "redis_ok c s" "requeued k s \<or> p \<in> set ps \<and> expired_count p now s \<le> most \<and>
    (\<exists>v. zscore k (rs_leases s p) = Some v \<and> 0 \<le> v \<and> v \<le> now)"
  shows "\<exists>n t. recover_pools most now ps s = (Inr n, t) \<and> requeued k t"
  using assms
proof (induction ps arbitrary: s)
  case Nil
  then show ?case by (simp add: op_return_def)
next
  case (Cons q ps)
  obtain n u where u: "recover_each q now (zup_to now most (rs_leases s q)) s = (Inr n, u)" "redis_ok c u"
      "\<forall>j. requeued j s \<longrightarrow> requeued j u"
      "\<forall>j p'. expired_in p' now j s \<longrightarrow>
        (if p' = q \<and> j \<in> set (zup_to now most (rs_leases s q)) then requeued j u else expired_in p' now j u \<or> requeued j u)"
    using recover_each_requeues[OF Cons.prems(1), of q now] by blast
  have "requeued k u \<or> p \<in> set ps \<and> expired_count p now u \<le> most \<and>
      (\<exists>v. zscore k (rs_leases u p) = Some v \<and> 0 \<le> v \<and> v \<le> now)"
  proof (cases "requeued k s")
    case False
    then obtain v where v: "zscore k (rs_leases s p) = Some v" "0 \<le> v" "v \<le> now" "expired_count p now s \<le> most"
        "p \<in> set (q # ps)" using Cons.prems(2) by blast
    show ?thesis
    proof (cases "p = q")
      case True
      have "k \<in> set (zup_to now most (rs_leases s q))" using expired_listed[OF v(1-4)] True by simp
      moreover have "expired_in q now k s" using v True by (auto simp: expired_in_def)
      ultimately show ?thesis using u(4) by auto
    next
      case False
      then have "rs_leases u p = rs_leases s p" using recover_each_leases[OF u(1)] by simp
      then show ?thesis using v False by (simp add: expired_count_def)
    qed
  qed (use u(3) in blast)
  from Cons.IH[OF u(2) this] obtain m t where "recover_pools most now ps u = (Inr m, t)" "requeued k t" by blast
  then show ?case using u(1) by (simp add: op_defs)
qed

text \<open>C35: A crashed worker's task runs again. Once the lease of a running task has expired, the next
  recovery pass returns, and it has put the task back into the queue of its pool, provided the
  pool has no more expired leases than the pass may take.\<close>

theorem crashed_task_requeued:
  assumes "redis_reachable c s" "rs_data s k = Some r" "tk_status r = Running"
    and "rl_lease r = Some e" "0 \<le> e" "e \<le> now" "expired_count (tk_pool r) now s \<le> most"
  shows "\<exists>n t q. recover_expired most now s = (Inr n, t) \<and> rs_data t k = Some q \<and> tk_status q = Queued \<and>
    k \<in> zmembers (rs_queues t (tk_pool q))"
proof -
  note ok = redis_reachable_ok[OF assms(1)]
  have "zscore k (rs_leases s (tk_pool r)) = Some e"
    using at_homeD(3)[OF redis_ok_home[OF ok] assms(2)] assms(3,4) by (simp add: home_place_def)
  moreover have "tk_pool r \<in> set pools" by (cases "tk_pool r") (simp_all add: pools_def)
  ultimately obtain n t where "recover_pools most now pools s = (Inr n, t)" "requeued k t"
    using recover_pools_requeues[OF ok, of k "tk_pool r" pools now most] assms(5-7) by blast
  then show ?thesis unfolding recover_expired_def requeued_def zmember_score by blast
qed

theorem crashed_task_requeued_witness:
  "\<exists>n t q. recover_expired 1 30 demo_running = (Inr n, t) \<and> rs_data t ''k'' = Some q \<and> tk_status q = Queued \<and>
    ''k'' \<in> zmembers (rs_queues t (tk_pool q))"
proof -
  have "expired_count Agent_Pool 30 demo_running \<le> 1"
    by (simp add: expired_count_def demo_running_def redis_evals)
  then show ?thesis using crashed_task_requeued[OF demo_running_reachable demo_running_eq] by simp
qed

section \<open>Sizes\<close>

text \<open>The distributed store is bounded. However its callers interleave, a pool's queue and leases
  together stay within its capacity and workers, and the index within the record limit.\<close>

theorem redis_store_bounded:
  assumes "redis_reachable c s"
  shows "card (zmembers (rs_queues s p)) + card (zmembers (rs_leases s p))
      \<le> tc_capacity (rc_tasks c) p + tc_workers (rc_tasks c) p"
    and "finite (dom (rs_data s))" "card (dom (rs_data s)) \<le> tc_max_records (rc_tasks c)"
proof -
  note ok = redis_reachable_ok[OF assms]
  have s: "sized c s" using ok by (simp add: redis_ok_def)
  have card: "card (zmembers z) \<le> length z" for z by (simp add: zmembers_def) (metis card_length length_map set_map)
  show "card (zmembers (rs_queues s p)) + card (zmembers (rs_leases s p))
      \<le> tc_capacity (rc_tasks c) p + tc_workers (rc_tasks c) p"
    using card[of "rs_queues s p"] card[of "rs_leases s p"] sizedD(5)[OF s, of p] by linarith
  have sub: "dom (rs_data s) \<subseteq> zmembers (rs_index s)" using at_homeD(2)[OF redis_ok_home[OF ok]] by blast
  then show "finite (dom (rs_data s))" by (rule finite_subset) (simp add: zmembers_def)
  have "card (dom (rs_data s)) \<le> card (zmembers (rs_index s))"
    using sub by (rule card_mono[rotated]) (simp add: zmembers_def)
  then show "card (dom (rs_data s)) \<le> tc_max_records (rc_tasks c)"
    using card[of "rs_index s"] sizedD(6)[OF s] by linarith
qed

theorem redis_store_bounded_witness:
  "card (dom (rs_data demo_running)) \<le> 2"
  using redis_store_bounded(3)[OF demo_running_reachable] by (simp add: demo_redis_config_def)

section \<open>The abstract task\<close>

text \<open>What the store promises of one task, without queues, scores, leases and records: it waits, it is
  held by a worker, or it is over; and which call may move it.\<close>

datatype abstract_task = Absent | Waiting | Held "string option" | Over task_status

definition abstract_of :: "lease_record option \<Rightarrow> abstract_task" where
  "abstract_of x = (case x of None \<Rightarrow> Absent
     | Some r \<Rightarrow> (case tk_status r of Queued \<Rightarrow> Waiting | Running \<Rightarrow> Held (rl_worker r) | st \<Rightarrow> Over st))"

definition abstract_task_of :: "redis_store \<Rightarrow> string \<Rightarrow> abstract_task" where
  "abstract_task_of s k = abstract_of (rs_data s k)"

fun abstract_step :: "redis_call \<Rightarrow> string \<Rightarrow> abstract_task \<Rightarrow> abstract_task \<Rightarrow> bool" where
  "abstract_step (Call_Create sub i trace j) k a b \<longleftrightarrow> k = j \<and> a = Absent \<and> b = Waiting \<or> (\<exists>st. a = Over st) \<and> b = Absent"
| "abstract_step (Call_Claim p w) k a b \<longleftrightarrow> a = Waiting \<and> b = Held (Some w)"
| "abstract_step (Call_Recover most) k a b \<longleftrightarrow> (\<exists>w. a = Held w) \<and> b = Waiting"
| "abstract_step (Call_Finish j w st x e bad) k a b \<longleftrightarrow>
     k = j \<and> a = Held (Some w) \<and> b = Over st \<and> (st = Succeeded \<or> st = Task_Failed)"
| "abstract_step (Call_Reject j e bad) k a b \<longleftrightarrow> k = j \<and> (a = Waiting \<or> (\<exists>w. a = Held w)) \<and> b = Over Rejected"
| "abstract_step (Call_Reconcile most) k a b \<longleftrightarrow> (a = Waiting \<or> (\<exists>w. a = Held w)) \<and> b = Over Rejected"
| "abstract_step _ k a b \<longleftrightarrow> False"

text \<open>Everything a call did so far is a sequence of its abstract steps.\<close>

definition simulates :: "redis_call \<Rightarrow> redis_store \<Rightarrow> redis_store \<Rightarrow> bool" where
  "simulates call s t \<longleftrightarrow> (\<forall>k. (abstract_step call k)\<^sup>*\<^sup>* (abstract_task_of s k) (abstract_task_of t k))"

lemma simulates_same: "rs_data t = rs_data u \<Longrightarrow> simulates call s u \<Longrightarrow> simulates call s t"
  by (simp add: simulates_def abstract_task_of_def)

lemma simulates_refl: "simulates call s s"
  by (simp add: simulates_def)

lemma simulates_one:
  assumes "changes j P u t" "\<And>r q. P r q \<Longrightarrow> (abstract_step call j)\<^sup>=\<^sup>= (abstract_of (Some r)) (abstract_of (Some q))"
    and "simulates call s u"
  shows "simulates call s t"
  unfolding simulates_def
proof
  fix k
  have "(abstract_step call k)\<^sup>*\<^sup>* (abstract_task_of s k) (abstract_task_of u k)" using assms(3) by (simp add: simulates_def)
  moreover have "(abstract_step call k)\<^sup>*\<^sup>* (abstract_task_of u k) (abstract_task_of t k)"
  proof (cases "rs_data t k = rs_data u k")
    case False
    then obtain r q where "rs_data u k = Some r" "rs_data t k = Some q" "P r q" "k = j"
      using assms(1) by (auto simp: changes_def)
    then show ?thesis using assms(2)[of r q] by (auto simp: abstract_task_of_def)
  qed (simp add: abstract_task_of_def)
  ultimately show "(abstract_step call k)\<^sup>*\<^sup>* (abstract_task_of s k) (abstract_task_of t k)" by simp
qed

lemma abstract_same: "same_outcome r q \<and> rl_worker q = rl_worker r \<Longrightarrow> abstract_of (Some q) = abstract_of (Some r)"
  by (cases "tk_status r") (simp_all add: same_outcome_def abstract_of_def)

lemma abstract_rejected: "tk_status q = Rejected \<Longrightarrow> abstract_of (Some q) = Over Rejected"
  by (simp add: abstract_of_def)

lemma abstract_live: "\<not> terminal (tk_status r) \<Longrightarrow> abstract_of (Some r) = Waiting \<or> (\<exists>w. abstract_of (Some r) = Held w)"
  by (cases "tk_status r") (simp_all add: abstract_of_def)

lemma simulates_reject:
  assumes "\<And>a b. abstract_step call k a b \<longleftrightarrow> (a = Waiting \<or> (\<exists>w. a = Held w)) \<and> b = Over Rejected"
  shows "op_keeps (simulates call s) (redis_reject k e bad now)"
  unfolding op_keeps_def
proof (intro allI impI)
  fix u res t assume u: "simulates call s u" and run: "redis_reject k e bad now u = (res, t)"
  show "simulates call s t"
  proof (rule simulates_one[OF data_reject[OF run] _ u])
    fix r q :: lease_record assume "\<not> terminal (tk_status r) \<and> tk_status q = Rejected \<and> rl_worker q = None"
    then show "(abstract_step call k)\<^sup>=\<^sup>= (abstract_of (Some r)) (abstract_of (Some q))"
      using abstract_live[of r] abstract_rejected[of q] by (simp add: assms)
  qed
qed

lemma simulates_create:
  assumes "redis_ok c s" "rs_data s j = None" "create_or_replay c sub i trace j now s = (res, t)"
  shows "simulates (Call_Create sub i trace j) s t"
proof -
  let ?s = "rmetric (\<lambda>m. m\<lparr>rm_submitted := rm_submitted m + 1\<rparr>) s"
  have ok: "redis_ok c ?s" using assms(1) by simp
  have purged: "\<forall>k. rs_data t k = rs_data s k \<or>
      (k = j \<and> (\<exists>r. rs_data t k = Some r \<and> tk_status r = Queued \<and> rl_worker r = None)) \<or>
      (rs_data t k = None \<and> (\<exists>r. rs_data s k = Some r \<and> terminal (tk_status r)))"
    using data_create_purge[OF ok assms(3)[unfolded create_or_replay_def]] by simp
  have "(abstract_step (Call_Create sub i trace j) k)\<^sup>*\<^sup>* (abstract_task_of s k) (abstract_task_of t k)" for k
  proof -
    consider "rs_data t k = rs_data s k"
      | (new) r where "k = j" "rs_data t k = Some r" "tk_status r = Queued"
      | (gone) r where "rs_data t k = None" "rs_data s k = Some r" "terminal (tk_status r)"
      using spec[OF purged, of k] by blast
    then show ?thesis
    proof cases
      case new
      then have "abstract_step (Call_Create sub i trace j) k (abstract_task_of s k) (abstract_task_of t k)"
        using assms(2) by (simp add: abstract_task_of_def abstract_of_def)
      then show ?thesis by (rule r_into_rtranclp)
    next
      case gone
      then have "abstract_step (Call_Create sub i trace j) k (abstract_task_of s k) (abstract_task_of t k)"
        by (cases "tk_status r") (simp_all add: abstract_task_of_def abstract_of_def)
      then show ?thesis by (rule r_into_rtranclp)
    qed (simp add: abstract_task_of_def)
  qed
  then show ?thesis by (simp add: simulates_def)
qed

lemma simulates_same_outcome:
  assumes "changes k (\<lambda>r q. same_outcome r q \<and> rl_worker q = rl_worker r) u t" "simulates call s u"
  shows "simulates call s t"
  by (rule simulates_one[OF assms(1) _ assms(2)]) (use abstract_same in force)

lemma simulates_other:
  "op_keeps (simulates call s) (activate c k now)" "op_keeps (simulates call s) (heartbeat c k w now)"
  "op_keeps (simulates call s) (increment_audit k now)" "op_keeps (simulates call s) (set_attempts k w n now)"
  unfolding op_keeps_def increment_audit_def set_attempts_def
  using simulates_same[OF data_activate] simulates_same_outcome[OF data_heartbeat]
    simulates_same_outcome[OF data_update] by (fastforce simp: same_outcome_def)+

lemma simulates_recover: "op_keeps (simulates (Call_Recover most) s) (recover_one p k now)"
  unfolding op_keeps_def
proof (intro allI impI)
  fix u res t assume u: "simulates (Call_Recover most) s u" and run: "recover_one p k now u = (res, t)"
  show "simulates (Call_Recover most) s t"
    by (rule simulates_one[OF data_recover[OF run] _ u]) (simp add: abstract_of_def)
qed

lemma simulates_finish: "op_keeps (simulates (Call_Finish k w st x e bad) s) (redis_finish k w st x' e' bad' now)"
  unfolding op_keeps_def
proof (intro allI impI)
  fix u res t assume u: "simulates (Call_Finish k w st x e bad) s u" and run: "redis_finish k w st x' e' bad' now u = (res, t)"
  show "simulates (Call_Finish k w st x e bad) s t"
    by (rule simulates_one[OF data_finish[OF run] _ u]) (auto simp: abstract_of_def)
qed

lemma simulates_reconcile: "op_keeps (simulates (Call_Reconcile most) s) (reconcile_one c k now)"
  by (rule reconcile_one_keeps[OF simulates_other(1) simulates_reject]) (auto intro: simulates_same simp: unstage_def)

text \<open>C36: The distributed store implements the abstract task. Every call, whatever it does to queues,
  scores, leases, staging and the outbox, moves each task only along the abstract steps of that
  call: only a claim hands a task to a worker, and to that worker; only its holder can finish
  it; only a recovery takes it away; only creation makes room by dropping tasks that are over.\<close>

theorem redis_refines_abstract_task:
  assumes "redis_reachable c s" "call_allowed call s"
  shows "(abstract_step call k)\<^sup>*\<^sup>* (abstract_task_of s k) (abstract_task_of (perform c call now s) k)"
proof -
  note ok = redis_reachable_ok[OF assms(1)]
  note refl = simulates_refl[of call s]
  have "simulates call s (perform c call now s)"
  proof (cases call)
    case (Call_Create sub i trace j)
    obtain res t where run: "create_or_replay c sub i trace j now s = (res, t)" by (cases "create_or_replay c sub i trace j now s")
    show ?thesis using simulates_create[OF ok _ run] assms(2) run Call_Create by simp
  next
    case (Call_Claim p w)
    obtain res t where run: "claim_next c p w now s = (res, t)" by (cases "claim_next c p w now s")
    obtain j where "changes j (\<lambda>r q. tk_status r = Queued \<and> tk_status q = Running \<and> rl_worker q = Some w) s t"
      using data_claim[OF run[unfolded claim_next_def]] by blast
    from simulates_one[OF this _ simulates_refl] show ?thesis
      using run Call_Claim by (simp add: abstract_of_def)
  next
    case (Call_Reject j e bad)
    then show ?thesis using snd_keeps[OF simulates_reject refl] by simp
  next
    case (Call_Recover most)
    then show ?thesis using snd_keeps[OF recover_pools_keeps[OF simulates_recover] simulates_refl] by (simp add: recover_expired_def)
  next
    case (Call_Reconcile most)
    then show ?thesis using snd_keeps[OF reconcile_each_keeps[OF simulates_reconcile] simulates_refl]
      by (simp add: reconcile_staging_def)
  next
    case (Call_Finish j w st x e bad)
    then show ?thesis using snd_keeps[OF simulates_finish simulates_refl] by simp
  next
    case (Call_Outbox n)
    then show ?thesis by (simp add: outbox_due_def simulates_same[OF _ simulates_refl])
  next
    case (Call_Acknowledge m)
    then show ?thesis by (simp add: acknowledge_outbox_def simulates_same[OF _ simulates_refl])
  next
    case Call_Reset
    then show ?thesis by (simp add: reset_redis_metrics_def simulates_same[OF _ simulates_refl])
  qed (use snd_keeps[OF simulates_other(1) refl] snd_keeps[OF simulates_other(2) refl] snd_keeps[OF simulates_other(3) refl]
      snd_keeps[OF simulates_other(4) refl] in simp_all)
  then show ?thesis by (simp add: simulates_def)
qed

theorem redis_refines_abstract_task_witness:
  "abstract_task_of demo_running ''k'' = Held (Some ''w'') \<and>
   (abstract_step (Call_Recover 1) ''k'')\<^sup>*\<^sup>* (Held (Some ''w''))
     (abstract_task_of (perform demo_redis_config (Call_Recover 1) 30 demo_running) ''k'')"
proof -
  have "abstract_task_of demo_running ''k'' = Held (Some ''w'')"
    by (simp add: abstract_task_of_def abstract_of_def demo_running_eq)
  then show ?thesis
    using redis_refines_abstract_task[OF demo_running_reachable, of "Call_Recover 1" "''k''" 30] by simp
qed

section \<open>Resubmission\<close>

text \<open>While there is room, a resubmission under a live key gives back the task it names and creates
  nothing. At the record limit the oldest finished task is purged first, even when it is the one
  the key names: then the resubmission runs a second time.\<close>

lemma resubmission_replays:
  assumes "\<not> index_full c s" "existing_task c sub i s = Some old" "rs_data s old = Some r"
  shows "\<exists>t. create_or_replay c sub i trace k now s = (Inr (r, True), t) \<and> rs_data t = rs_data s"
proof -
  obtain n where n: "retries = Suc n" by (simp add: retries_def that[of 63])
  have "existing_task c sub i (rmetric f s) = Some old" "\<not> index_full c (rmetric f s)" for f
    using assms by (cases "sb_idem sub"; simp add: existing_task_def index_full_def rmetric_def)+
  then show ?thesis using assms(3) unfolding create_or_replay_def n by (simp add: Let_def)
qed

definition demo_keyed :: submission where
  "demo_keyed = demo_task\<lparr>sb_idem := Some ''once''\<rparr>"

definition demo_full_config :: redis_config where
  "demo_full_config = demo_redis_config\<lparr>rc_tasks := (rc_tasks demo_redis_config)\<lparr>tc_max_records := 1\<rparr>\<rparr>"

definition demo_done :: redis_store where
  "demo_done = redis_run demo_full_config
     [(Call_Create demo_keyed demo_owner ''tr'' ''k'', 1), (Call_Activate ''k'', 1), (Call_Claim Agent_Pool ''w'', 2),
      (Call_Finish ''k'' ''w'' Succeeded (Some []) None False, 3)] empty_redis"

lemma resubmission_at_the_limit_runs_again:
  "existing_task demo_full_config demo_keyed demo_owner demo_done = Some ''k''"
  "\<exists>r. fst (create_or_replay demo_full_config demo_keyed demo_owner ''tr'' ''k2'' 4 demo_done) = Inr (r, False) \<and>
     tk_id r = ''k2'' \<and> tk_status r = Queued"
  by (simp_all add: demo_done_def demo_keyed_def demo_full_config_def redis_evals redis_finish_def
    idempotency_key_def purge_oldest_terminal_def drop_record_def record_identity_def tenant_key_def)

end
