(* ===== verification/SkillRuntime.thy ===== *)
theory SkillRuntime
  imports PyValues Prelude
begin

text \<open>
  The unified skill executor, \<^verbatim>\<open>safeagent_gov/skill_runtime/\<close>: the manifest contract
  (\<open>contracts.py\<close>), the registry (\<open>registry.py\<close>), the completion of the inputs of the core
  skills (\<open>handlers.py\<close>) and one governed call (\<open>SkillExecutor.execute\<close>). Calls run one at a
  time; what an adapter does on its n-th invocation and the audit hook on its n-th call are
  inputs. Latencies are not carried.
\<close>

section \<open>Manifests\<close>

datatype skill_mode = Mandatory_Skill | Routed_Skill
datatype failure_policy = Fail_Block | Fail_Warn
datatype skill_stage =
    Stage_Direct | Stage_User_Input | Stage_Document_Upload | Stage_Rag_Result | Stage_Tool_Call
  | Stage_Skill_Register | Stage_Mcp_Register | Stage_External_Send | Stage_Data_Export
  | Stage_Process_Action | Stage_Task_Completed | Stage_Task_Blocked | Stage_Approval

record skill_definition =
  sd_name :: string
  sd_version :: string
  sd_mode :: skill_mode
  sd_stages :: "skill_stage list"
  sd_entrypoint :: string
  sd_baseline :: "string option"
  sd_inputs :: "string list"
  sd_required_inputs :: "string list"
  sd_outputs :: "string list"
  sd_required_outputs :: "string list"
  sd_timeout_ms :: int
  sd_retries :: nat
  sd_failure_policy :: failure_policy
  sd_enabled :: bool
  sd_policies :: "(string \<times> string) list"

text \<open>The bounds of the fields and \<open>validate_contract\<close>; the patterns of names are not carried.\<close>

definition list_between :: "nat \<Rightarrow> nat \<Rightarrow> 'a list \<Rightarrow> bool" where
  "list_between lo hi xs \<longleftrightarrow> lo \<le> length xs \<and> length xs \<le> hi"

definition valid_skill :: "skill_definition \<Rightarrow> bool" where
  "valid_skill d \<longleftrightarrow>
     list_between 1 20 (sd_stages d) \<and> list_between 1 100 (sd_inputs d) \<and>
     list_between 1 100 (sd_required_inputs d) \<and> list_between 1 100 (sd_outputs d) \<and>
     list_between 1 100 (sd_required_outputs d) \<and>
     10 \<le> sd_timeout_ms d \<and> sd_timeout_ms d \<le> 120000 \<and> sd_retries d \<le> 3 \<and>
     distinct (sd_inputs d) \<and> distinct (sd_outputs d) \<and> distinct (sd_stages d) \<and>
     set (sd_required_inputs d) \<subseteq> set (sd_inputs d) \<and> set (sd_required_outputs d) \<subseteq> set (sd_outputs d) \<and>
     (sd_mode d = Mandatory_Skill \<longrightarrow> sd_failure_policy d = Fail_Block)"

section \<open>The registry\<close>

text \<open>
  What the loader finds under \<open>skills_root\<close>, in the order of the sorted paths: the directory, the
  link checks, and the manifest, if it reads as YAML and satisfies the contract. \<open>pk_file\<close> says
  what a relative path of the package resolves to.
\<close>

datatype package_file = Plain_File | Linked_Or_Outside | Missing_File

record skill_package =
  pk_dir :: string
  pk_fixed :: bool
  pk_manifest :: "skill_definition option"
  pk_file :: "string \<Rightarrow> package_file"

datatype registry_error =
    Root_Invalid | No_Manifest | Package_Outside string | Manifest_Invalid string | Name_Mismatch string
  | Duplicate_Skill string | Entry_Invalid string

type_synonym skill_registry = "(string \<times> skill_definition) list"

text \<open>The part before the first colon, then \<open>is_absolute\<close>, \<open>..\<close>, links and existence.\<close>

definition entrypoint_ok :: "skill_package \<Rightarrow> string \<Rightarrow> bool" where
  "entrypoint_ok pk entry =
     (let path = takeWhile (\<lambda>x. x \<noteq> CHR '':'') entry
      in \<not> startswith path ''/'' \<and> ''..'' \<notin> set (split_on (CHR ''/'') path) \<and> pk_file pk path = Plain_File)"

definition package_entries :: "skill_definition \<Rightarrow> string list" where
  "package_entries d =
     sd_entrypoint d # (case sd_baseline d of None \<Rightarrow> [] | Some b \<Rightarrow> if b = [] then [] else [b]) @
     map (\<lambda>(_, p). p @ '':policy'') (sd_policies d)"

definition package_problem :: "skill_registry \<Rightarrow> skill_package \<Rightarrow> skill_definition \<Rightarrow> registry_error option" where
  "package_problem reg pk d =
     (if \<not> valid_skill d then Some (Manifest_Invalid (pk_dir pk))
      else if sd_name d \<noteq> pk_dir pk then Some (Name_Mismatch (sd_name d))
      else if map_of reg (sd_name d) \<noteq> None then Some (Duplicate_Skill (sd_name d))
      else map_option Entry_Invalid (find (\<lambda>e. \<not> entrypoint_ok pk e) (package_entries d)))"

definition load_package :: "skill_registry \<Rightarrow> skill_package \<Rightarrow> registry_error + skill_registry" where
  "load_package reg pk =
     (if \<not> pk_fixed pk then Inl (Package_Outside (pk_dir pk))
      else (case pk_manifest pk of
         None \<Rightarrow> Inl (Manifest_Invalid (pk_dir pk))
       | Some d \<Rightarrow> (case package_problem reg pk d of
            Some e \<Rightarrow> Inl e
          | None \<Rightarrow> Inr (reg @ [(sd_name d, d)]))))"

fun load_packages :: "skill_registry \<Rightarrow> skill_package list \<Rightarrow> registry_error + skill_registry" where
  "load_packages reg [] = Inr reg"
| "load_packages reg (pk # pks) =
     (case load_package reg pk of Inl e \<Rightarrow> Inl e | Inr r \<Rightarrow> load_packages r pks)"

definition load_skills :: "bool \<Rightarrow> skill_package list \<Rightarrow> registry_error + skill_registry" where
  "load_skills root_ok pks =
     (if \<not> root_ok then Inl Root_Invalid else if pks = [] then Inl No_Manifest else load_packages [] pks)"

definition get_skill :: "skill_registry \<Rightarrow> string \<Rightarrow> skill_definition option" where
  "get_skill reg name = map_of reg name"

definition required_for_stage :: "skill_registry \<Rightarrow> skill_stage \<Rightarrow> skill_definition list" where
  "required_for_stage reg stage =
     filter (\<lambda>d. sd_enabled d \<and> sd_mode d = Mandatory_Skill \<and> stage \<in> set (sd_stages d)) (map snd reg)"

record skill_snapshot =
  ss_count :: nat
  ss_enabled :: nat
  ss_mandatory :: nat
  ss_skills :: "skill_definition list"

definition registry_snapshot_of_skills :: "skill_registry \<Rightarrow> skill_snapshot" where
  "registry_snapshot_of_skills reg =
     (let ds = sort_key sd_name (map snd reg)
      in \<lparr>ss_count = length ds, ss_enabled = length (filter sd_enabled ds),
          ss_mandatory = length (filter (\<lambda>d. sd_mode d = Mandatory_Skill) ds), ss_skills = ds\<rparr>)"

section \<open>Requests and responses\<close>

datatype skill_exn =
    Skill_Input_Error | Skill_Output_Error | Skill_Transient | Skill_Timeout | Skill_Exn string

fun exn_name :: "skill_exn \<Rightarrow> string" where
  "exn_name Skill_Input_Error = ''SkillInputError''"
| "exn_name Skill_Output_Error = ''SkillOutputError''"
| "exn_name Skill_Transient = ''SkillTransientError''"
| "exn_name Skill_Timeout = ''TimeoutError''"
| "exn_name (Skill_Exn n) = n"

record skill_request =
  sq_trace :: string
  sq_skill :: string
  sq_input :: pydict
  sq_context :: pydict
  sq_stage :: skill_stage

datatype skill_status = Skill_Completed | Skill_Blocked | Skill_Warned

record skill_response =
  sp_trace :: string
  sp_success :: bool
  sp_status :: skill_status
  sp_skill :: string
  sp_version :: string
  sp_mandatory :: bool
  sp_stage :: skill_stage
  sp_result :: "pydict option"
  sp_error :: "string option"
  sp_attempts :: nat
  sp_params :: bool
  sp_audited :: bool

datatype skill_event =
    Skill_Rejected_Event string skill_exn
  | Skill_Started_Event string skill_stage
  | Skill_Retry_Event string nat skill_exn
  | Skill_Failed_Event string nat skill_exn
  | Skill_Completed_Event string nat "string list"

record skill_metrics =
  sm_selected :: nat
  sm_actual :: nat
  sm_expected :: nat
  sm_expected_actual :: nat
  sm_started :: nat
  sm_successful :: nat
  sm_failed :: nat
  sm_params :: nat
  sm_erroneous :: nat
  sm_mandatory_expected :: nat
  sm_mandatory_completed :: nat
  sm_audit_failures :: nat
  sm_max_active :: int

record skill_state =
  sk_metrics :: skill_metrics
  sk_active :: int
  sk_log :: "(string \<times> pyval \<times> skill_event) list"
  sk_audits :: nat
  sk_calls :: nat

text \<open>
  An adapter completes the inputs and then does, on its n-th call, what it does. The audit hook
  answers in time, or too late (the event is written all the same), or raises.
\<close>

record skill_adapter =
  ad_complete :: "pydict \<Rightarrow> pydict \<Rightarrow> string \<Rightarrow> skill_exn + pydict"
  ad_run :: "nat \<Rightarrow> pydict \<Rightarrow> pydict \<Rightarrow> skill_exn + pyval"

datatype skill_hook = Skill_Hook_Ok | Skill_Hook_Late | Skill_Hook_Raised skill_exn

record skill_env =
  sv_adapters :: "string \<Rightarrow> skill_adapter option"
  sv_hook :: "nat \<Rightarrow> skill_hook"

definition no_skill_metrics :: skill_metrics where
  "no_skill_metrics = \<lparr>sm_selected = 0, sm_actual = 0, sm_expected = 0, sm_expected_actual = 0, sm_started = 0,
     sm_successful = 0, sm_failed = 0, sm_params = 0, sm_erroneous = 0, sm_mandatory_expected = 0,
     sm_mandatory_completed = 0, sm_audit_failures = 0, sm_max_active = 0\<rparr>"

definition new_executor :: skill_state where
  "new_executor = \<lparr>sk_metrics = no_skill_metrics, sk_active = 0, sk_log = [], sk_audits = 0, sk_calls = 0\<rparr>"

definition reset_skill_metrics :: "skill_state \<Rightarrow> skill_state" where
  "reset_skill_metrics s = s\<lparr>sk_metrics := no_skill_metrics, sk_active := 0\<rparr>"

definition count_skill :: "(skill_metrics \<Rightarrow> skill_metrics) \<Rightarrow> skill_state \<Rightarrow> skill_state" where
  "count_skill f s = s\<lparr>sk_metrics := f (sk_metrics s)\<rparr>"

definition count_failed :: "skill_state \<Rightarrow> skill_state" where
  "count_failed = count_skill (\<lambda>m. m\<lparr>sm_failed := sm_failed m + 1\<rparr>)"

definition count_audit_failure :: "skill_state \<Rightarrow> skill_state" where
  "count_audit_failure = count_skill (\<lambda>m. m\<lparr>sm_audit_failures := sm_audit_failures m + 1\<rparr>)"

definition count_success :: "bool \<Rightarrow> skill_state \<Rightarrow> skill_state" where
  "count_success completes = count_skill (\<lambda>m. m\<lparr>sm_successful := sm_successful m + 1,
     sm_mandatory_completed := sm_mandatory_completed m + (if completes then 1 else 0)\<rparr>)"

text \<open>The rates of the metrics snapshot, as pairs of a numerator and a denominator.\<close>

record skill_rates =
  sx_recall :: "nat \<times> nat"
  sx_success :: "nat \<times> nat"
  sx_params :: "nat \<times> nat"
  sx_erroneous :: "nat \<times> nat"
  sx_coverage :: "nat \<times> nat"

definition skill_metrics_snapshot :: "skill_state \<Rightarrow> skill_rates" where
  "skill_metrics_snapshot s =
     (let m = sk_metrics s; part = (\<lambda>x n. if n = 0 then (1, 1) else (x, n))
      in \<lparr>sx_recall = part (sm_expected_actual m) (sm_expected m), sx_success = part (sm_successful m) (sm_actual m),
          sx_params = part (sm_params m) (sm_actual m),
          sx_erroneous = (if sm_actual m = 0 then (0, 1) else (sm_erroneous m, sm_actual m)),
          sx_coverage = part (sm_mandatory_completed m) (sm_mandatory_expected m)\<rparr>)"

section \<open>One call\<close>

definition skill_audit ::
    "skill_env \<Rightarrow> string \<Rightarrow> pyval \<Rightarrow> skill_event \<Rightarrow> skill_state \<Rightarrow> skill_exn option \<times> skill_state" where
  "skill_audit env trace actor ev s =
     (let t = s\<lparr>sk_audits := Suc (sk_audits s)\<rparr>; u = t\<lparr>sk_log := sk_log t @ [(trace, actor, ev)]\<rparr>
      in case sv_hook env (sk_audits s) of
           Skill_Hook_Ok \<Rightarrow> (None, u)
         | Skill_Hook_Late \<Rightarrow> (Some Skill_Timeout, u)
         | Skill_Hook_Raised e \<Rightarrow> (Some e, t))"

definition missing_fields :: "string list \<Rightarrow> pydict \<Rightarrow> bool \<Rightarrow> string list" where
  "missing_fields required values allow_empty =
     filter (\<lambda>n. case dict_get values n of
         None \<Rightarrow> True
       | Some PNone \<Rightarrow> True
       | Some (PStr v) \<Rightarrow> \<not> allow_empty \<and> strip v = []
       | Some _ \<Rightarrow> False) required"

definition expected_call :: "skill_definition \<Rightarrow> skill_request \<Rightarrow> bool" where
  "expected_call d q \<longleftrightarrow> sq_stage q = Stage_Direct \<or> sq_stage q \<in> set (sd_stages d)"

text \<open>The first \<open>try\<close>: the checks in order, the adapter's completion and the required inputs.\<close>

definition prepare_call ::
    "skill_env \<Rightarrow> skill_definition \<Rightarrow> skill_request \<Rightarrow> skill_exn + (skill_adapter \<times> pydict)" where
  "prepare_call env d q =
     (if \<not> sd_enabled d then Inl Skill_Input_Error
      else if \<not> expected_call d q then Inl Skill_Input_Error
      else (case sv_adapters env (sq_skill q) of
         None \<Rightarrow> Inl Skill_Input_Error
       | Some ad \<Rightarrow>
           if \<not> set (map fst (sq_input q)) \<subseteq> set (sd_inputs d) then Inl Skill_Input_Error
           else (case ad_complete ad (sq_input q) (sq_context q) (sq_trace q) of
              Inl e \<Rightarrow> Inl e
            | Inr data \<Rightarrow>
                if missing_fields (sd_required_inputs d) data False \<noteq> [] then Inl Skill_Input_Error
                else Inr (ad, data))))"

definition actor_of :: "skill_request \<Rightarrow> pyval" where
  "actor_of q = (case dict_get (sq_context q) ''principal'' of Some (PDict p) \<Rightarrow> get_or_none p ''sub'' | _ \<Rightarrow> PNone)"

definition skill_answer ::
    "skill_definition \<Rightarrow> skill_request \<Rightarrow> bool \<Rightarrow> failure_policy \<Rightarrow> nat \<Rightarrow> bool \<Rightarrow> bool \<Rightarrow> pydict option \<Rightarrow>
     string option \<Rightarrow> skill_response" where
  "skill_answer d q success fp attempts params audited result err =
     \<lparr>sp_trace = sq_trace q, sp_success = success,
      sp_status = (if success then Skill_Completed else if fp = Fail_Block then Skill_Blocked else Skill_Warned),
      sp_skill = sq_skill q, sp_version = sd_version d, sp_mandatory = (sd_mode d = Mandatory_Skill),
      sp_stage = sq_stage q, sp_result = result, sp_error = err, sp_attempts = attempts, sp_params = params,
      sp_audited = audited\<rparr>"

definition unaudited_answer ::
    "skill_definition \<Rightarrow> skill_request \<Rightarrow> nat \<Rightarrow> skill_exn \<Rightarrow> skill_state \<Rightarrow> skill_response \<times> skill_state" where
  "unaudited_answer d q attempts e s =
     (skill_answer d q False Fail_Block attempts True False None (Some (''audit_error:'' @ exn_name e)),
      count_audit_failure (count_failed s))"

definition reject_skill_call ::
    "skill_env \<Rightarrow> skill_definition \<Rightarrow> skill_request \<Rightarrow> skill_exn \<Rightarrow> skill_state \<Rightarrow> skill_response \<times> skill_state" where
  "reject_skill_call env d q e s =
     (case skill_audit env (sq_trace q) (actor_of q) (Skill_Rejected_Event (sq_skill q) e)
             (count_failed s) of
        (None, t) \<Rightarrow> (skill_answer d q False (sd_failure_policy d) 0 False True None (Some (exn_name e)), t)
      | (Some a, t) \<Rightarrow>
          (skill_answer d q False Fail_Block 0 False False None (Some (''audit_error:'' @ exn_name a)),
           count_audit_failure t))"

definition invoke_skill ::
    "skill_definition \<Rightarrow> skill_request \<Rightarrow> skill_adapter \<Rightarrow> pydict \<Rightarrow> skill_state \<Rightarrow>
     (skill_exn + pydict) \<times> skill_state" where
  "invoke_skill d q ad data s =
     (case ad_run ad (sk_calls s) data (sq_context q) of
        Inl e \<Rightarrow> Inl e
      | Inr (PDict out) \<Rightarrow>
          if missing_fields (sd_required_outputs d) out True \<noteq> [] then Inl Skill_Output_Error else Inr out
      | Inr _ \<Rightarrow> Inl Skill_Output_Error,
      s\<lparr>sk_calls := Suc (sk_calls s)\<rparr>)"

text \<open>
  The loop: \<open>n\<close> attempts are over and \<open>left\<close> more are allowed after the next one. Only a timeout or
  a transient error is tried again, and only once its audit is written.
\<close>

fun try_skill ::
    "skill_env \<Rightarrow> skill_definition \<Rightarrow> skill_request \<Rightarrow> skill_adapter \<Rightarrow> pydict \<Rightarrow> nat \<Rightarrow> nat \<Rightarrow> skill_state \<Rightarrow>
     ((skill_exn + pydict) \<times> nat) \<times> skill_state" where
  "try_skill env d q ad data n left s =
     (case invoke_skill d q ad data s of
        (Inr out, t) \<Rightarrow> ((Inr out, Suc n), t)
      | (Inl e, t) \<Rightarrow>
          if e \<noteq> Skill_Timeout \<and> e \<noteq> Skill_Transient then ((Inl e, Suc n), t)
          else (case left of
             0 \<Rightarrow> ((Inl e, Suc n), t)
           | Suc rest \<Rightarrow>
               (case skill_audit env (sq_trace q) (actor_of q) (Skill_Retry_Event (sq_skill q) (Suc n) e) t of
                  (None, u) \<Rightarrow> try_skill env d q ad data (Suc n) rest u
                | (Some a, u) \<Rightarrow>
                    ((Inl a, Suc n), count_audit_failure u))))"

definition fail_skill_call ::
    "skill_env \<Rightarrow> skill_definition \<Rightarrow> skill_request \<Rightarrow> nat \<Rightarrow> skill_exn \<Rightarrow> skill_state \<Rightarrow> skill_response \<times> skill_state" where
  "fail_skill_call env d q n e s =
     (case skill_audit env (sq_trace q) (actor_of q) (Skill_Failed_Event (sq_skill q) n e)
             (count_failed s) of
        (None, t) \<Rightarrow> (skill_answer d q False (sd_failure_policy d) n True True None (Some (exn_name e)), t)
      | (Some a, t) \<Rightarrow>
          (skill_answer d q False Fail_Block n True False None (Some (exn_name a)),
           count_audit_failure t))"

definition complete_skill_call ::
    "skill_env \<Rightarrow> skill_definition \<Rightarrow> skill_request \<Rightarrow> nat \<Rightarrow> pydict \<Rightarrow> skill_state \<Rightarrow> skill_response \<times> skill_state" where
  "complete_skill_call env d q n out s =
     (case skill_audit env (sq_trace q) (actor_of q) (Skill_Completed_Event (sq_skill q) n (sort (map fst out))) s of
        (Some a, t) \<Rightarrow> unaudited_answer d q n a t
      | (None, t) \<Rightarrow>
          (skill_answer d q True (sd_failure_policy d) n True True (Some out) None,
           count_success (sd_mode d = Mandatory_Skill \<and> expected_call d q) t))"

text \<open>Inside the slot, and the \<open>finally\<close> that leaves it.\<close>

definition enter_slot :: "skill_state \<Rightarrow> skill_state" where
  "enter_slot s =
     count_skill (\<lambda>m. m\<lparr>sm_started := sm_started m + 1, sm_max_active := max (sm_max_active m) (sk_active s + 1)\<rparr>)
       (s\<lparr>sk_active := sk_active s + 1\<rparr>)"

definition leave_slot :: "skill_state \<Rightarrow> skill_state" where
  "leave_slot s = s\<lparr>sk_active := sk_active s - 1\<rparr>"

definition run_skill_call ::
    "skill_env \<Rightarrow> skill_definition \<Rightarrow> skill_request \<Rightarrow> skill_adapter \<Rightarrow> pydict \<Rightarrow> skill_state \<Rightarrow>
     skill_response \<times> skill_state" where
  "run_skill_call env d q ad data s =
     map_prod id leave_slot
       (case skill_audit env (sq_trace q) (actor_of q) (Skill_Started_Event (sq_skill q) (sq_stage q)) (enter_slot s) of
          (Some a, t) \<Rightarrow> unaudited_answer d q 0 a t
        | (None, t) \<Rightarrow>
            (case try_skill env d q ad data 0 (sd_retries d) t of
               ((Inl e, n), u) \<Rightarrow> fail_skill_call env d q n e u
             | ((Inr out, n), u) \<Rightarrow> complete_skill_call env d q n out u))"

definition count_selected :: "skill_definition \<Rightarrow> skill_request \<Rightarrow> skill_state \<Rightarrow> skill_state" where
  "count_selected d q =
     count_skill (\<lambda>m. m\<lparr>sm_selected := sm_selected m + 1, sm_actual := sm_actual m + 1,
       sm_expected := sm_expected m + (if expected_call d q then 1 else 0),
       sm_expected_actual := sm_expected_actual m + (if expected_call d q then 1 else 0),
       sm_mandatory_expected := sm_mandatory_expected m +
         (if expected_call d q \<and> sd_mode d = Mandatory_Skill then 1 else 0),
       sm_erroneous := sm_erroneous m + (if expected_call d q then 0 else 1)\<rparr>)"

text \<open>\<open>execute\<close>; \<open>None\<close> when the registry does not know the skill (\<open>SkillNotFoundError\<close>).\<close>

definition execute_skill ::
    "skill_env \<Rightarrow> skill_registry \<Rightarrow> skill_request \<Rightarrow> skill_state \<Rightarrow> skill_response option \<times> skill_state" where
  "execute_skill env reg q s =
     (case get_skill reg (sq_skill q) of
        None \<Rightarrow> (None, s)
      | Some d \<Rightarrow>
          map_prod Some id
            (case prepare_call env d q of
               Inl e \<Rightarrow> reject_skill_call env d q e (count_selected d q s)
             | Inr (ad, data) \<Rightarrow>
                 run_skill_call env d q ad data
                   (count_skill (\<lambda>m. m\<lparr>sm_params := sm_params m + 1\<rparr>) (count_selected d q s))))"

end
