(* ===== verification/SkillAdapters.thy ===== *)
theory SkillAdapters
  imports SkillRuntime
begin

text \<open>
  How the adapters of the core skills complete the inputs of a call
  (\<^verbatim>\<open>safeagent_gov/skill_runtime/handlers.py\<close>): defaults for what the caller left out, and the
  identity of the server's context over whatever the caller supplied. The detectors behind the
  adapters are not part of this theory.
\<close>

section \<open>Dictionaries\<close>

definition dict_put :: "pydict \<Rightarrow> string \<Rightarrow> pyval \<Rightarrow> pydict" where
  "dict_put d k v = (if map_of d k = None then d @ [(k, v)] else map (\<lambda>(j, x). if j = k then (j, v) else (j, x)) d)"

definition set_default :: "pydict \<Rightarrow> string \<Rightarrow> pyval \<Rightarrow> pydict" where
  "set_default d k v = (if map_of d k = None then d @ [(k, v)] else d)"

definition get_or :: "pydict \<Rightarrow> string \<Rightarrow> pyval \<Rightarrow> pyval" where
  "get_or d k dflt = (case dict_get d k of None \<Rightarrow> dflt | Some v \<Rightarrow> v)"

text \<open>\<open>list(x)\<close>: of a list, the characters of a string, the keys of a dictionary; else \<open>TypeError\<close>.\<close>

fun py_list :: "pyval \<Rightarrow> skill_exn + pyval list" where
  "py_list (PList xs) = Inr xs"
| "py_list (PStr s) = Inr (map (\<lambda>x. PStr [x]) s)"
| "py_list (PDict d) = Inr (map (\<lambda>(k, _). PStr k) d)"
| "py_list _ = Inl (Skill_Exn ''TypeError'')"

fun py_join :: "pyval list \<Rightarrow> skill_exn + string list" where
  "py_join [] = Inr []"
| "py_join (PStr s # xs) = (case py_join xs of Inl e \<Rightarrow> Inl e | Inr ss \<Rightarrow> Inr (s # ss))"
| "py_join _ = Inl (Skill_Exn ''TypeError'')"

definition scopes_text :: "pyval \<Rightarrow> skill_exn + string" where
  "scopes_text v = (case py_list v of Inl e \<Rightarrow> Inl e
     | Inr xs \<Rightarrow> (case py_join xs of Inl e \<Rightarrow> Inl e | Inr ss \<Rightarrow> Inr (join '' '' ss)))"

definition skill_principal :: "pydict \<Rightarrow> skill_exn + pydict" where
  "skill_principal ctx = (case get_or ctx ''principal'' (PDict []) of PDict p \<Rightarrow> Inr p | _ \<Rightarrow> Inl Skill_Input_Error)"

section \<open>Completion\<close>

definition complete_prompt :: "pydict \<Rightarrow> pydict \<Rightarrow> string \<Rightarrow> skill_exn + pydict" where
  "complete_prompt data ctx trace =
     (case skill_principal ctx of
        Inl e \<Rightarrow> Inl e
      | Inr p \<Rightarrow>
          (let sub = get_or_none p ''sub'' in
           Inr (set_default (set_default (set_default (set_default (set_default data
             ''source'' (PStr ''user_input''))
             ''origin'' (if py_truthy sub then sub else PStr ''skill-runtime''))
             ''session_id'' (PStr trace)) ''metadata'' (PDict [])) ''mode'' (PStr ''full''))))"

definition protected_keys :: "string list" where
  "protected_keys = [''trace_id'', ''user'', ''agent'', ''user_role'', ''tenant_id'']"

definition principal_user :: "pydict \<Rightarrow> string \<Rightarrow> pyval" where
  "principal_user p scopes =
     PDict [(''principal_id'', get_or_none p ''sub''), (''principal_type'', PStr ''user''),
            (''role'', get_or_none p ''role''), (''tenant_id'', get_or_none p ''tenant_id''),
            (''attributes'', PDict [(''scopes'', PStr scopes)])]"

definition complete_mcpguard :: "pydict \<Rightarrow> pydict \<Rightarrow> string \<Rightarrow> skill_exn + pydict" where
  "complete_mcpguard data ctx trace =
     (let completed = set_default data ''tool_args'' (PDict []) in
      case get_or completed ''context'' (PDict []) of
        PDict incoming \<Rightarrow>
          (let kept = filter (\<lambda>(k, _). k \<notin> set protected_keys) incoming in
           case skill_principal ctx of
             Inl e \<Rightarrow> Inl e
           | Inr p \<Rightarrow>
               if p = [] then Inr (dict_put completed ''context'' (PDict (dict_put kept ''trace_id'' (PStr trace))))
               else (case scopes_text (get_or p ''scopes'' (PList [])) of
                  Inl e \<Rightarrow> Inl e
                | Inr scopes \<Rightarrow> Inr (dict_put completed ''context''
                    (PDict (dict_put (dict_put kept ''user'' (principal_user p scopes)) ''trace_id'' (PStr trace))))))
      | _ \<Rightarrow> Inl Skill_Input_Error)"

definition complete_traceaudit :: "pydict \<Rightarrow> pydict \<Rightarrow> string \<Rightarrow> skill_exn + pydict" where
  "complete_traceaudit data ctx trace =
     (let completed = set_default data ''trace_id'' (PStr trace)
      in if dict_get completed ''trace_id'' = Some (PStr trace) then Inr completed else Inl Skill_Input_Error)"

definition complete_sensitive :: "pydict \<Rightarrow> pydict \<Rightarrow> string \<Rightarrow> skill_exn + pydict" where
  "complete_sensitive data ctx trace =
     (case py_list (get_or ctx ''data_labels'' (PList [])) of
        Inl e \<Rightarrow> Inl e
      | Inr labels \<Rightarrow>
          Inr (set_default (set_default (set_default (set_default data
            ''destination'' (PStr (py_str (get_or ctx ''destination'' (PStr [])))))
            ''operation'' (PStr (py_str (get_or ctx ''operation'' (PStr ''output'')))))
            ''data_labels'' (PList labels)) ''allow_masking'' (PBool True)))"

definition complete_compliance :: "pydict \<Rightarrow> pydict \<Rightarrow> string \<Rightarrow> skill_exn + pydict" where
  "complete_compliance data ctx trace =
     (case skill_principal ctx of
        Inl e \<Rightarrow> Inl e
      | Inr p \<Rightarrow>
          (case py_list (get_or ctx ''data_labels'' (PList [])) of
             Inl e \<Rightarrow> Inl e
           | Inr labels \<Rightarrow>
               Inr (dict_put (dict_put (set_default (set_default data
                 ''destination'' (PStr (py_str (get_or ctx ''destination'' (PStr [])))))
                 ''data_labels'' (PList labels))
                 ''actor_role'' (PStr (py_str (get_or p ''role'' (PStr ''visitor'')))))
                 ''approval_state'' (PStr (py_str (get_or ctx ''approval_state'' (PStr ''none'')))))))"

text \<open>\<open>scan\<close> resolves a path under the scan root; \<open>None\<close> when it is a link, leaves the root or does not exist.\<close>

definition complete_skillscan ::
    "(string \<Rightarrow> string option) \<Rightarrow> pydict \<Rightarrow> pydict \<Rightarrow> string \<Rightarrow> skill_exn + pydict" where
  "complete_skillscan scan data ctx trace =
     (case scan (py_str (get_or data ''package_path'' (PStr []))) of
        None \<Rightarrow> Inl Skill_Input_Error
      | Some resolved \<Rightarrow> Inr (dict_put data ''package_path'' (PStr resolved)))"

section \<open>Lookups\<close>

lemma dict_put_get [simp]: "dict_get (dict_put d k v) j = (if j = k then Some v else dict_get d j)"
proof -
  have "map_of (map (\<lambda>(i, x). if i = k then (i, v) else (i, x)) d) j =
      (if j = k then (if map_of d k = None then None else Some v) else map_of d j)"
    by (induction d) auto
  then show ?thesis by (auto simp: dict_put_def dict_get_def map_add_def split: option.splits)
qed

lemma set_default_get [simp]:
  "dict_get (set_default d k v) j = (if j = k \<and> dict_get d k = None then Some v else dict_get d j)"
  by (auto simp: set_default_def dict_get_def map_add_def split: option.splits)

lemma filter_keys_get:
  "dict_get (filter (\<lambda>(k, _). k \<notin> K) d) j = (if j \<in> K then None else dict_get d j)"
  by (induction d) (auto simp: dict_get_def)

end
