(* ===== verification/SkillProps.thy ===== *)
theory SkillProps
  imports SkillAdapters
begin

text \<open>
  What the skill executor promises: a result only under governance and audit, closed failures,
  bounded attempts, consistent counters, and an identity the caller cannot forge.
\<close>

section \<open>What a call leaves alone\<close>

text \<open>Audit calls and attempts change nothing but the log, the counts of audits and of attempts, and
  the number of audit failures.\<close>

definition quiet :: "skill_state \<Rightarrow> skill_state \<Rightarrow> bool" where
  "quiet s t \<longleftrightarrow> (sk_metrics t)\<lparr>sm_audit_failures := 0\<rparr> = (sk_metrics s)\<lparr>sm_audit_failures := 0\<rparr> \<and>
     sk_active t = sk_active s \<and> prefix (sk_log s) (sk_log t)"

lemma quiet_refl [simp]: "quiet s s"
  by (simp add: quiet_def)

lemma quiet_trans: "quiet s t \<Longrightarrow> quiet t u \<Longrightarrow> quiet s u"
  by (auto simp: quiet_def)

lemma quiet_audit:
  assumes "skill_audit env tr a ev s = (x, t)"
  shows "quiet s t" "sk_calls t = sk_calls s" "x = None \<Longrightarrow> sk_log t = sk_log s @ [(tr, a, ev)]"
  using assms by (auto simp: skill_audit_def Let_def quiet_def split: skill_hook.splits)

lemma quiet_failure_count: "quiet s (count_audit_failure s)"
  by (simp add: quiet_def count_audit_failure_def count_skill_def)

lemma quiet_count: "quiet s t \<Longrightarrow> quiet (count_failed s) (count_failed t)" "quiet s t \<Longrightarrow> quiet (count_success b s) (count_success b t)"
  by (cases "sk_metrics s"; cases "sk_metrics t"; simp add: quiet_def count_failed_def count_success_def count_skill_def)+

lemma count_skill_parts [simp]:
  "sk_calls (count_skill f s) = sk_calls s" "sk_log (count_skill f s) = sk_log s"
  "sk_active (count_skill f s) = sk_active s" "sk_metrics (count_skill f s) = f (sk_metrics s)"
  by (simp_all add: count_skill_def)

lemma counted_parts [simp]:
  "sk_calls (count_failed s) = sk_calls s" "sk_calls (count_success b s) = sk_calls s" "sk_calls (count_audit_failure s) = sk_calls s"
  "sk_log (count_failed s) = sk_log s" "sk_log (count_success b s) = sk_log s" "sk_log (count_audit_failure s) = sk_log s"
  by (simp_all add: count_failed_def count_success_def count_audit_failure_def)

lemma quietD:
  assumes "quiet s t"
  shows "sm_selected (sk_metrics t) = sm_selected (sk_metrics s)" "sm_actual (sk_metrics t) = sm_actual (sk_metrics s)"
    "sm_expected (sk_metrics t) = sm_expected (sk_metrics s)" "sm_expected_actual (sk_metrics t) = sm_expected_actual (sk_metrics s)"
    "sm_started (sk_metrics t) = sm_started (sk_metrics s)" "sm_successful (sk_metrics t) = sm_successful (sk_metrics s)"
    "sm_failed (sk_metrics t) = sm_failed (sk_metrics s)" "sm_params (sk_metrics t) = sm_params (sk_metrics s)"
    "sm_erroneous (sk_metrics t) = sm_erroneous (sk_metrics s)"
    "sm_mandatory_expected (sk_metrics t) = sm_mandatory_expected (sk_metrics s)"
    "sm_mandatory_completed (sk_metrics t) = sm_mandatory_completed (sk_metrics s)"
    "sm_max_active (sk_metrics t) = sm_max_active (sk_metrics s)" "sk_active t = sk_active s"
proof -
  have m: "(sk_metrics t)\<lparr>sm_audit_failures := 0\<rparr> = (sk_metrics s)\<lparr>sm_audit_failures := 0\<rparr>" "sk_active t = sk_active s"
    using assms by (simp_all add: quiet_def)
  show "sk_active t = sk_active s" by (rule m(2))
  show "sm_selected (sk_metrics t) = sm_selected (sk_metrics s)" "sm_actual (sk_metrics t) = sm_actual (sk_metrics s)"
    "sm_expected (sk_metrics t) = sm_expected (sk_metrics s)" "sm_expected_actual (sk_metrics t) = sm_expected_actual (sk_metrics s)"
    "sm_started (sk_metrics t) = sm_started (sk_metrics s)" "sm_successful (sk_metrics t) = sm_successful (sk_metrics s)"
    "sm_failed (sk_metrics t) = sm_failed (sk_metrics s)" "sm_params (sk_metrics t) = sm_params (sk_metrics s)"
    "sm_erroneous (sk_metrics t) = sm_erroneous (sk_metrics s)"
    "sm_mandatory_expected (sk_metrics t) = sm_mandatory_expected (sk_metrics s)"
    "sm_mandatory_completed (sk_metrics t) = sm_mandatory_completed (sk_metrics s)"
    "sm_max_active (sk_metrics t) = sm_max_active (sk_metrics s)"
    using m(1) by (cases "sk_metrics s"; cases "sk_metrics t"; simp)+
qed

lemma quiet_log: "quiet s t \<Longrightarrow> x \<in> set (sk_log s) \<Longrightarrow> x \<in> set (sk_log t)"
  by (auto simp: quiet_def dest: set_mono_prefix)

section \<open>Attempts\<close>

lemma invoke_skill_effect:
  assumes "invoke_skill d q ad data s = (r, t)"
  shows "quiet s t" "sk_calls t = Suc (sk_calls s)" "r = Inr out \<Longrightarrow> missing_fields (sd_required_outputs d) out True = []"
  using assms by (auto simp: invoke_skill_def quiet_def split: sum.splits pyval.splits if_splits)

text \<open>A run of attempts makes between one and \<open>Suc left\<close> of them, and a result has its required fields.\<close>

lemma try_skill_effect:
  "try_skill env d q ad data n left s = ((r, m), t) \<Longrightarrow>
     quiet s t \<and> n < m \<and> m \<le> Suc (n + left) \<and> sk_calls t + n = sk_calls s + m \<and>
     (\<forall>out. r = Inr out \<longrightarrow> missing_fields (sd_required_outputs d) out True = [])"
proof (induction left arbitrary: n s)
  case 0
  obtain x u where x: "invoke_skill d q ad data s = (x, u)" by (cases "invoke_skill d q ad data s")
  show ?case using 0 x invoke_skill_effect[OF x] by (auto split: sum.splits if_splits)
next
  case (Suc left)
  obtain x u where x: "invoke_skill d q ad data s = (x, u)" by (cases "invoke_skill d q ad data s")
  note inv = invoke_skill_effect[OF x]
  show ?case
  proof (cases "\<exists>e. x = Inl e \<and> (e = Skill_Timeout \<or> e = Skill_Transient)")
    case False
    then show ?thesis using Suc.prems x inv by (auto split: sum.splits if_splits)
  next
    case True
    then obtain e where e: "x = Inl e" "e = Skill_Timeout \<or> e = Skill_Transient" by blast
    obtain a v where a: "skill_audit env (sq_trace q) (actor_of q) (Skill_Retry_Event (sq_skill q) (Suc n) e) u = (a, v)"
      by (cases "skill_audit env (sq_trace q) (actor_of q) (Skill_Retry_Event (sq_skill q) (Suc n) e) u")
    note aud = quiet_audit[OF a]
    show ?thesis
    proof (cases a)
      case None
      have run: "try_skill env d q ad data (Suc n) left v = ((r, m), t)"
        using Suc.prems x e a None by (auto split: if_splits)
      from Suc.IH[OF this] show ?thesis using inv(1,2) aud(1,2) by (auto intro: quiet_trans)
    next
      case (Some b)
      have "r = Inl b \<and> m = Suc n \<and> t = count_audit_failure v"
        using Suc.prems x e a Some by (auto split: if_splits)
      then show ?thesis using inv(2) aud(2) quiet_trans[OF quiet_trans[OF inv(1) aud(1)] quiet_failure_count] by simp
    qed
  qed
qed

section \<open>One call\<close>

lemma prepare_callD:
  "prepare_call env d q = Inr (ad, data) \<Longrightarrow>
     sd_enabled d \<and> expected_call d q \<and> sv_adapters env (sq_skill q) = Some ad \<and>
     set (map fst (sq_input q)) \<subseteq> set (sd_inputs d) \<and> ad_complete ad (sq_input q) (sq_context q) (sq_trace q) = Inr data \<and>
     missing_fields (sd_required_inputs d) data False = []"
  by (auto simp: prepare_call_def split: if_splits option.splits sum.splits)

text \<open>A response, by the way it came about.\<close>

definition refused :: "skill_definition \<Rightarrow> skill_response \<Rightarrow> bool" where
  "refused d r \<longleftrightarrow> \<not> sp_success r \<and> (sp_mandatory r \<longleftrightarrow> sd_mode d = Mandatory_Skill) \<and> sp_result r = None \<and> sp_error r \<noteq> None \<and>
     sp_status r = (if sp_audited r \<and> sd_failure_policy d = Fail_Warn then Skill_Warned else Skill_Blocked)"

lemma fail_policy_not [simp]: "fp \<noteq> Fail_Block \<longleftrightarrow> fp = Fail_Warn"
  by (cases fp) simp_all

lemma reject_skill_effect:
  assumes "reject_skill_call env d q e s = (r, t)"
  shows "refused d r" "sp_attempts r = 0" "sk_calls t = sk_calls s" "quiet (count_failed s) t"
proof -
  let ?s = "count_failed s"
  obtain a u where a: "skill_audit env (sq_trace q) (actor_of q) (Skill_Rejected_Event (sq_skill q) e) ?s = (a, u)"
    by (cases "skill_audit env (sq_trace q) (actor_of q) (Skill_Rejected_Event (sq_skill q) e) ?s")
  note aud = quiet_audit[OF a]
  have "refused d r \<and> sp_attempts r = 0 \<and> sk_calls t = sk_calls s \<and> quiet ?s t"
    using assms a aud(1,2) quiet_trans[OF aud(1) quiet_failure_count]
    by (cases a) (auto simp: reject_skill_call_def skill_answer_def refused_def)
  then show "refused d r" "sp_attempts r = 0" "sk_calls t = sk_calls s" "quiet ?s t" by auto
qed

lemma fail_skill_effect:
  assumes "fail_skill_call env d q n e s = (r, t)"
  shows "refused d r" "sp_attempts r = n" "sk_calls t = sk_calls s" "quiet (count_failed s) t"
proof -
  let ?s = "count_failed s"
  obtain a u where a: "skill_audit env (sq_trace q) (actor_of q) (Skill_Failed_Event (sq_skill q) n e) ?s = (a, u)"
    by (cases "skill_audit env (sq_trace q) (actor_of q) (Skill_Failed_Event (sq_skill q) n e) ?s")
  note aud = quiet_audit[OF a]
  have "refused d r \<and> sp_attempts r = n \<and> sk_calls t = sk_calls s \<and> quiet ?s t"
    using assms a aud(1,2) quiet_trans[OF aud(1) quiet_failure_count]
    by (cases a) (auto simp: fail_skill_call_def skill_answer_def refused_def)
  then show "refused d r" "sp_attempts r = n" "sk_calls t = sk_calls s" "quiet ?s t" by auto
qed

lemma unaudited_effect:
  assumes "unaudited_answer d q n a s = (r, t)"
  shows "refused d r" "sp_attempts r = n" "sk_calls t = sk_calls s" "quiet (count_failed s) t"
  using assms by (auto simp: unaudited_answer_def skill_answer_def refused_def intro: quiet_failure_count)

text \<open>What a call that got past its preparation may come to.\<close>

definition completed_as :: "skill_definition \<Rightarrow> skill_request \<Rightarrow> skill_response \<Rightarrow> skill_state \<Rightarrow> bool" where
  "completed_as d q r t \<longleftrightarrow> sp_success r \<and> (sp_mandatory r \<longleftrightarrow> sd_mode d = Mandatory_Skill) \<and> sp_status r = Skill_Completed \<and> sp_audited r \<and> sp_params r \<and> 1 \<le> sp_attempts r \<and>
     (\<exists>out. sp_result r = Some out \<and> missing_fields (sd_required_outputs d) out True = [] \<and>
       (sq_trace q, actor_of q, Skill_Completed_Event (sq_skill q) (sp_attempts r) (sort (map fst out))) \<in> set (sk_log t)) \<and>
     (sq_trace q, actor_of q, Skill_Started_Event (sq_skill q) (sq_stage q)) \<in> set (sk_log t)"

lemma complete_skill_effect:
  assumes "complete_skill_call env d q n out s = (r, t)"
  shows "refused d r \<and> quiet (count_failed s) t \<or>
      sp_success r \<and> (sp_mandatory r \<longleftrightarrow> sd_mode d = Mandatory_Skill) \<and> sp_status r = Skill_Completed \<and> sp_audited r \<and> sp_params r \<and> sp_result r = Some out \<and>
      (sq_trace q, actor_of q, Skill_Completed_Event (sq_skill q) n (sort (map fst out))) \<in> set (sk_log t) \<and>
      quiet (count_success (sd_mode d = Mandatory_Skill \<and> expected_call d q) s) t"
    "sp_attempts r = n" "sk_calls t = sk_calls s"
proof -
  let ?ev = "Skill_Completed_Event (sq_skill q) n (sort (map fst out))"
  obtain a u where a: "skill_audit env (sq_trace q) (actor_of q) ?ev s = (a, u)"
    by (cases "skill_audit env (sq_trace q) (actor_of q) ?ev s")
  note aud = quiet_audit[OF a]
  have "(refused d r \<and> quiet (count_failed s) t \<or>
      sp_success r \<and> (sp_mandatory r \<longleftrightarrow> sd_mode d = Mandatory_Skill) \<and> sp_status r = Skill_Completed \<and> sp_audited r \<and> sp_params r \<and> sp_result r = Some out \<and>
      (sq_trace q, actor_of q, ?ev) \<in> set (sk_log t) \<and>
      quiet (count_success (sd_mode d = Mandatory_Skill \<and> expected_call d q) s) t) \<and>
      sp_attempts r = n \<and> sk_calls t = sk_calls s"
  proof (cases a)
    case None
    then have "t = count_success (sd_mode d = Mandatory_Skill \<and> expected_call d q) u"
      "r = skill_answer d q True (sd_failure_policy d) n True True (Some out) None"
      using assms a by (simp_all add: complete_skill_call_def)
    then show ?thesis using aud(2) aud(3)[OF None] quiet_count(2)[OF aud(1)] by (simp add: skill_answer_def)
  next
    case (Some b)
    then have run: "unaudited_answer d q n b u = (r, t)" using assms a by (simp add: complete_skill_call_def)
    show ?thesis using unaudited_effect[OF run] aud(1,2) quiet_count(1)[OF aud(1)] by (auto intro: quiet_trans)
  qed
  then show "refused d r \<and> quiet (count_failed s) t \<or>
      sp_success r \<and> (sp_mandatory r \<longleftrightarrow> sd_mode d = Mandatory_Skill) \<and> sp_status r = Skill_Completed \<and> sp_audited r \<and> sp_params r \<and> sp_result r = Some out \<and>
      (sq_trace q, actor_of q, ?ev) \<in> set (sk_log t) \<and>
      quiet (count_success (sd_mode d = Mandatory_Skill \<and> expected_call d q) s) t"
    "sp_attempts r = n" "sk_calls t = sk_calls s" by auto
qed

text \<open>A call that got past its preparation runs in the slot and ends in one of two ways.\<close>

definition ran :: "(skill_state \<Rightarrow> skill_state) \<Rightarrow> skill_state \<Rightarrow> skill_state \<Rightarrow> bool" where
  "ran f s t \<longleftrightarrow> (\<exists>v u. quiet (enter_slot s) v \<and> quiet (f v) u \<and> t = leave_slot u)"

lemma run_skill_effect:
  assumes "run_skill_call env d q ad data s = (r, t)"
  shows "refused d r \<and> ran count_failed s t \<or>
      completed_as d q r t \<and> ran (count_success (sd_mode d = Mandatory_Skill \<and> expected_call d q)) s t"
    and "sk_calls t = sk_calls s + sp_attempts r" "sp_attempts r \<le> Suc (sd_retries d)"
proof -
  let ?ev = "Skill_Started_Event (sq_skill q) (sq_stage q)"
  obtain a u where a: "skill_audit env (sq_trace q) (actor_of q) ?ev (enter_slot s) = (a, u)"
    by (cases "skill_audit env (sq_trace q) (actor_of q) ?ev (enter_slot s)")
  note aud = quiet_audit[OF a]
  have calls: "sk_calls (enter_slot s) = sk_calls s" "\<And>x. sk_calls (leave_slot x) = sk_calls x"
    "\<And>x. sk_log (leave_slot x) = sk_log x" by (simp_all add: enter_slot_def leave_slot_def)
  have "(refused d r \<and> ran count_failed s t \<or>
      completed_as d q r t \<and> ran (count_success (sd_mode d = Mandatory_Skill \<and> expected_call d q)) s t) \<and>
      sk_calls t = sk_calls s + sp_attempts r \<and> sp_attempts r \<le> Suc (sd_retries d)"
  proof (cases a)
    case (Some b)
    then obtain t' where t: "t = leave_slot t'" "unaudited_answer d q 0 b u = (r, t')"
      using assms a by (cases "unaudited_answer d q 0 b u") (auto simp: run_skill_call_def)
    note e = unaudited_effect[OF t(2)]
    show ?thesis using e aud(1,2) t(1) calls by (auto simp: ran_def)
  next
    case None
    obtain x n v where x: "try_skill env d q ad data 0 (sd_retries d) u = ((x, n), v)"
      by (cases "try_skill env d q ad data 0 (sd_retries d) u") auto
    note tried = try_skill_effect[OF x]
    have q1: "quiet (enter_slot s) v" using quiet_trans[OF aud(1)] tried by blast
    have started: "(sq_trace q, actor_of q, ?ev) \<in> set (sk_log v)"
      using aud(3)[OF None] quiet_log[of u v] tried by simp
    show ?thesis
    proof (cases x)
      case (Inl e)
      then obtain t' where t: "t = leave_slot t'" "fail_skill_call env d q n e v = (r, t')"
        using assms a None x by (cases "fail_skill_call env d q n e v") (auto simp: run_skill_call_def)
      note f = fail_skill_effect[OF t(2)]
      show ?thesis using f q1 tried aud(2) t(1) calls by (auto simp: ran_def)
    next
      case (Inr out)
      then obtain t' where t: "t = leave_slot t'" "complete_skill_call env d q n out v = (r, t')"
        using assms a None x by (cases "complete_skill_call env d q n out v") (auto simp: run_skill_call_def)
      note f = complete_skill_effect[OF t(2)]
      have n: "sk_calls t = sk_calls s + sp_attempts r" "sp_attempts r \<le> Suc (sd_retries d)"
        using f(2,3) tried aud(2) t(1) calls by auto
      from f(1) show ?thesis
      proof (elim disjE)
        assume "refused d r \<and> quiet (count_failed v) t'"
        then show ?thesis using n q1 t(1) by (auto simp: ran_def)
      next
        assume ok: "sp_success r \<and> (sp_mandatory r \<longleftrightarrow> sd_mode d = Mandatory_Skill) \<and> sp_status r = Skill_Completed \<and> sp_audited r \<and> sp_params r \<and> sp_result r = Some out \<and>
          (sq_trace q, actor_of q, Skill_Completed_Event (sq_skill q) n (sort (map fst out))) \<in> set (sk_log t') \<and>
          quiet (count_success (sd_mode d = Mandatory_Skill \<and> expected_call d q) v) t'"
        have "(sq_trace q, actor_of q, ?ev) \<in> set (sk_log t')"
          using quiet_log[of "count_success (sd_mode d = Mandatory_Skill \<and> expected_call d q) v" t'] ok started by simp
        then have "completed_as d q r t" using ok f(2) tried Inr t(1) calls by (auto simp: completed_as_def)
        then show ?thesis using n ok q1 t(1) by (auto simp: ran_def)
      qed
    qed
  qed
  then show "refused d r \<and> ran count_failed s t \<or>
      completed_as d q r t \<and> ran (count_success (sd_mode d = Mandatory_Skill \<and> expected_call d q)) s t"
    "sk_calls t = sk_calls s + sp_attempts r" "sp_attempts r \<le> Suc (sd_retries d)" by blast+
qed

section \<open>The registry\<close>







section \<open>Governed calls\<close>

lemma execute_skill_cases:
  assumes "execute_skill env reg q s = (Some r, t)"
  obtains (rejected) d e where "get_skill reg (sq_skill q) = Some d" "prepare_call env d q = Inl e"
      "reject_skill_call env d q e (count_selected d q s) = (r, t)"
  | (run) d ad data where "get_skill reg (sq_skill q) = Some d" "prepare_call env d q = Inr (ad, data)"
      "run_skill_call env d q ad data (count_skill (\<lambda>m. m\<lparr>sm_params := sm_params m + 1\<rparr>) (count_selected d q s)) = (r, t)"
proof -
  obtain d where d: "get_skill reg (sq_skill q) = Some d" using assms by (auto simp: execute_skill_def split: option.splits)
  show thesis
  proof (cases "prepare_call env d q")
    case (Inl e)
    then show ?thesis using that(1)[OF d Inl] assms d
      by (cases "reject_skill_call env d q e (count_selected d q s)") (simp add: execute_skill_def)
  next
    case (Inr x)
    obtain ad data where x: "x = (ad, data)" by (cases x)
    then show ?thesis using that(2)[OF d Inr[unfolded x]] assms d Inr
      by (cases "run_skill_call env d q ad data (count_skill (\<lambda>m. m\<lparr>sm_params := sm_params m + 1\<rparr>) (count_selected d q s))")
        (simp add: execute_skill_def)
  qed
qed

text \<open>C37: A skill's result is governed. A call succeeds only for a registered, enabled skill at one of
  its trigger stages, bound to a trusted adapter, with declared inputs only and every required
  input present after completion; its start and its completion are in the audit log under its
  trace, and the result has every required output.\<close>

theorem skill_success_is_governed:
  assumes "execute_skill env reg q s = (Some r, t)" "sp_success r"
  shows "\<exists>d ad data out. get_skill reg (sq_skill q) = Some d \<and> sd_enabled d \<and>
    (sq_stage q = Stage_Direct \<or> sq_stage q \<in> set (sd_stages d)) \<and> sv_adapters env (sq_skill q) = Some ad \<and>
    set (map fst (sq_input q)) \<subseteq> set (sd_inputs d) \<and>
    ad_complete ad (sq_input q) (sq_context q) (sq_trace q) = Inr data \<and>
    missing_fields (sd_required_inputs d) data False = [] \<and>
    sp_result r = Some out \<and> missing_fields (sd_required_outputs d) out True = [] \<and>
    (sq_trace q, actor_of q, Skill_Started_Event (sq_skill q) (sq_stage q)) \<in> set (sk_log t) \<and>
    (sq_trace q, actor_of q, Skill_Completed_Event (sq_skill q) (sp_attempts r) (sort (map fst out))) \<in> set (sk_log t)"
  using assms(1)
proof (cases rule: execute_skill_cases)
  case (rejected d e)
  then show ?thesis using assms(2) reject_skill_effect(1)[OF rejected(3)] by (simp add: refused_def)
next
  case (run d ad data)
  have "completed_as d q r t" using assms(2) run_skill_effect(1)[OF run(3)] by (auto simp: refused_def)
  then show ?thesis using run(1) prepare_callD[OF run(2)] unfolding completed_as_def expected_call_def by blast
qed


text \<open>Attempts are bounded. A call invokes its adapter at most once more than the manifest's
  retries, reports exactly the number of invocations it made, and makes none when it is rejected.\<close>

theorem skill_attempts_bounded:
  assumes "execute_skill env reg q s = (Some r, t)" "get_skill reg (sq_skill q) = Some d"
  shows "sk_calls t = sk_calls s + sp_attempts r \<and> sp_attempts r \<le> sd_retries d + 1 \<and>
    (sp_success r \<longrightarrow> 1 \<le> sp_attempts r)"
  using assms(1)
proof (cases rule: execute_skill_cases)
  case (rejected d' e)
  then show ?thesis using reject_skill_effect[OF rejected(3)] by (simp add: count_selected_def refused_def)
next
  case (run d' ad data)
  then show ?thesis using run_skill_effect[OF run(3)] assms(2) by (auto simp: count_selected_def refused_def completed_as_def)
qed

section \<open>Counters\<close>

text \<open>The counters between two calls.\<close>

definition tallied :: "skill_state \<Rightarrow> bool" where
  "tallied s \<longleftrightarrow> (let m = sk_metrics s in
     sm_successful m + sm_failed m = sm_actual m \<and> sm_selected m = sm_actual m \<and>
     sm_expected m + sm_erroneous m = sm_actual m \<and> sm_expected_actual m = sm_expected m \<and>
     sm_mandatory_completed m \<le> sm_mandatory_expected m \<and> sm_mandatory_expected m \<le> sm_expected m \<and>
     sm_mandatory_completed m \<le> sm_successful m \<and>
     sm_started m = sm_params m \<and> sm_params m \<le> sm_actual m \<and> sm_successful m \<le> sm_started m \<and>
     sk_active s = 0 \<and> sm_max_active m \<le> 1)"

lemma tallied_rejected:
  assumes "tallied s" "quiet (count_failed (count_selected d q s)) t"
  shows "tallied t"
  using assms(1) quietD[OF assms(2)] by (simp add: tallied_def Let_def count_failed_def count_selected_def)

lemma tallied_ran:
  assumes s: "tallied s" and ran: "ran f (count_skill (\<lambda>m. m\<lparr>sm_params := sm_params m + 1\<rparr>) (count_selected d q s)) t"
    and f: "f = count_failed \<or> f = count_success (sd_mode d = Mandatory_Skill \<and> expected_call d q)"
  shows "tallied t"
proof -
  obtain v u where v: "quiet (enter_slot (count_skill (\<lambda>m. m\<lparr>sm_params := sm_params m + 1\<rparr>) (count_selected d q s))) v"
    and u: "quiet (f v) u" "t = leave_slot u" using ran by (auto simp: ran_def)
  show ?thesis
    using f s quietD[OF v] quietD[OF u(1)]
    by (elim disjE; simp add: u(2) tallied_def Let_def leave_slot_def enter_slot_def count_failed_def count_success_def
        count_selected_def)
qed

fun run_skills :: "skill_env \<Rightarrow> skill_registry \<Rightarrow> skill_request list \<Rightarrow> skill_state \<Rightarrow> skill_state" where
  "run_skills env reg [] s = s"
| "run_skills env reg (q # qs) s = run_skills env reg qs (snd (execute_skill env reg q s))"

lemma execute_tallied: "tallied s \<Longrightarrow> tallied (snd (execute_skill env reg q s))"
proof -
  assume s: "tallied s"
  obtain r t where run: "execute_skill env reg q s = (r, t)" by (cases "execute_skill env reg q s")
  show ?thesis
  proof (cases r)
    case None
    then have "t = s" using run by (auto simp: execute_skill_def map_prod_def split: option.splits prod.splits)
    then show ?thesis using s run by simp
  next
    case (Some x)
    from run[unfolded Some] have "tallied t"
    proof (cases rule: execute_skill_cases)
      case (rejected d e)
      then show ?thesis using tallied_rejected[OF s reject_skill_effect(4)[OF rejected(3)]] by simp
    next
      case (run d ad data)
      then show ?thesis using tallied_ran[OF s] run_skill_effect(1)[OF run(3)] by blast
    qed
    then show ?thesis using run by simp
  qed
qed

text \<open>The executor's metrics are consistent. After any sequence of calls every actual call is
  counted as successful or failed and as expected or erroneous, started calls are those with
  complete parameters, and mandatory completions never exceed the mandatory calls expected, so the
  reported coverage and rates are at most one. (The expected-call recall is always one.)\<close>

theorem skill_metrics_consistent:
  "let s = run_skills env reg qs new_executor; m = sk_metrics s; x = skill_metrics_snapshot s in
     sm_successful m + sm_failed m = sm_actual m \<and> sm_expected m + sm_erroneous m = sm_actual m \<and>
     sm_started m = sm_params m \<and> sm_params m \<le> sm_actual m \<and>
     sm_mandatory_completed m \<le> sm_mandatory_expected m \<and> sk_active s = 0 \<and>
     fst (sx_coverage x) \<le> snd (sx_coverage x) \<and> fst (sx_success x) \<le> snd (sx_success x) \<and>
     fst (sx_params x) \<le> snd (sx_params x) \<and> fst (sx_erroneous x) \<le> snd (sx_erroneous x) \<and>
     fst (sx_recall x) = snd (sx_recall x)"
proof -
  have "tallied (run_skills env reg qs s)" if "tallied s" for s
    using that by (induction qs arbitrary: s) (simp_all add: execute_tallied)
  then have "tallied (run_skills env reg qs new_executor)"
    by (simp add: tallied_def new_executor_def no_skill_metrics_def)
  then show ?thesis by (simp add: tallied_def skill_metrics_snapshot_def Let_def)
qed

section \<open>Identity\<close>

text \<open>Callers of a skill cannot forge their identity. Whatever the caller put into the arguments,
  the context the tool guard is given names the executing trace and the server's principal and
  carries no agent, role or tenant of the caller's; and the compliance check is given the role and
  the approval state of the server's context.\<close>

theorem skill_identity_not_forgeable:
  assumes "get_or ctx ''principal'' (PDict []) = PDict p" "p \<noteq> []"
  shows "(case complete_mcpguard data ctx trace of Inl e \<Rightarrow> True
     | Inr out \<Rightarrow> \<exists>c scopes. dict_get out ''context'' = Some (PDict c) \<and> dict_get c ''trace_id'' = Some (PStr trace) \<and>
        dict_get c ''user'' = Some (principal_user p scopes) \<and>
        dict_get c ''agent'' = None \<and> dict_get c ''user_role'' = None \<and> dict_get c ''tenant_id'' = None) \<and>
    (case complete_compliance data ctx trace of Inl e \<Rightarrow> True
     | Inr out \<Rightarrow> dict_get out ''actor_role'' = Some (PStr (py_str (get_or p ''role'' (PStr ''visitor'')))) \<and>
        dict_get out ''approval_state'' = Some (PStr (py_str (get_or ctx ''approval_state'' (PStr ''none'')))))"
proof -
  have guard: "\<exists>c scopes. dict_get out ''context'' = Some (PDict c) \<and> dict_get c ''trace_id'' = Some (PStr trace) \<and>
        dict_get c ''user'' = Some (principal_user p scopes) \<and>
        dict_get c ''agent'' = None \<and> dict_get c ''user_role'' = None \<and> dict_get c ''tenant_id'' = None"
    if run: "complete_mcpguard data ctx trace = Inr out" for out
  proof -
    define completed where "completed = set_default data ''tool_args'' (PDict [])"
    obtain incoming where inc: "get_or completed ''context'' (PDict []) = PDict incoming"
      using run by (cases "get_or completed ''context'' (PDict [])") (simp_all add: complete_mcpguard_def Let_def completed_def)
    define kept where "kept = filter (\<lambda>(k, _). k \<notin> set protected_keys) incoming"
    have k: "dict_get kept j = None" if "j \<in> set protected_keys" for j
      using that by (simp add: kept_def filter_keys_get)
    obtain scopes where "out = dict_put completed ''context''
        (PDict (dict_put (dict_put kept ''user'' (principal_user p scopes)) ''trace_id'' (PStr trace)))"
      using run assms inc by (auto simp: complete_mcpguard_def Let_def skill_principal_def kept_def completed_def split: sum.splits)
    then show ?thesis using k[of "''agent''"] k[of "''user_role''"] k[of "''tenant_id''"] by (auto simp: protected_keys_def)
  qed
  have "dict_get out ''actor_role'' = Some (PStr (py_str (get_or p ''role'' (PStr ''visitor'')))) \<and>
      dict_get out ''approval_state'' = Some (PStr (py_str (get_or ctx ''approval_state'' (PStr ''none''))))"
    if "complete_compliance data ctx trace = Inr out" for out
    using that assms by (auto simp: complete_compliance_def skill_principal_def split: sum.splits)
  with guard show ?thesis by (auto split: sum.splits)
qed

section \<open>Examples\<close>

definition demo_skill :: skill_definition where
  "demo_skill = \<lparr>sd_name = ''shield'', sd_version = ''1.0.0'', sd_mode = Mandatory_Skill, sd_stages = [Stage_User_Input],
     sd_entrypoint = ''src/run.py:main'', sd_baseline = None, sd_inputs = [''text''], sd_required_inputs = [''text''],
     sd_outputs = [''action''], sd_required_outputs = [''action''], sd_timeout_ms = 100, sd_retries = 1,
     sd_failure_policy = Fail_Block, sd_enabled = True, sd_policies = []\<rparr>"

definition demo_package :: skill_package where
  "demo_package = \<lparr>pk_dir = ''shield'', pk_fixed = True, pk_manifest = Some demo_skill, pk_file = \<lambda>_. Plain_File\<rparr>"

definition demo_registry :: skill_registry where
  "demo_registry = [(''shield'', demo_skill)]"

text \<open>The adapter is transiently down at first; the third audit of the second environment fails.\<close>

definition demo_skill_adapter :: skill_adapter where
  "demo_skill_adapter = \<lparr>ad_complete = \<lambda>data _ _. Inr data,
     ad_run = \<lambda>n _ _. if n = 0 then Inl Skill_Transient else Inr (PDict [(''action'', PStr ''allow'')])\<rparr>"

definition demo_skill_env :: skill_env where
  "demo_skill_env = \<lparr>sv_adapters = \<lambda>_. Some demo_skill_adapter, sv_hook = \<lambda>_. Skill_Hook_Ok\<rparr>"

definition demo_deaf_env :: skill_env where
  "demo_deaf_env = demo_skill_env\<lparr>sv_hook := \<lambda>n. if n < 2 then Skill_Hook_Ok else Skill_Hook_Late\<rparr>"

definition demo_skill_request :: skill_request where
  "demo_skill_request = \<lparr>sq_trace = ''tr'', sq_skill = ''shield'', sq_input = [(''text'', PStr ''hello'')],
     sq_context = [], sq_stage = Stage_User_Input\<rparr>"

lemmas skill_evals = demo_skill_def demo_package_def demo_registry_def demo_skill_adapter_def demo_skill_env_def
  demo_deaf_env_def demo_skill_request_def execute_skill_def get_skill_def prepare_call_def expected_call_def
  missing_fields_def dict_get_def strip_def lstrip_by_def rstrip_by_def is_space_def run_skill_call_def skill_audit_def
  Let_def invoke_skill_def complete_skill_call_def fail_skill_call_def skill_answer_def count_selected_def enter_slot_def
  leave_slot_def count_skill_def count_failed_def count_success_def count_audit_failure_def unaudited_answer_def
  new_executor_def no_skill_metrics_def


lemma demo_success: "\<exists>r t. execute_skill demo_skill_env demo_registry demo_skill_request new_executor = (Some r, t) \<and>
    sp_success r \<and> sp_attempts r = 2"
  by (simp add: skill_evals)

theorem skill_success_is_governed_witness:
  "\<exists>r t. execute_skill demo_skill_env demo_registry demo_skill_request new_executor = (Some r, t) \<and>
     (''tr'', actor_of demo_skill_request, Skill_Started_Event ''shield'' Stage_User_Input) \<in> set (sk_log t)"
proof -
  obtain r t where run: "execute_skill demo_skill_env demo_registry demo_skill_request new_executor = (Some r, t)" "sp_success r"
    using demo_success by blast
  have "(sq_trace demo_skill_request, actor_of demo_skill_request,
      Skill_Started_Event (sq_skill demo_skill_request) (sq_stage demo_skill_request)) \<in> set (sk_log t)"
    using skill_success_is_governed[OF run] by blast
  then show ?thesis using run(1) by (simp add: demo_skill_request_def)
qed

theorem skill_attempts_bounded_witness:
  "\<exists>r t. execute_skill demo_skill_env demo_registry demo_skill_request new_executor = (Some r, t) \<and> sk_calls t = 2"
proof -
  obtain r t where run: "execute_skill demo_skill_env demo_registry demo_skill_request new_executor = (Some r, t)"
    "sp_attempts r = 2" using demo_success by blast
  have "get_skill demo_registry (sq_skill demo_skill_request) = Some demo_skill"
    by (simp add: get_skill_def demo_registry_def demo_skill_request_def)
  from skill_attempts_bounded[OF run(1) this] show ?thesis using run by (simp add: new_executor_def)
qed



theorem skill_identity_not_forgeable_witness:
  "\<exists>out c. complete_mcpguard [(''tool_name'', PStr ''shell_exec''),
       (''context'', PDict [(''user_role'', PStr ''admin''), (''agent'', PStr ''x'')])]
     [(''principal'', PDict [(''sub'', PStr ''u1''), (''role'', PStr ''staff'')])] ''tr'' = Inr out \<and>
     dict_get out ''context'' = Some (PDict c) \<and> dict_get c ''user_role'' = None"
proof -
  let ?data = "[(''tool_name'', PStr ''shell_exec''), (''context'', PDict [(''user_role'', PStr ''admin''), (''agent'', PStr ''x'')])]"
  let ?ctx = "[(''principal'', PDict [(''sub'', PStr ''u1''), (''role'', PStr ''staff'')])]"
  obtain out where out: "complete_mcpguard ?data ?ctx ''tr'' = Inr out"
    by (simp add: complete_mcpguard_def Let_def set_default_def get_or_def dict_get_def skill_principal_def scopes_text_def protected_keys_def)
  have "get_or ?ctx ''principal'' (PDict []) = PDict [(''sub'', PStr ''u1''), (''role'', PStr ''staff'')]"
    by (simp add: get_or_def dict_get_def)
  from skill_identity_not_forgeable[OF this, where data = ?data and trace = "''tr''"] out show ?thesis by auto
qed

end
