(* ===== verification/AgentPlans.thy ===== *)
theory AgentPlans
  imports PyValues Prelude
begin

text \<open>
  Where an agent's plan comes from, \<^verbatim>\<open>agent_demo/planners/\<close>: the schemas of the arguments a
  planner may propose (\<open>tool_schemas.py\<close>), the validation of its output (\<open>validation.py\<close>), the
  retries and the circuit breaker around a remote planner (\<open>resilience.py\<close>) and the fallback to
  the offline one (\<open>factory.py\<close>). What the remote planner answers, the clock and SHA-256 are inputs.
\<close>

section \<open>Tool arguments\<close>

datatype plan_failure = Plan_Rejected | Plan_Transport

text \<open>\<open>_bounded_json\<close>: the number of nodes seen so far goes in and comes out; \<open>None\<close> is the error.\<close>

fun bounded_json :: "nat \<Rightarrow> pyval \<Rightarrow> nat \<Rightarrow> nat option"
and bounded_items :: "nat \<Rightarrow> pyval list \<Rightarrow> nat \<Rightarrow> nat option"
and bounded_fields :: "nat \<Rightarrow> pydict \<Rightarrow> nat \<Rightarrow> nat option" where
  "bounded_json depth v n =
     (if 500 < Suc n \<or> 8 < depth then None
      else (case v of
         PStr s \<Rightarrow> if 100000 < length s then None else Some (Suc n)
       | PList xs \<Rightarrow> if 100 < length xs then None else bounded_items (Suc depth) xs (Suc n)
       | PDict d \<Rightarrow> if 100 < length d then None else bounded_fields (Suc depth) d (Suc n)
       | _ \<Rightarrow> Some (Suc n)))"
| "bounded_items depth [] n = Some n"
| "bounded_items depth (x # xs) n =
     (case bounded_json depth x n of None \<Rightarrow> None | Some m \<Rightarrow> bounded_items depth xs m)"
| "bounded_fields depth [] n = Some n"
| "bounded_fields depth ((k, x) # d) n =
     (if 160 < length k then None
      else (case bounded_json depth x n of None \<Rightarrow> None | Some m \<Rightarrow> bounded_fields depth d m))"

text \<open>
  The fields of the argument models: text within bounds, required or with an empty default; a list
  of texts; a method; an optional object. A missing optional object is left out of the result.
\<close>

datatype field_spec =
    Text_Field string nat nat bool
  | Texts_Field string nat
  | Method_Field string
  | Object_Field string

fun field_name :: "field_spec \<Rightarrow> string" where
  "field_name (Text_Field k lo hi req) = k"
| "field_name (Texts_Field k hi) = k"
| "field_name (Method_Field k) = k"
| "field_name (Object_Field k) = k"

definition tool_models :: "(string \<times> field_spec list) list" where
  "tool_models =
     [(''file_read'', [Text_Field ''path'' 1 2048 True]),
      (''file_write'', [Text_Field ''path'' 1 2048 True, Text_Field ''content'' 0 100000 False]),
      (''file_delete'', [Text_Field ''path'' 1 2048 True]),
      (''send_email'', [Text_Field ''to'' 3 320 True, Text_Field ''subject'' 0 500 False,
         Text_Field ''content'' 0 100000 False, Texts_Field ''attachments'' 10]),
      (''browser_visit'', [Text_Field ''url'' 1 4096 True]),
      (''api_call'', [Text_Field ''url'' 1 4096 True, Method_Field ''method'', Object_Field ''body'']),
      (''shell_exec'', [Text_Field ''command'' 1 10000 True]),
      (''db_query'', [Text_Field ''sql'' 1 100000 True]),
      (''db_write'', [Text_Field ''sql'' 1 100000 True])]"

definition http_methods :: "string list" where
  "http_methods = [''GET'', ''POST'', ''PUT'', ''PATCH'', ''DELETE'']"

definition is_text :: "pyval \<Rightarrow> bool" where
  "is_text v = (case v of PStr _ \<Rightarrow> True | _ \<Rightarrow> False)"

fun read_field :: "pydict \<Rightarrow> field_spec \<Rightarrow> pydict option" where
  "read_field args (Text_Field k lo hi req) =
     (case dict_get args k of
        None \<Rightarrow> if req then None else Some [(k, PStr [])]
      | Some (PStr s) \<Rightarrow> if lo \<le> length s \<and> length s \<le> hi then Some [(k, PStr s)] else None
      | Some _ \<Rightarrow> None)"
| "read_field args (Texts_Field k hi) =
     (case dict_get args k of
        None \<Rightarrow> Some [(k, PList [])]
      | Some (PList xs) \<Rightarrow> if length xs \<le> hi \<and> list_all is_text xs then Some [(k, PList xs)] else None
      | Some _ \<Rightarrow> None)"
| "read_field args (Method_Field k) =
     (case dict_get args k of
        None \<Rightarrow> Some [(k, PStr ''GET'')]
      | Some (PStr s) \<Rightarrow> if s \<in> set http_methods then Some [(k, PStr s)] else None
      | Some _ \<Rightarrow> None)"
| "read_field args (Object_Field k) =
     (case dict_get args k of
        None \<Rightarrow> Some []
      | Some PNone \<Rightarrow> Some []
      | Some (PDict d) \<Rightarrow> Some [(k, PDict d)]
      | Some _ \<Rightarrow> None)"

fun read_fields :: "pydict \<Rightarrow> field_spec list \<Rightarrow> pydict option" where
  "read_fields args [] = Some []"
| "read_fields args (f # fs) =
     (case read_field args f of
        None \<Rightarrow> None
      | Some kv \<Rightarrow> map_option ((@) kv) (read_fields args fs))"

definition validate_tool_args :: "string \<Rightarrow> pydict \<Rightarrow> pydict option" where
  "validate_tool_args tool args =
     (case map_of tool_models tool of
        None \<Rightarrow> None
      | Some fields' \<Rightarrow>
          if bounded_json 0 (PDict args) 0 = None then None
          else if \<not> set (map fst args) \<subseteq> set (map field_name fields') then None
          else read_fields args fields')"

section \<open>Plans\<close>

record planned_call =
  pc_index :: nat
  pc_tool :: string
  pc_args :: pydict
  pc_predecessors :: "int list"

record agent_plan =
  ap_id :: string
  ap_planner :: string
  ap_model :: string
  ap_summary :: string
  ap_steps :: "planned_call list"
  ap_fallback_from :: "string option"
  ap_warnings :: "string list"

definition call_payload :: "planned_call \<Rightarrow> pyval" where
  "call_payload c =
     PDict [(''step_index'', PInt (int (pc_index c))), (''tool_name'', PStr (pc_tool c)),
            (''tool_args'', PDict (pc_args c)), (''predecessors'', PList (map PInt (pc_predecessors c)))]"

definition stable_plan_id :: "(string \<Rightarrow> string) \<Rightarrow> string \<Rightarrow> planned_call list \<Rightarrow> string" where
  "stable_plan_id sha task calls =
     ''PLAN-'' @ upper (take 24 (sha (json_dumps
       (PDict [(''task_hash'', PStr (sha task)), (''steps'', PList (map call_payload calls))]))))"

text \<open>\<open>predecessors\<close>: distinct integers from 1 to below the step; a missing list is the step before.\<close>

fun earlier_steps :: "nat \<Rightarrow> pyval list \<Rightarrow> int list option" where
  "earlier_steps i [] = Some []"
| "earlier_steps i (PInt p # ps) =
     (if 1 \<le> p \<and> p < int i then map_option ((#) p) (earlier_steps i ps) else None)"
| "earlier_steps i (_ # ps) = None"

definition predecessors_of :: "nat \<Rightarrow> pydict \<Rightarrow> int list option" where
  "predecessors_of i raw =
     (case dict_get raw ''predecessors'' of
        None \<Rightarrow> Some (if 1 < i then [int i - 1] else [])
      | Some (PList ps) \<Rightarrow>
          (case earlier_steps i ps of None \<Rightarrow> None | Some js \<Rightarrow> if distinct js then Some js else None)
      | Some _ \<Rightarrow> None)"

definition read_step :: "nat \<Rightarrow> pyval \<Rightarrow> planned_call option" where
  "read_step i v =
     (case v of
        PDict raw \<Rightarrow>
          if \<not> set (map fst raw) \<subseteq> {''step_index'', ''tool_name'', ''tool_args'', ''predecessors''} then None
          else if (case dict_get raw ''step_index'' of None \<Rightarrow> False | Some x \<Rightarrow> \<not> py_eq x (PInt (int i))) then None
          else (case (dict_get raw ''tool_name'',
                      case dict_get raw ''tool_args'' of None \<Rightarrow> PDict [] | Some a \<Rightarrow> a,
                      predecessors_of i raw) of
             (Some (PStr tool), PDict args, Some preds) \<Rightarrow>
               map_option (\<lambda>a. \<lparr>pc_index = i, pc_tool = tool, pc_args = a, pc_predecessors = preds\<rparr>)
                 (validate_tool_args tool args)
           | _ \<Rightarrow> None)
      | _ \<Rightarrow> None)"

fun read_steps :: "nat \<Rightarrow> pyval list \<Rightarrow> planned_call list option" where
  "read_steps i [] = Some []"
| "read_steps i (v # vs) =
     (case read_step i v of
        None \<Rightarrow> None
      | Some c \<Rightarrow> map_option ((#) c) (read_steps (Suc i) vs))"

definition planner_types :: "string list" where
  "planner_types = [''deterministic'', ''model_gateway'', ''openai_compatible'', ''dify'', ''external_agent'']"

definition validate_plan_payload ::
    "(string \<Rightarrow> string) \<Rightarrow> string \<Rightarrow> pyval \<Rightarrow> string \<Rightarrow> string \<Rightarrow> agent_plan option" where
  "validate_plan_payload sha task payload planner model =
     (case payload of
        PDict p \<Rightarrow>
          if \<not> set (map fst p) \<subseteq> {''summary'', ''steps''} then None
          else (case (case dict_get p ''steps'' of None \<Rightarrow> PList [] | Some x \<Rightarrow> x,
                      case dict_get p ''summary'' of None \<Rightarrow> PStr [] | Some x \<Rightarrow> x) of
             (PList raw, PStr summary) \<Rightarrow>
               if 16 < length raw then None
               else (case read_steps 1 raw of
                  None \<Rightarrow> None
                | Some calls \<Rightarrow>
                    if planner \<notin> set planner_types \<or> model = [] \<or> 160 < length model then None
                    else Some \<lparr>ap_id = stable_plan_id sha task calls, ap_planner = planner, ap_model = model,
                      ap_summary = take 1000 summary, ap_steps = calls, ap_fallback_from = None, ap_warnings = []\<rparr>)
           | _ \<Rightarrow> None)
      | _ \<Rightarrow> None)"

section \<open>The planner's circuit breaker\<close>

record plan_circuit =
  pk_threshold :: nat
  pk_recovery_ms :: int
  pk_failures :: nat
  pk_opened :: "int option"
  pk_probe :: bool

definition new_circuit :: "nat \<Rightarrow> int \<Rightarrow> plan_circuit" where
  "new_circuit threshold recovery =
     \<lparr>pk_threshold = threshold, pk_recovery_ms = recovery, pk_failures = 0, pk_opened = None, pk_probe = False\<rparr>"

definition before_call :: "int \<Rightarrow> plan_circuit \<Rightarrow> bool \<times> plan_circuit" where
  "before_call now c =
     (case pk_opened c of
        None \<Rightarrow> (\<not> pk_probe c, c)
      | Some since \<Rightarrow>
          if pk_recovery_ms c \<le> now - since
            then (True, c\<lparr>pk_opened := None, pk_failures := pk_threshold c - 1, pk_probe := True\<rparr>)
          else (False, c))"

definition circuit_success :: "plan_circuit \<Rightarrow> plan_circuit" where
  "circuit_success c = c\<lparr>pk_failures := 0, pk_opened := None, pk_probe := False\<rparr>"

definition circuit_failure :: "int \<Rightarrow> plan_circuit \<Rightarrow> plan_circuit" where
  "circuit_failure now c =
     (let d = c\<lparr>pk_failures := pk_failures c + 1, pk_probe := False\<rparr>
      in if pk_threshold c \<le> pk_failures d then d\<lparr>pk_opened := Some now\<rparr> else d)"

definition circuit_snapshot :: "plan_circuit \<Rightarrow> string \<times> nat \<times> int option" where
  "circuit_snapshot c =
     (if pk_opened c \<noteq> None then ''open'' else if pk_probe c then ''half_open'' else ''closed'',
      pk_failures c, pk_opened c)"

section \<open>Retries and fallback\<close>

text \<open>
  The planner's answer to its n-th call, the clock's n-th reading; the error of a rejected answer
  is \<open>PlanningError\<close>, that of the transport its subclass.
\<close>

record planner_env =
  pn_answer :: "nat \<Rightarrow> plan_failure + agent_plan"
  pn_clock :: "nat \<Rightarrow> int"
  pn_attempts :: nat

record planner_state =
  pl_circuit :: plan_circuit
  pl_calls :: nat
  pl_ticks :: nat

type_synonym 'a planner_op = "(planner_state, plan_failure, 'a) op"

definition pass_circuit :: "planner_env \<Rightarrow> unit planner_op" where
  "pass_circuit env s =
     (case before_call (pn_clock env (pl_ticks s)) (pl_circuit s) of
        (ok, c) \<Rightarrow> (if ok then Inr () else Inl Plan_Rejected,
          s\<lparr>pl_circuit := c, pl_ticks := pl_ticks s + (if pk_opened (pl_circuit s) = None then 0 else 1)\<rparr>))"

definition ask_planner :: "planner_env \<Rightarrow> agent_plan planner_op" where
  "ask_planner env s = (pn_answer env (pl_calls s), s\<lparr>pl_calls := Suc (pl_calls s)\<rparr>)"

text \<open>\<open>record_failure\<close> reads the clock only when the circuit opens.\<close>

definition note_transport_failure :: "planner_env \<Rightarrow> planner_state \<Rightarrow> planner_state" where
  "note_transport_failure env s =
     (let c = circuit_failure (pn_clock env (pl_ticks s)) (pl_circuit s)
      in s\<lparr>pl_circuit := c, pl_ticks := pl_ticks s +
           (if pk_threshold (pl_circuit s) \<le> pk_failures (pl_circuit s) + 1 then 1 else 0)\<rparr>)"

fun plan_attempts :: "planner_env \<Rightarrow> nat \<Rightarrow> agent_plan planner_op" where
  "plan_attempts env 0 s = (Inl Plan_Transport, s)"
| "plan_attempts env (Suc left) s =
     (case ask_planner env s of
        (Inr plan, t) \<Rightarrow> (Inr plan, t\<lparr>pl_circuit := circuit_success (pl_circuit t)\<rparr>)
      | (Inl Plan_Rejected, t) \<Rightarrow> (Inl Plan_Rejected, t)
      | (Inl Plan_Transport, t) \<Rightarrow>
          (let u = note_transport_failure env t
           in if left = 0 then (Inl Plan_Transport, u)
              else (case pass_circuit env u of
                 (Inl e, v) \<Rightarrow> (Inl e, v)
               | (Inr _, v) \<Rightarrow> plan_attempts env left v)))"

definition resilient_plan :: "planner_env \<Rightarrow> agent_plan planner_op" where
  "resilient_plan env = op_bind (pass_circuit env) (\<lambda>_. plan_attempts env (pn_attempts env))"

definition failure_name :: "plan_failure \<Rightarrow> string" where
  "failure_name e = (case e of Plan_Rejected \<Rightarrow> ''PlanningError'' | Plan_Transport \<Rightarrow> ''PlannerTransportError'')"

definition fallback_plan :: "planner_env \<Rightarrow> string \<Rightarrow> (plan_failure + agent_plan) \<Rightarrow> agent_plan planner_op" where
  "fallback_plan env primary offline s =
     (case resilient_plan env s of
        (Inr plan, t) \<Rightarrow> (Inr plan, t)
      | (Inl e, t) \<Rightarrow>
          (map_sum id (\<lambda>plan. plan\<lparr>ap_fallback_from := Some primary,
             ap_warnings := [''remote_planner_failed:'' @ failure_name e]\<rparr>) offline, t))"

section \<open>Lemmas\<close>

text \<open>A plan read from a payload: step \<open>i\<close> is the \<open>i\<close>-th, waits for earlier steps only and proposes a
  registered tool with arguments of its schema.\<close>

definition step_ok :: "nat \<Rightarrow> planned_call \<Rightarrow> bool" where
  "step_ok i c \<longleftrightarrow> pc_index c = i \<and> distinct (pc_predecessors c) \<and>
     (\<forall>p \<in> set (pc_predecessors c). 1 \<le> p \<and> p < int i) \<and>
     (\<exists>fields'. map_of tool_models (pc_tool c) = Some fields' \<and>
        set (map fst (pc_args c)) \<subseteq> set (map field_name fields') \<and>
        (\<forall>k lo hi. Text_Field k lo hi True \<in> set fields' \<longrightarrow>
           (\<exists>s. dict_get (pc_args c) k = Some (PStr s) \<and> lo \<le> length s \<and> length s \<le> hi)))"

lemma earlier_steps_bounds: "earlier_steps i ps = Some js \<Longrightarrow> p \<in> set js \<Longrightarrow> 1 \<le> p \<and> p < int i"
  by (induction i ps arbitrary: js rule: earlier_steps.induct) (auto split: if_splits)

lemma predecessors_of_ok:
  "predecessors_of i raw = Some js \<Longrightarrow> distinct js \<and> (\<forall>p \<in> set js. 1 \<le> p \<and> p < int i)"
  by (auto simp: predecessors_of_def split: option.splits pyval.splits if_splits dest: earlier_steps_bounds)

lemma read_field_name: "read_field args f = Some kv \<Longrightarrow> map fst kv = [field_name f] \<or> kv = []"
  by (cases f) (auto split: option.splits pyval.splits if_splits)

lemma read_fields_names: "read_fields args fs = Some out \<Longrightarrow> set (map fst out) \<subseteq> set (map field_name fs)"
proof (induction fs arbitrary: out)
  case (Cons f fs)
  then obtain kv rest where "read_field args f = Some kv" "read_fields args fs = Some rest" "out = kv @ rest"
    by (auto split: option.splits)
  then show ?case using Cons.IH[of rest] read_field_name[of args f kv] by auto
qed simp

lemma read_fields_required:
  assumes "read_fields args fs = Some out" "distinct (map field_name fs)" "Text_Field k lo hi True \<in> set fs"
  shows "\<exists>s. dict_get out k = Some (PStr s) \<and> lo \<le> length s \<and> length s \<le> hi"
  using assms
proof (induction fs arbitrary: out)
  case (Cons f fs)
  then obtain kv rest where r: "read_field args f = Some kv" "read_fields args fs = Some rest" "out = kv @ rest"
    by (auto split: option.splits)
  show ?case
  proof (cases "f = Text_Field k lo hi True")
    case True
    then show ?thesis using r by (auto simp: dict_get_def split: option.splits pyval.splits if_splits)
  next
    case False
    then have k: "Text_Field k lo hi True \<in> set fs" using Cons.prems(3) by simp
    have "k \<in> field_name ` set fs" by (rule image_eqI[OF _ k]) simp
    then have "field_name f \<noteq> k" using Cons.prems(2) by auto
    then have "map_of kv k = None" using read_field_name[OF r(1)] by (auto simp: map_of_eq_None_iff)
    then show ?thesis using Cons.IH[OF r(2) _ k] Cons.prems(2) r(3) by (simp add: dict_get_def map_add_def)
  qed
qed simp

lemma tool_models_distinct: "map_of tool_models tool = Some fs \<Longrightarrow> distinct (map field_name fs)"
  by (auto simp: tool_models_def split: if_splits)

lemma read_step_ok: "read_step i v = Some c \<Longrightarrow> step_ok i c"
proof -
  assume run: "read_step i v = Some c"
  obtain raw where raw: "v = PDict raw" using run by (cases v) (simp_all add: read_step_def)
  obtain tool args preds out where s: "predecessors_of i raw = Some preds" "validate_tool_args tool args = Some out"
      "c = \<lparr>pc_index = i, pc_tool = tool, pc_args = out, pc_predecessors = preds\<rparr>"
    using run unfolding read_step_def raw by (auto split: if_splits option.splits pyval.splits)
  obtain fs where fs: "map_of tool_models tool = Some fs" "read_fields args fs = Some out"
    using s(2) by (auto simp: validate_tool_args_def split: option.splits if_splits)
  show ?thesis
    using predecessors_of_ok[OF s(1)] fs read_fields_names[OF fs(2)]
      read_fields_required[OF fs(2) tool_models_distinct[OF fs(1)]]
    by (simp add: step_ok_def s(3))
qed

lemma read_steps_ok:
  "read_steps i vs = Some calls \<Longrightarrow> length calls = length vs \<and> (\<forall>j < length calls. step_ok (i + j) (calls ! j))"
proof (induction i vs arbitrary: calls rule: read_steps.induct)
  case (2 i v vs)
  obtain c rest where c: "read_step i v = Some c" "read_steps (Suc i) vs = Some rest" "calls = c # rest"
    using 2(2) by (auto split: option.splits)
  have IH: "length rest = length vs \<and> (\<forall>j < length rest. step_ok (Suc i + j) (rest ! j))"
    by (rule 2(1)[OF c(1,2)])
  have "step_ok (i + j) (calls ! j)" if "j < length calls" for j
    using that IH read_step_ok[OF c(1)] c(3) by (cases j) auto
  then show ?case using IH c(3) by simp
qed simp


end
