(* ===== verification/AgentFlow.thy ===== *)
theory AgentFlow
  imports AgentPlans SkillAdapters GatewayRuntime RouterPlanning
begin

text \<open>
  The governed agent, \<^verbatim>\<open>agent_demo/langgraph_agent/\<close>: the nodes of \<open>nodes.py\<close> (inspect the input,
  plan, execute the tools, finish), the routing of \<open>orchestrator.py\<close> and their order in
  \<open>agent.py\<close>. The nodes call the skill executor, the router and the tool gateway of the other
  theories. The analysis subagents call skills concurrently, so what those calls answer is an
  input; so are the planner, the capability retrieval, networkx, pydantic's reading of an input
  reference, fresh identifiers, the stored trace and which events the audit log accepts. Texts of
  answers, reasons, policy hits and risk levels of reports are not carried, nor the risk summaries
  of single sources, and the optional parts of an analysis are taken to be of their types.
\<close>

section \<open>State\<close>

record skill_note =
  sn_skill :: string
  sn_phase :: string
  sn_success :: bool

record tool_report =
  tr_tool :: string
  tr_decision :: decision
  tr_executed :: bool
  tr_labels :: "data_label list"

record agent_state =
  as_task :: string
  as_scenario :: "string option"
  as_role :: string
  as_tenant :: string
  as_user :: string
  as_agent :: string
  as_document :: string
  as_doc_source :: string
  as_package :: "string option"
  as_trace :: string
  as_analysis :: pydict
  as_blocked :: bool
  as_routing_failed :: bool
  as_router :: "router_plan option"
  as_execution :: "router_result option"
  as_planning_failed :: bool
  as_plan_id :: string
  as_calls :: "planned_call list"
  as_reports :: "tool_report list"
  as_labels :: "data_label list"
  as_notes :: "skill_note list"

datatype agent_event =
    Ev_Input_Detection pydict
  | Ev_Router_Plan string
  | Ev_Routing_Error
  | Ev_Planning_Error
  | Ev_Agent_Plan string "planned_call list"
  | Ev_Router_Execution decision
  | Ev_Router_Execution_Error
  | Ev_Tool_Decision tool_report
  | Ev_Final_Output string
  | Ev_Audit_Fail_Closed
  | Ev_Skill_Coverage "string list" "string list"

datatype agent_error =
    Agent_Log_Failed | Agent_Key_Error | Agent_Value_Error | Agent_Skill_Unknown | Agent_Gateway gw_error

record agent_world =
  aw_skills :: skill_state
  aw_gateway :: gateway
  aw_events :: "(string \<times> agent_event) list"

record call_ids =
  ci_request :: string
  ci_approval :: string
  ci_ticket :: string
  ci_nonce :: string
  ci_issued :: int
  ci_now :: int

record agent_env =
  ag_skills :: skill_env
  ag_registry :: skill_registry
  ag_gateway :: gw_env
  ag_trace :: string
  ag_sink :: "(string \<times> agent_event) list \<Rightarrow> string \<times> agent_event \<Rightarrow> bool"
  ag_planner :: "string \<Rightarrow> agent_plan option"
  ag_retrieve :: "string \<Rightarrow> (plan_env \<times> retrieval) option"
  ag_layers :: "sub_task list \<Rightarrow> sub_task list list option"
  ag_late :: "sub_task \<Rightarrow> bool"
  ag_sub_audit :: "sub_result \<Rightarrow> string option"
  ag_answers :: "string \<Rightarrow> nat \<Rightarrow> skill_response"
  ag_recorded :: "RouterExec.sub_result list"
  ag_reference :: "pydict \<Rightarrow> input_reference option"
  ag_ids :: "nat \<Rightarrow> call_ids"

type_synonym 'a agent_op = "(agent_world, agent_error, 'a) op"

definition agent_log :: "agent_env \<Rightarrow> agent_state \<Rightarrow> agent_event \<Rightarrow> unit agent_op" where
  "agent_log env st ev w =
     (if ag_sink env (aw_events w) (as_trace st, ev)
      then (Inr (), w\<lparr>aw_events := aw_events w @ [(as_trace st, ev)]\<rparr>)
      else (Inl Agent_Log_Failed, w))"

section \<open>Calling a skill\<close>

definition audit_role :: "string \<Rightarrow> string" where
  "audit_role role =
     (if role = ''admin'' then ''admin'' else if role = ''security_reviewer'' \<or> role = ''reviewer'' then ''reviewer''
      else if role = ''auditor'' then ''auditor''
      else if role = ''operator'' \<or> role = ''manager'' \<or> role = ''staff'' then ''operator'' else ''viewer'')"

definition opt_text :: "string option \<Rightarrow> pyval" where
  "opt_text x = (case x of None \<Rightarrow> PNone | Some s \<Rightarrow> PStr s)"

definition runtime_context :: "agent_state \<Rightarrow> string \<Rightarrow> pydict" where
  "runtime_context st phase =
     [(''principal'', PDict [(''sub'', PStr (as_user st)), (''tenant_id'', PStr (as_tenant st)),
         (''role'', PStr (as_role st)), (''scopes'', PList [])]),
      (''audit_role'', PStr (audit_role (as_role st))), (''phase'', PStr phase),
      (''scenario'', opt_text (as_scenario st))]"

definition call_skill ::
    "agent_env \<Rightarrow> agent_state \<Rightarrow> string \<Rightarrow> pydict \<Rightarrow> skill_stage \<Rightarrow> string \<Rightarrow> skill_response agent_op" where
  "call_skill env st skill data stage phase w =
     (case execute_skill (ag_skills env) (ag_registry env)
             \<lparr>sq_trace = as_trace st, sq_skill = skill, sq_input = data,
              sq_context = runtime_context st phase, sq_stage = stage\<rparr> (aw_skills w) of
        (None, s) \<Rightarrow> (Inl Agent_Skill_Unknown, w\<lparr>aw_skills := s\<rparr>)
      | (Some r, s) \<Rightarrow> (Inr r, w\<lparr>aw_skills := s\<rparr>))"

definition skill_summary :: "skill_response \<Rightarrow> string \<Rightarrow> skill_note" where
  "skill_summary r phase = \<lparr>sn_skill = sp_skill r, sn_phase = phase, sn_success = sp_success r\<rparr>"

definition usable :: "skill_response \<Rightarrow> bool" where
  "usable r \<longleftrightarrow> sp_success r \<and> sp_result r \<noteq> None"

text \<open>\<open>result[key]\<close> and \<open>DECISION_RANK[str(result["decision"])]\<close>.\<close>

definition result_decision :: "pydict \<Rightarrow> decision option" where
  "result_decision d = (case dict_get d ''decision'' of None \<Rightarrow> None | Some v \<Rightarrow> decision_of (py_str v))"

definition result_risk :: "pydict \<Rightarrow> risk_level option" where
  "result_risk d = (case dict_get d ''risk_level'' of None \<Rightarrow> None | Some v \<Rightarrow> risk_of (py_str v))"

section \<open>Input\<close>

definition failed_analysis :: pydict where
  "failed_analysis =
     [(''risk_type'', PStr ''skill_runtime_failure''), (''risk_level'', PStr ''critical''),
      (''action'', PStr ''block''), (''source_decisions'', PDict []),
      (''provenance'', PDict [(''source_count'', PInt 0), (''source_ids'', PList []), (''source_hashes'', PDict [])]),
      (''layer_evidence'', PDict []), (''evidence_graph'', PDict [(''nodes'', PList []), (''edges'', PList [])])]"

definition document_input :: "agent_state \<Rightarrow> pydict" where
  "document_input st =
     [(''text'', PStr (as_document st)), (''source'', PStr (as_doc_source st)),
      (''origin'', PStr (''agent:'' @ as_doc_source st))]"

text \<open>What a set test accepts.\<close>

definition hashable :: "pyval \<Rightarrow> bool" where
  "hashable v = (case v of PList _ \<Rightarrow> False | PDict _ \<Rightarrow> False | _ \<Rightarrow> True)"

definition inspect_input :: "agent_env \<Rightarrow> agent_state \<Rightarrow> agent_state agent_op" where
  "inspect_input env st =
     op_bind (call_skill env st ''promptshield-gov'' [(''text'', PStr (as_task st)), (''source'', PStr ''user_input'')]
         Stage_User_Input ''input_user'') (\<lambda>user.
     op_bind (if as_document st = [] then op_return None
              else op_bind (call_skill env st ''promptshield-gov'' (document_input st) Stage_Document_Upload ''input_document'')
                (\<lambda>r. op_return (Some r))) (\<lambda>doc.
     op_bind (call_skill env st ''promptshield-gov''
         [(''text'', PStr (as_task st)), (''source'', PStr ''user_input''),
          (''additional_sources'', PList (if as_document st = [] then [] else [PDict (document_input st)]))]
         Stage_Direct ''input_fusion'') (\<lambda>bundle.
       let analysis = (if \<not> sp_success user \<or> \<not> sp_success bundle \<or> (case doc of None \<Rightarrow> False | Some r \<Rightarrow> \<not> sp_success r)
             then failed_analysis else (case sp_result bundle of None \<Rightarrow> [] | Some d \<Rightarrow> d));
           notes = as_notes st @ [skill_summary user ''input_user''] @
             (case doc of None \<Rightarrow> [] | Some r \<Rightarrow> [skill_summary r ''input_document'']) @ [skill_summary bundle ''input_fusion'']
       in op_bind (agent_log env st (Ev_Input_Detection analysis)) (\<lambda>_.
            case dict_get analysis ''action'' of
              None \<Rightarrow> op_raise Agent_Key_Error
            | Some a \<Rightarrow>
                if \<not> hashable a then op_raise Agent_Value_Error
                else op_return (st\<lparr>as_analysis := analysis, as_notes := notes,
                  as_blocked := (a = PStr ''block'' \<or> a = PStr ''isolate'')\<rparr>)))))"

section \<open>Routing and planning\<close>

definition route_request :: plan_request where
  "route_request = \<lparr>pr_parallel = True, pr_max_sub_agents = 8\<rparr>"

definition routing_error :: "agent_env \<Rightarrow> agent_state \<Rightarrow> agent_state agent_op" where
  "routing_error env st =
     op_bind (agent_log env st Ev_Routing_Error)
       (\<lambda>_. op_return (st\<lparr>as_router := None, as_routing_failed := True\<rparr>))"

definition route_task :: "agent_env \<Rightarrow> agent_state \<Rightarrow> agent_state agent_op" where
  "route_task env st =
     (case ag_retrieve env (as_task st) of
        None \<Rightarrow> routing_error env st
      | Some (penv, rv) \<Rightarrow>
          (case route_plan penv route_request rv (as_trace st) of
             Inl _ \<Rightarrow> routing_error env st
           | Inr plan \<Rightarrow>
               op_bind (op_try (agent_log env st (Ev_Router_Plan (rp_plan_id plan))))
                 (\<lambda>r. case r of Inl _ \<Rightarrow> routing_error env st
                    | Inr _ \<Rightarrow> op_return (st\<lparr>as_router := Some plan, as_routing_failed := False\<rparr>))))"

definition plan_task :: "agent_env \<Rightarrow> agent_state \<Rightarrow> agent_state agent_op" where
  "plan_task env st =
     (case ag_planner env (as_task st) of
        None \<Rightarrow>
          op_bind (agent_log env st Ev_Planning_Error)
            (\<lambda>_. op_return (st\<lparr>as_planning_failed := True, as_calls := []\<rparr>))
      | Some plan \<Rightarrow>
          op_bind (agent_log env st (Ev_Agent_Plan (ap_id plan) (ap_steps plan)))
            (\<lambda>_. op_return (st\<lparr>as_planning_failed := False, as_plan_id := ap_id plan, as_calls := ap_steps plan\<rparr>)))"

section \<open>The analysis subagents\<close>

definition external_tools :: "string list" where
  "external_tools = [''send_email'', ''api_call'', ''browser_visit'']"

text \<open>The decisions and risks of usable responses; \<open>None\<close> when one is not of the enumeration.\<close>

definition response_verdicts :: "skill_response list \<Rightarrow> (decision \<times> risk_level) list option" where
  "response_verdicts rs =
     all_some (map (\<lambda>r. case sp_result r of None \<Rightarrow> None
         | Some d \<Rightarrow> (case (result_decision d, result_risk d) of (Some x, Some y) \<Rightarrow> Some (x, y) | _ \<Rightarrow> None)) rs)"

definition worst_verdict :: "(decision \<times> risk_level) list \<Rightarrow> pydict \<Rightarrow> sub_outcome" where
  "worst_verdict vs out =
     \<lparr>so_decision = the (max_by decision_rank (map fst vs)), so_risk = the (max_by risk_rank (map snd vs)), so_output = out\<rparr>"

definition guard_calls :: "agent_env \<Rightarrow> agent_state \<Rightarrow> string \<Rightarrow> handler_run" where
  "guard_calls env st phase =
     (let n = length (as_calls st); rs = map (ag_answers env phase) [0..<n]; count = (''tool_call_count'', PInt (int n))
      in if n = 0 then Returned \<lparr>so_decision = Allow_With_Log, so_risk = Low, so_output = [count]\<rparr>
         else if \<not> list_all usable rs then Returned \<lparr>so_decision = Block, so_risk = Critical, so_output = [count]\<rparr>
         else (case response_verdicts rs of
            None \<Rightarrow> Raised ''ValueError''
          | Some vs \<Rightarrow>
              if list_ex (\<lambda>r. dict_get (the (sp_result r)) ''policy_hit'' = None) rs then Raised ''KeyError''
              else Returned (worst_verdict vs [count])))"

text \<open>\<open>compliance\<close>: the guard's outcome, one sensitive-data check of the external calls and one
  compliance check of every call (of a process submission when there is none).\<close>

definition compliance_agent :: "agent_env \<Rightarrow> agent_state \<Rightarrow> handler_run" where
  "compliance_agent env st =
     (case guard_calls env st ''router_compliance'' of
        Returned g \<Rightarrow>
          (let external = list_ex (\<lambda>c. pc_tool c \<in> set external_tools) (as_calls st);
               rs = (if external then [ag_answers env ''router_sensitive_data'' 0] else []) @
                 map (ag_answers env ''router_compliance_check'') [0..<max 1 (length (as_calls st))]
           in if external \<and> (case sp_result (ag_answers env ''router_sensitive_data'' 0) of None \<Rightarrow> False | Some [] \<Rightarrow> False
                 | Some d \<Rightarrow> (case py_list (get_or d ''data_labels'' (PList [])) of Inl _ \<Rightarrow> True | Inr _ \<Rightarrow> False))
              then Raised ''TypeError''
              else if \<not> list_all usable rs then Returned \<lparr>so_decision = Block, so_risk = Critical, so_output = []\<rparr>
              else (case response_verdicts (filter (\<lambda>r. sp_result r \<noteq> Some []) rs) of
                 None \<Rightarrow> Raised ''ValueError''
               | Some vs \<Rightarrow> Returned (worst_verdict ((so_decision g, so_risk g) # vs) (so_output g))))
      | other \<Rightarrow> other)"

definition document_agent :: "agent_state \<Rightarrow> handler_run" where
  "document_agent st =
     (let action = py_str (get_or (as_analysis st) ''action'' (PStr ''block''));
          d = (if action = ''allow'' then Allow_With_Log else if action = ''require_approval'' then Require_Approval
               else if action = ''mask_and_allow'' then Mask_And_Allow else Block)
      in case risk_of (py_str (get_or (as_analysis st) ''risk_level'' (PStr ''critical''))) of
           None \<Rightarrow> Raised ''ValueError''
         | Some r \<Rightarrow> Returned \<lparr>so_decision = d, so_risk = r, so_output = [(''action'', PStr action)]\<rparr>)"

definition skill_scan_agent :: "agent_env \<Rightarrow> agent_state \<Rightarrow> handler_run" where
  "skill_scan_agent env st =
     (if \<not> set_field (as_package st) then Returned \<lparr>so_decision = Require_Approval, so_risk = High, so_output = []\<rparr>
      else (let r = ag_answers env ''router_supply_chain'' 0 in
        if \<not> usable r then Returned \<lparr>so_decision = Block, so_risk = Critical, so_output = []\<rparr>
        else (case dict_get (the (sp_result r)) ''risk_level'' of
           None \<Rightarrow> Raised ''KeyError''
         | Some v \<Rightarrow>
             (case risk_of (py_str v) of
                None \<Rightarrow> Raised ''ValueError''
              | Some k \<Rightarrow>
                  if dict_get (the (sp_result r)) ''risk_score'' = None \<or> dict_get (the (sp_result r)) ''recommendation'' = None
                  then Raised ''KeyError''
                  else Returned \<lparr>so_decision = (if v = PStr ''high'' \<or> v = PStr ''critical'' then Block else Allow_With_Log),
                  so_risk = k, so_output = []\<rparr>))))"

definition audit_outcome :: "agent_env \<Rightarrow> handler_run" where
  "audit_outcome env =
     Returned \<lparr>so_decision = Allow_With_Log,
       so_risk = (case max_by risk_rank (map sr_risk (ag_recorded env)) of None \<Rightarrow> Low | Some r \<Rightarrow> r),
       so_output = [(''recorded_subtasks'', PInt (int (length (ag_recorded env))))]\<rparr>"

definition agent_handler :: "agent_env \<Rightarrow> agent_state \<Rightarrow> string \<Rightarrow> (sub_task \<Rightarrow> handler_run) option" where
  "agent_handler env st a =
     map_option (\<lambda>run t. if ag_late env t then Timed_Out else run)
       (if a = ''agent.tool_risk_agent'' then Some (guard_calls env st ''router_tool_risk'')
        else if a = ''agent.compliance_agent'' then Some (compliance_agent env st)
        else if a = ''agent.document_risk_agent'' then Some (document_agent st)
        else if a = ''agent.gov_rag_agent''
          then Some (Returned \<lparr>so_decision = Allow_With_Log, so_risk = Low, so_output = []\<rparr>)
        else if a = ''agent.skill_scan_agent'' then Some (skill_scan_agent env st)
        else if a = ''agent.audit_agent'' then Some (audit_outcome env) else None)"

definition analysis_env :: "agent_env \<Rightarrow> agent_state \<Rightarrow> router_env" where
  "analysis_env env st = \<lparr>re_handler = agent_handler env st, re_audit = ag_sub_audit env, re_layers = ag_layers env\<rparr>"

definition execution_error :: "agent_env \<Rightarrow> agent_state \<Rightarrow> agent_state agent_op" where
  "execution_error env st =
     op_bind (agent_log env st Ev_Router_Execution_Error)
       (\<lambda>_. op_return (st\<lparr>as_routing_failed := True, as_execution := None\<rparr>))"

text \<open>\<open>execute_route\<close>; the notes of the analysis phase are those its calls left.\<close>

definition execute_route :: "agent_env \<Rightarrow> skill_note list \<Rightarrow> agent_state \<Rightarrow> agent_state agent_op" where
  "execute_route env notes st =
     (case as_router st of
        None \<Rightarrow> op_return (st\<lparr>as_execution := None\<rparr>)
      | Some plan \<Rightarrow>
          if as_routing_failed st then op_return (st\<lparr>as_execution := None\<rparr>)
          else (let st' = st\<lparr>as_notes := as_notes st @ notes\<rparr> in
            case execute_plan (analysis_env env st) plan of
              Inl _ \<Rightarrow> execution_error env st'
            | Inr res \<Rightarrow>
                op_bind (op_try (agent_log env st (Ev_Router_Execution (rr_decision res))))
                  (\<lambda>r. case r of Inl _ \<Rightarrow> execution_error env st'
                     | Inr _ \<Rightarrow> op_return (st'\<lparr>as_execution := Some res\<rparr>))))"

section \<open>Tools\<close>

definition source_dict :: "pydict \<Rightarrow> pyval \<Rightarrow> pydict option" where
  "source_dict hashes node =
     (case node of
        PDict d \<Rightarrow>
          (case (dict_get d ''id'', dict_get d ''source_type'') of
             (Some i, Some ty) \<Rightarrow>
               Some [(''source_id'', i), (''source_type'', ty),
                     (''content_hash'', case i of PStr s \<Rightarrow> get_or_none hashes s | _ \<Rightarrow> PNone),
                     (''trust_score'', get_or d ''trust_score'' (PFloat ''0.5'')),
                     (''data_labels'', PList [PStr (if ty = PStr ''user_input'' then ''public'' else ''internal'')])]
           | _ \<Rightarrow> None)
      | _ \<Rightarrow> None)"

definition is_source_node :: "pyval \<Rightarrow> bool" where
  "is_source_node node = (case node of PDict d \<Rightarrow> dict_get d ''node_type'' = Some (PStr ''source'') | _ \<Rightarrow> True)"

definition source_dicts :: "pydict \<Rightarrow> pydict list option" where
  "source_dicts analysis =
     (case (get_or analysis ''provenance'' (PDict []), get_or analysis ''evidence_graph'' (PDict [])) of
        (PDict prov, PDict graph) \<Rightarrow>
          (case (get_or prov ''source_hashes'' (PDict []), get_or graph ''nodes'' (PList [])) of
             (PDict hashes, PList nodes) \<Rightarrow> all_some (map (source_dict hashes) (filter is_source_node nodes))
           | _ \<Rightarrow> None)
      | _ \<Rightarrow> None)"

definition agent_graph :: "agent_env \<Rightarrow> agent_state \<Rightarrow> task_graph" where
  "agent_graph env st =
     \<lparr>plan_id = (if as_plan_id st = [] then ''PLAN-'' @ as_trace st else as_plan_id st),
      steps = map (\<lambda>c. \<lparr>step_index = int (pc_index c), step_tool = pc_tool c,
         args_hash = tool_args_fingerprint (ge_sha (ag_gateway env)) (pc_args c),
         predecessors = pc_predecessors c, max_calls = 1\<rparr>) (as_calls st)\<rparr>"

definition agent_user :: "agent_state \<Rightarrow> principal" where
  "agent_user st = \<lparr>principal_id = as_user st, principal_kind = User, p_role = as_role st,
     tenant_id = as_tenant st, attributes = []\<rparr>"

definition agent_self :: "agent_state \<Rightarrow> principal" where
  "agent_self st = \<lparr>principal_id = as_agent st, principal_kind = Agent, p_role = ''orchestrator'',
     tenant_id = as_tenant st, attributes = []\<rparr>"

definition call_context ::
    "agent_env \<Rightarrow> agent_state \<Rightarrow> input_reference list \<Rightarrow> data_label list \<Rightarrow> nat \<Rightarrow> gateway_context" where
  "call_context env st sources labels step =
     \<lparr>trace_id = Some (as_trace st), task_id = Some (as_trace st), ctx_user = Some (agent_user st),
      ctx_agent = Some (agent_self st), user_role = Some (as_role st), scenario = as_scenario st,
      input_sources = sources, data_labels = labels,
      data_scopes = [''task_input'', ''simulated_result'', plan_id (agent_graph env st)],
      authorized_recipients = [], authorized_domains = [], ctx_policy_version = None,
      capability_ticket = None, parent_request_id = None, task_step = int step,
      ctx_task_graph = Some (agent_graph env st), metadata = []\<rparr>"

text \<open>The same context as the dictionary the guard skill is given.\<close>

definition principal_payload :: "principal \<Rightarrow> string \<Rightarrow> pyval" where
  "principal_payload p kind =
     PDict [(''principal_id'', PStr (principal_id p)), (''principal_type'', PStr kind),
            (''role'', PStr (p_role p)), (''tenant_id'', PStr (tenant_id p))]"

definition graph_payload :: "task_graph \<Rightarrow> pyval" where
  "graph_payload g =
     PDict [(''plan_id'', PStr (plan_id g)),
            (''steps'', PList (map (\<lambda>s. PDict [(''step_index'', PInt (step_index s)), (''tool_name'', PStr (step_tool s)),
               (''args_hash'', PStr (args_hash s)), (''predecessors'', PList (map PInt (predecessors s))),
               (''max_calls'', PInt (max_calls s))]) (steps g)))]"

definition context_payload ::
    "agent_env \<Rightarrow> agent_state \<Rightarrow> pydict list \<Rightarrow> data_label list \<Rightarrow> nat \<Rightarrow> pydict" where
  "context_payload env st sources labels step =
     [(''trace_id'', PStr (as_trace st)), (''task_id'', PStr (as_trace st)),
      (''user'', principal_payload (agent_user st) ''user''), (''agent'', principal_payload (agent_self st) ''agent''),
      (''user_role'', PStr (as_role st)), (''scenario'', opt_text (as_scenario st)),
      (''input_sources'', PList (map PDict sources)),
      (''data_labels'', PList (map (\<lambda>l. PStr (label_value l)) labels)),
      (''data_scopes'', PList (map PStr [''task_input'', ''simulated_result'', plan_id (agent_graph env st)])),
      (''task_step'', PInt (int step)), (''task_graph'', graph_payload (agent_graph env st))]"

fun first_text :: "pydict \<Rightarrow> string list \<Rightarrow> string" where
  "first_text args [] = []"
| "first_text args (k # ks) =
     (case dict_get args k of Some (PStr s) \<Rightarrow> if strip s \<noteq> [] then s else first_text args ks | _ \<Rightarrow> first_text args ks)"

definition tool_destination :: "planned_call \<Rightarrow> string" where
  "tool_destination c = first_text (pc_args c) [''recipient'', ''to'', ''url'', ''endpoint'', ''destination'']"

definition tool_content :: "agent_state \<Rightarrow> planned_call \<Rightarrow> string" where
  "tool_content st c =
     join [CHR 0x0A] (filter (\<lambda>p. p \<noteq> []) ([as_task st, as_document st] @
       concat (map (\<lambda>k. case dict_get (pc_args c) k of Some (PStr s) \<Rightarrow> [s] | _ \<Rightarrow> [])
         [''content'', ''body'', ''data'', ''attachment_summary''])))"

text \<open>\<open>_run_tool_context_guards\<close>\<close>

definition compliance_stage :: "string \<Rightarrow> skill_stage option" where
  "compliance_stage tool =
     (if tool \<in> {''send_email'', ''api_call''} then Some Stage_External_Send
      else if tool \<in> {''file_write'', ''db_query'', ''export_file''} then Some Stage_Data_Export
      else if tool \<in> {''db_write'', ''shell_exec'', ''file_delete'', ''process_submit''} then Some Stage_Process_Action
      else None)"

definition check_compliance ::
    "agent_env \<Rightarrow> agent_state \<Rightarrow> planned_call \<Rightarrow> skill_stage \<Rightarrow> pyval list \<Rightarrow> skill_response agent_op" where
  "check_compliance env st c stage labels =
     call_skill env st ''compliance-gov''
       [(''operation'', PStr (pc_tool c)),
        (''scenario'', PStr (case as_scenario st of None \<Rightarrow> ''None'' | Some s \<Rightarrow> s)),
        (''destination'', PStr (tool_destination c)), (''data_labels'', PList labels)] stage ''tool_compliance''"

definition run_context_guards ::
    "agent_env \<Rightarrow> agent_state \<Rightarrow> planned_call \<Rightarrow> data_label list \<Rightarrow> skill_response list agent_op" where
  "run_context_guards env st c labels =
     (let given = map (\<lambda>l. PStr (label_value l)) labels in
      case compliance_stage (pc_tool c) of
        None \<Rightarrow> op_return []
      | Some stage \<Rightarrow>
          if stage = Stage_External_Send then
            op_bind (call_skill env st ''sensitivedata-gov''
                [(''content'', PStr (tool_content st c)), (''destination'', PStr (tool_destination c)),
                 (''operation'', PStr (pc_tool c)), (''data_labels'', PList given), (''allow_masking'', PBool False)]
                stage ''tool_sensitive_data'') (\<lambda>sens.
              case (case sp_result sens of None \<Rightarrow> Inr given | Some [] \<Rightarrow> Inr given
                      | Some d \<Rightarrow> py_list (get_or d ''data_labels'' (PList given))) of
                Inl _ \<Rightarrow> op_raise Agent_Value_Error
              | Inr governed \<Rightarrow> op_bind (check_compliance env st c stage governed) (\<lambda>comp. op_return [sens, comp]))
          else op_bind (check_compliance env st c stage given) (\<lambda>comp. op_return [comp]))"

text \<open>The verdict of the context guards: a block when one is unusable, else the worst result.\<close>

definition context_decision :: "skill_response list \<Rightarrow> agent_error + decision" where
  "context_decision guards =
     (if guards = [] then Inr Allow
      else if \<not> list_all usable guards then Inr Block
      else (case all_some (map result_decision (filter (\<lambda>d. d \<noteq> []) (List.map_filter sp_result guards))) of
         None \<Rightarrow> Inl Agent_Key_Error
       | Some ds \<Rightarrow> (case max_by decision_rank ds of None \<Rightarrow> Inl Agent_Value_Error | Some d \<Rightarrow> Inr d)))"

definition in_gateway :: "'a gw_op \<Rightarrow> 'a agent_op" where
  "in_gateway = op_on aw_gateway (\<lambda>t w. w\<lparr>aw_gateway := t\<rparr>) Agent_Gateway"

definition label_of :: "string \<Rightarrow> data_label option" where
  "label_of s = find (\<lambda>l. label_value l = s) [Public, Internal, Confidential, Restricted, Credential]"

text \<open>A ticket when the preview permits, then the gateway's own decision on the call.\<close>

definition call_gateway ::
    "agent_env \<Rightarrow> gateway_context \<Rightarrow> planned_call \<Rightarrow> bool \<Rightarrow> call_ids \<Rightarrow> call_outcome agent_op" where
  "call_gateway env ctx c permitted ids =
     (let req = \<lparr>tool_name = pc_tool c, tool_args = pc_args c, req_context = ctx\<rparr> in
      op_bind (if permitted
          then op_bind (in_gateway (issue_tool_capability (ag_gateway env) req 300 1 (ci_issued ids) (ci_ticket ids) (ci_nonce ids)))
                 (\<lambda>(_, ticket). op_return (ctx\<lparr>capability_ticket := Some ticket\<rparr>))
          else op_return ctx) (\<lambda>ctx'.
        in_gateway (guarded_tool_call (ag_gateway env) (req\<lparr>req_context := ctx'\<rparr>) (ci_request ids) (ci_approval ids) (ci_now ids))))"

definition refuse_call :: "agent_env \<Rightarrow> agent_state \<Rightarrow> planned_call \<Rightarrow> decision \<Rightarrow> data_label list \<Rightarrow> tool_report agent_op" where
  "refuse_call env st c d labels =
     (let rep = \<lparr>tr_tool = pc_tool c, tr_decision = d, tr_executed = False, tr_labels = labels\<rparr>
      in op_bind (agent_log env st (Ev_Tool_Decision rep)) (\<lambda>_. op_return rep))"

definition outcome_report :: "planned_call \<Rightarrow> call_outcome \<Rightarrow> tool_report" where
  "outcome_report c out =
     \<lparr>tr_tool = pc_tool c, tr_decision = oc_decision out, tr_executed = oc_executed out,
      tr_labels = List.map_filter label_of (oc_labels out)\<rparr>"

text \<open>One iteration of the loop: the report, the notes and the labels the next call starts from.\<close>

definition run_agent_call ::
    "agent_env \<Rightarrow> agent_state \<Rightarrow> pydict list \<Rightarrow> nat \<Rightarrow> planned_call \<Rightarrow> data_label list \<Rightarrow>
     (tool_report \<times> skill_note list \<times> data_label list) agent_op" where
  "run_agent_call env st sources step c labels =
     op_bind (call_skill env st ''mcpguard-gov''
         [(''tool_name'', PStr (pc_tool c)), (''tool_args'', PDict (pc_args c)),
          (''context'', PDict (context_payload env st sources labels step))] Stage_Tool_Call ''tool_execution'') (\<lambda>guard.
       if \<not> usable guard then
         op_bind (refuse_call env st c Block labels) (\<lambda>rep. op_return (rep, [skill_summary guard ''tool_execution''], labels))
       else
         op_bind (run_context_guards env st c labels) (\<lambda>guards.
           let preview = the (sp_result guard);
               notes = skill_summary guard ''tool_execution'' # map (\<lambda>r. skill_summary r ''tool_context_guard'') guards
           in case context_decision guards of
                Inl e \<Rightarrow> op_raise e
              | Inr d \<Rightarrow>
                  if d = Block \<or> d = Require_Approval then
                    (case result_decision preview of
                       None \<Rightarrow> op_raise Agent_Key_Error
                     | Some pd \<Rightarrow>
                         op_bind (refuse_call env st c (the (max_by decision_rank [pd, d])) labels)
                           (\<lambda>rep. op_return (rep, notes, labels)))
                  else
                    (case (dict_get preview ''decision'', all_some (map (ag_reference env) sources)) of
                       (Some v, Some refs) \<Rightarrow>
                         op_bind (call_gateway env (call_context env st refs labels step) c
                             (v \<noteq> PStr ''block'' \<and> v \<noteq> PStr ''require_approval'') (ag_ids env step)) (\<lambda>out.
                           op_return (outcome_report c out, notes, join_labels [labels, tr_labels (outcome_report c out)]))
                     | _ \<Rightarrow> op_raise Agent_Value_Error)))"

fun run_agent_calls ::
    "agent_env \<Rightarrow> agent_state \<Rightarrow> pydict list \<Rightarrow> nat \<Rightarrow> planned_call list \<Rightarrow> data_label list \<Rightarrow>
     (tool_report list \<times> skill_note list \<times> data_label list) agent_op" where
  "run_agent_calls env st sources step [] labels = op_return ([], [], labels)"
| "run_agent_calls env st sources step (c # cs) labels =
     op_bind (run_agent_call env st sources step c labels) (\<lambda>(rep, notes, labels').
     op_bind (run_agent_calls env st sources (Suc step) cs labels') (\<lambda>(reps, more_notes, final).
       op_return (rep # reps, notes @ more_notes, final)))"

definition input_labels :: "agent_state \<Rightarrow> data_label list" where
  "input_labels st = (if as_document st = [] then [Public] else [Internal])"

definition execute_tools :: "agent_env \<Rightarrow> agent_state \<Rightarrow> agent_state agent_op" where
  "execute_tools env st =
     (if as_planning_failed st \<or> as_routing_failed st then op_return (st\<lparr>as_reports := []\<rparr>)
      else (case source_dicts (as_analysis st) of
         None \<Rightarrow> op_raise Agent_Value_Error
       | Some sources \<Rightarrow>
           op_bind (run_agent_calls env st sources 1 (as_calls st) (input_labels st)) (\<lambda>(reps, notes, labels).
             op_return (st\<lparr>as_reports := reps, as_notes := as_notes st @ notes, as_labels := labels\<rparr>))))"

section \<open>Finishing\<close>

definition router_decision :: "agent_state \<Rightarrow> decision option" where
  "router_decision st = map_option rr_decision (as_execution st)"

definition run_status :: "agent_state \<Rightarrow> string" where
  "run_status st =
     (if as_routing_failed st then ''routing_failed''
      else if as_planning_failed st then ''planning_failed''
      else if as_blocked st then ''blocked''
      else if router_decision st = Some Block \<and> as_reports st = [] then ''blocked''
      else if list_ex (\<lambda>r. tr_decision r = Block) (as_reports st) then ''partially_blocked''
      else if router_decision st = Some Require_Approval \<or> list_ex (\<lambda>r. tr_decision r = Require_Approval) (as_reports st)
        then ''pending_approval''
      else ''completed'')"

definition post_stage :: "string \<Rightarrow> skill_stage" where
  "post_stage verdict =
     (if verdict = ''pending_approval'' then Stage_Approval
      else if verdict = ''completed'' then Stage_Task_Completed else Stage_Task_Blocked)"

definition governed_tools :: "string list" where
  "governed_tools = external_tools @ [''file_write'', ''db_query'', ''db_write'', ''shell_exec'', ''file_delete'', ''export_file'']"

definition expected_skills :: "agent_state \<Rightarrow> string list" where
  "expected_skills st =
     (let tools = map pc_tool (as_calls st); tasks = (case as_router st of None \<Rightarrow> [] | Some p \<Rightarrow> rp_tasks p)
      in [''promptshield-gov'', ''traceaudit-gov''] @ (if tools = [] then [] else [''mcpguard-gov'']) @
         (if set tools \<inter> set external_tools = {} then [] else [''sensitivedata-gov'']) @
         (if set tools \<inter> set governed_tools \<noteq> {} \<or> list_ex (\<lambda>t. st_agent t = ''agent.compliance_agent'') tasks
            then [''compliance-gov''] else []) @
         (if map_option rp_intent (as_router st) = Some ''intent.skill_security_scan'' then [''skillscan-gov''] else []))"

record agent_result =
  ar_status :: string
  ar_expected :: "string list"
  ar_completed :: "string list"
  ar_toolguard :: "nat \<times> nat"
  ar_reports :: "tool_report list"

definition finish_run :: "agent_env \<Rightarrow> agent_state \<Rightarrow> agent_result agent_op" where
  "finish_run env st =
     (let verdict = run_status st in
      op_bind (agent_log env st (Ev_Final_Output verdict)) (\<lambda>_.
      op_bind (call_skill env st ''traceaudit-gov'' [] (post_stage verdict) ''post_audit'') (\<lambda>post.
      op_bind (if sp_success post then op_return verdict
               else op_bind (agent_log env st Ev_Audit_Fail_Closed) (\<lambda>_.
                    op_bind (agent_log env st (Ev_Final_Output ''blocked'')) (\<lambda>_. op_return ''blocked''))) (\<lambda>final.
        let notes = as_notes st @ [skill_summary post ''post_audit''];
            done = filter (\<lambda>k. list_ex (\<lambda>n. sn_success n \<and> sn_skill n = k) notes) (expected_skills st);
            guarded = length (filter (\<lambda>n. sn_phase n = ''tool_execution'' \<and> sn_success n) notes);
            calls = length (as_calls st)
        in op_bind (agent_log env st (Ev_Skill_Coverage (expected_skills st) done)) (\<lambda>_.
             op_return \<lparr>ar_status = final, ar_expected = expected_skills st, ar_completed = done,
               ar_toolguard = (if calls = 0 then (1, 1) else (min guarded calls, calls)), ar_reports = as_reports st\<rparr>)))))"

section \<open>The run\<close>

record agent_request =
  aq_task :: string
  aq_scenario :: string
  aq_role :: string
  aq_tenant :: string
  aq_user :: "string option"
  aq_agent :: string
  aq_document :: string
  aq_doc_source :: string
  aq_package :: "string option"

definition start_trace :: "agent_env \<Rightarrow> agent_request \<Rightarrow> agent_state" where
  "start_trace env q =
     \<lparr>as_task = aq_task q, as_scenario = Some (aq_scenario q), as_role = aq_role q, as_tenant = aq_tenant q,
      as_user = (if set_field (aq_user q) then the (aq_user q) else ''demo-user:'' @ aq_role q),
      as_agent = aq_agent q, as_document = aq_document q, as_doc_source = aq_doc_source q,
      as_package = aq_package q, as_trace = ag_trace env, as_analysis = [], as_blocked = False,
      as_routing_failed = False, as_router = None, as_execution = None, as_planning_failed = False,
      as_plan_id = [], as_calls = [], as_reports = [], as_labels = [], as_notes = []\<rparr>"

definition run_agent :: "agent_env \<Rightarrow> skill_note list \<Rightarrow> agent_request \<Rightarrow> agent_result agent_op" where
  "run_agent env notes q =
     op_bind (inspect_input env (start_trace env q)) (\<lambda>st.
       if as_blocked st then finish_run env st
       else op_bind (route_task env st) (\<lambda>st.
         if as_routing_failed st then finish_run env st
         else op_bind (plan_task env st) (\<lambda>st.
              op_bind (execute_route env notes st) (\<lambda>st.
              op_bind (execute_tools env st) (\<lambda>st. finish_run env st)))))"


end
