(* ===== verification/AgentRuns.thy ===== *)
theory AgentRuns
  imports AgentFlow SkillProps
begin

text \<open>
  How a run of the agent is taken apart: what its phases leave alone, the two outcomes of a tool
  call (\<open>run_agent_call_cases\<close>: refused, or decided by the gateway), the calls of a run one by one
  (\<open>run_agent_calls_nth\<close>), and the runs that stop early and those that reach their tools
  (\<open>run_agent_cases\<close>).
\<close>

section \<open>What the steps leave alone\<close>

text \<open>The gateway is changed by the tool calls only.\<close>

abbreviation gateway_is :: "gateway \<Rightarrow> agent_world \<Rightarrow> bool" where
  "gateway_is g w \<equiv> aw_gateway w = g"

lemma call_skill_gateway [intro]: "op_keeps (gateway_is g) (call_skill env st k data stage ph)"
  by (auto simp: op_keeps_def call_skill_def split: prod.splits option.splits)

lemma agent_log_gateway [intro]: "op_keeps (gateway_is g) (agent_log env st ev)"
  by (auto simp: op_keeps_def agent_log_def split: if_splits)

lemma op_keeps_try: "op_keeps P m \<Longrightarrow> op_keeps P (op_try m)"
  by (auto simp: op_keeps_def op_try_eq)

lemma refuse_call_gateway [intro]: "op_keeps (gateway_is g) (refuse_call env st c d labels)"
  unfolding refuse_call_def Let_def by (intro op_keeps_bind) auto

lemma check_compliance_gateway [intro]: "op_keeps (gateway_is g) (check_compliance env st c stage ls)"
  unfolding check_compliance_def by auto

lemma context_guards_gateway [intro]: "op_keeps (gateway_is g) (run_context_guards env st c labels)"
  unfolding run_context_guards_def Let_def
  by (auto split: option.splits sum.splits intro!: op_keeps_bind)

lemma inspect_gateway: "op_keeps (gateway_is g) (inspect_input env st)"
  unfolding inspect_input_def Let_def by (auto split: option.splits intro!: op_keeps_bind)

lemma route_gateway: "op_keeps (gateway_is g) (route_task env st)"
  unfolding route_task_def routing_error_def
  by (auto split: option.splits sum.splits prod.splits intro!: op_keeps_bind op_keeps_try)

lemma plan_gateway: "op_keeps (gateway_is g) (plan_task env st)"
  unfolding plan_task_def by (auto split: option.splits intro!: op_keeps_bind)

lemma analysis_gateway: "op_keeps (gateway_is g) (execute_route env notes st)"
  unfolding execute_route_def execution_error_def Let_def
  by (auto split: option.splits sum.splits prod.splits intro!: op_keeps_bind op_keeps_try)

lemma finish_gateway: "op_keeps (gateway_is g) (finish_run env st)"
  unfolding finish_run_def Let_def by (auto split: option.splits intro!: op_keeps_bind)

section \<open>One tool call\<close>

text \<open>A report of a call that did not reach the gateway.\<close>

definition refused_call :: "planned_call \<Rightarrow> data_label list \<Rightarrow> tool_report \<Rightarrow> bool" where
  "refused_call c labels rep \<longleftrightarrow>
     tr_tool rep = pc_tool c \<and> tr_decision rep \<in> {Block, Require_Approval} \<and> \<not> tr_executed rep \<and> tr_labels rep = labels"

lemma refuse_callD:
  "refuse_call env st c d labels w = (Inr rep, w') \<Longrightarrow> d \<in> {Block, Require_Approval} \<Longrightarrow>
     refused_call c labels rep \<and> aw_gateway w' = aw_gateway w"
  by (auto simp: refuse_call_def Let_def op_bind_Inr op_return_def agent_log_def refused_call_def split: if_splits)

lemma worst_of_two: "d \<in> {Block, Require_Approval} \<Longrightarrow> the (max_by decision_rank [pd, d]) \<in> {Block, Require_Approval}"
  by (cases pd; cases d) simp_all

lemma issue_state: "issue_tool_capability env req ttl uses now tid rnd s = (r, t) \<Longrightarrow> t = s"
  by (auto simp: issue_tool_capability_def Let_def guard_call_def op_bind_def op_raise_def op_return_def
      split: if_splits sum.splits option.splits)

lemma all_some_in: "all_some (map f xs) = Some ys \<Longrightarrow> x \<in> set xs \<Longrightarrow> \<exists>y \<in> set ys. f x = Some y"
proof -
  assume run: "all_some (map f xs) = Some ys" and x: "x \<in> set xs"
  have "f x \<in> set (map f xs)" using x by simp
  then show ?thesis unfolding all_some_SomeD[OF run] by auto
qed

text \<open>What lets a call pass the context guards.\<close>

definition guards_pass :: "skill_response list \<Rightarrow> bool" where
  "guards_pass rs \<longleftrightarrow> (\<forall>r \<in> set rs. usable r \<and> (the (sp_result r) \<noteq> [] \<longrightarrow>
     (\<exists>d. result_decision (the (sp_result r)) = Some d \<and> d \<noteq> Block \<and> d \<noteq> Require_Approval)))"

lemma context_decision_pass:
  assumes d: "context_decision rs = Inr d" "d \<noteq> Block" "d \<noteq> Require_Approval"
  shows "guards_pass rs"
proof (cases "rs = []")
  case False
  have all: "list_all usable rs" using d False by (auto simp: context_decision_def split: if_splits)
  obtain ds where ds: "all_some (map result_decision (filter (\<lambda>d. d \<noteq> []) (List.map_filter sp_result rs))) = Some ds"
      "max_by decision_rank ds = Some d"
    using d False by (auto simp: context_decision_def split: if_splits option.splits)
  have "\<exists>x. result_decision (the (sp_result r)) = Some x \<and> x \<noteq> Block \<and> x \<noteq> Require_Approval"
    if r: "r \<in> set rs" "the (sp_result r) \<noteq> []" for r
  proof -
    have "sp_result r \<noteq> None" using all r(1) by (auto simp: list_all_iff usable_def)
    then have "the (sp_result r) \<in> set (filter (\<lambda>d. d \<noteq> []) (List.map_filter sp_result rs))"
      using r by (auto simp: List.map_filter_def intro: rev_image_eqI)
    from all_some_in[OF ds(1) this] obtain x where x: "x \<in> set ds" "result_decision (the (sp_result r)) = Some x" by blast
    have "decision_rank x \<le> decision_rank d" by (rule decision_ranked.max_ge[OF ds(2) x(1)])
    then have "x \<noteq> Block \<and> x \<noteq> Require_Approval" using d(2,3) by (cases x; cases d) simp_all
    then show ?thesis using x(2) by blast
  qed
  then show ?thesis using all by (simp add: guards_pass_def list_all_iff)
qed (simp add: guards_pass_def)

text \<open>What a call that reached the gateway has behind it, and what its report is.\<close>

definition agent_request_of ::
    "agent_env \<Rightarrow> agent_state \<Rightarrow> input_reference list \<Rightarrow> data_label list \<Rightarrow> nat \<Rightarrow> planned_call \<Rightarrow> string option \<Rightarrow> tool_request" where
  "agent_request_of env st refs labels step c ticket =
     \<lparr>tool_name = pc_tool c, tool_args = pc_args c,
      req_context = (call_context env st refs labels step)\<lparr>capability_ticket := ticket\<rparr>\<rparr>"

definition guard_skill_call ::
    "agent_env \<Rightarrow> agent_state \<Rightarrow> pydict list \<Rightarrow> nat \<Rightarrow> planned_call \<Rightarrow> data_label list \<Rightarrow> skill_response agent_op" where
  "guard_skill_call env st sources step c labels =
     call_skill env st ''mcpguard-gov''
       [(''tool_name'', PStr (pc_tool c)), (''tool_args'', PDict (pc_args c)),
        (''context'', PDict (context_payload env st sources labels step))] Stage_Tool_Call ''tool_execution''"

definition gateway_decided ::
    "agent_env \<Rightarrow> agent_state \<Rightarrow> pydict list \<Rightarrow> nat \<Rightarrow> planned_call \<Rightarrow> data_label list \<Rightarrow> agent_world \<Rightarrow>
     skill_response \<Rightarrow> skill_response list \<Rightarrow> tool_request \<Rightarrow> call_outcome \<Rightarrow> agent_world \<Rightarrow> bool" where
  "gateway_decided env st sources step c labels u guard guards req out v \<longleftrightarrow>
     (\<exists>u1 u2 refs ticket v'.
        guard_skill_call env st sources step c labels u = (Inr guard, u1) \<and> usable guard \<and>
        run_context_guards env st c labels u1 = (Inr guards, u2) \<and> guards_pass guards \<and>
        all_some (map (ag_reference env) sources) = Some refs \<and>
        req = agent_request_of env st refs labels step c ticket \<and>
        (ticket \<noteq> None \<longrightarrow> dict_get (the (sp_result guard)) ''decision'' \<notin>
           {None, Some (PStr ''block''), Some (PStr ''require_approval'')}) \<and>
        guarded_tool_call (ag_gateway env) req (ci_request (ag_ids env step)) (ci_approval (ag_ids env step))
          (ci_now (ag_ids env step)) (aw_gateway u) = (Inr out, v') \<and> aw_gateway v = v')"

lemma call_gatewayD:
  assumes "call_gateway env (call_context env st refs labels step) c p ids w = (Inr out, w')"
  shows "\<exists>ticket v. (ticket \<noteq> None \<longrightarrow> p) \<and>
    guarded_tool_call (ag_gateway env) (agent_request_of env st refs labels step c ticket) (ci_request ids)
      (ci_approval ids) (ci_now ids) (aw_gateway w) = (Inr out, v) \<and> w' = w\<lparr>aw_gateway := v\<rparr>"
proof -
  have none: "(call_context env st refs labels step)\<lparr>capability_ticket := None\<rparr> = call_context env st refs labels step"
    by (simp add: call_context_def)
  show ?thesis
  proof (cases p)
    case True
    obtain b v where "guarded_tool_call (ag_gateway env) (agent_request_of env st refs labels step c (Some b)) (ci_request ids)
        (ci_approval ids) (ci_now ids) (aw_gateway w) = (Inr out, v)" "w' = w\<lparr>aw_gateway := v\<rparr>"
      using assms unfolding call_gateway_def Let_def in_gateway_def agent_request_of_def
      by (auto simp: True op_bind_Inr op_on_Inr op_return_def dest!: issue_state)
    then show ?thesis using True by blast
  next
    case False
    then show ?thesis using assms none
      by (auto simp: call_gateway_def Let_def in_gateway_def agent_request_of_def op_on_Inr intro!: exI[of _ None])
  qed
qed

lemma run_agent_call_cases:
  assumes "run_agent_call env st sources step c labels w = (Inr (rep, notes, labels'), w')"
  obtains (refused) "refused_call c labels rep" "labels' = labels" "aw_gateway w' = aw_gateway w"
  | (decided) guard guards req out where "gateway_decided env st sources step c labels w guard guards req out w'"
      "rep = outcome_report c out" "labels' = join_labels [labels, tr_labels rep]"
proof -
  obtain guard u1 where guard: "guard_skill_call env st sources step c labels w = (Inr guard, u1)"
    using assms unfolding run_agent_call_def guard_skill_call_def by (auto simp: op_bind_Inr)
  have g1: "aw_gateway u1 = aw_gateway w"
    by (rule op_keepsD[OF call_skill_gateway _ guard[unfolded guard_skill_call_def]]) simp
  note rest = assms[unfolded run_agent_call_def, folded guard_skill_call_def, unfolded op_bind_Inr guard]
  show thesis
  proof (cases "usable guard")
    case False
    then show ?thesis using rest g1 by (auto simp: op_bind_Inr op_return_def dest!: refuse_callD intro: refused)
  next
    case True
    obtain guards u2 where run: "run_context_guards env st c labels u1 = (Inr guards, u2)"
      using rest True by (auto simp: op_bind_Inr)
    obtain d where "context_decision guards = Inr d"
      using rest True run by (cases "context_decision guards") (auto simp: op_bind_Inr Let_def op_raise_def)
    note guards = run this
    let ?note = "skill_summary guard ''tool_execution'' # map (\<lambda>r. skill_summary r ''tool_context_guard'') guards"
    have after: "(if d = Block \<or> d = Require_Approval
        then (case result_decision (the (sp_result guard)) of None \<Rightarrow> op_raise Agent_Key_Error
           | Some pd \<Rightarrow> op_bind (refuse_call env st c (the (max_by decision_rank [pd, d])) labels)
               (\<lambda>rep. op_return (rep, ?note, labels)))
        else (case (dict_get (the (sp_result guard)) ''decision'', all_some (map (ag_reference env) sources)) of
             (Some v, Some refs) \<Rightarrow>
               op_bind (call_gateway env (call_context env st refs labels step) c
                   (v \<noteq> PStr ''block'' \<and> v \<noteq> PStr ''require_approval'') (ag_ids env step)) (\<lambda>out.
                 op_return (outcome_report c out, ?note, join_labels [labels, tr_labels (outcome_report c out)]))
           | _ \<Rightarrow> op_raise Agent_Value_Error)) u2 = (Inr (rep, notes, labels'), w')"
      using rest True guards by (simp add: op_bind_Inr Let_def)
    have g2: "aw_gateway u2 = aw_gateway w"
      by (rule op_keepsD[OF context_guards_gateway _ guards(1)]) (simp add: g1)
    show ?thesis
    proof (cases "d = Block \<or> d = Require_Approval")
      case dec: True
      obtain pd where pd: "result_decision (the (sp_result guard)) = Some pd"
        using after unfolding if_P[OF dec] by (cases "result_decision (the (sp_result guard))") (simp_all add: op_raise_def)
      have "refuse_call env st c (the (max_by decision_rank [pd, d])) labels u2 = (Inr rep, w') \<and> labels' = labels"
        using after unfolding if_P[OF dec] pd option.case op_bind_Inr op_return_def prod.inject sum.inject by blast
      note r = conjunct1[OF this] conjunct2[OF this]
      have "the (max_by decision_rank [pd, d]) \<in> {Block, Require_Approval}" by (rule worst_of_two) (use dec in blast)
      from refuse_callD[OF r(1) this] show ?thesis by (intro refused) (simp_all add: r(2) g2)
    next
      case False
      obtain v refs where v: "dict_get (the (sp_result guard)) ''decision'' = Some v"
          "all_some (map (ag_reference env) sources) = Some refs"
        using after unfolding if_not_P[OF False]
        by (cases "dict_get (the (sp_result guard)) ''decision''"; cases "all_some (map (ag_reference env) sources)")
          (simp_all add: op_raise_def)
      obtain out where o: "call_gateway env (call_context env st refs labels step) c (v \<noteq> PStr ''block'' \<and> v \<noteq> PStr ''require_approval'')
             (ag_ids env step) u2 = (Inr out, w')"
          "rep = outcome_report c out" "labels' = join_labels [labels, tr_labels rep]"
        using after unfolding if_not_P[OF False] v option.case prod.case op_bind_Inr op_return_def prod.inject sum.inject by blast
      obtain ticket v' where t: "ticket \<noteq> None \<longrightarrow> v \<noteq> PStr ''block'' \<and> v \<noteq> PStr ''require_approval''"
          "guarded_tool_call (ag_gateway env) (agent_request_of env st refs labels step c ticket) (ci_request (ag_ids env step))
             (ci_approval (ag_ids env step)) (ci_now (ag_ids env step)) (aw_gateway u2) = (Inr out, v')"
          "w' = u2\<lparr>aw_gateway := v'\<rparr>"
        using call_gatewayD[OF o(1)] by blast
      have "gateway_decided env st sources step c labels w guard guards (agent_request_of env st refs labels step c ticket) out w'"
        unfolding gateway_decided_def
      proof (intro exI conjI)
        show "guarded_tool_call (ag_gateway env) (agent_request_of env st refs labels step c ticket) (ci_request (ag_ids env step))
            (ci_approval (ag_ids env step)) (ci_now (ag_ids env step)) (aw_gateway w) = (Inr out, v')"
          using t(2) by (simp only: g2)
        show "ticket \<noteq> None \<longrightarrow> dict_get (the (sp_result guard)) ''decision'' \<notin>
            {None, Some (PStr ''block''), Some (PStr ''require_approval'')}" using t(1) v(1) by simp
        show "guards_pass guards" using context_decision_pass[OF guards(2)] False by blast
        show "aw_gateway w' = v'" by (simp add: t(3))
      qed (use guard True guards(1) v(2) in simp_all)
      then show ?thesis using o(2,3) by (rule decided)
    qed
  qed
qed

section \<open>A run of tool calls\<close>

lemma run_agent_call_labels:
  assumes "run_agent_call env st sources step c labels w = (Inr (rep, noted, labels'), w')"
  shows "set labels \<subseteq> set labels'" "set (tr_labels rep) \<subseteq> set labels'" "tr_tool rep = pc_tool c"
  using assms by (cases rule: run_agent_call_cases; auto simp: refused_call_def outcome_report_def join_labels_def)+

lemma run_agent_calls_nth:
  assumes "run_agent_calls env st sources k cs labels w = (Inr (reps, noted, final), w')"
  shows "length reps = length cs \<and> (\<forall>j < length cs. \<exists>ls u ns ls' v.
    run_agent_call env st sources (k + j) (cs ! j) ls u = (Inr (reps ! j, ns, ls'), v) \<and>
    set labels \<subseteq> set ls \<and> (\<forall>i < j. set (tr_labels (reps ! i)) \<subseteq> set ls))"
  using assms
proof (induction cs arbitrary: k labels reps noted final w)
  case Nil
  then show ?case by (simp add: op_return_def)
next
  case (Cons c cs)
  obtain rep ns ls' u reps' ns' where one: "run_agent_call env st sources k c labels w = (Inr (rep, ns, ls'), u)"
    and r: "run_agent_calls env st sources (Suc k) cs ls' u = (Inr (reps', ns', final), w')" "reps = rep # reps'"
    using Cons.prems by (auto simp: op_bind_Inr op_return_def)
  note l = run_agent_call_labels[OF one]
  have IH: "length reps' = length cs" "\<And>j. j < length cs \<Longrightarrow> \<exists>ls u ns ls'' v.
      run_agent_call env st sources (Suc k + j) (cs ! j) ls u = (Inr (reps' ! j, ns, ls''), v) \<and>
      set ls' \<subseteq> set ls \<and> (\<forall>i < j. set (tr_labels (reps' ! i)) \<subseteq> set ls)"
    using Cons.IH[OF r(1)] by blast+
  have "\<exists>ls u ns ls' v. run_agent_call env st sources (k + j) ((c # cs) ! j) ls u = (Inr (reps ! j, ns, ls'), v) \<and>
      set labels \<subseteq> set ls \<and> (\<forall>i < j. set (tr_labels (reps ! i)) \<subseteq> set ls)" if j: "j < length (c # cs)" for j
  proof (cases j)
    case 0
    then show ?thesis using one by (intro exI[of _ labels]) (auto simp: r(2))
  next
    case (Suc m)
    then obtain ls u ns ls'' v where m: "run_agent_call env st sources (Suc k + m) (cs ! m) ls u = (Inr (reps' ! m, ns, ls''), v)"
        "set ls' \<subseteq> set ls" "\<And>i. i < m \<Longrightarrow> set (tr_labels (reps' ! i)) \<subseteq> set ls"
      using IH(2)[of m] j by auto
    have "set (tr_labels (reps ! i)) \<subseteq> set ls" if "i < j" for i
      using that l(2) m(2,3) by (cases i) (auto simp: r(2) Suc)
    then show ?thesis using m(1,2) l(1) by (intro exI[of _ ls]) (auto simp: r(2) Suc)
  qed
  then show ?case using IH(1) by (simp add: r(2))
qed

text \<open>A call the gateway did not execute is reported as blocked or waiting.\<close>

lemma request_approval_decision:
  "request_approval env req trace rid aid d now s = (Inr out, s') \<Longrightarrow> decision d = Require_Approval \<Longrightarrow>
     oc_decision out \<in> {Block, Require_Approval}"
  unfolding request_approval_def Let_def op_bind_try
  by (auto simp: op_bind_Inr op_return_def op_raise_def decided_outcome_def split: prod.splits sum.splits if_splits)

lemma run_ticketed_decision:
  assumes "run_ticketed env req trace rid d now s = (Inr out, s')" "\<not> oc_executed out"
  shows "oc_decision out = Block"
proof -
  obtain q u where q: "spend_capability env req trace rid d now s = (q, u)" by fastforce
  show ?thesis
  proof (cases q)
    case (Inl e)
    then show ?thesis using assms q unfolding run_ticketed_def op_bind_try
      by (auto simp: op_bind_Inr op_return_def op_raise_def denied_outcome_def split: if_splits)
  next
    case (Inr g)
    then have "execute_simulator env req rid None (decided_outcome rid (tool_name req) d []) u = (Inr out, s')"
      using assms q unfolding run_ticketed_def op_bind_try by simp
    from execute_simulator_InrD(3)[OF this no_decided_exec(1)] assms(2) show ?thesis by blast
  qed
qed

lemma unexecuted_decision:
  assumes "guarded_tool_call env req rid aid now s = (Inr out, s')" "\<not> oc_executed out"
  shows "oc_decision out \<in> {Block, Require_Approval}"
proof -
  obtain d u where act: "act_on_decision env req (the (trace_id (req_context req))) rid aid d now u = (Inr out, s')"
    using assms(1) by (auto simp: guarded_tool_call_def Let_def gw_step_simps split: if_splits)
  show ?thesis
  proof (cases "decision d = Block")
    case True
    then show ?thesis using act by (auto simp: act_on_decision_def op_return_def decided_outcome_def)
  next
    case False
    obtain r v where g:
        "graph_call_op env (req_context req) (tool_name req) (tool_args req) False u = (r, v)" by fastforce
    show ?thesis
    proof (cases r)
      case (Inl e)
      then show ?thesis using act False g
        by (auto simp: act_on_decision_def Let_def op_bind_try op_bind_Inr op_return_def denied_outcome_def)
    next
      case (Inr x)
      then have "(if decision d = Require_Approval then request_approval env req (the (trace_id (req_context req))) rid aid d now
          else run_ticketed env req (the (trace_id (req_context req))) rid d now) v = (Inr out, s')"
        using act False g by (simp add: act_on_decision_def Let_def op_bind_try)
      then show ?thesis using request_approval_decision run_ticketed_decision[OF _ assms(2)]
        by (auto split: if_splits)
    qed
  qed
qed

lemma run_agent_call_executed:
  assumes "run_agent_call env st sources step c labels w = (Inr (rep, noted, labels'), w')" "tr_executed rep"
  obtains guard guards req out where "gateway_decided env st sources step c labels w guard guards req out w'"
    "rep = outcome_report c out"
    "call_authorised (ag_gateway env) req (ci_request (ag_ids env step)) (ci_now (ag_ids env step)) (aw_gateway w) out (aw_gateway w')"
  using assms(1)
proof (cases rule: run_agent_call_cases)
  case refused
  then show ?thesis using assms(2) by (simp add: refused_call_def)
next
  case (decided guard guards req out)
  obtain v where "guarded_tool_call (ag_gateway env) req (ci_request (ag_ids env step)) (ci_approval (ag_ids env step))
      (ci_now (ag_ids env step)) (aw_gateway w) = (Inr out, v)" "aw_gateway w' = v"
    using decided(1) unfolding gateway_decided_def by blast
  moreover have "oc_executed out" using assms(2) decided(2) by (simp add: outcome_report_def)
  ultimately show ?thesis using guarded_executedD[of "ag_gateway env" req] that[OF decided(1,2)] by simp
qed

lemma run_agent_call_unexecuted:
  assumes "run_agent_call env st sources step c labels w = (Inr (rep, noted, labels'), w')" "\<not> tr_executed rep"
  shows "tr_decision rep \<in> {Block, Require_Approval}"
  using assms(1)
proof (cases rule: run_agent_call_cases)
  case (decided guard guards req out)
  obtain v where "guarded_tool_call (ag_gateway env) req (ci_request (ag_ids env step)) (ci_approval (ag_ids env step))
      (ci_now (ag_ids env step)) (aw_gateway w) = (Inr out, v)"
    using decided(1) unfolding gateway_decided_def by blast
  from unexecuted_decision[OF this] show ?thesis using assms(2) decided(2) by (simp add: outcome_report_def)
qed (simp add: refused_call_def)

section \<open>The phases of a run\<close>

lemma inspect_inputD:
  "inspect_input env st w = (Inr st', w') \<Longrightarrow>
     \<exists>a n b. st' = st\<lparr>as_analysis := a, as_notes := n, as_blocked := b\<rparr>"
  unfolding inspect_input_def Let_def
  by (auto simp: op_bind_Inr op_return_def op_raise_def split: option.splits if_splits)

lemma route_taskD:
  "route_task env st w = (Inr st', w') \<Longrightarrow>
     \<exists>p f. st' = st\<lparr>as_router := p, as_routing_failed := f\<rparr> \<and> (\<not> f \<longrightarrow> ag_retrieve env (as_task st) \<noteq> None)"
  unfolding route_task_def routing_error_def op_bind_try
  by (cases "ag_retrieve env (as_task st)")
    (auto simp: op_bind_Inr op_return_def split: sum.splits prod.splits)

lemma plan_taskD:
  "plan_task env st w = (Inr st', w') \<Longrightarrow>
     (case ag_planner env (as_task st) of
        None \<Rightarrow> st' = st\<lparr>as_planning_failed := True, as_calls := []\<rparr>
      | Some plan \<Rightarrow> st' = st\<lparr>as_planning_failed := False, as_plan_id := ap_id plan, as_calls := ap_steps plan\<rparr>)"
  unfolding plan_task_def by (auto simp: op_bind_Inr op_return_def split: option.splits)

lemma execute_routeD:
  "execute_route env an st w = (Inr st', w') \<Longrightarrow>
     \<exists>x f n. st' = st\<lparr>as_execution := x, as_routing_failed := f, as_notes := n\<rparr> \<and> (as_routing_failed st \<longrightarrow> f)"
  unfolding execute_route_def execution_error_def Let_def op_bind_try
  by (cases "as_router st"; cases "as_routing_failed st")
    (auto simp: op_bind_Inr op_return_def split: sum.splits prod.splits
      intro!: exI[of _ "as_execution st'"] exI[of _ "as_routing_failed st'"] exI[of _ "as_notes st'"])

lemma finish_runD:
  assumes "finish_run env st w = (Inr res, w')"
  obtains post u v where "ar_reports res = as_reports st"
    "call_skill env st ''traceaudit-gov'' [] (post_stage (run_status st)) ''post_audit'' u = (Inr post, v)"
    "ar_status res = (if sp_success post then run_status st else ''blocked'')"
    "aw_skills w' = aw_skills v"
proof -
  have skills: "op_keeps (\<lambda>x. aw_skills x = s) (agent_log env st ev)" for s ev
    by (auto simp: op_keeps_def agent_log_def split: if_splits)
  obtain post u v x final y where c: "call_skill env st ''traceaudit-gov'' [] (post_stage (run_status st)) ''post_audit'' u = (Inr post, v)"
    and f: "(if sp_success post then op_return (run_status st)
               else op_bind (agent_log env st Ev_Audit_Fail_Closed) (\<lambda>_.
                    op_bind (agent_log env st (Ev_Final_Output ''blocked'')) (\<lambda>_. op_return ''blocked''))) v = (Inr final, y)"
    and l: "agent_log env st x y = (Inr (), w')"
    and r: "ar_status res = final" "ar_reports res = as_reports st"
    using assms unfolding finish_run_def Let_def by (auto simp: op_bind_Inr op_return_def)
  have "aw_skills y = aw_skills v \<and> final = (if sp_success post then run_status st else ''blocked'')"
    using f by (auto simp: op_bind_Inr op_return_def agent_log_def split: if_splits)
  moreover have "aw_skills w' = aw_skills y" by (rule op_keepsD[OF skills refl l])
  ultimately show thesis using that[OF r(2) c] r(1) by simp
qed

lemma finish_reports: "finish_run env st w = (Inr res, w') \<Longrightarrow> ar_reports res = as_reports st"
  by (erule finish_runD)

lemma finish_status: "finish_run env st w = (Inr res, w') \<Longrightarrow> ar_status res \<in> {run_status st, ''blocked''}"
  by (erule finish_runD) (simp split: if_splits)

text \<open>Who a run acts for.\<close>

definition acts_for :: "agent_env \<Rightarrow> agent_request \<Rightarrow> agent_state \<Rightarrow> bool" where
  "acts_for env q st \<longleftrightarrow> as_task st = aq_task q \<and> as_role st = aq_role q \<and> as_tenant st = aq_tenant q \<and>
     as_agent st = aq_agent q \<and> as_document st = aq_document q \<and> as_trace st = ag_trace env \<and>
     as_user st = (if set_field (aq_user q) then the (aq_user q) else ''demo-user:'' @ aq_role q)"

lemma run_agent_cases:
  assumes run: "run_agent env an q w = (Inr res, w')"
  obtains (stopped) st u where "as_reports st = []" "as_blocked st \<or> as_routing_failed st \<or> as_planning_failed st"
      "aw_gateway u = aw_gateway w" "finish_run env st u = (Inr res, w')"
  | (tools) plan st sources reps ns labels u v st0 u0 where "inspect_input env (start_trace env q) w = (Inr st0, u0)" "\<not> as_blocked st0"
      "ag_retrieve env (aq_task q) \<noteq> None"
      "ag_planner env (aq_task q) = Some plan" "as_calls st = ap_steps plan" "acts_for env q st"
      "\<not> as_blocked st" "\<not> as_routing_failed st" "\<not> as_planning_failed st" "aw_gateway u = aw_gateway w"
      "run_agent_calls env st sources 1 (ap_steps plan) (input_labels st) u = (Inr (reps, ns, labels), v)"
      "finish_run env (st\<lparr>as_reports := reps, as_notes := as_notes st @ ns, as_labels := labels\<rparr>) v = (Inr res, w')"
proof -
  obtain s1 u1 where i: "inspect_input env (start_trace env q) w = (Inr s1, u1)"
    and r1: "(if as_blocked s1 then finish_run env s1
       else op_bind (route_task env s1) (\<lambda>st.
         if as_routing_failed st then finish_run env st
         else op_bind (plan_task env st) (\<lambda>st.
              op_bind (execute_route env an st) (\<lambda>st.
              op_bind (execute_tools env st) (\<lambda>st. finish_run env st))))) u1 = (Inr res, w')"
    using run by (auto simp: run_agent_def op_bind_Inr)
  have a1: "acts_for env q s1" "as_reports s1 = []" "\<not> as_routing_failed s1"
    using inspect_inputD[OF i] by (auto simp: acts_for_def start_trace_def)
  have g1: "aw_gateway u1 = aw_gateway w" by (rule op_keepsD[OF inspect_gateway refl i])
  show thesis
  proof (cases "as_blocked s1")
    case True
    then show ?thesis using r1 by (intro stopped[OF a1(2) _ g1]) simp_all
  next
    case nb: False
    obtain s2 u2 where rt: "route_task env s1 u1 = (Inr s2, u2)"
      and r2: "(if as_routing_failed s2 then finish_run env s2
         else op_bind (plan_task env s2) (\<lambda>st.
              op_bind (execute_route env an st) (\<lambda>st.
              op_bind (execute_tools env st) (\<lambda>st. finish_run env st)))) u2 = (Inr res, w')"
      using r1 nb by (auto simp: op_bind_Inr)
    have a2: "acts_for env q s2" "as_reports s2 = []" "\<not> as_blocked s2"
        "\<not> as_routing_failed s2 \<Longrightarrow> ag_retrieve env (aq_task q) \<noteq> None"
      using route_taskD[OF rt] a1 nb by (auto simp: acts_for_def)
    have g2: "aw_gateway u2 = aw_gateway w" using op_keepsD[OF route_gateway refl rt] g1 by simp
    show ?thesis
    proof (cases "as_routing_failed s2")
      case True
      then show ?thesis using r2 by (intro stopped[OF a2(2) _ g2]) simp_all
    next
      case nr: False
      obtain s3 u3 s4 u4 where pl: "plan_task env s2 u2 = (Inr s3, u3)" and ex: "execute_route env an s3 u3 = (Inr s4, u4)"
        and r4: "op_bind (execute_tools env s4) (\<lambda>st. finish_run env st) u4 = (Inr res, w')"
        using r2 nr by (auto simp: op_bind_Inr)
      obtain x f n where s4: "s4 = s3\<lparr>as_execution := x, as_routing_failed := f, as_notes := n\<rparr>"
        using execute_routeD[OF ex] by blast
      have g4: "aw_gateway u4 = aw_gateway w"
        using op_keepsD[OF plan_gateway refl pl] op_keepsD[OF analysis_gateway refl ex] g2 by simp
      have a3: "acts_for env q s4" "as_reports s4 = []" "\<not> as_blocked s4"
        using plan_taskD[OF pl] a2 by (auto simp: s4 acts_for_def split: option.splits)
      show ?thesis
      proof (cases "as_planning_failed s4 \<or> as_routing_failed s4")
        case True
        then have "finish_run env (s4\<lparr>as_reports := []\<rparr>) u4 = (Inr res, w')"
          using r4 by (auto simp: execute_tools_def)
        then show ?thesis using True by (intro stopped[OF _ _ g4, of "s4\<lparr>as_reports := []\<rparr>"]) auto
      next
        case False
        obtain plan where p: "ag_planner env (as_task s2) = Some plan" "as_calls s4 = ap_steps plan"
          using plan_taskD[OF pl] False by (auto simp: s4 split: option.splits)
        have task: "as_task s2 = aq_task q" "\<not> as_planning_failed s4" "\<not> as_routing_failed s4"
          using a2(1) False by (simp_all add: acts_for_def)
        obtain sources where src: "source_dicts (as_analysis s4) = Some sources"
          using r4 False by (cases "source_dicts (as_analysis s4)") (auto simp: execute_tools_def op_bind_def op_raise_def)
        obtain reps ns labels v where t:
            "run_agent_calls env s4 sources 1 (ap_steps plan) (input_labels s4) u4 = (Inr (reps, ns, labels), v)"
            "finish_run env (s4\<lparr>as_reports := reps, as_notes := as_notes s4 @ ns, as_labels := labels\<rparr>) v = (Inr res, w')"
          using r4 task(2,3) by (auto simp: execute_tools_def src p(2) op_bind_Inr op_return_def)
        show ?thesis
          by (rule tools[OF i nb a2(4)[OF nr] p(1)[unfolded task(1)] p(2) a3(1,3) task(3,2) g4 t])
      qed
    qed
  qed
qed

section \<open>External calls and reports\<close>

lemma external_needs_public:
  assumes l: "l \<in> set (data_labels (req_context req))" "l \<noteq> Public"
    and sink: "is_external_sink (tool_name req) (tool_args req) (req_context req)"
    and run: "check_tool_call dir sha releases snapshot req = Inr d"
  shows "decision d \<in> {Block, Require_Approval}"
proof (cases "decision d = Block")
  case False
  obtain pol where p: "decide_under pol req = Inr d" using check_tool_call_nonblock[OF run False] by blast
  have "label_order l \<le> label_order (highest_label (data_labels (req_context req)))" by (rule highest_label_ge[OF l(1)])
  then have "highest_label (data_labels (req_context req)) \<noteq> Public"
    using l(2) by (cases l) auto
  then obtain v where v: "evaluate_taint_flow (tool_name req) (tool_args req) (req_context req) = Some v"
      "ov_decision v \<in> {Block, Require_Approval}"
    using sink by (cases "highest_label (data_labels (req_context req))") (auto simp: evaluate_taint_flow_def Let_def)
  from p False show ?thesis by (cases rule: decide_under_nonblock) (use v in auto)
qed simp

lemma agent_external_sink:
  "tool \<in> set external_tools \<Longrightarrow> is_external_sink tool args
     ((call_context env st refs labels step)\<lparr>capability_ticket := t\<rparr>)"
  by (auto simp: external_tools_def is_external_sink_def call_context_def recipient_authorized_def domain_authorized_def)

lemma call_authorised_decided:
  assumes "call_authorised env req rid now s out s'"
  shows "\<exists>d. check_tool_call (ge_policies env) (ge_sha env) (gw_releases s) None req = Inr d \<and>
    decision d \<notin> {Block, Require_Approval}"
  using assms unfolding call_authorised_def by (elim exE conjE) (intro exI conjI)

text \<open>A call that reached the gateway was decided on the labels the run had picked up.\<close>

lemma run_agent_call_external:
  assumes run: "run_agent_call env st sources step c labels w = (Inr (rep, ns, labels'), w')"
    and ext: "pc_tool c \<in> set external_tools" and l: "l \<in> set labels" "l \<noteq> Public"
  shows "\<not> tr_executed rep"
proof
  assume "tr_executed rep"
  from run this obtain guard guards req out where
      g: "gateway_decided env st sources step c labels w guard guards req out w'"
    and "rep = outcome_report c out" and a: "call_authorised (ag_gateway env) req (ci_request (ag_ids env step)) (ci_now (ag_ids env step)) (aw_gateway w) out (aw_gateway w')"
    by (rule run_agent_call_executed)
  obtain refs ticket where r: "req = agent_request_of env st refs labels step c ticket"
    using g unfolding gateway_decided_def by blast
  obtain d where d: "check_tool_call (ge_policies (ag_gateway env)) (ge_sha (ag_gateway env)) (gw_releases (aw_gateway w)) None req = Inr d"
      "decision d \<notin> {Block, Require_Approval}"
    using call_authorised_decided[OF a] by blast
  have "decision d \<in> {Block, Require_Approval}"
  proof (rule external_needs_public[OF _ l(2) _ d(1)])
    show "l \<in> set (data_labels (req_context req))" using l(1) by (simp add: r agent_request_of_def call_context_def)
    show "is_external_sink (tool_name req) (tool_args req) (req_context req)"
      unfolding r agent_request_of_def tool_request.select_convs by (rule agent_external_sink[OF ext])
  qed
  then show False using d(2) by simp
qed

lemma run_agent_reports:
  assumes "run_agent env an q w = (Inr res, w')" "j < length (ar_reports res)"
  obtains plan st sources ls u ns ls' v where "ag_planner env (aq_task q) = Some plan" "acts_for env q st" "as_calls st = ap_steps plan"
    "length (ar_reports res) = length (ap_steps plan)"
    "run_agent_call env st sources (Suc j) (ap_steps plan ! j) ls u = (Inr (ar_reports res ! j, ns, ls'), v)"
    "set (input_labels st) \<subseteq> set ls" "\<forall>i < j. set (tr_labels (ar_reports res ! i)) \<subseteq> set ls"
    "\<forall>i < length (ar_reports res). tr_tool (ar_reports res ! i) = pc_tool (ap_steps plan ! i)"
  using assms(1)
proof (cases rule: run_agent_cases)
  case (stopped st u)
  then show ?thesis using assms(2) finish_reports[OF stopped(4)] by simp
next
  case (tools plan st sources reps ns labels u v st0 u0)
  have reps: "ar_reports res = reps" using finish_reports[OF tools(12)] by simp
  note nth = run_agent_calls_nth[OF tools(11)]
  have len: "length reps = length (ap_steps plan)" using nth by blast
  have names: "tr_tool (reps ! i) = pc_tool (ap_steps plan ! i)" if "i < length reps" for i
    using nth that run_agent_call_labels(3) unfolding len by blast
  obtain ls u' ns' ls' v' where c: "run_agent_call env st sources (1 + j) (ap_steps plan ! j) ls u' = (Inr (reps ! j, ns', ls'), v')"
      "set (input_labels st) \<subseteq> set ls" "\<forall>i < j. set (tr_labels (reps ! i)) \<subseteq> set ls"
    using nth assms(2) unfolding reps len by blast
  show ?thesis
  proof (rule that[OF tools(4,6,5), unfolded reps, OF len])
    show "run_agent_call env st sources (Suc j) (ap_steps plan ! j) ls u' = (Inr (reps ! j, ns', ls'), v')"
      using c(1) by simp
    show "\<forall>i < length reps. tr_tool (reps ! i) = pc_tool (ap_steps plan ! i)" using names by blast
  qed (rule c(2,3))+
qed

lemma inspect_failed:
  assumes run: "inspect_input env st w = (Inr st', w')"
    and r: "call_skill env st ''promptshield-gov'' [(''text'', PStr (as_task st)), (''source'', PStr ''user_input'')]
      Stage_User_Input ''input_user'' w = (Inr r, u)" "\<not> sp_success r"
  shows "as_blocked st'"
  using run r unfolding inspect_input_def Let_def
  by (auto simp: op_bind_Inr op_return_def op_raise_def failed_analysis_def dict_get_def hashable_def split: if_splits)

lemma skill_call_logged:
  assumes "call_skill env st k data stage ph w = (Inr r, w')" "sp_success r"
  shows "\<exists>a n ks. (as_trace st, a, Skill_Completed_Event k n ks) \<in> set (sk_log (aw_skills w'))"
proof -
  let ?q = "\<lparr>sq_trace = as_trace st, sq_skill = k, sq_input = data, sq_context = runtime_context st ph, sq_stage = stage\<rparr>"
  obtain t where t: "execute_skill (ag_skills env) (ag_registry env) ?q (aw_skills w) = (Some r, t)" "aw_skills w' = t"
    using assms(1) by (auto simp: call_skill_def split: prod.splits option.splits)
  from t(1) show ?thesis
  proof (cases rule: execute_skill_cases)
    case (rejected d e)
    then show ?thesis using assms(2) reject_skill_effect(1)[OF rejected(3)] by (simp add: refused_def)
  next
    case (run d ad data')
    have "completed_as d ?q r t" using assms(2) run_skill_effect(1)[OF run(3)] by (auto simp: refused_def)
    then show ?thesis unfolding completed_as_def t(2) by auto
  qed
qed

end
