(* ===== verification/AgentDemo.thy ===== *)
theory AgentDemo
  imports AgentRuns Demo
begin

text \<open>
  A concrete agent, with a registry of three skills, the released policies and the gateway of
  \<^verbatim>\<open>Demo\<close>, that reads an approved file, visits a site while working on a document, or finds no
  route; its runs are computed phase by phase.
\<close>

section \<open>The agent\<close>

text \<open>An agent whose guards allow and which plans \<open>calls\<close>, with no route when there is none; \<open>late\<close> says which
  analysis tasks time out.\<close>

definition agent_skill :: "string \<Rightarrow> string list \<Rightarrow> skill_definition" where
  "agent_skill n ks = \<lparr>sd_name = n, sd_version = ''1.0.0'', sd_mode = Mandatory_Skill,
     sd_stages = [Stage_User_Input, Stage_Document_Upload, Stage_Tool_Call, Stage_External_Send, Stage_Data_Export,
       Stage_Process_Action, Stage_Task_Completed, Stage_Task_Blocked, Stage_Approval],
     sd_entrypoint = ''src/run.py:main'', sd_baseline = None, sd_inputs = ks, sd_required_inputs = [],
     sd_outputs = [], sd_required_outputs = [], sd_timeout_ms = 100, sd_retries = 0,
     sd_failure_policy = Fail_Block, sd_enabled = True, sd_policies = []\<rparr>"

definition agent_registry :: skill_registry where
  "agent_registry = map (\<lambda>(n, ks). (n, agent_skill n ks))
     [(''promptshield-gov'', [''text'', ''source'', ''origin'', ''additional_sources'']),
      (''mcpguard-gov'', [''tool_name'', ''tool_args'', ''context'']), (''traceaudit-gov'', [])]"

definition agent_adapter :: skill_adapter where
  "agent_adapter = \<lparr>ad_complete = \<lambda>data _ _. Inr data,
     ad_run = \<lambda>_ _ _. Inr (PDict [(''action'', PStr ''allow''), (''decision'', PStr ''allow'')])\<rparr>"

definition agent_data :: pydict where
  "agent_data = [(''path'', PStr ''/data/approved/a'')]"

definition agent_ticket :: capability_grant where
  "agent_ticket = \<lparr>ticket_id = ''CAP-1'', issuer = ''gov'', subject_id = ''bot'', gr_tenant_id = ''t1'',
     gr_trace_id = ''T'', gr_task_id = Some ''T'',
     gr_scope = \<lparr>sc_tool_name = ''file_read'', exact_args = agent_data, path_prefixes = [],
       url_domains = [], recipient_domains = [], sc_data_scopes = [''task_input'', ''simulated_result'', ''PLAN-1''],
       allowed_data_labels = [Public]\<rparr>,
     issued_at = 0, gr_expires_at = 300, max_uses = 1, gr_policy_version = ''2.0.0'',
     nonce = ''0123456789abcdef''\<rparr>"

definition agent_gateway_env :: gw_env where
  "agent_gateway_env = demo_env\<lparr>ge_sha := \<lambda>_. replicate 64 CHR ''a'',
     ge_cap := demo_cap\<lparr>load := \<lambda>s. if s = ''CAP-1'' then Some agent_ticket else None\<rparr>\<rparr>"

definition agent_plan_of :: "planned_call list \<Rightarrow> agent_plan" where
  "agent_plan_of calls = \<lparr>ap_id = ''PLAN-1'', ap_planner = ''deterministic'', ap_model = ''m'', ap_summary = [],
     ap_steps = calls, ap_fallback_from = None, ap_warnings = []\<rparr>"

definition read_call :: planned_call where
  "read_call = \<lparr>pc_index = 1, pc_tool = ''file_read'', pc_args = agent_data, pc_predecessors = []\<rparr>"

definition visit_call :: planned_call where
  "visit_call = \<lparr>pc_index = 1, pc_tool = ''browser_visit'',
     pc_args = [(''url'', PStr ''https://www.gov.cn/a'')], pc_predecessors = []\<rparr>"

definition agent_example :: "planned_call list \<Rightarrow> (sub_task \<Rightarrow> bool) \<Rightarrow> agent_env" where
  "agent_example calls late =
     \<lparr>ag_skills = \<lparr>sv_adapters = \<lambda>_. Some agent_adapter, sv_hook = \<lambda>_. Skill_Hook_Ok\<rparr>,
      ag_registry = agent_registry, ag_gateway = agent_gateway_env, ag_trace = ''T'', ag_sink = \<lambda>_ _. True,
      ag_planner = \<lambda>_. Some (agent_plan_of calls),
      ag_retrieve = \<lambda>_. if calls = [] then None else Some (\<lparr>pe_sha = rev, pe_name = Some, pe_skills = (\<lambda>_. []), pe_tools = (\<lambda>_. []), pe_digest = ''d''\<rparr>,
        \<lparr>rv_agents = [''agent.audit_agent''], rv_skills = [], rv_intent = ''intent.policy_summary'', rv_within_budget = True\<rparr>),
      ag_layers = \<lambda>ts. Some [ts], ag_late = late, ag_sub_audit = \<lambda>_. None, 
      ag_answers = \<lambda>_ _. skill_answer (agent_skill ''mcpguard-gov'' []) demo_skill_request False Fail_Block 0 False False None None,
     
      ag_recorded = [], ag_reference = \<lambda>_. None,
      ag_ids = \<lambda>n. \<lparr>ci_request = ''REQ'', ci_approval = ''APR'', ci_ticket = show_nat n, ci_nonce = ''0123456789abcdef'',
        ci_issued = 0, ci_now = 10\<rparr>\<rparr>"

definition agent_asks :: "string \<Rightarrow> agent_request" where
  "agent_asks doc = \<lparr>aq_task = ''read'', aq_scenario = ''s'', aq_role = ''staff'', aq_tenant = ''t1'', aq_user = Some ''u1'',
     aq_agent = ''bot'', aq_document = doc, aq_doc_source = ''d'', aq_package = None\<rparr>"

definition agent_start :: agent_world where
  "agent_start = \<lparr>aw_skills = new_executor, aw_gateway = demo_gateway\<lparr>gw_files := \<lambda>_. Some ''text''\<rparr>, aw_events = []\<rparr>"

definition agent_out :: pydict where
  "agent_out = [(''action'', PStr ''allow''), (''decision'', PStr ''allow'')]"

definition well_answered :: "skill_response \<Rightarrow> bool" where
  "well_answered r \<longleftrightarrow> sp_success r \<and> sp_result r = Some agent_out"

lemma example_sel [simp]:
  "ag_gateway (agent_example calls late) = agent_gateway_env" "ag_trace (agent_example calls late) = ''T''"
  "ag_planner (agent_example calls late) t = Some (agent_plan_of calls)" "ag_sink (agent_example calls late) h e"
  "ag_registry (agent_example calls late) = agent_registry"
  "ag_skills (agent_example calls late) = \<lparr>sv_adapters = \<lambda>_. Some agent_adapter, sv_hook = \<lambda>_. Skill_Hook_Ok\<rparr>"
  by (simp_all add: agent_example_def)

lemma example_log [simp]:
  "agent_log (agent_example calls late) st ev w = (Inr (), w\<lparr>aw_events := aw_events w @ [(as_trace st, ev)]\<rparr>)"
  by (simp add: agent_log_def)

lemma example_skill:
  assumes "get_skill agent_registry (sq_skill q) = Some (agent_skill n ks)" "set (map fst (sq_input q)) \<subseteq> set ks"
    "sq_stage q \<in> {Stage_User_Input, Stage_Direct, Stage_Document_Upload, Stage_Tool_Call, Stage_Task_Completed,
       Stage_Task_Blocked, Stage_Approval}"
  shows "\<exists>r t. execute_skill \<lparr>sv_adapters = \<lambda>_. Some agent_adapter, sv_hook = \<lambda>_. Skill_Hook_Ok\<rparr> agent_registry q s = (Some r, t) \<and>
    well_answered r"
proof -
  have ex: "expected_call (agent_skill n ks) q" using assms(3) by (auto simp: expected_call_def agent_skill_def)
  show ?thesis
    using assms(2) ex
    by (simp add: execute_skill_def assms(1) prepare_call_def agent_skill_def agent_adapter_def missing_fields_def
        run_skill_call_def skill_audit_def Let_def invoke_skill_def complete_skill_call_def skill_answer_def well_answered_def agent_out_def)
qed

lemma example_call_skill:
  assumes "(k, ks) \<in> {(''promptshield-gov'', [''text'', ''source'', ''origin'', ''additional_sources'']),
      (''mcpguard-gov'', [''tool_name'', ''tool_args'', ''context'']), (''traceaudit-gov'', [])}"
    and "set (map fst data) \<subseteq> set ks"
    and "stage \<in> {Stage_User_Input, Stage_Direct, Stage_Document_Upload, Stage_Tool_Call, Stage_Task_Completed,
       Stage_Task_Blocked, Stage_Approval}"
  shows "\<exists>r w'. call_skill (agent_example calls late) st k data stage ph w = (Inr r, w') \<and> well_answered r \<and>
    aw_gateway w' = aw_gateway w \<and> aw_events w' = aw_events w"
proof -
  let ?q = "\<lparr>sq_trace = as_trace st, sq_skill = k, sq_input = data, sq_context = runtime_context st ph, sq_stage = stage\<rparr>"
  have "get_skill agent_registry k = Some (agent_skill k ks)"
    using assms(1) by (auto simp: get_skill_def agent_registry_def)
  then obtain r t where "execute_skill \<lparr>sv_adapters = \<lambda>_. Some agent_adapter, sv_hook = \<lambda>_. Skill_Hook_Ok\<rparr> agent_registry
      ?q (aw_skills w) = (Some r, t)" "well_answered r"
    using example_skill[of ?q k ks "aw_skills w"] assms(2,3) by auto
  then show ?thesis by (simp add: call_skill_def)
qed

text \<open>What the shield is asked, and that its answers clear the input.\<close>

lemma example_shield:
  assumes "set (map fst data) \<subseteq> {''text'', ''source'', ''origin'', ''additional_sources''}"
    "stage \<in> {Stage_User_Input, Stage_Direct, Stage_Document_Upload}"
  obtains r w' where "call_skill (agent_example calls late) st ''promptshield-gov'' data stage ph w = (Inr r, w')"
    "well_answered r" "aw_gateway w' = aw_gateway w"
  using example_call_skill[of "''promptshield-gov''" "[''text'', ''source'', ''origin'', ''additional_sources'']" data stage
    calls late st ph w] assms by auto

lemma example_inspect:
  "\<exists>ns w'. inspect_input (agent_example calls late) (start_trace (agent_example calls late) q) w =
    (Inr ((start_trace (agent_example calls late) q)\<lparr>as_analysis := agent_out, as_notes := ns, as_blocked := False\<rparr>), w') \<and>
    aw_gateway w' = aw_gateway w"
proof -
  let ?e = "agent_example calls late" and ?st = "start_trace (agent_example calls late) q"
  let ?extra = "if as_document ?st = [] then [] else [PDict (document_input ?st)]"
  obtain r1 w1 where 1: "call_skill ?e ?st ''promptshield-gov'' [(''text'', PStr (as_task ?st)), (''source'', PStr ''user_input'')]
      Stage_User_Input ''input_user'' w = (Inr r1, w1)" "well_answered r1" "aw_gateway w1 = aw_gateway w"
    by (rule example_shield[where data = "[(''text'', PStr (as_task ?st)), (''source'', PStr ''user_input'')]" and stage = Stage_User_Input])
      simp_all
  obtain r2 w2 where 2: "call_skill ?e ?st ''promptshield-gov'' (document_input ?st)
      Stage_Document_Upload ''input_document'' w1 = (Inr r2, w2)" "well_answered r2" "aw_gateway w2 = aw_gateway w1"
    by (rule example_shield[where data = "document_input ?st" and stage = Stage_Document_Upload]) (simp_all add: document_input_def)
  define w3 where "w3 = (if as_document ?st = [] then w1 else w2)"
  obtain r4 w4 where 4: "call_skill ?e ?st ''promptshield-gov'' [(''text'', PStr (as_task ?st)), (''source'', PStr ''user_input''),
      (''additional_sources'', PList ?extra)] Stage_Direct ''input_fusion'' w3 = (Inr r4, w4)" "well_answered r4" "aw_gateway w4 = aw_gateway w3"
    by (rule example_shield[where data = "[(''text'', PStr (as_task ?st)), (''source'', PStr ''user_input''),
      (''additional_sources'', PList ?extra)]" and stage = Stage_Direct]) simp_all
  show ?thesis
  proof (cases "as_document ?st = []")
    case True
    then show ?thesis using 1 4
      by (auto simp: inspect_input_def w3_def op_bind_def op_return_def Let_def well_answered_def agent_out_def dict_get_def hashable_def)
  next
    case False
    then show ?thesis using 1 2 4
      by (auto simp: inspect_input_def w3_def op_bind_def op_return_def Let_def well_answered_def agent_out_def dict_get_def hashable_def)
  qed
qed

definition example_state :: "string \<Rightarrow> planned_call list \<Rightarrow> agent_state" where
  "example_state doc calls = (start_trace (agent_example calls (\<lambda>_. False)) (agent_asks doc))\<lparr>as_plan_id := ''PLAN-1'', as_calls := calls\<rparr>"

definition example_request :: "string \<Rightarrow> planned_call \<Rightarrow> string option \<Rightarrow> tool_request" where
  "example_request doc c = agent_request_of (agent_example [c] (\<lambda>_. False)) (example_state doc [c]) []
     (if doc = [] then [Public] else [Internal]) (Suc 0) c"

definition read_ticket :: string where
  "read_ticket = sign_ticket (demo_cap\<lparr>load := \<lambda>s. if s = ''CAP-1'' then Some agent_ticket else None\<rparr>) demo_service agent_ticket"

lemma agent_gateway_sel [simp]:
  "ge_policies agent_gateway_env = policy_dir" "ge_sha agent_gateway_env = (\<lambda>_. replicate 64 CHR ''a'')"
  "ge_cap agent_gateway_env = demo_cap\<lparr>load := \<lambda>s. if s = ''CAP-1'' then Some agent_ticket else None\<rparr>"
  "ge_service agent_gateway_env = demo_service" "ge_sink agent_gateway_env = (\<lambda>_ _. True)"
  by (simp_all add: agent_gateway_env_def)

lemma read_valid: "valid_tool_request (example_request [] read_call None)" "valid_tool_request (example_request [] read_call (Some read_ticket))"
  by code_simp+

lemma read_decision:
  "check_tool_call policy_dir (\<lambda>_. replicate 64 CHR ''a'') (gw_releases demo_gateway) None (example_request [] read_call None) =
     Inr (mk_decision Allow_With_Log Medium Request_Conforms ''tools.file_read.action'' ''2.0.0'')"
  "check_tool_call policy_dir (\<lambda>_. replicate 64 CHR ''a'') (gw_releases demo_gateway) None (example_request [] read_call (Some read_ticket)) =
     Inr (mk_decision Allow_With_Log Medium Request_Conforms ''tools.file_read.action'' ''2.0.0'')"
  by code_simp+

lemma read_fields [simp]:
  "tool_name (example_request [] read_call t) = ''file_read''" "tool_args (example_request [] read_call t) = agent_data"
  "trace_id (req_context (example_request [] read_call t)) = Some ''T''" "task_id (req_context (example_request [] read_call t)) = Some ''T''"
  "capability_ticket (req_context (example_request [] read_call t)) = t"
  "ctx_agent (req_context (example_request [] read_call t)) = Some (agent_self (example_state [] [read_call]))"
  "data_labels (req_context (example_request [] read_call t)) = [Public]"
  "data_scopes (req_context (example_request [] read_call t)) = [''task_input'', ''simulated_result'', ''PLAN-1'']"
  by (simp_all add: example_request_def agent_request_of_def call_context_def read_call_def example_state_def start_trace_def
      agent_asks_def agent_graph_def)

lemma read_issued: "issue_tool_capability agent_gateway_env (example_request [] read_call None) 300 1 0 ''1'' ''0123456789abcdef'' g =
    (Inr (agent_ticket, read_ticket), g)" if "gw_releases g = gw_releases demo_gateway"
proof -
  have "normalize_labels [Public] = [Public]" by code_simp
  moreover have "valid_grant agent_ticket" by code_simp
  ultimately show ?thesis
    by (simp add: issue_tool_capability_def Let_def read_valid op_bind_def guard_call_def that read_decision mk_decision_def set_field_def
      agent_self_def issue_def example_state_def start_trace_def agent_asks_def demo_service_def read_ticket_def op_return_def
      agent_ticket_def)
qed

lemma read_inspect: "inspect (ge_cap agent_gateway_env) demo_service read_ticket = Inr agent_ticket"
  unfolding read_ticket_def agent_gateway_sel
  by (rule inspect_sign_ticket) (simp_all add: demo_cap_def agent_ticket_def demo_service_def)

lemma read_granted: "authorize_grant (ge_cap agent_gateway_env) demo_service read_ticket ''file_read'' agent_data
    (req_context (example_request [] read_call (Some read_ticket))) ''2.0.0'' 10 = Inr agent_ticket"
proof -
  have "check_scope (gr_scope agent_ticket) ''file_read'' agent_data (req_context (example_request [] read_call (Some read_ticket))) = None"
    by code_simp
  moreover have "subject (req_context (example_request [] read_call (Some read_ticket))) = Inr (''bot'', ''t1'')"
    by (simp add: subject_def agent_self_def example_state_def start_trace_def agent_asks_def)
  ultimately show ?thesis unfolding authorize_grant_def read_inspect by (simp add: agent_ticket_def)
qed

lemma read_in_plan:
  "fst (validate (\<lambda>_. replicate 64 CHR ''a'') (req_context (example_request [] read_call (Some read_ticket))) ''file_read''
     agent_data b empty_graph_store) = Inr ()"
  by (cases b) (simp, code_simp)+

lemma read_graph:
  "validate (\<lambda>_. replicate 64 CHR ''a'') (req_context (example_request [] read_call (Some read_ticket))) ''file_read''
     agent_data b empty_graph_store = (Inr (), snd (validate (\<lambda>_. replicate 64 CHR ''a'')
       (req_context (example_request [] read_call (Some read_ticket))) ''file_read'' agent_data b empty_graph_store))"
  using read_in_plan[of b] by (simp add: prod_eq_iff)

lemma read_handler: "run_handler (ge_files agent_gateway_env) ''file_read'' agent_data (\<lambda>_. Some ''text'') =
   (Inr [(''status'', PStr ''success''), (''path'', PStr ''/data/approved/a''), (''content'', PStr ''text''),
     (''truncated'', PBool False)], \<lambda>_. Some ''text'')"
proof -
  have "resolve_virtual (ge_files agent_gateway_env) (PStr ''/data/approved/a'') = Inr [''srv'', ''data'', ''approved'', ''a'']"
    by code_simp
  then show ?thesis
    by (simp add: run_handler_def get_tool_handler_def tool_handlers_def file_read_def agent_data_def dict_get_def utf8_len_def)
qed

lemma agent_emit: "emit agent_gateway_env tr ev s = (Inr (), s\<lparr>gw_audit := gw_audit s @ [(tr, ev)]\<rparr>)"
  by (simp add: emit_def)

lemma read_spent:
  assumes g: "gw_graph g = empty_graph_store" "gw_ledger g = \<lparr>us_rows = [], us_up = True\<rparr>" and v: "policy_version d = ''2.0.0''"
  shows "\<exists>u. spend_capability agent_gateway_env (example_request [] read_call (Some read_ticket)) ''T'' ''REQ'' d 10 g = (Inr agent_ticket, u) \<and>
    gw_files u = gw_files g"
proof -
  let ?r = "example_request [] read_call (Some read_ticket)"
  have ne: "set_field (Some read_ticket)" by (simp add: set_field_def read_ticket_def sign_ticket_def Let_def)
  have tk: "gr_expires_at agent_ticket = 300" "ticket_id agent_ticket = ''CAP-1''" "max_uses agent_ticket = 1"
    by (simp_all add: agent_ticket_def)
  have led: "sql_consume ''CAP-1'' 1 300 (gw_ledger g) = (Inr 1, snd (sql_consume ''CAP-1'' 1 300 (gw_ledger g)))"
    by (simp add: g(2) sql_consume_def)
  have auth: "\<exists>t. authorize_call agent_gateway_env read_ticket ?r ''2.0.0'' True 10 g = (Inr agent_ticket, g\<lparr>gw_ledger := t\<rparr>)"
    unfolding authorize_call_def on_ledger_def op_on_def authorize_def read_fields agent_gateway_sel(4) read_granted sum.case tk
    by (subst led) (simp, blast)
  then obtain t where auth: "authorize_call agent_gateway_env read_ticket ?r ''2.0.0'' True 10 g = (Inr agent_ticket, g\<lparr>gw_ledger := t\<rparr>)" ..
  obtain t' where v': "validate (\<lambda>_. replicate 64 CHR ''a'') (req_context ?r) ''file_read'' agent_data True empty_graph_store = (Inr (), t')"
    using read_graph[of True] by blast
  have graph: "graph_call_op agent_gateway_env (req_context ?r) ''file_read'' agent_data True (g\<lparr>gw_ledger := t\<rparr>) =
      (Inr (), g\<lparr>gw_ledger := t, gw_graph := t'\<rparr>)"
    by (simp add: graph_call_op_def on_graph_def op_on_def g(1) v')
  show ?thesis
    unfolding spend_capability_def Let_def read_fields v option.sel
    by (simp only: ne not_True_eq_False if_False op_bind_def auth graph agent_emit prod.case sum.case op_return_def tk) simp
qed

lemma read_runs:
  assumes g: "gw_releases g = gw_releases demo_gateway" "gw_graph g = empty_graph_store"
    "gw_ledger g = \<lparr>us_rows = [], us_up = True\<rparr>" "gw_files g = (\<lambda>_. Some ''text'')"
  shows "\<exists>out v. guarded_tool_call agent_gateway_env (example_request [] read_call (Some read_ticket)) ''REQ'' ''APR'' 10 g = (Inr out, v) \<and>
    oc_executed out \<and> oc_decision out = Allow_With_Log"
proof -
  let ?r = "example_request [] read_call (Some read_ticket)"
  let ?d = "mk_decision Allow_With_Log Medium Request_Conforms ''tools.file_read.action'' ''2.0.0''"
  define s where "s = g\<lparr>gw_audit := gw_audit g @ [(''T'', Tool_Request_Event ''REQ'' ''file_read'' agent_data (audit_context_of (req_context ?r)))]
     @ [(''T'', Tool_Decision_Event ''REQ'' ''file_read'' agent_data (audit_context_of (req_context ?r)) ?d)]\<rparr>"
  have s: "gw_graph s = empty_graph_store" "gw_ledger s = \<lparr>us_rows = [], us_up = True\<rparr>" "gw_files s = (\<lambda>_. Some ''text'')"
    using g by (simp_all add: s_def)
  have guard: "guarded_tool_call agent_gateway_env ?r ''REQ'' ''APR'' 10 g = act_on_decision agent_gateway_env ?r ''T'' ''REQ'' ''APR'' ?d 10 s"
    by (simp add: guarded_tool_call_def Let_def read_valid op_bind_def agent_emit guard_call_def g(1) read_decision set_field_def s_def)
  have same: "snd (validate (\<lambda>_. replicate 64 CHR ''a'') (req_context ?r) ''file_read'' agent_data False empty_graph_store) = empty_graph_store"
    using validate_check_same[OF read_graph[of False]] .
  have check: "graph_call_op agent_gateway_env (req_context ?r) ''file_read'' agent_data False s = (Inr (), s)"
    using read_graph[of False] same by (simp add: graph_call_op_def on_graph_def op_on_def s)
  obtain u where u: "spend_capability agent_gateway_env ?r ''T'' ''REQ'' ?d 10 s = (Inr agent_ticket, u)" "gw_files u = gw_files s"
    using read_spent[OF s(1,2), of ?d] by (auto simp: mk_decision_def)
  have act: "act_on_decision agent_gateway_env ?r ''T'' ''REQ'' ''APR'' ?d 10 s =
      execute_simulator agent_gateway_env ?r ''REQ'' None (decided_outcome ''REQ'' ''file_read'' ?d []) u"
    by (simp add: act_on_decision_def Let_def op_bind_try check run_ticketed_def u(1)) (simp add: mk_decision_def)
  have "\<exists>out v. execute_simulator agent_gateway_env ?r ''REQ'' None (decided_outcome ''REQ'' ''file_read'' ?d []) u = (Inr out, v) \<and>
      oc_executed out \<and> oc_decision out = Allow_With_Log"
    by (simp add: execute_simulator_def Let_def op_bind_def agent_emit u(2) s(3) read_handler op_return_def decided_outcome_def mk_decision_def)
  then show ?thesis unfolding guard act .
qed

text \<open>A visit while working on a document waits for an approval.\<close>

definition visit_ticket :: capability_grant where
  "visit_ticket = agent_ticket\<lparr>gr_scope := (gr_scope agent_ticket)\<lparr>sc_tool_name := ''browser_visit'',
     exact_args := pc_args visit_call, allowed_data_labels := [Internal]\<rparr>\<rparr>"

definition visit_token :: string where
  "visit_token = sign_ticket (demo_cap\<lparr>load := \<lambda>s. if s = ''CAP-1'' then Some agent_ticket else None\<rparr>) demo_service visit_ticket"

lemma visit_valid: "valid_tool_request (example_request ''doc'' visit_call None)" "valid_tool_request (example_request ''doc'' visit_call (Some visit_token))"
  by code_simp+

lemma visit_decision:
  "check_tool_call policy_dir (\<lambda>_. replicate 64 CHR ''a'') (gw_releases demo_gateway) None (example_request ''doc'' visit_call None) =
     Inr (mk_decision Require_Approval Medium (Taint_Flow Internal_Needs_Approval) ''data_flow.external_sink.require_approval'' ''2.0.0'')"
  "check_tool_call policy_dir (\<lambda>_. replicate 64 CHR ''a'') (gw_releases demo_gateway) None (example_request ''doc'' visit_call (Some visit_token)) =
     Inr (mk_decision Require_Approval Medium (Taint_Flow Internal_Needs_Approval) ''data_flow.external_sink.require_approval'' ''2.0.0'')"
  by code_simp+

lemma visit_fields [simp]:
  "tool_name (example_request ''doc'' visit_call t) = ''browser_visit''" "tool_args (example_request ''doc'' visit_call t) = pc_args visit_call"
  "trace_id (req_context (example_request ''doc'' visit_call t)) = Some ''T''" "task_id (req_context (example_request ''doc'' visit_call t)) = Some ''T''"
  "capability_ticket (req_context (example_request ''doc'' visit_call t)) = t"
  "ctx_agent (req_context (example_request ''doc'' visit_call t)) = Some (agent_self (example_state ''doc'' [visit_call]))"
  "data_labels (req_context (example_request ''doc'' visit_call t)) = [Internal]"
  "data_scopes (req_context (example_request ''doc'' visit_call t)) = [''task_input'', ''simulated_result'', ''PLAN-1'']"
  by (simp_all add: example_request_def agent_request_of_def call_context_def visit_call_def example_state_def start_trace_def
      agent_asks_def agent_graph_def)

lemma visit_issued: "issue_tool_capability agent_gateway_env (example_request ''doc'' visit_call None) 300 1 0 ''1'' ''0123456789abcdef'' g =
    (Inr (visit_ticket, visit_token), g)" if "gw_releases g = gw_releases demo_gateway"
proof -
  have "normalize_labels [Internal] = [Internal]" by code_simp
  moreover have "valid_grant visit_ticket" by code_simp
  ultimately show ?thesis
    by (simp add: issue_tool_capability_def Let_def visit_valid op_bind_def guard_call_def that visit_decision mk_decision_def set_field_def
      agent_self_def issue_def example_state_def start_trace_def agent_asks_def demo_service_def visit_token_def op_return_def
      visit_ticket_def agent_ticket_def)
qed

lemma visit_waits:
  assumes g: "gw_releases g = gw_releases demo_gateway" "gw_graph g = empty_graph_store" "gw_approvals g = empty_approvals"
  shows "\<exists>out v. guarded_tool_call agent_gateway_env (example_request ''doc'' visit_call (Some visit_token)) ''REQ'' ''APR'' 10 g = (Inr out, v)"
proof -
  let ?r = "example_request ''doc'' visit_call (Some visit_token)"
  let ?d = "mk_decision Require_Approval Medium (Taint_Flow Internal_Needs_Approval) ''data_flow.external_sink.require_approval'' ''2.0.0''"
  define s where "s = g\<lparr>gw_audit := gw_audit g @ [(''T'', Tool_Request_Event ''REQ'' ''browser_visit'' (pc_args visit_call) (audit_context_of (req_context ?r)))]
     @ [(''T'', Tool_Decision_Event ''REQ'' ''browser_visit'' (pc_args visit_call) (audit_context_of (req_context ?r)) ?d)]\<rparr>"
  have s: "gw_graph s = empty_graph_store" "gw_approvals s = empty_approvals" using g by (simp_all add: s_def)
  have guard: "guarded_tool_call agent_gateway_env ?r ''REQ'' ''APR'' 10 g = act_on_decision agent_gateway_env ?r ''T'' ''REQ'' ''APR'' ?d 10 s"
    by (simp add: guarded_tool_call_def Let_def visit_valid op_bind_def agent_emit guard_call_def g(1) visit_decision set_field_def s_def)
  have "fst (validate (\<lambda>_. replicate 64 CHR ''a'') (req_context ?r) ''browser_visit'' (pc_args visit_call) False empty_graph_store) = Inr ()"
    by code_simp
  then have v: "validate (\<lambda>_. replicate 64 CHR ''a'') (req_context ?r) ''browser_visit'' (pc_args visit_call) False empty_graph_store = (Inr (), empty_graph_store)"
    using validate_check_same by (metis prod.collapse)
  have check: "graph_call_op agent_gateway_env (req_context ?r) ''browser_visit'' (pc_args visit_call) False s = (Inr (), s)"
    by (simp add: graph_call_op_def on_graph_def op_on_def s v)
  have "is_ok (fst (create (ge_fp agent_gateway_env) ''APR'' ''T'' ''REQ'' ''browser_visit'' (pc_args visit_call) (req_context ?r)
      (approval_key (req_context ?r) ''T'' ''REQ'') 900 10 empty_approvals))" by code_simp
  then obtain rec as' where c: "create (ge_fp agent_gateway_env) ''APR'' ''T'' ''REQ'' ''browser_visit'' (pc_args visit_call) (req_context ?r)
      (approval_key (req_context ?r) ''T'' ''REQ'') 900 10 empty_approvals = (Inr rec, as')"
    by (cases "create (ge_fp agent_gateway_env) ''APR'' ''T'' ''REQ'' ''browser_visit'' (pc_args visit_call) (req_context ?r)
      (approval_key (req_context ?r) ''T'' ''REQ'') 900 10 empty_approvals") (auto simp: is_ok_iff)
  have act: "act_on_decision agent_gateway_env ?r ''T'' ''REQ'' ''APR'' ?d 10 s = request_approval agent_gateway_env ?r ''T'' ''REQ'' ''APR'' ?d 10 s"
    by (simp add: act_on_decision_def Let_def op_bind_try check) (simp add: mk_decision_def)
  show ?thesis unfolding guard act
    by (simp add: request_approval_def Let_def op_bind_try on_approvals_def op_on_def op_try_def s c op_bind_def agent_emit op_return_def)
qed

section \<open>Runs of one call\<close>

text \<open>A planned call that needs no context guard, from its ticket and what the gateway makes of it.\<close>

lemma example_call:
  fixes doc c
  defines "ls \<equiv> if doc = [] then [Public] else [Internal]"
  assumes st: "example_state doc [c] = st\<lparr>as_analysis := [], as_notes := [], as_router := None, as_execution := None\<rparr>"
    and w: "aw_gateway w = aw_gateway agent_start" and stage: "compliance_stage (pc_tool c) = None"
    and issued: "issue_tool_capability agent_gateway_env (example_request doc c None) 300 1 0 ''1'' ''0123456789abcdef'' (aw_gateway agent_start) =
      (Inr (tk, t), aw_gateway agent_start)"
    and run: "guarded_tool_call agent_gateway_env (example_request doc c (Some t)) ''REQ'' ''APR'' 10 (aw_gateway agent_start) = (Inr out, v)"
  shows "\<exists>ns w'. run_agent_call (agent_example [c] late) st [] (Suc 0) c ls w =
    (Inr (outcome_report c out, ns, join_labels [ls, tr_labels (outcome_report c out)]), w') \<and> aw_events w' = aw_events w"
proof -
  let ?e = "agent_example [c] late"
  have req: "agent_request_of ?e st [] ls (Suc 0) c t = example_request doc c t" for t
  proof -
    have "as_trace st = as_trace (example_state doc [c])" "as_user st = as_user (example_state doc [c])"
      "as_role st = as_role (example_state doc [c])" "as_tenant st = as_tenant (example_state doc [c])"
      "as_agent st = as_agent (example_state doc [c])" "as_scenario st = as_scenario (example_state doc [c])"
      "as_plan_id st = as_plan_id (example_state doc [c])" "as_calls st = as_calls (example_state doc [c])"
      by (simp_all add: st)
    then show ?thesis
      by (simp add: example_request_def agent_request_of_def call_context_def agent_user_def agent_self_def agent_graph_def ls_def)
  qed
  let ?data = "[(''tool_name'', PStr (pc_tool c)), (''tool_args'', PDict (pc_args c)), (''context'', PDict (context_payload ?e st [] ls (Suc 0)))]"
  obtain r w1 where 1: "call_skill ?e st ''mcpguard-gov'' ?data Stage_Tool_Call ''tool_execution'' w = (Inr r, w1)"
      "well_answered r" "aw_gateway w1 = aw_gateway w" "aw_events w1 = aw_events w"
    using example_call_skill[of "''mcpguard-gov''" "[''tool_name'', ''tool_args'', ''context'']" ?data Stage_Tool_Call
      "[c]" late st "''tool_execution''" w] by auto
  have ids: "ag_ids ?e (Suc 0) = \<lparr>ci_request = ''REQ'', ci_approval = ''APR'', ci_ticket = ''1'', ci_nonce = ''0123456789abcdef'',
        ci_issued = 0, ci_now = 10\<rparr>" by (simp add: agent_example_def) code_simp
  have ctx: "\<lparr>tool_name = pc_tool c, tool_args = pc_args c, req_context = call_context ?e st [] ls (Suc 0)\<rparr> =
      example_request doc c None" using req[of None] by (simp add: agent_request_of_def call_context_def)
  have upd: "(example_request doc c None)\<lparr>req_context := (call_context ?e st [] ls (Suc 0))\<lparr>capability_ticket := Some t\<rparr>\<rparr> =
      example_request doc c (Some t)"
    using req[of "Some t"] by (simp flip: ctx add: agent_request_of_def)
  have gw: "call_gateway ?e (call_context ?e st [] ls (Suc 0)) c True (ag_ids ?e (Suc 0)) w1 = (Inr out, w1\<lparr>aw_gateway := v\<rparr>)"
    using run issued 1(3) w
    by (simp add: call_gateway_def Let_def ctx in_gateway_def op_bind_def op_on_def op_return_def ids upd)
  have none: "run_context_guards ?e st c ls = op_return []" by (simp add: run_context_guards_def Let_def stage)
  show ?thesis
    using 1(1,2,4) gw by (simp add: run_agent_call_def op_bind_def usable_def well_answered_def none op_return_def context_decision_def
      agent_out_def dict_get_def Let_def)
qed

lemma example_planned:
  assumes "calls \<noteq> []"
  shows "\<exists>penv rv p t. ag_retrieve (agent_example calls late) task = Some (penv, rv) \<and> route_plan penv route_request rv ''T'' = Inr p \<and>
     rp_tasks p = [t] \<and> st_agent t = ''agent.audit_agent'' \<and> st_predecessors t = [] \<and> st_mandatory t"
proof -
  let ?penv = "\<lparr>pe_sha = rev, pe_name = Some, pe_skills = (\<lambda>_. []), pe_tools = (\<lambda>_. []), pe_digest = ''d''\<rparr>"
  let ?rv = "\<lparr>rv_agents = [''agent.audit_agent''], rv_skills = [], rv_intent = ''intent.policy_summary'', rv_within_budget = True\<rparr>"
  have "case route_plan ?penv route_request ?rv ''T'' of Inr p \<Rightarrow> (case rp_tasks p of [t] \<Rightarrow>
      st_agent t = ''agent.audit_agent'' \<and> st_predecessors t = [] \<and> st_mandatory t | _ \<Rightarrow> False) | _ \<Rightarrow> False" by code_simp
  then show ?thesis using assms by (auto simp: agent_example_def split: sum.splits list.splits)
qed

lemma example_analysis:
  assumes "rp_tasks p = [t]" "st_agent t = ''agent.audit_agent''" "st_predecessors t = []" "st_mandatory t"
  shows "\<exists>res. execute_plan (analysis_env (agent_example calls late) st) p = Inr res \<and>
    rr_decision res = (if late t then Block else Allow_With_Log)"
proof -
  let ?env = "analysis_env (agent_example calls late) st"
  have h: "re_handler ?env ''agent.audit_agent'' = Some (\<lambda>t. if late t then Timed_Out else audit_outcome (agent_example calls late))"
    "re_layers ?env [t] = Some [[t]]" "\<And>r. re_audit ?env r = None"
    by (simp_all add: analysis_env_def agent_handler_def) (simp_all add: agent_example_def)
  define r where "r = run_one ?env Map.empty t"
  have r: "sr_audited r" "sr_decision r = (if late t then Block else Allow_With_Log)"
    using assms(2-4) by (simp_all add: r_def run_one_def blocked_predecessor_def record_audit_def h run_handler_of_def failure_def audit_outcome_def)
  have "execute_plan ?env p = Inr (fan_in p [r])"
    by (simp add: execute_plan_def assms(1) h Let_def run_generations_def run_generation_def r_def)
  then show ?thesis using r by (simp add: fan_in_def Let_def)
qed

lemma example_audit:
  obtains r w' where "call_skill (agent_example calls late) st ''traceaudit-gov'' [] (post_stage verdict) ''post_audit'' w = (Inr r, w')"
    "well_answered r" "aw_events w' = aw_events w"
proof -
  have "post_stage verdict \<in> {Stage_User_Input, Stage_Direct, Stage_Document_Upload, Stage_Tool_Call, Stage_Task_Completed,
       Stage_Task_Blocked, Stage_Approval}" by (simp add: post_stage_def)
  from example_call_skill[of "''traceaudit-gov''" "[]" "[]" "post_stage verdict" calls late st "''post_audit''" w, OF _ _ this]
  show thesis using that by auto
qed

text \<open>A run of one call, from what the call gives.\<close>

lemma example_run:
  fixes doc c
  defines "ls \<equiv> if doc = [] then [Public] else [Internal]"
  assumes call: "\<And>st w. example_state doc [c] = st\<lparr>as_analysis := [], as_notes := [], as_router := None, as_execution := None\<rparr> \<Longrightarrow>
      aw_gateway w = aw_gateway agent_start \<Longrightarrow>
      \<exists>ns ls' w'. run_agent_call (agent_example [c] late) st [] (Suc 0) c ls w = (Inr (rep, ns, ls'), w') \<and> aw_events w' = aw_events w"
  obtains res w' where "run_agent (agent_example [c] late) [] (agent_asks doc) agent_start = (Inr res, w')" "ar_reports res = [rep]"
    "tr_decision rep = Allow_With_Log \<Longrightarrow> ar_status res = ''completed''"
    "\<exists>t. (''T'', Ev_Router_Execution (if late t then Block else Allow_With_Log)) \<in> set (aw_events w')"
proof -
  let ?e = "agent_example [c] late"
  obtain ns w1 where i: "inspect_input ?e (start_trace ?e (agent_asks doc)) agent_start =
      (Inr ((start_trace ?e (agent_asks doc))\<lparr>as_analysis := agent_out, as_notes := ns, as_blocked := False\<rparr>), w1)"
      "aw_gateway w1 = aw_gateway agent_start" using example_inspect by blast
  define s1 where "s1 = (start_trace ?e (agent_asks doc))\<lparr>as_analysis := agent_out, as_notes := ns, as_blocked := False\<rparr>"
  obtain penv rv p t where p: "ag_retrieve ?e (as_task s1) = Some (penv, rv)" "route_plan penv route_request rv ''T'' = Inr p"
      "rp_tasks p = [t]" "st_agent t = ''agent.audit_agent''" "st_predecessors t = []" "st_mandatory t"
    using example_planned[of "[c]"] by blast
  have tr: "as_trace s1 = ''T''" by (simp add: s1_def start_trace_def)
  obtain w2 where r: "route_task ?e s1 w1 = (Inr (s1\<lparr>as_router := Some p, as_routing_failed := False\<rparr>), w2)" "aw_gateway w2 = aw_gateway w1"
    by (simp add: route_task_def p tr op_bind_try op_return_def)
  define s2 where "s2 = s1\<lparr>as_router := Some p, as_routing_failed := False\<rparr>"
  obtain w3 where pl: "plan_task ?e s2 w2 = (Inr (s2\<lparr>as_planning_failed := False, as_plan_id := ''PLAN-1'', as_calls := [c]\<rparr>), w3)"
      "aw_gateway w3 = aw_gateway w2"
    by (simp add: plan_task_def agent_plan_of_def op_bind_def op_return_def)
  define s3 where "s3 = s2\<lparr>as_planning_failed := False, as_plan_id := ''PLAN-1'', as_calls := [c]\<rparr>"
  obtain x where x: "execute_plan (analysis_env ?e (s3\<lparr>as_notes := as_notes s3 @ []\<rparr>)) p = Inr x"
      "rr_decision x = (if late t then Block else Allow_With_Log)"
    using example_analysis[OF p(3-6)] by blast
  obtain w4 where ex: "execute_route ?e [] s3 w3 = (Inr (s3\<lparr>as_execution := Some x\<rparr>), w4)" "aw_gateway w4 = aw_gateway w3"
      "(''T'', Ev_Router_Execution (rr_decision x)) \<in> set (aw_events w4)"
    using x(1) tr by (simp add: execute_route_def s3_def s2_def op_bind_try op_return_def Let_def)
  define s4 where "s4 = s3\<lparr>as_execution := Some x\<rparr>"
  note s_defs = s4_def s3_def s2_def s1_def
  have src: "source_dicts (as_analysis s4) = Some []" by (simp add: s_defs) code_simp
  have same: "example_state doc [c] = s4\<lparr>as_analysis := [], as_notes := [], as_router := None, as_execution := None\<rparr>"
    by (simp add: example_state_def s_defs start_trace_def)
  have lab: "input_labels s4 = ls" by (simp add: input_labels_def s_defs start_trace_def agent_asks_def ls_def)
  obtain ns' ls' w5 where c: "run_agent_call ?e s4 [] (Suc 0) c ls w4 = (Inr (rep, ns', ls'), w5)" "aw_events w5 = aw_events w4"
    using call[OF same, of w4] i(2) r(2) pl(2) ex(2) by auto
  define s5 where "s5 = s4\<lparr>as_reports := [rep], as_notes := as_notes s4 @ ns', as_labels := ls'\<rparr>"
  have et: "execute_tools ?e s4 w4 = (Inr s5, w5)"
    using c(1) by (simp add: execute_tools_def src lab s5_def op_bind_def op_return_def) (simp add: s_defs op_bind_def op_return_def)
  have st: "tr_decision rep = Allow_With_Log \<Longrightarrow> run_status s5 = ''completed''"
    using x(2) by (simp add: run_status_def router_decision_def s5_def s_defs start_trace_def)
  obtain w6 r' where audit: "call_skill ?e s5 ''traceaudit-gov'' [] (post_stage (run_status s5)) ''post_audit''
      (w5\<lparr>aw_events := aw_events w5 @ [(as_trace s5, Ev_Final_Output (run_status s5))]\<rparr>) = (Inr r', w6)" "well_answered r'"
      "aw_events w6 = aw_events w5 @ [(as_trace s5, Ev_Final_Output (run_status s5))]"
    using example_audit[of "[c]" late s5 "run_status s5" "w5\<lparr>aw_events := aw_events w5 @ [(as_trace s5, Ev_Final_Output (run_status s5))]\<rparr>"]
    by auto
  have rs5: "as_reports s5 = [rep]" by (simp add: s5_def)
  obtain w7 res where f: "finish_run ?e s5 w5 = (Inr res, w7)" "ar_status res = run_status s5" "ar_reports res = [rep]"
      "set (aw_events w5) \<subseteq> set (aw_events w7)"
    using audit by (simp add: finish_run_def Let_def op_bind_def op_return_def well_answered_def rs5 subset_insertI2)
  have run: "run_agent ?e [] (agent_asks doc) agent_start = (Inr res, w7)"
    using i(1) r(1) pl(1) ex(1) et f(1)
    by (simp add: run_agent_def op_bind_def s1_def[symmetric] s2_def[symmetric] s3_def[symmetric] s4_def[symmetric])
      (simp add: s_defs)
  have "(''T'', Ev_Router_Execution (if late t then Block else Allow_With_Log)) \<in> set (aw_events w7)"
    using ex(3) x(2) c(2) f(4) by auto
  then show thesis using that[OF run f(3)] f(2) st by auto
qed

lemma agent_start_gateway:
  "gw_releases (aw_gateway agent_start) = gw_releases demo_gateway" "gw_graph (aw_gateway agent_start) = empty_graph_store"
  "gw_ledger (aw_gateway agent_start) = \<lparr>us_rows = [], us_up = True\<rparr>" "gw_files (aw_gateway agent_start) = (\<lambda>_. Some ''text'')"
  "gw_approvals (aw_gateway agent_start) = empty_approvals"
  by (simp_all add: agent_start_def demo_gateway_def)

lemma read_run:
  obtains res w' rep where "run_agent (agent_example [read_call] late) [] (agent_asks []) agent_start = (Inr res, w')"
    "ar_reports res = [rep]" "tr_executed rep" "ar_status res = ''completed''"
    "\<exists>t. (''T'', Ev_Router_Execution (if late t then Block else Allow_With_Log)) \<in> set (aw_events w')"
proof -
  obtain out v where run: "guarded_tool_call agent_gateway_env (example_request [] read_call (Some read_ticket)) ''REQ'' ''APR'' 10
      (aw_gateway agent_start) = (Inr out, v)" "oc_executed out" "oc_decision out = Allow_With_Log"
    using read_runs agent_start_gateway by blast
  have stage: "compliance_stage (pc_tool read_call) = None" by (simp add: compliance_stage_def read_call_def)
  show thesis
  proof (rule example_run[where doc = "[]" and c = read_call and late = late and rep = "outcome_report read_call out"])
    fix st :: agent_state and w :: agent_world
    assume "example_state [] [read_call] = st\<lparr>as_analysis := [], as_notes := [], as_router := None, as_execution := None\<rparr>"
      "aw_gateway w = aw_gateway agent_start"
    from example_call[OF this stage read_issued[OF agent_start_gateway(1)] run(1), of late]
    show "\<exists>ns ls' w'. run_agent_call (agent_example [read_call] late) st [] (Suc 0) read_call (if [] = [] then [Public] else [Internal]) w =
        (Inr (outcome_report read_call out, ns, ls'), w') \<and> aw_events w' = aw_events w" by auto
  qed (use that run(2,3) in \<open>auto simp: outcome_report_def\<close>)
qed

lemma visit_run:
  obtains res w' rep where "run_agent (agent_example [visit_call] (\<lambda>_. False)) [] (agent_asks ''doc'') agent_start = (Inr res, w')"
    "ar_reports res = [rep]" "tr_tool rep = ''browser_visit''"
proof -
  obtain out v where run: "guarded_tool_call agent_gateway_env (example_request ''doc'' visit_call (Some visit_token)) ''REQ'' ''APR'' 10
      (aw_gateway agent_start) = (Inr out, v)"
    using visit_waits agent_start_gateway by blast
  have stage: "compliance_stage (pc_tool visit_call) = None" by (simp add: compliance_stage_def visit_call_def)
  show thesis
  proof (rule example_run[where doc = "''doc''" and c = visit_call and late = "\<lambda>_. False" and rep = "outcome_report visit_call out"])
    fix st :: agent_state and w :: agent_world
    assume "example_state ''doc'' [visit_call] = st\<lparr>as_analysis := [], as_notes := [], as_router := None, as_execution := None\<rparr>"
      "aw_gateway w = aw_gateway agent_start"
    from example_call[OF this stage visit_issued[OF agent_start_gateway(1)] run(1), of "\<lambda>_. False"]
    show "\<exists>ns ls' w'. run_agent_call (agent_example [visit_call] (\<lambda>_. False)) st [] (Suc 0) visit_call (if ''doc'' = [] then [Public] else [Internal]) w =
        (Inr (outcome_report visit_call out, ns, ls'), w') \<and> aw_events w' = aw_events w" by auto
  qed (use that in \<open>auto simp: outcome_report_def visit_call_def\<close>)
qed

text \<open>Nothing planned, no route.\<close>

lemma unrouted_run:
  obtains res w' where "run_agent (agent_example [] (\<lambda>_. False)) [] (agent_asks []) agent_start = (Inr res, w')"
proof -
  let ?e = "agent_example [] (\<lambda>_. False)"
  obtain ns w1 where i: "inspect_input ?e (start_trace ?e (agent_asks [])) agent_start =
      (Inr ((start_trace ?e (agent_asks []))\<lparr>as_analysis := agent_out, as_notes := ns, as_blocked := False\<rparr>), w1)"
    using example_inspect by blast
  define s1 where "s1 = (start_trace ?e (agent_asks []))\<lparr>as_analysis := agent_out, as_notes := ns, as_blocked := False\<rparr>"
  have none: "ag_retrieve ?e t = None" for t by (simp add: agent_example_def)
  define s2 where "s2 = s1\<lparr>as_router := None, as_routing_failed := True\<rparr>"
  obtain w2 where r: "route_task ?e s1 w1 = (Inr s2, w2)"
    by (simp add: route_task_def none routing_error_def op_bind_def op_return_def s2_def)
  let ?w = "w2\<lparr>aw_events := aw_events w2 @ [(as_trace s2, Ev_Final_Output (run_status s2))]\<rparr>"
  obtain w3 r' where audit: "call_skill ?e s2 ''traceaudit-gov'' [] (post_stage (run_status s2)) ''post_audit'' ?w = (Inr r', w3)" "well_answered r'"
    by (rule example_audit)
  obtain w4 res where "finish_run ?e s2 w2 = (Inr res, w4)"
    using audit by (simp add: finish_run_def Let_def op_bind_def op_return_def well_answered_def)
  then show thesis
    using that[of res w4] i r by (simp add: run_agent_def op_bind_def s1_def[symmetric]) (simp add: s2_def s1_def op_bind_def)
qed

end
