(* ===== verification/AgentProps.thy ===== *)
theory AgentProps
  imports AgentDemo
begin

text \<open>
  The properties of the governed agent: what stands behind every tool it executes, what leaves it,
  when it does nothing, what a completed run means, and the plans it accepts; at the end, two ways
  in which the code is weaker than it says.
\<close>


text \<open>Only public data leaves on the agent's own decision: once a run works on a document, or one of its
  tool results carried a label above public, no later call of that run to a tool that reaches outside is
  executed.\<close>

theorem agent_sends_only_public_data:
  assumes "run_agent env an q w = (Inr res, w')" "j < length (ar_reports res)"
    and "tr_tool (ar_reports res ! j) \<in> set external_tools"
    and "aq_document q \<noteq> [] \<or> (\<exists>i < j. \<exists>l \<in> set (tr_labels (ar_reports res ! i)). l \<noteq> Public)"
  shows "\<not> tr_executed (ar_reports res ! j)"
proof -
  obtain plan st sources ls u ns ls' v where "ag_planner env (aq_task q) = Some plan" and st: "acts_for env q st"
    and "as_calls st = ap_steps plan" "length (ar_reports res) = length (ap_steps plan)"
    and run: "run_agent_call env st sources (Suc j) (ap_steps plan ! j) ls u = (Inr (ar_reports res ! j, ns, ls'), v)"
    and l: "set (input_labels st) \<subseteq> set ls" "\<forall>i < j. set (tr_labels (ar_reports res ! i)) \<subseteq> set ls"
    and t: "\<forall>i < length (ar_reports res). tr_tool (ar_reports res ! i) = pc_tool (ap_steps plan ! i)"
    using assms(1,2) by (rule run_agent_reports)
  have "\<exists>k \<in> set ls. k \<noteq> Public"
    using assms(4) l st by (auto simp: input_labels_def acts_for_def)
  then obtain k where "k \<in> set ls" "k \<noteq> Public" by blast
  from run_agent_call_external[OF run _ this] show ?thesis using assms(2,3) t by simp
qed

text \<open>C3: A run that cannot be governed runs nothing: when the input inspection fails or blocks, the
  capability retrieval or the planner gives nothing, or the run ends as a routing or planning failure,
  no tool call is reported and the gateway, with its files, tickets, approvals and log, is as it was.\<close>

theorem agent_fails_closed:
  assumes run: "run_agent env an q w = (Inr res, w')"
    and closed: "(\<exists>r u. call_skill env (start_trace env q) ''promptshield-gov'' [(''text'', PStr (aq_task q)), (''source'', PStr ''user_input'')]
         Stage_User_Input ''input_user'' w = (Inr r, u) \<and> \<not> sp_success r) \<or>
      (\<exists>st u. inspect_input env (start_trace env q) w = (Inr st, u) \<and> as_blocked st) \<or>
      ag_retrieve env (aq_task q) = None \<or> ag_planner env (aq_task q) = None \<or>
      ar_status res \<in> {''routing_failed'', ''planning_failed''}"
  shows "ar_reports res = [] \<and> aw_gateway w' = aw_gateway w"
  using run
proof (cases rule: run_agent_cases)
  case (stopped st u)
  then show ?thesis using finish_reports[OF stopped(4)] op_keepsD[OF finish_gateway refl stopped(4)] by simp
next
  case (tools plan st sources reps ns labels u v st0 u0)
  let ?st = "st\<lparr>as_reports := reps, as_notes := as_notes st @ ns, as_labels := labels\<rparr>"
  have "run_status ?st \<notin> {''routing_failed'', ''planning_failed''}" using tools(7,8,9) by (simp add: run_status_def)
  then have status: "ar_status res \<notin> {''routing_failed'', ''planning_failed''}"
    using finish_status[OF tools(12)] by auto
  have shield: "sp_success r" if "call_skill env (start_trace env q) ''promptshield-gov'' [(''text'', PStr (aq_task q)), (''source'', PStr ''user_input'')]
         Stage_User_Input ''input_user'' w = (Inr r, u)" for r u
  proof (rule ccontr)
    assume "\<not> sp_success r"
    then have "as_blocked st0"
      using inspect_failed[OF tools(1), of r u] that by (simp add: start_trace_def)
    then show False using tools(2) by simp
  qed
  from closed tools(1,2,3,4) status shield show ?thesis by auto
qed


section \<open>Witnesses\<close>


theorem agent_sends_only_public_data_witness:
  "\<exists>res w' rep. run_agent (agent_example [visit_call] (\<lambda>_. False)) [] (agent_asks ''doc'') agent_start = (Inr res, w') \<and>
     ar_reports res = [rep] \<and> tr_tool rep = ''browser_visit'' \<and> \<not> tr_executed rep"
proof -
  obtain res w' rep where r: "run_agent (agent_example [visit_call] (\<lambda>_. False)) [] (agent_asks ''doc'') agent_start = (Inr res, w')"
    "ar_reports res = [rep]" "tr_tool rep = ''browser_visit''" by (rule visit_run)
  have "\<not> tr_executed (ar_reports res ! 0)"
    by (rule agent_sends_only_public_data[OF r(1)]) (simp_all add: r(2,3) external_tools_def agent_asks_def)
  then show ?thesis using r by simp
qed

theorem agent_fails_closed_witness:
  "\<exists>res w'. run_agent (agent_example [] (\<lambda>_. False)) [] (agent_asks []) agent_start = (Inr res, w') \<and>
     ar_reports res = [] \<and> aw_gateway w' = aw_gateway agent_start"
proof -
  obtain res w' where r: "run_agent (agent_example [] (\<lambda>_. False)) [] (agent_asks []) agent_start = (Inr res, w')"
    by (rule unrouted_run)
  have "ag_retrieve (agent_example [] (\<lambda>_. False)) (aq_task (agent_asks [])) = None" by (simp add: agent_example_def)
  then show ?thesis using agent_fails_closed[OF r] r by blast
qed


section \<open>What the flow does not enforce\<close>

text \<open>
  The router's verdict is not enforced: a run whose analysis ended in \<open>Block\<close> (here the audit agent
  timed out) executes its tools all the same and is reported as completed.
\<close>

lemma router_verdict_not_enforced:
  "\<exists>res w'. run_agent (agent_example [read_call] (\<lambda>_. True)) [] (agent_asks []) agent_start = (Inr res, w') \<and>
     (''T'', Ev_Router_Execution Block) \<in> set (aw_events w') \<and> list_all tr_executed (ar_reports res) \<and>
     ar_reports res \<noteq> [] \<and> ar_status res = ''completed''"
proof -
  obtain res w' rep where r: "run_agent (agent_example [read_call] (\<lambda>_. True)) [] (agent_asks []) agent_start = (Inr res, w')"
    "ar_reports res = [rep]" "tr_executed rep" "ar_status res = ''completed''"
    "\<exists>t::sub_task. (''T'', Ev_Router_Execution (if True then Block else Allow_With_Log)) \<in> set (aw_events w')"
    by (rule read_run[of "\<lambda>_. True"])
  then show ?thesis by auto
qed

section \<open>Plans\<close>

text \<open>C39: Whatever a planner sends, a plan the agent accepts is well formed: it has at most 16 steps, numbered from
  one, each waits only for earlier steps and names a registered tool with arguments of that tool's schema,
  every required text present and within its bounds; and its identifier is the digest of the task and of
  exactly these steps.\<close>

theorem planned_steps_validated:
  assumes "validate_plan_payload sha task payload planner model = Some plan"
  shows "length (ap_steps plan) \<le> 16 \<and> ap_id plan = stable_plan_id sha task (ap_steps plan) \<and>
    (\<forall>j < length (ap_steps plan). step_ok (Suc j) (ap_steps plan ! j))"
proof -
  have "\<exists>raw. length raw \<le> 16 \<and> read_steps 1 raw = Some (ap_steps plan) \<and> ap_id plan = stable_plan_id sha task (ap_steps plan)"
    using assms unfolding validate_plan_payload_def
    by (auto simp: not_less split: pyval.splits if_splits option.splits intro: exI[of _ "[] :: pyval list"])
  then obtain raw where p: "length raw \<le> 16" "read_steps 1 raw = Some (ap_steps plan)" "ap_id plan = stable_plan_id sha task (ap_steps plan)"
    by blast
  from read_steps_ok[OF p(2)] p show ?thesis by simp
qed

definition two_steps :: pyval where
  "two_steps = PDict [(''summary'', PStr ''s''), (''steps'', PList
     [PDict [(''tool_name'', PStr ''file_read''), (''tool_args'', PDict [(''path'', PStr ''/data/public/a'')])],
      PDict [(''tool_name'', PStr ''browser_visit''), (''tool_args'', PDict [(''url'', PStr ''https://www.gov.cn/a'')])]])]"

theorem planned_steps_validated_witness:
  "\<exists>plan. validate_plan_payload (\<lambda>_. ''id'') ''t'' two_steps ''dify'' ''m'' = Some plan \<and> step_ok 2 (ap_steps plan ! 1)"
proof -
  have args: "validate_tool_args ''file_read'' [(''path'', PStr ''/data/public/a'')] = Some [(''path'', PStr ''/data/public/a'')]"
    "validate_tool_args ''browser_visit'' [(''url'', PStr ''https://www.gov.cn/a'')] = Some [(''url'', PStr ''https://www.gov.cn/a'')]"
    by (simp_all add: validate_tool_args_def tool_models_def dict_get_def)
  have "\<exists>plan. validate_plan_payload (\<lambda>_. ''id'') ''t'' two_steps ''dify'' ''m'' = Some plan \<and> length (ap_steps plan) = 2"
    by (simp add: validate_plan_payload_def two_steps_def dict_get_def read_step_def predecessors_of_def args planner_types_def)
  then obtain plan where p: "validate_plan_payload (\<lambda>_. ''id'') ''t'' two_steps ''dify'' ''m'' = Some plan" "length (ap_steps plan) = 2"
    by blast
  have "step_ok (Suc 1) (ap_steps plan ! 1)" using planned_steps_validated[OF p(1)] p(2) by simp
  then show ?thesis using p(1) by (simp add: numeral_2_eq_2)
qed

section \<open>The resilient planner\<close>

lemma pass_circuit_calls: "pass_circuit env s = (r, t) \<Longrightarrow> pl_calls t = pl_calls s"
  by (auto simp: pass_circuit_def split: prod.splits)

lemma plan_attempts_calls: "plan_attempts env left s = (r, t) \<Longrightarrow> pl_calls t \<le> pl_calls s + left"
proof (induction left arbitrary: s)
  case (Suc left)
  obtain a u where a: "ask_planner env s = (a, u)" "pl_calls u = Suc (pl_calls s)" by (simp add: ask_planner_def)
  show ?case
  proof (cases a)
    case (Inr plan)
    then show ?thesis using Suc.prems a by auto
  next
    case (Inl e)
    show ?thesis
    proof (cases "e = Plan_Rejected \<or> left = 0")
      case True
      then show ?thesis using Suc.prems a Inl by (cases e) (auto simp: note_transport_failure_def Let_def)
    next
      case False
      then have e: "e = Plan_Transport" by (cases e) simp_all
      obtain q v where q: "pass_circuit env (note_transport_failure env u) = (q, v)" by fastforce
      have v: "pl_calls v = Suc (pl_calls s)" using pass_circuit_calls[OF q] a(2) by (simp add: note_transport_failure_def Let_def)
      show ?thesis
      proof (cases q)
        case (Inl e')
        then show ?thesis using Suc.prems a \<open>a = Inl e\<close> e q v False by (auto simp: Let_def)
      next
        case (Inr x)
        then have "plan_attempts env left v = (r, t)" using Suc.prems a \<open>a = Inl e\<close> e q False by (simp add: Let_def)
        from Suc.IH[OF this] v show ?thesis by simp
      qed
    qed
  qed
qed simp

text \<open>C40: The resilient planner always answers: a request asks the planner at most as often as it has attempts, and
  while the circuit is open and its recovery time has not passed it is refused without asking.\<close>

theorem resilient_planner_bounded:
  assumes "resilient_plan env s = (r, t)"
  shows "pl_calls t \<le> pl_calls s + pn_attempts env \<and>
    (\<forall>since. pk_opened (pl_circuit s) = Some since \<and> pn_clock env (pl_ticks s) - since < pk_recovery_ms (pl_circuit s) \<longrightarrow>
       pl_calls t = pl_calls s \<and> r = Inl Plan_Rejected)"
proof -
  obtain q u where q: "pass_circuit env s = (q, u)" by fastforce
  note c = pass_circuit_calls[OF q]
  have bound: "pl_calls t \<le> pl_calls s + pn_attempts env"
  proof (cases q)
    case (Inl e)
    then show ?thesis using assms q c by (simp add: resilient_plan_def op_bind_def)
  next
    case (Inr x)
    then have "plan_attempts env (pn_attempts env) u = (r, t)" using assms q by (simp add: resilient_plan_def op_bind_def)
    from plan_attempts_calls[OF this] c show ?thesis by simp
  qed
  have "pl_calls t = pl_calls s \<and> r = Inl Plan_Rejected"
    if "pk_opened (pl_circuit s) = Some since" "pn_clock env (pl_ticks s) - since < pk_recovery_ms (pl_circuit s)" for since
    using assms that by (auto simp: resilient_plan_def op_bind_def pass_circuit_def before_call_def)
  with bound show ?thesis by blast
qed

definition failing_planner :: planner_env where
  "failing_planner = \<lparr>pn_answer = \<lambda>_. Inl Plan_Transport, pn_clock = \<lambda>n. int n, pn_attempts = 2\<rparr>"

theorem resilient_planner_bounded_witness:
  "\<exists>t. resilient_plan failing_planner \<lparr>pl_circuit = (new_circuit 3 100)\<lparr>pk_opened := Some 0\<rparr>, pl_calls = 5, pl_ticks = 7\<rparr> =
     (Inl Plan_Rejected, t) \<and> pl_calls t = 5"
proof -
  let ?s = "\<lparr>pl_circuit = (new_circuit 3 100)\<lparr>pk_opened := Some 0\<rparr>, pl_calls = 5, pl_ticks = 7\<rparr>"
  obtain r t where run: "resilient_plan failing_planner ?s = (r, t)" by fastforce
  have "pl_calls t = pl_calls ?s \<and> r = Inl Plan_Rejected"
    using resilient_planner_bounded[OF run] by (auto simp: failing_planner_def new_circuit_def)
  then show ?thesis using run by simp
qed

text \<open>
  A probe that the planner answers with a rejection (\<open>PlanningError\<close>) is neither a success nor a
  transport failure: the circuit stays half open with its probe taken, and every later request is
  refused without asking, for ever.
\<close>

lemma rejected_probe_jams_planner:
  assumes probe: "pk_opened (pl_circuit s) = Some since" "pk_recovery_ms (pl_circuit s) \<le> pn_clock env (pl_ticks s) - since"
    and reject: "pn_answer env (pl_calls s) = Inl Plan_Rejected" "0 < pn_attempts env" and run: "resilient_plan env s = (r, t)"
  shows "resilient_plan env t = (Inl Plan_Rejected, t)"
proof -
  have "pk_opened (pl_circuit t) = None \<and> pk_probe (pl_circuit t)"
    using probe reject run
    by (cases "pn_attempts env") (auto simp: resilient_plan_def op_bind_def pass_circuit_def before_call_def ask_planner_def)
  then show ?thesis by (simp add: resilient_plan_def op_bind_def pass_circuit_def before_call_def)
qed

end
