(* ===== verification/GraphContracts.thy ===== *)
theory GraphContracts
  imports Contracts
begin

text \<open>
  The capability graph's data, \<^verbatim>\<open>safeagent_gov/graphify/contracts.py\<close>: node and edge types with
  their field constraints, and the records the store keeps beside them. Weights, confidences and
  rates are exact rationals.
\<close>

datatype node_type =
    Task_Intent | Sub_Agent | Skill_Node | Mcp_Tool | Policy_Node | Risk_Type | Model_Provider
  | Test_Case | Trace_Pattern | Permission_Role | Data_Source

datatype edge_relation =
    Requires_Skill | Routes_To_Agent | Can_Use_Skill | Can_Call_Tool | Guards | Governed_By
  | Produces_Risk | Requires_Approval | Suitable_For | Validates | Suggests_Path | Accepts_Source

fun node_type_value :: "node_type \<Rightarrow> string" where
  "node_type_value Task_Intent = ''TaskIntent''"
| "node_type_value Sub_Agent = ''SubAgent''"
| "node_type_value Skill_Node = ''Skill''"
| "node_type_value Mcp_Tool = ''MCPTool''"
| "node_type_value Policy_Node = ''Policy''"
| "node_type_value Risk_Type = ''RiskType''"
| "node_type_value Model_Provider = ''ModelProvider''"
| "node_type_value Test_Case = ''TestCase''"
| "node_type_value Trace_Pattern = ''TracePattern''"
| "node_type_value Permission_Role = ''PermissionRole''"
| "node_type_value Data_Source = ''DataSource''"

fun relation_value :: "edge_relation \<Rightarrow> string" where
  "relation_value Requires_Skill = ''requires_skill''"
| "relation_value Routes_To_Agent = ''routes_to_agent''"
| "relation_value Can_Use_Skill = ''can_use_skill''"
| "relation_value Can_Call_Tool = ''can_call_tool''"
| "relation_value Guards = ''guards''"
| "relation_value Governed_By = ''governed_by''"
| "relation_value Produces_Risk = ''produces_risk''"
| "relation_value Requires_Approval = ''requires_approval''"
| "relation_value Suitable_For = ''suitable_for''"
| "relation_value Validates = ''validates''"
| "relation_value Suggests_Path = ''suggests_path''"
| "relation_value Accepts_Source = ''accepts_source''"

section \<open>Nodes and edges\<close>

record capability_node =
  cn_id :: string
  cn_type :: node_type
  cn_name :: string
  cn_summary :: string
  cn_card :: string
  cn_inputs :: "string list"
  cn_outputs :: "string list"
  cn_risk :: string
  cn_mandatory :: bool
  cn_path :: "string option"
  cn_enabled :: bool
  cn_version :: string
  cn_hash :: string
  cn_metadata :: pydict

record capability_edge =
  ce_id :: string
  ce_source :: string
  ce_relation :: edge_relation
  ce_target :: string
  ce_weight :: rat
  ce_confidence :: rat
  ce_source_type :: string

definition is_word :: "char \<Rightarrow> bool" where
  "is_word c \<longleftrightarrow> is_lower c \<or> is_digit c \<or> c = CHR ''_''"

text \<open>\<open>^[a-z][a-z0-9_]*(\.[a-z0-9_]+)+$\<close>\<close>

definition dotted_id :: "string \<Rightarrow> bool" where
  "dotted_id s \<longleftrightarrow>
     (let ps = split_on (CHR ''.'') s
      in 2 \<le> length ps \<and> list_all (\<lambda>p. p \<noteq> [] \<and> list_all is_word p) ps \<and> is_lower (hd s))"

definition valid_node :: "capability_node \<Rightarrow> bool" where
  "valid_node n \<longleftrightarrow>
     dotted_id (cn_id n) \<and> length (cn_id n) \<le> 200 \<and> len_between 1 200 (cn_name n) \<and>
     length (cn_summary n) \<le> 2000 \<and> length (cn_card n) \<le> 2000 \<and> length (cn_inputs n) \<le> 100 \<and>
     length (cn_outputs n) \<le> 100 \<and> length (cn_risk n) \<le> 80 \<and>
     (case cn_path n of None \<Rightarrow> True | Some p \<Rightarrow> length p \<le> 1000) \<and>
     length (cn_version n) \<le> 80 \<and> is_sha256_hex (cn_hash n)"

definition valid_edge :: "capability_edge \<Rightarrow> bool" where
  "valid_edge e \<longleftrightarrow>
     is_sha256_hex (ce_id e) \<and> 0 \<le> ce_weight e \<and> ce_weight e \<le> 1 \<and> 0 \<le> ce_confidence e \<and>
     ce_confidence e \<le> 1 \<and> length (ce_source_type e) \<le> 80"

record scan_snapshot =
  ss_version :: string
  ss_digest :: string
  ss_tokens :: int
  ss_nodes :: "capability_node list"
  ss_edges :: "capability_edge list"

record build_result =
  gb_version :: string
  gb_digest :: string
  gb_nodes :: nat
  gb_edges :: nat
  gb_added :: "string list"
  gb_updated :: "string list"
  gb_removed :: "string list"
  gb_signed :: nat
  gb_approved :: "string list"
  gb_unchanged :: bool

section \<open>Governance and learned paths\<close>

record governance_record =
  gv_node :: string
  gv_hash :: string
  gv_sig :: string
  gv_key :: string
  gv_status :: string
  gv_by :: string
  gv_at :: string
  gv_level :: string
  gv_score :: int

definition valid_governance :: "governance_record \<Rightarrow> bool" where
  "valid_governance g \<longleftrightarrow>
     is_sha256_hex (gv_hash g) \<and> is_sha256_hex (gv_sig g) \<and> len_between 1 80 (gv_key g) \<and>
     (gv_status g = ''approved'' \<or> gv_status g = ''rejected'') \<and> len_between 1 160 (gv_by g) \<and>
     length (gv_level g) \<le> 80 \<and> 0 \<le> gv_score g \<and> gv_score g \<le> 100"

record trace_pattern =
  pt_id :: string
  pt_intent :: string
  pt_path :: "string list"
  pt_successes :: nat
  pt_failures :: nat
  pt_rate :: rat
  pt_trace :: string
  pt_sig :: string
  pt_key :: string
  pt_at :: string

definition valid_pattern :: "trace_pattern \<Rightarrow> bool" where
  "valid_pattern p \<longleftrightarrow>
     startswith (pt_id p) ''trace.'' \<and> length (pt_id p) = 30 \<and> list_all is_hex (drop 6 (pt_id p)) \<and>
     startswith (pt_intent p) ''intent.'' \<and> drop 7 (pt_intent p) \<noteq> [] \<and>
     list_all is_word (drop 7 (pt_intent p)) \<and> 1 \<le> length (pt_path p) \<and> length (pt_path p) \<le> 100 \<and>
     0 \<le> pt_rate p \<and> pt_rate p \<le> 1 \<and> len_between 1 160 (pt_trace p) \<and> is_sha256_hex (pt_sig p) \<and>
     len_between 1 80 (pt_key p)"

section \<open>Retrieval\<close>

record candidate =
  cd_node :: string
  cd_name :: string
  cd_score :: rat
  cd_mandatory :: bool
  cd_card :: string
  cd_path :: "string list"

record search_request =
  gq_query :: string
  gq_scenario :: string
  gq_budget :: int
  gq_top_k :: int

definition valid_search :: "search_request \<Rightarrow> bool" where
  "valid_search q \<longleftrightarrow>
     len_between 1 50000 (gq_query q) \<and> length (gq_scenario q) \<le> 160 \<and> 200 \<le> gq_budget q \<and>
     gq_budget q \<le> 20000 \<and> 1 \<le> gq_top_k q \<and> gq_top_k q \<le> 50"

record search_result =
  gf_intent :: string
  gf_intent_score :: rat
  gf_skills :: "candidate list"
  gf_tools :: "candidate list"
  gf_agents :: "candidate list"
  gf_policies :: "candidate list"
  gf_recommended :: "string list"
  gf_learned :: "(rat \<times> nat) option"
  gf_budget :: int
  gf_estimated :: int
  gf_within :: bool
  gf_full :: int
  gf_saved :: int
  gf_reduction :: rat

record graph_health =
  gh_healthy :: bool
  gh_stale :: bool
  gh_orphans :: "string list"
  gh_missing_schema :: "string list"
  gh_unguarded :: "string list"
  gh_ungoverned :: "string list"
  gh_invalid :: "string list"
  gh_unapproved :: "string list"

record graph_stats =
  gs_version :: string
  gs_digest :: string
  gs_nodes :: nat
  gs_edges :: nat
  gs_node_types :: "(string \<times> nat) list"
  gs_relations :: "(string \<times> nat) list"
  gs_tokens :: int

end
