(* ===== verification/GraphStore.thy ===== *)
theory GraphStore
  imports GraphContracts AuditChain
begin

text \<open>
  The store of the capability graph, \<^verbatim>\<open>safeagent_gov/graphify/store.py\<close>, over its SQLite tables,
  with the signatures of \<open>signing.py\<close>: the atomic replacement of the active snapshot under review,
  the verification of the governance records, the learned trace patterns and the projection of
  everything into one graph. SHA-256, the keyed MAC, its key identifier and \<open>json.loads\<close> are those of
  the audit trail; the clock is an argument. An error of a transaction leaves the tables as they were.
\<close>

section \<open>Signatures\<close>

definition node_digest :: "audit_env \<Rightarrow> string \<Rightarrow> string \<Rightarrow> string \<Rightarrow> string" where
  "node_digest env n h v = ae_sha env (''graphify-node-v1:'' @ n @ '':'' @ h @ '':'' @ v)"

definition sign_node :: "audit_env \<Rightarrow> string \<Rightarrow> string \<Rightarrow> string \<Rightarrow> string" where
  "sign_node env n h v = ae_mac env (node_digest env n h v)"

definition verify_node :: "audit_env \<Rightarrow> string \<Rightarrow> string \<Rightarrow> string \<Rightarrow> string \<Rightarrow> bool" where
  "verify_node env n h v sig \<longleftrightarrow> sig \<noteq> [] \<and> sig = sign_node env n h v"

definition trace_pattern_digest ::
    "audit_env \<Rightarrow> string \<Rightarrow> string \<Rightarrow> nat \<Rightarrow> nat \<Rightarrow> string \<Rightarrow> string" where
  "trace_pattern_digest env intent path good bad trace =
     ae_sha env (''graphify-trace-pattern-v1:'' @ intent @ '':'' @ path @ '':'' @ show_nat good @ '':'' @
       show_nat bad @ '':'' @ trace)"

definition sign_trace_pattern ::
    "audit_env \<Rightarrow> string \<Rightarrow> string \<Rightarrow> nat \<Rightarrow> nat \<Rightarrow> string \<Rightarrow> string" where
  "sign_trace_pattern env intent path good bad trace =
     ae_mac env (trace_pattern_digest env intent path good bad trace)"

definition verify_trace_pattern ::
    "audit_env \<Rightarrow> string \<Rightarrow> string \<Rightarrow> nat \<Rightarrow> nat \<Rightarrow> string \<Rightarrow> string \<Rightarrow> bool" where
  "verify_trace_pattern env intent path good bad trace sig \<longleftrightarrow>
     sig \<noteq> [] \<and> sig = sign_trace_pattern env intent path good bad trace"

section \<open>Tables\<close>

record graph_meta =
  gm_version :: string
  gm_digest :: string
  gm_tokens :: int

record pattern_row =
  tp_id :: string
  tp_intent :: string
  tp_path_json :: string
  tp_good :: nat
  tp_bad :: nat
  tp_trace :: string
  tp_sig :: string
  tp_key :: string
  tp_at :: string

record observation =
  ob_trace :: string
  ob_pattern :: string
  ob_succeeded :: bool
  ob_at :: string

record graph_db =
  gd_nodes :: "capability_node list"
  gd_edges :: "capability_edge list"
  gd_meta :: "graph_meta option"
  gd_governance :: "governance_record list"
  gd_patterns :: "pattern_row list"
  gd_observations :: "observation list"

definition new_graph_db :: graph_db where
  "new_graph_db = \<lparr>gd_nodes = [], gd_edges = [], gd_meta = None, gd_governance = [], gd_patterns = [],
     gd_observations = []\<rparr>"

datatype graph_error =
    Review_Required "string list"
  | Duplicate_Trace
  | Unknown_Intent
  | Unregistered_Path "string list"
  | Bad_Signature string
  | Not_Built
  | Node_Not_Found
  | Integrity_Error
  | Invalid_Record
  | No_Intent
  | Graph_Misconfigured
  | Crash
  | Trace_Rejected
  | Audit_Failed audit_error

type_synonym 'a graph_op = "(graph_db, graph_error, 'a) op"

section \<open>Replacing the snapshot\<close>

definition protected_type :: "node_type \<Rightarrow> bool" where
  "protected_type t \<longleftrightarrow> t = Skill_Node \<or> t = Mcp_Tool"

definition stored_hash :: "graph_db \<Rightarrow> string \<Rightarrow> string option" where
  "stored_hash db k = map_option cn_hash (row_get cn_id k (gd_nodes db))"

text \<open>A dictionary built from a list: the last entry of a key counts.\<close>

definition last_hash :: "capability_node list \<Rightarrow> string \<Rightarrow> string option" where
  "last_hash ns k = map_option cn_hash (row_get cn_id k (rev ns))"

definition sorted_set :: "string list \<Rightarrow> string list" where
  "sorted_set xs = sort (remdups xs)"

definition changed_protected :: "scan_snapshot \<Rightarrow> graph_db \<Rightarrow> string list" where
  "changed_protected sn db =
     sort (map cn_id (filter (\<lambda>n. protected_type (cn_type n) \<and> stored_hash db (cn_id n) \<noteq> Some (cn_hash n)) (ss_nodes sn)))"

definition snapshot_unchanged :: "scan_snapshot \<Rightarrow> graph_db \<Rightarrow> bool" where
  "snapshot_unchanged sn db \<longleftrightarrow>
     gd_nodes db \<noteq> [] \<and> map_option gm_digest (gd_meta db) = Some (ss_digest sn) \<and>
     list_all (\<lambda>k. stored_hash db k = last_hash (ss_nodes sn) k) (map cn_id (gd_nodes db) @ map cn_id (ss_nodes sn)) \<and>
     set (map ce_id (gd_edges db)) = set (map ce_id (ss_edges sn))"

definition or_default :: "string option \<Rightarrow> string \<Rightarrow> string" where
  "or_default s d = (case s of None \<Rightarrow> d | Some t \<Rightarrow> if t = [] then d else t)"

definition standing_record :: "graph_db \<Rightarrow> capability_node \<Rightarrow> governance_record option" where
  "standing_record db n =
     (case row_get gv_node (cn_id n) (gd_governance db) of
        None \<Rightarrow> None
      | Some g \<Rightarrow> if gv_hash g = cn_hash n then Some g else None)"

definition governance_row ::
    "audit_env \<Rightarrow> string option \<Rightarrow> (string \<Rightarrow> (string \<times> int) option) \<Rightarrow> string \<Rightarrow> graph_db \<Rightarrow>
     capability_node \<Rightarrow> governance_record" where
  "governance_row env reviewer scans now db n =
     (let fresh = \<lparr>gv_node = cn_id n, gv_hash = cn_hash n,
            gv_sig = sign_node env (cn_id n) (cn_hash n) (cn_version n), gv_key = ae_key env,
            gv_status = ''approved'',
            gv_by = (if protected_type (cn_type n) then or_default reviewer ''repository-bootstrap''
              else ''graph-policy-auto''),
            gv_at = now,
            gv_level = (case scans (cn_id n) of None \<Rightarrow> ''not_applicable'' | Some (l, _) \<Rightarrow> l),
            gv_score = (case scans (cn_id n) of None \<Rightarrow> 0 | Some (_, s) \<Rightarrow> s)\<rparr>
      in case standing_record db n of
           None \<Rightarrow> fresh
         | Some g \<Rightarrow> fresh\<lparr>gv_by := gv_by g, gv_at := gv_at g, gv_level := gv_level g, gv_score := gv_score g\<rparr>)"

text \<open>The constraints of the tables: primary keys, foreign keys and \<open>CHECK\<close>.\<close>

definition tables_accept :: "scan_snapshot \<Rightarrow> governance_record list \<Rightarrow> bool" where
  "tables_accept sn gov \<longleftrightarrow>
     distinct (map cn_id (ss_nodes sn)) \<and> distinct (map ce_id (ss_edges sn)) \<and>
     list_all (\<lambda>e. ce_source e \<in> set (map cn_id (ss_nodes sn)) \<and> ce_target e \<in> set (map cn_id (ss_nodes sn))) (ss_edges sn) \<and>
     list_all (\<lambda>g. 0 \<le> gv_score g \<and> gv_score g \<le> 100) gov"

definition replace_snapshot ::
    "audit_env \<Rightarrow> scan_snapshot \<Rightarrow> string option \<Rightarrow> (string \<Rightarrow> (string \<times> int) option) \<Rightarrow> string \<Rightarrow>
     build_result graph_op" where
  "replace_snapshot env sn reviewer scans now db =
     (let old = map cn_id (gd_nodes db); new = map cn_id (ss_nodes sn); changed = changed_protected sn db;
          gov = map (governance_row env reviewer scans now db) (ss_nodes sn);
          unchanged = snapshot_unchanged sn db;
          result = \<lparr>gb_version = ss_version sn, gb_digest = ss_digest sn, gb_nodes = length (ss_nodes sn),
            gb_edges = length (ss_edges sn),
            gb_added = sorted_set (filter (\<lambda>k. k \<notin> set old) new),
            gb_updated = sorted_set (filter (\<lambda>k. k \<in> set old \<and> stored_hash db k \<noteq> last_hash (ss_nodes sn) k) new),
            gb_removed = sorted_set (filter (\<lambda>k. k \<notin> set new) old),
            gb_signed = length (ss_nodes sn),
            gb_approved = map cn_id (filter (\<lambda>n. protected_type (cn_type n) \<and> standing_record db n = None) (ss_nodes sn)),
            gb_unchanged = unchanged\<rparr>
      in if old \<noteq> [] \<and> changed \<noteq> [] \<and> \<not> set_field reviewer then (Inl (Review_Required changed), db)
         else if unchanged then (Inr result, db)
         else if \<not> tables_accept sn gov then (Inl Integrity_Error, db)
         else (Inr result, db\<lparr>gd_nodes := ss_nodes sn, gd_edges := ss_edges sn, gd_governance := gov,
             gd_meta := Some \<lparr>gm_version = ss_version sn, gm_digest = ss_digest sn, gm_tokens = ss_tokens sn\<rparr>\<rparr>))"

section \<open>Reading\<close>

definition graph_metadata :: "graph_db \<Rightarrow> graph_error + graph_meta" where
  "graph_metadata db = (case gd_meta db of None \<Rightarrow> Inl Not_Built | Some m \<Rightarrow> Inr m)"

definition list_nodes :: "graph_db \<Rightarrow> capability_node list" where
  "list_nodes db = sort_key cn_id (gd_nodes db)"

definition list_edges :: "graph_db \<Rightarrow> capability_edge list" where
  "list_edges db = sort_key ce_id (gd_edges db)"

definition get_node :: "graph_db \<Rightarrow> string \<Rightarrow> graph_error + capability_node" where
  "get_node db k = (case row_get cn_id k (gd_nodes db) of None \<Rightarrow> Inl Node_Not_Found | Some n \<Rightarrow> Inr n)"

definition node_hashes :: "graph_db \<Rightarrow> (string \<times> string) list" where
  "node_hashes db = map (\<lambda>n. (cn_id n, cn_hash n)) (gd_nodes db)"

definition list_governance :: "graph_db \<Rightarrow> graph_error + governance_record list" where
  "list_governance db =
     (let rows = sort_key gv_node (gd_governance db)
      in if list_all valid_governance rows then Inr rows else Inl Invalid_Record)"

definition record_problem :: "audit_env \<Rightarrow> governance_record list \<Rightarrow> capability_node \<Rightarrow> bool" where
  "record_problem env gov n =
     (case row_get gv_node (cn_id n) gov of
        None \<Rightarrow> True
      | Some g \<Rightarrow> gv_hash g \<noteq> cn_hash n \<or> \<not> verify_node env (cn_id n) (cn_hash n) (cn_version n) (gv_sig g))"

definition verify_governance :: "audit_env \<Rightarrow> graph_db \<Rightarrow> graph_error + string list \<times> string list" where
  "verify_governance env db =
     (case list_governance db of
        Inl e \<Rightarrow> Inl e
      | Inr gov \<Rightarrow>
          Inr (map cn_id (filter (record_problem env gov) (list_nodes db)),
               map gv_node (filter (\<lambda>g. gv_status g \<noteq> ''approved'') gov)))"

section \<open>Trace patterns\<close>

definition text_of :: "pyval \<Rightarrow> string option" where
  "text_of v = (case v of PStr s \<Rightarrow> Some s | _ \<Rightarrow> None)"

definition path_text :: "string list \<Rightarrow> string" where
  "path_text path = json_dumps (PList (map PStr path))"

definition read_path :: "audit_env \<Rightarrow> string \<Rightarrow> string list option" where
  "read_path env t =
     (case ae_loads env t of
        Some (PList xs) \<Rightarrow>
          (if list_all (\<lambda>x. text_of x \<noteq> None) xs then Some (map (\<lambda>x. the (text_of x)) xs) else None)
      | _ \<Rightarrow> None)"

definition success_rate :: "nat \<Rightarrow> nat \<Rightarrow> rat" where
  "success_rate good bad = (if good + bad = 0 then 0 else of_nat good / of_nat (good + bad))"

definition pattern_from_row :: "audit_env \<Rightarrow> pattern_row \<Rightarrow> graph_error + trace_pattern" where
  "pattern_from_row env r =
     (case read_path env (tp_path_json r) of
        None \<Rightarrow> Inl Invalid_Record
      | Some path \<Rightarrow>
          (let p = \<lparr>pt_id = tp_id r, pt_intent = tp_intent r, pt_path = path, pt_successes = tp_good r,
                 pt_failures = tp_bad r, pt_rate = success_rate (tp_good r) (tp_bad r), pt_trace = tp_trace r,
                 pt_sig = tp_sig r, pt_key = tp_key r, pt_at = tp_at r\<rparr>
           in if valid_pattern p then Inr p else Inl Invalid_Record))"

definition trace_pattern_id :: "audit_env \<Rightarrow> string \<Rightarrow> string \<Rightarrow> string" where
  "trace_pattern_id env intent path = ''trace.'' @ take 24 (ae_sha env (intent @ '':'' @ path))"

definition same_path :: "string \<Rightarrow> string \<Rightarrow> pattern_row \<Rightarrow> bool" where
  "same_path intent path r \<longleftrightarrow> tp_intent r = intent \<and> tp_path_json r = path"

definition counted_row ::
    "audit_env \<Rightarrow> string \<Rightarrow> string \<Rightarrow> bool \<Rightarrow> string \<Rightarrow> string \<Rightarrow> nat \<Rightarrow> nat \<Rightarrow> pattern_row \<Rightarrow> pattern_row" where
  "counted_row env intent path ok trace now good bad r =
     (let good' = good + (if ok then 1 else 0); bad' = bad + (if ok then 0 else 1)
      in r\<lparr>tp_good := good', tp_bad := bad', tp_trace := trace,
           tp_sig := sign_trace_pattern env intent path good' bad' trace, tp_key := ae_key env, tp_at := now\<rparr>)"

text \<open>The upsert; \<open>None\<close> when the primary key is taken by another path.\<close>

definition upsert_pattern ::
    "audit_env \<Rightarrow> string \<Rightarrow> string \<Rightarrow> bool \<Rightarrow> string \<Rightarrow> string \<Rightarrow> pattern_row list \<Rightarrow> pattern_row list option" where
  "upsert_pattern env intent path ok trace now rows =
     (case find (same_path intent path) rows of
        Some r \<Rightarrow>
          Some (map (\<lambda>x. if same_path intent path x
                         then counted_row env intent path ok trace now (tp_good r) (tp_bad r) x else x) rows)
      | None \<Rightarrow>
          (let k = trace_pattern_id env intent path;
               blank = \<lparr>tp_id = k, tp_intent = intent, tp_path_json = path, tp_good = 0, tp_bad = 0, tp_trace = trace,
                 tp_sig = [], tp_key = [], tp_at = now\<rparr>
           in if k \<in> set (map tp_id rows) then None
              else Some (rows @ [counted_row env intent path ok trace now 0 0 blank])))"

definition record_trace_pattern ::
    "audit_env \<Rightarrow> string \<Rightarrow> string list \<Rightarrow> bool \<Rightarrow> string \<Rightarrow> string \<Rightarrow> trace_pattern graph_op" where
  "record_trace_pattern env intent path ok trace now db =
     (let text = path_text path; k = trace_pattern_id env intent text;
          known = map cn_id (gd_nodes db)
      in if trace \<in> set (map ob_trace (gd_observations db)) then (Inl Duplicate_Trace, db)
         else if \<not> list_ex (\<lambda>n. cn_id n = intent \<and> cn_type n = Task_Intent) (gd_nodes db) then (Inl Unknown_Intent, db)
         else if \<not> set path \<subseteq> set known
           then (Inl (Unregistered_Path (sorted_set (filter (\<lambda>p. p \<notin> set known) path))), db)
         else (case upsert_pattern env intent text ok trace now (gd_patterns db) of
            None \<Rightarrow> (Inl Integrity_Error, db)
          | Some rows \<Rightarrow>
              if k \<notin> set (map tp_id rows) then (Inl Integrity_Error, db)
              else (let db' = db\<lparr>gd_patterns := rows,
                          gd_observations := gd_observations db @
                            [\<lparr>ob_trace = trace, ob_pattern = k, ob_succeeded = ok, ob_at = now\<rparr>]\<rparr>
                    in (case find (same_path intent text) rows of
                          None \<Rightarrow> Inl Integrity_Error
                        | Some r \<Rightarrow> pattern_from_row env r, db'))))"

fun rows_verified :: "audit_env \<Rightarrow> (pattern_row \<times> trace_pattern) list \<Rightarrow> graph_error + trace_pattern list" where
  "rows_verified env [] = Inr []"
| "rows_verified env ((r, p) # rest) =
     (if verify_trace_pattern env (pt_intent p) (tp_path_json r) (pt_successes p) (pt_failures p) (pt_trace p) (pt_sig p)
      then map_sum id ((#) p) (rows_verified env rest) else Inl (Bad_Signature (pt_id p)))"

fun patterns_from_rows :: "audit_env \<Rightarrow> pattern_row list \<Rightarrow> graph_error + trace_pattern list" where
  "patterns_from_rows env [] = Inr []"
| "patterns_from_rows env (r # rs) =
     (case pattern_from_row env r of
        Inl e \<Rightarrow> Inl e
      | Inr p \<Rightarrow> map_sum id ((#) p) (patterns_from_rows env rs))"

definition list_trace_patterns :: "audit_env \<Rightarrow> string option \<Rightarrow> graph_db \<Rightarrow> graph_error + trace_pattern list" where
  "list_trace_patterns env intent db =
     (let rows = sort_key tp_id (if set_field intent then filter (\<lambda>r. Some (tp_intent r) = intent) (gd_patterns db)
                   else gd_patterns db)
      in case patterns_from_rows env rows of
           Inl e \<Rightarrow> Inl e
         | Inr ps \<Rightarrow> rows_verified env (zip rows ps))"

text \<open>\<open>max(..., key=(rate, successes, id))\<close>\<close>

definition better_pattern :: "trace_pattern \<Rightarrow> trace_pattern \<Rightarrow> bool" where
  "better_pattern p q \<longleftrightarrow>
     pt_rate q < pt_rate p \<or>
     (pt_rate p = pt_rate q \<and> (pt_successes q < pt_successes p \<or>
        (pt_successes p = pt_successes q \<and> pt_id q < pt_id p)))"

fun best_of :: "trace_pattern list \<Rightarrow> trace_pattern option" where
  "best_of [] = None"
| "best_of (p # ps) = Some (fold (\<lambda>q b. if better_pattern q b then q else b) ps p)"

definition pattern_accepted :: "trace_pattern \<Rightarrow> bool" where
  "pattern_accepted p \<longleftrightarrow> 2 \<le> pt_successes p \<and> 4 / 5 \<le> pt_rate p"

definition best_trace_pattern :: "audit_env \<Rightarrow> string \<Rightarrow> graph_db \<Rightarrow> graph_error + trace_pattern option" where
  "best_trace_pattern env intent db =
     map_sum id (\<lambda>ps. best_of (filter pattern_accepted ps)) (list_trace_patterns env (Some intent) db)"

end
