(* ===== verification/GraphSearch.thy ===== *)
theory GraphSearch
  imports GraphStore AuditViews
begin

text \<open>
  The capability graph in memory (\<open>load_graph\<close> and \<open>stats\<close> of \<^verbatim>\<open>safeagent_gov/graphify/store.py\<close>) and
  the service over it, \<^verbatim>\<open>safeagent_gov/graphify/service.py\<close>: retrieval, learning from audited traces,
  and health. The similarity of two texts, networkx's shortest path and the clock are
  arguments; the graph is the list of its nodes and of its keyed edges in the order they were added.
  Texts of reasons, the card and the metadata of a learned node, and the rounded signals a result
  reports are not carried. The scanner writes lists of texts under the metadata keys read here.
\<close>

section \<open>The graph\<close>

record graph_link =
  gl_from :: string
  gl_to :: string
  gl_key :: string
  gl_relation :: edge_relation
  gl_weight :: rat
  gl_confidence :: rat
  gl_source :: string

record knowledge_graph =
  kg_nodes :: "(string \<times> capability_node) list"
  kg_links :: "graph_link list"

definition has_node :: "knowledge_graph \<Rightarrow> string \<Rightarrow> bool" where
  "has_node g k \<longleftrightarrow> k \<in> set (map fst (kg_nodes g))"

definition capability :: "knowledge_graph \<Rightarrow> string \<Rightarrow> capability_node option" where
  "capability g k = map_of (kg_nodes g) k"

definition add_node :: "string \<Rightarrow> capability_node \<Rightarrow> knowledge_graph \<Rightarrow> knowledge_graph" where
  "add_node k n g =
     (if has_node g k then g\<lparr>kg_nodes := map (\<lambda>(j, m). if j = k then (j, n) else (j, m)) (kg_nodes g)\<rparr>
      else g\<lparr>kg_nodes := kg_nodes g @ [(k, n)]\<rparr>)"

definition same_link :: "graph_link \<Rightarrow> graph_link \<Rightarrow> bool" where
  "same_link l m \<longleftrightarrow> gl_from l = gl_from m \<and> gl_to l = gl_to m \<and> gl_key l = gl_key m"

definition add_link :: "graph_link \<Rightarrow> knowledge_graph \<Rightarrow> knowledge_graph" where
  "add_link l g = g\<lparr>kg_links := filter (\<lambda>m. \<not> same_link l m) (kg_links g) @ [l]\<rparr>"

definition link_of :: "capability_edge \<Rightarrow> graph_link" where
  "link_of e = \<lparr>gl_from = ce_source e, gl_to = ce_target e, gl_key = ce_id e, gl_relation = ce_relation e,
     gl_weight = ce_weight e, gl_confidence = ce_confidence e, gl_source = ce_source_type e\<rparr>"

definition pattern_node :: "audit_env \<Rightarrow> trace_pattern \<Rightarrow> capability_node" where
  "pattern_node env p =
     \<lparr>cn_id = pt_id p, cn_type = Trace_Pattern, cn_name = ''TracePattern '' @ pt_intent p,
      cn_summary = ''a path learned from verified audit traces'', cn_card = [], cn_inputs = [], cn_outputs = [],
      cn_risk = ''learned_governance_path'', cn_mandatory = False, cn_path = None, cn_enabled = True,
      cn_version = ''1.0.0'', cn_hash = ae_sha env (path_text (pt_path p)), cn_metadata = []\<rparr>"

definition pattern_link :: "audit_env \<Rightarrow> trace_pattern \<Rightarrow> nat \<times> string \<Rightarrow> graph_link" where
  "pattern_link env p = (\<lambda>(i, target).
     \<lparr>gl_from = pt_id p, gl_to = target,
      gl_key = ae_sha env (pt_id p @ '':suggests_path:'' @ show_nat i @ '':'' @ target),
      gl_relation = Suggests_Path, gl_weight = pt_rate p,
      gl_confidence = min 1 (of_nat (pt_successes p + pt_failures p) / 10), gl_source = ''verified_trace''\<rparr>)"

definition add_pattern :: "audit_env \<Rightarrow> trace_pattern \<Rightarrow> knowledge_graph \<Rightarrow> knowledge_graph" where
  "add_pattern env p g =
     (let g' = add_node (pt_id p) (pattern_node env p) g
      in fold (\<lambda>t h. if has_node h (snd t) then add_link (pattern_link env p t) h else h)
           (enumerate 0 (pt_path p)) g')"

fun add_patterns :: "audit_env \<Rightarrow> trace_pattern list \<Rightarrow> knowledge_graph \<Rightarrow> graph_error + knowledge_graph" where
  "add_patterns env [] g = Inr g"
| "add_patterns env (p # ps) g =
     (if valid_node (pattern_node env p) then add_patterns env ps (add_pattern env p g) else Inl Invalid_Record)"

definition base_graph :: "graph_db \<Rightarrow> knowledge_graph" where
  "base_graph db =
     fold (\<lambda>e. add_link (link_of e)) (list_edges db)
       (fold (\<lambda>n. add_node (cn_id n) n) (list_nodes db) \<lparr>kg_nodes = [], kg_links = []\<rparr>)"

definition load_graph :: "audit_env \<Rightarrow> graph_db \<Rightarrow> graph_error + knowledge_graph" where
  "load_graph env db =
     (if gd_nodes db = [] then Inl Not_Built
      else (case list_trace_patterns env None db of
         Inl e \<Rightarrow> Inl e
       | Inr ps \<Rightarrow> add_patterns env ps (base_graph db)))"

definition counted :: "string list \<Rightarrow> (string \<times> nat) list" where
  "counted xs = map (\<lambda>x. (x, count_list xs x)) (sorted_set xs)"

definition graph_stats_of :: "audit_env \<Rightarrow> graph_db \<Rightarrow> graph_error + graph_stats" where
  "graph_stats_of env db =
     (case (graph_metadata db, list_trace_patterns env None db) of
        (Inl e, _) \<Rightarrow> Inl e
      | (_, Inl e) \<Rightarrow> Inl e
      | (Inr m, Inr ps) \<Rightarrow>
          (let learned = length (filter (\<lambda>t. t \<in> set (map cn_id (gd_nodes db))) (concat (map pt_path ps)));
               types = map (\<lambda>n. node_type_value (cn_type n)) (gd_nodes db);
               rels = map (\<lambda>e. relation_value (ce_relation e)) (gd_edges db)
           in Inr \<lparr>gs_version = gm_version m, gs_digest = gm_digest m,
                gs_nodes = length (gd_nodes db) + length ps, gs_edges = length (gd_edges db) + learned,
                gs_node_types = counted (types @ replicate (length ps) (node_type_value Trace_Pattern)),
                gs_relations =
                  (if ps \<noteq> [] \<and> learned = 0
                   then sort_key fst (counted (filter (\<lambda>r. r \<noteq> relation_value Suggests_Path) rels) @
                     [(relation_value Suggests_Path, count_list rels (relation_value Suggests_Path))])
                   else counted (rels @ replicate learned (relation_value Suggests_Path))),
                gs_tokens = gm_tokens m\<rparr>))"

section \<open>Retrieval\<close>

record retrieval_env =
  rx_audit :: audit_env
  rx_similar :: "string \<Rightarrow> string \<Rightarrow> rat"
  rx_path :: "knowledge_graph \<Rightarrow> string \<Rightarrow> string \<Rightarrow> string list option"

definition outgoing_targets :: "knowledge_graph \<Rightarrow> string \<Rightarrow> edge_relation \<Rightarrow> string list" where
  "outgoing_targets g k rel = sorted_set (map gl_to (filter (\<lambda>l. gl_from l = k \<and> gl_relation l = rel) (kg_links g)))"

definition incoming_sources :: "knowledge_graph \<Rightarrow> string \<Rightarrow> edge_relation \<Rightarrow> string list" where
  "incoming_sources g k rel = sorted_set (map gl_from (filter (\<lambda>l. gl_to l = k \<and> gl_relation l = rel) (kg_links g)))"

definition meta_texts :: "pydict \<Rightarrow> string \<Rightarrow> string list" where
  "meta_texts d k = (case dict_get d k of Some (PList xs) \<Rightarrow> map py_str xs | _ \<Rightarrow> [])"

definition fallback_intent :: string where "fallback_intent = ''intent.general_task''"

definition intent_score :: "retrieval_env \<Rightarrow> search_request \<Rightarrow> capability_node \<Rightarrow> rat" where
  "intent_score env q n =
     (let query = casefold (gq_query q);
          keywords = map casefold (meta_texts (cn_metadata n) ''keywords'');
          examples = meta_texts (cn_metadata n) ''semantic_examples'';
          scenarios = map casefold (meta_texts (cn_metadata n) ''scenarios'');
          hits = length (filter (\<lambda>w. w \<noteq> [] \<and> contains query w) keywords);
          keyword_score = of_nat hits / of_nat (max 1 (min 3 (length keywords)));
          similar = rx_similar env (gq_query q)
            (join '' '' ([cn_name n, cn_summary n, cn_card n] @ keywords @ examples));
          signal = (if 18 / 100 \<le> similar then similar else 0);
          bonus = (if (hits \<noteq> 0 \<or> signal \<noteq> 0) \<and> casefold (gq_scenario q) \<in> set scenarios then 1 / 5 else 0)
      in min 1 (max keyword_score (signal * (9 / 10)) + bonus))"

definition ranked_intents :: "retrieval_env \<Rightarrow> search_request \<Rightarrow> knowledge_graph \<Rightarrow> (rat \<times> string) list" where
  "ranked_intents env q g =
     map (\<lambda>(k, n). (if k = fallback_intent then max (intent_score env q n) (1 / 20) else intent_score env q n, k))
       (filter (\<lambda>(k, n). cn_type n = Task_Intent) (kg_nodes g))"

definition ranks_above :: "rat \<times> string \<Rightarrow> rat \<times> string \<Rightarrow> bool" where
  "ranks_above = (\<lambda>(s, k) (t, j). t < s \<or> (s = t \<and>
     ((k \<noteq> fallback_intent \<and> j = fallback_intent) \<or> ((k \<noteq> fallback_intent) = (j \<noteq> fallback_intent) \<and> j < k))))"

definition select_intent :: "retrieval_env \<Rightarrow> search_request \<Rightarrow> knowledge_graph \<Rightarrow> graph_error + string \<times> rat" where
  "select_intent env q g =
     (case ranked_intents env q g of
        [] \<Rightarrow> Inl No_Intent
      | r # rs \<Rightarrow>
          (case fold (\<lambda>x b. if ranks_above x b then x else b) rs r of
             (s, k) \<Rightarrow>
               if s \<le> 1 / 20 \<and> has_node g fallback_intent then
                 (if fallback_intent \<in> set (map snd (r # rs)) then Inr (fallback_intent, 1 / 20) else Inl Crash)
               else Inr (k, s)))"

definition path_to :: "retrieval_env \<Rightarrow> knowledge_graph \<Rightarrow> string \<Rightarrow> string \<Rightarrow> string list" where
  "path_to env g goal k =
     (if goal = k then [k] else (case rx_path env g goal k of None \<Rightarrow> [k] | Some p \<Rightarrow> p))"

definition make_candidate :: "retrieval_env \<Rightarrow> knowledge_graph \<Rightarrow> string \<Rightarrow> rat \<Rightarrow> string \<Rightarrow> candidate option" where
  "make_candidate env g goal score k =
     map_option (\<lambda>n. \<lparr>cd_node = k, cd_name = cn_name n, cd_score = score, cd_mandatory = cn_mandatory n,
       cd_card = cn_card n, cd_path = path_to env g goal k\<rparr>) (capability g k)"

definition keep_better :: "candidate \<Rightarrow> candidate list \<Rightarrow> candidate list" where
  "keep_better c best =
     (case row_get cd_node (cd_node c) best of
        None \<Rightarrow> best @ [c]
      | Some p \<Rightarrow> if cd_score p < cd_score c then row_update cd_node (cd_node c) (\<lambda>_. c) best else best)"

text \<open>Sorted by mandatory first, then score, then identifier.\<close>

definition ranked_candidates :: "candidate list \<Rightarrow> candidate list" where
  "ranked_candidates cs =
     sort_key (\<lambda>c. \<not> cd_mandatory c) (sort_key (\<lambda>c. - cd_score c) (sort_key cd_node (fold keep_better cs [])))"

definition deduplicate :: "candidate list \<Rightarrow> int \<Rightarrow> candidate list" where
  "deduplicate cs limit =
     (let ranked = ranked_candidates cs; must = filter cd_mandatory ranked
      in must @ take (nat (limit - int (length must))) (filter (\<lambda>c. \<not> cd_mandatory c) ranked))"

definition offered_agents :: "knowledge_graph \<Rightarrow> string \<Rightarrow> string list" where
  "offered_agents g goal = outgoing_targets g goal Routes_To_Agent"

definition offered_tools :: "knowledge_graph \<Rightarrow> string \<Rightarrow> string list" where
  "offered_tools g goal = sorted_set (concat (map (\<lambda>a. outgoing_targets g a Can_Call_Tool) (offered_agents g goal)))"

definition offered_policies :: "knowledge_graph \<Rightarrow> string \<Rightarrow> string list" where
  "offered_policies g goal = sorted_set (concat (map (\<lambda>t. outgoing_targets g t Governed_By) (offered_tools g goal)))"

definition offered_skills :: "knowledge_graph \<Rightarrow> string \<Rightarrow> (rat \<times> string) list" where
  "offered_skills g goal =
     map (\<lambda>k. (96 / 100, k)) (outgoing_targets g goal Requires_Skill) @
     map (\<lambda>(k, n). (1, k)) (filter (\<lambda>(k, n). cn_type n = Skill_Node \<and> cn_mandatory n) (kg_nodes g)) @
     map (\<lambda>k. (82 / 100, k)) (concat (map (\<lambda>a. outgoing_targets g a Can_Use_Skill) (offered_agents g goal)))"

definition candidates_of ::
    "retrieval_env \<Rightarrow> knowledge_graph \<Rightarrow> string \<Rightarrow> int \<Rightarrow> (rat \<times> string) list \<Rightarrow> graph_error + candidate list" where
  "candidates_of env g goal limit xs =
     (case option_all (map (\<lambda>(s, k). make_candidate env g goal s k) xs) of
        None \<Rightarrow> Inl Crash
      | Some cs \<Rightarrow> Inr (deduplicate cs limit))"

definition recommended ::
    "retrieval_env \<Rightarrow> graph_db \<Rightarrow> knowledge_graph \<Rightarrow> string \<Rightarrow> graph_error + string list \<times> (rat \<times> nat) option" where
  "recommended env db g goal =
     (case best_trace_pattern (rx_audit env) goal db of
        Inl e \<Rightarrow> Inl e
      | Inr best \<Rightarrow>
          (let configured = filter (has_node g)
                 (case capability g goal of None \<Rightarrow> [] | Some n \<Rightarrow> meta_texts (cn_metadata n) ''recommended_path'')
           in Inr (case best of
                None \<Rightarrow> (configured, None)
              | Some p \<Rightarrow>
                  if list_all (has_node g) (pt_path p)
                  then (pt_path p, Some (pt_rate p, pt_successes p + pt_failures p)) else (configured, None))))"

definition token_estimate :: "candidate list \<Rightarrow> int" where
  "token_estimate cs = max 1 ((int (length (join [CHR 0x0A] (map cd_card cs))) + 3) div 4)"

definition search :: "retrieval_env \<Rightarrow> search_request \<Rightarrow> graph_db \<Rightarrow> graph_error + search_result" where
  "search env q db =
     (case load_graph (rx_audit env) db of Inl e \<Rightarrow> Inl e | Inr g \<Rightarrow>
     (case graph_metadata db of Inl e \<Rightarrow> Inl e | Inr m \<Rightarrow>
     (case select_intent env q g of Inl e \<Rightarrow> Inl e | Inr (goal, score) \<Rightarrow>
     (case (candidates_of env g goal (gq_top_k q) (offered_skills g goal),
            candidates_of env g goal (gq_top_k q) (map (Pair (92 / 100)) (offered_agents g goal)),
            candidates_of env g goal (gq_top_k q) (map (Pair (88 / 100)) (offered_tools g goal)),
            candidates_of env g goal (gq_top_k q) (map (Pair (9 / 10)) (offered_policies g goal)),
            recommended env db g goal) of
        (Inr skills, Inr agents, Inr tools, Inr policies, Inr (path, learned)) \<Rightarrow>
          (let est = token_estimate (skills @ agents @ tools @ policies);
               full = max est (gm_tokens m); saved = max 0 (full - est)
           in Inr \<lparr>gf_intent = goal, gf_intent_score = score, gf_skills = skills, gf_tools = tools,
                gf_agents = agents, gf_policies = policies, gf_recommended = path, gf_learned = learned,
                gf_budget = gq_budget q, gf_estimated = est, gf_within = (est \<le> gq_budget q), gf_full = full,
                gf_saved = saved, gf_reduction = of_int saved / of_int full\<rparr>)
      | (Inr _, Inr _, Inr _, Inr _, Inl e) \<Rightarrow> Inl e
      | _ \<Rightarrow> Inl Crash))))"

section \<open>Learning from an audited trace\<close>

text \<open>\<open>re.sub(r"[^a-z0-9_]+", "_", ...)\<close> and \<open>.strip("_")\<close>\<close>

fun squash :: "string \<Rightarrow> string" where
  "squash [] = []"
| "squash (c # cs) =
     (if is_word c then c # squash cs
      else if cs \<noteq> [] \<and> \<not> is_word (hd cs) then squash cs
      else CHR ''_'' # squash cs)"

definition normalized_name :: "string \<Rightarrow> string" where
  "normalized_name raw =
     (let s = squash (map (\<lambda>c. if c = CHR ''-'' then CHR ''_'' else c) (casefold raw))
      in rstrip_by (\<lambda>c. c = CHR ''_'') (lstrip_by (\<lambda>c. c = CHR ''_'') s))"

definition capability_id :: "string \<Rightarrow> string \<Rightarrow> string" where
  "capability_id kind raw = kind @ ''.'' @ normalized_name raw"

definition field_text :: "string \<Rightarrow> pyval \<Rightarrow> string option" where
  "field_text k v =
     (case v of PDict d \<Rightarrow> (case dict_get d k of None \<Rightarrow> None | Some x \<Rightarrow> if py_truthy x then Some (py_str x) else None)
      | _ \<Rightarrow> None)"

definition event_step :: "event_view \<Rightarrow> string list" where
  "event_step e =
     (let name = (\<lambda>k. field_text k (ev_event e)) in
      if ev_stage e = ''skill_execution_completed'' \<and> name ''skill_name'' \<noteq> None
        then [capability_id ''skill'' (the (name ''skill_name''))]
      else if ev_stage e = ''sub_agent_result'' \<and> name ''agent_id'' \<noteq> None \<and>
          (case ev_event e of PDict d \<Rightarrow> dict_get d ''status'' = Some (PStr ''completed'') | _ \<Rightarrow> False)
        then [the (name ''agent_id'')]
      else if ev_stage e = ''tool_result'' \<and> name ''tool_name'' \<noteq> None
        then [capability_id ''mcp'' (the (name ''tool_name''))]
      else if ev_stage e = ''model_response_received'' \<and> name ''provider_id'' \<noteq> None
        then [capability_id ''model'' (the (name ''provider_id''))]
      else [])"

definition step_stages :: "string list" where
  "step_stages = [''skill_execution_completed'', ''sub_agent_result'', ''tool_result'', ''model_response_received'']"

definition is_dict :: "pyval \<Rightarrow> bool" where
  "is_dict v = (case v of PDict _ \<Rightarrow> True | _ \<Rightarrow> False)"

definition first_occurrences :: "string list \<Rightarrow> string list" where
  "first_occurrences xs = rev (remdups (rev xs))"

definition event_field :: "string \<Rightarrow> string \<Rightarrow> pyval \<Rightarrow> string" where
  "event_field k missing v =
     (case v of PDict d \<Rightarrow> (case dict_get d k of None \<Rightarrow> missing | Some x \<Rightarrow> py_str x) | _ \<Rightarrow> missing)"

definition learn_trace ::
    "audit_env \<Rightarrow> audit_db \<Rightarrow> string \<Rightarrow> string \<Rightarrow> (bool \<times> trace_pattern) graph_op" where
  "learn_trace env adb trace now db =
     (case get_audit_trace env (Some Replayer) trace now adb of
        Inl e \<Rightarrow> (Inl (Audit_Failed e), db)
      | Inr view \<Rightarrow>
          (let events = tv_events view;
               routed = filter (\<lambda>e. ev_stage e = ''router_plan'') events;
               finished = filter (\<lambda>e. ev_stage e = ''final_output'') events;
               goal = event_field ''intent'' [] (ev_event (last routed));
               ok = (event_field ''status'' ''unknown'' (ev_event (last finished)) = ''completed'')
           in if \<not> vd_valid (tv_integrity view) \<or> routed = [] \<or> finished = [] then (Inl Trace_Rejected, db)
              else if \<not> is_dict (ev_event (last routed)) then (Inl Crash, db)
              else if \<not> startswith goal ''intent.'' then (Inl Trace_Rejected, db)
              else if list_ex (\<lambda>e. ev_stage e \<in> set step_stages \<and> \<not> is_dict (ev_event e)) events then (Inl Crash, db)
              else (case load_graph env db of
                 Inl e \<Rightarrow> (Inl e, db)
               | Inr g \<Rightarrow>
                   (let path = filter (has_node g) (first_occurrences (concat (map event_step events)))
                    in if path = [] then (Inl Trace_Rejected, db)
                       else if \<not> is_dict (ev_event (last finished)) then (Inl Crash, db)
                       else op_bind (record_trace_pattern env goal path ok trace now)
                         (\<lambda>p. op_return (pattern_accepted p, p)) db))))"

section \<open>Health\<close>

definition monitored_type :: "node_type \<Rightarrow> bool" where
  "monitored_type t \<longleftrightarrow> t = Task_Intent \<or> t = Sub_Agent \<or> t = Skill_Node \<or> t = Mcp_Tool"

definition isolated :: "knowledge_graph \<Rightarrow> string \<Rightarrow> bool" where
  "isolated g k \<longleftrightarrow> \<not> list_ex (\<lambda>l. gl_from l = k \<or> gl_to l = k) (kg_links g)"

definition nodes_where :: "knowledge_graph \<Rightarrow> (string \<Rightarrow> capability_node \<Rightarrow> bool) \<Rightarrow> string list" where
  "nodes_where g P = sort (map fst (filter (\<lambda>(k, n). P k n) (kg_nodes g)))"

definition graph_health_of :: "audit_env \<Rightarrow> (graph_error + scan_snapshot) \<Rightarrow> graph_db \<Rightarrow> graph_error + graph_health" where
  "graph_health_of env scanned db =
     (case load_graph env db of Inl e \<Rightarrow> Inl e | Inr g \<Rightarrow>
     (case graph_metadata db of Inl e \<Rightarrow> Inl e | Inr m \<Rightarrow>
     (case scanned of Inl e \<Rightarrow> Inl e | Inr sn \<Rightarrow>
     (case verify_governance env db of Inl e \<Rightarrow> Inl e | Inr (invalid, unapproved) \<Rightarrow>
        (let stale = (gm_digest m \<noteq> ss_digest sn);
             orphans = nodes_where g (\<lambda>k n. monitored_type (cn_type n) \<and> isolated g k);
             missing = nodes_where g (\<lambda>k n. protected_type (cn_type n) \<and> (cn_inputs n = [] \<or> cn_outputs n = []));
             unguarded = nodes_where g (\<lambda>k n. cn_type n = Mcp_Tool \<and> incoming_sources g k Guards = []);
             ungoverned = nodes_where g (\<lambda>k n. cn_type n = Mcp_Tool \<and> outgoing_targets g k Governed_By = [])
         in Inr \<lparr>gh_healthy = (\<not> stale \<and> orphans = [] \<and> missing = [] \<and> unguarded = [] \<and> ungoverned = [] \<and>
                   invalid = [] \<and> unapproved = []),
                 gh_stale = stale, gh_orphans = orphans, gh_missing_schema = missing, gh_unguarded = unguarded,
                 gh_ungoverned = ungoverned, gh_invalid = invalid, gh_unapproved = unapproved\<rparr>)))))"

end
