(* ===== verification/GraphScan.thy ===== *)
theory GraphScan
  imports GraphSearch ModelContracts
begin

text \<open>
  The repository scanner of the capability graph, \<^verbatim>\<open>safeagent_gov/graphify/scanner.py\<close>, and the
  building of the graph from it (\<open>build\<close> of \<^verbatim>\<open>safeagent_gov/graphify/service.py\<close>). The files as read, the
  YAML and Python parsers, pydantic's reading of the registry and the loaded model gateway
  configuration are inputs: \<open>None\<close> where reading, parsing or validation raises.
\<close>

section \<open>What is read\<close>

record intent_config =
  ic_name :: string
  ic_keywords :: "string list"
  ic_examples :: "string list"
  ic_scenarios :: "string list"
  ic_skills :: "string list"
  ic_agents :: "string list"
  ic_models :: "string list"
  ic_sources :: "string list"
  ic_path :: "string list"

record agent_config =
  ac_name :: string
  ac_skills :: "string list"
  ac_tools :: "string list"

record model_entry =
  me_name :: string
  me_provider :: string
  me_protocol :: string
  me_network :: bool

record case_config =
  tc_name :: string
  tc_validates :: "string list"

record registry_config =
  rc_version :: string
  rc_policy :: string
  rc_mandatory :: "string list"
  rc_intents :: "(string \<times> intent_config) list"
  rc_agents :: "(string \<times> agent_config) list"
  rc_models :: "(string \<times> model_entry) list"
  rc_sources :: "(string \<times> string \<times> string) list"
  rc_cases :: "(string \<times> case_config) list"
  rc_risks :: "(string \<times> string) list"

record skill_source =
  sk_dir :: string
  sk_file :: string
  sk_text :: string
  sk_yaml :: "pydict option"
  sk_doc :: "(string \<times> string) option"

record server_source =
  sv_dir :: string
  sv_dir_name :: string
  sv_file :: string
  sv_text :: string
  sv_yaml :: "pydict option"
  sv_code_file :: string
  sv_code :: string
  sv_parameters :: "string \<Rightarrow> string list option"

record policy_source =
  po_file :: string
  po_stem :: string
  po_text :: string
  po_yaml :: "pydict option"

record repository =
  rp_registry_file :: string
  rp_registry_text :: string
  rp_registry :: "registry_config option"
  rp_gateway_file :: string
  rp_gateway_text :: string
  rp_gateway :: "model_config option"
  rp_skills :: "skill_source list"
  rp_servers :: "server_source list"
  rp_policies :: "policy_source list"

section \<open>Identifiers, hashes and texts\<close>

definition canonical_hash :: "audit_env \<Rightarrow> pyval \<Rightarrow> string" where
  "canonical_hash env v = ae_sha env (json_dumps v)"

definition node_identifier :: "string \<Rightarrow> string \<Rightarrow> string option" where
  "node_identifier kind raw = (let s = normalized_name raw in if s = [] then None else Some (kind @ ''.'' @ s))"

definition tool_risk_level :: "string \<Rightarrow> string" where
  "tool_risk_level t =
     (if t \<in> {''file_delete'', ''shell_exec'', ''db_write''} then ''critical''
      else if t \<in> {''send_email'', ''api_call''} then ''high'' else ''medium'')"

definition str_list :: "string list \<Rightarrow> pyval" where
  "str_list xs = PList (map PStr xs)"

definition listed :: "string list \<Rightarrow> string \<Rightarrow> string" where
  "listed xs none = (case join '', '' xs of [] \<Rightarrow> none | c # cs \<Rightarrow> c # cs)"

fun protocol_value :: "provider_protocol \<Rightarrow> string" where
  "protocol_value Internal_Protocol = ''internal''"
| "protocol_value OpenAI_Chat = ''openai_chat_completions''"
| "protocol_value OpenAI_Responses = ''openai_responses''"
| "protocol_value Anthropic_Messages = ''anthropic_messages''"
| "protocol_value Gemini_Generate_Content = ''gemini_generate_content''"
| "protocol_value Azure_OpenAI = ''azure_openai''"
| "protocol_value AWS_Bedrock = ''aws_bedrock''"
| "protocol_value Vertex_AI = ''vertex_ai''"
| "protocol_value Ollama_Chat = ''ollama_chat''"
| "protocol_value VLLM_OpenAI = ''vllm_openai_compatible''"

fun capability_value :: "capability \<Rightarrow> string" where
  "capability_value Chat = ''chat''"
| "capability_value Structured_Output = ''structured_output''"
| "capability_value Long_Context = ''long_context''"
| "capability_value Tool_Planning = ''tool_planning''"
| "capability_value Code = ''code''"

section \<open>Nodes\<close>

definition plain_node :: "string \<Rightarrow> node_type \<Rightarrow> string \<Rightarrow> string \<Rightarrow> string \<Rightarrow> string \<Rightarrow> string \<Rightarrow> string \<Rightarrow> pydict \<Rightarrow> capability_node" where
  "plain_node k t name summary brief risk version hash md =
     \<lparr>cn_id = k, cn_type = t, cn_name = name, cn_summary = summary, cn_card = brief, cn_inputs = [], cn_outputs = [],
      cn_risk = risk, cn_mandatory = False, cn_path = None, cn_enabled = True, cn_version = version, cn_hash = hash,
      cn_metadata = md\<rparr>"

definition version_text :: "pydict \<Rightarrow> string" where
  "version_text m = (case dict_get m ''version'' of None \<Rightarrow> ''1.0.0'' | Some v \<Rightarrow> py_str v)"

definition skill_node :: "audit_env \<Rightarrow> registry_config \<Rightarrow> skill_source \<Rightarrow> graph_error + capability_node" where
  "skill_node env reg s =
     (case sk_yaml s of
        None \<Rightarrow> Inl Graph_Misconfigured
      | Some m \<Rightarrow>
          (let name = strip (case dict_get m ''name'' of None \<Rightarrow> [] | Some v \<Rightarrow> py_str v);
               field = (\<lambda>k. case dict_get m k of None \<Rightarrow> PList [] | Some v \<Rightarrow> v)
           in if name = [] then Inl Graph_Misconfigured
              else (case (field ''inputs'', field ''outputs'', node_identifier ''skill'' name) of
                 (PList ins, PList outs, Some k) \<Rightarrow>
                   (let must = name \<in> set (rc_mandatory reg); a = map py_str ins; b = map py_str outs
                    in Inr \<lparr>cn_id = k, cn_type = Skill_Node, cn_name = name, cn_summary = name @ '' security capability'',
                         cn_card = name @ '': inputs '' @ listed a ''none'' @ ''; outputs '' @ listed b ''none'' @ ''.'',
                         cn_inputs = a, cn_outputs = b,
                         cn_risk = (if must then ''security_mandatory'' else ''security_routed''), cn_mandatory = must,
                         cn_path = Some (sk_dir s), cn_enabled = True, cn_version = version_text m,
                         cn_hash = ae_sha env (sk_text s),
                         cn_metadata = [(''entrypoint'', get_or_none m ''entrypoint''),
                           (''permissions'', case dict_get m ''permissions'' of None \<Rightarrow> PDict [] | Some v \<Rightarrow> v)]\<rparr>)
               | _ \<Rightarrow> Inl Graph_Misconfigured)))"

definition tool_node :: "audit_env \<Rightarrow> server_source \<Rightarrow> pydict \<Rightarrow> string \<Rightarrow> graph_error + capability_node" where
  "tool_node env s m tool =
     (case (node_identifier ''mcp'' tool, sv_parameters s tool) of
        (Some k, Some params) \<Rightarrow>
          Inr \<lparr>cn_id = k, cn_type = Mcp_Tool, cn_name = tool,
            cn_summary = (case dict_get m ''name'' of None \<Rightarrow> sv_dir_name s | Some v \<Rightarrow> py_str v) @ '' MCP server tool'',
            cn_card = tool @ ''('' @ join '', '' params @ ''); risk '' @ tool_risk_level tool @ ''; must pass MCPGuard.'',
            cn_inputs = params, cn_outputs = [''status'', ''result''], cn_risk = tool_risk_level tool,
            cn_mandatory = False, cn_path = Some (sv_dir s), cn_enabled = True, cn_version = version_text m,
            cn_hash = canonical_hash env (PDict [(''manifest'', PDict m), (''parameters'', str_list params)]),
            cn_metadata = [(''simulation_only'',
              PBool (case dict_get m ''simulation_only'' of None \<Rightarrow> False | Some v \<Rightarrow> py_truthy v))]\<rparr>
      | _ \<Rightarrow> Inl Graph_Misconfigured)"

definition policy_id :: "string \<Rightarrow> string option" where
  "policy_id version = node_identifier ''policy'' (''tool_policy_'' @ version)"

definition policy_node :: "audit_env \<Rightarrow> policy_source \<Rightarrow> graph_error + capability_node" where
  "policy_node env p =
     (case po_yaml p of
        None \<Rightarrow> Inl Graph_Misconfigured
      | Some d \<Rightarrow>
          (let version = (case dict_get d ''version'' of None \<Rightarrow> po_stem p
                 | Some v \<Rightarrow> if py_truthy v then py_str v else po_stem p)
           in case policy_id version of
                None \<Rightarrow> Inl Graph_Misconfigured
              | Some k \<Rightarrow>
                  Inr ((plain_node k Policy_Node (''MCP Tool Policy '' @ version)
                    ''versioned authorisation, approval and fail-closed policy of the MCP tools''
                    (''Tool policy '' @ version @ '': loaded and decided before every tool call.'') ''unknown'' version
                    (ae_sha env (po_text p)) [])\<lparr>cn_path := Some (po_file p)\<rparr>)))"

definition intent_payload :: "intent_config \<Rightarrow> pyval" where
  "intent_payload i = PDict [(''name'', PStr (ic_name i)), (''keywords'', str_list (ic_keywords i)),
     (''semantic_examples'', str_list (ic_examples i)), (''scenarios'', str_list (ic_scenarios i)),
     (''required_skills'', str_list (ic_skills i)), (''agents'', str_list (ic_agents i)),
     (''models'', str_list (ic_models i)), (''data_sources'', str_list (ic_sources i)),
     (''recommended_path'', str_list (ic_path i))]"

definition intent_node :: "audit_env \<Rightarrow> string \<Rightarrow> string \<Rightarrow> intent_config \<Rightarrow> capability_node" where
  "intent_node env version k i =
     plain_node k Task_Intent (ic_name i) (ic_name i @ '' task intent'')
       (''Intent '' @ ic_name i @ ''; keywords: '' @ join '', '' (ic_keywords i) @ ''.'') ''unknown'' version
       (canonical_hash env (intent_payload i))
       [(''keywords'', str_list (ic_keywords i)), (''semantic_examples'', str_list (ic_examples i)),
        (''scenarios'', str_list (ic_scenarios i)), (''recommended_path'', str_list (ic_path i))]"

definition agent_node :: "audit_env \<Rightarrow> string \<Rightarrow> string \<Rightarrow> agent_config \<Rightarrow> capability_node" where
  "agent_node env version k a =
     plain_node k Sub_Agent (ac_name a) (ac_name a @ '' specialised sub-agent'')
       (ac_name a @ '': may call '' @ listed (ac_skills a @ ac_tools a) ''no external capability'' @ ''.'') ''unknown'' version
       (canonical_hash env (PDict [(''name'', PStr (ac_name a)), (''skills'', str_list (ac_skills a)),
          (''tools'', str_list (ac_tools a))])) []"

definition model_payload :: "model_entry \<Rightarrow> pydict" where
  "model_payload m = [(''name'', PStr (me_name m)), (''provider'', PStr (me_provider m)),
     (''protocol'', PStr (me_protocol m)), (''network_access'', PBool (me_network m))]"

definition model_node :: "audit_env \<Rightarrow> string \<Rightarrow> string \<Rightarrow> model_entry \<Rightarrow> capability_node" where
  "model_node env version k m =
     plain_node k Model_Provider (me_name m) (me_provider m @ '' / '' @ me_protocol m)
       (me_name m @ '', protocol '' @ me_protocol m @ '', network access '' @ py_repr (PBool (me_network m)) @ ''.'') ''unknown''
       version (canonical_hash env (PDict (model_payload m))) (model_payload m)"

definition source_node :: "audit_env \<Rightarrow> string \<Rightarrow> string \<Rightarrow> string \<times> string \<Rightarrow> capability_node" where
  "source_node env version k s =
     plain_node k Data_Source (fst s) (snd s) (''Input source: '' @ fst s @ ''; '' @ snd s) ''untrusted_input'' version
       (canonical_hash env (PDict [(''name'', PStr (fst s)), (''summary'', PStr (snd s))])) []"

definition case_node :: "audit_env \<Rightarrow> string \<Rightarrow> string \<Rightarrow> case_config \<Rightarrow> capability_node" where
  "case_node env version k c =
     plain_node k Test_Case (tc_name c) (''validates '' @ join '', '' (tc_validates c))
       (''Test case '' @ tc_name c @ '': validates registered capabilities and governance paths.'') ''verification'' version
       (canonical_hash env (PDict [(''name'', PStr (tc_name c)), (''validates'', str_list (tc_validates c))]))
       [(''validates'', str_list (tc_validates c))]"

definition provider_metadata :: "provider \<Rightarrow> pydict" where
  "provider_metadata p =
     [(''model'', PStr (pv_model p)), (''protocol'', PStr (protocol_value (pv_protocol p))),
      (''network_access'', PBool (pv_network p)), (''private_deployment'', PBool (pv_private p)),
      (''enabled'', PBool (pv_enabled p)), (''capabilities'', str_list (sort (map capability_value (pv_capabilities p)))),
      (''task_types'', str_list (sort (pv_tasks p)))]"

definition provider_node :: "audit_env \<Rightarrow> string \<Rightarrow> string \<Rightarrow> string \<Rightarrow> provider \<Rightarrow> capability_node" where
  "provider_node env version file k p =
     (plain_node k Model_Provider (pv_name p) (''Model Gateway / '' @ protocol_value (pv_protocol p))
       (pv_name p @ ''; protocol '' @ protocol_value (pv_protocol p) @ ''; private '' @ py_repr (PBool (pv_private p)) @
          ''; enabled '' @ py_repr (PBool (pv_enabled p)) @ ''.'')
       (if pv_private p then ''private_model'' else ''external_model'') version
       (canonical_hash env (PDict (provider_metadata p))) (provider_metadata p))
       \<lparr>cn_path := Some file, cn_enabled := pv_enabled p\<rparr>"

definition reviewer_role :: string where "reviewer_role = ''role.security_reviewer''"

definition role_node :: "audit_env \<Rightarrow> string \<Rightarrow> capability_node" where
  "role_node env version =
     plain_node reviewer_role Permission_Role ''security_reviewer''
       ''role that approves high-risk nodes and tool actions''
       ''Security reviewer: handles registration and execution approvals.'' ''unknown'' version
       (canonical_hash env (PDict [(''role'', PStr ''security_reviewer''), (''version'', PStr version)])) []"

definition risk_node :: "audit_env \<Rightarrow> string \<Rightarrow> string \<Rightarrow> string \<Rightarrow> capability_node" where
  "risk_node env version k risk =
     plain_node k Risk_Type risk (risk @ '' risk'') (''Risk type: '' @ risk @ ''.'') ''unknown'' version
       (canonical_hash env (PDict [(''risk'', PStr risk), (''version'', PStr version)])) []"

section \<open>Edges\<close>

definition edge_payload :: "string \<Rightarrow> edge_relation \<Rightarrow> string \<Rightarrow> string \<Rightarrow> pyval" where
  "edge_payload s rel t ty = PDict [(''source_id'', PStr s), (''relation'', PStr (relation_value rel)),
     (''target_id'', PStr t), (''source_type'', PStr ty)]"

definition make_edge :: "audit_env \<Rightarrow> string \<Rightarrow> edge_relation \<Rightarrow> string \<Rightarrow> string \<Rightarrow> capability_edge" where
  "make_edge env s rel t ty =
     \<lparr>ce_id = canonical_hash env (edge_payload s rel t ty), ce_source = s, ce_relation = rel, ce_target = t,
      ce_weight = 1, ce_confidence = 1, ce_source_type = ty\<rparr>"

section \<open>The scan\<close>

record scan_state =
  sc_nodes :: "capability_node list"
  sc_edges :: "capability_edge list"
  sc_tools :: "string list"

definition put_node :: "capability_node \<Rightarrow> scan_state \<Rightarrow> graph_error + scan_state" where
  "put_node n st = (if valid_node n then Inr (st\<lparr>sc_nodes := keyed_put cn_id n (sc_nodes st)\<rparr>) else Inl Invalid_Record)"

definition put_edge :: "capability_edge \<Rightarrow> scan_state \<Rightarrow> graph_error + scan_state" where
  "put_edge e st = (if valid_edge e then Inr (st\<lparr>sc_edges := keyed_put ce_id e (sc_edges st)\<rparr>) else Inl Invalid_Record)"

definition node_of_type :: "node_type \<Rightarrow> string \<Rightarrow> scan_state \<Rightarrow> bool" where
  "node_of_type t k st \<longleftrightarrow> list_ex (\<lambda>n. cn_id n = k \<and> cn_type n = t) (sc_nodes st)"

definition scan_skill :: "audit_env \<Rightarrow> registry_config \<Rightarrow> skill_source \<Rightarrow> scan_state \<Rightarrow> graph_error + scan_state" where
  "scan_skill env reg s st = (case skill_node env reg s of Inl e \<Rightarrow> Inl e | Inr n \<Rightarrow> put_node n st)"

definition scan_tool :: "audit_env \<Rightarrow> server_source \<Rightarrow> pydict \<Rightarrow> pyval \<Rightarrow> scan_state \<Rightarrow> graph_error + scan_state" where
  "scan_tool env s m v st =
     (case tool_node env s m (py_str v) of
        Inl e \<Rightarrow> Inl e
      | Inr n \<Rightarrow>
          (case put_node n st of
             Inl e \<Rightarrow> Inl e
           | Inr st' \<Rightarrow> if cn_id n \<in> set (sc_tools st) then Inl Graph_Misconfigured
                        else Inr (st'\<lparr>sc_tools := sc_tools st @ [cn_id n]\<rparr>)))"

definition scan_server :: "audit_env \<Rightarrow> server_source \<Rightarrow> scan_state \<Rightarrow> graph_error + scan_state" where
  "scan_server env s st =
     (case sv_yaml s of
        None \<Rightarrow> Inl Graph_Misconfigured
      | Some m \<Rightarrow>
          (case dict_get m ''capabilities'' of
             Some (PList (c # cs)) \<Rightarrow> each_ok (scan_tool env s m) (c # cs) st
           | _ \<Rightarrow> Inl Graph_Misconfigured))"

definition scan_policy :: "audit_env \<Rightarrow> policy_source \<Rightarrow> scan_state \<Rightarrow> graph_error + scan_state" where
  "scan_policy env p st = (case policy_node env p of Inl e \<Rightarrow> Inl e | Inr n \<Rightarrow> put_node n st)"

definition scan_entry :: "string \<Rightarrow> (string \<Rightarrow> 'c \<Rightarrow> capability_node) \<Rightarrow> string \<times> 'c \<Rightarrow> scan_state \<Rightarrow> graph_error + scan_state" where
  "scan_entry kind mk = (\<lambda>(key, c) st.
     case node_identifier kind key of None \<Rightarrow> Inl Graph_Misconfigured | Some k \<Rightarrow> put_node (mk k c) st)"

definition scan_risk :: "audit_env \<Rightarrow> string \<Rightarrow> string \<Rightarrow> scan_state \<Rightarrow> graph_error + scan_state" where
  "scan_risk env version risk st =
     (case node_identifier ''risk'' risk of
        None \<Rightarrow> Inl Graph_Misconfigured
      | Some k \<Rightarrow>
          (case put_node (risk_node env version k risk) st of
             Inl e \<Rightarrow> Inl e
           | Inr st' \<Rightarrow> put_edge (make_edge env k Requires_Approval reviewer_role ''registry'') st'))"

text \<open>An edge to a capability the registry names; the target must exist and be of the right type.\<close>

definition link_named ::
    "audit_env \<Rightarrow> string \<Rightarrow> edge_relation \<Rightarrow> string \<Rightarrow> node_type \<Rightarrow> string \<Rightarrow> scan_state \<Rightarrow> graph_error + scan_state" where
  "link_named env s rel kind t name st =
     (case node_identifier kind name of
        None \<Rightarrow> Inl Graph_Misconfigured
      | Some k \<Rightarrow> if node_of_type t k st then put_edge (make_edge env s rel k ''registry'') st else Inl Graph_Misconfigured)"

definition link_intent :: "audit_env \<Rightarrow> string \<times> intent_config \<Rightarrow> scan_state \<Rightarrow> graph_error + scan_state" where
  "link_intent env = (\<lambda>(key, i) st.
     case node_identifier ''intent'' key of
       None \<Rightarrow> Inl Graph_Misconfigured
     | Some k \<Rightarrow>
         (case each_ok (link_named env k Requires_Skill ''skill'' Skill_Node) (ic_skills i) st of Inl e \<Rightarrow> Inl e | Inr st \<Rightarrow>
         (case each_ok (link_named env k Routes_To_Agent ''agent'' Sub_Agent) (ic_agents i) st of Inl e \<Rightarrow> Inl e | Inr st \<Rightarrow>
         (case each_ok (link_named env k Suitable_For ''model'' Model_Provider) (ic_models i) st of Inl e \<Rightarrow> Inl e | Inr st \<Rightarrow>
           each_ok (link_named env k Accepts_Source ''source'' Data_Source) (ic_sources i) st))))"

definition link_agent :: "audit_env \<Rightarrow> string \<times> agent_config \<Rightarrow> scan_state \<Rightarrow> graph_error + scan_state" where
  "link_agent env = (\<lambda>(key, a) st.
     case node_identifier ''agent'' key of
       None \<Rightarrow> Inl Graph_Misconfigured
     | Some k \<Rightarrow>
         (case each_ok (link_named env k Can_Use_Skill ''skill'' Skill_Node) (ac_skills a) st of Inl e \<Rightarrow> Inl e | Inr st \<Rightarrow>
           each_ok (link_named env k Can_Call_Tool ''mcp'' Mcp_Tool) (ac_tools a) st))"

definition guard_skill :: string where "guard_skill = ''skill.mcpguard_gov''"

definition link_tool :: "audit_env \<Rightarrow> registry_config \<Rightarrow> string \<Rightarrow> string \<Rightarrow> scan_state \<Rightarrow> graph_error + scan_state" where
  "link_tool env reg policy k st =
     (case put_edge (make_edge env guard_skill Guards k ''manifest'') st of Inl e \<Rightarrow> Inl e | Inr st1 \<Rightarrow>
     (case put_edge (make_edge env k Governed_By policy ''policy'') st1 of Inl e \<Rightarrow> Inl e | Inr st2 \<Rightarrow>
     (case row_get cn_id k (sc_nodes st2) of None \<Rightarrow> Inl Crash | Some n \<Rightarrow>
     (case map_of (rc_risks reg) (cn_name n) of
        Some (c # cs) \<Rightarrow>
          (case node_identifier ''risk'' (c # cs) of
             None \<Rightarrow> Inl Graph_Misconfigured
           | Some r \<Rightarrow> put_edge (make_edge env k Produces_Risk r ''registry'') st2)
      | _ \<Rightarrow> Inr st2))))"

definition link_case :: "audit_env \<Rightarrow> string \<times> case_config \<Rightarrow> scan_state \<Rightarrow> graph_error + scan_state" where
  "link_case env = (\<lambda>(key, c) st.
     case node_identifier ''case'' key of
       None \<Rightarrow> Inl Graph_Misconfigured
     | Some k \<Rightarrow>
         each_ok (\<lambda>t st. if t \<in> cn_id ` set (sc_nodes st)
                         then put_edge (make_edge env k Validates t ''test_registry'') st else Inl Graph_Misconfigured)
           (tc_validates c) st)"

definition scan_nodes :: "audit_env \<Rightarrow> repository \<Rightarrow> registry_config \<Rightarrow> model_config \<Rightarrow> graph_error + scan_state" where
  "scan_nodes env repo reg cfg =
     (let v = rc_version reg in
     (case each_ok (scan_skill env reg) (rp_skills repo) \<lparr>sc_nodes = [], sc_edges = [], sc_tools = []\<rparr> of Inl e \<Rightarrow> Inl e | Inr st \<Rightarrow>
     (case each_ok (scan_server env) (rp_servers repo) st of Inl e \<Rightarrow> Inl e | Inr st \<Rightarrow>
     (if rp_policies repo = [] then Inl Graph_Misconfigured else
     (case each_ok (scan_policy env) (rp_policies repo) st of Inl e \<Rightarrow> Inl e | Inr st \<Rightarrow>
     (case policy_id (rc_policy reg) of None \<Rightarrow> Inl Graph_Misconfigured | Some active \<Rightarrow>
     (if active \<notin> cn_id ` set (sc_nodes st) then Inl Graph_Misconfigured else
     (case each_ok (scan_entry ''intent'' (intent_node env v)) (rc_intents reg) st of Inl e \<Rightarrow> Inl e | Inr st \<Rightarrow>
     (case each_ok (scan_entry ''agent'' (agent_node env v)) (rc_agents reg) st of Inl e \<Rightarrow> Inl e | Inr st \<Rightarrow>
     (case each_ok (scan_entry ''model'' (model_node env v)) (rc_models reg) st of Inl e \<Rightarrow> Inl e | Inr st \<Rightarrow>
     (case each_ok (scan_entry ''source'' (source_node env v)) (rc_sources reg) st of Inl e \<Rightarrow> Inl e | Inr st \<Rightarrow>
     (case each_ok (scan_entry ''case'' (case_node env v)) (rc_cases reg) st of Inl e \<Rightarrow> Inl e | Inr st \<Rightarrow>
     (case each_ok (scan_entry ''model'' (provider_node env (mg_version cfg) (rp_gateway_file repo))) (mg_providers cfg) st of
        Inl e \<Rightarrow> Inl e | Inr st \<Rightarrow>
     (case put_node (role_node env v) st of Inl e \<Rightarrow> Inl e | Inr st \<Rightarrow>
       each_ok (scan_risk env v) (sorted_set (map snd (rc_risks reg))) st))))))))))))))"

definition scan_edges :: "audit_env \<Rightarrow> registry_config \<Rightarrow> scan_state \<Rightarrow> graph_error + scan_state" where
  "scan_edges env reg st =
     (if \<not> list_all (\<lambda>m. case node_identifier ''skill'' m of None \<Rightarrow> False | Some k \<Rightarrow> node_of_type Skill_Node k st) (rc_mandatory reg)
        then Inl Graph_Misconfigured else
     (case each_ok (link_intent env) (rc_intents reg) st of Inl e \<Rightarrow> Inl e | Inr st \<Rightarrow>
     (case each_ok (link_agent env) (rc_agents reg) st of Inl e \<Rightarrow> Inl e | Inr st \<Rightarrow>
     (if \<not> node_of_type Skill_Node guard_skill st then Inl Graph_Misconfigured else
     (case policy_id (rc_policy reg) of None \<Rightarrow> Inl Graph_Misconfigured | Some active \<Rightarrow>
     (case each_ok (link_tool env reg active) (sort (sc_tools st)) st of Inl e \<Rightarrow> Inl e | Inr st \<Rightarrow>
       each_ok (link_case env) (rc_cases reg) st))))))"

definition source_texts :: "repository \<Rightarrow> (string \<times> string) list" where
  "source_texts repo =
     fold (keyed_put fst)
       ([(rp_registry_file repo, rp_registry_text repo), (rp_gateway_file repo, rp_gateway_text repo)] @
        concat (map (\<lambda>s. (sk_file s, sk_text s) # (case sk_doc s of None \<Rightarrow> [] | Some d \<Rightarrow> [d])) (rp_skills repo)) @
        concat (map (\<lambda>s. [(sv_file s, sv_text s), (sv_code_file s, sv_code s)]) (rp_servers repo)) @
        map (\<lambda>p. (po_file p, po_text p)) (rp_policies repo)) []"

definition scan_repository :: "audit_env \<Rightarrow> repository \<Rightarrow> graph_error + scan_snapshot" where
  "scan_repository env repo =
     (case (rp_registry repo, rp_gateway repo) of
        (Some reg, Some cfg) \<Rightarrow>
          (case scan_nodes env repo reg cfg of Inl e \<Rightarrow> Inl e | Inr st \<Rightarrow>
          (case scan_edges env reg st of Inl e \<Rightarrow> Inl e | Inr st \<Rightarrow>
            if \<not> list_all (\<lambda>e. ce_source e \<in> cn_id ` set (sc_nodes st) \<and> ce_target e \<in> cn_id ` set (sc_nodes st)) (sc_edges st)
              then Inl Graph_Misconfigured
            else Inr \<lparr>ss_version = rc_version reg,
                   ss_digest = canonical_hash env (PDict (map (\<lambda>(f, t). (f, PStr (ae_sha env t))) (source_texts repo))),
                   ss_tokens = max 1 (int (sum_list (map (length \<circ> snd) (source_texts repo))) div 4),
                   ss_nodes = sort_key cn_id (sc_nodes st), ss_edges = sort_key ce_id (sc_edges st)\<rparr>))
      | _ \<Rightarrow> Inl Graph_Misconfigured)"

section \<open>Building the graph\<close>

text \<open>\<open>_registration_scans\<close>: changed skills and tools are scanned again; the scanner of packages is an
  argument.\<close>

definition registration_scans ::
    "(string \<Rightarrow> (string \<times> int)) \<Rightarrow> scan_snapshot \<Rightarrow> graph_db \<Rightarrow> string \<Rightarrow> (string \<times> int) option" where
  "registration_scans scan_package sn db k =
     (case row_get cn_id k (rev (filter (\<lambda>n. protected_type (cn_type n) \<and> stored_hash db (cn_id n) \<noteq> Some (cn_hash n) \<and>
            set_field (cn_path n)) (ss_nodes sn))) of
        None \<Rightarrow> None
      | Some n \<Rightarrow> Some (scan_package (the (cn_path n))))"

definition build_graph ::
    "audit_env \<Rightarrow> repository \<Rightarrow> (string \<Rightarrow> string \<times> int) \<Rightarrow> string option \<Rightarrow> string \<Rightarrow> build_result graph_op" where
  "build_graph env repo scan_package reviewer now db =
     (case scan_repository env repo of
        Inl e \<Rightarrow> (Inl e, db)
      | Inr sn \<Rightarrow> replace_snapshot env sn reviewer (registration_scans scan_package sn db) now db)"

definition bootstrap_if_empty ::
    "audit_env \<Rightarrow> repository \<Rightarrow> (string \<Rightarrow> string \<times> int) \<Rightarrow> string \<Rightarrow> build_result option graph_op" where
  "bootstrap_if_empty env repo scan_package now db =
     (case graph_metadata db of
        Inl _ \<Rightarrow> op_bind (build_graph env repo scan_package None now) (\<lambda>r. op_return (Some r)) db
      | Inr _ \<Rightarrow> (Inr None, db))"

end
