(* ===== verification/GraphInvariants.thy ===== *)
theory GraphInvariants
  imports GraphScan
begin

text \<open>
  The invariant of the capability graph's tables: one signed, approved record per node, edges between
  stored nodes, and learned patterns whose counts are those of their observations. Every transaction of
  the store keeps it; \<open>graph_reachable\<close> are the tables these transactions lead to. The nodes a transaction is
  given are pydantic models, so they satisfy their field constraints.
\<close>

section \<open>The invariant\<close>

definition record_matches :: "audit_env \<Rightarrow> capability_node \<Rightarrow> governance_record \<Rightarrow> bool" where
  "record_matches env n g \<longleftrightarrow>
     gv_node g = cn_id n \<and> gv_hash g = cn_hash n \<and> gv_sig g = sign_node env (cn_id n) (cn_hash n) (cn_version n) \<and>
     gv_status g = ''approved''"

definition edges_closed :: "capability_node list \<Rightarrow> capability_edge list \<Rightarrow> bool" where
  "edges_closed ns es \<longleftrightarrow> list_all (\<lambda>e. ce_source e \<in> set (map cn_id ns) \<and> ce_target e \<in> set (map cn_id ns)) es"

definition nodes_ok :: "audit_env \<Rightarrow> graph_db \<Rightarrow> bool" where
  "nodes_ok env db \<longleftrightarrow>
     distinct (map cn_id (gd_nodes db)) \<and> distinct (map ce_id (gd_edges db)) \<and> edges_closed (gd_nodes db) (gd_edges db) \<and>
     list_all valid_node (gd_nodes db) \<and> list_all2 (record_matches env) (gd_nodes db) (gd_governance db)"

definition seen :: "observation list \<Rightarrow> string \<Rightarrow> bool \<Rightarrow> nat" where
  "seen obs k ok = length (filter (\<lambda>x. ob_pattern x = k \<and> ob_succeeded x = ok) obs)"

definition pattern_counted :: "audit_env \<Rightarrow> observation list \<Rightarrow> pattern_row \<Rightarrow> bool" where
  "pattern_counted env obs r \<longleftrightarrow>
     tp_id r = trace_pattern_id env (tp_intent r) (tp_path_json r) \<and>
     tp_good r = seen obs (tp_id r) True \<and> tp_bad r = seen obs (tp_id r) False \<and>
     tp_sig r = sign_trace_pattern env (tp_intent r) (tp_path_json r) (tp_good r) (tp_bad r) (tp_trace r)"

definition patterns_ok :: "audit_env \<Rightarrow> graph_db \<Rightarrow> bool" where
  "patterns_ok env db \<longleftrightarrow>
     distinct (map tp_id (gd_patterns db)) \<and> distinct (map ob_trace (gd_observations db)) \<and>
     (\<forall>r \<in> set (gd_patterns db). pattern_counted env (gd_observations db) r) \<and>
     (\<forall>x \<in> set (gd_observations db). ob_pattern x \<in> set (map tp_id (gd_patterns db)))"

definition graph_ok :: "audit_env \<Rightarrow> graph_db \<Rightarrow> bool" where
  "graph_ok env db \<longleftrightarrow> nodes_ok env db \<and> patterns_ok env db"

inductive graph_step :: "audit_env \<Rightarrow> graph_db \<Rightarrow> graph_db \<Rightarrow> bool" for env where
  replaced: "list_all valid_node (ss_nodes sn) \<Longrightarrow> replace_snapshot env sn reviewer scans now db = (r, db') \<Longrightarrow> graph_step env db db'"
| learned: "record_trace_pattern env goal path ok trace now db = (r, db') \<Longrightarrow> graph_step env db db'"

definition graph_reachable :: "audit_env \<Rightarrow> graph_db \<Rightarrow> bool" where
  "graph_reachable env db \<longleftrightarrow> (graph_step env)\<^sup>*\<^sup>* new_graph_db db"

section \<open>Replacing keeps it\<close>

lemma replace_cases:
  assumes "replace_snapshot env sn reviewer scans now db = (r, db')"
  obtains (kept) "db' = db" "is_ok r \<Longrightarrow> snapshot_unchanged sn db"
  | (written) "tables_accept sn (map (governance_row env reviewer scans now db) (ss_nodes sn))"
      "gd_nodes db = [] \<or> changed_protected sn db = [] \<or> set_field reviewer" "\<not> snapshot_unchanged sn db" "is_ok r"
      "db' = db\<lparr>gd_nodes := ss_nodes sn, gd_edges := ss_edges sn,
         gd_governance := map (governance_row env reviewer scans now db) (ss_nodes sn),
         gd_meta := Some \<lparr>gm_version = ss_version sn, gm_digest = ss_digest sn, gm_tokens = ss_tokens sn\<rparr>\<rparr>"
  using assms unfolding replace_snapshot_def Let_def by (auto split: if_splits)

lemma governance_row_matches: "record_matches env n (governance_row env reviewer scans now db n)"
  by (simp add: record_matches_def governance_row_def Let_def split: option.split)

lemma replace_ok:
  assumes "graph_ok env db" "list_all valid_node (ss_nodes sn)" "replace_snapshot env sn reviewer scans now db = (r, db')"
  shows "graph_ok env db'"
  using assms(3)
proof (cases rule: replace_cases)
  case written
  have "list_all2 (record_matches env) (ss_nodes sn) (map (governance_row env reviewer scans now db) (ss_nodes sn))"
    by (simp add: list_all2_conv_all_nth governance_row_matches)
  then show ?thesis using assms(1,2) written
    by (simp add: graph_ok_def nodes_ok_def patterns_ok_def tables_accept_def edges_closed_def)
qed (use assms(1) in simp)

lemma replace_unchanged: "replace_snapshot env sn reviewer scans now db = (Inr res, db') \<Longrightarrow> gb_unchanged res = snapshot_unchanged sn db"
  unfolding replace_snapshot_def Let_def by (auto split: if_splits)

section \<open>Learning keeps it\<close>

lemma seen_snoc [simp]:
  "seen (obs @ [x]) k ok = seen obs k ok + (if ob_pattern x = k \<and> ob_succeeded x = ok then 1 else 0)"
  by (simp add: seen_def)

lemma seen_none: "\<forall>x \<in> set obs. ob_pattern x \<noteq> k \<Longrightarrow> seen obs k ok = 0"
  by (auto simp: seen_def filter_empty_conv)

lemma counted_row_sel [simp]:
  "tp_id (counted_row env goal path ok trace now good bad r) = tp_id r"
  "tp_intent (counted_row env goal path ok trace now good bad r) = tp_intent r"
  "tp_path_json (counted_row env goal path ok trace now good bad r) = tp_path_json r"
  "tp_good (counted_row env goal path ok trace now good bad r) = good + (if ok then 1 else 0)"
  "tp_bad (counted_row env goal path ok trace now good bad r) = bad + (if ok then 0 else 1)"
  "tp_trace (counted_row env goal path ok trace now good bad r) = trace"
  "tp_sig (counted_row env goal path ok trace now good bad r) =
     sign_trace_pattern env goal path (good + (if ok then 1 else 0)) (bad + (if ok then 0 else 1)) trace"
  by (simp_all add: counted_row_def Let_def)

lemma find_same_path:
  "find (same_path goal path) rows = Some r \<Longrightarrow> r \<in> set rows \<and> tp_intent r = goal \<and> tp_path_json r = path"
  by (auto simp: find_Some_iff same_path_def)

lemma upsert_ok:
  assumes d: "distinct (map tp_id rows)" and ok: "\<forall>r \<in> set rows. pattern_counted env obs r"
    and obs: "\<forall>x \<in> set obs. ob_pattern x \<in> set (map tp_id rows)"
    and up: "upsert_pattern env goal path good trace now rows = Some rows'"
    and x: "ob_pattern x = trace_pattern_id env goal path" "ob_succeeded x = good"
  shows "distinct (map tp_id rows') \<and> (\<forall>r \<in> set rows'. pattern_counted env (obs @ [x]) r) \<and>
    set (map tp_id rows') = insert (trace_pattern_id env goal path) (set (map tp_id rows))"
proof (cases "find (same_path goal path) rows")
  case None
  let ?k = "trace_pattern_id env goal path"
  have fresh: "?k \<notin> set (map tp_id rows)" using up None by (auto simp: upsert_pattern_def Let_def split: if_splits)
  obtain blank where rows': "rows' = rows @ [counted_row env goal path good trace now 0 0 blank]"
    and b: "tp_id blank = ?k" "tp_intent blank = goal" "tp_path_json blank = path"
    using up None fresh by (auto simp: upsert_pattern_def Let_def)
  have old: "pattern_counted env (obs @ [x]) r" if "r \<in> set rows" for r
  proof -
    have "tp_id r \<in> set (map tp_id rows)" using that by simp
    then have "tp_id r \<noteq> ?k" using fresh by metis
    then show ?thesis using ok that x by (auto simp: pattern_counted_def)
  qed
  have none: "seen obs ?k b = 0" for b by (rule seen_none) (use obs fresh in metis)
  have "pattern_counted env (obs @ [x]) (counted_row env goal path good trace now 0 0 blank)"
    using x none by (simp add: pattern_counted_def b)
  then show ?thesis using d fresh old by (auto simp: rows' b)
next
  case (Some r)
  note r = find_same_path[OF Some]
  let ?c = "counted_row env goal path good trace now (tp_good r) (tp_bad r)"
  have rows': "rows' = map (\<lambda>y. if same_path goal path y then ?c y else y) rows"
    using up Some by (simp add: upsert_pattern_def)
  have ids: "map tp_id rows' = map tp_id rows" by (simp add: rows' comp_def if_distrib cong: if_cong)
  have rk: "tp_id r = trace_pattern_id env goal path" using ok r by (auto simp: pattern_counted_def)
  have each: "pattern_counted env (obs @ [x]) (if same_path goal path y then ?c y else y)" if y: "y \<in> set rows" for y
  proof (cases "same_path goal path y")
    case True
    then have "tp_id y = tp_id r" using ok y rk by (auto simp: pattern_counted_def same_path_def)
    then have "y = r" using d y r by (auto simp: distinct_map inj_on_def)
    then show ?thesis using ok r x rk by (auto simp: pattern_counted_def same_path_def)
  next
    case False
    have "tp_id y \<noteq> tp_id r"
    proof
      assume "tp_id y = tp_id r"
      then have "y = r" using d y r by (auto simp: distinct_map inj_on_def)
      with False r show False by (simp add: same_path_def)
    qed
    then show ?thesis using False ok y x rk by (auto simp: pattern_counted_def)
  qed
  then have "\<forall>y \<in> set rows'. pattern_counted env (obs @ [x]) y" unfolding rows' set_map by blast
  moreover have "trace_pattern_id env goal path \<in> set (map tp_id rows)" using r rk by (metis image_eqI set_map)
  ultimately show ?thesis using d unfolding ids by (simp add: insert_absorb)
qed

lemma record_cases:
  assumes "record_trace_pattern env goal path ok trace now db = (r, db')"
  obtains (kept) "db' = db" "\<not> is_ok r"
  | (counted) rows where "trace \<notin> set (map ob_trace (gd_observations db))" "set path \<subseteq> set (map cn_id (gd_nodes db))"
      "\<exists>n \<in> set (gd_nodes db). cn_id n = goal \<and> cn_type n = Task_Intent"
      "upsert_pattern env goal (path_text path) ok trace now (gd_patterns db) = Some rows"
      "db' = db\<lparr>gd_patterns := rows, gd_observations := gd_observations db @
         [\<lparr>ob_trace = trace, ob_pattern = trace_pattern_id env goal (path_text path), ob_succeeded = ok, ob_at = now\<rparr>]\<rparr>"
      "r = (case find (same_path goal (path_text path)) rows of None \<Rightarrow> Inl Integrity_Error | Some row \<Rightarrow> pattern_from_row env row)"
proof (cases "trace \<in> set (map ob_trace (gd_observations db)) \<or>
    \<not> list_ex (\<lambda>n. cn_id n = goal \<and> cn_type n = Task_Intent) (gd_nodes db) \<or> \<not> set path \<subseteq> set (map cn_id (gd_nodes db))")
  case True
  then show ?thesis using assms kept unfolding record_trace_pattern_def Let_def by (auto simp del: set_map split: if_splits)
next
  case False
  then have c: "trace \<notin> set (map ob_trace (gd_observations db))" "set path \<subseteq> set (map cn_id (gd_nodes db))"
    "list_ex (\<lambda>n. cn_id n = goal \<and> cn_type n = Task_Intent) (gd_nodes db)" by blast+
  then have ex: "\<exists>n \<in> set (gd_nodes db). cn_id n = goal \<and> cn_type n = Task_Intent" by (simp add: list_ex_iff)
  note run = assms[unfolded record_trace_pattern_def Let_def, unfolded if_not_P[OF c(1)]]
  show ?thesis
  proof (cases "upsert_pattern env goal (path_text path) ok trace now (gd_patterns db)")
    case None
    then show ?thesis using run c by (auto intro: kept)
  next
    case (Some rows)
    show ?thesis
    proof (cases "trace_pattern_id env goal (path_text path) \<in> set (map tp_id rows)")
      case False
      then show ?thesis using run c Some by (auto intro: kept)
    next
      case True
      show ?thesis by (rule counted[OF c(1,2) ex Some]) (use run c Some True in simp_all)
    qed
  qed
qed

lemma record_ok:
  assumes "graph_ok env db" "record_trace_pattern env goal path ok trace now db = (r, db')"
  shows "graph_ok env db'"
  using assms(2)
proof (cases rule: record_cases)
  case (counted rows)
  have p: "patterns_ok env db" using assms(1) by (simp add: graph_ok_def)
  let ?x = "\<lparr>ob_trace = trace, ob_pattern = trace_pattern_id env goal (path_text path), ob_succeeded = ok, ob_at = now\<rparr>"
  have "distinct (map tp_id rows) \<and> (\<forall>r \<in> set rows. pattern_counted env (gd_observations db @ [?x]) r) \<and>
      set (map tp_id rows) = insert (trace_pattern_id env goal (path_text path)) (set (map tp_id (gd_patterns db)))"
    by (rule upsert_ok[OF _ _ _ counted(4)]) (use p in \<open>auto simp: patterns_ok_def\<close>)
  then show ?thesis using assms(1) p counted(1,5) by (auto simp: graph_ok_def nodes_ok_def patterns_ok_def)
qed (use assms(1) in simp)

section \<open>Reachable tables\<close>

lemma new_graph_ok: "graph_ok env new_graph_db"
  by (simp add: graph_ok_def nodes_ok_def patterns_ok_def new_graph_db_def edges_closed_def)

lemma graph_step_ok: "graph_step env db db' \<Longrightarrow> graph_ok env db \<Longrightarrow> graph_ok env db'"
  by (induction rule: graph_step.induct) (blast intro: replace_ok record_ok)+

lemma reachable_graph_ok: "graph_reachable env db \<Longrightarrow> graph_ok env db"
  unfolding graph_reachable_def by (induction rule: rtranclp_induct) (auto intro: new_graph_ok graph_step_ok)

lemma graph_recordD:
  assumes "graph_ok env db" "n \<in> set (gd_nodes db)"
  obtains g where "row_get gv_node (cn_id n) (gd_governance db) = Some g" "record_matches env n g"
proof -
  have l: "list_all2 (record_matches env) (gd_nodes db) (gd_governance db)" and d: "distinct (map cn_id (gd_nodes db))"
    using assms(1) by (simp_all add: graph_ok_def nodes_ok_def)
  obtain i where i: "i < length (gd_nodes db)" "n = gd_nodes db ! i" using assms(2) by (auto simp: in_set_conv_nth)
  let ?g = "gd_governance db ! i"
  have m: "record_matches env n ?g" using l i by (simp add: list_all2_conv_all_nth)
  have ids: "map gv_node (gd_governance db) = map cn_id (gd_nodes db)"
    using l by (auto simp: list_all2_conv_all_nth record_matches_def intro: nth_equalityI)
  have "?g \<in> set (gd_governance db)" using l i by (simp add: list_all2_conv_all_nth)
  then have "row_get gv_node (gv_node ?g) (gd_governance db) = Some ?g"
    by (rule row_get_distinct[rotated]) (simp add: ids d)
  then show thesis using m that by (simp add: record_matches_def)
qed

end
