(* ===== verification/GraphDemo.thy ===== *)
theory GraphDemo
  imports GraphInvariants
begin

text \<open>
  A small graph on which the properties are tried out: one intent, two skills (one mandatory), a graph built
  once, a path learned from two traces, the audit trail of a third one, and a repository with one tool.
\<close>

definition sha_of :: "char \<Rightarrow> string" where
  "sha_of c = replicate 64 c"

definition graph_path :: "string list" where
  "graph_path = [''skill.guard'']"

definition graph_env :: audit_env where
  "graph_env = \<lparr>ae_sha = (\<lambda>_. sha_of CHR ''a''), ae_mac = (\<lambda>_. sha_of CHR ''b''), ae_key = ''k'',
     ae_loads = (\<lambda>s.
       if s = path_text graph_path then Some (str_list graph_path)
       else if s = ''plan'' then Some (PDict [(''intent'', PStr ''intent.general_task'')])
       else if s = ''skill'' then Some (PDict [(''skill_name'', PStr ''guard'')])
       else if s = ''final'' then Some (PDict [(''status'', PStr ''completed'')])
       else Some (PDict [])),
     ae_reached = (\<lambda>_ _. False)\<rparr>"

definition small_node :: "string \<Rightarrow> node_type \<Rightarrow> bool \<Rightarrow> string \<Rightarrow> capability_node" where
  "small_node k t must version =
     (plain_node k t ''n'' [] ''card'' ''unknown'' version (sha_of (if version = ''2'' then CHR ''d'' else CHR ''c'')) [])\<lparr>cn_mandatory := must\<rparr>"

definition graph_snapshot :: "string \<Rightarrow> scan_snapshot" where
  "graph_snapshot version = \<lparr>ss_version = ''1'', ss_digest = sha_of CHR ''e'', ss_tokens = 100,
     ss_nodes = [small_node ''intent.general_task'' Task_Intent False ''1'', small_node ''skill.guard'' Skill_Node True version,
       small_node ''skill.scan'' Skill_Node False ''1''], ss_edges = []\<rparr>"

definition built_graph :: graph_db where
  "built_graph = snd (replace_snapshot graph_env (graph_snapshot ''1'') None (\<lambda>_. None) ''t0'' new_graph_db)"

definition reviewed_graph :: graph_db where
  "reviewed_graph = snd (replace_snapshot graph_env (graph_snapshot ''2'') (Some ''ann'') (\<lambda>_. None) ''t1'' built_graph)"

definition learn_once :: "string \<Rightarrow> graph_db \<Rightarrow> graph_db" where
  "learn_once trace db = snd (record_trace_pattern graph_env ''intent.general_task'' graph_path True trace ''t2'' db)"

definition learned_graph :: graph_db where
  "learned_graph = learn_once ''T2'' (learn_once ''T1'' built_graph)"

lemma built_eq: "built_graph = \<lparr>gd_nodes = ss_nodes (graph_snapshot ''1''), gd_edges = [],
    gd_meta = Some \<lparr>gm_version = ''1'', gm_digest = sha_of CHR ''e'', gm_tokens = 100\<rparr>,
    gd_governance = map (\<lambda>(k, w). \<lparr>gv_node = k, gv_hash = sha_of CHR ''c'', gv_sig = sha_of CHR ''b'', gv_key = ''k'',
      gv_status = ''approved'', gv_by = w, gv_at = ''t0'', gv_level = ''not_applicable'', gv_score = 0\<rparr>)
      [(''intent.general_task'', ''graph-policy-auto''), (''skill.guard'', ''repository-bootstrap''),
       (''skill.scan'', ''repository-bootstrap'')],
    gd_patterns = [], gd_observations = []\<rparr>"
  by code_simp

lemma reviewed_run: "fst (replace_snapshot graph_env (graph_snapshot ''2'') (Some ''ann'') (\<lambda>_. None) ''t1'' built_graph) =
    Inr \<lparr>gb_version = ''1'', gb_digest = sha_of CHR ''e'', gb_nodes = 3, gb_edges = 0, gb_added = [], gb_updated = [''skill.guard''],
      gb_removed = [], gb_signed = 3, gb_approved = [''skill.guard''], gb_unchanged = False\<rparr>"
  unfolding built_eq by code_simp

lemma learned_eq: "gd_patterns learned_graph = [\<lparr>tp_id = ''trace.'' @ replicate 24 CHR ''a'', tp_intent = ''intent.general_task'',
    tp_path_json = path_text graph_path, tp_good = 2, tp_bad = 0, tp_trace = ''T2'', tp_sig = sha_of CHR ''b'', tp_key = ''k'', tp_at = ''t2''\<rparr>]"
  "map ob_trace (gd_observations learned_graph) = [''T1'', ''T2'']" "gd_nodes learned_graph = gd_nodes built_graph"
  unfolding learned_graph_def built_eq by code_simp+

lemma demo_nodes_valid: "list_all valid_node (ss_nodes (graph_snapshot ''1''))" "list_all valid_node (ss_nodes (graph_snapshot ''2''))"
  by code_simp+

lemma built_reachable: "graph_reachable graph_env built_graph"
proof -
  have "graph_step graph_env new_graph_db built_graph"
    unfolding built_graph_def by (rule graph_step.replaced[OF demo_nodes_valid(1)]) (rule prod.collapse[symmetric])
  then show ?thesis unfolding graph_reachable_def by (rule r_into_rtranclp)
qed

lemma learn_step: "graph_reachable graph_env db \<Longrightarrow> graph_reachable graph_env (learn_once trace db)"
  unfolding graph_reachable_def learn_once_def
  by (erule rtranclp.rtrancl_into_rtrancl) (rule graph_step.learned, rule prod.collapse[symmetric])

lemma learned_reachable: "graph_reachable graph_env learned_graph"
  unfolding learned_graph_def by (intro learn_step built_reachable)

section \<open>Retrieval\<close>

definition graph_retrieval :: retrieval_env where
  "graph_retrieval = \<lparr>rx_audit = graph_env, rx_similar = (\<lambda>_ _. 0), rx_path = (\<lambda>_ _ _. None)\<rparr>"

definition graph_query :: search_request where
  "graph_query = \<lparr>gq_query = ''hello'', gq_scenario = ''office'', gq_budget = 1200, gq_top_k = 1\<rparr>"

lemma search_learned:
  "\<exists>res. search graph_retrieval graph_query learned_graph = Inr res \<and> gf_intent res = ''intent.general_task'' \<and>
     gf_learned res = Some (1, 2) \<and> gf_recommended res = [''skill.guard'']"
proof -
  have "(case search graph_retrieval graph_query learned_graph of Inl _ \<Rightarrow> False
     | Inr res \<Rightarrow> gf_intent res = ''intent.general_task'' \<and> gf_learned res = Some (1, 2) \<and> gf_recommended res = [''skill.guard''])"
    unfolding learned_graph_def built_eq by code_simp
  then show ?thesis by (auto split: sum.splits)
qed

section \<open>An audited trace\<close>

definition trail_row :: "nat \<Rightarrow> string \<Rightarrow> string \<Rightarrow> event_row" where
  "trail_row i stage json = \<lparr>er_id = i, er_trace = ''T3'', er_stage = stage, er_event_json = json, er_created = ''t'',
     er_sequence = Some (int i), er_version = ''2.0.0'', er_policy = ''p'', er_model = ''m'', er_dataset = ''d'', er_actor = None,
     er_prev = Some (if i = 1 then genesis else sha_of CHR ''a''), er_hash = Some (sha_of CHR ''a''), er_sig = Some (sha_of CHR ''b'')\<rparr>"

definition trail :: audit_db where
  "trail = \<lparr>ad_traces = [\<lparr>tr_id = ''T3'', tr_user_input = ''hello'', tr_source = ''user_input'', tr_created = ''t'',
       tr_schema = ''2.0.0'', tr_input_hash = None, tr_context_json = ''ctx'', tr_class = ''standard'', tr_until = None,
       tr_tenant = None, tr_user = None, tr_agent = None, tr_count = 3, tr_head = Some (sha_of CHR ''a''),
       tr_sig = Some (sha_of CHR ''b'')\<rparr>],
     ad_events = [trail_row 1 ''router_plan'' ''plan'', trail_row 2 ''skill_execution_completed'' ''skill'',
       trail_row 3 ''final_output'' ''final''], ad_last_id = 3, ad_alerts = []\<rparr>"

lemma learn_trail: "\<exists>accepted p db'. learn_trace graph_env trail ''T3'' ''t3'' built_graph = (Inr (accepted, p), db')"
proof -
  have "is_ok (fst (learn_trace graph_env trail ''T3'' ''t3'' built_graph))" unfolding built_eq by code_simp
  then show ?thesis by (cases "learn_trace graph_env trail ''T3'' ''t3'' built_graph") (auto simp: is_ok_iff)
qed

section \<open>A repository with one tool\<close>

definition repo_env :: audit_env where
  "repo_env = graph_env\<lparr>ae_sha := \<lambda>s.
     if s = json_dumps (edge_payload guard_skill Guards ''mcp.file_read'' ''manifest'') then sha_of CHR ''1''
     else if s = json_dumps (edge_payload ''mcp.file_read'' Governed_By ''policy.tool_policy_2_0_0'' ''policy'') then sha_of CHR ''2''
     else sha_of CHR ''0''\<rparr>"

definition small_repo :: repository where
  "small_repo = \<lparr>rp_registry_file = ''r'', rp_registry_text = ''x'',
     rp_registry = Some \<lparr>rc_version = ''1'', rc_policy = ''2.0.0'', rc_mandatory = [''mcpguard-gov''], rc_intents = [], rc_agents = [],
       rc_models = [], rc_sources = [], rc_cases = [], rc_risks = []\<rparr>,
     rp_gateway_file = ''g'', rp_gateway_text = ''x'',
     rp_gateway = Some \<lparr>mg_version = ''1'', mg_default = ''d'', mg_concurrency = 1, mg_ttl_ms = 0, mg_max_entries = 0, mg_max_cost = 0,
       mg_providers = [], mg_rules = []\<rparr>,
     rp_skills = [\<lparr>sk_dir = ''s'', sk_file = ''s/m'', sk_text = ''x'', sk_yaml = Some [(''name'', PStr ''mcpguard-gov'')], sk_doc = None\<rparr>],
     rp_servers = [\<lparr>sv_dir = ''v'', sv_dir_name = ''v'', sv_file = ''v/m'', sv_text = ''x'',
       sv_yaml = Some [(''capabilities'', PList [PStr ''file_read''])], sv_code_file = ''v/c'', sv_code = ''x'',
       sv_parameters = (\<lambda>_. Some [''path''])\<rparr>],
     rp_policies = [\<lparr>po_file = ''p'', po_stem = ''2.0.0'', po_text = ''x'', po_yaml = Some []\<rparr>]\<rparr>"

definition repo_edges :: "capability_edge list" where
  "repo_edges =
     [\<lparr>ce_id = sha_of CHR ''1'', ce_source = guard_skill, ce_relation = Guards, ce_target = ''mcp.file_read'', ce_weight = 1,
        ce_confidence = 1, ce_source_type = ''manifest''\<rparr>,
      \<lparr>ce_id = sha_of CHR ''2'', ce_source = ''mcp.file_read'', ce_relation = Governed_By,
        ce_target = ''policy.tool_policy_2_0_0'', ce_weight = 1, ce_confidence = 1, ce_source_type = ''policy''\<rparr>]"

definition repo_snapshot :: scan_snapshot where
  "repo_snapshot = \<lparr>ss_version = ''1'', ss_digest = sha_of CHR ''0'', ss_tokens = 1,
     ss_nodes =
       [\<lparr>cn_id = ''mcp.file_read'', cn_type = Mcp_Tool, cn_name = ''file_read'', cn_summary = ''v MCP server tool'',
          cn_card = ''file_read(path); risk medium; must pass MCPGuard.'', cn_inputs = [''path''], cn_outputs = [''status'', ''result''],
          cn_risk = ''medium'', cn_mandatory = False, cn_path = Some ''v'', cn_enabled = True, cn_version = ''1.0.0'',
          cn_hash = sha_of CHR ''0'', cn_metadata = [(''simulation_only'', PBool False)]\<rparr>,
        \<lparr>cn_id = ''policy.tool_policy_2_0_0'', cn_type = Policy_Node, cn_name = ''MCP Tool Policy 2.0.0'',
          cn_summary = ''versioned authorisation, approval and fail-closed policy of the MCP tools'',
          cn_card = ''Tool policy 2.0.0: loaded and decided before every tool call.'', cn_inputs = [], cn_outputs = [],
          cn_risk = ''unknown'', cn_mandatory = False, cn_path = Some ''p'', cn_enabled = True, cn_version = ''2.0.0'',
          cn_hash = sha_of CHR ''0'', cn_metadata = []\<rparr>,
        role_node repo_env ''1'',
        \<lparr>cn_id = guard_skill, cn_type = Skill_Node, cn_name = ''mcpguard-gov'', cn_summary = ''mcpguard-gov security capability'',
          cn_card = ''mcpguard-gov: inputs none; outputs none.'', cn_inputs = [], cn_outputs = [], cn_risk = ''security_mandatory'',
          cn_mandatory = True, cn_path = Some ''s'', cn_enabled = True, cn_version = ''1.0.0'', cn_hash = sha_of CHR ''0'',
          cn_metadata = [(''entrypoint'', PNone), (''permissions'', PDict [])]\<rparr>],
     ss_edges = repo_edges\<rparr>"

lemma repo_scans: "scan_repository repo_env small_repo = Inr repo_snapshot"
  by code_simp

end
