(* ===== verification/GraphProps.thy ===== *)
theory GraphProps
  imports GraphDemo
begin

text \<open>
  The properties of the tables of the capability graph: review of skills and tools, signatures, the counts of
  learned paths, and what a forged path does to every reader.
\<close>

section \<open>Review\<close>







section \<open>Signatures\<close>

lemma list_governanceD: "list_governance db = Inr gov \<Longrightarrow> set gov = set (gd_governance db) \<and> gov = sort_key gv_node (gd_governance db)"
  by (auto simp: list_governance_def Let_def split: if_splits)

lemma row_get_sorted:
  assumes "distinct (map key rows)"
  shows "row_get key k (sort_key f rows) = row_get key k rows"
proof (cases "row_get key k rows")
  case None
  then have "row_get key k (sort_key f rows) = None" unfolding row_get_None_iff by simp
  then show ?thesis using None by simp
next
  case (Some r)
  have "mset (map key (sort_key f rows)) = mset (map key rows)" by simp
  then have "distinct (map key (sort_key f rows))" using assms mset_eq_imp_distinct_iff by blast
  moreover have "r \<in> set (sort_key f rows)" "key r = k" using row_get_SomeD[OF Some] by simp_all
  ultimately show ?thesis using row_get_distinct[of key "sort_key f rows" r] Some by simp
qed

lemma governance_ids:
  "graph_ok env db \<Longrightarrow> map gv_node (gd_governance db) = map cn_id (gd_nodes db)"
  by (auto simp: graph_ok_def nodes_ok_def list_all2_conv_all_nth record_matches_def intro: nth_equalityI)

lemma listed_records:
  assumes "graph_ok env db" "\<forall>x. ae_mac env x \<noteq> []" "list_governance db' = Inr gov" "gd_governance db' = gd_governance db"
  shows "\<forall>g \<in> set gov. gv_status g = ''approved''" "row_get gv_node k gov = row_get gv_node k (gd_governance db)"
    "m \<in> set (gd_nodes db) \<Longrightarrow> \<not> record_problem env gov m"
proof -
  have l: "list_all2 (record_matches env) (gd_nodes db) (gd_governance db)" and d: "distinct (map cn_id (gd_nodes db))"
    using assms(1) by (simp_all add: graph_ok_def nodes_ok_def)
  note gov = list_governanceD[OF assms(3), unfolded assms(4)]
  show "\<forall>g \<in> set gov. gv_status g = ''approved''"
    using l gov by (auto simp: list_all2_conv_all_nth record_matches_def in_set_conv_nth)
  have get: "row_get gv_node k gov = row_get gv_node k (gd_governance db)" for k
    using gov row_get_sorted[of gv_node "gd_governance db"] governance_ids[OF assms(1)] d by simp
  then show "row_get gv_node k gov = row_get gv_node k (gd_governance db)" .
  show "\<not> record_problem env gov m" if m: "m \<in> set (gd_nodes db)"
  proof -
    obtain g where "row_get gv_node (cn_id m) (gd_governance db) = Some g" "record_matches env m g"
      using assms(1) m by (rule graph_recordD)
    then show ?thesis using assms(2) by (simp add: record_problem_def get record_matches_def verify_node_def sign_node_def)
  qed
qed

lemma verified_when_reachable:
  assumes "graph_reachable env db" "\<forall>x. ae_mac env x \<noteq> []" "verify_governance env db = Inr (invalid, unapproved)"
  shows "invalid = [] \<and> unapproved = []"
proof -
  obtain gov where gov: "list_governance db = Inr gov"
    and inv: "invalid = map cn_id (filter (record_problem env gov) (list_nodes db))"
    and un: "unapproved = map gv_node (filter (\<lambda>g. gv_status g \<noteq> ''approved'') gov)"
    using assms(3) by (auto simp: verify_governance_def split: sum.splits)
  note f = listed_records[OF reachable_graph_ok[OF assms(1)] assms(2) gov refl]
  show ?thesis using f(1,3) unfolding inv un by (simp add: filter_empty_conv list_nodes_def)
qed

text \<open>C28: What the graph verifies is what was approved: with the tables the store's own transactions left,
  verification names no node; and when the hash or the version of a stored node is altered behind the store's
  back, verification names that node, unless the altered version has the very same signature.\<close>

theorem altered_node_is_named:
  assumes "graph_reachable env db" "\<forall>x. ae_mac env x \<noteq> []" "i < length (gd_nodes db)" "cn_id n = cn_id (gd_nodes db ! i)"
    and "verify_governance env (db\<lparr>gd_nodes := (gd_nodes db)[i := n]\<rparr>) = Inr (invalid, unapproved)"
  shows "unapproved = [] \<and> set invalid \<subseteq> {cn_id n} \<and>
    (invalid = [] \<longleftrightarrow> cn_hash n = cn_hash (gd_nodes db ! i) \<and>
       sign_node env (cn_id n) (cn_hash n) (cn_version n) =
       sign_node env (cn_id n) (cn_hash n) (cn_version (gd_nodes db ! i)))"
proof -
  note ok = reachable_graph_ok[OF assms(1)]
  let ?db = "db\<lparr>gd_nodes := (gd_nodes db)[i := n]\<rparr>"
  obtain gov where gov: "list_governance ?db = Inr gov"
    and inv: "invalid = map cn_id (filter (record_problem env gov) (list_nodes ?db))"
    and un: "unapproved = map gv_node (filter (\<lambda>g. gv_status g \<noteq> ''approved'') gov)"
    using assms(5) by (auto simp: verify_governance_def split: sum.splits)
  have "gd_governance ?db = gd_governance db" by simp
  note f = listed_records[OF ok assms(2) gov this]
  have un': "unapproved = []" unfolding un using f(1) by (simp add: filter_empty_conv)
  note get = f(2) and fine = f(3)
  have old: "gd_nodes db ! i \<in> set (gd_nodes db)" using assms(3) by simp
  obtain g where g: "row_get gv_node (cn_id n) (gd_governance db) = Some g" "record_matches env (gd_nodes db ! i) g"
    using graph_recordD[OF ok old] assms(4) by metis
  have bad: "record_problem env gov n \<longleftrightarrow> \<not> (cn_hash n = cn_hash (gd_nodes db ! i) \<and>
       sign_node env (cn_id n) (cn_hash n) (cn_version n) =
       sign_node env (cn_id n) (cn_hash n) (cn_version (gd_nodes db ! i)))"
    using g assms(2,4) by (auto simp: record_problem_def get record_matches_def verify_node_def sign_node_def)
  have mem: "m \<in> set (list_nodes ?db) \<longleftrightarrow> m \<in> set ((gd_nodes db)[i := n])" for m by (simp add: list_nodes_def)
  have n: "n \<in> set ((gd_nodes db)[i := n])" using assms(3) by (rule set_update_memI)
  have sub: "m = n \<or> m \<in> set (gd_nodes db)" if "m \<in> set ((gd_nodes db)[i := n])" for m
    using that set_update_subset_insert[of "gd_nodes db" i n] by blast
  have each: "cn_id m = cn_id n" if "m \<in> set (list_nodes ?db)" "record_problem env gov m" for m
    using fine sub[OF mem[THEN iffD1, OF that(1)]] that(2) by blast
  then have "set invalid \<subseteq> {cn_id n}" unfolding inv by auto
  moreover have "invalid = [] \<longleftrightarrow> \<not> record_problem env gov n"
  proof
    assume "invalid = []"
    then show "\<not> record_problem env gov n" using n mem[of n] unfolding inv by (simp add: filter_empty_conv)
  next
    assume "\<not> record_problem env gov n"
    then have "\<not> record_problem env gov m" if "m \<in> set (list_nodes ?db)" for m
      using fine sub[OF mem[THEN iffD1, OF that]] by blast
    then show "invalid = []" unfolding inv by (simp add: filter_empty_conv)
  qed
  ultimately show ?thesis using un' bad by blast
qed

section \<open>Counting\<close>

lemma seen_card:
  assumes "distinct (map ob_trace obs)"
  shows "seen obs k ok = card {t. \<exists>x \<in> set obs. ob_trace x = t \<and> ob_pattern x = k \<and> ob_succeeded x = ok}"
proof -
  let ?f = "filter (\<lambda>x. ob_pattern x = k \<and> ob_succeeded x = ok) obs"
  have "distinct (map ob_trace ?f)" using assms by (rule distinct_map_filter)
  then have "card (set (map ob_trace ?f)) = length (map ob_trace ?f)" by (rule distinct_card)
  moreover have "set (map ob_trace ?f) = {t. \<exists>x \<in> set obs. ob_trace x = t \<and> ob_pattern x = k \<and> ob_succeeded x = ok}" by auto
  ultimately show ?thesis by (simp add: seen_def)
qed

text \<open>Every trace counts once: whatever transactions led to the tables, the successes and failures of a
  learned path are exactly the numbers of different traces it was observed in with that result, and its
  signature is the one over these numbers.\<close>

theorem traces_counted_once:
  assumes "graph_reachable env db" "r \<in> set (gd_patterns db)"
  shows "tp_good r = card {t. \<exists>x \<in> set (gd_observations db). ob_trace x = t \<and> ob_pattern x = tp_id r \<and> ob_succeeded x} \<and>
    tp_bad r = card {t. \<exists>x \<in> set (gd_observations db). ob_trace x = t \<and> ob_pattern x = tp_id r \<and> \<not> ob_succeeded x} \<and>
    tp_sig r = sign_trace_pattern env (tp_intent r) (tp_path_json r) (tp_good r) (tp_bad r) (tp_trace r)"
proof -
  have p: "patterns_ok env db" using reachable_graph_ok[OF assms(1)] by (simp add: graph_ok_def)
  then have d: "distinct (map ob_trace (gd_observations db))" and c: "pattern_counted env (gd_observations db) r"
    using assms(2) by (simp_all add: patterns_ok_def)
  show ?thesis using c seen_card[OF d, of "tp_id r" True] seen_card[OF d, of "tp_id r" False]
    by (simp add: pattern_counted_def)
qed

section \<open>Loading\<close>

lemma patterns_from_rowsD:
  "patterns_from_rows env rs = Inr ps \<Longrightarrow> list_all2 (\<lambda>r p. pattern_from_row env r = Inr p) rs ps"
proof (induction rs arbitrary: ps)
  case (Cons r rs)
  then obtain p qs where "pattern_from_row env r = Inr p" "patterns_from_rows env rs = Inr qs" "ps = p # qs"
    by (cases "patterns_from_rows env rs") (auto split: sum.splits)
  then show ?case using Cons.IH by simp
qed simp

lemma rows_verifiedD:
  "rows_verified env rps = Inr ps \<Longrightarrow> ps = map snd rps \<and>
     (\<forall>(r, p) \<in> set rps. verify_trace_pattern env (pt_intent p) (tp_path_json r) (pt_successes p) (pt_failures p) (pt_trace p) (pt_sig p))"
proof (induction rps arbitrary: ps)
  case (Cons x rps)
  then show ?case by (cases x; cases "rows_verified env rps") (auto split: if_splits)
qed simp

lemma pattern_from_rowD:
  "pattern_from_row env r = Inr p \<Longrightarrow> valid_pattern p \<and> pt_id p = tp_id r \<and> pt_intent p = tp_intent r \<and>
     read_path env (tp_path_json r) = Some (pt_path p) \<and> pt_successes p = tp_good r \<and> pt_failures p = tp_bad r \<and>
     pt_rate p = success_rate (tp_good r) (tp_bad r) \<and> pt_trace p = tp_trace r \<and> pt_sig p = tp_sig r"
  by (auto simp: pattern_from_row_def Let_def split: option.splits if_splits)

lemma list_trace_patternsD:
  assumes "list_trace_patterns env goal db = Inr ps" "p \<in> set ps"
  obtains r where "r \<in> set (gd_patterns db)" "pattern_from_row env r = Inr p" "set_field goal \<longrightarrow> Some (tp_intent r) = goal"
    "verify_trace_pattern env (tp_intent r) (tp_path_json r) (tp_good r) (tp_bad r) (tp_trace r) (tp_sig r)"
proof -
  let ?rows = "sort_key tp_id (if set_field goal then filter (\<lambda>r. Some (tp_intent r) = goal) (gd_patterns db) else gd_patterns db)"
  obtain qs where q: "patterns_from_rows env ?rows = Inr qs" "rows_verified env (zip ?rows qs) = Inr ps"
    using assms(1) by (auto simp: list_trace_patterns_def Let_def split: sum.splits)
  note l = patterns_from_rowsD[OF q(1)] and v = rows_verifiedD[OF q(2)]
  have len: "length ?rows = length qs" using l by (rule list_all2_lengthD)
  have "ps = map snd (zip ?rows qs)" using v by blast
  also have "\<dots> = qs" using len by (rule map_snd_zip)
  finally obtain i where i: "i < length qs" "p = qs ! i" using assms(2) by (auto simp: in_set_conv_nth)
  have row: "pattern_from_row env (?rows ! i) = Inr p" using list_all2_nthD2[OF l i(1)] i(2) by simp
  have "(?rows ! i, p) \<in> set (zip ?rows qs)" using i len by (auto simp: set_zip)
  then have "verify_trace_pattern env (pt_intent p) (tp_path_json (?rows ! i)) (pt_successes p) (pt_failures p) (pt_trace p) (pt_sig p)"
    using v by blast
  moreover have "?rows ! i \<in> set ?rows" using i len by (metis nth_mem)
  then have "?rows ! i \<in> set (gd_patterns db)" "set_field goal \<longrightarrow> Some (tp_intent (?rows ! i)) = goal" by (auto split: if_splits)
  ultimately show thesis using that row pattern_from_rowD[OF row] by metis
qed

lemma list_trace_patterns_all:
  assumes "list_trace_patterns env None db = Inr ps" "r \<in> set (gd_patterns db)"
  shows "\<exists>p \<in> set ps. pattern_from_row env r = Inr p \<and>
    verify_trace_pattern env (tp_intent r) (tp_path_json r) (tp_good r) (tp_bad r) (tp_trace r) (tp_sig r)"
proof -
  let ?rows = "sort_key tp_id (gd_patterns db)"
  obtain qs where q: "patterns_from_rows env ?rows = Inr qs" "rows_verified env (zip ?rows qs) = Inr ps"
    using assms(1) by (auto simp: list_trace_patterns_def Let_def set_field_def split: sum.splits)
  note l = patterns_from_rowsD[OF q(1)] and v = rows_verifiedD[OF q(2)]
  have len: "length ?rows = length qs" using l by (rule list_all2_lengthD)
  have "ps = map snd (zip ?rows qs)" using v by blast
  also have "\<dots> = qs" using len by (rule map_snd_zip)
  finally have eq: "ps = qs" .
  have "r \<in> set ?rows" using assms(2) by simp
  then obtain i where i: "i < length ?rows" "r = ?rows ! i" unfolding in_set_conv_nth by blast
  have row: "pattern_from_row env r = Inr (qs ! i)" using list_all2_nthD[OF l i(1)] i(2) by simp
  have "(?rows ! i, qs ! i) \<in> set (zip ?rows qs)" unfolding set_zip using i(1) len by auto
  then have "(r, qs ! i) \<in> set (zip ?rows qs)" using i(2) by simp
  then have "verify_trace_pattern env (pt_intent (qs ! i)) (tp_path_json r) (pt_successes (qs ! i)) (pt_failures (qs ! i))
      (pt_trace (qs ! i)) (pt_sig (qs ! i))" using v by blast
  then show ?thesis using row pattern_from_rowD[OF row] eq i(1) len by (metis nth_mem)
qed

lemma add_node_keeps:
  assumes "j \<noteq> k"
  shows "(k, n) \<in> set (kg_nodes (add_node j m g)) \<longleftrightarrow> (k, n) \<in> set (kg_nodes g)"
proof
  assume "(k, n) \<in> set (kg_nodes g)"
  then have "(k, n) \<in> (\<lambda>(i, l). if i = j then (i, m) else (i, l)) ` set (kg_nodes g)"
    using assms by (intro image_eqI[of _ _ "(k, n)"]) simp_all
  then show "(k, n) \<in> set (kg_nodes (add_node j m g))" using \<open>(k, n) \<in> set (kg_nodes g)\<close> by (simp add: add_node_def)
next
  assume "(k, n) \<in> set (kg_nodes (add_node j m g))"
  then show "(k, n) \<in> set (kg_nodes g)" using assms by (auto simp: add_node_def split: if_splits)
qed

lemma add_link_nodes [simp]: "kg_nodes (add_link l g) = kg_nodes g"
  by (simp add: add_link_def)

lemma fold_links_nodes: "kg_nodes (fold (\<lambda>t h. if has_node h (snd t) then add_link (f t) h else h) ts g) = kg_nodes g"
  by (induction ts arbitrary: g) simp_all

lemma add_pattern_nodes: "kg_nodes (add_pattern env p g) = kg_nodes (add_node (pt_id p) (pattern_node env p) g)"
  by (simp add: add_pattern_def Let_def fold_links_nodes)

lemma add_patterns_keep:
  "add_patterns env ps g = Inr g' \<Longrightarrow> \<forall>p \<in> set ps. pt_id p \<noteq> k \<Longrightarrow> (k, n) \<in> set (kg_nodes g') \<longleftrightarrow> (k, n) \<in> set (kg_nodes g)"
proof (induction ps arbitrary: g)
  case (Cons p ps)
  then have "add_patterns env ps (add_pattern env p g) = Inr g'" by (auto split: if_splits)
  from Cons.IH[OF this] Cons.prems show ?case by (simp add: add_pattern_nodes add_node_keeps)
qed simp

lemma base_graph_nodes:
  assumes "distinct (map cn_id (gd_nodes db))"
  shows "set (kg_nodes (base_graph db)) = (\<lambda>n. (cn_id n, n)) ` set (gd_nodes db)"
proof -
  have links: "kg_nodes (fold (\<lambda>e. add_link (link_of e)) es g) = kg_nodes g" for es g by (induction es arbitrary: g) simp_all
  have "kg_nodes (fold (\<lambda>n. add_node (cn_id n) n) ns g) = kg_nodes g @ map (\<lambda>n. (cn_id n, n)) ns"
    if "distinct (map cn_id ns)" "\<forall>n \<in> set ns. \<not> has_node g (cn_id n)" for ns g
    using that
  proof (induction ns arbitrary: g)
    case (Cons n ns)
    have "kg_nodes (add_node (cn_id n) n g) = kg_nodes g @ [(cn_id n, n)]" using Cons.prems by (simp add: add_node_def)
    moreover have "cn_id n \<notin> cn_id ` set ns" using Cons.prems(1) by simp
    then have "\<forall>m \<in> set ns. cn_id m \<noteq> cn_id n" by (metis imageI)
    ultimately show ?case using Cons.IH[of "add_node (cn_id n) n g"] Cons.prems by (simp add: has_node_def)
  qed simp
  from this[of "list_nodes db" "\<lparr>kg_nodes = [], kg_links = []\<rparr>"] show ?thesis
    using assms mset_eq_imp_distinct_iff[of "map cn_id (list_nodes db)" "map cn_id (gd_nodes db)"]
    by (simp add: base_graph_def links list_nodes_def has_node_def)
qed

text \<open>A stored node that is not named like a trace pattern is in the loaded graph as it is stored.\<close>

lemma load_graph_nodes:
  assumes "load_graph env db = Inr g" "graph_ok env db" "\<not> startswith k ''trace.''"
  shows "(k, n) \<in> set (kg_nodes g) \<longleftrightarrow> n \<in> set (gd_nodes db) \<and> cn_id n = k"
proof -
  obtain ps where ps: "list_trace_patterns env None db = Inr ps" "add_patterns env ps (base_graph db) = Inr g"
    using assms(1) by (auto simp: load_graph_def split: if_splits sum.splits)
  have "pt_id p \<noteq> k" if p: "p \<in> set ps" for p
  proof -
    obtain r where "pattern_from_row env r = Inr p" using list_trace_patternsD[OF ps(1) p] by blast
    from pattern_from_rowD[OF this] have "startswith (pt_id p) ''trace.''" unfolding valid_pattern_def by blast
    then show ?thesis using assms(3) by metis
  qed
  then show ?thesis
    using add_patterns_keep[OF ps(2), of k n] base_graph_nodes[of db] assms(2) by (auto simp: graph_ok_def nodes_ok_def)
qed

text \<open>C29: A forged path stops retrieval: while any learned path in the tables carries a signature that is not the
  one over its own counts, the graph is not loaded, and every search, every health check and every further
  learning ends in an error.\<close>

theorem forged_pattern_stops_retrieval:
  assumes "r \<in> set (gd_patterns db)"
    and "tp_sig r \<noteq> sign_trace_pattern (rx_audit env) (tp_intent r) (tp_path_json r) (tp_good r) (tp_bad r) (tp_trace r)"
  shows "\<not> is_ok (load_graph (rx_audit env) db) \<and> \<not> is_ok (search env q db) \<and>
    \<not> is_ok (graph_health_of (rx_audit env) scanned db) \<and> \<not> is_ok (fst (learn_trace (rx_audit env) adb trace now db))"
proof -
  have "list_trace_patterns (rx_audit env) None db \<noteq> Inr ps" for ps
    using list_trace_patterns_all[OF _ assms(1)] assms(2) by (auto simp: verify_trace_pattern_def)
  then obtain e where e: "list_trace_patterns (rx_audit env) None db = Inl e"
    by (cases "list_trace_patterns (rx_audit env) None db") auto
  then have f: "load_graph (rx_audit env) db = Inl (if gd_nodes db = [] then Not_Built else e)" by (simp add: load_graph_def)
  have "\<not> is_ok (fst (learn_trace (rx_audit env) adb trace now db))"
    by (cases "get_audit_trace (rx_audit env) (Some Replayer) trace now adb") (simp_all add: learn_trace_def Let_def f)
  then show ?thesis by (simp add: f search_def graph_health_of_def)
qed

section \<open>Witnesses\<close>


theorem altered_node_is_named_witness:
  "\<exists>unapproved. verify_governance graph_env (built_graph\<lparr>gd_nodes := (gd_nodes built_graph)[1 := small_node ''skill.guard'' Skill_Node True ''2'']\<rparr>) =
     Inr ([''skill.guard''], unapproved) \<and> unapproved = []"
proof -
  let ?n = "small_node ''skill.guard'' Skill_Node True ''2''"
  let ?db = "built_graph\<lparr>gd_nodes := (gd_nodes built_graph)[1 := ?n]\<rparr>"
  have run: "verify_governance graph_env ?db = Inr ([''skill.guard''], [])" unfolding built_eq by code_simp
  have len: "1 < length (gd_nodes built_graph)" and id: "cn_id ?n = cn_id (gd_nodes built_graph ! 1)"
    by (simp_all add: built_eq graph_snapshot_def small_node_def plain_node_def)
  have mac: "\<forall>x. ae_mac graph_env x \<noteq> []" by (simp add: graph_env_def sha_of_def)
  show ?thesis using altered_node_is_named[OF built_reachable mac len id run] run by blast
qed

theorem traces_counted_once_witness:
  "\<exists>r \<in> set (gd_patterns learned_graph). tp_good r = 2 \<and>
     card {t. \<exists>x \<in> set (gd_observations learned_graph). ob_trace x = t \<and> ob_pattern x = tp_id r \<and> ob_succeeded x} = 2"
proof -
  obtain r where r: "r \<in> set (gd_patterns learned_graph)" "tp_good r = 2" by (simp add: learned_eq)
  show ?thesis using traces_counted_once[OF learned_reachable r(1)] r by (metis (no_types, lifting))
qed

definition forged_graph :: graph_db where
  "forged_graph = learned_graph\<lparr>gd_patterns := map (\<lambda>r. r\<lparr>tp_sig := sha_of CHR ''f''\<rparr>) (gd_patterns learned_graph)\<rparr>"

theorem forged_pattern_stops_retrieval_witness:
  "\<not> is_ok (search graph_retrieval graph_query forged_graph)"
proof -
  obtain r where r: "r \<in> set (gd_patterns forged_graph)" "tp_sig r = sha_of CHR ''f''"
    by (simp add: forged_graph_def learned_eq)
  have "tp_sig r \<noteq> sign_trace_pattern (rx_audit graph_retrieval) (tp_intent r) (tp_path_json r) (tp_good r) (tp_bad r) (tp_trace r)"
    by (simp add: r(2) sign_trace_pattern_def graph_retrieval_def graph_env_def sha_of_def)
  from forged_pattern_stops_retrieval[OF r(1) this] show ?thesis by blast
qed

end
