(* ===== verification/GraphUse.thy ===== *)
theory GraphUse
  imports GraphProps
begin

text \<open>
  The properties of retrieval from the capability graph and of learning from audited traces.
\<close>

section \<open>Candidates\<close>

lemma option_all_Some: "option_all xs = Some ys \<Longrightarrow> xs = map Some ys"
proof (induction xs arbitrary: ys rule: option_all.induct)
  case (3 x xs)
  then show ?case by (cases "option_all xs") auto
qed simp_all

lemma keep_better_nodes: "cd_node ` set (keep_better c best) = insert (cd_node c) (cd_node ` set best)"
proof (cases "row_get cd_node (cd_node c) best")
  case None
  then show ?thesis by (auto simp: keep_better_def)
next
  case (Some p)
  have "map cd_node (row_update cd_node (cd_node c) (\<lambda>_. c) best) = map cd_node best"
    by (auto simp: row_update_def)
  then have "cd_node ` set (row_update cd_node (cd_node c) (\<lambda>_. c) best) = cd_node ` set best" by (metis set_map)
  moreover have "cd_node c \<in> cd_node ` set best" using row_get_SomeD[OF Some] by (metis imageI)
  ultimately show ?thesis using Some by (auto simp: keep_better_def)
qed

lemma keep_better_from: "set (keep_better c best) \<subseteq> insert c (set best)"
  by (auto simp: keep_better_def row_update_def split: option.splits if_splits)

lemma keep_better_distinct: "distinct (map cd_node best) \<Longrightarrow> distinct (map cd_node (keep_better c best))"
proof (cases "row_get cd_node (cd_node c) best")
  case None
  then have "cd_node c \<notin> cd_node ` set best" by (simp add: row_get_None_iff)
  then show "distinct (map cd_node best) \<Longrightarrow> ?thesis" using None by (simp add: keep_better_def)
next
  case (Some p)
  have "map cd_node (row_update cd_node (cd_node c) (\<lambda>_. c) best) = map cd_node best" by (auto simp: row_update_def)
  then show "distinct (map cd_node best) \<Longrightarrow> ?thesis" using Some by (simp add: keep_better_def)
qed

lemma fold_keep_better:
  "cd_node ` set (fold keep_better cs best) = cd_node ` set cs \<union> cd_node ` set best"
  "set (fold keep_better cs best) \<subseteq> set cs \<union> set best"
  "distinct (map cd_node best) \<Longrightarrow> distinct (map cd_node (fold keep_better cs best))"
proof (induction cs arbitrary: best)
  case (Cons c cs)
  { case 1 show ?case using Cons.IH(1)[of "keep_better c best"] by (auto simp: keep_better_nodes)
  next
    case 2 show ?case using Cons.IH(2)[of "keep_better c best"] keep_better_from[of c best] by auto
  next
    case 3 then show ?case using Cons.IH(3)[of "keep_better c best"] by (simp add: keep_better_distinct)
  }
qed simp_all

lemma ranked_set: "set (ranked_candidates cs) = set (fold keep_better cs [])"
  by (simp add: ranked_candidates_def)

lemma ranked_distinct: "distinct (map cd_node (ranked_candidates cs))"
proof -
  have "mset (map cd_node (ranked_candidates cs)) = mset (map cd_node (fold keep_better cs []))" by (simp add: ranked_candidates_def)
  then show ?thesis using fold_keep_better(3)[of "[]" cs] mset_eq_imp_distinct_iff by fastforce
qed

lemma deduplicate_ranked: "set (deduplicate cs limit) \<subseteq> set (ranked_candidates cs)"
proof -
  have "set (take k (filter (\<lambda>c. \<not> cd_mandatory c) xs)) \<subseteq> set xs" for k xs
    using set_take_subset[of k "filter (\<lambda>c. \<not> cd_mandatory c) xs"] filter_is_subset[of "\<lambda>c. \<not> cd_mandatory c" xs] by (rule order_trans)
  then show ?thesis by (simp add: deduplicate_def Let_def)
qed

lemma deduplicate_from: "set (deduplicate cs limit) \<subseteq> set cs"
  using deduplicate_ranked[of cs limit] fold_keep_better(2)[of cs "[]"] by (simp add: ranked_set)

lemma deduplicate_distinct: "distinct (map cd_node (deduplicate cs limit))"
proof -
  let ?r = "ranked_candidates cs"
  have i: "inj_on cd_node (set ?r)" and d: "distinct ?r" using ranked_distinct[of cs] by (simp_all add: distinct_map)
  have "distinct (deduplicate cs limit)"
    using d by (auto simp: deduplicate_def Let_def distinct_take dest: in_set_takeD)
  moreover have "set (deduplicate cs limit) \<subseteq> set ?r" by (rule deduplicate_ranked)
  ultimately show ?thesis using i by (simp add: distinct_map inj_on_subset)
qed

lemma deduplicate_mandatory:
  assumes "c \<in> set cs" "\<forall>d \<in> set cs. cd_node d = cd_node c \<longrightarrow> cd_mandatory d"
  shows "cd_node c \<in> cd_node ` set (deduplicate cs limit)"
proof -
  have "cd_node c \<in> cd_node ` set (ranked_candidates cs)" using assms(1) by (simp add: ranked_set fold_keep_better(1))
  then obtain d where d: "d \<in> set (ranked_candidates cs)" "cd_node d = cd_node c" by force
  have "d \<in> set cs" using d(1) fold_keep_better(2)[of cs "[]"] by (auto simp: ranked_set)
  then have "d \<in> set (deduplicate cs limit)" using assms(2) d by (simp add: deduplicate_def Let_def)
  then show ?thesis using d(2) by (metis imageI)
qed

lemma deduplicate_bound:
  "length (filter (\<lambda>c. \<not> cd_mandatory c) (deduplicate cs limit)) \<le> nat limit"
proof -
  have cut: "length (filter P (take k xs)) \<le> k" for P :: "candidate \<Rightarrow> bool" and k xs
    by (rule order_trans[OF length_filter_le]) simp
  have none: "filter (\<lambda>c. \<not> cd_mandatory c) (filter cd_mandatory xs) = []" for xs by (simp add: filter_empty_conv)
  have "length (filter (\<lambda>c. \<not> cd_mandatory c) (deduplicate cs limit)) \<le>
      nat (limit - int (length (filter cd_mandatory (ranked_candidates cs))))"
    unfolding deduplicate_def Let_def filter_append length_append none using cut by simp
  then show ?thesis by linarith
qed

lemma candidates_ofD:
  assumes "candidates_of env g goal limit xs = Inr cs"
  obtains all where "map (\<lambda>(s, k). make_candidate env g goal s k) xs = map Some all" "cs = deduplicate all limit"
  using assms option_all_Some by (auto simp: candidates_of_def split: option.splits)

lemma make_candidateD:
  "make_candidate env g goal s k = Some c \<Longrightarrow> cd_node c = k \<and> (\<exists>n. capability g k = Some n \<and> cd_mandatory c = cn_mandatory n)"
  by (auto simp: make_candidate_def)

lemma candidates_mandatory:
  assumes "candidates_of env g goal limit xs = Inr cs" "(s, k) \<in> set xs" "capability g k = Some n" "cn_mandatory n"
  shows "\<exists>c \<in> set cs. cd_node c = k"
proof -
  obtain all where all: "map (\<lambda>(s, k). make_candidate env g goal s k) xs = map Some all" "cs = deduplicate all limit"
    using assms(1) by (rule candidates_ofD)
  have src: "\<exists>x \<in> set xs. make_candidate env g goal (fst x) (snd x) = Some d" if "d \<in> set all" for d
  proof -
    have "Some d \<in> set (map Some all)" using that by simp
    then have "Some d \<in> (\<lambda>x. make_candidate env g goal (fst x) (snd x)) ` set xs"
      unfolding all(1)[symmetric] by (simp add: case_prod_beta)
    then show ?thesis by (elim imageE) (intro bexI, auto)
  qed
  have "make_candidate env g goal s k \<in> set (map (\<lambda>(s, k). make_candidate env g goal s k) xs)" using assms(2) by force
  then obtain c where c: "c \<in> set all" "make_candidate env g goal s k = Some c" unfolding all(1) by auto
  have "cd_node c = k" using make_candidateD[OF c(2)] by blast
  moreover have "cd_mandatory d" if "d \<in> set all" "cd_node d = k" for d
    using src[OF that(1)] make_candidateD that(2) assms(3,4) by fastforce
  ultimately have "k \<in> cd_node ` set (deduplicate all limit)" using deduplicate_mandatory[OF c(1), of limit] by blast
  then show ?thesis using all(2) by auto
qed

section \<open>Search\<close>

lemma searchD:
  assumes "search env q db = Inr res"
  obtains g where "load_graph (rx_audit env) db = Inr g"
    "candidates_of env g (gf_intent res) (gq_top_k q) (offered_skills g (gf_intent res)) = Inr (gf_skills res)"
    "candidates_of env g (gf_intent res) (gq_top_k q) (map (Pair (88 / 100)) (offered_tools g (gf_intent res))) = Inr (gf_tools res)"
    "recommended env db g (gf_intent res) = Inr (gf_recommended res, gf_learned res)"
    "select_intent env q g = Inr (gf_intent res, gf_intent_score res)"
  using assms unfolding search_def Let_def by (auto split: sum.splits prod.splits)

lemma add_node_distinct: "distinct (map fst (kg_nodes g)) \<Longrightarrow> distinct (map fst (kg_nodes (add_node k n g)))"
proof -
  have "map fst (map (\<lambda>(j, m). if j = k then (j, n) else (j, m)) xs) = map fst xs" for xs :: "(string \<times> capability_node) list"
    by auto
  then show "distinct (map fst (kg_nodes g)) \<Longrightarrow> ?thesis" by (simp add: add_node_def has_node_def del: map_map)
qed

lemma load_graph_distinct:
  assumes "load_graph env db = Inr g"
  shows "distinct (map fst (kg_nodes g))"
proof -
  have links: "kg_nodes (fold (\<lambda>e. add_link (link_of e)) es g) = kg_nodes g" for es g by (induction es arbitrary: g) simp_all
  have nodes: "distinct (map fst (kg_nodes g)) \<Longrightarrow> distinct (map fst (kg_nodes (fold (\<lambda>n. add_node (cn_id n) n) ns g)))" for ns g
    by (induction ns arbitrary: g) (simp_all add: add_node_distinct)
  have base: "distinct (map fst (kg_nodes (base_graph db)))" by (simp add: base_graph_def links nodes)
  have pats: "distinct (map fst (kg_nodes h)) \<Longrightarrow> add_patterns env ps h = Inr g \<Longrightarrow> distinct (map fst (kg_nodes g))" for ps h
  proof (induction ps arbitrary: h)
    case (Cons p ps)
    have "distinct (map fst (kg_nodes (add_pattern env p h)))"
      using add_node_distinct[OF Cons.prems(1)] by (simp add: add_pattern_nodes)
    then show ?case using Cons.IH[of "add_pattern env p h"] Cons.prems(2) by (simp split: if_splits)
  qed simp
  from assms obtain ps where "add_patterns env ps (base_graph db) = Inr g"
    by (auto simp: load_graph_def split: if_splits sum.splits)
  then show ?thesis using base pats by blast
qed

text \<open>C24: Mandatory security skills are always offered: whatever the query and however small its top-k, a search that
  succeeds offers every mandatory skill of the graph, offers no skill twice, and at most top-k skills beside the
  mandatory ones.\<close>

theorem mandatory_skills_offered:
  assumes "graph_reachable (rx_audit env) db" "search env q db = Inr res"
  shows "(\<forall>n \<in> set (gd_nodes db). cn_type n = Skill_Node \<and> cn_mandatory n \<and> \<not> startswith (cn_id n) ''trace.'' \<longrightarrow>
      cn_id n \<in> set (map cd_node (gf_skills res))) \<and>
    distinct (map cd_node (gf_skills res)) \<and>
    length (filter (\<lambda>c. \<not> cd_mandatory c) (gf_skills res)) \<le> nat (gq_top_k q)"
proof -
  obtain g where g: "load_graph (rx_audit env) db = Inr g"
    and c: "candidates_of env g (gf_intent res) (gq_top_k q) (offered_skills g (gf_intent res)) = Inr (gf_skills res)"
    using assms(2) by (rule searchD)
  have "cn_id n \<in> set (map cd_node (gf_skills res))"
    if n: "n \<in> set (gd_nodes db)" "cn_type n = Skill_Node" "cn_mandatory n" "\<not> startswith (cn_id n) ''trace.''" for n
  proof -
    have mem: "(cn_id n, n) \<in> set (kg_nodes g)" using load_graph_nodes[OF g reachable_graph_ok[OF assms(1)] n(4)] n(1) by blast
    then have "capability g (cn_id n) = Some n" using load_graph_distinct[OF g] by (simp add: capability_def)
    moreover have "(1, cn_id n) \<in> set (offered_skills g (gf_intent res))" using mem n by (force simp: offered_skills_def)
    ultimately have "\<exists>c \<in> set (gf_skills res). cd_node c = cn_id n" using candidates_mandatory[OF c] n(3) by blast
    then show ?thesis by (metis imageI set_map)
  qed
  moreover obtain all where "gf_skills res = deduplicate all (gq_top_k q)" using c by (rule candidates_ofD)
  ultimately show ?thesis by (simp add: deduplicate_distinct deduplicate_bound)
qed

section \<open>Learned paths\<close>



section \<open>Learning\<close>

text \<open>C27: The graph learns only from intact audit trails: when a trace is learned, its audit trail verified, it was
  not counted before and is counted now, exactly the capabilities on the recorded path were executed in it and
  are in the graph, it counts as a success only if its last final output says completed, and nodes, edges and
  approvals are as they were.\<close>

theorem learning_needs_intact_trail:
  assumes "learn_trace env adb trace now db = (Inr (accepted, p), db')"
  shows "\<exists>view g path.
    get_audit_trace env (Some Replayer) trace now adb = Inr view \<and> vd_valid (tv_integrity view) \<and>
    load_graph env db = Inr g \<and> path \<noteq> [] \<and>
    set path = {k. has_node g k \<and> (\<exists>e \<in> set (tv_events view). k \<in> set (event_step e))} \<and>
    trace \<notin> set (map ob_trace (gd_observations db)) \<and>
    gd_observations db' = gd_observations db @ [\<lparr>ob_trace = trace, ob_pattern = trace_pattern_id env (pt_intent p) (path_text path),
      ob_succeeded = (event_field ''status'' ''unknown'' (ev_event (last (filter (\<lambda>e. ev_stage e = ''final_output'') (tv_events view))))
        = ''completed''), ob_at = now\<rparr>] \<and>
    gd_nodes db' = gd_nodes db \<and> gd_edges db' = gd_edges db \<and> gd_governance db' = gd_governance db \<and>
    (accepted \<longleftrightarrow> pattern_accepted p)"
proof -
  obtain view where v: "get_audit_trace env (Some Replayer) trace now adb = Inr view"
    using assms by (cases "get_audit_trace env (Some Replayer) trace now adb") (simp_all add: learn_trace_def)
  let ?goal = "event_field ''intent'' [] (ev_event (last (filter (\<lambda>e. ev_stage e = ''router_plan'') (tv_events view))))"
  let ?ok = "event_field ''status'' ''unknown'' (ev_event (last (filter (\<lambda>e. ev_stage e = ''final_output'') (tv_events view)))) = ''completed''"
  obtain g path where g: "vd_valid (tv_integrity view)" "load_graph env db = Inr g" "path \<noteq> []"
      "path = filter (has_node g) (first_occurrences (concat (map event_step (tv_events view))))"
      "record_trace_pattern env ?goal path ?ok trace now db = (Inr p, db')" "accepted = pattern_accepted p"
    using assms unfolding learn_trace_def v Let_def
    by (auto simp: op_bind_Inr op_return_def split: if_splits sum.splits)
  from g(5) show ?thesis
  proof (cases rule: record_cases)
    case (counted rows)
    obtain row where row: "find (same_path ?goal (path_text path)) rows = Some row" "pattern_from_row env row = Inr p"
      using counted(6) by (cases "find (same_path ?goal (path_text path)) rows") simp_all
    have "pt_intent p = ?goal" using pattern_from_rowD[OF row(2)] find_same_path[OF row(1)] by simp
    moreover have "set path = {k. has_node g k \<and> (\<exists>e \<in> set (tv_events view). k \<in> set (event_step e))}"
      by (auto simp: g(4) first_occurrences_def)
    ultimately show ?thesis using v g counted(1,5) by (intro exI[of _ view] exI[of _ g] exI[of _ path]) simp
  qed simp
qed

section \<open>Witnesses\<close>

lemma retrieval_audit: "rx_audit graph_retrieval = graph_env"
  by (simp add: graph_retrieval_def)

theorem mandatory_skills_offered_witness:
  "\<exists>res. search graph_retrieval graph_query learned_graph = Inr res \<and> ''skill.guard'' \<in> set (map cd_node (gf_skills res))"
proof -
  let ?n = "small_node ''skill.guard'' Skill_Node True ''1''"
  obtain res where res: "search graph_retrieval graph_query learned_graph = Inr res" using search_learned by blast
  have n: "?n \<in> set (gd_nodes learned_graph)" by (simp add: learned_eq built_eq graph_snapshot_def)
  have f: "cn_type ?n = Skill_Node \<and> cn_mandatory ?n \<and> \<not> startswith (cn_id ?n) ''trace.''"
    by (simp add: small_node_def plain_node_def startswith_def)
  have "cn_id ?n \<in> set (map cd_node (gf_skills res))"
    using mandatory_skills_offered[OF learned_reachable[folded retrieval_audit] res] n f by blast
  moreover have "cn_id ?n = ''skill.guard''" by (simp add: small_node_def plain_node_def)
  ultimately show ?thesis using res by metis
qed


theorem learning_needs_intact_trail_witness:
  "\<exists>accepted p db' view. learn_trace graph_env trail ''T3'' ''t3'' built_graph = (Inr (accepted, p), db') \<and>
     get_audit_trace graph_env (Some Replayer) ''T3'' ''t3'' trail = Inr view \<and> vd_valid (tv_integrity view) \<and>
     gd_nodes db' = gd_nodes built_graph"
proof -
  obtain accepted p db' where run: "learn_trace graph_env trail ''T3'' ''t3'' built_graph = (Inr (accepted, p), db')"
    using learn_trail by blast
  from learning_needs_intact_trail[OF run] obtain view where
    "get_audit_trace graph_env (Some Replayer) ''T3'' ''t3'' trail = Inr view" "vd_valid (tv_integrity view)"
    "gd_nodes db' = gd_nodes built_graph" by (elim exE conjE) (rule that)
  then show ?thesis using run by blast
qed

end
