(* ===== verification/GraphBuild.thy ===== *)
theory GraphBuild
  imports GraphUse
begin

text \<open>
  What a scan of the repository yields: every tool of a snapshot is guarded and governed, and the graph built
  from it is found healthy in these respects; at the end, what content hashes and signatures do not cover.
\<close>

section \<open>Scanning\<close>

text \<open>What every step keeps: distinct identifiers, valid nodes, edges made by the scanner, tools that are on the
  list of tools.\<close>

definition edge_sources :: "string list" where
  "edge_sources = [''registry'', ''manifest'', ''policy'', ''test_registry'']"

definition made_edge :: "audit_env \<Rightarrow> capability_edge \<Rightarrow> bool" where
  "made_edge env e \<longleftrightarrow> (\<exists>s rel t ty. ty \<in> set edge_sources \<and> e = make_edge env s rel t ty)"

definition scan_ok :: "audit_env \<Rightarrow> scan_state \<Rightarrow> bool" where
  "scan_ok env st \<longleftrightarrow>
     distinct (map cn_id (sc_nodes st)) \<and> distinct (map ce_id (sc_edges st)) \<and> list_all valid_node (sc_nodes st) \<and>
     list_all (made_edge env) (sc_edges st) \<and>
     (\<forall>n \<in> set (sc_nodes st). cn_type n = Mcp_Tool \<longrightarrow> cn_id n \<in> set (sc_tools st)) \<and>
     list_all (\<lambda>k. startswith k ''mcp.'') (sc_tools st)"

lemma put_node_ok: "put_node n st = Inr st' \<Longrightarrow> scan_ok env st \<Longrightarrow> cn_type n \<noteq> Mcp_Tool \<Longrightarrow> scan_ok env st'"
  using keyed_put_from[of cn_id n "sc_nodes st"]
  by (auto simp: put_node_def scan_ok_def keyed_put_distinct list_all_iff split: if_splits)

lemma put_edge_ok: "put_edge e st = Inr st' \<Longrightarrow> scan_ok env st \<Longrightarrow> made_edge env e \<Longrightarrow> scan_ok env st'"
  using keyed_put_from[of ce_id e "sc_edges st"]
  by (auto simp: put_edge_def scan_ok_def keyed_put_distinct list_all_iff split: if_splits)

lemma made_edgeI [intro]: "ty \<in> set edge_sources \<Longrightarrow> made_edge env (make_edge env s rel t ty)"
  by (auto simp: made_edge_def)

lemma scan_skill_ok: "scan_skill env reg s st = Inr st' \<Longrightarrow> scan_ok env st \<Longrightarrow> scan_ok env st'"
  by (auto simp: scan_skill_def skill_node_def Let_def split: sum.splits option.splits if_splits pyval.splits elim!: put_node_ok)

lemma scan_tool_ok: "scan_tool env s m v st = Inr st' \<Longrightarrow> scan_ok env st \<Longrightarrow> scan_ok env st'"
proof -
  assume run: "scan_tool env s m v st = Inr st'" and ok: "scan_ok env st"
  obtain n u where n: "put_node n st = Inr u" "st' = u\<lparr>sc_tools := sc_tools st @ [cn_id n]\<rparr>" and t: "tool_node env s m (py_str v) = Inr n"
    using run by (auto simp: scan_tool_def split: sum.splits if_splits)
  have "startswith (cn_id n) ''mcp.''"
    using t by (auto simp: tool_node_def node_identifier_def Let_def startswith_def split: option.splits if_splits)
  moreover have "u = st\<lparr>sc_nodes := keyed_put cn_id n (sc_nodes st)\<rparr>" "valid_node n" using n(1) by (auto simp: put_node_def split: if_splits)
  ultimately show "scan_ok env st'" using ok n(2) keyed_put_from[of cn_id n "sc_nodes st"]
    by (auto simp: scan_ok_def keyed_put_distinct list_all_iff)
qed

lemma scan_server_ok: "scan_server env s st = Inr st' \<Longrightarrow> scan_ok env st \<Longrightarrow> scan_ok env st'"
  unfolding scan_server_def
  by (auto split: option.splits pyval.splits list.splits sum.splits elim!: scan_tool_ok each_ok_keeps[where P = "scan_ok env"]
      simp del: each_ok.simps)

lemma scan_policy_ok: "scan_policy env p st = Inr st' \<Longrightarrow> scan_ok env st \<Longrightarrow> scan_ok env st'"
  by (auto simp: scan_policy_def policy_node_def plain_node_def Let_def split: sum.splits option.splits elim!: put_node_ok)

lemma scan_entry_ok:
  "scan_entry kind mk x st = Inr st' \<Longrightarrow> scan_ok env st \<Longrightarrow> (\<And>k c. cn_type (mk k c) \<noteq> Mcp_Tool) \<Longrightarrow> scan_ok env st'"
  by (auto simp: scan_entry_def split: option.splits prod.splits elim!: put_node_ok)

lemma scan_risk_ok: "scan_risk env v risk st = Inr st' \<Longrightarrow> scan_ok env st \<Longrightarrow> scan_ok env st'"
proof -
  assume run: "scan_risk env v risk st = Inr st'" and ok: "scan_ok env st"
  obtain k u where "put_node (risk_node env v k risk) st = Inr u" "put_edge (make_edge env k Requires_Approval reviewer_role ''registry'') u = Inr st'"
    using run by (auto simp: scan_risk_def split: option.splits sum.splits)
  then show "scan_ok env st'" using put_node_ok[of _ st u env] put_edge_ok[of _ u st' env] ok
    by (simp add: risk_node_def plain_node_def made_edgeI edge_sources_def)
qed

lemma node_makers_type [simp]:
  "cn_type (intent_node env v k i) = Task_Intent" "cn_type (agent_node env v k a) = Sub_Agent"
  "cn_type (model_node env v k m) = Model_Provider" "cn_type (source_node env v k s) = Data_Source"
  "cn_type (case_node env v k c) = Test_Case" "cn_type (provider_node env v f k p) = Model_Provider"
  "cn_type (role_node env v) = Permission_Role"
  by (simp_all add: intent_node_def agent_node_def model_node_def source_node_def case_node_def provider_node_def
      role_node_def plain_node_def)

lemma put_node_keys: "put_node n s = Inr t \<Longrightarrow> cn_id ` set (sc_nodes s) \<subseteq> cn_id ` set (sc_nodes t)"
  by (auto simp: put_node_def keyed_put_keys split: if_splits)

lemma scan_entry_keys: "scan_entry kind mk x s = Inr t \<Longrightarrow> cn_id ` set (sc_nodes s) \<subseteq> cn_id ` set (sc_nodes t)"
  by (auto simp: scan_entry_def split: option.splits prod.splits dest: put_node_keys)

lemma scan_risk_keys: "scan_risk env v risk s = Inr t \<Longrightarrow> cn_id ` set (sc_nodes s) \<subseteq> cn_id ` set (sc_nodes t)"
proof -
  assume "scan_risk env v risk s = Inr t"
  then obtain n u where "put_node n s = Inr u" "sc_nodes t = sc_nodes u"
    by (auto simp: scan_risk_def put_edge_def split: option.splits sum.splits if_splits)
  then show ?thesis using put_node_keys by metis
qed

lemma scan_nodes_ok:
  assumes "scan_nodes env repo reg cfg = Inr st"
  shows "scan_ok env st \<and> (\<exists>k. policy_id (rc_policy reg) = Some k \<and> k \<in> cn_id ` set (sc_nodes st))"
proof -
  let ?v = "rc_version reg"
  let ?s0 = "\<lparr>sc_nodes = [], sc_edges = [], sc_tools = []\<rparr>"
  obtain s1 s2 s3 s4 s5 s6 s7 s8 s9 s10 k where
    1: "each_ok (scan_skill env reg) (rp_skills repo) ?s0 = Inr s1" and
    2: "each_ok (scan_server env) (rp_servers repo) s1 = Inr s2" and
    3: "each_ok (scan_policy env) (rp_policies repo) s2 = Inr s3" "policy_id (rc_policy reg) = Some k" "k \<in> cn_id ` set (sc_nodes s3)" and
    4: "each_ok (scan_entry ''intent'' (intent_node env ?v)) (rc_intents reg) s3 = Inr s4" and
    5: "each_ok (scan_entry ''agent'' (agent_node env ?v)) (rc_agents reg) s4 = Inr s5" and
    6: "each_ok (scan_entry ''model'' (model_node env ?v)) (rc_models reg) s5 = Inr s6" and
    7: "each_ok (scan_entry ''source'' (source_node env ?v)) (rc_sources reg) s6 = Inr s7" and
    8: "each_ok (scan_entry ''case'' (case_node env ?v)) (rc_cases reg) s7 = Inr s8" and
    9: "each_ok (scan_entry ''model'' (provider_node env (mg_version cfg) (rp_gateway_file repo))) (mg_providers cfg) s8 = Inr s9" and
    10: "put_node (role_node env ?v) s9 = Inr s10" and
    11: "each_ok (scan_risk env ?v) (sorted_set (map snd (rc_risks reg))) s10 = Inr st"
    using assms unfolding scan_nodes_def Let_def by (auto split: sum.splits option.splits if_splits)
  have "scan_ok env ?s0" by (simp add: scan_ok_def)
  with 1 have "scan_ok env s1" by (rule each_ok_keeps) (rule scan_skill_ok)
  with 2 have "scan_ok env s2" by (rule each_ok_keeps) (rule scan_server_ok)
  with 3(1) have "scan_ok env s3" by (rule each_ok_keeps) (rule scan_policy_ok)
  with 4 have "scan_ok env s4" by (rule each_ok_keeps) (erule (1) scan_entry_ok, simp)
  with 5 have "scan_ok env s5" by (rule each_ok_keeps) (erule (1) scan_entry_ok, simp)
  with 6 have "scan_ok env s6" by (rule each_ok_keeps) (erule (1) scan_entry_ok, simp)
  with 7 have "scan_ok env s7" by (rule each_ok_keeps) (erule (1) scan_entry_ok, simp)
  with 8 have "scan_ok env s8" by (rule each_ok_keeps) (erule (1) scan_entry_ok, simp)
  with 9 have "scan_ok env s9" by (rule each_ok_keeps) (erule (1) scan_entry_ok, simp)
  with 10 have "scan_ok env s10" by (rule put_node_ok) simp
  with 11 have "scan_ok env st" by (rule each_ok_keeps) (rule scan_risk_ok)
  moreover have "k \<in> cn_id ` set (sc_nodes st)"
  proof -
    let ?P = "\<lambda>s. k \<in> cn_id ` set (sc_nodes s)"
    have "?P s4" using 4 3(3) by (rule each_ok_keeps[where P = ?P]) (use scan_entry_keys in blast)
    with 5 have "?P s5" by (rule each_ok_keeps[where P = ?P]) (use scan_entry_keys in blast)
    with 6 have "?P s6" by (rule each_ok_keeps[where P = ?P]) (use scan_entry_keys in blast)
    with 7 have "?P s7" by (rule each_ok_keeps[where P = ?P]) (use scan_entry_keys in blast)
    with 8 have "?P s8" by (rule each_ok_keeps[where P = ?P]) (use scan_entry_keys in blast)
    with 9 have "?P s9" by (rule each_ok_keeps[where P = ?P]) (use scan_entry_keys in blast)
    then have "?P s10" using put_node_keys[OF 10] by blast
    with 11 show ?thesis by (rule each_ok_keeps[where P = ?P]) (use scan_risk_keys in blast)
  qed
  ultimately show ?thesis using 3(2) by blast
qed

section \<open>Edges\<close>

text \<open>Linking changes edges only, and an edge identifier that is there stays.\<close>

definition extends :: "scan_state \<Rightarrow> scan_state \<Rightarrow> bool" where
  "extends s t \<longleftrightarrow> sc_nodes t = sc_nodes s \<and> sc_tools t = sc_tools s \<and> ce_id ` set (sc_edges s) \<subseteq> ce_id ` set (sc_edges t)"

lemma extends_refl [simp]: "extends s s" by (simp add: extends_def)

lemma extends_trans: "extends s t \<Longrightarrow> extends t u \<Longrightarrow> extends s u" by (auto simp: extends_def)

lemma extends_edge: "extends s t \<Longrightarrow> i \<in> ce_id ` set (sc_edges s) \<Longrightarrow> i \<in> ce_id ` set (sc_edges t)"
  by (auto simp: extends_def)

lemma put_edge_extends: "put_edge e s = Inr t \<Longrightarrow> extends s t \<and> ce_id e \<in> ce_id ` set (sc_edges t)"
  by (auto simp: put_edge_def extends_def keyed_put_keys split: if_splits)

definition good_link :: "audit_env \<Rightarrow> ('a \<Rightarrow> scan_state \<Rightarrow> graph_error + scan_state) \<Rightarrow> bool" where
  "good_link env f \<longleftrightarrow> (\<forall>x s t. f x s = Inr t \<longrightarrow> extends s t \<and> (scan_ok env s \<longrightarrow> scan_ok env t))"

lemma good_linkD: "good_link env f \<Longrightarrow> f x s = Inr t \<Longrightarrow> extends s t \<and> (scan_ok env s \<longrightarrow> scan_ok env t)"
  by (simp add: good_link_def)

lemma good_each: "good_link env f \<Longrightarrow> each_ok f xs s = Inr t \<Longrightarrow> extends s t \<and> (scan_ok env s \<longrightarrow> scan_ok env t)"
  by (rule each_ok_keeps[where P = "\<lambda>u. extends s u \<and> (scan_ok env s \<longrightarrow> scan_ok env u)"])
    (auto dest: good_linkD extends_trans)

lemma good_put: "ty \<in> set edge_sources \<Longrightarrow> put_edge (make_edge env a rel b ty) s = Inr t \<Longrightarrow> extends s t \<and> (scan_ok env s \<longrightarrow> scan_ok env t)"
  using put_edge_extends put_edge_ok by blast

lemma good_named: "good_link env (link_named env k rel kind ty)"
  unfolding good_link_def link_named_def
  using good_put[of "''registry''"] by (auto simp: edge_sources_def split: option.splits if_splits)

lemma good_intent: "good_link env (link_intent env)"
  unfolding good_link_def
proof (intro allI impI)
  fix x s t assume run: "link_intent env x s = Inr t"
  obtain key i where x: "x = (key, i)" by (cases x)
  from run obtain k u1 u2 u3 where
    "each_ok (link_named env k Requires_Skill ''skill'' Skill_Node) (ic_skills i) s = Inr u1"
    "each_ok (link_named env k Routes_To_Agent ''agent'' Sub_Agent) (ic_agents i) u1 = Inr u2"
    "each_ok (link_named env k Suitable_For ''model'' Model_Provider) (ic_models i) u2 = Inr u3"
    "each_ok (link_named env k Accepts_Source ''source'' Data_Source) (ic_sources i) u3 = Inr t"
    by (auto simp: link_intent_def x split: option.splits sum.splits)
  from this[THEN good_each[OF good_named]] show "extends s t \<and> (scan_ok env s \<longrightarrow> scan_ok env t)"
    using extends_trans by blast
qed

lemma good_agent: "good_link env (link_agent env)"
  unfolding good_link_def
proof (intro allI impI)
  fix x s t assume run: "link_agent env x s = Inr t"
  obtain key a where x: "x = (key, a)" by (cases x)
  from run obtain k u where
    "each_ok (link_named env k Can_Use_Skill ''skill'' Skill_Node) (ac_skills a) s = Inr u"
    "each_ok (link_named env k Can_Call_Tool ''mcp'' Mcp_Tool) (ac_tools a) u = Inr t"
    by (auto simp: link_agent_def x split: option.splits sum.splits)
  from this[THEN good_each[OF good_named]] show "extends s t \<and> (scan_ok env s \<longrightarrow> scan_ok env t)"
    using extends_trans by blast
qed

lemma good_case: "good_link env (link_case env)"
  unfolding good_link_def
proof (intro allI impI)
  fix x s t assume run: "link_case env x s = Inr t"
  obtain key c where x: "x = (key, c)" by (cases x)
  let ?f = "\<lambda>k v st. if v \<in> cn_id ` set (sc_nodes st) then put_edge (make_edge env k Validates v ''test_registry'') st else Inl Graph_Misconfigured"
  have "good_link env (?f k)" for k
    unfolding good_link_def using good_put[of "''test_registry''"] by (auto simp: edge_sources_def split: if_splits)
  moreover obtain k where "each_ok (?f k) (tc_validates c) s = Inr t"
    using run by (auto simp: link_case_def x split: option.splits)
  ultimately show "extends s t \<and> (scan_ok env s \<longrightarrow> scan_ok env t)" using good_each by blast
qed

lemma link_toolD:
  assumes "link_tool env reg policy k s = Inr t"
  shows "extends s t \<and> (scan_ok env s \<longrightarrow> scan_ok env t) \<and>
    ce_id (make_edge env guard_skill Guards k ''manifest'') \<in> ce_id ` set (sc_edges t) \<and>
    ce_id (make_edge env k Governed_By policy ''policy'') \<in> ce_id ` set (sc_edges t)"
proof -
  obtain u where u: "put_edge (make_edge env guard_skill Guards k ''manifest'') s = Inr u"
    using assms unfolding link_tool_def by (cases "put_edge (make_edge env guard_skill Guards k ''manifest'') s") simp_all
  obtain v where v: "put_edge (make_edge env k Governed_By policy ''policy'') u = Inr v"
    using assms unfolding link_tool_def u sum.case by (cases "put_edge (make_edge env k Governed_By policy ''policy'') u") simp_all
  obtain n where n: "row_get cn_id k (sc_nodes v) = Some n"
    using assms unfolding link_tool_def u v sum.case by (cases "row_get cn_id k (sc_nodes v)") simp_all
  note run = assms[unfolded link_tool_def u v n sum.case option.case]
  have t: "v = t \<or> (\<exists>r. put_edge (make_edge env k Produces_Risk r ''registry'') v = Inr t)"
  proof (cases "map_of (rc_risks reg) (cn_name n)")
    case (Some risk)
    show ?thesis
    proof (cases risk)
      case Nil
      then show ?thesis using run Some by simp
    next
      case (Cons c cs)
      then show ?thesis using run Some by (cases "node_identifier ''risk'' (c # cs)") auto
    qed
  qed (use run in simp)
  have "extends v t \<and> (scan_ok env v \<longrightarrow> scan_ok env t)"
    using t
  proof (elim disjE exE)
    fix r assume "put_edge (make_edge env k Produces_Risk r ''registry'') v = Inr t"
    from good_put[OF _ this] show ?thesis by (simp add: edge_sources_def)
  qed simp
  moreover have "extends s u \<and> (scan_ok env s \<longrightarrow> scan_ok env u)" using good_put[OF _ u] by (simp add: edge_sources_def)
  moreover have "extends u v \<and> (scan_ok env u \<longrightarrow> scan_ok env v)" using good_put[OF _ v] by (simp add: edge_sources_def)
  moreover have "ce_id (make_edge env guard_skill Guards k ''manifest'') \<in> ce_id ` set (sc_edges u)"
    "ce_id (make_edge env k Governed_By policy ''policy'') \<in> ce_id ` set (sc_edges v)"
    using put_edge_extends[OF u] put_edge_extends[OF v] by blast+
  ultimately show ?thesis using extends_trans extends_edge by blast
qed

lemma good_tool: "good_link env (link_tool env reg policy)"
  unfolding good_link_def using link_toolD by blast

lemma scan_edgesD:
  assumes "scan_edges env reg s = Inr t"
  obtains active where "policy_id (rc_policy reg) = Some active" "extends s t" "scan_ok env s \<longrightarrow> scan_ok env t"
    "node_of_type Skill_Node guard_skill t"
    "\<forall>k \<in> set (sc_tools s). ce_id (make_edge env guard_skill Guards k ''manifest'') \<in> ce_id ` set (sc_edges t) \<and>
       ce_id (make_edge env k Governed_By active ''policy'') \<in> ce_id ` set (sc_edges t)"
proof -
  obtain u1 u2 u3 active where
    1: "each_ok (link_intent env) (rc_intents reg) s = Inr u1" and 2: "each_ok (link_agent env) (rc_agents reg) u1 = Inr u2" and
    g: "node_of_type Skill_Node guard_skill u2" and a: "policy_id (rc_policy reg) = Some active" and
    3: "each_ok (link_tool env reg active) (sort (sc_tools u2)) u2 = Inr u3" and
    4: "each_ok (link_case env) (rc_cases reg) u3 = Inr t"
    using assms unfolding scan_edges_def by (auto split: if_splits sum.splits option.splits)
  note e = good_each[OF good_intent 1] good_each[OF good_agent 2] good_each[OF good_tool 3] good_each[OF good_case 4]
  have ext: "extends s t" "extends u2 t" "extends s u2" "scan_ok env s \<longrightarrow> scan_ok env t" using e extends_trans by blast+
  have "node_of_type Skill_Node guard_skill t" using g ext(2) by (simp add: node_of_type_def extends_def)
  moreover have "ce_id (make_edge env guard_skill Guards k ''manifest'') \<in> ce_id ` set (sc_edges t) \<and>
       ce_id (make_edge env k Governed_By active ''policy'') \<in> ce_id ` set (sc_edges t)" if k: "k \<in> set (sc_tools s)" for k
  proof -
    let ?Q = "\<lambda>w. ce_id (make_edge env guard_skill Guards k ''manifest'') \<in> ce_id ` set (sc_edges w) \<and>
       ce_id (make_edge env k Governed_By active ''policy'') \<in> ce_id ` set (sc_edges w)"
    have stay: "?Q w \<Longrightarrow> extends w w' \<Longrightarrow> ?Q w'" for w w' unfolding extends_def by blast
    have "k \<in> set (sort (sc_tools u2))" using k ext(3) by (simp add: extends_def)
    with 3 have "?Q u3"
    proof (rule each_ok_reaches[where Q = ?Q])
      show "?Q w'" if "link_tool env reg active k w = Inr w'" for w w' using link_toolD[OF that] by blast
      show "?Q w'" if "?Q w" "link_tool env reg active y w = Inr w'" for y w w' using stay[OF that(1)] link_toolD[OF that(2)] by blast
    qed
    then show ?thesis using stay e(4) by blast
  qed
  ultimately show thesis using that a ext by blast
qed

section \<open>Snapshots\<close>

text \<open>No other edge of the snapshot has the SHA-256 identifier of a guard or policy edge of a tool.\<close>

definition edge_ids_unique :: "audit_env \<Rightarrow> scan_snapshot \<Rightarrow> bool" where
  "edge_ids_unique env sn \<longleftrightarrow>
     (\<forall>n \<in> set (ss_nodes sn). cn_type n = Mcp_Tool \<longrightarrow> (\<forall>e \<in> set (ss_edges sn).
        (ce_id e = ce_id (make_edge env guard_skill Guards (cn_id n) ''manifest'') \<longrightarrow>
           e = make_edge env guard_skill Guards (cn_id n) ''manifest'') \<and>
        (\<forall>p \<in> set (map cn_id (ss_nodes sn)). ce_id e = ce_id (make_edge env (cn_id n) Governed_By p ''policy'') \<longrightarrow>
           e = make_edge env (cn_id n) Governed_By p ''policy'')))"

lemma scan_snapshot_ok:
  assumes "scan_repository env repo = Inr sn"
  shows "distinct (map cn_id (ss_nodes sn)) \<and> distinct (map ce_id (ss_edges sn)) \<and> list_all valid_node (ss_nodes sn) \<and>
    edges_closed (ss_nodes sn) (ss_edges sn)"
proof -
  obtain reg cfg s t where s: "scan_nodes env repo reg cfg = Inr s" and t: "scan_edges env reg s = Inr t"
    and closed: "list_all (\<lambda>e. ce_source e \<in> cn_id ` set (sc_nodes t) \<and> ce_target e \<in> cn_id ` set (sc_nodes t)) (sc_edges t)"
    and sn: "ss_nodes sn = sort_key cn_id (sc_nodes t)" "ss_edges sn = sort_key ce_id (sc_edges t)"
    using assms by (auto simp: scan_repository_def split: option.splits sum.splits if_splits)
  have "scan_ok env t" using scan_nodes_ok[OF s] scan_edgesD[OF t] by blast
  then show ?thesis
    using closed mset_eq_imp_distinct_iff[of "map cn_id (ss_nodes sn)" "map cn_id (sc_nodes t)"]
      mset_eq_imp_distinct_iff[of "map ce_id (ss_edges sn)" "map ce_id (sc_edges t)"]
    by (simp add: sn scan_ok_def edges_closed_def list_all_iff)
qed

lemma scan_tools_linked:
  assumes "scan_repository env repo = Inr sn" "edge_ids_unique env sn" "n \<in> set (ss_nodes sn)" "cn_type n = Mcp_Tool"
  obtains active where "startswith (cn_id n) ''mcp.''" "make_edge env guard_skill Guards (cn_id n) ''manifest'' \<in> set (ss_edges sn)"
    "make_edge env (cn_id n) Governed_By active ''policy'' \<in> set (ss_edges sn)"
proof -
  obtain reg cfg s t where s: "scan_nodes env repo reg cfg = Inr s" and t: "scan_edges env reg s = Inr t"
    and sn: "ss_nodes sn = sort_key cn_id (sc_nodes t)" "ss_edges sn = sort_key ce_id (sc_edges t)"
    using assms by (auto simp: scan_repository_def split: option.splits sum.splits if_splits)
  obtain active where a: "policy_id (rc_policy reg) = Some active" "extends s t" "scan_ok env s \<longrightarrow> scan_ok env t"
    "node_of_type Skill_Node guard_skill t"
    "\<forall>k \<in> set (sc_tools s). ce_id (make_edge env guard_skill Guards k ''manifest'') \<in> ce_id ` set (sc_edges t) \<and>
       ce_id (make_edge env k Governed_By active ''policy'') \<in> ce_id ` set (sc_edges t)"
    using t by (rule scan_edgesD)
  have "active \<in> set (map cn_id (ss_nodes sn))" using scan_nodes_ok[OF s] a(1,2) by (simp add: sn extends_def)
  moreover obtain g where "g \<in> set (ss_nodes sn)" "cn_id g = guard_skill" using a(4) by (auto simp: node_of_type_def list_ex_iff sn)
  then have "guard_skill \<in> set (map cn_id (ss_nodes sn))" by (metis imageI set_map)
  moreover have n: "cn_id n \<in> set (map cn_id (ss_nodes sn))" using assms(3) by simp
  ultimately have mem: "active \<in> set (map cn_id (ss_nodes sn))" "guard_skill \<in> set (map cn_id (ss_nodes sn))" by blast+
  have tool: "cn_id n \<in> set (sc_tools s)" using scan_nodes_ok[OF s] a(2) assms(3,4) by (simp add: scan_ok_def sn extends_def)
  then have mcp: "startswith (cn_id n) ''mcp.''" using scan_nodes_ok[OF s] by (simp add: scan_ok_def list_all_iff)
  from tool obtain e f where e: "e \<in> set (ss_edges sn)" "ce_id e = ce_id (make_edge env guard_skill Guards (cn_id n) ''manifest'')"
    and f: "f \<in> set (ss_edges sn)" "ce_id f = ce_id (make_edge env (cn_id n) Governed_By active ''policy'')"
    using a(5) by (auto simp: sn)
  have "e = make_edge env guard_skill Guards (cn_id n) ''manifest''"
    using assms(2-4) e unfolding edge_ids_unique_def by blast
  moreover have "f = make_edge env (cn_id n) Governed_By active ''policy''"
    using assms(2-4) f mem unfolding edge_ids_unique_def by blast
  ultimately show thesis using that mcp e(1) f(1) by blast
qed

section \<open>Links of the loaded graph\<close>

lemma add_link_keeps: "l \<in> set (kg_links g) \<Longrightarrow> \<not> same_link m l \<Longrightarrow> l \<in> set (kg_links (add_link m g))"
  by (simp add: add_link_def)

lemma base_graph_links:
  assumes "distinct (map ce_id (gd_edges db))" "e \<in> set (gd_edges db)"
  shows "link_of e \<in> set (kg_links (base_graph db))"
proof -
  have "link_of e \<in> set (kg_links (fold (\<lambda>e. add_link (link_of e)) es g))"
    if "distinct (map ce_id es)" "e \<in> set es \<or> (link_of e \<in> set (kg_links g) \<and> ce_id e \<notin> ce_id ` set es)" for es g
    using that
  proof (induction es arbitrary: g)
    case (Cons f fs)
    show ?case
    proof (cases "e = f")
      case True
      have "link_of f \<in> set (kg_links (add_link (link_of f) g))" by (simp add: add_link_def)
      then show ?thesis using Cons True by simp
    next
      case False
      have "e \<in> set fs \<or> (link_of e \<in> set (kg_links (add_link (link_of f) g)) \<and> ce_id e \<notin> ce_id ` set fs)"
        using Cons.prems(2) False by (auto intro!: add_link_keeps simp: same_link_def link_of_def)
      then show ?thesis using Cons by simp
    qed
  qed simp
  moreover have "distinct (map ce_id (list_edges db))" "e \<in> set (list_edges db)"
    using assms mset_eq_imp_distinct_iff[of "map ce_id (list_edges db)" "map ce_id (gd_edges db)"] by (simp_all add: list_edges_def)
  ultimately show ?thesis by (simp add: base_graph_def)
qed

lemma add_pattern_links:
  assumes "l \<in> set (kg_links g)" "gl_from l \<noteq> pt_id p"
  shows "l \<in> set (kg_links (add_pattern env p g))"
proof -
  have other: "\<not> same_link (pattern_link env p t) l" for t
    using assms(2) by (cases t) (simp add: same_link_def pattern_link_def)
  have "l \<in> set (kg_links (fold (\<lambda>t h. if has_node h (snd t) then add_link (pattern_link env p t) h else h) ts h))"
    if "l \<in> set (kg_links h)" for ts h
    using that by (induction ts arbitrary: h) (simp_all add: add_link_keeps other)
  moreover have "l \<in> set (kg_links (add_node (pt_id p) (pattern_node env p) g))" using assms(1) by (simp add: add_node_def)
  ultimately show ?thesis by (simp add: add_pattern_def Let_def)
qed

lemma add_patterns_links:
  "add_patterns env ps g = Inr g' \<Longrightarrow> l \<in> set (kg_links g) \<Longrightarrow> \<forall>p \<in> set ps. gl_from l \<noteq> pt_id p \<Longrightarrow> l \<in> set (kg_links g')"
proof (induction ps arbitrary: g)
  case (Cons p ps)
  then have "add_patterns env ps (add_pattern env p g) = Inr g'" by (auto split: if_splits)
  from Cons.IH[OF this] Cons.prems show ?case by (simp add: add_pattern_links)
qed simp

lemma pattern_ids: "list_trace_patterns env goal db = Inr ps \<Longrightarrow> p \<in> set ps \<Longrightarrow> startswith (pt_id p) ''trace.''"
proof -
  assume "list_trace_patterns env goal db = Inr ps" "p \<in> set ps"
  then obtain r where "pattern_from_row env r = Inr p" by (rule list_trace_patternsD)
  from pattern_from_rowD[OF this] show ?thesis unfolding valid_pattern_def by blast
qed

lemma load_graph_links:
  assumes "load_graph env db = Inr g" "distinct (map ce_id (gd_edges db))" "e \<in> set (gd_edges db)" "\<not> startswith (ce_source e) ''trace.''"
  shows "link_of e \<in> set (kg_links g)"
proof -
  obtain ps where ps: "list_trace_patterns env None db = Inr ps" "add_patterns env ps (base_graph db) = Inr g"
    using assms(1) by (auto simp: load_graph_def split: if_splits sum.splits)
  have "gl_from (link_of e) \<noteq> pt_id p" if "p \<in> set ps" for p
    using pattern_ids[OF ps(1) that] assms(4) by (auto simp: link_of_def)
  then show ?thesis using add_patterns_links[OF ps(2) base_graph_links[OF assms(2,3)]] by blast
qed

lemma add_patterns_types:
  "add_patterns env ps g = Inr g' \<Longrightarrow> (k, n) \<in> set (kg_nodes g') \<Longrightarrow> (k, n) \<in> set (kg_nodes g) \<or> cn_type n = Trace_Pattern"
proof (induction ps arbitrary: g)
  case (Cons p ps)
  have "(k, n) \<in> set (kg_nodes (add_pattern env p g)) \<Longrightarrow> (k, n) \<in> set (kg_nodes g) \<or> cn_type n = Trace_Pattern"
    by (auto simp: add_pattern_nodes add_node_def pattern_node_def split: if_splits)
  then show ?case using Cons.IH[of "add_pattern env p g"] Cons.prems by (auto split: if_splits)
qed simp

lemma load_graph_tools:
  assumes "load_graph env db = Inr g" "distinct (map cn_id (gd_nodes db))" "(k, n) \<in> set (kg_nodes g)" "cn_type n = Mcp_Tool"
  shows "n \<in> set (gd_nodes db) \<and> cn_id n = k"
proof -
  obtain ps where "add_patterns env ps (base_graph db) = Inr g"
    using assms(1) by (auto simp: load_graph_def split: if_splits sum.splits)
  from add_patterns_types[OF this assms(3)] show ?thesis using base_graph_nodes[OF assms(2)] assms(4) by auto
qed

lemma nodes_where_Nil: "(\<And>k n. (k, n) \<in> set (kg_nodes g) \<Longrightarrow> \<not> P k n) \<Longrightarrow> nodes_where g P = []"
proof -
  assume "\<And>k n. (k, n) \<in> set (kg_nodes g) \<Longrightarrow> \<not> P k n"
  then have "filter (\<lambda>(k, n). P k n) (kg_nodes g) = []" by (auto simp: filter_empty_conv)
  then show ?thesis by (simp add: nodes_where_def)
qed

text \<open>C25: A freshly built graph is governed: after a rebuild from a scan of the repository, the health check finds the
  graph up to date with the sources, every tool guarded by the guard skill and governed by a policy, every record
  signed and every node approved (edges whose SHA-256 identifiers do not collide).\<close>

theorem fresh_build_is_governed:
  assumes "graph_reachable env db" "scan_repository env repo = Inr sn" "edge_ids_unique env sn" "\<forall>x. ae_mac env x \<noteq> []"
    and "replace_snapshot env sn reviewer scans now db = (Inr res, db')" "\<not> gb_unchanged res"
    and "graph_health_of env (Inr sn) db' = Inr h"
  shows "\<not> gh_stale h \<and> gh_unguarded h = [] \<and> gh_ungoverned h = [] \<and> gh_invalid h = [] \<and> gh_unapproved h = []"
  using assms(5)
proof (cases rule: replace_cases)
  case kept
  then show ?thesis using replace_unchanged[OF assms(5)] assms(6) by simp
next
  case written
  have sn: "distinct (map cn_id (ss_nodes sn))" "distinct (map ce_id (ss_edges sn))" "list_all valid_node (ss_nodes sn)"
    using scan_snapshot_ok[OF assms(2)] by blast+
  have db': "gd_nodes db' = ss_nodes sn" "gd_edges db' = ss_edges sn" "map_option gm_digest (gd_meta db') = Some (ss_digest sn)"
    using written by simp_all
  have "graph_step env db db'" using sn(3) assms(5) by (rule graph_step.replaced)
  then have reach: "graph_reachable env db'" using assms(1) unfolding graph_reachable_def by (rule rtranclp.rtrancl_into_rtrancl[rotated])
  obtain g m invalid unapproved where g: "load_graph env db' = Inr g" and m: "graph_metadata db' = Inr m"
    and v: "verify_governance env db' = Inr (invalid, unapproved)"
    and h: "gh_stale h \<longleftrightarrow> gm_digest m \<noteq> ss_digest sn" "gh_invalid h = invalid" "gh_unapproved h = unapproved"
      "gh_unguarded h = nodes_where g (\<lambda>k n. cn_type n = Mcp_Tool \<and> incoming_sources g k Guards = [])"
      "gh_ungoverned h = nodes_where g (\<lambda>k n. cn_type n = Mcp_Tool \<and> outgoing_targets g k Governed_By = [])"
    using assms(7) unfolding graph_health_of_def Let_def by (auto split: sum.splits)
  have fresh: "\<not> gh_stale h" using h(1) m db'(3) by (auto simp: graph_metadata_def split: option.splits)
  have linked: "incoming_sources g k Guards \<noteq> [] \<and> outgoing_targets g k Governed_By \<noteq> []"
    if tool: "(k, n) \<in> set (kg_nodes g)" "cn_type n = Mcp_Tool" for k n
  proof -
    have n: "n \<in> set (ss_nodes sn)" "cn_id n = k" using load_graph_tools[OF g _ tool] sn(1) db'(1) by simp_all
    obtain active where t: "startswith (cn_id n) ''mcp.''" "make_edge env guard_skill Guards (cn_id n) ''manifest'' \<in> set (gd_edges db')"
        "make_edge env (cn_id n) Governed_By active ''policy'' \<in> set (gd_edges db')"
      unfolding db'(2) using assms(2,3) n(1) tool(2) by (rule scan_tools_linked)
    have d: "distinct (map ce_id (gd_edges db'))" using sn(2) db'(2) by simp
    have "link_of (make_edge env guard_skill Guards k ''manifest'') \<in> set (kg_links g)"
      by (rule load_graph_links[OF g d]) (use t(2) n(2) in \<open>simp_all add: make_edge_def guard_skill_def startswith_def\<close>)
    moreover have "link_of (make_edge env k Governed_By active ''policy'') \<in> set (kg_links g)"
      by (rule load_graph_links[OF g d]) (use t(1,3) n(2) in \<open>auto simp: make_edge_def startswith_def prefix_def\<close>)
    ultimately have "guard_skill \<in> set (incoming_sources g k Guards)" "active \<in> set (outgoing_targets g k Governed_By)"
      by (force simp: incoming_sources_def outgoing_targets_def sorted_set_def make_edge_def link_of_def)+
    then show ?thesis by auto
  qed
  have "gh_unguarded h = []" "gh_ungoverned h = []"
    unfolding h by (rule nodes_where_Nil, use linked in blast)+
  moreover have "invalid = [] \<and> unapproved = []"
    using verified_when_reachable[OF reach assms(4) v] .
  ultimately show ?thesis using fresh h(2,3) by simp
qed

section \<open>What review and signatures do not cover\<close>

text \<open>The code of a server, the documentation of a skill and the flags of a stored node.\<close>

lemma server_code_not_hashed: "tool_node env (s\<lparr>sv_code := c\<rparr>) m t = tool_node env s m t"
  by (simp add: tool_node_def split: option.split)

lemma skill_doc_not_hashed: "skill_node env reg (s\<lparr>sk_doc := d\<rparr>) = skill_node env reg s"
  by (simp add: skill_node_def Let_def split: option.split pyval.split)

lemma stored_flags_not_signed:
  "record_problem env gov (n\<lparr>cn_mandatory := m, cn_enabled := e, cn_risk := r\<rparr>) = record_problem env gov n"
  by (simp add: record_problem_def split: option.split)

section \<open>A rebuild\<close>

definition rebuilt_graph :: graph_db where
  "rebuilt_graph = snd (replace_snapshot repo_env repo_snapshot None (\<lambda>_. None) ''t0'' new_graph_db)"

lemma repo_unique: "edge_ids_unique repo_env repo_snapshot"
  by code_simp

lemma rebuilt: "\<exists>res h. replace_snapshot repo_env repo_snapshot None (\<lambda>_. None) ''t0'' new_graph_db = (Inr res, rebuilt_graph) \<and>
   \<not> gb_unchanged res \<and> graph_health_of repo_env (Inr repo_snapshot) rebuilt_graph = Inr h"
proof -
  have "(case fst (replace_snapshot repo_env repo_snapshot None (\<lambda>_. None) ''t0'' new_graph_db) of Inl _ \<Rightarrow> False | Inr res \<Rightarrow> \<not> gb_unchanged res)"
    by code_simp
  moreover have "is_ok (graph_health_of repo_env (Inr repo_snapshot) rebuilt_graph)" by code_simp
  ultimately show ?thesis
    by (cases "replace_snapshot repo_env repo_snapshot None (\<lambda>_. None) ''t0'' new_graph_db")
      (auto simp: rebuilt_graph_def is_ok_iff split: sum.splits)
qed

theorem fresh_build_is_governed_witness:
  "\<exists>h. graph_health_of repo_env (Inr repo_snapshot) rebuilt_graph = Inr h \<and> \<not> gh_stale h \<and> gh_unguarded h = [] \<and> gh_ungoverned h = []"
proof -
  obtain res h where r: "replace_snapshot repo_env repo_snapshot None (\<lambda>_. None) ''t0'' new_graph_db = (Inr res, rebuilt_graph)"
    "\<not> gb_unchanged res" and h: "graph_health_of repo_env (Inr repo_snapshot) rebuilt_graph = Inr h" using rebuilt by blast
  have start: "graph_reachable repo_env new_graph_db" by (simp add: graph_reachable_def)
  have mac: "\<forall>x. ae_mac repo_env x \<noteq> []" by (simp add: repo_env_def graph_env_def sha_of_def)
  show ?thesis using fresh_build_is_governed[OF start repo_scans repo_unique mac r h] h by blast
qed

end
