(* ===== verification/ShieldText.thy ===== *)
theory ShieldText
  imports Contracts
begin

text \<open>
  Sources and chunks of the input analysis, \<^verbatim>\<open>research_technology/skills/promptshield-gov/src/\<close>: the envelope of
  a source (\<open>create_source\<close> and the text adapters of \<open>sources.py\<close>), the splitting of its normalised text into
  overlapping chunks (\<open>chunk_source\<close> of \<open>normalization.py\<close>) and the text of two neighbouring chunks
  (\<open>provenance.py\<close>). Normalisation itself (Unicode tables, HTML entities) is an argument with its flags, and so
  is SHA-256. Metadata are not carried: no code of the analysis reads them.
\<close>

section \<open>Envelopes\<close>

record envelope =
  se_id :: string
  se_type :: source_type
  se_origin :: string
  se_trust :: rat
  se_content :: string
  se_hash :: string
  se_text :: string
  se_text_hash :: string
  se_flags :: "string list"
  se_session :: "string option"
  se_parent :: "string option"

datatype shield_error = Invalid_Input | Shield_Crash

fun source_value :: "source_type \<Rightarrow> string" where
  "source_value User_Input = ''user_input''"
| "source_value Web_Page = ''web_page''"
| "source_value Uploaded_Pdf = ''uploaded_pdf''"
| "source_value Uploaded_Doc = ''uploaded_doc''"
| "source_value Rag_Result = ''rag_result''"
| "source_value History_Memory = ''history_memory''"

definition external_source :: "source_type \<Rightarrow> bool" where
  "external_source t \<longleftrightarrow> t \<in> {Web_Page, Uploaded_Pdf, Uploaded_Doc, Rag_Result, History_Memory}"

definition valid_envelope :: "envelope \<Rightarrow> bool" where
  "valid_envelope s \<longleftrightarrow>
     len_between 1 160 (se_id s) \<and> len_between 1 2048 (se_origin s) \<and> 0 \<le> se_trust s \<and> se_trust s \<le> 1 \<and>
     length (se_content s) \<le> 1000000 \<and> is_sha256_hex (se_hash s) \<and> length (se_text s) \<le> 1000000 \<and>
     is_sha256_hex (se_text_hash s) \<and> opt_len 160 (se_session s) \<and> opt_len 160 (se_parent s)"

fun default_trust :: "source_type \<Rightarrow> rat" where
  "default_trust User_Input = 45 / 100"
| "default_trust Web_Page = 20 / 100"
| "default_trust Uploaded_Pdf = 30 / 100"
| "default_trust Uploaded_Doc = 30 / 100"
| "default_trust Rag_Result = 55 / 100"
| "default_trust History_Memory = 50 / 100"

text \<open>\<open>re.sub(r"[^A-Za-z0-9._:-]+", "-", value).strip("-")\<close>\<close>

definition slug_char :: "char \<Rightarrow> bool" where
  "slug_char c \<longleftrightarrow> is_lower c \<or> is_upper c \<or> is_digit c \<or> c \<in> {CHR ''.'', CHR ''_'', CHR '':'', CHR ''-''}"

fun dash_runs :: "string \<Rightarrow> string" where
  "dash_runs [] = []"
| "dash_runs (c # cs) =
     (if slug_char c then c # dash_runs cs
      else if cs \<noteq> [] \<and> \<not> slug_char (hd cs) then dash_runs cs
      else CHR ''-'' # dash_runs cs)"

definition slug :: "string \<Rightarrow> string" where
  "slug v =
     (let compact = take 80 (lstrip_by (\<lambda>c. c = CHR ''-'') (rstrip_by (\<lambda>c. c = CHR ''-'') (dash_runs v)))
      in if compact = [] then ''source'' else compact)"

text \<open>SHA-256 of a text and \<open>normalize_text\<close>: the normalised text and its flags.\<close>

record text_env =
  tx_sha :: "string \<Rightarrow> string"
  tx_normalize :: "string \<Rightarrow> string \<times> string list"

definition create_source ::
    "text_env \<Rightarrow> string \<Rightarrow> source_type \<Rightarrow> string \<Rightarrow> rat option \<Rightarrow> string option \<Rightarrow> string option \<Rightarrow>
     shield_error + envelope" where
  "create_source env content ty origin trust session parent =
     (let (clean, flags) = tx_normalize env content; h = tx_sha env content;
          s = \<lparr>se_id = source_value ty @ '':'' @ slug origin @ '':'' @ take 16 h, se_type = ty, se_origin = origin,
            se_trust = (case trust of None \<Rightarrow> default_trust ty | Some t \<Rightarrow> t), se_content = content, se_hash = h,
            se_text = clean, se_text_hash = tx_sha env clean, se_flags = flags, se_session = session,
            se_parent = parent\<rparr>
      in if valid_envelope s then Inr s else Inl Invalid_Input)"

definition adapt_user_input :: "text_env \<Rightarrow> string \<Rightarrow> string \<Rightarrow> string option \<Rightarrow> shield_error + envelope" where
  "adapt_user_input env content user session =
     create_source env content User_Input (''user:'' @ user) None session None"

definition adapt_text_source ::
    "text_env \<Rightarrow> string \<Rightarrow> source_type \<Rightarrow> string \<Rightarrow> string option \<Rightarrow> rat option \<Rightarrow> shield_error + envelope" where
  "adapt_text_source env content ty origin session trust = create_source env content ty origin trust session None"

section \<open>Chunks\<close>

record chunk =
  ck_id :: string
  ck_source :: string
  ck_type :: source_type
  ck_index :: nat
  ck_text :: string
  ck_start :: nat
  ck_end :: nat
  ck_hash :: string
  ck_trust :: rat

text \<open>\<open>text.rfind(separator, low, high)\<close>, for a separator that is not empty.\<close>

definition rfind :: "string \<Rightarrow> string \<Rightarrow> nat \<Rightarrow> nat \<Rightarrow> nat option" where
  "rfind s sep low high = find (\<lambda>i. i + length sep \<le> high \<and> prefix sep (drop i s)) (rev [low..<high])"

text \<open>The three Chinese sentence marks are not characters of the texts modelled here.\<close>

definition separators :: "string list" where
  "separators = [[CHR 0x0A], ''. '']"

interpretation position_ranked: ranked "id :: nat \<Rightarrow> nat"
  by unfold_locales simp

definition boundary :: "string \<Rightarrow> nat \<Rightarrow> nat \<Rightarrow> nat option" where
  "boundary s low high = max_by id (List.map_filter (\<lambda>sep. rfind s sep low high) separators)"

definition chunk_end :: "string \<Rightarrow> nat \<Rightarrow> nat \<Rightarrow> nat" where
  "chunk_end s mx start =
     (let hard = min (length s) (start + mx)
      in if hard < length s
         then (case boundary s (start + mx div 2) hard of
                 None \<Rightarrow> hard | Some b \<Rightarrow> if start < b then b + 1 else hard)
         else hard)"

text \<open>The offsets of the chunks; \<open>max_chars\<close> is never 0 where this is called.\<close>

function chunk_spans :: "string \<Rightarrow> nat \<Rightarrow> nat \<Rightarrow> nat \<Rightarrow> (nat \<times> nat) list" where
  "chunk_spans s mx ov start =
     (if mx = 0 \<or> length s \<le> start then []
      else (let e = chunk_end s mx start
            in (start, e) # (if length s \<le> e then []
                 else chunk_spans s mx ov (if start < e - ov then e - ov else e))))"
  by pat_completeness auto

lemma find_Some_in: "find P xs = Some x \<Longrightarrow> P x \<and> x \<in> set xs"
  by (induction xs) (auto split: if_splits)

lemma rfind_bounds: "rfind s sep low high = Some i \<Longrightarrow> low \<le> i \<and> i < high \<and> i + length sep \<le> high"
  using find_Some_in[of _ "rev [low..<high]" i] by (auto simp: rfind_def)

lemma boundary_bounds: "boundary s low high = Some i \<Longrightarrow> low \<le> i \<and> i < high"
proof -
  assume b: "boundary s low high = Some i"
  have "i \<in> set (List.map_filter (\<lambda>sep. rfind s sep low high) separators)"
    using b unfolding boundary_def by (rule position_ranked.max_in)
  then show ?thesis using rfind_bounds by (auto simp: map_filter_def)
qed

lemma chunk_end_bounds:
  assumes "0 < mx" "start < length s"
  shows "start < chunk_end s mx start \<and> chunk_end s mx start \<le> length s \<and> chunk_end s mx start \<le> start + mx"
proof -
  define h where "h = min (length s) (start + mx)"
  have "chunk_end s mx start = (if h < length s
      then (case boundary s (start + mx div 2) h of None \<Rightarrow> h | Some b \<Rightarrow> if start < b then b + 1 else h) else h)"
    by (simp only: chunk_end_def Let_def h_def)
  moreover have "start < h" "h \<le> length s" "h \<le> start + mx" using assms by (simp_all add: h_def)
  ultimately show ?thesis using boundary_bounds[of s "start + mx div 2" h] by (auto split: option.split)
qed

lemma chunk_end_gt: "0 < mx \<Longrightarrow> start < length s \<Longrightarrow> start < chunk_end s mx start"
  using chunk_end_bounds by blast

termination chunk_spans
proof (relation "measure (\<lambda>(s, mx, ov, start). length s - start)", goal_cases)
  case 1
  show ?case by simp
next
  case (2 s mx ov start e)
  then have "start < e" using chunk_end_gt[of mx start s] by simp
  then show ?case using 2 by auto
qed

declare chunk_spans.simps [simp del]

definition span_text :: "string \<Rightarrow> nat \<times> nat \<Rightarrow> string" where
  "span_text s = (\<lambda>(a, b). take (b - a) (drop a s))"

definition make_chunk :: "text_env \<Rightarrow> envelope \<Rightarrow> nat \<times> nat \<times> nat \<Rightarrow> chunk" where
  "make_chunk env s = (\<lambda>(i, a, b).
     (let t = span_text (se_text s) (a, b); h = tx_sha env t
      in \<lparr>ck_id = se_id s @ '':chunk:'' @ show_nat i @ '':'' @ take 12 h, ck_source = se_id s, ck_type = se_type s,
          ck_index = i, ck_text = t, ck_start = a, ck_end = b, ck_hash = h, ck_trust = se_trust s\<rparr>))"

definition valid_chunk :: "chunk \<Rightarrow> bool" where
  "valid_chunk c \<longleftrightarrow> len_between 1 180 (ck_id c) \<and> is_sha256_hex (ck_hash c) \<and> 0 \<le> ck_trust c \<and> ck_trust c \<le> 1"

definition chunk_source :: "text_env \<Rightarrow> envelope \<Rightarrow> int \<Rightarrow> int \<Rightarrow> shield_error + chunk list" where
  "chunk_source env s mx ov =
     (if mx < 256 \<or> ov < 0 \<or> mx \<le> ov then Inl Invalid_Input
      else (let cs = map (make_chunk env s) (enumerate 0 (chunk_spans (se_text s) (nat mx) (nat ov) 0))
            in if list_all valid_chunk cs then Inr cs else Inl Invalid_Input))"

definition merge_overlapping_chunks :: "chunk \<Rightarrow> chunk \<Rightarrow> string" where
  "merge_overlapping_chunks l r =
     ck_text l @ drop (min (ck_end l - ck_start r) (length (ck_text r))) (ck_text r)"

end
