(* ===== verification/ShieldDetect.thy ===== *)
theory ShieldDetect
  imports ShieldText
begin

text \<open>
  The detectors of the input analysis: the rules (\<open>detector.py\<close>), the lexical classifier (\<open>classifier.py\<close>) and the
  cascade of both with an optional reviewer (\<open>cascade.py\<close>), with the policy and the model as their YAML files are
  read. \<open>re.search\<close> and the logistic function are arguments; weights and scores are exact rationals, rounded to
  three digits where the code rounds. Levels are those of the enumeration: a policy or reviewer that invents one
  makes the code raise \<open>KeyError\<close> or \<open>ValidationError\<close>.
\<close>

section \<open>Policy and model\<close>

record rule_group =
  rg_keywords :: "string list"
  rg_patterns :: "string list"
  rg_level :: "risk_level option"
  rg_action :: "string option"

record shield_policy =
  sp_direct :: rule_group
  sp_indirect :: rule_group
  sp_jailbreak :: rule_group
  sp_poisoning :: rule_group
  sp_data_request :: rule_group
  sp_leakage :: rule_group
  sp_base :: "rat option"
  sp_per_hit :: "rat option"
  sp_boost :: "(string \<times> rat) list"

record category =
  cg_weights :: "(string \<times> rat) list"
  cg_interactions :: "(string list \<times> rat) list"
  cg_level :: "risk_level option"
  cg_action :: "string option"

record classifier =
  cl_lexicons :: "(string \<times> string list) list"
  cl_categories :: "(string \<times> category) list"
  cl_intercept :: "rat option"
  cl_flag_weight :: "rat option"
  cl_review :: rat
  cl_high :: rat

record finding =
  fd_type :: string
  fd_level :: risk_level
  fd_score :: rat
  fd_evidence :: string
  fd_hits :: "string list"
  fd_action :: string
  fd_layer :: string

text \<open>\<open>value or default\<close> for a key that may be missing.\<close>

definition given :: "'a option \<Rightarrow> 'a \<Rightarrow> 'a" where
  "given v d = (case v of None \<Rightarrow> d | Some x \<Rightarrow> x)"

text \<open>\<open>round(x, 3)\<close>: to the nearest thousandth, halves to the even one.\<close>

definition round3 :: "rat \<Rightarrow> rat" where
  "round3 x =
     (let n = floor (1000 * x); d = 1000 * x - of_int n
      in of_int (if d < 1 / 2 \<or> (d = 1 / 2 \<and> even n) then n else n + 1) / 1000)"

text \<open>\<open>sort(key=lambda item: (priority, score), reverse=True)\<close>\<close>

definition severity_sort :: "('a \<Rightarrow> risk_level) \<Rightarrow> ('a \<Rightarrow> rat) \<Rightarrow> 'a list \<Rightarrow> 'a list" where
  "severity_sort level score xs = sort_key (\<lambda>x. - int (risk_rank (level x))) (sort_key (\<lambda>x. - score x) xs)"

definition by_severity :: "finding list \<Rightarrow> finding list" where
  "by_severity = severity_sort fd_level fd_score"

definition sorted_hits :: "string list \<Rightarrow> string list" where
  "sorted_hits xs = sort (remdups xs)"

section \<open>Rules\<close>

text \<open>\<open>text.split()\<close>\<close>

fun words :: "string \<Rightarrow> string list" where
  "words [] = []"
| "words (c # s) =
     (if is_space c then words s
      else if s = [] \<or> is_space (hd s) then [c] # words s
      else (case words s of [] \<Rightarrow> [[c]] | w # ws \<Rightarrow> (c # w) # ws))"

definition cleaned :: "string \<Rightarrow> string" where
  "cleaned t = join '' '' (words t)"

definition rule_groups :: "shield_policy \<Rightarrow> (string \<times> rule_group) list" where
  "rule_groups p =
     [(''direct_prompt_injection'', sp_direct p), (''indirect_prompt_injection'', sp_indirect p),
      (''jailbreak'', sp_jailbreak p), (''knowledge_poisoning'', sp_poisoning p),
      (''sensitive_data_request'', sp_data_request p), (''system_prompt_leakage'', sp_leakage p)]"

type_synonym matcher = "string \<Rightarrow> string \<Rightarrow> string option"

definition group_hits :: "matcher \<Rightarrow> rule_group \<Rightarrow> string \<Rightarrow> string list" where
  "group_hits find_in g t =
     filter (\<lambda>k. contains (casefold t) (casefold k)) (rg_keywords g) @
     List.map_filter (\<lambda>p. find_in p t) (rg_patterns g)"

definition rule_score :: "shield_policy \<Rightarrow> source_type \<Rightarrow> rule_group \<Rightarrow> nat \<Rightarrow> rat" where
  "rule_score p src g n =
     (let s = min (99 / 100) (given (sp_base p) (42 / 100) + given (sp_per_hit p) (12 / 100) * of_nat n +
            given (map_of (sp_boost p) (source_value src)) 0)
      in if rg_level g = Some High then max s (82 / 100) else s)"

definition rule_finding :: "matcher \<Rightarrow> shield_policy \<Rightarrow> source_type \<Rightarrow> string \<Rightarrow> string \<times> rule_group \<Rightarrow> finding option" where
  "rule_finding find_in p src t = (\<lambda>(name, g).
     case group_hits find_in g t of
       [] \<Rightarrow> None
     | h # hs \<Rightarrow>
         (let redirected = (external_source src \<and> name = ''direct_prompt_injection'')
          in Some \<lparr>fd_type = (if redirected then ''indirect_prompt_injection'' else name),
               fd_level = given (rg_level g) Medium, fd_score = round3 (rule_score p src g (length (h # hs))),
               fd_evidence = take 240 h, fd_hits = sorted_hits (h # hs),
               fd_action = (if redirected then ''isolate'' else given (rg_action g) ''require_approval''),
               fd_layer = ''rule''\<rparr>))"

definition detect_input_risk :: "matcher \<Rightarrow> shield_policy \<Rightarrow> string \<Rightarrow> source_type \<Rightarrow> finding list" where
  "detect_input_risk find_in p t src =
     by_severity (List.map_filter (rule_finding find_in p src (cleaned t)) (rule_groups p))"

section \<open>Classifier\<close>

definition lexicon_hits :: "classifier \<Rightarrow> string \<Rightarrow> (string \<times> string list) list" where
  "lexicon_hits m t =
     map (\<lambda>(name, tokens). (name, sorted_hits (filter (\<lambda>k. contains (casefold t) (casefold k)) tokens))) (cl_lexicons m)"

definition feature_on :: "(string \<times> string list) list \<Rightarrow> string \<Rightarrow> bool" where
  "feature_on hits f \<longleftrightarrow> (case map_of hits f of None \<Rightarrow> False | Some ts \<Rightarrow> ts \<noteq> [])"

definition interaction_on :: "(string \<times> string list) list \<Rightarrow> string list \<times> rat \<Rightarrow> bool" where
  "interaction_on hits = (\<lambda>(fs, w). fs \<noteq> [] \<and> list_all (feature_on hits) fs)"

definition category_logit :: "classifier \<Rightarrow> bool \<Rightarrow> (string \<times> string list) list \<Rightarrow> category \<Rightarrow> rat" where
  "category_logit m flagged hits c =
     (let singles = filter (\<lambda>(f, w). feature_on hits f) (cg_weights c);
          joint = filter (interaction_on hits) (cg_interactions c)
      in given (cl_intercept m) (- 4) + sum_list (map snd singles) + sum_list (map snd joint) +
         (if (singles \<noteq> [] \<or> joint \<noteq> []) \<and> flagged then given (cl_flag_weight m) 0 else 0))"

definition category_score :: "(rat \<Rightarrow> rat) \<Rightarrow> classifier \<Rightarrow> bool \<Rightarrow> (string \<times> string list) list \<Rightarrow> category \<Rightarrow> rat" where
  "category_score sigmoid m flagged hits c = round3 (sigmoid (max (- 30) (min 30 (category_logit m flagged hits c))))"

definition classifier_finding ::
    "(rat \<Rightarrow> rat) \<Rightarrow> classifier \<Rightarrow> source_type \<Rightarrow> bool \<Rightarrow> string \<Rightarrow> shield_error + finding option" where
  "classifier_finding sigmoid m src flagged t =
     (let hits = lexicon_hits m t
      in case sort_key (\<lambda>(k, c). - category_score sigmoid m flagged hits c) (cl_categories m) of
           [] \<Rightarrow> Inl Shield_Crash
         | (name, c) # _ \<Rightarrow>
             (let s = category_score sigmoid m flagged hits c;
                  tokens = concat (map snd (filter (\<lambda>(f, ts). f \<in> set (map fst (cg_weights c))) hits));
                  redirected = (external_source src \<and> name = ''direct_prompt_injection'')
              in Inr (if s < cl_review m then None
                   else Some \<lparr>fd_type = (if redirected then ''indirect_prompt_injection'' else name),
                     fd_level = (if cl_high m \<le> s then given (cg_level c) Medium else Medium), fd_score = s,
                     fd_evidence = take 240 (join '', '' tokens), fd_hits = tokens,
                     fd_action = (if s < cl_high m then ''require_approval''
                        else if redirected then ''isolate'' else given (cg_action c) ''require_approval''),
                     fd_layer = ''classifier''\<rparr>)))"

section \<open>The cascade\<close>

datatype cascade_mode = Disabled | Rules_Only | Rules_Classifier | Full_Cascade

text \<open>What a reviewer proposes; a key it leaves out is \<open>None\<close>.\<close>

record proposal =
  pp_action :: "string option"
  pp_type :: "string option"
  pp_level :: "risk_level option"
  pp_score :: "rat option"
  pp_evidence :: "string option"

record cascade_result =
  cr_type :: string
  cr_level :: risk_level
  cr_score :: rat
  cr_evidence :: string
  cr_hits :: "string list"
  cr_action :: string
  cr_all :: "finding list"

text \<open>The reviewer is asked about a source, the excerpt of its text and the top finding among the findings of the
  layers; \<open>None\<close> when it raises.\<close>

type_synonym reviewer = "source_type \<Rightarrow> string \<Rightarrow> finding \<Rightarrow> finding list \<Rightarrow> proposal option"

record shield_env =
  sx_text :: text_env
  sx_find :: matcher
  sx_policy :: shield_policy
  sx_model :: classifier
  sx_sigmoid :: "rat \<Rightarrow> rat"
  sx_reviewer :: "reviewer option"

definition nothing_found :: "rat \<Rightarrow> cascade_result" where
  "nothing_found s = \<lparr>cr_type = ''none'', cr_level = Safe, cr_score = s, cr_evidence = [], cr_hits = [], cr_action = ''allow'',
     cr_all = []\<rparr>"

definition reviewable_actions :: "string list" where
  "reviewable_actions = [''allow_with_log'', ''require_approval'', ''block'', ''isolate'']"

definition apply_proposal :: "proposal \<Rightarrow> finding \<Rightarrow> finding" where
  "apply_proposal p f =
     (if \<exists>a \<in> set reviewable_actions. pp_action p = Some a
      then f\<lparr>fd_action := given (pp_action p) (fd_action f), fd_type := given (pp_type p) (fd_type f),
             fd_level := given (pp_level p) (fd_level f), fd_score := given (pp_score p) (fd_score f),
             fd_evidence := given (pp_evidence p) (fd_evidence f), fd_layer := ''review''\<rparr>
      else f)"

definition review :: "shield_env \<Rightarrow> cascade_mode \<Rightarrow> source_type \<Rightarrow> string \<Rightarrow> finding list \<Rightarrow> finding \<Rightarrow> finding" where
  "review env mode src t fs f =
     (case sx_reviewer env of
        Some ask \<Rightarrow>
          (if mode = Full_Cascade \<and> fd_action f = ''require_approval''
           then (case ask src (take 1000 t) f fs of None \<Rightarrow> f | Some p \<Rightarrow> apply_proposal p f) else f)
      | None \<Rightarrow> f)"

definition layer_findings :: "shield_env \<Rightarrow> cascade_mode \<Rightarrow> source_type \<Rightarrow> string list \<Rightarrow> string \<Rightarrow> shield_error + finding list" where
  "layer_findings env mode src flags t =
     (let rules = detect_input_risk (sx_find env) (sx_policy env) t src
      in if mode = Rules_Only then Inr rules
         else (case classifier_finding (sx_sigmoid env) (sx_model env) src (flags \<noteq> []) t of
                 Inl e \<Rightarrow> Inl e
               | Inr None \<Rightarrow> Inr rules
               | Inr (Some f) \<Rightarrow> Inr (rules @ [f])))"

definition cascade_detect ::
    "shield_env \<Rightarrow> cascade_mode \<Rightarrow> string list \<Rightarrow> string \<Rightarrow> source_type \<Rightarrow> shield_error + cascade_result" where
  "cascade_detect env mode flags t src =
     (if mode = Disabled then Inr (nothing_found 0)
      else (case layer_findings env mode src flags t of
         Inl e \<Rightarrow> Inl e
       | Inr fs \<Rightarrow>
           (case by_severity fs of
              [] \<Rightarrow> Inr (nothing_found (if cleaned t = [] then 0 else 2 / 100))
            | f # rest \<Rightarrow>
                (let top = review env mode src t fs f
                 in Inr \<lparr>cr_type = fd_type top, cr_level = fd_level top, cr_score = fd_score top,
                      cr_evidence = fd_evidence top, cr_hits = fd_hits top, cr_action = fd_action top,
                      cr_all = top # rest\<rparr>))))"

text \<open>\<open>_result_candidates\<close>\<close>

definition result_findings :: "cascade_result \<Rightarrow> finding list" where
  "result_findings r = (if cr_type r = ''none'' then [] else cr_all r)"

end
