(* ===== verification/ShieldSources.thy ===== *)
theory ShieldSources
  imports ShieldDetect
begin

text \<open>
  The joint analysis of several sources, \<^verbatim>\<open>provenance.py\<close> of \<^verbatim>\<open>research_technology/skills/promptshield-gov/src/\<close>: what
  the cascade finds in every chunk, in the text of neighbouring chunks and at the seam of neighbouring sources of
  one session becomes evidence; the most severe evidence is the verdict, for each source and for all of them, and
  everything is linked in an evidence graph. Versions and latencies of the report are not carried.
\<close>

section \<open>Evidence\<close>

record evidence =
  re_id :: string
  re_source :: string
  re_source_type :: source_type
  re_type :: string
  re_level :: risk_level
  re_score :: rat
  re_excerpt :: string
  re_hits :: "string list"
  re_layer :: string
  re_action :: string
  re_chunks :: "string list"
  re_related :: "string list"

definition stable_id :: "text_env \<Rightarrow> string list \<Rightarrow> string" where
  "stable_id env parts = take 24 (tx_sha env (join [CHR 0x1F] parts))"

definition action_for :: "finding \<Rightarrow> source_type \<Rightarrow> string" where
  "action_for f src =
     (if external_source src \<and> (fd_level f = High \<or> fd_level f = Critical) then ''isolate'' else fd_action f)"

definition adjusted_score :: "finding \<Rightarrow> envelope \<Rightarrow> string \<Rightarrow> rat" where
  "adjusted_score f s layer =
     round3 (min (99 / 100) (fd_score f + (1 - se_trust s) * (8 / 100) + (if layer = ''cross_fragment'' then 6 / 100 else 0)))"

definition make_evidence ::
    "text_env \<Rightarrow> finding \<Rightarrow> envelope \<Rightarrow> string \<Rightarrow> string list \<Rightarrow> string list \<Rightarrow> shield_error + evidence" where
  "make_evidence env f s layer chunks related =
     (let hits = sorted_hits (fd_hits f); score = adjusted_score f s layer
      in if fd_type f = [] \<or> score < 0 \<or> 1 < score then Inl Invalid_Input
         else Inr \<lparr>re_id = ''evidence:'' @ stable_id env [se_id s, fd_type f, layer, join ''|'' hits, join ''|'' chunks],
           re_source = se_id s, re_source_type = se_type s, re_type = fd_type f, re_level = fd_level f,
           re_score = score, re_excerpt = take 240 (fd_evidence f), re_hits = hits, re_layer = layer,
           re_action = action_for f (se_type s), re_chunks = chunks, re_related = related\<rparr>)"

section \<open>Collecting evidence\<close>

type_synonym signature = "string \<times> string list"

record scan =
  sn_evidence :: "evidence list"
  sn_seen :: "(string \<times> signature) list"

definition signature_of :: "finding \<Rightarrow> signature" where
  "signature_of f = (fd_type f, sorted_hits (fd_hits f))"

definition add_finding ::
    "text_env \<Rightarrow> envelope \<Rightarrow> string \<Rightarrow> string list \<Rightarrow> string list \<Rightarrow> finding \<Rightarrow> scan \<Rightarrow> shield_error + scan" where
  "add_finding env s layer chunks related f st =
     (case make_evidence env f s layer chunks related of
        Inl e \<Rightarrow> Inl e
      | Inr e \<Rightarrow> Inr (st\<lparr>sn_evidence := keyed_put re_id e (sn_evidence st)\<rparr>))"

definition findings_in ::
    "shield_env \<Rightarrow> cascade_mode \<Rightarrow> string list \<Rightarrow> string \<Rightarrow> source_type \<Rightarrow> shield_error + finding list" where
  "findings_in env mode flags t src =
     (case cascade_detect env mode flags t src of Inl e \<Rightarrow> Inl e | Inr r \<Rightarrow> Inr (result_findings r))"

definition scan_chunk ::
    "shield_env \<Rightarrow> cascade_mode \<Rightarrow> envelope \<Rightarrow> chunk \<Rightarrow> scan \<Rightarrow> shield_error + scan" where
  "scan_chunk env mode s c st =
     (case findings_in env mode (se_flags s) (ck_text c) (se_type s) of
        Inl e \<Rightarrow> Inl e
      | Inr fs \<Rightarrow>
          each_ok (\<lambda>f st. add_finding (sx_text env) s (fd_layer f) [ck_id c] [se_id s] f
              (st\<lparr>sn_seen := (se_id s, signature_of f) # sn_seen st\<rparr>)) fs st)"

text \<open>Findings of a joined text that no part has shown already.\<close>

definition add_new ::
    "text_env \<Rightarrow> string list \<Rightarrow> envelope \<Rightarrow> string list \<Rightarrow> string list \<Rightarrow> finding \<Rightarrow> scan \<Rightarrow> shield_error + scan" where
  "add_new env known s chunks related f st =
     (if \<exists>k \<in> set known. (k, signature_of f) \<in> set (sn_seen st) then Inr st
      else add_finding env s ''cross_fragment'' chunks related f st)"

definition pairwise :: "'a list \<Rightarrow> ('a \<times> 'a) list" where
  "pairwise xs = zip xs (tl xs)"

definition scan_pair ::
    "shield_env \<Rightarrow> cascade_mode \<Rightarrow> envelope \<Rightarrow> chunk \<times> chunk \<Rightarrow> scan \<Rightarrow> shield_error + scan" where
  "scan_pair env mode s p st =
     (case findings_in env mode (se_flags s) (merge_overlapping_chunks (fst p) (snd p)) (se_type s) of
        Inl e \<Rightarrow> Inl e
      | Inr fs \<Rightarrow> each_ok (add_new (sx_text env) [se_id s] s [ck_id (fst p), ck_id (snd p)] [se_id s]) fs st)"

definition last_of :: "nat \<Rightarrow> string \<Rightarrow> string" where
  "last_of n s = drop (length s - n) s"

definition same_session :: "envelope \<Rightarrow> envelope \<Rightarrow> bool" where
  "same_session a b \<longleftrightarrow> (case se_session a of None \<Rightarrow> False | Some x \<Rightarrow> x \<noteq> [] \<and> se_session b = Some x)"

definition scan_neighbours ::
    "shield_env \<Rightarrow> cascade_mode \<Rightarrow> (envelope \<times> chunk list) \<times> (envelope \<times> chunk list) \<Rightarrow> scan \<Rightarrow> shield_error + scan" where
  "scan_neighbours env mode p st =
     (let (a, as) = fst p; (b, bs) = snd p
      in if \<not> same_session a b then Inr st
         else (case findings_in env mode (sorted_hits (se_flags a @ se_flags b))
                 (last_of 800 (se_text a) @ '' '' @ take 800 (se_text b)) (se_type b) of
             Inl e \<Rightarrow> Inl e
           | Inr fs \<Rightarrow>
               each_ok (add_new (sx_text env) [se_id a, se_id b] b
                 (map ck_id (drop (length as - 1) as) @ map ck_id (take 1 bs)) [se_id a, se_id b]) fs st))"

fun chunk_sources :: "text_env \<Rightarrow> int \<Rightarrow> int \<Rightarrow> envelope list \<Rightarrow> shield_error + (envelope \<times> chunk list) list" where
  "chunk_sources env mx ov [] = Inr []"
| "chunk_sources env mx ov (s # ss) =
     (case chunk_source env s mx ov of
        Inl e \<Rightarrow> Inl e
      | Inr cs \<Rightarrow> (case chunk_sources env mx ov ss of Inl e \<Rightarrow> Inl e | Inr rest \<Rightarrow> Inr ((s, cs) # rest)))"

definition scan_sources ::
    "shield_env \<Rightarrow> cascade_mode \<Rightarrow> (envelope \<times> chunk list) list \<Rightarrow> shield_error + scan" where
  "scan_sources env mode scs =
     (case each_ok (\<lambda>(s, cs). each_ok (scan_chunk env mode s) cs) scs \<lparr>sn_evidence = [], sn_seen = []\<rparr> of
        Inl e \<Rightarrow> Inl e | Inr st \<Rightarrow>
     (case each_ok (\<lambda>(s, cs). each_ok (scan_pair env mode s) (pairwise cs)) scs st of
        Inl e \<Rightarrow> Inl e | Inr st \<Rightarrow>
       each_ok (scan_neighbours env mode) (pairwise scs) st))"

section \<open>Verdicts\<close>

record verdict =
  vt_type :: string
  vt_level :: risk_level
  vt_score :: rat
  vt_evidence :: string
  vt_hits :: "string list"
  vt_action :: string
  vt_all :: "evidence list"

text \<open>The verdict of evidence in order of severity; without any, whether there was a text.\<close>

definition verdict_of :: "bool \<Rightarrow> evidence list \<Rightarrow> verdict" where
  "verdict_of texts es =
     (case es of
        [] \<Rightarrow> \<lparr>vt_type = ''none'', vt_level = Safe, vt_score = (if texts then 2 / 100 else 0), vt_evidence = [],
                vt_hits = [], vt_action = ''allow'', vt_all = []\<rparr>
      | e # _ \<Rightarrow> \<lparr>vt_type = re_type e, vt_level = re_level e, vt_score = re_score e, vt_evidence = re_excerpt e,
                vt_hits = re_hits e, vt_action = re_action e, vt_all = es\<rparr>)"

definition aggregate_score :: "evidence list \<Rightarrow> rat \<Rightarrow> rat" where
  "aggregate_score es best =
     round3 (min (99 / 100) (best + (min (10 / 100) (of_nat (card (set (map re_source es)) - 1) * (3 / 100)) +
       (if list_ex (\<lambda>e. re_layer e = ''cross_fragment'') es then 4 / 100 else 0))))"

definition overall_verdict :: "envelope list \<Rightarrow> evidence list \<Rightarrow> verdict" where
  "overall_verdict sources es =
     (let v = verdict_of (list_ex (\<lambda>s. se_text s \<noteq> []) sources) es
      in if es = [] then v else v\<lparr>vt_score := aggregate_score es (vt_score v)\<rparr>)"

section \<open>The evidence graph\<close>

datatype shield_node = Source_Node envelope | Chunk_Node chunk | Evidence_Node evidence

fun shield_node_id :: "shield_node \<Rightarrow> string" where
  "shield_node_id (Source_Node s) = se_id s"
| "shield_node_id (Chunk_Node c) = ck_id c"
| "shield_node_id (Evidence_Node e) = re_id e"

definition source_nodes :: "envelope \<times> chunk list \<Rightarrow> shield_node list" where
  "source_nodes = (\<lambda>(s, cs). Source_Node s # map Chunk_Node cs)"

definition source_edges :: "envelope \<times> chunk list \<Rightarrow> (string \<times> string \<times> string) list" where
  "source_edges = (\<lambda>(s, cs).
     (case se_parent s of None \<Rightarrow> [] | Some p \<Rightarrow> if p = [] then [] else [(p, se_id s, ''derived_from'')]) @
     map (\<lambda>c. (se_id s, ck_id c, ''contains'')) cs)"

definition session_edges :: "envelope list \<Rightarrow> (string \<times> string \<times> string) list" where
  "session_edges ss =
     map (\<lambda>(a, b). (se_id a, se_id b, ''same_session_next'')) (filter (\<lambda>(a, b). same_session a b) (pairwise ss))"

definition evidence_edges :: "evidence \<Rightarrow> (string \<times> string \<times> string) list" where
  "evidence_edges e =
     map (\<lambda>c. (c, re_id e, ''supports'')) (re_chunks e) @
     map (\<lambda>s. (s, re_id e, ''correlates'')) (filter (\<lambda>s. s \<noteq> re_source e) (re_related e))"

section \<open>The analysis\<close>

record analysis =
  an_source :: "source_type option"
  an_verdict :: verdict
  an_decisions :: "(string \<times> verdict) list"
  an_chunks :: nat
  an_layers :: "(string \<times> nat) list"
  an_nodes :: "shield_node list"
  an_edges :: "(string \<times> string \<times> string) list"

definition layer_counts :: "evidence list \<Rightarrow> (string \<times> nat) list" where
  "layer_counts es = map (\<lambda>l. (l, count_list (map re_layer es) l)) (rev (remdups (rev (map re_layer es))))"

definition report :: "(envelope \<times> chunk list) list \<Rightarrow> evidence list \<Rightarrow> analysis" where
  "report scs found =
     (let sources = map fst scs; es = severity_sort re_level re_score found
      in \<lparr>an_source = (case sources of [s] \<Rightarrow> Some (se_type s) | _ \<Rightarrow> None), an_verdict = overall_verdict sources es,
          an_decisions = map (\<lambda>s. (se_id s, verdict_of (se_text s \<noteq> []) (filter (\<lambda>e. re_source e = se_id s) es))) sources,
          an_chunks = sum_list (map (length \<circ> snd) scs), an_layers = layer_counts es,
          an_nodes = concat (map source_nodes scs) @ map Evidence_Node found,
          an_edges = concat (map source_edges scs) @ session_edges sources @ concat (map evidence_edges found)\<rparr>)"

definition analyze_sources ::
    "shield_env \<Rightarrow> cascade_mode \<Rightarrow> int \<Rightarrow> int \<Rightarrow> envelope list \<Rightarrow> shield_error + analysis" where
  "analyze_sources env mode mx ov sources =
     (if sources = [] \<or> \<not> distinct (map se_id sources) then Inl Invalid_Input
      else (case chunk_sources (sx_text env) mx ov sources of Inl e \<Rightarrow> Inl e | Inr scs \<Rightarrow>
           (case scan_sources env mode scs of Inl e \<Rightarrow> Inl e | Inr st \<Rightarrow> Inr (report scs (sn_evidence st)))))"

text \<open>The entry points, with the default sizes of chunks and overlaps.\<close>

definition text_or :: "string option \<Rightarrow> string \<Rightarrow> string" where
  "text_or v d = (case v of None \<Rightarrow> d | Some t \<Rightarrow> if t = [] then d else t)"

definition primary_source ::
    "text_env \<Rightarrow> string \<Rightarrow> source_type \<Rightarrow> string option \<Rightarrow> string option \<Rightarrow> rat option \<Rightarrow> shield_error + envelope" where
  "primary_source env t src origin session trust =
     (if src = User_Input then adapt_user_input env t (text_or origin ''anonymous'') session
      else adapt_text_source env t src (text_or origin (''inline:'' @ source_value src)) session trust)"

definition analyze_text_input ::
    "shield_env \<Rightarrow> string \<Rightarrow> source_type \<Rightarrow> string option \<Rightarrow> string option \<Rightarrow> rat option \<Rightarrow> cascade_mode \<Rightarrow>
     shield_error + analysis" where
  "analyze_text_input env t src origin session trust mode =
     (case primary_source (sx_text env) t src origin session trust of
        Inl e \<Rightarrow> Inl e | Inr s \<Rightarrow> analyze_sources env mode 2000 200 [s])"

record text_item =
  ti_text :: string
  ti_source :: source_type
  ti_origin :: "string option"
  ti_trust :: "rat option"

definition valid_item :: "text_item \<Rightarrow> bool" where
  "valid_item i \<longleftrightarrow> length (ti_text i) \<le> 1000000 \<and> opt_len 2048 (ti_origin i) \<and>
     (case ti_trust i of None \<Rightarrow> True | Some t \<Rightarrow> 0 \<le> t \<and> t \<le> 1)"

definition bundle_source :: "text_env \<Rightarrow> string option \<Rightarrow> nat \<times> text_item \<Rightarrow> shield_error + envelope" where
  "bundle_source env session = (\<lambda>(n, i).
     if \<not> valid_item i then Inl Invalid_Input
     else if ti_source i = User_Input
       then adapt_user_input env (ti_text i) (text_or (ti_origin i) (''bundle-user:'' @ show_nat n)) session
     else adapt_text_source env (ti_text i) (ti_source i)
       (text_or (ti_origin i) (''bundle:'' @ source_value (ti_source i) @ '':'' @ show_nat n)) session (ti_trust i))"

definition analyze_input_bundle ::
    "shield_env \<Rightarrow> string \<Rightarrow> source_type \<Rightarrow> string option \<Rightarrow> string option \<Rightarrow> rat option \<Rightarrow> cascade_mode \<Rightarrow>
     text_item list \<Rightarrow> shield_error + analysis" where
  "analyze_input_bundle env t src origin session trust mode items =
     (if 16 < length items then Inl Invalid_Input
      else (case primary_source (sx_text env) t src origin session trust of Inl e \<Rightarrow> Inl e | Inr s \<Rightarrow>
           (case each_ok (\<lambda>i ss. case bundle_source (sx_text env) session i of Inl e \<Rightarrow> Inl e | Inr x \<Rightarrow> Inr (ss @ [x]))
                   (enumerate 1 items) [s] of
              Inl e \<Rightarrow> Inl e | Inr sources \<Rightarrow> analyze_sources env mode 2000 200 sources)))"

end
