(* ===== verification/ShieldFacts.thy ===== *)
theory ShieldFacts
  imports ShieldSources
begin

text \<open>
  What the steps of the input analysis do: chunks cover the text and overlap, cleaning and case folding keep the
  words a rule looks for, the cascade loses no finding, and what collected evidence is made of.
\<close>

section \<open>Chunks\<close>

lemma chunk_spans_step:
  assumes "0 < mx" "start < length s"
  defines "e \<equiv> chunk_end s mx start"
  shows "chunk_spans s mx ov start =
    (start, e) # (if length s \<le> e then [] else chunk_spans s mx ov (if start < e - ov then e - ov else e))"
  using assms by (subst chunk_spans.simps) (simp add: Let_def)

lemma chunk_spans_end: "length s \<le> start \<Longrightarrow> chunk_spans s mx ov start = []"
  by (simp add: chunk_spans.simps)

lemma chunk_spans_bounds:
  "(a, b) \<in> set (chunk_spans s mx ov start) \<Longrightarrow> start \<le> a \<and> a < b \<and> b \<le> length s \<and> b \<le> a + mx"
proof (induction s mx ov start rule: chunk_spans.induct)
  case (1 s mx ov start)
  have run: "0 < mx" "start < length s" using 1(2) by (auto simp: chunk_spans.simps split: if_splits)
  define e where "e = chunk_end s mx start"
  define m where "m = (if start < e - ov then e - ov else e)"
  have e: "start < e" "e \<le> length s" "e \<le> start + mx" using chunk_end_bounds[OF run] by (simp_all add: e_def)
  then have m: "start \<le> m" by (simp add: m_def)
  have "chunk_spans s mx ov start = (start, e) # (if length s \<le> e then [] else chunk_spans s mx ov m)"
    using chunk_spans_step[OF run] by (simp add: e_def m_def)
  then consider "(a, b) = (start, e)" | "\<not> length s \<le> e" "(a, b) \<in> set (chunk_spans s mx ov m)"
    using 1(2) by (auto split: if_splits)
  then show ?case
  proof cases
    case 1
    then show ?thesis using e by simp
  next
    case 2
    then have "m \<le> a \<and> a < b \<and> b \<le> length s \<and> b \<le> a + mx" using "1.IH"[OF _ e_def] run by (simp add: m_def)
    then show ?thesis using m by linarith
  qed
qed

text \<open>A chunk that is not the last one is longer than half of the maximum, so the next one starts inside of it.\<close>

lemma chunk_end_half:
  assumes "0 < mx" "start < length s" "chunk_end s mx start < length s"
  shows "start + mx div 2 < chunk_end s mx start"
proof -
  define h where "h = min (length s) (start + mx)"
  have "chunk_end s mx start = (if h < length s
      then (case boundary s (start + mx div 2) h of None \<Rightarrow> h | Some b \<Rightarrow> if start < b then b + 1 else h) else h)"
    by (simp only: chunk_end_def Let_def h_def)
  moreover have "h = start + mx \<or> h = length s" by (auto simp: h_def)
  ultimately show ?thesis using boundary_bounds[of s "start + mx div 2" h] assms(1,3)
    by (auto split: option.splits if_splits)
qed

text \<open>Every window of the text that the overlap can hold lies in one chunk.\<close>

lemma chunk_spans_window:
  assumes "2 * ov \<le> mx" "0 < mx" "0 < n" "n \<le> ov + 1" "p + n \<le> length s" "start \<le> p"
  shows "\<exists>(a, b) \<in> set (chunk_spans s mx ov start). a \<le> p \<and> p + n \<le> b"
  using assms
proof (induction s mx ov start rule: chunk_spans.induct)
  case (1 s mx ov start)
  have start: "start < length s" using 1 by linarith
  define e where "e = chunk_end s mx start"
  show ?case
  proof (cases "p + n \<le> e")
    case True
    then show ?thesis using 1 start by (simp add: chunk_spans_step e_def)
  next
    case False
    then have e: "e < length s" using 1 by linarith
    then have half: "start + mx div 2 < e" using chunk_end_half[of mx start s] 1(3) start by (simp add: e_def)
    have ov: "start < e - ov" "e - ov \<le> p" using half 1(2,5) False by linarith+
    have "\<exists>(a, b) \<in> set (chunk_spans s mx ov (e - ov)). a \<le> p \<and> p + n \<le> b"
      using 1(1)[of e] 1(2-7) start e ov by (auto simp: e_def)
    then show ?thesis using 1(3) start e ov(1) by (auto simp: chunk_spans_step e_def)
  qed
qed

text \<open>Neighbouring chunks overlap, and the text of the two together is the text they span.\<close>

lemma chunk_spans_hd: "0 < mx \<Longrightarrow> start < length s \<Longrightarrow> chunk_spans s mx ov start \<noteq> [] \<and> hd (chunk_spans s mx ov start) = (start, chunk_end s mx start)"
  by (simp add: chunk_spans_step)

lemma chunk_spans_neighbours:
  assumes "2 * ov \<le> mx" "0 < mx" "((a, b), (a', b')) \<in> set (pairwise (chunk_spans s mx ov start))"
  shows "a < a' \<and> a' + ov = b \<and> b < b'"
  using assms
proof (induction s mx ov start rule: chunk_spans.induct)
  case (1 s mx ov start)
  show ?case
  proof (cases "start < length s \<and> chunk_end s mx start < length s")
    case False
    then have "chunk_spans s mx ov start = [] \<or> (\<exists>x. chunk_spans s mx ov start = [x])"
      using 1(3) by (cases "start < length s") (simp_all add: chunk_spans_step chunk_spans_end)
    then show ?thesis using 1(4) by (auto simp: pairwise_def)
  next
    case True
    define e where "e = chunk_end s mx start"
    have e: "e < length s" "start + mx div 2 < e" using True chunk_end_half[OF 1(3)] by (simp_all add: e_def)
    define m where "m = e - ov"
    have m: "start < m" "m + ov = e" using e 1(2) by (auto simp: m_def)
    have step: "chunk_spans s mx ov start = (start, e) # chunk_spans s mx ov m"
      using chunk_spans_step[of mx start s ov] 1(3) True m by (simp add: e_def m_def)
    have h: "chunk_spans s mx ov m \<noteq> []" "hd (chunk_spans s mx ov m) = (m, chunk_end s mx m)"
      using chunk_spans_hd[of mx m s ov] 1(3) e m by simp_all
    have next_end: "e < chunk_end s mx m"
    proof (cases "chunk_end s mx m < length s")
      case True
      then show ?thesis using chunk_end_half[of mx m s] 1(2,3) e m by simp
    next
      case False
      then show ?thesis using e by simp
    qed
    have "((a, b), (a', b')) = ((start, e), (m, chunk_end s mx m)) \<or>
        ((a, b), (a', b')) \<in> set (pairwise (chunk_spans s mx ov m))"
      using 1(4) h unfolding step pairwise_def by (cases "chunk_spans s mx ov m") auto
    then show ?thesis
    proof
      assume "((a, b), (a', b')) \<in> set (pairwise (chunk_spans s mx ov m))"
      then show ?thesis using "1.IH"[OF _ e_def] 1(2,3) True m e by (simp add: m_def)
    qed (use m next_end in simp)
  qed
qed

lemma span_text_merge:
  assumes "a \<le> a'" "a' \<le> b" "b \<le> b'" "b' \<le> length s"
  shows "span_text s (a, b) @ drop (b - a') (span_text s (a', b')) = span_text s (a, b')"
proof -
  have "drop (b - a') (span_text s (a', b')) = take (b' - b) (drop b s)"
    using assms by (simp add: span_text_def drop_take)
  moreover have "span_text s (a, b') = take (b - a) (drop a s) @ take (b' - b) (drop b s)"
    using assms take_add[of "b - a" "b' - b" "drop a s"] by (simp add: span_text_def)
  ultimately show ?thesis by (simp add: span_text_def)
qed

section \<open>Cleaned texts\<close>

lemma words_not_empty: "w \<in> set (words s) \<Longrightarrow> w \<noteq> []"
proof (induction s arbitrary: w)
  case (Cons c s)
  then show ?case by (cases "words s") (auto split: if_splits)
qed simp

lemma cleaned_Nil_iff: "cleaned s = [] \<longleftrightarrow> words s = []"
proof (cases "words s")
  case (Cons w ws)
  then have "w \<noteq> []" using words_not_empty[of w s] by simp
  then show ?thesis using Cons by (cases ws) (simp_all add: cleaned_def)
qed (simp add: cleaned_def)

lemma words_word: "s \<noteq> [] \<Longrightarrow> \<not> is_space (hd s) \<Longrightarrow> words s \<noteq> []"
  by (cases s) (auto split: list.splits)

lemma join_Cons_head: "join sep ((c # w) # ws) = c # join sep (w # ws)"
  by (cases ws) simp_all

lemma cleaned_Cons:
  "cleaned (c # s) =
     (if is_space c then cleaned s
      else if s = [] \<or> is_space (hd s) then (if cleaned s = [] then [c] else c # CHR '' '' # cleaned s)
      else c # cleaned s)"
proof (cases "words s")
  case Nil
  then show ?thesis using words_word[of s] by (auto simp: cleaned_def)
next
  case (Cons w ws)
  then have "cleaned s \<noteq> []" by (simp add: cleaned_Nil_iff)
  then show ?thesis using Cons by (auto simp: cleaned_def join_Cons_head)
qed

lemma cleaned_Nil [simp]: "cleaned [] = []"
  by (simp add: cleaned_def)

lemma cleaned_suffix: "suffix (cleaned s) (cleaned (u @ s))"
proof (induction u)
  case (Cons c u)
  have "suffix (cleaned (u @ s)) (cleaned (c # u @ s))" by (auto simp: cleaned_Cons suffix_Cons)
  then show ?case using Cons suffix_order.trans by auto
qed simp

lemma cleaned_length: "length (cleaned s) \<le> length s \<and> (s \<noteq> [] \<and> is_space (hd s) \<longrightarrow> length (cleaned s) < length s)"
  by (induction s) (auto simp: cleaned_Cons)

lemma cleaned_fixed_Cons: "cleaned (c # s) = c # s \<Longrightarrow> \<not> is_space c"
  using cleaned_length[of "c # s"] by auto

lemma cleaned_prefix: "cleaned w = w \<Longrightarrow> w \<noteq> [] \<Longrightarrow> prefix w (cleaned (w @ v))"
proof (induction w rule: length_induct)
  case (1 w)
  then obtain c s where w: "w = c # s" by (cases w) auto
  have c: "\<not> is_space c" using 1(2) w cleaned_fixed_Cons by blast
  show ?case
  proof (cases "s = [] \<or> is_space (hd s)")
    case False
    then have "cleaned s = s" "cleaned (w @ v) = c # cleaned (s @ v)" using 1(2) w c by (auto simp: cleaned_Cons)
    then show ?thesis using 1(1) w False by simp
  next
    case True
    show ?thesis
    proof (cases "s = []")
      case True
      then show ?thesis using w c by (simp add: cleaned_Cons)
    next
      case False
      then have s: "s = CHR '' '' # cleaned s" using 1(2) w c \<open>s = [] \<or> is_space (hd s)\<close>
        by (auto simp: cleaned_Cons split: if_splits)
      define r where "r = cleaned s"
      have r: "s = CHR '' '' # r" using s by (simp add: r_def)
      have "cleaned s = cleaned r" unfolding r by (simp add: cleaned_Cons is_space_def)
      then have "cleaned r = r" by (simp add: r_def)
      moreover have "r \<noteq> []" using 1(2) w c r False by (auto simp: cleaned_Cons is_space_def split: if_splits)
      ultimately have p: "prefix r (cleaned (r @ v))" using 1(1) w r by simp
      moreover have "cleaned (w @ v) = c # CHR '' '' # cleaned (r @ v)"
        using w c r p \<open>r \<noteq> []\<close> by (auto simp: cleaned_Cons is_space_def)
      ultimately show ?thesis using w r by simp
    qed
  qed
qed

text \<open>What a rule looks for is still found in the cleaned text.\<close>

lemma cleaned_sublist: "sublist w t \<Longrightarrow> cleaned w = w \<Longrightarrow> sublist w (cleaned t)"
proof (cases "w = []")
  case False
  assume w: "sublist w t" "cleaned w = w"
  then obtain u v where t: "t = u @ w @ v" by (auto simp: sublist_def)
  have "prefix w (cleaned (w @ v))" using cleaned_prefix w False by blast
  moreover have "suffix (cleaned (w @ v)) (cleaned t)" unfolding t by (rule cleaned_suffix)
  ultimately show ?thesis by (auto simp: sublist_def prefix_def suffix_def) (metis append_assoc)
qed simp

lemma is_space_lower [simp]: "is_space (char_lower c) = is_space c"
proof (cases "is_upper c")
  case True
  then have n: "of_char (char_lower c) \<in> {97..122::nat}" "of_char c \<in> {65..90::nat}"
    by (auto simp: of_char_lower) (auto simp: is_upper_def less_eq_char_def)
  have "is_space x \<Longrightarrow> of_char x \<le> (32::nat)" for x by (auto simp: is_space_def)
  then show ?thesis using n by fastforce
qed (simp add: char_lower_def)

lemma cleaned_casefold: "cleaned (casefold s) = casefold (cleaned s)"
proof (induction s)
  case (Cons c s)
  have "char_lower (CHR '' '') = CHR '' ''" by (simp add: char_lower_def is_upper_def)
  moreover have "s \<noteq> [] \<Longrightarrow> is_space (hd (casefold s)) = is_space (hd s)" by (cases s) (simp_all add: casefold_def)
  ultimately show ?case using Cons by (auto simp: casefold_def cleaned_Cons)
qed (simp add: casefold_def)

lemma keyword_in_cleaned:
  assumes "contains (casefold t) (casefold k)" "cleaned k = k"
  shows "contains (casefold (cleaned t)) (casefold k)"
proof -
  have "cleaned (casefold k) = casefold k" using assms(2) by (simp add: cleaned_casefold)
  then show ?thesis using assms(1) cleaned_sublist unfolding contains_iff_sublist cleaned_casefold[symmetric] by blast
qed

lemma casefold_sublistD:
  assumes "contains (casefold t) (casefold k)"
  obtains w where "sublist w t" "casefold w = casefold k" "length w = length k"
proof -
  obtain u v where "map char_lower t = u @ casefold k @ v"
    using assms by (auto simp: contains_iff_sublist sublist_def casefold_def)
  then obtain u' r where r: "t = u' @ r" "map char_lower r = casefold k @ v" by (metis map_eq_append_conv)
  then obtain w v' where "r = w @ v'" "map char_lower w = casefold k" by (metis map_eq_append_conv)
  then have "t = u' @ w @ v'" "map char_lower w = casefold k" using r by simp_all
  moreover from this(2) have "length w = length k" by (metis casefold_def length_map)
  ultimately show thesis using that by (auto simp: sublist_def casefold_def)
qed

section \<open>Findings\<close>

lemma set_severity_sort [simp]: "set (severity_sort level score xs) = set xs"
  by (simp add: severity_sort_def)

lemma severity_sort_empty [simp]: "severity_sort level score [] = []"
  by (simp add: severity_sort_def)

lemma severity_sort_Nil [simp]: "severity_sort level score xs = [] \<longleftrightarrow> xs = []"
  by (metis set_empty set_severity_sort)

lemma severity_sort_head:
  assumes "severity_sort level score xs = y # ys" "x \<in> set xs"
  shows "level x \<le> level y"
proof -
  have "sorted (map (\<lambda>x. - int (risk_rank (level x))) (severity_sort level score xs))" by (simp add: severity_sort_def)
  then have "sorted (map (\<lambda>x. - int (risk_rank (level x))) (y # ys))" unfolding assms(1) .
  moreover have "x \<in> set (y # ys)" using assms by (metis set_severity_sort)
  ultimately show ?thesis by (auto simp: less_eq_risk_level_def)
qed

text \<open>The actions and levels of a policy and a model that let nothing they recognise pass unseen.\<close>

definition strict_policy :: "shield_env \<Rightarrow> bool" where
  "strict_policy env \<longleftrightarrow>
     (\<forall>(n, g) \<in> set (rule_groups (sx_policy env)).
        given (rg_action g) ''require_approval'' \<noteq> ''allow'' \<and> Medium \<le> given (rg_level g) Medium) \<and>
     (\<forall>(n, c) \<in> set (cl_categories (sx_model env)). n \<noteq> ''none'' \<and>
        given (cg_action c) ''require_approval'' \<noteq> ''allow'' \<and> Medium \<le> given (cg_level c) Medium)"

definition strict_finding :: "finding \<Rightarrow> bool" where
  "strict_finding f \<longleftrightarrow> fd_type f \<noteq> ''none'' \<and> fd_action f \<noteq> ''allow'' \<and> Medium \<le> fd_level f"

text \<open>No reviewer answers: there is none, it is not asked, or it raises.\<close>

definition unreviewed :: "shield_env \<Rightarrow> cascade_mode \<Rightarrow> bool" where
  "unreviewed env mode \<longleftrightarrow>
     mode \<noteq> Full_Cascade \<or> (\<forall>ask. sx_reviewer env = Some ask \<longrightarrow> (\<forall>src t f fs. ask src t f fs = None))"

lemma review_unreviewed: "unreviewed env mode \<Longrightarrow> review env mode src t fs f = f"
  by (auto simp: review_def unreviewed_def split: option.splits)

lemma rule_names: "(n, g) \<in> set (rule_groups p) \<Longrightarrow> n \<noteq> ''none''"
  by (auto simp: rule_groups_def)

lemma rule_finding_strict:
  assumes "(n, g) \<in> set (rule_groups (sx_policy env))" "strict_policy env"
    "rule_finding find_in (sx_policy env) src t (n, g) = Some f"
  shows "strict_finding f"
  using assms rule_names[OF assms(1)]
  by (fastforce simp: rule_finding_def strict_policy_def strict_finding_def Let_def split: list.splits if_splits)

lemma detect_strict: "strict_policy env \<Longrightarrow> f \<in> set (detect_input_risk m (sx_policy env) t src) \<Longrightarrow> strict_finding f"
  using rule_finding_strict by (fastforce simp: detect_input_risk_def by_severity_def map_filter_def)

lemma classifier_strict:
  assumes "strict_policy env" "classifier_finding sg (sx_model env) src flagged t = Inr (Some f)"
  shows "strict_finding f"
proof -
  let ?key = "\<lambda>(k, c). - category_score sg (sx_model env) flagged (lexicon_hits (sx_model env) t) c"
  obtain n c rest where top: "sort_key ?key (cl_categories (sx_model env)) = (n, c) # rest"
    using assms(2) unfolding classifier_finding_def Let_def
    by (cases "sort_key ?key (cl_categories (sx_model env))") auto
  then have "(n, c) \<in> set (cl_categories (sx_model env))" by (metis list.set_intros(1) set_sort)
  then have "n \<noteq> ''none''" "given (cg_action c) ''require_approval'' \<noteq> ''allow''" "Medium \<le> given (cg_level c) Medium"
    using assms(1) by (auto simp: strict_policy_def)
  then show ?thesis using assms(2) top
    by (auto simp: classifier_finding_def Let_def strict_finding_def split: if_splits)
qed

lemma layer_strict:
  assumes "strict_policy env" "layer_findings env mode src flags t = Inr fs" "f \<in> set fs"
  shows "strict_finding f"
  using assms detect_strict classifier_strict
  by (fastforce simp: layer_findings_def Let_def split: if_splits sum.splits option.splits)

lemma layer_rules:
  "layer_findings env mode src flags t = Inr fs \<Longrightarrow> set (detect_input_risk (sx_find env) (sx_policy env) t src) \<subseteq> set fs"
  by (auto simp: layer_findings_def Let_def split: if_splits sum.splits option.splits)

lemma findings_in_unreviewed:
  assumes "strict_policy env" "unreviewed env mode" "findings_in env mode flags t src = Inr fs"
  shows "(\<forall>f \<in> set fs. strict_finding f) \<and>
    (mode \<noteq> Disabled \<longrightarrow> set (detect_input_risk (sx_find env) (sx_policy env) t src) \<subseteq> set fs)"
proof (cases "mode = Disabled")
  case True
  then show ?thesis using assms(3) by (auto simp: findings_in_def cascade_detect_def nothing_found_def result_findings_def)
next
  case False
  then obtain ls where ls: "layer_findings env mode src flags t = Inr ls"
    using assms(3) by (auto simp: findings_in_def cascade_detect_def split: sum.splits)
  have strict: "f \<in> set ls \<Longrightarrow> strict_finding f" for f using layer_strict[OF assms(1) ls] .
  have "set fs = set ls"
  proof (cases "by_severity ls")
    case Nil
    then have "fs = []" using assms(3) False ls
      by (simp add: findings_in_def cascade_detect_def nothing_found_def result_findings_def)
    moreover have "ls = []" using Nil by (simp add: by_severity_def)
    ultimately show ?thesis by simp
  next
    case (Cons f rest)
    then have "f \<in> set ls" by (metis by_severity_def list.set_intros(1) set_severity_sort)
    then have "fd_type f \<noteq> ''none''" using strict by (simp add: strict_finding_def)
    then have "fs = f # rest" using assms(3) False ls Cons review_unreviewed[OF assms(2)]
      by (simp add: findings_in_def cascade_detect_def result_findings_def Let_def)
    then show ?thesis using Cons by (metis by_severity_def set_severity_sort)
  qed
  then show ?thesis using strict layer_rules[OF ls] by auto
qed

lemma keyword_detected:
  assumes "(n, g) \<in> set (rule_groups p)" "k \<in> set (rg_keywords g)" "contains (casefold t) (casefold k)" "cleaned k = k"
  shows "detect_input_risk m p t src \<noteq> []"
proof -
  have "k \<in> set (group_hits m g (cleaned t))"
    using assms keyword_in_cleaned by (simp add: group_hits_def)
  then obtain f where "rule_finding m p src (cleaned t) (n, g) = Some f"
    by (cases "group_hits m g (cleaned t)") (auto simp: rule_finding_def Let_def)
  then have "f \<in> set (List.map_filter (rule_finding m p src (cleaned t)) (rule_groups p))"
    using assms(1) by (force simp: map_filter_def)
  then show ?thesis by (auto simp: detect_input_risk_def by_severity_def)
qed

section \<open>Evidence\<close>

text \<open>Where a piece of evidence comes from: a finding of the cascade in some text, for a source under analysis.\<close>

definition evidence_made :: "shield_env \<Rightarrow> cascade_mode \<Rightarrow> (envelope \<times> chunk list) list \<Rightarrow> evidence \<Rightarrow> bool" where
  "evidence_made env mode scs e \<longleftrightarrow>
     (\<exists>s \<in> fst ` set scs. \<exists>flags t fs f layer chunks related.
        findings_in env mode flags t (se_type s) = Inr fs \<and> f \<in> set fs \<and>
        make_evidence (sx_text env) f s layer chunks related = Inr e \<and>
        set chunks \<subseteq> ck_id ` \<Union> (set ` snd ` set scs) \<and> set related \<subseteq> se_id ` fst ` set scs)"

definition all_made :: "shield_env \<Rightarrow> cascade_mode \<Rightarrow> (envelope \<times> chunk list) list \<Rightarrow> scan \<Rightarrow> bool" where
  "all_made env mode scs st \<longleftrightarrow> (\<forall>e \<in> set (sn_evidence st). evidence_made env mode scs e)"

lemma add_finding_cases:
  assumes "add_finding env s layer chunks related f st = Inr st'"
  obtains e where "make_evidence env f s layer chunks related = Inr e"
    "st' = st\<lparr>sn_evidence := keyed_put re_id e (sn_evidence st)\<rparr>"
  using assms by (auto simp: add_finding_def split: sum.splits)

lemma add_finding_made:
  assumes "add_finding (sx_text env) s layer chunks related f st = Inr st'" "all_made env mode scs st"
    and "s \<in> fst ` set scs" "findings_in env mode flags t (se_type s) = Inr fs" "f \<in> set fs"
    and "set chunks \<subseteq> ck_id ` \<Union> (set ` snd ` set scs)" "set related \<subseteq> se_id ` fst ` set scs"
  shows "all_made env mode scs st'"
proof (rule add_finding_cases[OF assms(1)])
  fix e
  assume e: "make_evidence (sx_text env) f s layer chunks related = Inr e"
    "st' = st\<lparr>sn_evidence := keyed_put re_id e (sn_evidence st)\<rparr>"
  have "evidence_made env mode scs e" unfolding evidence_made_def using assms(3-7) e(1) by blast
  then show ?thesis using assms(2) e(2) keyed_put_from[of re_id e "sn_evidence st"] by (auto simp: all_made_def)
qed

lemma add_new_made:
  assumes "add_new (sx_text env) known s chunks related f st = Inr st'" "all_made env mode scs st"
    and "s \<in> fst ` set scs" "findings_in env mode flags t (se_type s) = Inr fs" "f \<in> set fs"
    and "set chunks \<subseteq> ck_id ` \<Union> (set ` snd ` set scs)" "set related \<subseteq> se_id ` fst ` set scs"
  shows "all_made env mode scs st'"
  using assms add_finding_made[OF _ assms(2-7)] by (auto simp: add_new_def split: if_splits)

lemma scan_chunk_made:
  assumes "scan_chunk env mode s c st = Inr st'" "all_made env mode scs st" "(s, cs) \<in> set scs" "c \<in> set cs"
  shows "all_made env mode scs st'"
proof -
  obtain fs where fs: "findings_in env mode (se_flags s) (ck_text c) (se_type s) = Inr fs"
    and run: "each_ok (\<lambda>f st. add_finding (sx_text env) s (fd_layer f) [ck_id c] [se_id s] f
        (st\<lparr>sn_seen := (se_id s, signature_of f) # sn_seen st\<rparr>)) fs st = Inr st'"
    using assms(1) by (auto simp: scan_chunk_def split: sum.splits)
  have s: "s \<in> fst ` set scs" "set [ck_id c] \<subseteq> ck_id ` \<Union> (set ` snd ` set scs)" "set [se_id s] \<subseteq> se_id ` fst ` set scs"
    using assms(3,4) by force+
  show ?thesis
    by (rule each_ok_keeps[OF run, where P = "all_made env mode scs"])
      (use assms(2) add_finding_made[OF _ _ s(1) fs _ s(2,3)] in \<open>auto simp: all_made_def\<close>)
qed

lemma pairwise_iff: "p \<in> set (pairwise xs) \<longleftrightarrow> (\<exists>n. Suc n < length xs \<and> p = (xs ! n, xs ! Suc n))"
proof
  assume "p \<in> set (pairwise xs)"
  then obtain n where "n < length (tl xs)" "p = (xs ! n, tl xs ! n)" by (auto simp: pairwise_def set_zip)
  then have "Suc n < length xs \<and> p = (xs ! n, xs ! Suc n)" by (simp add: nth_tl)
  then show "\<exists>n. Suc n < length xs \<and> p = (xs ! n, xs ! Suc n)" by blast
next
  assume "\<exists>n. Suc n < length xs \<and> p = (xs ! n, xs ! Suc n)"
  then obtain n where "Suc n < length xs" "p = (xs ! n, xs ! Suc n)" by blast
  then have "n < length (tl xs)" "p = (xs ! n, tl xs ! n)" by (simp_all add: nth_tl)
  then show "p \<in> set (pairwise xs)" by (force simp: pairwise_def set_zip)
qed

lemma pairwise_in: "(x, y) \<in> set (pairwise xs) \<Longrightarrow> x \<in> set xs \<and> y \<in> set xs"
  by (cases xs) (auto simp: pairwise_def dest: set_zip_leftD set_zip_rightD)

lemma scan_pair_made:
  assumes "scan_pair env mode s (l, r) st = Inr st'" "all_made env mode scs st" "(s, cs) \<in> set scs" "(l, r) \<in> set (pairwise cs)"
  shows "all_made env mode scs st'"
proof -
  obtain fs where fs: "findings_in env mode (se_flags s) (merge_overlapping_chunks l r) (se_type s) = Inr fs"
    and run: "each_ok (add_new (sx_text env) [se_id s] s [ck_id l, ck_id r] [se_id s]) fs st = Inr st'"
    using assms(1) by (auto simp: scan_pair_def split: sum.splits)
  have s: "s \<in> fst ` set scs" "set [ck_id l, ck_id r] \<subseteq> ck_id ` \<Union> (set ` snd ` set scs)"
    "set [se_id s] \<subseteq> se_id ` fst ` set scs"
    using assms(3) pairwise_in[OF assms(4)] by force+
  show ?thesis
    by (rule each_ok_keeps[OF run, where P = "all_made env mode scs"])
      (use assms(2) add_new_made[OF _ _ s(1) fs _ s(2,3)] in auto)
qed

lemma scan_neighbours_made:
  assumes "scan_neighbours env mode ((a, as), (b, bs)) st = Inr st'" "all_made env mode scs st"
    "((a, as), (b, bs)) \<in> set (pairwise scs)"
  shows "all_made env mode scs st'"
proof (cases "same_session a b")
  case False
  then show ?thesis using assms(1,2) by (simp add: scan_neighbours_def)
next
  case True
  let ?flags = "sorted_hits (se_flags a @ se_flags b)" and ?t = "last_of 800 (se_text a) @ '' '' @ take 800 (se_text b)"
  let ?chunks = "map ck_id (drop (length as - 1) as) @ map ck_id (take 1 bs)"
  obtain fs where fs: "findings_in env mode ?flags ?t (se_type b) = Inr fs"
    and run: "each_ok (add_new (sx_text env) [se_id a, se_id b] b ?chunks [se_id a, se_id b]) fs st = Inr st'"
    using assms(1) True by (auto simp: scan_neighbours_def split: sum.splits)
  have mem: "(a, as) \<in> set scs" "(b, bs) \<in> set scs" using pairwise_in[OF assms(3)] by simp_all
  have "set (drop (length as - 1) as) \<subseteq> set as" "set (take 1 bs) \<subseteq> set bs" by (rule set_drop_subset set_take_subset)+
  then have chunks: "set ?chunks \<subseteq> ck_id ` \<Union> (set ` snd ` set scs)" using mem by force
  have s: "b \<in> fst ` set scs" "set [se_id a, se_id b] \<subseteq> se_id ` fst ` set scs" using mem by force+
  show ?thesis
    by (rule each_ok_keeps[OF run, where P = "all_made env mode scs"])
      (use assms(2) add_new_made[OF _ _ s(1) fs _ chunks s(2)] in auto)
qed

lemma scan_sources_made:
  assumes "scan_sources env mode scs = Inr st"
  shows "all_made env mode scs st"
proof -
  let ?Q = "all_made env mode scs"
  obtain s1 s2 where s1: "each_ok (\<lambda>(s, cs). each_ok (scan_chunk env mode s) cs) scs \<lparr>sn_evidence = [], sn_seen = []\<rparr> = Inr s1"
    and s2: "each_ok (\<lambda>(s, cs). each_ok (scan_pair env mode s) (pairwise cs)) scs s1 = Inr s2"
    and s3: "each_ok (scan_neighbours env mode) (pairwise scs) s2 = Inr st"
    using assms by (auto simp: scan_sources_def split: sum.splits)
  have "?Q s1"
  proof (rule each_ok_keeps[OF s1])
    fix x s t
    assume x: "x \<in> set scs" "?Q s" "(case x of (s, cs) \<Rightarrow> each_ok (scan_chunk env mode s) cs) s = Inr t"
    obtain a cs where a: "x = (a, cs)" by (cases x)
    have run: "each_ok (scan_chunk env mode a) cs s = Inr t" using x(3) a by simp
    show "?Q t" by (rule each_ok_keeps[OF run, where P = ?Q]) (use x a scan_chunk_made in auto)
  qed (simp add: all_made_def)
  then have "?Q s2"
  proof (rule each_ok_keeps[OF s2, rotated 0])
    fix x s t
    assume x: "x \<in> set scs" "?Q s" "(case x of (s, cs) \<Rightarrow> each_ok (scan_pair env mode s) (pairwise cs)) s = Inr t"
    obtain a cs where a: "x = (a, cs)" by (cases x)
    have run: "each_ok (scan_pair env mode a) (pairwise cs) s = Inr t" using x(3) a by simp
    show "?Q t" by (rule each_ok_keeps[OF run, where P = ?Q]) (use x a scan_pair_made in auto)
  qed
  then show ?thesis
    by (rule each_ok_keeps[OF s3]) (use scan_neighbours_made in auto)
qed

text \<open>Evidence is replaced, never dropped.\<close>

lemma keyed_put_not_Nil: "keyed_put key r rows \<noteq> []"
  using keyed_put_keys[of key r rows] by (metis image_is_empty insert_not_empty list.set(1))

lemma add_finding_some: "add_finding env s layer chunks related f st = Inr st' \<Longrightarrow> sn_evidence st' \<noteq> []"
  by (auto elim: add_finding_cases simp: keyed_put_not_Nil)

lemma add_new_some: "add_new env known s chunks related f st = Inr st' \<Longrightarrow> sn_evidence st \<noteq> [] \<Longrightarrow> sn_evidence st' \<noteq> []"
  using add_finding_some by (auto simp: add_new_def split: if_splits)

lemma add_news_some:
  assumes "each_ok (add_new env known s chunks related) fs u = Inr t" "sn_evidence u \<noteq> []"
  shows "sn_evidence t \<noteq> []"
  by (rule each_ok_keeps[OF assms(1), where P = "\<lambda>st. sn_evidence st \<noteq> []"]) (use assms(2) add_new_some in auto)

lemma scan_sources_some:
  assumes "scan_sources env mode scs = Inr st" "(s, cs) \<in> set scs" "c \<in> set cs"
    and some: "\<And>fs. findings_in env mode (se_flags s) (ck_text c) (se_type s) = Inr fs \<Longrightarrow> fs \<noteq> []"
  shows "sn_evidence st \<noteq> []"
proof -
  let ?Q = "\<lambda>st. sn_evidence st \<noteq> []"
  obtain s1 s2 where s1: "each_ok (\<lambda>(s, cs). each_ok (scan_chunk env mode s) cs) scs \<lparr>sn_evidence = [], sn_seen = []\<rparr> = Inr s1"
    and s2: "each_ok (\<lambda>(s, cs). each_ok (scan_pair env mode s) (pairwise cs)) scs s1 = Inr s2"
    and s3: "each_ok (scan_neighbours env mode) (pairwise scs) s2 = Inr st"
    using assms(1) by (auto simp: scan_sources_def split: sum.splits)
  have keep: "?Q u \<Longrightarrow> scan_chunk env mode x d u = Inr t \<Longrightarrow> ?Q t" for x d u t
    using add_finding_some each_ok_keeps[of _ _ u t ?Q]
    by (auto simp: scan_chunk_def split: sum.splits) blast+
  have start: "scan_chunk env mode s c u = Inr t \<Longrightarrow> ?Q t" for u t
  proof -
    assume "scan_chunk env mode s c u = Inr t"
    then obtain f fs where "findings_in env mode (se_flags s) (ck_text c) (se_type s) = Inr (f # fs)"
      and run: "each_ok (\<lambda>f st. add_finding (sx_text env) s (fd_layer f) [ck_id c] [se_id s] f
        (st\<lparr>sn_seen := (se_id s, signature_of f) # sn_seen st\<rparr>)) (f # fs) u = Inr t"
      using some by (auto simp: scan_chunk_def neq_Nil_conv split: sum.splits)
    show "?Q t" by (rule each_ok_reaches[OF run, of f]) (use add_finding_some in auto)
  qed
  have "?Q s1"
  proof (rule each_ok_reaches[OF s1 assms(2)])
    fix u t
    assume "(case (s, cs) of (s, cs) \<Rightarrow> each_ok (scan_chunk env mode s) cs) u = Inr t"
    then have run: "each_ok (scan_chunk env mode s) cs u = Inr t" by simp
    show "?Q t" by (rule each_ok_reaches[OF run assms(3)]) (use start keep in blast)+
  next
    fix y u t
    assume u: "?Q u" "(case y of (s, cs) \<Rightarrow> each_ok (scan_chunk env mode s) cs) u = Inr t"
    obtain a ds where y: "y = (a, ds)" by (cases y)
    have run: "each_ok (scan_chunk env mode a) ds u = Inr t" using u(2) y by simp
    show "?Q t" by (rule each_ok_keeps[OF run, where P = ?Q]) (use u(1) keep in blast)+
  qed
  then have "?Q s2"
  proof (rule each_ok_keeps[OF s2])
    fix y u t
    assume u: "?Q u" "(case y of (s, cs) \<Rightarrow> each_ok (scan_pair env mode s) (pairwise cs)) u = Inr t"
    obtain a ds where y: "y = (a, ds)" by (cases y)
    have run: "each_ok (scan_pair env mode a) (pairwise ds) u = Inr t" using u(2) y by simp
    show "?Q t"
    proof (rule each_ok_keeps[OF run, where P = ?Q])
      fix x u t
      assume "?Q u" "scan_pair env mode a x u = Inr t"
      then show "?Q t" using add_news_some by (cases x) (auto simp: scan_pair_def split: sum.splits)
    qed (use u in simp)
  qed
  then show ?thesis
  proof (rule each_ok_keeps[OF s3])
    fix x u t
    assume u: "?Q u" "scan_neighbours env mode x u = Inr t"
    obtain a as b bs where x: "x = ((a, as), (b, bs))" by (metis surj_pair)
    show "?Q t"
      using u add_news_some unfolding x by (auto simp: scan_neighbours_def split: sum.splits if_splits)
  qed
qed

section \<open>Chunks of the sources\<close>

lemma chunk_sources_all:
  "chunk_sources env mx ov ss = Inr scs \<Longrightarrow>
     map fst scs = ss \<and> (\<forall>(s, cs) \<in> set scs. chunk_source env s mx ov = Inr cs)"
  by (induction ss arbitrary: scs) (auto split: sum.splits)

lemma chunk_source_spans:
  assumes "chunk_source env s mx ov = Inr cs"
  shows "256 \<le> mx \<and> 0 \<le> ov \<and> ov < mx \<and>
    cs = map (make_chunk env s) (enumerate 0 (chunk_spans (se_text s) (nat mx) (nat ov) 0))"
  using assms by (auto simp: chunk_source_def Let_def split: if_splits)

lemma chunk_source_window:
  assumes "chunk_source env s mx ov = Inr cs" "2 * ov \<le> mx" "sublist w (se_text s)" "w \<noteq> []" "length w \<le> nat ov + 1"
  shows "\<exists>c \<in> set cs. sublist w (ck_text c)"
proof -
  note run = chunk_source_spans[OF assms(1)]
  obtain u v where t: "se_text s = u @ w @ v" using assms(3) by (auto simp: sublist_def)
  have ov: "2 * nat ov \<le> nat mx" using run assms(2) by linarith
  obtain a b where ab: "(a, b) \<in> set (chunk_spans (se_text s) (nat mx) (nat ov) 0)" "a \<le> length u" "length u + length w \<le> b"
    using chunk_spans_window[of "nat ov" "nat mx" "length w" "length u" "se_text s" 0] ov run assms(4,5) t by auto
  then obtain i where "i < length (chunk_spans (se_text s) (nat mx) (nat ov) 0)"
    "chunk_spans (se_text s) (nat mx) (nat ov) 0 ! i = (a, b)" by (auto simp: in_set_conv_nth)
  then have i: "(i, a, b) \<in> set (enumerate 0 (chunk_spans (se_text s) (nat mx) (nat ov) 0))"
    by (simp add: in_set_enumerate_eq)
  have "drop a (se_text s) = drop a u @ w @ v" using ab(2) t by simp
  then have "span_text (se_text s) (a, b) = drop a u @ w @ take (b - a - (length u - a) - length w) v"
    using ab(2,3) by (simp add: span_text_def)
  then have "sublist w (span_text (se_text s) (a, b))" by (auto simp: sublist_def)
  then have "sublist w (ck_text (make_chunk env s (i, a, b)))" by (simp add: make_chunk_def Let_def)
  then show ?thesis using run i by auto
qed

end
