(* ===== verification/Spec2Isabelle.thy ===== *)
theory Spec2Isabelle
  imports GuardProps GatewayProps AccessProps RouterProps TaskProps AuditProps ModelProps RedisProps SkillProps AgentProps
    GraphBuild ShieldProps
begin

text \<open>
  A verification development of SafeAgent-Gov: the governance runtime that stands between an agent
  and its tools. Paths below are under \<^verbatim>\<open>src/\<close>; \<open>gateway/\<close> is \<^verbatim>\<open>research_technology/mcp/gateway/\<close>.

  \<^bold>\<open>The program.\<close> An agent (\<^verbatim>\<open>agent_demo/langgraph_agent/\<close>) inspects a request, asks a planner for tool
  calls, has the request analysed along a routed plan and runs each call through the gateway
  (\<open>gateway/runtime.py\<close>). The gateway lets the policy guard decide, follows the labels of the data, checks
  a planned step and a capability ticket, suspends calls that need an approval, runs the tool and writes
  everything to a signed audit trail. Around it stand the API boundary, the skill executor, the model
  gateway, two task runtimes and a capability graph that is built from the repository under review and
  learns from audited traces.

  \<^bold>\<open>What models what.\<close>
    \<^item> \<open>Prelude\<close>: operations with explicit state and errors as sums (\<open>op_bind\<close>), keyed tables, Python's
      \<open>max(key=)\<close>, the locale \<open>ranked\<close>. \<open>PyValues\<close>, \<open>PyNet\<close>, \<open>JsonText\<close>, \<open>B64\<close>: what is used of Python's values,
      paths, URLs, JSON text and URL-safe Base64. \<open>Contracts\<close>: \<^verbatim>\<open>safeagent_gov/contracts.py\<close>.
    \<^item> \<open>PolicyReleases\<close>, \<open>Taint\<close>, \<open>Guard\<close>: the files of the same names in \<open>gateway/\<close>. Policies and the release
      table, the labels of data, and \<open>check_tool_call\<close> branch by branch.
    \<^item> \<open>Ledger\<close>, \<open>Capabilities\<close>: \<open>capabilities.py\<close>. The locale \<open>usage_ledger\<close> is what the ticket service relies
      on; it is interpreted on the ledger in memory and on the one in SQLite.
    \<^item> \<open>TaskGraphs\<close>: \<open>task_graph.py\<close>. \<open>Lifecycle\<close>, \<open>Approvals\<close>: \<open>approvals.py\<close>; the locale \<open>lifecycle\<close> (statuses that
      only move forward) is interpreted on the table of approvals.
    \<^item> \<open>Servers\<close>, \<open>GatewayRuntime\<close>: the tool simulators and \<open>runtime.py\<close> (\<open>guarded_tool_call\<close>,
      \<open>resume_approved_tool_call\<close>, \<open>issue_tool_capability\<close>) over one \<open>gateway\<close> state. \<open>Demo\<close> is a concrete gateway.
    \<^item> \<open>Auth\<close>, \<open>ApiAccess\<close>: \<^verbatim>\<open>safeagent_gov/auth.py\<close>, \<^verbatim>\<open>backend/auth.py\<close>, \<^verbatim>\<open>backend/rate_limit.py\<close>.
    \<^item> \<open>RouterExec\<close>, \<open>RouterPlanning\<close>: \<^verbatim>\<open>safeagent_gov/router/\<close>.
    \<^item> \<open>TaskRuntime\<close> (\<open>dispatcher.py\<close>, \<open>contracts.py\<close> of \<^verbatim>\<open>safeagent_gov/task_runtime/\<close>) with its submitters and
      workers as threads whose atomic sections interleave; \<open>RedisStore\<close> (\<open>redis_store.py\<close>), every transaction
      over sorted sets and records.
    \<^item> \<open>AuditChain\<close>, \<open>AuditVerify\<close>, \<open>AuditViews\<close>, \<open>Replay\<close>: \<open>audit.py\<close>, \<open>integrity.py\<close>, \<open>replay.py\<close> of
      \<^verbatim>\<open>skills/traceaudit-gov/src/\<close> and the migration of \<^verbatim>\<open>backend/database.py\<close>.
    \<^item> \<open>ModelContracts\<close>, \<open>ModelGateway\<close>: \<^verbatim>\<open>safeagent_gov/model_gateway/\<close> (registry, breakers, routing, cache,
      retries, fallback, audit of a call).
    \<^item> \<open>SkillRuntime\<close>, \<open>SkillAdapters\<close>: \<^verbatim>\<open>safeagent_gov/skill_runtime/\<close>.
    \<^item> \<open>ShieldText\<close>, \<open>ShieldDetect\<close>, \<open>ShieldSources\<close>: the input analysis of \<^verbatim>\<open>skills/promptshield-gov/src/\<close>: sources and
      their chunks, rules, classifier and reviewer, evidence and verdicts.
    \<^item> \<open>AgentPlans\<close>: the schemas, the validation and the resilience of \<^verbatim>\<open>agent_demo/planners/\<close>; \<open>AgentFlow\<close>: the
      nodes of \<open>nodes.py\<close> and \<open>orchestrator.py\<close> and their order in \<open>agent.py\<close>, over the gateway, the skill
      executor and the router.
    \<^item> \<open>GraphContracts\<close>, \<open>GraphStore\<close>, \<open>GraphSearch\<close>, \<open>GraphScan\<close>: \<^verbatim>\<open>safeagent_gov/graphify/\<close>. The tables with the reviewed
      replacement of the snapshot and the learned paths, the graph in memory with retrieval, learning and
      health, and the scan of the repository.

  \<^bold>\<open>What the lemmas show.\<close> Every operation of the stateful components keeps the invariant of its state
  (\<open>Approvals\<close>, \<open>TaskInvariants\<close> with \<open>TaskBounds\<close>, \<open>RedisInvariants\<close>, \<open>GraphInvariants\<close>); \<open>ModelRules\<close> and \<open>ModelEffects\<close>
  carry an invariant of the steps of a model call to whole calls, \<open>AgentRuns\<close> takes a run of the agent apart.
  The properties are in the theories whose names end in \<open>Props\<close>, in \<open>GraphUse\<close> and in \<open>GraphBuild\<close>:
    \<^item> \<open>GuardProps\<close>, \<open>GatewayProps\<close>: a call that ran was allowed, ticketed and, where needed, approved; a ticket
      grants its number of uses, an approval one call; files stay in their directories, restricted data at home.
    \<^item> \<open>AccessProps\<close>, \<open>RouterProps\<close>, \<open>SkillProps\<close>: tokens, the limiter, fan-in and the skill executor fail closed.
    \<^item> \<open>TaskProps\<close>, \<open>RedisProps\<close>: one holder per task, no accepted task lost, bounded queues, no commit without
      the lease, and a refinement of the distributed store to a small abstract task.
    \<^item> \<open>AuditProps\<close>: tampering is detected, secrets are not stored, a viewer sees no input.
    \<^item> \<open>ShieldFacts\<close>, \<open>ShieldProps\<close>: chunks cover the text, a rule keyword never passes, high risks in external
      content are isolated.
    \<^item> \<open>ModelProps\<close>: private requests stay private and every call is audited.
    \<^item> \<open>AgentProps\<close>: what the agent executes is governed; plans are validated; the planner loop is bounded.
    \<^item> \<open>GraphProps\<close>, \<open>GraphUse\<close>, \<open>GraphBuild\<close>: skills and tools change under review only, alterations are named,
      traces count once, mandatory skills are always offered, learned paths have earned it, and a freshly
      built graph is governed.
  Some lemmas state inputs on which the code is weaker than it says; they end the theories of their component.

  \<^bold>\<open>Parameters.\<close> What is not under \<^verbatim>\<open>src/\<close> is an argument: SHA-256 and HMAC, \<open>json.loads\<close> and the YAML and Python
  parsers, pydantic's reading of configuration files, networkx (topological generations, shortest paths), the
  operating system's files and clocks, \<open>re.search\<close>, the logistic function, the planner, the model providers and the
  detectors behind the skills.
  A MAC or hash is never assumed injective: where a property depends on it, the statement says which digests
  have to differ. Redis applies a transaction atomically or not at all; SQLite likewise.

  \<^bold>\<open>Conventions.\<close> Texts are lists of characters, with case folding on ASCII letters; messages that are Chinese in the
  code are short English ones here, and reasons that no code reads are left out. Floats are exact rationals in
  prices, costs, scores and rates, and carried by their printed form in JSON values. Clocks are integers
  (milliseconds) or texts, as in the code. Errors are values of a datatype per component in a sum.

  \<^bold>\<open>Bounds and fuel.\<close> Recursion is structural or has a termination proof, with these exceptions: the masking of
  a text recurses with the length of the text as fuel, and each step consumes a character, so it is not
  exhausted; the retries of the Redis store are bounded by 64 as they are in the code, and running out is the
  error the code raises; a Redis transaction that loses its race is repeated by the client, of which the model
  keeps the attempt that wins.

  \<^bold>\<open>Not modelled.\<close> The detectors of sensitive data and compliance (tables of regular expressions) and the package
  scanner SkillScan (syntax trees, lock files and archives), Unicode normalisation, and the readers of HTML and
  documents in front of the input analysis.
  The similarity index of the graph and its evaluation on a case set. HTTP clients of providers and planners,
  FastAPI routes, the message broker and worker processes around the Redis store, the desktop shell, scripts
  and benchmarks: input and output around the operations above. The concurrency slots of the model gateway and
  of the skill executor: a call runs alone there.
\<close>

end
